(* ===== verification/Py_Prelude.thy ===== *)
theory Py_Prelude
  imports Main "HOL-Library.List_Lexorder" "HOL-Library.Char_ord"
begin

text \<open>
  What every component shares: the Python exceptions of the program as values, the
  combinators for guards and early returns, the values that travel in its contracts
  (JSON-shaped dictionaries), their equality, and the string operations the code uses.

  A Python \<^verbatim>\<open>str\<close> is a \<^typ>\<open>string\<close> that holds its UTF-8 bytes (a lone surrogate is kept
  as its three-byte form, bytes ED A0..BF xx). Equality, prefixes, substrings with an ASCII
  needle, concatenation and order (UTF-8 keeps the order of code points) are then those of
  the byte lists; where the code counts or classifies characters the model decodes first
  (\<open>code_points\<close>).
\<close>

section \<open>Exceptions and results\<close>

text \<open>The exception classes of the modelled files and the built-in ones they meet.\<close>

datatype exc_class =
    ValueError | KeyError | TypeError | AttributeError | IndexError | OverflowError
  | RuntimeError | UnicodeEncodeError | IntegrityError | ForeignError
  | ContractValidationError | InvalidTransition
  | ProcessStoreError | ProcessNotFound | VersionConflict
  | PolicyUnavailable | PublicationSeedError | PublicationRecoveryRequired | SimulatedCrash
  | ControlledPublicationError | R5AttemptLedgerError | CredentialLeakDetected
  | ControlledPublicationJournalError | ControlledPublicationOutcomeUnknownError
  | EventConflictError | PreDispatchError | ObservationStoreError | SimulationBranchError
  | SandboxError | ExecutionError | StageApprovalError | ApprovalRequestError
  | DurableStageError | DurableStageStoreError | DurableStageNotFound | DurableStageConflict
  | UnicodeDecodeError | OSError | ControlledPublicationCallFailedError
  | WorkerJournalError | WorkerOutcomeUnknownError | WorkerProposalFailedError
  | VerifierJournalError | VerifierOutcomeUnknownError | VerifierCallFailedError
  | SandboxJournalError | SandboxOutcomeUnknownError | SandboxCallFailedError
  | StageJournalError | StageOutcomeUnknownError | StageCallFailedError
  | SnapshotJournalError | SnapshotOutcomeUnknownError | SnapshotCallFailedError
  | SnapshotPinDecisionError | SnapshotPinDecisionOutcomeUnknownError
  | ExecutionAuthorizationJournalError | ExecutionAuthorizationOutcomeUnknownError
  | AllowlistedTestFailureError
  | GitHubSnapshotError | RemoteSnapshotWorkspaceError | RecursionError
  | VerifierProcessError | VerifierAttestationError | VerifierTrustEnrollmentError
  | VerifierHostTrustDecisionError | VerifierProvenanceError
  | ModelRequestProtocolError | WorkerModelIPCError | RemoteExecutionPermitError | R5ExecutionError

datatype exn = Exn (exn_class: exc_class) (exn_msg: string)

text \<open>The classes a handler \<^verbatim>\<open>except ValueError\<close> catches.\<close>

fun is_value_error :: "exn \<Rightarrow> bool" where
  "is_value_error (Exn c m) = (c \<in> {ValueError, UnicodeEncodeError, UnicodeDecodeError,
     ContractValidationError, AllowlistedTestFailureError,
     InvalidTransition, PublicationSeedError, ControlledPublicationError,
     R5AttemptLedgerError, EventConflictError, SimulationBranchError, ExecutionError,
     StageApprovalError, ApprovalRequestError, DurableStageError,
     GitHubSnapshotError, RemoteSnapshotWorkspaceError,
     VerifierProcessError, VerifierAttestationError, VerifierTrustEnrollmentError,
     VerifierHostTrustDecisionError, VerifierProvenanceError,
     ModelRequestProtocolError, WorkerModelIPCError, RemoteExecutionPermitError, R5ExecutionError})"

type_synonym 'a res = "exn + 'a"

abbreviation raise :: "exc_class \<Rightarrow> string \<Rightarrow> 'a res" where
  "raise c m \<equiv> Inl (Exn c m)"

text \<open>\<open>unless bad e k\<close> is \<^verbatim>\<open>if bad: raise e\<close> followed by the rest \<open>k\<close>.\<close>

definition unless :: "bool \<Rightarrow> exn \<Rightarrow> 'a res \<Rightarrow> 'a res" where
  "unless bad e k = (if bad then Inl e else k)"

definition rbind :: "'a res \<Rightarrow> ('a \<Rightarrow> 'b res) \<Rightarrow> 'b res" where
  "rbind m f = (case m of Inl e \<Rightarrow> Inl e | Inr x \<Rightarrow> f x)"

text \<open>\<open>rcatch m h\<close> is \<^verbatim>\<open>try: m; except ...: h\<close>; the handler sees the exception.\<close>

definition rcatch :: "'a res \<Rightarrow> (exn \<Rightarrow> 'a res) \<Rightarrow> 'a res" where
  "rcatch m h = (case m of Inl e \<Rightarrow> h e | Inr x \<Rightarrow> Inr x)"

definition is_ok :: "'a res \<Rightarrow> bool" where
  "is_ok m = (case m of Inl _ \<Rightarrow> False | Inr _ \<Rightarrow> True)"

text \<open>A loop whose body only checks: it stops at the first exception.\<close>

fun check_each :: "('a \<Rightarrow> unit res) \<Rightarrow> 'a list \<Rightarrow> unit res" where
  "check_each f [] = Inr ()"
| "check_each f (x # xs) = (case f x of Inl e \<Rightarrow> Inl e | Inr _ \<Rightarrow> check_each f xs)"

fun map_res :: "('a \<Rightarrow> 'b res) \<Rightarrow> 'a list \<Rightarrow> 'b list res" where
  "map_res f [] = Inr []"
| "map_res f (x # xs) = (case f x of Inl e \<Rightarrow> Inl e
     | Inr y \<Rightarrow> (case map_res f xs of Inl e \<Rightarrow> Inl e | Inr ys \<Rightarrow> Inr (y # ys)))"

lemma unless_Inr [simp]: "unless b e k = Inr y \<longleftrightarrow> \<not> b \<and> k = Inr y"
  by (simp add: unless_def)

lemma unless_Inl: "unless b e k = Inl x \<longleftrightarrow> (b \<and> x = e) \<or> (\<not> b \<and> k = Inl x)"
  by (auto simp: unless_def)

lemma unless_True [simp]: "unless True e k = Inl e"
  by (simp add: unless_def)

lemma unless_False [simp]: "unless False e k = k"
  by (simp add: unless_def)

lemma unless_cong [cong]:
  "b = b' \<Longrightarrow> e = e' \<Longrightarrow> (\<not> b' \<Longrightarrow> k = k') \<Longrightarrow> unless b e k = unless b' e' k'"
  by (simp add: unless_def)

lemma rbind_Inr [simp]: "rbind m f = Inr y \<longleftrightarrow> (\<exists>x. m = Inr x \<and> f x = Inr y)"
  by (simp add: rbind_def split: sum.splits)

lemma rbind_Inl: "rbind m f = Inl e \<longleftrightarrow> m = Inl e \<or> (\<exists>x. m = Inr x \<and> f x = Inl e)"
  by (auto simp: rbind_def split: sum.splits)

lemma rbind_simps [simp]: "rbind (Inl e) f = Inl e" "rbind (Inr x) f = f x"
  by (simp_all add: rbind_def)

lemma rcatch_simps [simp]: "rcatch (Inl e) h = h e" "rcatch (Inr x) h = Inr x"
  by (simp_all add: rcatch_def)

lemma rcatch_Inr: "rcatch m h = Inr y \<longleftrightarrow> m = Inr y \<or> (\<exists>e. m = Inl e \<and> h e = Inr y)"
  by (auto simp: rcatch_def split: sum.splits)

lemma is_ok_simps [simp]: "is_ok (Inl e) = False" "is_ok (Inr x) = True"
  by (simp_all add: is_ok_def)

lemma is_ok_iff: "is_ok m \<longleftrightarrow> (\<exists>x. m = Inr x)"
  by (cases m) auto

lemma is_ok_unless [simp]: "is_ok (unless b e k) \<longleftrightarrow> \<not> b \<and> is_ok k"
  by (simp add: unless_def)

lemma is_ok_rbind: "is_ok (rbind m f) \<longleftrightarrow> (\<exists>x. m = Inr x \<and> is_ok (f x))"
  by (cases m) auto

lemma check_each_Inr [simp]: "check_each f xs = Inr u \<longleftrightarrow> (\<forall>x\<in>set xs. f x = Inr ())"
  by (induction xs) (auto split: sum.splits)

lemma check_each_Inl: "check_each f xs = Inl e \<Longrightarrow> \<exists>x\<in>set xs. f x = Inl e"
  by (induction xs) (auto split: sum.splits)

lemma map_res_all: "(\<And>x. x \<in> set xs \<Longrightarrow> f x = Inr (g x)) \<Longrightarrow> map_res f xs = Inr (map g xs)"
  by (induction xs) auto

lemma is_ok_check_each: "is_ok (check_each f xs) \<longleftrightarrow> (\<forall>x\<in>set xs. is_ok (f x))"
  by (induction xs) (auto split: sum.splits)

declare check_each.simps(2) [simp del]

section \<open>Effects: a result and the new state\<close>

type_synonym ('s, 'a) eff = "'s \<Rightarrow> 'a res \<times> 's"

definition eret :: "'a \<Rightarrow> ('s, 'a) eff" where
  "eret x = (\<lambda>s. (Inr x, s))"

definition elift :: "'a res \<Rightarrow> ('s, 'a) eff" where
  "elift m = (\<lambda>s. (m, s))"

definition ebind :: "('s, 'a) eff \<Rightarrow> ('a \<Rightarrow> ('s, 'b) eff) \<Rightarrow> ('s, 'b) eff" where
  "ebind m f = (\<lambda>s. case m s of (Inl e, t) \<Rightarrow> (Inl e, t) | (Inr x, t) \<Rightarrow> f x t)"

definition ecatch :: "('s, 'a) eff \<Rightarrow> (exn \<Rightarrow> ('s, 'a) eff) \<Rightarrow> ('s, 'a) eff" where
  "ecatch m h = (\<lambda>s. case m s of (Inl e, t) \<Rightarrow> h e t | (Inr x, t) \<Rightarrow> (Inr x, t))"

definition eunless :: "bool \<Rightarrow> exn \<Rightarrow> ('s, 'a) eff \<Rightarrow> ('s, 'a) eff" where
  "eunless bad e k = (\<lambda>s. if bad then (Inl e, s) else k s)"

lemma eret_apply [simp]: "eret x s = (Inr x, s)"
  by (simp add: eret_def)

lemma elift_apply [simp]: "elift m s = (m, s)"
  by (simp add: elift_def)

lemma eunless_Inr [simp]: "eunless b e k s = (Inr y, t) \<longleftrightarrow> \<not> b \<and> k s = (Inr y, t)"
  by (simp add: eunless_def)

lemma eunless_simps [simp]: "eunless True e k s = (Inl e, s)" "eunless False e k s = k s"
  by (simp_all add: eunless_def)

lemma eunless_Inl: "eunless b e k s = (Inl x, t) \<longleftrightarrow> (b \<and> x = e \<and> t = s) \<or> (\<not> b \<and> k s = (Inl x, t))"
  by (auto simp: eunless_def)

lemma ebind_Inr [simp]:
  "ebind m f s = (Inr y, t) \<longleftrightarrow> (\<exists>x u. m s = (Inr x, u) \<and> f x u = (Inr y, t))"
  by (auto simp: ebind_def split: prod.splits sum.splits)

lemma ebind_Inl:
  "ebind m f s = (Inl e, t) \<longleftrightarrow>
     m s = (Inl e, t) \<or> (\<exists>x u. m s = (Inr x, u) \<and> f x u = (Inl e, t))"
  by (auto simp: ebind_def split: prod.splits sum.splits)

lemma ebind_apply_Inr: "m s = (Inr x, t) \<Longrightarrow> ebind m f s = f x t"
  by (simp add: ebind_def)

lemma ebind_apply_Inl: "m s = (Inl e, t) \<Longrightarrow> ebind m f s = (Inl e, t)"
  by (simp add: ebind_def)

lemma ecatch_apply_Inr: "m s = (Inr x, t) \<Longrightarrow> ecatch m h s = (Inr x, t)"
  by (simp add: ecatch_def)

lemma ecatch_apply_Inl: "m s = (Inl e, t) \<Longrightarrow> ecatch m h s = h e t"
  by (simp add: ecatch_def)

lemma ebind_ecatch:
  "ebind (ecatch m h) k s = (case m s of (Inl x, u) \<Rightarrow> ebind (h x) k u | (Inr z, u) \<Rightarrow> k z u)"
  by (auto simp: ebind_def ecatch_def split: prod.splits sum.splits)

lemma ebind_eret [simp]: "ebind (eret x) f = f x"
  by (simp add: ebind_def fun_eq_iff)

lemma ebind_elift_apply [simp]:
  "ebind (elift m) f s = (case m of Inl e \<Rightarrow> (Inl e, s) | Inr x \<Rightarrow> f x s)"
  by (simp add: ebind_def split: sum.splits)

end
