(* ===== verification/Py_Values.thy ===== *)
theory Py_Values
  imports Py_Prelude
begin

text \<open>
  The values of the contracts and the string operations of the code: strings as their UTF-8
  bytes, JSON-shaped values, dictionary access with and without a default, and Python's
  equality on them.
\<close>

section \<open>Strings\<close>

abbreviation byte :: "char \<Rightarrow> nat" where
  "byte c \<equiv> of_char c"

text \<open>The code points of the UTF-8 bytes (the last two arguments of a lead byte are its tail).\<close>

fun code_points :: "string \<Rightarrow> nat list" where
  "code_points [] = []"
| "code_points (c # cs) =
    (if byte c < 128 then byte c # code_points cs
     else if byte c < 224 then
       (case cs of a # r \<Rightarrow> ((byte c mod 32) * 64 + byte a mod 64) # code_points r
        | _ \<Rightarrow> [byte c])
     else if byte c < 240 then
       (case cs of a # b # r \<Rightarrow>
          ((byte c mod 16) * 4096 + (byte a mod 64) * 64 + byte b mod 64) # code_points r
        | _ \<Rightarrow> [byte c])
     else
       (case cs of a # b # d # r \<Rightarrow>
          ((byte c mod 8) * 262144 + (byte a mod 64) * 4096 + (byte b mod 64) * 64
             + byte d mod 64) # code_points r
        | _ \<Rightarrow> [byte c]))"

text \<open>\<^verbatim>\<open>len(s)\<close> counts code points.\<close>

definition py_len :: "string \<Rightarrow> nat" where
  "py_len s = length (code_points s)"

text \<open>\<^verbatim>\<open>str.isspace\<close> of one character (Unicode white space).\<close>

definition is_space :: "nat \<Rightarrow> bool" where
  "is_space n \<longleftrightarrow> n \<in> set [9, 10, 11, 12, 13, 28, 29, 30, 31, 32, 133, 160, 5760,
     8192, 8193, 8194, 8195, 8196, 8197, 8198, 8199, 8200, 8201, 8202,
     8232, 8233, 8239, 8287, 12288]"

definition is_control :: "nat \<Rightarrow> bool" where
  "is_control n \<longleftrightarrow> n < 32 \<or> n = 127"

definition any_char :: "(nat \<Rightarrow> bool) \<Rightarrow> string \<Rightarrow> bool" where
  "any_char P s = list_ex P (code_points s)"

text \<open>\<^verbatim>\<open>value != value.strip()\<close>: the first or the last character is white space.\<close>

definition strip_changes :: "string \<Rightarrow> bool" where
  "strip_changes s =
     (let cps = code_points s in cps \<noteq> [] \<and> (is_space (hd cps) \<or> is_space (last cps)))"

text \<open>A lone surrogate: UTF-8 encoding with \<^verbatim>\<open>errors="strict"\<close> raises UnicodeEncodeError.\<close>

definition is_surrogate :: "nat \<Rightarrow> bool" where
  "is_surrogate n \<longleftrightarrow> 55296 \<le> n \<and> n \<le> 57343"

definition has_surrogate :: "string \<Rightarrow> bool" where
  "has_surrogate s = any_char is_surrogate s"

fun startswith :: "string \<Rightarrow> string \<Rightarrow> bool" where
  "startswith s [] = True"
| "startswith [] (p # ps) = False"
| "startswith (c # cs) (p # ps) = (c = p \<and> startswith cs ps)"

definition endswith :: "string \<Rightarrow> string \<Rightarrow> bool" where
  "endswith s p = startswith (rev s) (rev p)"

fun contains :: "string \<Rightarrow> string \<Rightarrow> bool" where
  "contains n [] = (n = [])"
| "contains n (c # cs) = (startswith (c # cs) n \<or> contains n cs)"

definition removeprefix :: "string \<Rightarrow> string \<Rightarrow> string" where
  "removeprefix p s = (if startswith s p then drop (length p) s else s)"

text \<open>\<^verbatim>\<open>str.split(sep)\<close> for a one-character separator: never an empty list.\<close>

fun split_on :: "char \<Rightarrow> string \<Rightarrow> string list" where
  "split_on d [] = [[]]"
| "split_on d (c # cs) =
     (if c = d then [] # split_on d cs
      else (case split_on d cs of [] \<Rightarrow> [[c]] | w # ws \<Rightarrow> (c # w) # ws))"

text \<open>\<^verbatim>\<open>str.replace(c, t)\<close> for a one-character pattern.\<close>

definition replace_char :: "char \<Rightarrow> string \<Rightarrow> string \<Rightarrow> string" where
  "replace_char c t s = concat (map (\<lambda>x. if x = c then t else [x]) s)"

definition is_lower_hex :: "char \<Rightarrow> bool" where
  "is_lower_hex c \<longleftrightarrow> (48 \<le> byte c \<and> byte c \<le> 57) \<or> (97 \<le> byte c \<and> byte c \<le> 102)"

definition is_digit :: "char \<Rightarrow> bool" where
  "is_digit c \<longleftrightarrow> 48 \<le> byte c \<and> byte c \<le> 57"

definition is_alnum :: "char \<Rightarrow> bool" where
  "is_alnum c \<longleftrightarrow> (48 \<le> byte c \<and> byte c \<le> 57) \<or> (65 \<le> byte c \<and> byte c \<le> 90)
     \<or> (97 \<le> byte c \<and> byte c \<le> 122)"

text \<open>\<^verbatim>\<open>re.fullmatch(r"sha256:[0-9a-f]{64}", s)\<close>.\<close>

definition is_digest :: "string \<Rightarrow> bool" where
  "is_digest s \<longleftrightarrow> startswith s ''sha256:'' \<and> length s = 71 \<and> list_all is_lower_hex (drop 7 s)"

text \<open>\<^verbatim>\<open>bytes.fromhex\<close> on lower-case digits.\<close>

definition nibble :: "char \<Rightarrow> nat" where
  "nibble c = (if is_digit c then byte c - 48 else byte c - 87)"

fun bytes_of_hex :: "string \<Rightarrow> string" where
  "bytes_of_hex (a # b # r) = char_of (16 * nibble a + nibble b) # bytes_of_hex r"
| "bytes_of_hex _ = []"

definition is_hex40 :: "string \<Rightarrow> bool" where
  "is_hex40 s \<longleftrightarrow> length s = 40 \<and> list_all is_lower_hex s"

lemma startswith_iff: "startswith s p \<longleftrightarrow> (\<exists>t. s = p @ t)"
  by (induction s p rule: startswith.induct) auto

lemma startswith_append [simp]: "startswith (p @ t) p"
  by (auto simp: startswith_iff)

lemma removeprefix_append [simp]: "removeprefix p (p @ t) = t"
  by (simp add: removeprefix_def)

lemma split_on_nonempty [simp]: "split_on d s \<noteq> []"
  by (induction s) (auto split: list.splits)

lemma split_on_no_sep: "d \<notin> set s \<Longrightarrow> split_on d s = [s]"
  by (induction s) auto

lemma split_on_append:
  "d \<notin> set s \<Longrightarrow> split_on d (s @ d # t) = s # split_on d t"
  by (induction s) auto

text \<open>On ASCII text bytes and code points are the same.\<close>

definition ascii :: "string \<Rightarrow> bool" where
  "ascii s = list_all (\<lambda>c. \<not> digit7 c) s"

lemma ascii_simps [simp]: "ascii []" "ascii (c # cs) \<longleftrightarrow> \<not> digit7 c \<and> ascii cs"
  "ascii (s @ t) \<longleftrightarrow> ascii s \<and> ascii t"
  by (simp_all add: ascii_def)

lemma ascii_byte: "\<not> digit7 c \<Longrightarrow> byte c < 128"
proof (cases c)
  case (Char b0 b1 b2 b3 b4 b5 b6 b7)
  moreover assume "\<not> digit7 c"
  ultimately show ?thesis
    by (cases b0; cases b1; cases b2; cases b3; cases b4; cases b5; cases b6) (simp_all add: of_char_Char)
qed

lemma code_points_ascii: "ascii s \<Longrightarrow> code_points s = map of_char s"
  by (induction s) (auto dest: ascii_byte)

lemma code_points_ascii_append: "ascii s \<Longrightarrow> code_points (s @ t) = map of_char s @ code_points t"
  by (induction s) (auto dest: ascii_byte)

lemma py_len_ascii: "ascii s \<Longrightarrow> py_len s = length s"
  by (simp add: py_len_def code_points_ascii)

lemma code_points_empty [simp]: "code_points s = [] \<longleftrightarrow> s = []"
  by (cases s) (auto split: list.splits)

lemma py_len_ascii_append: "ascii s \<Longrightarrow> py_len (s @ t) = length s + py_len t"
  by (simp add: py_len_def code_points_ascii_append)

lemma py_len_zero [simp]: "py_len s = 0 \<longleftrightarrow> s = []"
  by (simp add: py_len_def)

lemma no_surrogate_ascii: "ascii s \<Longrightarrow> \<not> has_surrogate s"
  by (induction s) (auto simp: has_surrogate_def any_char_def is_surrogate_def code_points_ascii list_ex_iff
      dest!: ascii_byte)

lemma has_surrogate_ascii_append: "ascii s \<Longrightarrow> has_surrogate (s @ t) \<longleftrightarrow> has_surrogate t"
  using no_surrogate_ascii [of s]
  by (simp add: has_surrogate_def any_char_def code_points_ascii_append code_points_ascii list_ex_iff) blast

lemma any_char_ascii: "ascii s \<Longrightarrow> any_char P s = list_ex (\<lambda>c. P (of_char c)) s"
  by (simp add: any_char_def code_points_ascii list_ex_iff)

lemma ascii_of_byte: "byte c < 128 \<Longrightarrow> \<not> digit7 c"
  by (cases c) (auto simp: of_char_Char horner_sum_simps)

lemma ascii_iff: "ascii s \<longleftrightarrow> (\<forall>c\<in>set s. byte c < 128)"
  using ascii_byte ascii_of_byte by (auto simp: ascii_def list_all_iff)

lemma ascii_lower_hex: "list_all is_lower_hex s \<Longrightarrow> ascii s"
proof -
  have "\<not> digit7 c" if "is_lower_hex c" for c
    using that by (cases c) (auto simp: is_lower_hex_def of_char_Char horner_sum_simps split: if_splits)
  then show "list_all is_lower_hex s \<Longrightarrow> ascii s" by (auto simp: ascii_def list_all_iff)
qed

lemma ascii_digest: "is_digest d \<Longrightarrow> ascii d"
  by (auto simp: is_digest_def startswith_iff ascii_lower_hex)

section \<open>Values\<close>

text \<open>
  The values the contracts are made of: JSON data plus tuples. Dictionaries keep their
  insertion order and have string keys, as every dictionary read from JSON and every literal
  of the code has. \<open>PObj\<close> stands for every other Python object (bytes, floats,
  functions, instances), identified by a number: the code only rejects it.
\<close>

datatype pyval =
    PNone
  | PBool bool
  | PInt int
  | PStr string
  | PList "pyval list"
  | PTuple "pyval list"
  | PDict "(string \<times> pyval) list"
  | PObj nat

type_synonym fields = "(string \<times> pyval) list"

fun is_str :: "pyval \<Rightarrow> bool" where
  "is_str (PStr _) = True"
| "is_str _ = False"

fun is_dict :: "pyval \<Rightarrow> bool" where
  "is_dict (PDict _) = True"
| "is_dict _ = False"

fun is_bool :: "pyval \<Rightarrow> bool" where
  "is_bool (PBool _) = True"
| "is_bool _ = False"

text \<open>\<^verbatim>\<open>isinstance(v, int) and not isinstance(v, bool)\<close>, which for these values is
  \<^verbatim>\<open>type(v) is int\<close>.\<close>

fun is_int :: "pyval \<Rightarrow> bool" where
  "is_int (PInt _) = True"
| "is_int _ = False"

text \<open>\<^verbatim>\<open>isinstance(v, str) and v\<close>.\<close>

fun nonempty_str :: "pyval \<Rightarrow> bool" where
  "nonempty_str (PStr s) = (s \<noteq> [])"
| "nonempty_str _ = False"

fun str_of :: "pyval \<Rightarrow> string" where
  "str_of (PStr s) = s"
| "str_of _ = []"

fun int_of :: "pyval \<Rightarrow> int" where
  "int_of (PInt n) = n"
| "int_of (PBool b) = (if b then 1 else 0)"
| "int_of _ = 0"

fun items :: "pyval \<Rightarrow> fields" where
  "items (PDict d) = d"
| "items _ = []"

text \<open>\<^verbatim>\<open>d.get(k)\<close>, and \<^verbatim>\<open>d[k]\<close> where the code has established that the key is there.\<close>

definition fld :: "pyval \<Rightarrow> string \<Rightarrow> pyval" where
  "fld v k = (case map_of (items v) k of None \<Rightarrow> PNone | Some x \<Rightarrow> x)"

definition has_key :: "pyval \<Rightarrow> string \<Rightarrow> bool" where
  "has_key v k = (map_of (items v) k \<noteq> None)"

text \<open>\<^verbatim>\<open>v[k]\<close> and \<^verbatim>\<open>v.get(k)\<close> on a value that may not be a dictionary.\<close>

definition idx :: "pyval \<Rightarrow> string \<Rightarrow> pyval res" where
  "idx v k = (case v of
      PDict d \<Rightarrow> (case map_of d k of None \<Rightarrow> raise KeyError k | Some x \<Rightarrow> Inr x)
    | _ \<Rightarrow> raise TypeError ''not subscriptable by a string'')"

definition get_attr :: "pyval \<Rightarrow> string \<Rightarrow> pyval res" where
  "get_attr v k = (case v of
      PDict d \<Rightarrow> Inr (fld v k)
    | _ \<Rightarrow> raise AttributeError ''no attribute get'')"

text \<open>\<^verbatim>\<open>set(d) == {...}\<close>: exactly these keys.\<close>

definition keys_are :: "pyval \<Rightarrow> string list \<Rightarrow> bool" where
  "keys_are v ks \<longleftrightarrow>
     list_all (\<lambda>k. k \<in> set ks) (map fst (items v)) \<and> list_all (has_key v) ks"

text \<open>\<^verbatim>\<open>d[k] = v\<close> and \<^verbatim>\<open>d.update(e)\<close>: an existing key keeps its place.\<close>

fun dict_set :: "string \<Rightarrow> pyval \<Rightarrow> fields \<Rightarrow> fields" where
  "dict_set k v [] = [(k, v)]"
| "dict_set k v (f # d) = (if fst f = k then (k, v) # d else f # dict_set k v d)"

definition dict_update :: "fields \<Rightarrow> fields \<Rightarrow> fields" where
  "dict_update d e = fold (\<lambda>f. dict_set (fst f) (snd f)) e d"

text \<open>Lists and dictionaries cannot be hashed: \<^verbatim>\<open>v in {...}\<close> raises TypeError on them.\<close>

fun hashable :: "pyval \<Rightarrow> bool" where
  "hashable (PList xs) = False"
| "hashable (PDict d) = False"
| "hashable (PTuple xs) = list_all hashable xs"
| "hashable _ = True"

definition unhashable :: exn where
  "unhashable = Exn TypeError ''unhashable type''"

text \<open>
  Python's \<^verbatim>\<open>==\<close>: \<^verbatim>\<open>True == 1\<close>, lists and tuples differ, dictionaries compare by
  content whatever their order.
\<close>

fun py_eq :: "pyval \<Rightarrow> pyval \<Rightarrow> bool"
  and py_eqs :: "pyval list \<Rightarrow> pyval list \<Rightarrow> bool"
  and py_sub :: "fields \<Rightarrow> fields \<Rightarrow> bool" where
  "py_eq PNone w = (case w of PNone \<Rightarrow> True | _ \<Rightarrow> False)"
| "py_eq (PBool b) w = (case w of PBool c \<Rightarrow> b = c | PInt n \<Rightarrow> n = (if b then 1 else 0) | _ \<Rightarrow> False)"
| "py_eq (PInt n) w = (case w of PInt m \<Rightarrow> n = m | PBool c \<Rightarrow> n = (if c then 1 else 0) | _ \<Rightarrow> False)"
| "py_eq (PStr s) w = (case w of PStr t \<Rightarrow> s = t | _ \<Rightarrow> False)"
| "py_eq (PList xs) w = (case w of PList ys \<Rightarrow> py_eqs xs ys | _ \<Rightarrow> False)"
| "py_eq (PTuple xs) w = (case w of PTuple ys \<Rightarrow> py_eqs xs ys | _ \<Rightarrow> False)"
| "py_eq (PDict d) w = (case w of PDict e \<Rightarrow> length d = length e \<and> py_sub d e | _ \<Rightarrow> False)"
| "py_eq (PObj n) w = (case w of PObj m \<Rightarrow> n = m | _ \<Rightarrow> False)"
| "py_eqs [] ys = (ys = [])"
| "py_eqs (x # xs) ys = (case ys of [] \<Rightarrow> False | y # ys' \<Rightarrow> py_eq x y \<and> py_eqs xs ys')"
| "py_sub [] e = True"
| "py_sub (f # d) e =
     (case map_of e (fst f) of None \<Rightarrow> False | Some w \<Rightarrow> py_eq (snd f) w \<and> py_sub d e)"

text \<open>Distinct keys at every level, which every Python dictionary has.\<close>

fun wf_val :: "pyval \<Rightarrow> bool" where
  "wf_val (PList xs) = list_all wf_val xs"
| "wf_val (PTuple xs) = list_all wf_val xs"
| "wf_val (PDict d) = (distinct (map fst d) \<and> list_all (\<lambda>f. wf_val (snd f)) d)"
| "wf_val _ = True"

section \<open>Facts about values\<close>

lemma nonempty_str_iff: "nonempty_str v \<longleftrightarrow> (\<exists>s. v = PStr s \<and> s \<noteq> [])"
  by (cases v) auto

lemma is_str_iff: "is_str v \<longleftrightarrow> (\<exists>s. v = PStr s)"
  by (cases v) auto

lemma is_dict_iff: "is_dict v \<longleftrightarrow> (\<exists>d. v = PDict d)"
  by (cases v) auto

lemma is_bool_iff: "is_bool v \<longleftrightarrow> (\<exists>b. v = PBool b)"
  by (cases v) auto

lemma is_int_iff: "is_int v \<longleftrightarrow> (\<exists>n. v = PInt n)"
  by (cases v) auto

lemma nonempty_str_is_str: "nonempty_str v \<Longrightarrow> is_str v"
  by (cases v) auto

lemma fld_PDict [simp]: "fld (PDict d) k = (case map_of d k of None \<Rightarrow> PNone | Some x \<Rightarrow> x)"
  by (simp add: fld_def)

lemma has_key_PDict [simp]: "has_key (PDict d) k \<longleftrightarrow> map_of d k \<noteq> None"
  by (simp add: has_key_def)

lemma fld_not_dict: "\<not> is_dict v \<Longrightarrow> fld v k = PNone"
  by (cases v) (auto simp: fld_def)

lemma idx_Inr: "idx v k = Inr x \<longleftrightarrow> (\<exists>d. v = PDict d \<and> map_of d k = Some x)"
  by (cases v) (auto simp: idx_def split: option.splits)

lemma idx_fld: "idx v k = Inr x \<Longrightarrow> fld v k = x"
  by (auto simp: idx_Inr)

lemma get_attr_Inr: "get_attr v k = Inr x \<longleftrightarrow> is_dict v \<and> x = fld v k"
  by (cases v) (auto simp: get_attr_def)

lemma py_eq_PStr_right [simp]: "py_eq v (PStr t) \<longleftrightarrow> v = PStr t"
  by (cases v) auto

lemma py_eq_PStr_left [simp]: "py_eq (PStr t) v \<longleftrightarrow> v = PStr t"
  by (cases v) auto

lemma py_eq_PNone_right [simp]: "py_eq v PNone \<longleftrightarrow> v = PNone"
  by (cases v) auto

lemma py_eq_PNone_left [simp]: "py_eq PNone v \<longleftrightarrow> v = PNone"
  by (cases v) auto

lemma py_sub_weaken:
  "list_all (\<lambda>f. case map_of e (fst f) of None \<Rightarrow> False | Some w \<Rightarrow> py_eq (snd f) w) d
     \<Longrightarrow> py_sub d e"
  by (induction d) (auto split: option.splits)

lemma py_eq_refl_aux: "wf_val v \<Longrightarrow> py_eq v v"
proof (induction v)
  case (PList xs)
  then show ?case by (induction xs) auto
next
  case (PTuple xs)
  then show ?case by (induction xs) auto
next
  case (PDict d)
  have "list_all (\<lambda>f. case map_of d (fst f) of None \<Rightarrow> False | Some w \<Rightarrow> py_eq (snd f) w) d"
  proof (unfold list_all_iff, intro ballI)
    fix f assume f: "f \<in> set d"
    have "map_of d (fst f) = Some (snd f)"
      using PDict.prems f by (simp add: map_of_eq_Some_iff)
    moreover have "py_eq (snd f) (snd f)"
      using PDict f by (cases f) (force simp: list_all_iff)
    ultimately show "case map_of d (fst f) of None \<Rightarrow> False | Some w \<Rightarrow> py_eq (snd f) w" by simp
  qed
  then show ?case by (simp add: py_sub_weaken)
qed auto

lemma py_eq_refl [simp]: "wf_val v \<Longrightarrow> py_eq v v"
  by (rule py_eq_refl_aux)

section \<open>Evaluation on concrete texts\<close>

named_theorems text_eval \<open>rules that decide the checks on a concrete ASCII text\<close>

declare strip_changes_def [text_eval] code_points_ascii [text_eval] any_char_ascii [text_eval]
  no_surrogate_ascii [text_eval] py_len_ascii [text_eval] is_space_def [text_eval]
  is_control_def [text_eval] endswith_def [text_eval] removeprefix_def [text_eval]
  is_alnum_def [text_eval]

end
