(* ===== verification/Sha256.thy ===== *)
theory Sha256
  imports Py_Values "HOL-Library.Word"
begin

unbundle bit_operations_syntax

text \<open>
  SHA-256 (FIPS 180-4), which \<^verbatim>\<open>digests.py\<close> takes from \<^verbatim>\<open>hashlib\<close>, over the bytes of a
  string, and the lower-case hexadecimal rendering of its value. Nothing in the development
  assumes a cryptographic property of it: where a theorem concludes that two contents agree,
  it says which two byte strings would otherwise be a collision.
\<close>

type_synonym w32 = "32 word"

definition rotr :: "nat \<Rightarrow> w32 \<Rightarrow> w32" where
  "rotr n x = drop_bit n x OR push_bit (32 - n) x"

definition bsig0 :: "w32 \<Rightarrow> w32" where
  "bsig0 x = rotr 2 x XOR rotr 13 x XOR rotr 22 x"

definition bsig1 :: "w32 \<Rightarrow> w32" where
  "bsig1 x = rotr 6 x XOR rotr 11 x XOR rotr 25 x"

definition ssig0 :: "w32 \<Rightarrow> w32" where
  "ssig0 x = rotr 7 x XOR rotr 18 x XOR drop_bit 3 x"

definition ssig1 :: "w32 \<Rightarrow> w32" where
  "ssig1 x = rotr 17 x XOR rotr 19 x XOR drop_bit 10 x"

definition ch :: "w32 \<Rightarrow> w32 \<Rightarrow> w32 \<Rightarrow> w32" where
  "ch x y z = (x AND y) XOR (NOT x AND z)"

definition maj :: "w32 \<Rightarrow> w32 \<Rightarrow> w32 \<Rightarrow> w32" where
  "maj x y z = (x AND y) XOR (x AND z) XOR (y AND z)"

definition round_constants :: "w32 list" where
  "round_constants =
    [1116352408, 1899447441, 3049323471, 3921009573, 961987163, 1508970993, 2453635748, 2870763221,
     3624381080, 310598401, 607225278, 1426881987, 1925078388, 2162078206, 2614888103, 3248222580,
     3835390401, 4022224774, 264347078, 604807628, 770255983, 1249150122, 1555081692, 1996064986,
     2554220882, 2821834349, 2952996808, 3210313671, 3336571891, 3584528711, 113926993, 338241895,
     666307205, 773529912, 1294757372, 1396182291, 1695183700, 1986661051, 2177026350, 2456956037,
     2730485921, 2820302411, 3259730800, 3345764771, 3516065817, 3600352804, 4094571909, 275423344,
     430227734, 506948616, 659060556, 883997877, 958139571, 1322822218, 1537002063, 1747873779,
     1955562222, 2024104815, 2227730452, 2361852424, 2428436474, 2756734187, 3204031479, 3329325298]"

type_synonym sha_state = "w32 \<times> w32 \<times> w32 \<times> w32 \<times> w32 \<times> w32 \<times> w32 \<times> w32"

definition initial_hash :: sha_state where
  "initial_hash = (1779033703, 3144134277, 1013904242, 2773480762,
                   1359893119, 2600822924, 528734635, 1541459225)"

text \<open>Padding: one bit, zeros, and the length of the message in bits on 64 bits.\<close>

fun be_bytes :: "nat \<Rightarrow> int \<Rightarrow> int list" where
  "be_bytes 0 n = []"
| "be_bytes (Suc k) n = be_bytes k (n div 256) @ [n mod 256]"

definition pad_message :: "int list \<Rightarrow> int list" where
  "pad_message m =
     m @ [128] @ replicate ((119 - length m mod 64) mod 64) 0 @ be_bytes 8 (8 * int (length m))"

fun words_of :: "int list \<Rightarrow> w32 list" where
  "words_of (a # b # c # d # r) =
     of_int (a * 16777216 + b * 65536 + c * 256 + d) # words_of r"
| "words_of _ = []"

text \<open>The message schedule, newest word first.\<close>

fun extend_schedule :: "nat \<Rightarrow> w32 list \<Rightarrow> w32 list" where
  "extend_schedule 0 ws = ws"
| "extend_schedule (Suc n) ws =
     extend_schedule n ((ssig1 (ws ! 1) + ws ! 6 + ssig0 (ws ! 14) + ws ! 15) # ws)"

definition message_schedule :: "w32 list \<Rightarrow> w32 list" where
  "message_schedule block = rev (extend_schedule 48 (rev block))"

fun sha_rounds :: "(w32 \<times> w32) list \<Rightarrow> sha_state \<Rightarrow> sha_state" where
  "sha_rounds [] s = s"
| "sha_rounds ((k, w) # kws) (a, b, c, d, e, f, g, h) =
     (let t1 = h + bsig1 e + ch e f g + k + w;
          t2 = bsig0 a + maj a b c
      in sha_rounds kws (t1 + t2, a, b, c, d + t1, e, f, g))"

fun add_state :: "sha_state \<Rightarrow> sha_state \<Rightarrow> sha_state" where
  "add_state (a, b, c, d, e, f, g, h) (a', b', c', d', e', f', g', h') =
     (a + a', b + b', c + c', d + d', e + e', f + f', g + g', h + h')"

definition compress :: "sha_state \<Rightarrow> w32 list \<Rightarrow> sha_state" where
  "compress hs block =
     add_state hs (sha_rounds (zip round_constants (message_schedule block)) hs)"

fun sha_blocks :: "nat \<Rightarrow> w32 list \<Rightarrow> sha_state \<Rightarrow> sha_state" where
  "sha_blocks 0 ws hs = hs"
| "sha_blocks (Suc n) ws hs = sha_blocks n (drop 16 ws) (compress hs (take 16 ws))"

fun state_words :: "sha_state \<Rightarrow> w32 list" where
  "state_words (a, b, c, d, e, f, g, h) = [a, b, c, d, e, f, g, h]"

definition hex_digit :: "int \<Rightarrow> char" where
  "hex_digit n = ''0123456789abcdef'' ! nat n"

fun hex_digits :: "nat \<Rightarrow> int \<Rightarrow> string" where
  "hex_digits 0 n = []"
| "hex_digits (Suc k) n = hex_digits k (n div 16) @ [hex_digit (n mod 16)]"

definition hex_word :: "w32 \<Rightarrow> string" where
  "hex_word w = hex_digits 8 (uint w)"

text \<open>\<^verbatim>\<open>hashlib.sha256(b).hexdigest()\<close>.\<close>

definition sha256_hex :: "string \<Rightarrow> string" where
  "sha256_hex s =
     (let ws = words_of (pad_message (map of_char s))
      in concat (map hex_word (state_words (sha_blocks (length ws div 16) ws initial_hash))))"

section \<open>The digest has 64 lower-case hexadecimal characters\<close>

lemma length_state_words [simp]: "length (state_words s) = 8"
  by (cases s rule: state_words.cases) simp

lemma is_lower_hex_digit: "0 \<le> n \<Longrightarrow> n < 16 \<Longrightarrow> is_lower_hex (hex_digit n)"
proof -
  assume "0 \<le> n" and "n < 16"
  then have "n \<in> set [0, 1, 2, 3, 4, 5, 6, 7, 8, 9, 10, 11, 12, 13, 14, 15]"
    by (simp only: list.set insert_iff empty_iff) presburger
  then show ?thesis by (auto simp: hex_digit_def is_lower_hex_def)
qed

lemma hex_digits_lower: "list_all is_lower_hex (hex_digits k n)"
  by (induction k n rule: hex_digits.induct) (auto simp: is_lower_hex_digit)

lemma length_hex_digits [simp]: "length (hex_digits k n) = k"
  by (induction k n rule: hex_digits.induct) auto

lemma length_hex_word [simp]: "length (hex_word w) = 8"
  by (simp add: hex_word_def)

lemma length_concat_hex_word: "length (concat (map hex_word ws)) = 8 * length ws"
  by (induction ws) auto

lemma length_sha256_hex [simp]: "length (sha256_hex s) = 64"
  by (simp add: sha256_hex_def Let_def length_concat_hex_word)

lemma sha256_hex_lower: "list_all is_lower_hex (sha256_hex s)"
  using hex_digits_lower by (auto simp: sha256_hex_def Let_def list_all_iff hex_word_def)

end
