(* ===== verification/Json_Injective.thy ===== *)
theory Json_Injective
  imports Canonical_Json
begin

text \<open>
  The canonical encoding is unambiguous. \<open>normal\<close> is the JSON value of a Python value: tuples
  are arrays and the members of an object are sorted by key. \<open>render\<close> prints a normal value;
  what follows a rendered value never matters as long as it does not continue a number
  (\<open>ends\<close>), which gives unique decoding by induction on the value.
\<close>

section \<open>Normal forms and their rendering\<close>

fun normal :: "pyval \<Rightarrow> pyval" where
  "normal (PList xs) = PList (map normal xs)"
| "normal (PTuple xs) = PList (map normal xs)"
| "normal (PDict d) = PDict (sort_key fst (map (\<lambda>f. (fst f, normal (snd f))) d))"
| "normal v = v"

fun is_normal :: "pyval \<Rightarrow> bool" where
  "is_normal (PList xs) = list_all is_normal xs"
| "is_normal (PDict d) = list_all (\<lambda>f. is_normal (snd f)) d"
| "is_normal (PTuple xs) = False"
| "is_normal (PObj n) = False"
| "is_normal v = True"

fun render :: "pyval \<Rightarrow> string" where
  "render PNone = ''null''"
| "render (PBool b) = (if b then ''true'' else ''false'')"
| "render (PInt n) = int_repr n"
| "render (PStr s) = json_str s"
| "render (PList xs) = wrap_list (map render xs)"
| "render (PTuple xs) = wrap_list (map render xs)"
| "render (PDict d) = wrap_dict (map (\<lambda>f. (fst f, render (snd f))) d)"
| "render (PObj n) = []"

lemma json_list_render:
  "(\<And>x t. x \<in> set xs \<Longrightarrow> json_enc x = Inr t \<Longrightarrow> t = render (normal x) \<and> is_normal (normal x)) \<Longrightarrow>
     json_list xs = Inr ts \<Longrightarrow> ts = map (\<lambda>x. render (normal x)) xs \<and> list_all (\<lambda>x. is_normal (normal x)) xs"
  by (induction xs arbitrary: ts) auto

lemma json_fields_render:
  "\<forall>f\<in>set d. \<forall>t. json_enc (snd f) = Inr t \<longrightarrow> t = render (normal (snd f)) \<and> is_normal (normal (snd f)) \<Longrightarrow>
     json_fields d = Inr kts \<Longrightarrow>
     kts = map (\<lambda>f. (fst f, render (normal (snd f)))) d \<and> list_all (\<lambda>f. is_normal (normal (snd f))) d"
  by (induction d arbitrary: kts) auto

lemma sort_key_map_snd:
  "sort_key fst (map (\<lambda>f. (fst f, g (snd f))) d) = map (\<lambda>f. (fst f, g (snd f))) (sort_key fst d)"
proof (induction d)
  case Nil
  then show ?case by simp
next
  case (Cons f d)
  have ins: "insort_key fst (k, g v) (map (\<lambda>f. (fst f, g (snd f))) e) =
      map (\<lambda>f. (fst f, g (snd f))) (insort_key fst (k, v) e)" for k v e
    by (induction e) auto
  show ?case using Cons ins [of "fst f" "snd f"] by simp
qed

lemma json_enc_render: "json_enc v = Inr t \<Longrightarrow> t = render (normal v) \<and> is_normal (normal v)"
proof (induction v arbitrary: t)
  case (PList xs)
  then show ?case using json_list_render [of xs] by (auto simp: list_all_iff comp_def)
next
  case (PTuple xs)
  then show ?case using json_list_render [of xs] by (auto simp: list_all_iff comp_def)
next
  case (PDict d)
  have all: "\<forall>f\<in>set d. \<forall>t. json_enc (snd f) = Inr t \<longrightarrow>
      t = render (normal (snd f)) \<and> is_normal (normal (snd f))"
    using PDict.IH by force
  from PDict.prems obtain kts where kts: "json_fields d = Inr kts"
      and t: "t = wrap_dict (sort_key fst kts)"
    by auto
  have k: "kts = map (\<lambda>f. (fst f, render (normal (snd f)))) d"
      and n: "list_all (\<lambda>f. is_normal (normal (snd f))) d"
    using json_fields_render [OF all kts] by auto
  show ?case
    using n
    by (auto simp: t k sort_key_map_snd [where g = "\<lambda>v. render (normal v)"]
        sort_key_map_snd [where g = normal] comp_def list_all_iff)
qed (auto simp: int_text_def json_text_def)

section \<open>Numbers\<close>

fun digits_value :: "string \<Rightarrow> nat" where
  "digits_value s = foldl (\<lambda>a c. 10 * a + (byte c - 48)) 0 s"

lemma byte_dec_digit: "n < 10 \<Longrightarrow> byte (dec_digit n) = 48 + n"
proof -
  assume "n < 10"
  then have "n \<in> set [0, 1, 2, 3, 4, 5, 6, 7, 8, 9]"
    by (simp only: list.set insert_iff empty_iff) presburger
  then show ?thesis by (auto simp: dec_digit_def)
qed

lemma digits_value_nat_digits: "digits_value (nat_digits n) = n"
proof (induction n rule: nat_digits.induct)
  case (1 n)
  then show ?case
    by (cases "n < 10") (auto simp: nat_digits.simps [of n] byte_dec_digit)
qed

lemma nat_digits_is_digit: "list_all is_digit (nat_digits n)"
proof (induction n rule: nat_digits.induct)
  case (1 n)
  then show ?case
    by (cases "n < 10") (auto simp: nat_digits.simps [of n] is_digit_def byte_dec_digit)
qed

lemma nat_digits_nonempty: "nat_digits n \<noteq> []"
  by (subst nat_digits.simps) simp

lemma nat_digits_inject: "nat_digits m = nat_digits n \<Longrightarrow> m = n"
  by (metis digits_value_nat_digits)

text \<open>\<open>ends r\<close>: the text after a value does not continue a number.\<close>

definition ends :: "string \<Rightarrow> bool" where
  "ends r \<longleftrightarrow> (case r of [] \<Rightarrow> True | c # _ \<Rightarrow> \<not> is_digit c)"

lemma digits_split:
  assumes "list_all is_digit s" "list_all is_digit t" "s @ r = t @ r'" "ends r" "ends r'"
  shows "s = t \<and> r = r'"
  using assms
proof (induction s arbitrary: t)
  case Nil
  then show ?case by (cases t) (auto simp: ends_def)
next
  case (Cons c s)
  then show ?case by (cases t) (auto simp: ends_def)
qed

lemma hd_nat_digits_not_minus: "nat_digits n @ r = CHR ''-'' # s \<Longrightarrow> False"
  using nat_digits_is_digit [of n] nat_digits_nonempty [of n]
  by (cases "nat_digits n") (auto simp: is_digit_def)

lemma int_repr_unique:
  assumes "int_repr m @ r = int_repr n @ r'" "ends r" "ends r'"
  shows "m = n \<and> r = r'"
proof -
  have pos: "a = b \<and> r = r'" if "nat_digits a @ r = nat_digits b @ r'" for a b
    using digits_split [OF nat_digits_is_digit nat_digits_is_digit that] assms(2,3) nat_digits_inject
    by blast
  show ?thesis
  proof (cases "m < 0")
    case True
    then show ?thesis
      using assms(1) pos [of "nat (- m)" "nat (- n)"] hd_nat_digits_not_minus [of "nat n" r']
      by (auto simp: int_repr_def split: if_splits dest!: sym [of "CHR ''-'' # _"])
  next
    case False
    then show ?thesis
      using assms(1) pos [of "nat m" "nat n"] hd_nat_digits_not_minus [of "nat m" r]
      by (auto simp: int_repr_def split: if_splits)
  qed
qed

section \<open>Strings\<close>

lemma hex_digit_inject:
  assumes "m < 16" "n < 16" "hex_digit (int m) = hex_digit (int n)"
  shows "m = n"
proof -
  have "distinct ''0123456789abcdef''" by simp
  with assms show ?thesis
    by (auto simp: hex_digit_def nth_eq_iff_index_eq)
qed

lemma json_char_nonempty: "json_char c \<noteq> []"
  by (simp add: json_char_def)

lemma json_char_not_quote: "json_char c @ r \<noteq> CHR 0x22 # r'"
  by (auto simp: json_char_def)

lemma byte_inject: "byte c = byte d \<Longrightarrow> c = d"
  by (metis char_of_char)

lemma hex_pair_inject:
  assumes "byte c < 32" "byte d < 32"
    "hex_digit (int (byte c div 16)) = hex_digit (int (byte d div 16))"
    "hex_digit (int (byte c mod 16)) = hex_digit (int (byte d mod 16))"
  shows "c = d"
proof -
  have "byte c div 16 = byte d div 16" "byte c mod 16 = byte d mod 16"
    using assms by (auto intro!: hex_digit_inject)
  then have "byte c = byte d" by (metis div_mult_mod_eq)
  then show ?thesis by (rule byte_inject)
qed

definition unescape :: "char \<Rightarrow> char" where
  "unescape e =
    (if e = CHR ''b'' then CHR 0x08 else if e = CHR ''t'' then CHR 0x09
     else if e = CHR ''n'' then CHR 0x0A else if e = CHR ''f'' then CHR 0x0C
     else if e = CHR ''r'' then CHR 0x0D else e)"

lemma json_char_cases:
  obtains (plain) "json_char c = [c]" "c \<noteq> CHR 0x22" "c \<noteq> CHR 0x5C"
  | (short) e where "json_char c = [CHR 0x5C, e]" "e \<noteq> CHR ''u''" "c = unescape e"
  | (hex) "byte c < 32" "json_char c = [CHR 0x5C, CHR ''u'', CHR ''0'', CHR ''0'',
        hex_digit (int (byte c div 16)), hex_digit (int (byte c mod 16))]"
proof -
  have eq: "c = d" if "byte c = byte d" for d using that by (rule byte_inject)
  consider "c = CHR 0x22" | "c = CHR 0x5C" | "byte c = 8" | "byte c = 9" | "byte c = 10"
    | "byte c = 12" | "byte c = 13"
    | "c \<noteq> CHR 0x22 \<and> c \<noteq> CHR 0x5C \<and> byte c \<notin> {8, 9, 10, 12, 13}"
    by auto
  then show thesis
  proof cases
    case 1 then show thesis using short [of "CHR 0x22"] by (simp add: json_char_def unescape_def)
  next
    case 2 then show thesis using short [of "CHR 0x5C"] by (simp add: json_char_def unescape_def)
  next
    case 3 then show thesis
      using short [of "CHR ''b''"] eq [of "CHR 0x08"] by (simp add: json_char_def unescape_def)
  next
    case 4 then show thesis
      using short [of "CHR ''t''"] eq [of "CHR 0x09"] by (simp add: json_char_def unescape_def)
  next
    case 5 then show thesis
      using short [of "CHR ''n''"] eq [of "CHR 0x0A"] by (simp add: json_char_def unescape_def)
  next
    case 6 then show thesis
      using short [of "CHR ''f''"] eq [of "CHR 0x0C"] by (simp add: json_char_def unescape_def)
  next
    case 7 then show thesis
      using short [of "CHR ''r''"] eq [of "CHR 0x0D"] by (simp add: json_char_def unescape_def)
  next
    case 8 then show thesis
      using plain hex by (cases "byte c < 32") (simp_all add: json_char_def)
  qed
qed

text \<open>The escapes are a prefix code.\<close>

lemma json_char_unique: "json_char c @ r = json_char d @ r' \<Longrightarrow> c = d \<and> r = r'"
  by (cases c rule: json_char_cases; cases d rule: json_char_cases)
    (auto dest: hex_pair_inject)

lemma json_body_unique:
  "json_body s @ CHR 0x22 # r = json_body t @ CHR 0x22 # r' \<Longrightarrow> s = t \<and> r = r'"
proof (induction s arbitrary: t)
  case Nil
  then show ?case
    using json_char_not_quote by (cases t) (auto simp: json_body_def dest: sym)
next
  case (Cons c s)
  show ?case
  proof (cases t)
    case Nil
    with Cons.prems show ?thesis using json_char_not_quote by (auto simp: json_body_def)
  next
    case (Cons d t')
    with Cons.prems have "json_char c @ (json_body s @ CHR 0x22 # r) = json_char d @ (json_body t' @ CHR 0x22 # r')"
      by (simp add: json_body_def)
    then have cd: "c = d \<and> json_body s @ CHR 0x22 # r = json_body t' @ CHR 0x22 # r'"
      by (rule json_char_unique)
    with Cons.IH [of t'] Cons show ?thesis by simp
  qed
qed

lemma json_str_unique: "json_str s @ r = json_str t @ r' \<Longrightarrow> s = t \<and> r = r'"
  using json_body_unique [of s r t r'] by (simp add: json_str_def)

section \<open>Arrays and objects\<close>

text \<open>The elements after the first, each with its comma.\<close>

definition tails :: "string list \<Rightarrow> string" where
  "tails ts = concat (map (\<lambda>t. CHR '','' # t) ts)"

lemma join_tails: "join '','' (t # ts) = t @ tails ts"
  by (induction ts arbitrary: t) (auto simp: tails_def)

text \<open>\<open>decodes f x\<close>: what \<open>f\<close> prints for \<open>x\<close> is read back unambiguously.\<close>

definition decodes :: "('a \<Rightarrow> string) \<Rightarrow> ('a \<Rightarrow> bool) \<Rightarrow> 'a \<Rightarrow> bool" where
  "decodes f ok x \<longleftrightarrow> (\<forall>y r r'. ok y \<longrightarrow> ends r \<longrightarrow> ends r' \<longrightarrow> f x @ r = f y @ r' \<longrightarrow> x = y \<and> r = r')"

lemma decodesD:
  "decodes f ok x \<Longrightarrow> f x @ r = f y @ r' \<Longrightarrow> ok y \<Longrightarrow> ends r \<Longrightarrow> ends r' \<Longrightarrow> x = y \<and> r = r'"
  unfolding decodes_def by blast

lemma ends_tails: "\<not> is_digit c \<Longrightarrow> ends (tails ts @ c # r)"
  by (cases ts) (auto simp: ends_def tails_def is_digit_def)

lemma tails_unique:
  assumes c: "c \<noteq> CHR '',''" "\<not> is_digit c"
    and d: "\<forall>x\<in>set xs. decodes f ok x" and ok: "\<forall>y\<in>set ys. ok y"
    and eq: "tails (map f xs) @ c # r = tails (map f ys) @ c # r'"
  shows "xs = ys \<and> r = r'"
  using d ok eq
proof (induction xs arbitrary: ys)
  case Nil
  then show ?case using c by (cases ys) (auto simp: tails_def)
next
  case (Cons x xs)
  from Cons.prems(3) c obtain y ys' where ys: "ys = y # ys'"
    by (cases ys) (auto simp: tails_def)
  from Cons.prems(3) have
    "f x @ (tails (map f xs) @ c # r) = f y @ (tails (map f ys') @ c # r')"
    by (simp add: ys tails_def)
  then have "x = y \<and> tails (map f xs) @ c # r = tails (map f ys') @ c # r'"
    using decodesD [of f ok x] Cons.prems(1,2) ends_tails [OF c(2)] ys by auto
  with Cons.IH [of ys'] Cons.prems(1,2) ys show ?case by auto
qed

text \<open>An array or object body is read back unambiguously if its elements are and none of them
  can start with the closing bracket.\<close>

lemma body_unique:
  assumes c: "c \<noteq> CHR '',''" "\<not> is_digit c"
    and start: "\<And>x s r. ok x \<Longrightarrow> f x @ s \<noteq> c # r"
    and d: "\<forall>x\<in>set xs. decodes f ok x" and ok: "\<forall>x\<in>set xs. ok x" "\<forall>y\<in>set ys. ok y"
    and eq: "join '','' (map f xs) @ c # r = join '','' (map f ys) @ c # r'"
  shows "xs = ys \<and> r = r'"
proof (cases xs)
  case Nil
  then show ?thesis using eq start ok
    by (cases ys) (auto simp: join_tails simp del: join.simps(2,3) dest: sym)
next
  case (Cons x xs')
  then obtain y ys' where ys: "ys = y # ys'"
    using eq start ok by (cases ys) (auto simp: join_tails simp del: join.simps(2,3))
  from eq have "f x @ (tails (map f xs') @ c # r) = f y @ (tails (map f ys') @ c # r')"
    by (simp add: Cons ys join_tails del: join.simps(2,3))
  then have "x = y \<and> tails (map f xs') @ c # r = tails (map f ys') @ c # r'"
    using decodesD [of f ok x] d ok ends_tails [OF c(2)] Cons ys by auto
  then show ?thesis
    using tails_unique [OF c, of xs' f ok ys' r r'] d ok Cons ys by auto
qed

section \<open>Unique decoding of values\<close>

lemma int_repr_start: "\<exists>c s. int_repr n = c # s \<and> (is_digit c \<or> c = CHR ''-'')"
proof (cases "n < 0")
  case True
  then show ?thesis by (simp add: int_repr_def)
next
  case False
  then show ?thesis
    using nat_digits_is_digit [of "nat n"] nat_digits_nonempty [of "nat n"]
    by (cases "nat_digits (nat n)") (auto simp: int_repr_def)
qed

text \<open>The first character tells the kind of value.\<close>

fun kind_char :: "pyval \<Rightarrow> char \<Rightarrow> bool" where
  "kind_char PNone c = (c = CHR ''n'')"
| "kind_char (PBool b) c = (c = (if b then CHR ''t'' else CHR ''f''))"
| "kind_char (PInt n) c = (is_digit c \<or> c = CHR ''-'')"
| "kind_char (PStr s) c = (c = CHR 0x22)"
| "kind_char (PList xs) c = (c = CHR ''['')"
| "kind_char (PDict d) c = (c = CHR ''{'')"
| "kind_char _ c = False"

lemma render_start: "is_normal v \<Longrightarrow> \<exists>c s. render v = c # s \<and> kind_char v c"
  using int_repr_start by (cases v) (auto simp: json_str_def wrap_list_def wrap_dict_def)

lemma render_not_bracket: "is_normal v \<Longrightarrow> render v @ s \<noteq> CHR '']'' # r"
  using render_start [of v] by (cases v) (auto simp: is_digit_def split: if_splits)

lemma render_kind:
  assumes "is_normal v" "is_normal w" "render v @ r = render w @ r'"
  shows "\<exists>c. kind_char v c \<and> kind_char w c"
  using assms render_start [of v] render_start [of w] by auto

abbreviation render_member :: "string \<times> pyval \<Rightarrow> string" where
  "render_member f \<equiv> json_member (fst f, render (snd f))"

lemma decodes_member:
  assumes "decodes render is_normal (snd f)"
  shows "decodes render_member (\<lambda>f. is_normal (snd f)) f"
  unfolding decodes_def
proof (intro allI impI)
  fix g r r'
  assume g: "is_normal (snd g)" and e: "ends r" "ends r'"
    and eq: "render_member f @ r = render_member g @ r'"
  from eq have "json_str (fst f) @ (CHR '':'' # render (snd f) @ r) =
      json_str (fst g) @ (CHR '':'' # render (snd g) @ r')"
    by (simp add: json_member_def)
  then have "fst f = fst g \<and> CHR '':'' # render (snd f) @ r = CHR '':'' # render (snd g) @ r'"
    by (rule json_str_unique)
  then have fg: "fst f = fst g" and "render (snd f) @ r = render (snd g) @ r'" by auto
  with decodesD [OF assms _ g e] have "snd f = snd g \<and> r = r'" by blast
  with fg show "f = g \<and> r = r'" by (simp add: prod_eq_iff)
qed

lemma render_decodes: "is_normal v \<Longrightarrow> decodes render is_normal v"
proof (induction v)
  case PNone
  show ?case unfolding decodes_def
  proof (intro allI impI)
    fix w r r'
    assume "is_normal w" "render PNone @ r = render w @ r'"
    then show "PNone = w \<and> r = r'"
      using render_kind [of PNone w r r'] by (cases w) (auto simp: is_digit_def split: if_splits)
  qed
next
  case (PBool b)
  show ?case unfolding decodes_def
  proof (intro allI impI)
    fix w r r'
    assume "is_normal w" "render (PBool b) @ r = render w @ r'"
    then show "PBool b = w \<and> r = r'"
      using render_kind [of "PBool b" w r r'] by (cases w) (auto simp: is_digit_def split: if_splits)
  qed
next
  case (PInt n)
  show ?case unfolding decodes_def
  proof (intro allI impI)
    fix w r r'
    assume "is_normal w" "ends r" "ends r'" "render (PInt n) @ r = render w @ r'"
    then show "PInt n = w \<and> r = r'"
      using render_kind [of "PInt n" w r r'] int_repr_unique [of n r _ r']
      by (cases w) (auto simp: is_digit_def split: if_splits)
  qed
next
  case (PStr s)
  show ?case unfolding decodes_def
  proof (intro allI impI)
    fix w r r'
    assume "is_normal w" "render (PStr s) @ r = render w @ r'"
    then show "PStr s = w \<and> r = r'"
      using render_kind [of "PStr s" w r r'] json_str_unique [of s r _ r']
      by (cases w) (auto simp: is_digit_def split: if_splits)
  qed
next
  case (PList xs)
  show ?case unfolding decodes_def
  proof (intro allI impI)
    fix w r r'
    assume w: "is_normal w" and eq: "render (PList xs) @ r = render w @ r'"
    then obtain ys where ys: "w = PList ys"
      using render_kind [of "PList xs" w r r'] PList.prems
      by (cases w) (auto simp: is_digit_def split: if_splits)
    from eq have "join '','' (map render xs) @ CHR '']'' # r = join '','' (map render ys) @ CHR '']'' # r'"
      by (simp add: ys wrap_list_def)
    then have "xs = ys \<and> r = r'"
      by (rule body_unique [rotated -1, where ok = is_normal])
        (use PList w ys in \<open>auto simp: render_not_bracket list_all_iff is_digit_def\<close>)
    then show "PList xs = w \<and> r = r'" by (simp add: ys)
  qed
next
  case (PDict d)
  show ?case unfolding decodes_def
  proof (intro allI impI)
    fix w r r'
    assume w: "is_normal w" and eq: "render (PDict d) @ r = render w @ r'"
    then obtain e where e: "w = PDict e"
      using render_kind [of "PDict d" w r r'] PDict.prems
      by (cases w) (auto simp: is_digit_def split: if_splits)
    have dec: "\<forall>f\<in>set d. decodes render_member (\<lambda>f. is_normal (snd f)) f"
      using PDict by (force intro!: decodes_member simp: list_all_iff)
    from eq have "join '','' (map render_member d) @ CHR ''}'' # r =
        join '','' (map render_member e) @ CHR ''}'' # r'"
      by (simp add: e wrap_dict_def comp_def)
    then have "d = e \<and> r = r'"
      by (rule body_unique [rotated -1, where ok = "\<lambda>f. is_normal (snd f)"])
        (use PDict.prems w e dec in \<open>auto simp: list_all_iff is_digit_def json_member_def json_str_def\<close>)
    then show "PDict d = w \<and> r = r'" by (simp add: e)
  qed
qed auto

lemma canonical_unique:
  assumes "canonical_json v = Inr s" and "canonical_json w = Inr s"
  shows "normal v = normal w"
proof -
  have v: "s = render (normal v)" "is_normal (normal v)" and w: "s = render (normal w)" "is_normal (normal w)"
    using assms json_enc_render by (auto simp: canonical_json_def rcatch_Inr)
  have "ends []" by (simp add: ends_def)
  with decodesD [OF render_decodes [OF v(2)], of "[]" "normal w" "[]"] v w show ?thesis by simp
qed

text \<open>
  Canonical JSON is unambiguous. Two values that encode to the same canonical bytes are the same
  JSON value: they differ at most in the order of dictionary entries and in tuples for lists.
\<close>

theorem canonical_json_unambiguous:
  assumes "canonical_json v = Inr s" and "canonical_json w = Inr s"
  shows "normal v = normal w"
  using assms by (rule canonical_unique)

theorem canonical_json_unambiguous_witness:
  "normal (PDict [(''b'', PNone), (''a'', PTuple [])]) = normal (PDict [(''a'', PList []), (''b'', PNone)])"
proof -
  have no: "\<not> has_surrogate ''a''" "\<not> has_surrogate ''b''" by (simp_all add: text_eval)
  have "canonical_json (PDict [(''b'', PNone), (''a'', PTuple [])]) = canonical_json (PDict [(''a'', PList []), (''b'', PNone)])"
    using no by (simp add: canonical_json_def json_text_def insort_key_left_comm)
  moreover have "is_ok (canonical_json (PDict [(''a'', PList []), (''b'', PNone)]))"
    using no by (simp add: canonical_json_def json_text_def)
  ultimately obtain s where "canonical_json (PDict [(''b'', PNone), (''a'', PTuple [])]) = Inr s"
    "canonical_json (PDict [(''a'', PList []), (''b'', PNone)]) = Inr s"
    by (simp only: is_ok_iff) blast
  then show ?thesis by (rule canonical_json_unambiguous)
qed

text \<open>
  Two values with the same digest have the same JSON content, unless their two canonical texts
  are a SHA-256 collision.
\<close>

definition digest_collision :: "pyval \<Rightarrow> pyval \<Rightarrow> bool" where
  "digest_collision v w \<longleftrightarrow> (\<exists>s t. canonical_json v = Inr s \<and> canonical_json w = Inr t \<and>
     s \<noteq> t \<and> sha256_hex s = sha256_hex t)"

lemma same_digest_same_content:
  assumes "sha256_digest v = Inr d" "sha256_digest w = Inr d" "\<not> digest_collision v w"
  shows "normal v = normal w"
proof -
  from assms(1,2) obtain s t where st: "canonical_json v = Inr s" "canonical_json w = Inr t"
      "sha256_hex s = sha256_hex t"
    by (auto simp: sha256_digest_def sha256_text_eq)
  with assms(3) have "s = t" by (auto simp: digest_collision_def)
  with st canonical_unique show ?thesis by blast
qed

text \<open>Equal normal forms of two dictionaries agree on every key.\<close>

lemma normal_fld:
  assumes "normal (PDict d) = normal (PDict e)" "distinct (map fst d)" "distinct (map fst e)"
  shows "normal (fld (PDict d) k) = normal (fld (PDict e) k)"
proof -
  let ?n = "map (\<lambda>f. (fst f, normal (snd f)))"
  have "sort_key fst (?n d) = sort_key fst (?n e)"
    using assms(1) by (simp only: normal.simps pyval.inject)
  then have "set (sort_key fst (?n d)) = set (sort_key fst (?n e))" by (rule arg_cong)
  then have "set (?n d) = set (?n e)" by (simp only: set_sort)
  moreover have "distinct (map fst (?n d))" "distinct (map fst (?n e))" using assms(2,3) by (simp_all add: comp_def)
  ultimately have "map_of (?n d) = map_of (?n e)" by (simp only: map_of_inject_set)
  moreover have sel: "map_of (?n x) k = map_option normal (map_of x k)" for x by (induction x) auto
  ultimately have "map_option normal (map_of d k) = map_option normal (map_of e k)"
    by (simp only: sel [symmetric])
  then show ?thesis by (auto split: option.splits)
qed

end
