(* ===== verification/Py_Datetime.thy ===== *)
theory Py_Datetime
  imports Py_Values
begin

text \<open>
  The part of \<^verbatim>\<open>datetime\<close> the program uses: aware datetimes and their comparison,
  \<^verbatim>\<open>astimezone(timezone.utc)\<close>, adding seconds, \<^verbatim>\<open>datetime.fromisoformat\<close> (the ISO 8601 forms
  of Python 3.11: calendar and week dates, basic and extended times, an optional offset) and
  \<^verbatim>\<open>isoformat\<close> of a UTC datetime with \<^verbatim>\<open>"+00:00"\<close> replaced by \<^verbatim>\<open>"Z"\<close>.

  A datetime is its wall-clock time in microseconds since 0001-01-01T00:00:00 and its UTC
  offset in microseconds (\<open>None\<close> for a naive one). Years outside 1..9999 do not exist:
  arithmetic that leaves them raises OverflowError.
\<close>

record pydatetime =
  wall :: int
  utc_offset :: "int option"

definition max_wall :: int where
  "max_wall = 3652059 * 86400000000"

definition valid_datetime :: "pydatetime \<Rightarrow> bool" where
  "valid_datetime t \<longleftrightarrow> 0 \<le> wall t \<and> wall t < max_wall"

text \<open>The point in time of an aware datetime; comparisons of aware datetimes compare it.\<close>

definition instant :: "pydatetime \<Rightarrow> int" where
  "instant t = wall t - (case utc_offset t of None \<Rightarrow> 0 | Some off \<Rightarrow> off)"

definition is_aware :: "pydatetime \<Rightarrow> bool" where
  "is_aware t \<longleftrightarrow> utc_offset t \<noteq> None"

definition mk_utc :: "int \<Rightarrow> pydatetime res" where
  "mk_utc us = unless (us < 0 \<or> max_wall \<le> us) (Exn OverflowError ''date value out of range'')
     (Inr \<lparr>wall = us, utc_offset = Some 0\<rparr>)"

text \<open>\<^verbatim>\<open>t.astimezone(timezone.utc)\<close> of an aware datetime.\<close>

definition astimezone_utc :: "pydatetime \<Rightarrow> pydatetime res" where
  "astimezone_utc t = mk_utc (instant t)"

text \<open>\<^verbatim>\<open>t + timedelta(seconds=n)\<close> of a UTC datetime.\<close>

definition add_seconds :: "pydatetime \<Rightarrow> int \<Rightarrow> pydatetime res" where
  "add_seconds t n = mk_utc (wall t + n * 1000000)"

text \<open>
  A clock argument (\<^verbatim>\<open>now: datetime | None\<close>): None, an object that is not a datetime, or a
  datetime.
\<close>

datatype now_arg = NowNone | NowOther | NowAt pydatetime

section \<open>Calendar\<close>

definition is_leap :: "int \<Rightarrow> bool" where
  "is_leap y \<longleftrightarrow> y mod 4 = 0 \<and> (y mod 100 \<noteq> 0 \<or> y mod 400 = 0)"

definition days_before_year :: "int \<Rightarrow> int" where
  "days_before_year y = (y - 1) * 365 + (y - 1) div 4 - (y - 1) div 100 + (y - 1) div 400"

definition days_in_month :: "int \<Rightarrow> int \<Rightarrow> int" where
  "days_in_month y m =
     (if m = 2 then (if is_leap y then 29 else 28)
      else if m = 4 \<or> m = 6 \<or> m = 9 \<or> m = 11 then 30 else 31)"

definition days_before_month :: "int \<Rightarrow> int \<Rightarrow> int" where
  "days_before_month y m = sum_list (map (days_in_month y) [1..m - 1])"

text \<open>Days since 0001-01-01.\<close>

definition day_number :: "int \<Rightarrow> int \<Rightarrow> int \<Rightarrow> int" where
  "day_number y m d = days_before_year y + days_before_month y m + d - 1"

text \<open>Monday is 0; 0001-01-01 was a Monday.\<close>

definition week1_monday :: "int \<Rightarrow> int" where
  "week1_monday y =
     (let first = day_number y 1 1; wd = first mod 7
      in if wd > 3 then first - wd + 7 else first - wd)"

lemma div_step:
  fixes k y :: int
  assumes "0 < k"
  shows "y div k = (y - 1) div k + (if y mod k = 0 then 1 else 0)"
proof (cases "y mod k = 0")
  case True
  then have y: "k * (y div k) = y" using mult_div_mod_eq [of k y] by simp
  have "y - 1 = k * (y div k - 1) + (k - 1)"
    by (simp add: right_diff_distrib y)
  then have "(y - 1) div k = y div k - 1"
    by (rule int_div_pos_eq) (use assms in auto)
  with True show ?thesis by simp
next
  case False
  have "0 \<le> y mod k" "y mod k < k" using assms by simp_all
  moreover have "y - 1 = k * (y div k) + (y mod k - 1)"
    by (simp add: algebra_simps)
  moreover have "0 < y mod k" using \<open>0 \<le> y mod k\<close> False by simp
  ultimately have "(y - 1) div k = y div k"
    by (intro int_div_pos_eq [where r = "y mod k - 1"]) simp_all
  with False show ?thesis by simp
qed

lemma year_length:
  "days_before_year (y + 1) = days_before_year y + (if is_leap y then 366 else 365)"
proof -
  have split: "a = a' + p \<Longrightarrow> b = b' + q \<Longrightarrow> c = c' + r \<Longrightarrow>
      y * 365 + a - b + c = ((y - 1) * 365 + a' - b' + c') + 365 + p - q + r"
    for a b c a' b' c' p q r :: int by simp
  have "days_before_year (y + 1) = y * 365 + y div 4 - y div 100 + y div 400"
    by (simp add: days_before_year_def)
  also have "\<dots> = days_before_year y + 365 + (if y mod 4 = 0 then 1 else 0)
      - (if y mod 100 = 0 then 1 else 0) + (if y mod 400 = 0 then 1 else 0)"
    unfolding days_before_year_def by (rule split [OF div_step div_step div_step]) simp_all
  finally have step: "days_before_year (y + 1) = \<dots>" .
  have "y mod 400 = 0 \<Longrightarrow> y mod 100 = 0" "y mod 100 = 0 \<Longrightarrow> y mod 4 = 0"
    using dvd_trans [of 100 400 y] dvd_trans [of 4 100 y] by (simp_all add: mod_eq_0_iff_dvd)
  then consider "y mod 4 \<noteq> 0" "y mod 100 \<noteq> 0" "y mod 400 \<noteq> 0"
    | "y mod 4 = 0" "y mod 100 \<noteq> 0" "y mod 400 \<noteq> 0"
    | "y mod 4 = 0" "y mod 100 = 0" "y mod 400 \<noteq> 0"
    | "y mod 4 = 0" "y mod 100 = 0" "y mod 400 = 0" by metis
  then show ?thesis
    unfolding step is_leap_def by cases simp_all
qed

lemma days_before_year_step: "days_before_year y + 365 \<le> days_before_year (y + 1)"
  unfolding year_length by simp

function year_from :: "int \<Rightarrow> int \<Rightarrow> int" where
  "year_from y n = (if 0 < y \<and> days_before_year (y + 1) \<le> n then year_from (y + 1) n else y)"
  by pat_completeness auto

termination
proof (relation "measure (\<lambda>(y, n). nat (n - days_before_year y))", goal_cases)
  case (2 y n)
  then have "days_before_year (y + 1) \<le> n" by simp
  moreover have "days_before_year y < days_before_year (y + 1)"
    using days_before_year_step [of y] by linarith
  ultimately show ?case by simp
qed simp

declare year_from.simps [simp del]

definition year_of_day :: "int \<Rightarrow> int" where
  "year_of_day n = year_from (n div 366 + 1) n"

fun month_from :: "nat \<Rightarrow> int \<Rightarrow> int \<Rightarrow> int \<Rightarrow> int \<times> int" where
  "month_from 0 y m n = (m, n + 1)"
| "month_from (Suc k) y m n =
     (if n < days_in_month y m then (m, n + 1) else month_from k y (m + 1) (n - days_in_month y m))"

definition ymd_of_day :: "int \<Rightarrow> int \<times> int \<times> int" where
  "ymd_of_day n =
     (let y = year_of_day n; (m, d) = month_from 11 y 1 (n - days_before_year y) in (y, m, d))"

definition mk_datetime :: "int \<Rightarrow> int \<Rightarrow> int \<Rightarrow> int \<Rightarrow> int \<Rightarrow> int \<Rightarrow> int \<Rightarrow> int option \<Rightarrow> pydatetime option" where
  "mk_datetime y mo d h mi s us off =
     (if 1 \<le> y \<and> y \<le> 9999 \<and> 1 \<le> mo \<and> mo \<le> 12 \<and> 1 \<le> d \<and> d \<le> days_in_month y mo
         \<and> 0 \<le> h \<and> h \<le> 23 \<and> 0 \<le> mi \<and> mi \<le> 59 \<and> 0 \<le> s \<and> s \<le> 59 \<and> 0 \<le> us \<and> us \<le> 999999
      then Some \<lparr>wall = (((day_number y mo d * 24 + h) * 60 + mi) * 60 + s) * 1000000 + us,
                 utc_offset = off\<rparr>
      else None)"

section \<open>Digits\<close>

definition digit_value :: "char \<Rightarrow> int" where
  "digit_value c = of_char c - 48"

definition digits_num :: "string \<Rightarrow> int" where
  "digits_num s = foldl (\<lambda>a c. 10 * a + digit_value c) 0 s"

text \<open>\<open>take_num k s\<close>: the number written by the first \<open>k\<close> characters, all digits, and the rest.\<close>

definition take_num :: "nat \<Rightarrow> string \<Rightarrow> (int \<times> string) option" where
  "take_num k s =
     (if k \<le> length s \<and> list_all is_digit (take k s)
      then Some (digits_num (take k s), drop k s) else None)"

definition digit_char :: "int \<Rightarrow> char" where
  "digit_char n = ''0123456789'' ! nat n"

fun pad :: "nat \<Rightarrow> int \<Rightarrow> string" where
  "pad 0 n = []"
| "pad (Suc k) n = pad k (n div 10) @ [digit_char (n mod 10)]"

section \<open>\<^verbatim>\<open>fromisoformat\<close>\<close>

definition separator_position :: "string \<Rightarrow> nat option" where
  "separator_position s =
     (if length s = 7 then Some 7
      else if s ! 4 = CHR ''-'' then
        (if s ! 5 = CHR ''W'' then
           (if 8 < length s \<and> s ! 8 = CHR ''-'' then
              (if length s = 9 then None
               else if 10 < length s \<and> is_digit (s ! 10) then Some 8 else Some 10)
            else Some 8)
         else Some 10)
      else if s ! 4 = CHR ''W'' then
        (let n = 7 + length (takeWhile is_digit (drop 7 s))
         in if n < 9 then Some n else if even n then Some 7 else Some 8)
      else Some 8)"

definition week_date :: "int \<Rightarrow> int \<Rightarrow> int \<Rightarrow> (int \<times> int \<times> int) option" where
  "week_date y w d =
     (let first = day_number y 1 1 mod 7;
          long = (first = 3 \<or> (first = 2 \<and> is_leap y));
          n = week1_monday y + (w - 1) * 7 + d - 1
      in if 1 \<le> y \<and> y \<le> 9999 \<and> 1 \<le> w \<and> (w \<le> 52 \<or> (w = 53 \<and> long)) \<and> 1 \<le> d \<and> d \<le> 7 \<and> 0 \<le> n
         then Some (ymd_of_day n) else None)"

text \<open>A date string: its year, then a week date or a month and day, with or without dashes.\<close>

definition parse_date :: "string \<Rightarrow> (int \<times> int \<times> int) option" where
  "parse_date s =
     (case take_num 4 s of
        None \<Rightarrow> None
      | Some (y, r) \<Rightarrow>
          (let sep = (startswith r ''-''); r1 = (if sep then tl r else r)
           in if startswith r1 ''W'' then
                (case take_num 2 (tl r1) of
                   None \<Rightarrow> None
                 | Some (w, r2) \<Rightarrow>
                     (if r2 = [] then week_date y w 1
                      else if sep \<and> \<not> startswith r2 ''-'' then None
                      else (case take_num 1 (if sep then tl r2 else r2) of
                          None \<Rightarrow> None
                        | Some (d, r3) \<Rightarrow> week_date y w d)))
              else
                (case take_num 2 r1 of
                   None \<Rightarrow> None
                 | Some (m, r2) \<Rightarrow>
                     (if sep \<and> \<not> startswith r2 ''-'' then None
                      else (case take_num 2 (if sep then tl r2 else r2) of
                          None \<Rightarrow> None
                        | Some (d, r3) \<Rightarrow> Some (y, m, d))))))"

definition parse_fraction :: "string \<Rightarrow> int option" where
  "parse_fraction s =
     (if s \<noteq> [] \<and> list_all is_digit s
      then Some (digits_num (take 6 s) * 10 ^ (6 - min 6 (length s))) else None)"

text \<open>\<^verbatim>\<open>HH[:?MM[:?SS[{.,}fff[fff]]]]\<close>, with either no colon or all of them.\<close>

definition parse_hms :: "string \<Rightarrow> (int \<times> int \<times> int \<times> int) option" where
  "parse_hms s =
     (case take_num 2 s of
        None \<Rightarrow> None
      | Some (h, r) \<Rightarrow>
          (if r = [] then Some (h, 0, 0, 0)
           else let sep = startswith r '':'' in
             (case take_num 2 (if sep then tl r else r) of
                None \<Rightarrow> None
              | Some (m, r2) \<Rightarrow>
                  (if r2 = [] then Some (h, m, 0, 0)
                   else if sep \<and> \<not> startswith r2 '':'' then None
                   else (case take_num 2 (if sep then tl r2 else r2) of
                       None \<Rightarrow> None
                     | Some (sec, r3) \<Rightarrow>
                         (if r3 = [] then Some (h, m, sec, 0)
                          else if hd r3 = CHR ''.'' \<or> hd r3 = CHR '',''
                          then map_option (\<lambda>us. (h, m, sec, us)) (parse_fraction (tl r3))
                          else None))))))"

definition is_zone_char :: "char \<Rightarrow> bool" where
  "is_zone_char c \<longleftrightarrow> c = CHR ''+'' \<or> c = CHR ''-'' \<or> c = CHR ''Z''"

text \<open>The offset of the part that starts at the zone character; \<open>timezone\<close> wants less than a day.\<close>

definition parse_zone :: "string \<Rightarrow> int option" where
  "parse_zone z =
     (if hd z = CHR ''Z'' then (if tl z = [] then Some 0 else None)
      else (case parse_hms (tl z) of
          None \<Rightarrow> None
        | Some (h, m, s, us) \<Rightarrow>
            (let off = ((h * 60 + m) * 60 + s) * 1000000 + us
             in if off < 86400000000 then Some (if hd z = CHR ''-'' then - off else off) else None)))"

definition parse_time :: "string \<Rightarrow> ((int \<times> int \<times> int \<times> int) \<times> int option) option" where
  "parse_time s =
     (let z = dropWhile (\<lambda>c. \<not> is_zone_char c) s
      in case parse_hms (takeWhile (\<lambda>c. \<not> is_zone_char c) s) of
           None \<Rightarrow> None
         | Some hms \<Rightarrow>
             (if z = [] then Some (hms, None)
              else map_option (\<lambda>off. (hms, Some off)) (parse_zone z)))"

text \<open>The separator is one character, whatever its width in UTF-8.\<close>

definition char_width :: "char \<Rightarrow> nat" where
  "char_width c = (if byte c < 128 then 1 else if byte c < 224 then 2 else if byte c < 240 then 3 else 4)"

definition fromisoformat :: "string \<Rightarrow> pydatetime option" where
  "fromisoformat s =
     (if length s < 7 then None
      else case separator_position s of
        None \<Rightarrow> None
      | Some p \<Rightarrow>
          (case parse_date (take p s) of
             None \<Rightarrow> None
           | Some (y, m, d) \<Rightarrow>
               (let r = drop p s; t = (if r = [] then [] else drop (char_width (hd r)) r)
                in if t = [] then mk_datetime y m d 0 0 0 0 None
                   else (case parse_time t of
                       None \<Rightarrow> None
                     | Some ((h, mi, sec, us), off) \<Rightarrow> mk_datetime y m d h mi sec us off))))"

text \<open>\<^verbatim>\<open>datetime.fromisoformat(raw.replace("Z", "+00:00"))\<close>, ValueError when malformed.\<close>

definition parse_iso :: "string \<Rightarrow> pydatetime res" where
  "parse_iso s =
     (case fromisoformat (replace_char (CHR ''Z'') ''+00:00'' s) of
        None \<Rightarrow> raise ValueError ''Invalid isoformat string''
      | Some t \<Rightarrow> Inr t)"

section \<open>\<^verbatim>\<open>isoformat\<close>\<close>

text \<open>\<^verbatim>\<open>t.isoformat().replace("+00:00", "Z")\<close> of a UTC datetime.\<close>

definition time_of_day :: "int \<Rightarrow> string" where
  "time_of_day us =
     (let sec = us div 1000000; f = us mod 1000000
      in pad 2 (sec div 3600) @ '':'' @ pad 2 (sec div 60 mod 60) @ '':'' @ pad 2 (sec mod 60)
         @ (if f = 0 then [] else ''.'' @ pad 6 f))"

definition format_utc :: "pydatetime \<Rightarrow> string" where
  "format_utc t =
     (let (y, m, d) = ymd_of_day (wall t div 86400000000)
      in pad 4 y @ ''-'' @ pad 2 m @ ''-'' @ pad 2 d @ ''T''
         @ time_of_day (wall t mod 86400000000) @ ''Z'')"

end
