(* ===== verification/Datetime_Roundtrip.thy ===== *)
theory Datetime_Roundtrip
  imports Py_Datetime
begin

text \<open>
  Every UTC datetime is read back from its rendering: the calendar arithmetic inverts
  (\<open>ymd_of_day\<close>), the fixed-width numbers parse to themselves, and the separators are where
  \<open>fromisoformat\<close> looks for them.
\<close>

section \<open>Years and months\<close>

lemma days_before_year_mono: "a \<le> b \<Longrightarrow> days_before_year a \<le> days_before_year b"
proof (induction b rule: int_ge_induct)
  case base
  show ?case by simp
next
  case (step i)
  then show ?case using days_before_year_step [of i] by linarith
qed

lemma year_from_bounds:
  "0 < y \<Longrightarrow> days_before_year y \<le> n \<Longrightarrow>
     y \<le> year_from y n \<and> days_before_year (year_from y n) \<le> n \<and>
     n < days_before_year (year_from y n + 1)"
proof (induction y n rule: year_from.induct)
  case (1 y n)
  show ?case
  proof (cases "days_before_year (y + 1) \<le> n")
    case True
    with "1.IH" "1.prems" show ?thesis by (subst (1 2 3) year_from.simps) auto
  next
    case False
    with "1.prems" show ?thesis by (subst (1 2 3) year_from.simps) auto
  qed
qed

lemma year_estimate: "0 \<le> n \<Longrightarrow> days_before_year (n div 366 + 1) \<le> n"
proof -
  assume n: "0 \<le> n"
  define a where "a = n div 366"
  have a: "0 \<le> a" "366 * a \<le> n" using n unfolding a_def by auto
  have "a div 4 \<le> a" "a div 400 \<le> a div 100"
    using a(1) by (auto intro: div_le_dividend zdiv_mono2)
  then show ?thesis using a by (simp add: days_before_year_def a_def [symmetric])
qed

lemma year_of_day_bounds:
  assumes "0 \<le> n"
  shows "1 \<le> year_of_day n" "days_before_year (year_of_day n) \<le> n"
    "n < days_before_year (year_of_day n + 1)"
  using year_from_bounds [OF _ year_estimate [OF assms]] assms
  unfolding year_of_day_def by (fastforce intro: order_trans [of _ "n div 366 + 1"])+

lemma year_of_day_max:
  assumes "0 \<le> n" "n < 3652059"
  shows "year_of_day n \<le> 9999"
proof (rule ccontr)
  assume "\<not> year_of_day n \<le> 9999"
  then have "days_before_year 10000 \<le> days_before_year (year_of_day n)"
    by (intro days_before_year_mono) simp
  moreover have "days_before_year 10000 = 3652059" by (simp add: days_before_year_def)
  ultimately show False using year_of_day_bounds [OF assms(1)] assms by simp
qed

lemma days_before_month_Suc:
  "1 \<le> m \<Longrightarrow> days_before_month y (m + 1) = days_before_month y m + days_in_month y m"
  unfolding days_before_month_def by (subst upto_rec2) auto

lemma days_before_month_13: "days_before_month y 13 = (if is_leap y then 366 else 365)"
proof -
  have "[1..12] = [1, 2, 3, 4, 5, 6, 7, 8, 9, 10, 11, 12::int]"
    by (simp add: upto_rec1)
  then show ?thesis by (simp add: days_before_month_def days_in_month_def)
qed

lemma month_from_bounds:
  assumes "month_from k y m n = (m', d)" "m + int k = 12" "1 \<le> m" "0 \<le> n"
    "n < days_before_month y 13 - days_before_month y m"
  shows "1 \<le> m' \<and> m' \<le> 12 \<and> 1 \<le> d \<and> d \<le> days_in_month y m' \<and>
    days_before_month y m' + d - 1 = days_before_month y m + n"
  using assms
proof (induction k y m n rule: month_from.induct)
  case (1 y m n)
  then show ?case using days_before_month_Suc [of 12 y] by simp
next
  case (2 k y m n)
  then show ?case using days_before_month_Suc [of m y] by (auto split: if_splits)
qed

lemma ymd_of_day_correct:
  assumes "0 \<le> n" "n < 3652059" "ymd_of_day n = (y, m, d)"
  shows "1 \<le> y \<and> y \<le> 9999 \<and> 1 \<le> m \<and> m \<le> 12 \<and> 1 \<le> d \<and> d \<le> days_in_month y m \<and>
    day_number y m d = n"
proof -
  have y: "y = year_of_day n" and md: "month_from 11 y 1 (n - days_before_year y) = (m, d)"
    using assms(3) by (auto simp: ymd_of_day_def Let_def split: prod.splits)
  have "n - days_before_year y < days_before_month y 13 - days_before_month y 1"
  proof -
    have "n < days_before_year (y + 1)" using year_of_day_bounds(3) [OF assms(1)] y by simp
    then have "n - days_before_year y < (if is_leap y then 366 else 365)"
      unfolding year_length by linarith
    then show ?thesis
      unfolding days_before_month_13 by (simp add: days_before_month_def del: if_split)
  qed
  then have "1 \<le> m \<and> m \<le> 12 \<and> 1 \<le> d \<and> d \<le> days_in_month y m \<and>
      days_before_month y m + d - 1 = days_before_month y 1 + (n - days_before_year y)"
    using month_from_bounds [OF md] year_of_day_bounds(2) [OF assms(1)] y by simp
  moreover have "days_before_month y 1 = 0" by (simp add: days_before_month_def)
  ultimately show ?thesis
    using year_of_day_bounds(1) [OF assms(1)] year_of_day_max [OF assms(1,2)] y
    by (simp add: day_number_def)
qed

section \<open>Fixed-width numbers\<close>

lemma digit_char_facts:
  "0 \<le> n \<Longrightarrow> n < 10 \<Longrightarrow>
     is_digit (digit_char n) \<and> digit_value (digit_char n) = n \<and>
     digit_char n \<notin> {CHR ''Z'', CHR ''+'', CHR ''-'', CHR '':'', CHR ''W''}"
proof -
  assume "0 \<le> n" "n < 10"
  then have "n \<in> set [0, 1, 2, 3, 4, 5, 6, 7, 8, 9]"
    by (simp only: list.set insert_iff empty_iff) presburger
  then show ?thesis by (auto simp: digit_char_def is_digit_def digit_value_def)
qed

lemma length_pad [simp]: "length (pad k n) = k"
  by (induction k n rule: pad.induct) auto

lemma pad_digits: "list_all is_digit (pad k n)"
  by (induction k n rule: pad.induct) (auto simp: digit_char_facts)

lemma digits_num_snoc: "digits_num (s @ [c]) = 10 * digits_num s + digit_value c"
  by (simp add: digits_num_def)

lemma digits_num_pad: "0 \<le> n \<Longrightarrow> n < 10 ^ k \<Longrightarrow> digits_num (pad k n) = n"
proof (induction k n rule: pad.induct)
  case (1 n)
  then show ?case by (simp add: digits_num_def)
next
  case (2 k n)
  then have "digits_num (pad k (n div 10)) = n div 10" by simp
  then show ?case by (simp add: digits_num_snoc digit_char_facts)
qed

lemma take_num_pad [simp]:
  "0 \<le> n \<Longrightarrow> n < 10 ^ k \<Longrightarrow> take_num k (pad k n @ r) = Some (n, r)"
  using pad_digits [of k n] by (simp add: take_num_def digits_num_pad)

lemma length_pad_nonempty [simp]: "pad (Suc k) n \<noteq> []"
  by simp

lemma list_all_is_digit_no: "list_all is_digit s \<Longrightarrow> \<not> is_digit c \<Longrightarrow> c \<notin> set s"
  by (auto simp: list_all_iff)

lemma pad_no_zone: "c \<in> set (pad k n) \<Longrightarrow> \<not> is_zone_char c"
  using pad_digits [of k n] by (auto simp: list_all_iff is_zone_char_def is_digit_def)

lemma pad_no_Z: "CHR ''Z'' \<notin> set (pad k n)"
  by (rule list_all_is_digit_no [OF pad_digits]) (simp add: is_digit_def)

section \<open>Times of day\<close>

abbreviation hms_text :: "int \<Rightarrow> string" where
  "hms_text us \<equiv> time_of_day us"

lemma hms_text_no_zone: "c \<in> set (hms_text us) \<Longrightarrow> \<not> is_zone_char c"
  by (auto simp: time_of_day_def Let_def is_zone_char_def pad_no_Z
      dest!: pad_no_zone split: if_splits)

lemma parse_hms_text:
  assumes "0 \<le> h" "h < 100" "0 \<le> m" "m < 100" "0 \<le> s" "s < 100" "0 \<le> f" "f < 1000000"
  shows "parse_hms (pad 2 h @ '':'' @ pad 2 m @ '':'' @ pad 2 s @ (if f = 0 then [] else ''.'' @ pad 6 f))
    = Some (h, m, s, f)"
proof -
  have last: "take_num 2 (pad 2 s) = Some (s, [])"
    using take_num_pad [of s 2 "[]"] assms by simp
  show ?thesis
  proof (cases "f = 0")
    case True
    with assms last show ?thesis by (simp add: parse_hms_def)
  next
    case False
    moreover have "parse_fraction (pad 6 f) = Some f"
    proof -
      have "pad 6 f \<noteq> []" using length_pad [of 6 f] by fastforce
      then show ?thesis
        using assms digits_num_pad [of f 6] by (simp add: parse_fraction_def pad_digits)
    qed
    ultimately show ?thesis using assms by (simp add: parse_hms_def)
  qed
qed

lemma time_parts:
  fixes us :: int
  assumes "0 \<le> us" "us < 86400000000"
  shows "0 \<le> us div 1000000 div 3600" "us div 1000000 div 3600 \<le> 23"
    "0 \<le> us div 1000000 div 60 mod 60" "us div 1000000 div 60 mod 60 \<le> 59"
    "0 \<le> us div 1000000 mod 60" "us div 1000000 mod 60 \<le> 59"
    "0 \<le> us mod 1000000" "us mod 1000000 \<le> 999999"
proof -
  have s: "0 \<le> us div 1000000" "us div 1000000 < 86400" using assms by auto
  then show "0 \<le> us div 1000000 div 3600" "us div 1000000 div 3600 \<le> 23" by auto
  show "us div 1000000 div 60 mod 60 \<le> 59" "us div 1000000 mod 60 \<le> 59" "us mod 1000000 \<le> 999999"
    using pos_mod_bound [of 60 "us div 1000000 div 60"] pos_mod_bound [of 60 "us div 1000000"]
      pos_mod_bound [of 1000000 us] by linarith+
qed simp_all

lemma parse_hms_time_of_day:
  assumes "0 \<le> us" "us < 86400000000"
  shows "parse_hms (time_of_day us) =
    Some (us div 1000000 div 3600, us div 1000000 div 60 mod 60, us div 1000000 mod 60, us mod 1000000)"
  unfolding time_of_day_def Let_def
  by (rule parse_hms_text) (use time_parts [OF assms] in linarith)+

lemma hms_recombine:
  fixes us :: int
  shows "((us div 1000000 div 3600 * 60 + us div 1000000 div 60 mod 60) * 60
    + us div 1000000 mod 60) * 1000000 + us mod 1000000 = us"
proof -
  let ?s = "us div 1000000"
  have "?s div 3600 = ?s div 60 div 60"
    using zdiv_zmult2_eq [of 60 ?s 60] by simp
  then have "?s div 3600 * 60 + ?s div 60 mod 60 = ?s div 60"
    by (metis div_mult_mod_eq)
  then show ?thesis by (simp add: div_mult_mod_eq)
qed

section \<open>The round trip\<close>

lemma replace_char_append: "replace_char c t (xs @ ys) = replace_char c t xs @ replace_char c t ys"
  by (simp add: replace_char_def)

lemma replace_char_Cons:
  "replace_char c t (x # xs) = (if x = c then t else [x]) @ replace_char c t xs"
  by (simp add: replace_char_def)

lemma replace_char_absent: "c \<notin> set s \<Longrightarrow> replace_char c t s = s"
  by (induction s) (auto simp: replace_char_def)

lemma parse_zone_utc: "parse_zone ''+00:00'' = Some 0"
  by (simp add: parse_zone_def parse_hms_def take_num_def is_digit_def digits_num_def digit_value_def)

lemma parse_time_utc:
  assumes "0 \<le> us" "us < 86400000000"
  shows "parse_time (time_of_day us @ ''+00:00'') =
    Some ((us div 1000000 div 3600, us div 1000000 div 60 mod 60, us div 1000000 mod 60,
      us mod 1000000), Some 0)"
proof -
  have "takeWhile (\<lambda>c. \<not> is_zone_char c) (time_of_day us @ ''+00:00'') = time_of_day us"
    "dropWhile (\<lambda>c. \<not> is_zone_char c) (time_of_day us @ ''+00:00'') = ''+00:00''"
    using hms_text_no_zone [of _ us]
    by (simp_all add: takeWhile_append2 dropWhile_append2 is_zone_char_def)
  then show ?thesis
    using parse_hms_time_of_day [OF assms] parse_zone_utc by (simp add: parse_time_def)
qed

lemma parse_date_pad:
  assumes "0 \<le> y" "y < 10000" "0 \<le> m" "m < 100" "0 \<le> d" "d < 100"
  shows "parse_date (pad 4 y @ ''-'' @ pad 2 m @ ''-'' @ pad 2 d) = Some (y, m, d)"
proof -
  have "take_num 2 (pad 2 d) = Some (d, [])"
    using take_num_pad [of d 2 "[]"] assms by simp
  moreover have "\<not> startswith (pad 2 m @ ''-'' @ pad 2 d) ''W''"
    using pad_digits [of 2 m] by (cases "pad 2 m") (auto simp: is_digit_def eval_nat_numeral)
  ultimately show ?thesis using assms
    by (simp add: parse_date_def Let_def)
qed

lemma mk_datetime_ok:
  assumes "1 \<le> y" "y \<le> 9999" "1 \<le> mo" "mo \<le> 12" "1 \<le> d" "d \<le> days_in_month y mo"
    "0 \<le> h" "h \<le> 23" "0 \<le> mi" "mi \<le> 59" "0 \<le> s" "s \<le> 59" "0 \<le> us" "us \<le> 999999"
  shows "mk_datetime y mo d h mi s us off =
    Some \<lparr>wall = (((day_number y mo d * 24 + h) * 60 + mi) * 60 + s) * 1000000 + us, utc_offset = off\<rparr>"
  using assms by (simp add: mk_datetime_def)

lemma fromisoformat_utc:
  assumes "1 \<le> y" "y \<le> 9999" "1 \<le> m" "m \<le> 12" "1 \<le> d" "d \<le> days_in_month y m"
    and us: "0 \<le> us" "us < 86400000000"
  shows "fromisoformat (pad 4 y @ ''-'' @ pad 2 m @ ''-'' @ pad 2 d @ ''T'' @ time_of_day us @ ''+00:00'') =
    Some \<lparr>wall = day_number y m d * 86400000000 + us, utc_offset = Some 0\<rparr>"
proof -
  let ?date = "pad 4 y @ ''-'' @ pad 2 m @ ''-'' @ pad 2 d"
  let ?s = "?date @ ''T'' @ time_of_day us @ ''+00:00''"
  have d: "d < 100" using assms(6) by (auto simp: days_in_month_def split: if_splits)
  have "?s ! 4 = CHR ''-''" by (simp add: nth_append)
  moreover have "?s ! 5 \<noteq> CHR ''W''"
    using pad_digits [of 2 m]
    by (cases "pad 2 m") (auto simp: nth_append is_digit_def eval_nat_numeral)
  moreover have "length ?s \<noteq> 7" by simp
  ultimately have sep: "separator_position ?s = Some 10"
    by (simp add: separator_position_def)
  have "take 10 ?s = ?date" "drop 10 ?s = ''T'' @ time_of_day us @ ''+00:00''" by simp_all
  moreover have "parse_date ?date = Some (y, m, d)"
    using assms d by (intro parse_date_pad) auto
  moreover have "drop (char_width (CHR ''T'')) (''T'' @ time_of_day us @ ''+00:00'') = time_of_day us @ ''+00:00''"
    by (simp add: char_width_def)
  ultimately have "fromisoformat ?s = mk_datetime y m d (us div 1000000 div 3600)
      (us div 1000000 div 60 mod 60) (us div 1000000 mod 60) (us mod 1000000) (Some 0)"
    using sep parse_time_utc [OF us] by (simp add: fromisoformat_def Let_def)
  also have "\<dots> = Some \<lparr>wall = (((day_number y m d * 24 + us div 1000000 div 3600) * 60
      + us div 1000000 div 60 mod 60) * 60 + us div 1000000 mod 60) * 1000000 + us mod 1000000,
      utc_offset = Some 0\<rparr>"
    by (rule mk_datetime_ok) (fact assms time_parts [OF us])+
  also have "(((day_number y m d * 24 + us div 1000000 div 3600) * 60 + us div 1000000 div 60 mod 60) * 60
      + us div 1000000 mod 60) * 1000000 + us mod 1000000 = day_number y m d * 86400000000 + us"
    using hms_recombine [of us] by (simp only: distrib_right)
  finally show ?thesis by (simp only: append_assoc)
qed

lemma parse_format_utc:
  assumes "valid_datetime t" "utc_offset t = Some 0"
  shows "parse_iso (format_utc t) = Inr t"
proof -
  define n us where "n = wall t div 86400000000" and "us = wall t mod 86400000000"
  have us: "0 \<le> us" "us < 86400000000" unfolding us_def by simp_all
  have n: "0 \<le> n" "n < 3652059"
    using assms(1) unfolding valid_datetime_def n_def max_wall_def by auto
  obtain y m d where ymd: "ymd_of_day n = (y, m, d)" by (cases "ymd_of_day n") auto
  note c = ymd_of_day_correct [OF n ymd]
  have "format_utc t = pad 4 y @ ''-'' @ pad 2 m @ ''-'' @ pad 2 d @ ''T'' @ time_of_day us @ ''Z''"
    using ymd by (simp add: format_utc_def n_def us_def)
  moreover have "CHR ''Z'' \<notin> set (time_of_day us)"
    using hms_text_no_zone [of "CHR ''Z''" us] by (auto simp: is_zone_char_def)
  ultimately have "replace_char (CHR ''Z'') ''+00:00'' (format_utc t) =
      pad 4 y @ ''-'' @ pad 2 m @ ''-'' @ pad 2 d @ ''T'' @ time_of_day us @ ''+00:00''"
    by (simp add: replace_char_append replace_char_absent replace_char_Cons pad_no_Z)
  moreover have "day_number y m d * 86400000000 + us = wall t"
    using c by (simp add: n_def us_def)
  ultimately show ?thesis
    using fromisoformat_utc [of y m d us] c us assms(2) by (simp add: parse_iso_def)
qed

lemma mk_utc_Inr: "mk_utc us = Inr t \<longleftrightarrow>
    0 \<le> us \<and> us < max_wall \<and> t = \<lparr>wall = us, utc_offset = Some 0\<rparr>"
  by (auto simp: mk_utc_def)

lemma mk_utc_valid: "mk_utc us = Inr t \<Longrightarrow> valid_datetime t \<and> utc_offset t = Some 0 \<and> instant t = us"
  by (auto simp: mk_utc_Inr valid_datetime_def instant_def)

lemma astimezone_utc_facts:
  "astimezone_utc t = Inr u \<Longrightarrow> instant u = instant t \<and> utc_offset u = Some 0 \<and> valid_datetime u"
  using mk_utc_valid by (auto simp: astimezone_utc_def)

lemma add_seconds_facts:
  "add_seconds t n = Inr u \<Longrightarrow> utc_offset t = Some 0 \<Longrightarrow>
     instant u = instant t + n * 1000000 \<and> utc_offset u = Some 0 \<and> valid_datetime u"
  using mk_utc_valid [of "wall t + n * 1000000" u] by (auto simp: add_seconds_def instant_def)

lemma parse_iso_Inl: "parse_iso s = Inl e \<Longrightarrow> e = Exn ValueError ''Invalid isoformat string''"
  by (auto simp: parse_iso_def split: option.splits)

end
