(* ===== verification/State_Machine.thy ===== *)
theory State_Machine
  imports Py_Values
begin

text \<open>
  \<^verbatim>\<open>src/app_contracts/state_machine.py\<close>: the workflow graph of a repository change and the
  evidence each transition needs. An argument that is not of the class the code tests for
  (\<^verbatim>\<open>isinstance\<close>) is \<open>None\<close>; the flags of the evidence are arbitrary values, since a Python
  dataclass does not enforce its annotations.
\<close>

datatype process_state =
    RECEIVED | SPECIFIED | AUTHORIZED | EXECUTING | VERIFYING | STAGED | WAITING_APPROVAL
  | APPLYING | COMPLETED | WAITING_INPUT | QUARANTINED | REJECTED | FAILED
  | RECONCILIATION_REQUIRED | CANCELLED

fun state_value :: "process_state \<Rightarrow> string" where
  "state_value RECEIVED = ''received''"
| "state_value SPECIFIED = ''specified''"
| "state_value AUTHORIZED = ''authorized''"
| "state_value EXECUTING = ''executing''"
| "state_value VERIFYING = ''verifying''"
| "state_value STAGED = ''staged''"
| "state_value WAITING_APPROVAL = ''waiting_approval''"
| "state_value APPLYING = ''applying''"
| "state_value COMPLETED = ''completed''"
| "state_value WAITING_INPUT = ''waiting_input''"
| "state_value QUARANTINED = ''quarantined''"
| "state_value REJECTED = ''rejected''"
| "state_value FAILED = ''failed''"
| "state_value RECONCILIATION_REQUIRED = ''reconciliation_required''"
| "state_value CANCELLED = ''cancelled''"

definition all_states :: "process_state list" where
  "all_states = [RECEIVED, SPECIFIED, AUTHORIZED, EXECUTING, VERIFYING, STAGED, WAITING_APPROVAL,
     APPLYING, COMPLETED, WAITING_INPUT, QUARANTINED, REJECTED, FAILED, RECONCILIATION_REQUIRED,
     CANCELLED]"

text \<open>\<^verbatim>\<open>ProcessState(text)\<close>, a ValueError for any other text.\<close>

definition state_of_value :: "string \<Rightarrow> process_state option" where
  "state_of_value v = List.find (\<lambda>s. state_value s = v) all_states"

text \<open>\<^verbatim>\<open>_NORMAL.get(current, set())\<close>.\<close>

fun normal_targets :: "process_state \<Rightarrow> process_state list" where
  "normal_targets RECEIVED = [SPECIFIED, WAITING_INPUT, REJECTED, CANCELLED]"
| "normal_targets SPECIFIED = [AUTHORIZED, WAITING_INPUT, REJECTED, CANCELLED]"
| "normal_targets AUTHORIZED = [EXECUTING, REJECTED, CANCELLED]"
| "normal_targets EXECUTING = [VERIFYING, QUARANTINED, FAILED, CANCELLED]"
| "normal_targets VERIFYING = [EXECUTING, STAGED, QUARANTINED, REJECTED, FAILED]"
| "normal_targets STAGED = [WAITING_APPROVAL, EXECUTING, CANCELLED]"
| "normal_targets WAITING_APPROVAL = [APPLYING, EXECUTING, REJECTED, CANCELLED]"
| "normal_targets APPLYING = [COMPLETED, FAILED, RECONCILIATION_REQUIRED]"
| "normal_targets WAITING_INPUT = [SPECIFIED, CANCELLED]"
| "normal_targets QUARANTINED = [EXECUTING, REJECTED, CANCELLED]"
| "normal_targets RECONCILIATION_REQUIRED = [COMPLETED, FAILED]"
| "normal_targets _ = []"

definition terminal :: "process_state \<Rightarrow> bool" where
  "terminal s \<longleftrightarrow> s \<in> {COMPLETED, REJECTED, FAILED, CANCELLED}"

record transition_evidence =
  contract_complete :: pyval
  policy_allowed :: pyval
  artifact_digest :: pyval
  verification_passed :: pyval
  staged_digest :: pyval
  approval_valid :: pyval
  receipt_present :: pyval
  postcondition_verified :: pyval

definition evidence_flags :: "transition_evidence \<Rightarrow> pyval list" where
  "evidence_flags e = [contract_complete e, policy_allowed e, artifact_digest e,
     verification_passed e, staged_digest e, approval_valid e, receipt_present e,
     postcondition_verified e]"

text \<open>\<^verbatim>\<open>TransitionEvidence()\<close>: every flag is False.\<close>

definition no_evidence :: transition_evidence where
  "no_evidence = \<lparr>contract_complete = PBool False, policy_allowed = PBool False,
     artifact_digest = PBool False, verification_passed = PBool False,
     staged_digest = PBool False, approval_valid = PBool False,
     receipt_present = PBool False, postcondition_verified = PBool False\<rparr>"

abbreviation holds :: "pyval \<Rightarrow> bool" where
  "holds v \<equiv> v = PBool True"

text \<open>\<^verbatim>\<open>requirements.get((current, target), True)\<close>.\<close>

definition required_evidence :: "process_state \<Rightarrow> process_state \<Rightarrow> transition_evidence \<Rightarrow> bool" where
  "required_evidence s t e =
    (if (s, t) = (RECEIVED, SPECIFIED) then holds (contract_complete e)
     else if (s, t) = (SPECIFIED, AUTHORIZED) then holds (policy_allowed e)
     else if (s, t) = (EXECUTING, VERIFYING) then holds (artifact_digest e)
     else if (s, t) = (VERIFYING, STAGED) then holds (verification_passed e) \<and> holds (staged_digest e)
     else if (s, t) = (STAGED, WAITING_APPROVAL) then holds (staged_digest e)
     else if (s, t) = (WAITING_APPROVAL, APPLYING) then holds (approval_valid e) \<and> holds (staged_digest e)
     else if (s, t) = (APPLYING, COMPLETED) then holds (receipt_present e) \<and> holds (postcondition_verified e)
     else if (s, t) = (RECONCILIATION_REQUIRED, COMPLETED)
       then holds (receipt_present e) \<and> holds (postcondition_verified e)
     else True)"

definition transition ::
  "process_state option \<Rightarrow> process_state option \<Rightarrow> transition_evidence option \<Rightarrow> process_state res" where
  "transition current target evidence =
     (case evidence of
        None \<Rightarrow> raise InvalidTransition ''transition evidence is invalid''
      | Some ev \<Rightarrow>
          unless (\<not> list_all is_bool (evidence_flags ev))
            (Exn InvalidTransition ''transition evidence flags must be boolean'')
            (case current of
               None \<Rightarrow> raise InvalidTransition ''transition current state is invalid''
             | Some cur \<Rightarrow>
                 (case target of
                    None \<Rightarrow> raise InvalidTransition ''transition target is invalid''
                  | Some tgt \<Rightarrow>
                      unless (terminal cur)
                        (Exn InvalidTransition
                           (''terminal state '' @ state_value cur @ '' cannot transition''))
                      (unless (tgt \<notin> set (normal_targets cur))
                        (Exn InvalidTransition
                           (''transition '' @ state_value cur @ '' -> '' @ state_value tgt
                              @ '' is not allowed''))
                      (unless (\<not> required_evidence cur tgt ev)
                        (Exn InvalidTransition
                           (''transition '' @ state_value cur @ '' -> '' @ state_value tgt
                              @ '' lacks required evidence''))
                      (Inr tgt))))))"

section \<open>Facts\<close>

lemma state_of_value_value [simp]: "state_of_value (state_value s) = Some s"
  by (cases s) (simp_all add: state_of_value_def all_states_def)

lemma state_value_inject [simp]: "state_value s = state_value t \<longleftrightarrow> s = t"
  by (metis state_of_value_value option.inject)

lemma state_of_value_Some: "state_of_value v = Some s \<Longrightarrow> v = state_value s"
  by (auto simp: state_of_value_def find_Some_iff)

lemma transition_Inr:
  "transition current target evidence = Inr t \<longleftrightarrow>
     (\<exists>s e. current = Some s \<and> target = Some t \<and> evidence = Some e \<and>
        list_all is_bool (evidence_flags e) \<and> \<not> terminal s \<and>
        t \<in> set (normal_targets s) \<and> required_evidence s t e)"
  by (auto simp: transition_def split: option.splits)

lemma terminal_no_targets: "terminal s \<longleftrightarrow> normal_targets s = []"
  by (cases s) (auto simp: terminal_def)

text \<open>A step of the workflow, and the runs it allows; the log has the newest step first.\<close>

inductive workflow_step :: "process_state \<Rightarrow> transition_evidence \<Rightarrow> process_state \<Rightarrow> bool" where
  step: "transition (Some s) (Some t) (Some e) = Inr t \<Longrightarrow> workflow_step s e t"

inductive_simps workflow_step_iff: "workflow_step s e t"

type_synonym step_log = "(process_state \<times> transition_evidence \<times> process_state) list"

inductive workflow_run :: "step_log \<Rightarrow> process_state \<Rightarrow> bool" where
  start: "workflow_run [] RECEIVED"
| extend: "workflow_run log s \<Longrightarrow> workflow_step s e t \<Longrightarrow> workflow_run ((s, e, t) # log) t"

inductive_cases workflow_run_ConsE: "workflow_run (x # log) s"

lemma workflow_step_cases:
  "workflow_step s e t \<Longrightarrow> t \<in> set (normal_targets s) \<and> required_evidence s t e"
  by (auto simp: workflow_step_iff transition_Inr)

text \<open>
  \<open>passed_since P Q log\<close>: a step satisfying \<open>P\<close> was taken and none since then satisfies \<open>Q\<close>.
\<close>

fun passed_since ::
  "(process_state \<times> transition_evidence \<times> process_state \<Rightarrow> bool) \<Rightarrow>
   (process_state \<times> transition_evidence \<times> process_state \<Rightarrow> bool) \<Rightarrow> step_log \<Rightarrow> bool" where
  "passed_since P Q [] = False"
| "passed_since P Q (x # log) = (P x \<or> (\<not> Q x \<and> passed_since P Q log))"

definition verified_step :: "process_state \<times> transition_evidence \<times> process_state \<Rightarrow> bool" where
  "verified_step = (\<lambda>(s, e, t). s = VERIFYING \<and> t = STAGED \<and> holds (verification_passed e))"

definition approved_step :: "process_state \<times> transition_evidence \<times> process_state \<Rightarrow> bool" where
  "approved_step = (\<lambda>(s, e, t). s = WAITING_APPROVAL \<and> t = APPLYING \<and> holds (approval_valid e))"

definition reexecutes :: "process_state \<times> transition_evidence \<times> process_state \<Rightarrow> bool" where
  "reexecutes = (\<lambda>(s, e, t). t = EXECUTING)"

lemma passed_since_split:
  "passed_since P Q log \<Longrightarrow> \<exists>post x pre. log = post @ x # pre \<and> P x \<and> (\<forall>y\<in>set post. \<not> Q y)"
proof (induction log)
  case Nil
  then show ?case by simp
next
  case (Cons a log)
  then consider "P a" | "\<not> Q a" "passed_since P Q log" by auto
  then show ?case
  proof cases
    case 1
    then show ?thesis by (intro exI [of _ "[]"]) auto
  next
    case 2
    then obtain post x pre where "log = post @ x # pre" "P x" "\<forall>y\<in>set post. \<not> Q y"
      using Cons.IH by blast
    with 2 show ?thesis by (intro exI [of _ "a # post"]) auto
  qed
qed

text \<open>The invariant of every run: what the log shows in each of the later states.\<close>

definition run_inv :: "step_log \<Rightarrow> process_state \<Rightarrow> bool" where
  "run_inv log s \<longleftrightarrow>
     (s \<in> {STAGED, WAITING_APPROVAL, APPLYING, RECONCILIATION_REQUIRED, COMPLETED} \<longrightarrow>
        passed_since verified_step reexecutes log) \<and>
     (s \<in> {APPLYING, RECONCILIATION_REQUIRED, COMPLETED} \<longrightarrow>
        passed_since approved_step reexecutes log)"

lemma workflow_run_inv: "workflow_run log s \<Longrightarrow> run_inv log s"
proof (induction rule: workflow_run.induct)
  case start
  show ?case by (simp add: run_inv_def)
next
  case (extend log s e t)
  have "t \<in> set (normal_targets s)" "required_evidence s t e"
    using workflow_step_cases [OF extend.hyps(2)] by auto
  with extend.IH show ?case
    by (cases s; auto simp: required_evidence_def run_inv_def verified_step_def approved_step_def reexecutes_def)
qed

end
