(* ===== verification/Gateway.thy ===== *)
theory Gateway
  imports Py_Datetime
begin

text \<open>
  \<^verbatim>\<open>src/app_contracts/gateway.py\<close>: the deterministic risk classifier and its enforcement with an
  audit sink. The sink is an interface (\<open>audit_sink\<close>): what it promises is stated as the
  locale's assumptions and discharged for the durable process store in the theory of that store.
\<close>

datatype gateway_path = FAST | SLOW | DEGRADED

record gateway_decision =
  path :: gateway_path
  allowed :: bool
  reason_codes :: "string list"

definition malformed :: exn where
  "malformed = Exn ContractValidationError ''gateway: envelope is malformed''"

definition read_only_operations :: "string list" where
  "read_only_operations = [''repository.read'', ''workspace.read'', ''artifact.read'', ''evidence.read'']"

definition required_envelope_fields :: "(string \<times> string) list" where
  "required_envelope_fields = [(''intent'', ''operation''), (''destination'', ''port''),
     (''source'', ''protocol''), (''security'', ''tainted''), (''security'', ''sensitivity'')]"

definition required_audit_fields :: "(string \<times> string) list" where
  "required_audit_fields = [(''source'', ''principal_id''), (''payload'', ''content_digest'')]"

definition slow_ports :: "string list" where
  "slow_ports = [''tool'', ''approval'', ''credential-operation'']"

definition privilege_prefixes :: "string list" where
  "privilege_prefixes = [''capability.'', ''identity.'', ''delegation.'']"

text \<open>The section and field exist: \<^verbatim>\<open>envelope.get(section)\<close> is a dict holding \<^verbatim>\<open>field\<close>.\<close>

definition require_field :: "pyval \<Rightarrow> string \<times> string \<Rightarrow> unit res" where
  "require_field env sf =
     unless (\<not> is_dict (fld env (fst sf)) \<or> \<not> has_key (fld env (fst sf)) (snd sf)) malformed (Inr ())"

definition require_text :: "pyval \<Rightarrow> string \<times> string \<Rightarrow> unit res" where
  "require_text env sf =
     unless (\<not> nonempty_str (fld (fld env (fst sf)) (snd sf))) malformed (Inr ())"

definition require_envelope_shape :: "pyval \<Rightarrow> unit res" where
  "require_envelope_shape env =
     unless (\<not> is_dict env) malformed
     (rbind (check_each (require_field env) required_envelope_fields) (\<lambda>_.
      rbind (check_each (require_text env)
        [(''intent'', ''operation''), (''destination'', ''port''), (''source'', ''protocol'')]) (\<lambda>_.
      unless (\<not> is_bool (fld (fld env ''security'') ''tainted'')) malformed
     (unless (\<not> nonempty_str (fld (fld env ''security'') ''sensitivity'')) malformed
     (Inr ())))))"

text \<open>On a value that is not a dict, \<^verbatim>\<open>envelope.get\<close> raises AttributeError.\<close>

definition require_audit_shape :: "pyval \<Rightarrow> unit res" where
  "require_audit_shape env =
     unless (\<not> is_dict env) (Exn AttributeError ''no attribute get'')
     (unless (\<not> nonempty_str (fld env ''correlation_id'')) malformed
     (rbind (check_each (require_field env) required_audit_fields) (\<lambda>_.
      check_each (require_text env) required_audit_fields)))"

definition decide_path :: "gateway_path \<Rightarrow> bool \<Rightarrow> string list \<Rightarrow> gateway_decision" where
  "decide_path p a rs = \<lparr>path = p, allowed = a, reason_codes = rs\<rparr>"

definition slow_reasons :: "pyval \<Rightarrow> string list" where
  "slow_reasons env =
     (let operation = str_of (fld (fld env ''intent'') ''operation'');
          port = str_of (fld (fld env ''destination'') ''port'');
          security = fld env ''security''
      in (if fld security ''tainted'' = PBool True then [''tainted-content''] else [])
       @ (if fld (fld env ''source'') ''protocol'' \<noteq> PStr ''internal'' then [''protocol-boundary''] else [])
       @ (if port \<in> set slow_ports then [''sensitive-port''] else [])
       @ (if list_ex (startswith operation) privilege_prefixes then [''privilege-transition''] else [])
       @ (if operation \<notin> set read_only_operations then [''write-or-unknown-operation''] else [])
       @ (if str_of (fld security ''sensitivity'') \<in> {''confidential'', ''restricted''}
          then [''sensitive-data''] else []))"

definition classify :: "pyval \<Rightarrow> pyval \<Rightarrow> gateway_decision res" where
  "classify env policy_available =
     rbind (require_envelope_shape env) (\<lambda>_.
     unless (\<not> is_bool policy_available)
       (Exn ContractValidationError ''gateway: policy availability is invalid'')
     (let operation = str_of (fld (fld env ''intent'') ''operation'');
          tainted = (fld (fld env ''security'') ''tainted'' = PBool True);
          is_read_only = (operation \<in> set read_only_operations)
      in Inr
        (if policy_available \<noteq> PBool True then
           (if is_read_only
            then decide_path DEGRADED True [''policy-unavailable'', ''read-only-allowlist'']
            else decide_path DEGRADED False [''policy-unavailable'', ''write-or-unknown-denied''])
         else if tainted \<and> \<not> is_read_only
           then decide_path SLOW False [''tainted-content'', ''authorization-denied'']
         else if slow_reasons env \<noteq> [] then decide_path SLOW True (slow_reasons env)
         else decide_path FAST True [''internal-read-only''])))"

text \<open>The arguments of \<^verbatim>\<open>append_audit_event\<close>.\<close>

record audit_entry =
  audit_process :: string
  audit_actor :: string
  audit_type :: string
  audit_input_digest :: string
  audit_result :: string
  audit_reasons :: "string list"
  audit_time :: now_arg

definition gateway_audit_entry :: "pyval \<Rightarrow> gateway_decision \<Rightarrow> now_arg \<Rightarrow> audit_entry" where
  "gateway_audit_entry env d now =
     \<lparr>audit_process = str_of (fld env ''correlation_id''),
      audit_actor = str_of (fld (fld env ''source'') ''principal_id''),
      audit_type = ''gateway.request'',
      audit_input_digest = str_of (fld (fld env ''payload'') ''content_digest''),
      audit_result = (if allowed d then ''allowed'' else ''denied''),
      audit_reasons = reason_codes d,
      audit_time = now\<rparr>"

text \<open>The classes \<^verbatim>\<open>enforce\<close> catches around the classification.\<close>

definition caught_by_enforce :: "exn \<Rightarrow> bool" where
  "caught_by_enforce e \<longleftrightarrow>
     exn_class e \<in> {ContractValidationError, KeyError, TypeError, AttributeError}"

definition enforce ::
  "(audit_entry \<Rightarrow> ('s, unit) eff) \<Rightarrow> pyval \<Rightarrow> pyval \<Rightarrow> now_arg \<Rightarrow> ('s, gateway_decision) eff" where
  "enforce append_audit env policy_available now s =
     (case rbind (require_audit_shape env) (\<lambda>_. classify env policy_available) of
        Inl e \<Rightarrow>
          (if caught_by_enforce e then (Inr (decide_path DEGRADED False [''malformed-envelope'']), s)
           else (Inl e, s))
      | Inr d \<Rightarrow>
          (case append_audit (gateway_audit_entry env d now) s of
             (Inl _, t) \<Rightarrow> (Inr (decide_path DEGRADED False [''audit-sink-unavailable'']), t)
           | (Inr _, t) \<Rightarrow> (Inr d, t)))"

section \<open>The classifier\<close>

definition operation_of :: "pyval \<Rightarrow> string" where
  "operation_of env = str_of (fld (fld env ''intent'') ''operation'')"

definition is_tainted :: "pyval \<Rightarrow> bool" where
  "is_tainted env \<longleftrightarrow> fld (fld env ''security'') ''tainted'' = PBool True"

lemma decide_path_sel [simp]:
  "path (decide_path p a rs) = p" "allowed (decide_path p a rs) = a" "reason_codes (decide_path p a rs) = rs"
  by (simp_all add: decide_path_def)

lemma decide_path_inject [simp]:
  "decide_path p a rs = decide_path p' a' rs' \<longleftrightarrow> p = p' \<and> a = a' \<and> rs = rs'"
  by (simp add: decide_path_def)

lemma require_envelope_shape_class:
  "require_envelope_shape env = Inl e \<Longrightarrow> e = malformed"
  by (auto simp: require_envelope_shape_def require_field_def require_text_def unless_Inl rbind_Inl
      dest!: check_each_Inl)

lemma classify_class: "classify env p = Inl e \<Longrightarrow> exn_class e = ContractValidationError"
  by (auto simp: classify_def rbind_Inl unless_Inl Let_def malformed_def
      dest!: require_envelope_shape_class)

lemma require_audit_shape_class:
  "require_audit_shape env = Inl e \<Longrightarrow> exn_class e \<in> {ContractValidationError, AttributeError}"
  by (auto simp: require_audit_shape_def require_field_def require_text_def malformed_def
      unless_Inl rbind_Inl dest!: check_each_Inl)

text \<open>Nothing that classification raises escapes \<open>enforce\<close>.\<close>

lemma enforce_total: "\<exists>d t. enforce append_audit env p now s = (Inr d, t)"
proof (cases "rbind (require_audit_shape env) (\<lambda>_. classify env p)")
  case (Inl e)
  then have "caught_by_enforce e"
    using require_audit_shape_class [of env e] classify_class [of env p e]
    by (auto simp: rbind_Inl caught_by_enforce_def)
  with Inl show ?thesis by (simp add: enforce_def)
next
  case (Inr d)
  then show ?thesis by (simp add: enforce_def split: prod.splits sum.splits)
qed

lemma classify_allowed:
  assumes "classify env p = Inr d"
  shows "allowed d \<longleftrightarrow>
    operation_of env \<in> set read_only_operations \<or> (p = PBool True \<and> \<not> is_tainted env)"
  using assms
  by (auto simp: classify_def Let_def operation_of_def is_tainted_def split: if_splits)

lemma slow_reasons_empty:
  "slow_reasons env = [] \<longleftrightarrow>
     \<not> is_tainted env \<and> fld (fld env ''source'') ''protocol'' = PStr ''internal'' \<and>
     str_of (fld (fld env ''destination'') ''port'') \<notin> set slow_ports \<and>
     operation_of env \<in> set read_only_operations \<and>
     str_of (fld (fld env ''security'') ''sensitivity'') \<notin> {''confidential'', ''restricted''}"
  by (auto simp: slow_reasons_def Let_def operation_of_def is_tainted_def
      read_only_operations_def privilege_prefixes_def)

lemma classify_fast:
  assumes "classify env p = Inr d"
  shows "path d = FAST \<longleftrightarrow> p = PBool True \<and> slow_reasons env = []"
  using assms
  by (auto simp: classify_def Let_def slow_reasons_empty operation_of_def is_tainted_def split: if_splits)

section \<open>The audit sink\<close>

text \<open>
  What enforcement relies on: an accepted event becomes the newest row, one that records it; a
  refused event leaves the log alone.
\<close>

locale audit_sink =
  fixes append_audit :: "audit_entry \<Rightarrow> ('s, unit) eff"
    and audit_log :: "'s \<Rightarrow> 'row list"
    and records :: "'row \<Rightarrow> audit_entry \<Rightarrow> bool"
  assumes append_ok:
      "append_audit e s = (Inr u, t) \<Longrightarrow> \<exists>row. audit_log t = audit_log s @ [row] \<and> records row e"
    and append_refused: "append_audit e s = (Inl x, t) \<Longrightarrow> audit_log t = audit_log s"
begin

text \<open>An allowed outcome is in the log, with the reasons of the classification.\<close>

lemma allowed_is_audited:
  assumes "enforce append_audit env p now s = (Inr d, t)" "allowed d"
  shows "classify env p = Inr d \<and>
    (\<exists>row. audit_log t = audit_log s @ [row] \<and> records row (gateway_audit_entry env d now))"
  using assms
  by (auto simp: enforce_def rbind_def dest: append_ok split: sum.splits prod.splits if_splits)

text \<open>At most one row is written, and only for the request at hand.\<close>

lemma at_most_one_row:
  assumes "enforce append_audit env p now s = (Inr d, t)"
  shows "audit_log t = audit_log s \<or>
    (\<exists>c row. classify env p = Inr c \<and> audit_log t = audit_log s @ [row] \<and>
       records row (gateway_audit_entry env c now))"
  using assms
  by (auto simp: enforce_def rbind_def dest: append_ok append_refused
      split: sum.splits prod.splits if_splits)

lemma refused_sink_denies:
  assumes "enforce append_audit env p now s = (Inr d, t)" "audit_log t = audit_log s"
  shows "\<not> allowed d"
  using assms
  by (auto simp: enforce_def rbind_def dest: append_ok append_refused
      split: sum.splits prod.splits if_splits)

end

end
