(* ===== verification/Runtime_Store.thy ===== *)
theory Runtime_Store
  imports State_Machine Gateway Canonical_Json
begin

text \<open>
  \<^verbatim>\<open>src/app_contracts/runtime_store.py\<close>: the SQLite process store. The tables are lists of rows in
  insertion order; a transaction that raises leaves them as they were, and a violated PRIMARY
  KEY or UNIQUE constraint is IntegrityError. \<open>sys\<close> is what \<^verbatim>\<open>datetime.now(timezone.utc)\<close>
  returns. The update of \<^verbatim>\<open>advance\<close> is a definition of its own (\<open>advance_commit\<close>), because
  another connection may write between the read and the update.
\<close>

section \<open>The tables\<close>

record process_row =
  row_state :: string
  row_version :: int
  row_updated :: string

record process_event =
  ev_id :: int
  ev_process :: string
  ev_sequence :: int
  ev_previous :: "string option"
  ev_state :: string
  ev_evidence :: string
  ev_time :: string

record audit_row =
  au_id :: int
  au_process :: string
  au_actor :: string
  au_type :: string
  au_input_digest :: string
  au_result :: string
  au_reasons :: string
  au_time :: string

record store =
  processes :: "(string \<times> process_row) list"
  process_events :: "process_event list"
  audit_rows :: "audit_row list"
  next_event_id :: int
  next_audit_id :: int

definition empty_store :: store where
  "empty_store = \<lparr>processes = [], process_events = [], audit_rows = [],
     next_event_id = 1, next_audit_id = 1\<rparr>"

record process_record =
  rec_id :: string
  rec_state :: process_state
  rec_version :: int
  rec_updated :: string

definition bad_process_id :: exn where
  "bad_process_id = Exn ContractValidationError ''runtime: process ID is invalid''"

text \<open>\<^verbatim>\<open>_timestamp\<close>.\<close>

definition timestamp :: "pydatetime \<Rightarrow> now_arg \<Rightarrow> string res" where
  "timestamp sys v =
     (case v of
        NowNone \<Rightarrow> rbind (astimezone_utc sys) (\<lambda>u. Inr (format_utc u))
      | NowOther \<Rightarrow> raise ContractValidationError ''runtime: timestamp must be timezone-aware''
      | NowAt t \<Rightarrow>
          unless (\<not> is_aware t)
            (Exn ContractValidationError ''runtime: timestamp must be timezone-aware'')
            (rbind (astimezone_utc t) (\<lambda>u. Inr (format_utc u))))"

text \<open>One row of \<^verbatim>\<open>process_events\<close>; the pair of process and sequence is unique.\<close>

definition insert_event ::
  "string \<Rightarrow> int \<Rightarrow> string option \<Rightarrow> string \<Rightarrow> string \<Rightarrow> string \<Rightarrow> (store, unit) eff" where
  "insert_event pid seq prev st ev tm = (\<lambda>s.
     if list_ex (\<lambda>e. ev_process e = pid \<and> ev_sequence e = seq) (process_events s)
     then (raise IntegrityError ''UNIQUE constraint failed'', s)
     else (Inr (), s\<lparr>process_events := process_events s @
         [\<lparr>ev_id = next_event_id s, ev_process = pid, ev_sequence = seq, ev_previous = prev,
           ev_state = st, ev_evidence = ev, ev_time = tm\<rparr>],
         next_event_id := next_event_id s + 1\<rparr>))"

definition insert_process :: "string \<Rightarrow> string \<Rightarrow> string \<Rightarrow> (store, unit) eff" where
  "insert_process pid st tm = (\<lambda>s.
     if map_of (processes s) pid \<noteq> None then (raise IntegrityError ''UNIQUE constraint failed'', s)
     else (Inr (), s\<lparr>processes := processes s @
         [(pid, \<lparr>row_state = st, row_version = 0, row_updated = tm\<rparr>)]\<rparr>))"

text \<open>\<^verbatim>\<open>with self._connection\<close>: commit on success, roll back on an exception.\<close>

definition transaction :: "('s, 'a) eff \<Rightarrow> ('s, 'a) eff" where
  "transaction m = (\<lambda>s. case m s of (Inl e, _) \<Rightarrow> (Inl e, s) | (Inr x, t) \<Rightarrow> (Inr x, t))"

section \<open>Operations\<close>

definition get_process :: "pyval \<Rightarrow> store \<Rightarrow> process_record res" where
  "get_process pid s =
     unless (\<not> nonempty_str pid) bad_process_id
     (case map_of (processes s) (str_of pid) of
        None \<Rightarrow> raise ProcessNotFound ''process not found''
      | Some r \<Rightarrow>
          (case state_of_value (row_state r) of
             None \<Rightarrow> raise ProcessStoreError ''runtime: stored state is corrupt''
           | Some st \<Rightarrow> Inr \<lparr>rec_id = str_of pid, rec_state = st, rec_version = row_version r,
                             rec_updated = row_updated r\<rparr>))"

definition create_process :: "pydatetime \<Rightarrow> pyval \<Rightarrow> now_arg \<Rightarrow> (store, process_record) eff" where
  "create_process sys pid now =
     eunless (\<not> nonempty_str pid) bad_process_id
     (ebind (elift (timestamp sys now)) (\<lambda>tm.
      ebind (ecatch
         (transaction
           (ebind (insert_process (str_of pid) (state_value RECEIVED) tm) (\<lambda>_.
            insert_event (str_of pid) 0 None (state_value RECEIVED) ''{}'' tm)))
         (\<lambda>e. if exn_class e = IntegrityError
              then elift (raise ProcessStoreError ''process already exists'') else elift (Inl e)))
      (\<lambda>_. (\<lambda>s. (get_process pid s, s)))))"

definition evidence_json :: "transition_evidence \<Rightarrow> string res" where
  "evidence_json e = json_enc (PDict
     [(''contract_complete'', contract_complete e), (''policy_allowed'', policy_allowed e),
      (''artifact_digest'', artifact_digest e), (''verification_passed'', verification_passed e),
      (''staged_digest'', staged_digest e), (''approval_valid'', approval_valid e),
      (''receipt_present'', receipt_present e), (''postcondition_verified'', postcondition_verified e)])"

text \<open>The part of \<^verbatim>\<open>advance\<close> before the transaction: read, check the version, the transition.\<close>

definition advance_read ::
  "pydatetime \<Rightarrow> pyval \<Rightarrow> process_state option \<Rightarrow> transition_evidence option \<Rightarrow> pyval \<Rightarrow> now_arg \<Rightarrow>
   store \<Rightarrow> (process_record \<times> process_state \<times> string \<times> string) res" where
  "advance_read sys pid target evidence expected now s =
     rbind (get_process pid s) (\<lambda>cur.
     unless (\<not> is_int expected \<or> int_of expected < 0) (Exn VersionConflict ''expected version is invalid'')
    (unless (rec_version cur \<noteq> int_of expected) (Exn VersionConflict ''version conflict'')
    (rbind (transition (Some (rec_state cur)) target evidence) (\<lambda>next.
     rbind (timestamp sys now) (\<lambda>tm.
     rbind (evidence_json (case evidence of None \<Rightarrow> no_evidence | Some e \<Rightarrow> e)) (\<lambda>ev.
     Inr (cur, next, tm, ev)))))))"

text \<open>\<^verbatim>\<open>UPDATE processes ... WHERE process_id = ? AND version = ?\<close> and its row count.\<close>

definition update_process :: "string \<Rightarrow> int \<Rightarrow> process_row \<Rightarrow> (store, nat) eff" where
  "update_process pid expected row = (\<lambda>s.
     (Inr (length (filter (\<lambda>(k, r). k = pid \<and> row_version r = expected) (processes s))),
      s\<lparr>processes := map (\<lambda>(k, r). (k, if k = pid \<and> row_version r = expected then row else r))
           (processes s)\<rparr>))"

definition advance_commit ::
  "string \<Rightarrow> int \<Rightarrow> process_record \<Rightarrow> process_state \<Rightarrow> string \<Rightarrow> string \<Rightarrow> (store, unit) eff" where
  "advance_commit pid expected cur next tm ev =
     transaction
       (ebind (update_process pid expected
          \<lparr>row_state = state_value next, row_version = rec_version cur + 1, row_updated = tm\<rparr>) (\<lambda>n.
        eunless (n \<noteq> 1) (Exn VersionConflict ''concurrent update'')
        (insert_event pid (rec_version cur + 1) (Some (state_value (rec_state cur)))
           (state_value next) ev tm)))"

definition advance ::
  "pydatetime \<Rightarrow> pyval \<Rightarrow> process_state option \<Rightarrow> transition_evidence option \<Rightarrow> pyval \<Rightarrow> now_arg \<Rightarrow>
   (store, process_record) eff" where
  "advance sys pid target evidence expected now s =
     (case advance_read sys pid target evidence expected now s of
        Inl e \<Rightarrow> (Inl e, s)
      | Inr (cur, next, tm, ev) \<Rightarrow>
          ebind (advance_commit (str_of pid) (int_of expected) cur next tm ev)
            (\<lambda>_ t. (get_process pid t, t)) s)"

text \<open>\<^verbatim>\<open>events\<close>: the rows of a process by sequence (their evidence as stored, undecoded).\<close>

definition events_of :: "string \<Rightarrow> store \<Rightarrow> process_event list" where
  "events_of pid s = filter (\<lambda>e. ev_process e = pid) (process_events s)"

definition events :: "pyval \<Rightarrow> store \<Rightarrow> process_event list res" where
  "events pid s = rbind (get_process pid s) (\<lambda>_. Inr (sort_key ev_sequence (events_of (str_of pid) s)))"

section \<open>Audit events\<close>

text \<open>\<^verbatim>\<open>json.dumps\<close> of a string with \<^verbatim>\<open>ensure_ascii=True\<close>.\<close>

definition hex4 :: "nat \<Rightarrow> string" where
  "hex4 n = [CHR 0x5C, CHR ''u''] @ hex_digits 4 (int n)"

definition ascii_json_char :: "nat \<Rightarrow> string" where
  "ascii_json_char n =
     (if 32 \<le> n \<and> n < 127 \<or> n \<in> {8, 9, 10, 12, 13} then json_char (char_of n)
      else if n < 65536 then hex4 n
      else hex4 (55296 + (n - 65536) div 1024) @ hex4 (56320 + (n - 65536) mod 1024))"

definition ascii_json_str :: "string \<Rightarrow> string" where
  "ascii_json_str s = CHR 0x22 # concat (map ascii_json_char (code_points s)) @ [CHR 0x22]"

definition reasons_json :: "pyval \<Rightarrow> string" where
  "reasons_json v =
     (case v of PList cs \<Rightarrow> wrap_list (map (\<lambda>c. ascii_json_str (str_of c)) cs)
      | PTuple cs \<Rightarrow> wrap_list (map (\<lambda>c. ascii_json_str (str_of c)) cs)
      | _ \<Rightarrow> [])"

text \<open>\<^verbatim>\<open>_validate_reason_codes\<close>.\<close>

definition reason_code_ok :: "pyval \<Rightarrow> bool" where
  "reason_code_ok c \<longleftrightarrow> nonempty_str c \<and> py_len (str_of c) \<le> 128"

definition validate_reason_codes :: "pyval \<Rightarrow> unit res" where
  "validate_reason_codes v =
     (case v of
        PList cs \<Rightarrow> unless (cs = [] \<or> \<not> list_all reason_code_ok cs)
          (Exn ContractValidationError ''audit: reason code is invalid'') (Inr ())
      | PTuple cs \<Rightarrow> unless (cs = [] \<or> \<not> list_all reason_code_ok cs)
          (Exn ContractValidationError ''audit: reason code is invalid'') (Inr ())
      | _ \<Rightarrow> raise ContractValidationError ''audit: reason code is invalid'')"

definition append_audit_event ::
  "pydatetime \<Rightarrow> pyval \<Rightarrow> pyval \<Rightarrow> pyval \<Rightarrow> pyval \<Rightarrow> pyval \<Rightarrow> pyval \<Rightarrow> now_arg \<Rightarrow> (store, unit) eff" where
  "append_audit_event sys pid actor typ digest result reasons now s =
     (case rbind (validate_reason_codes reasons) (\<lambda>_.
           rbind (check_each (\<lambda>v. unless (\<not> nonempty_str v)
               (Exn ContractValidationError ''audit: event field is invalid'') (Inr ()))
             [actor, typ, digest, result]) (\<lambda>_.
           rbind (get_process pid s) (\<lambda>_. timestamp sys now))) of
        Inl e \<Rightarrow> (Inl e, s)
      | Inr tm \<Rightarrow>
          (Inr (), s\<lparr>audit_rows := audit_rows s @
             [\<lparr>au_id = next_audit_id s, au_process = str_of pid, au_actor = str_of actor,
               au_type = str_of typ, au_input_digest = str_of digest, au_result = str_of result,
               au_reasons = reasons_json reasons, au_time = tm\<rparr>],
             next_audit_id := next_audit_id s + 1\<rparr>))"

definition audit_events_of :: "pyval \<Rightarrow> store \<Rightarrow> audit_row list res" where
  "audit_events_of pid s =
     rbind (get_process pid s) (\<lambda>_.
       Inr (sort_key au_id (filter (\<lambda>r. au_process r = str_of pid) (audit_rows s))))"

section \<open>The store invariant: the events of a process replay to its row\<close>

text \<open>\<open>legal_event a b\<close>: event \<open>b\<close> continues event \<open>a\<close> by a transition the workflow allows, on the
  evidence it records.\<close>

definition legal_event :: "process_event \<Rightarrow> process_event \<Rightarrow> bool" where
  "legal_event a b \<longleftrightarrow> ev_previous b = Some (ev_state a) \<and> ev_sequence b = ev_sequence a + 1 \<and>
     (\<exists>s t e. ev_state a = state_value s \<and> ev_state b = state_value t \<and>
        transition (Some s) (Some t) (Some e) = Inr t \<and> evidence_json e = Inr (ev_evidence b))"

definition trail_ok :: "process_event list \<Rightarrow> process_row \<Rightarrow> bool" where
  "trail_ok es r \<longleftrightarrow> es \<noteq> [] \<and> ev_sequence (hd es) = 0 \<and> ev_previous (hd es) = None \<and>
     ev_state (hd es) = state_value RECEIVED \<and> successively legal_event es \<and>
     ev_state (last es) = row_state r \<and> ev_sequence (last es) = row_version r"

definition store_ok :: "store \<Rightarrow> bool" where
  "store_ok s \<longleftrightarrow> distinct (map fst (processes s)) \<and>
     (\<forall>pid r. map_of (processes s) pid = Some r \<longrightarrow> trail_ok (events_of pid s) r) \<and>
     (\<forall>e\<in>set (process_events s). map_of (processes s) (ev_process e) \<noteq> None)"

lemma store_ok_empty: "store_ok empty_store"
  by (simp add: store_ok_def empty_store_def)

lemma legal_trail_bound:
  "successively legal_event es \<Longrightarrow> e \<in> set es \<Longrightarrow> ev_sequence e \<le> ev_sequence (last es)"
proof (induction es rule: rev_induct)
  case Nil
  then show ?case by simp
next
  case (snoc x es)
  show ?case
  proof (cases "es = []")
    case True
    with snoc.prems show ?thesis by simp
  next
    case False
    then have "legal_event (last es) x"
      using snoc.prems(1) by (simp add: successively_append_iff)
    then show ?thesis
      using snoc False by (auto simp: successively_append_iff legal_event_def)
  qed
qed

lemma transaction_Inr [simp]: "transaction m s = (Inr x, t) \<longleftrightarrow> m s = (Inr x, t)"
  by (auto simp: transaction_def split: prod.splits sum.splits)

lemma transaction_Inl: "transaction m s = (Inl e, t) \<longleftrightarrow> t = s \<and> (\<exists>u. m s = (Inl e, u))"
  by (auto simp: transaction_def split: prod.splits sum.splits)

lemma insert_event_Inr:
  "insert_event pid seq prev st ev tm s = (Inr u, t) \<longleftrightarrow>
     (\<forall>e\<in>set (process_events s). \<not> (ev_process e = pid \<and> ev_sequence e = seq)) \<and>
     t = s\<lparr>process_events := process_events s @
         [\<lparr>ev_id = next_event_id s, ev_process = pid, ev_sequence = seq, ev_previous = prev,
           ev_state = st, ev_evidence = ev, ev_time = tm\<rparr>],
         next_event_id := next_event_id s + 1\<rparr>"
  by (auto simp: insert_event_def list_ex_iff)

lemma insert_process_Inr:
  "insert_process pid st tm s = (Inr u, t) \<longleftrightarrow> map_of (processes s) pid = None \<and>
     t = s\<lparr>processes := processes s @ [(pid, \<lparr>row_state = st, row_version = 0, row_updated = tm\<rparr>)]\<rparr>"
  by (auto simp: insert_process_def)

lemma get_process_Inr:
  "get_process pid s = Inr r \<longleftrightarrow> (\<exists>p row. pid = PStr p \<and> p \<noteq> [] \<and> map_of (processes s) p = Some row \<and>
     state_of_value (row_state row) = Some (rec_state r) \<and> rec_id r = p \<and>
     rec_version r = row_version row \<and> rec_updated r = row_updated row)"
  by (cases pid) (auto simp: get_process_def split: option.splits)

subsection \<open>Creating a process\<close>

lemma create_process_store:
  assumes "create_process sys pid now s = (Inr r, t)"
  obtains p tm where "pid = PStr p" "p \<noteq> []" "map_of (processes s) p = None"
    "timestamp sys now = Inr tm" "t = s\<lparr>
      processes := processes s @ [(p, \<lparr>row_state = state_value RECEIVED, row_version = 0, row_updated = tm\<rparr>)],
      process_events := process_events s @
         [\<lparr>ev_id = next_event_id s, ev_process = p, ev_sequence = 0, ev_previous = None,
           ev_state = state_value RECEIVED, ev_evidence = ''{}'', ev_time = tm\<rparr>],
      next_event_id := next_event_id s + 1\<rparr>" "get_process pid t = Inr r"
proof -
  from assms obtain tm u where pid: "nonempty_str pid" and tm: "timestamp sys now = Inr tm"
    and u: "ecatch (transaction
           (ebind (insert_process (str_of pid) (state_value RECEIVED) tm) (\<lambda>_.
            insert_event (str_of pid) 0 None (state_value RECEIVED) ''{}'' tm)))
         (\<lambda>e. if exn_class e = IntegrityError
              then elift (raise ProcessStoreError ''process already exists'') else elift (Inl e)) s
        = (Inr (), u)" and r: "get_process pid u = Inr r" "t = u"
    by (auto simp: create_process_def split: sum.splits)
  from u have "transaction
           (ebind (insert_process (str_of pid) (state_value RECEIVED) tm) (\<lambda>_.
            insert_event (str_of pid) 0 None (state_value RECEIVED) ''{}'' tm)) s = (Inr (), u)"
    by (auto simp: ecatch_def split: prod.splits sum.splits if_splits)
  then show thesis
    using that [of "str_of pid" tm] pid tm r
    by (auto simp: nonempty_str_iff insert_process_Inr insert_event_Inr)
qed

lemma events_of_append [simp]:
  "events_of pid (s\<lparr>processes := ps, process_events := process_events s @ [e], next_event_id := n\<rparr>) =
     events_of pid s @ (if ev_process e = pid then [e] else [])"
  by (simp add: events_of_def)

lemma create_process_store_ok:
  assumes ok: "store_ok s" and c: "create_process sys pid now s = (Inr r, t)"
  shows "store_ok t"
proof -
  from c obtain p tm where p: "map_of (processes s) p = None" and t: "t = s\<lparr>
      processes := processes s @ [(p, \<lparr>row_state = state_value RECEIVED, row_version = 0, row_updated = tm\<rparr>)],
      process_events := process_events s @
         [\<lparr>ev_id = next_event_id s, ev_process = p, ev_sequence = 0, ev_previous = None,
           ev_state = state_value RECEIVED, ev_evidence = ''{}'', ev_time = tm\<rparr>],
      next_event_id := next_event_id s + 1\<rparr>"
    by (rule create_process_store) blast
  have none: "events_of p s = []"
    using ok p by (auto simp: store_ok_def events_of_def filter_empty_conv)
  have "p \<notin> fst ` set (processes s)" using p by (simp add: map_of_eq_None_iff)
  with ok p none show ?thesis
    unfolding store_ok_def t
    by (auto simp: trail_ok_def map_add_def split: option.splits if_splits)
qed

subsection \<open>Advancing a process\<close>

lemma evidence_json_ok:
  assumes "list_all is_bool (evidence_flags e)"
  shows "is_ok (evidence_json e)"
proof -
  have "encodable v" if "is_bool v" for v using that by (cases v) auto
  then have "encodable (PDict
     [(''contract_complete'', contract_complete e), (''policy_allowed'', policy_allowed e),
      (''artifact_digest'', artifact_digest e), (''verification_passed'', verification_passed e),
      (''staged_digest'', staged_digest e), (''approval_valid'', approval_valid e),
      (''receipt_present'', receipt_present e), (''postcondition_verified'', postcondition_verified e)])"
    using assms by (simp add: no_surrogate_ascii evidence_flags_def)
  then show ?thesis
    unfolding evidence_json_def by (simp only: json_enc_ok)
qed

lemma advance_read_Inr:
  assumes "advance_read sys pid target evidence expected now s = Inr (cur, next, tm, ev)"
  obtains p row e where "pid = PStr p" "expected = PInt (row_version row)"
    "map_of (processes s) p = Some row" "row_state row = state_value (rec_state cur)"
    "rec_version cur = row_version row" "evidence = Some e" "target = Some next"
    "transition (Some (rec_state cur)) (Some next) (Some e) = Inr next"
    "evidence_json e = Inr ev" "timestamp sys now = Inr tm" "0 \<le> row_version row"
  using assms
  by (auto simp: advance_read_def get_process_Inr transition_Inr is_int_iff dest!: state_of_value_Some)

lemma update_count:
  "distinct (map fst ps) \<Longrightarrow> length (filter (\<lambda>(k, r). k = pid \<and> row_version r = v) ps) =
     (case map_of ps pid of Some r \<Rightarrow> if row_version r = v then 1 else 0 | None \<Rightarrow> 0)"
proof (induction ps)
  case Nil
  then show ?case by simp
next
  case (Cons x ps)
  obtain k r where x: "x = (k, r)" by (cases x)
  have "k = pid \<Longrightarrow> filter (\<lambda>(k, r). k = pid \<and> row_version r = v) ps = []"
    using Cons.prems x by (force simp: filter_empty_conv)
  with Cons x show ?case by auto
qed

lemma map_of_map_values:
  "map_of (map (\<lambda>(k, r). (k, f k r)) ps) q = map_option (f q) (map_of ps q)"
  by (induction ps) auto

lemma map_of_update:
  "map_of (map (\<lambda>(k, r). (k, if k = pid \<and> row_version r = v then row else r)) ps) q =
     (case map_of ps q of None \<Rightarrow> None
      | Some r \<Rightarrow> Some (if q = pid \<and> row_version r = v then row else r))"
  by (simp only: map_of_map_values) (simp split: option.split)

lemma map_fst_update:
  "map fst (map (\<lambda>(k, r). (k, if k = pid \<and> row_version r = v then row else r)) ps) = map fst ps"
  by (induction ps) auto

lemma advance_commit_Inr:
  assumes "advance_commit pid v cur next tm ev s = (Inr u, t)" "distinct (map fst (processes s))"
  obtains row where "map_of (processes s) pid = Some row" "row_version row = v"
    "t = s\<lparr>processes := map (\<lambda>(k, r). (k, if k = pid \<and> row_version r = v then
          \<lparr>row_state = state_value next, row_version = rec_version cur + 1, row_updated = tm\<rparr> else r))
        (processes s),
      process_events := process_events s @
         [\<lparr>ev_id = next_event_id s, ev_process = pid, ev_sequence = rec_version cur + 1,
           ev_previous = Some (state_value (rec_state cur)), ev_state = state_value next,
           ev_evidence = ev, ev_time = tm\<rparr>],
      next_event_id := next_event_id s + 1\<rparr>"
  using assms
  by (auto simp: advance_commit_def update_process_def insert_event_Inr update_count
      split: option.splits if_splits)

lemma advance_commit_Inl:
  "advance_commit pid v cur next tm ev s = (Inl e, t) \<Longrightarrow> t = s"
  by (auto simp: advance_commit_def transaction_Inl)

text \<open>A stale version never writes.\<close>

lemma advance_commit_stale:
  assumes "distinct (map fst (processes s))" "map_of (processes s) pid = Some row" "row_version row \<noteq> v"
  shows "advance_commit pid v cur next tm ev s = (Inl (Exn VersionConflict ''concurrent update''), s)"
  using assms
  by (simp add: advance_commit_def transaction_def ebind_def update_process_def update_count)

lemma advance_commit_store_ok:
  assumes ok: "store_ok s" and c: "advance_commit pid v cur next tm ev s = (Inr u, t)"
    and cur: "rec_version cur = v" "\<And>row. map_of (processes s) pid = Some row \<Longrightarrow> row_version row = v \<Longrightarrow>
        row_state row = state_value (rec_state cur)"
    and tr: "transition (Some (rec_state cur)) (Some next) (Some e) = Inr next" "evidence_json e = Inr ev"
  shows "store_ok t"
proof -
  have d: "distinct (map fst (processes s))" using ok by (simp add: store_ok_def)
  let ?row = "\<lparr>row_state = state_value next, row_version = rec_version cur + 1, row_updated = tm\<rparr>"
  let ?ps = "map (\<lambda>(k, r). (k, if k = pid \<and> row_version r = v then ?row else r)) (processes s)"
  let ?e = "\<lparr>ev_id = next_event_id s, ev_process = pid, ev_sequence = rec_version cur + 1,
      ev_previous = Some (state_value (rec_state cur)), ev_state = state_value next,
      ev_evidence = ev, ev_time = tm\<rparr>"
  from c d obtain row where row: "map_of (processes s) pid = Some row" "row_version row = v"
    and t: "t = s\<lparr>processes := ?ps, process_events := process_events s @ [?e],
        next_event_id := next_event_id s + 1\<rparr>"
    by (rule advance_commit_Inr)
  have trail: "trail_ok (events_of pid s) row" using ok row by (auto simp: store_ok_def)
  then have "legal_event (last (events_of pid s)) ?e"
    unfolding legal_event_def trail_ok_def using cur row tr by auto
  with trail have new: "trail_ok (events_of pid s @ [?e]) ?row"
    by (auto simp: trail_ok_def successively_append_iff)
  have "trail_ok (events_of q t) r" if "map_of (processes t) q = Some r" for q r
  proof (cases "q = pid")
    case True
    with that row new show ?thesis
      by (simp add: t map_of_update)
  next
    case False
    with that ok show ?thesis
      by (auto simp: t map_of_update store_ok_def split: option.splits)
  qed
  moreover have "map_of (processes t) (ev_process e) \<noteq> None" if "e \<in> set (process_events t)" for e
    using that ok row by (auto simp: t map_of_update store_ok_def split: option.splits)
  moreover have "distinct (map fst (processes t))" using d map_fst_update [of pid v ?row "processes s"] by (simp add: t del: map_map)
  ultimately show ?thesis by (auto simp: store_ok_def)
qed

lemma advance_store_ok:
  assumes ok: "store_ok s" and a: "advance sys pid target evidence expected now s = (r, t)"
  shows "store_ok t"
proof (cases "advance_read sys pid target evidence expected now s")
  case (Inl e)
  with a ok show ?thesis by (simp add: advance_def)
next
  case (Inr x)
  obtain cur nxt tm ev where x: "x = (cur, nxt, tm, ev)" by (cases x) auto
  from Inr x have read: "advance_read sys pid target evidence expected now s = Inr (cur, nxt, tm, ev)"
    by simp
  show ?thesis
  proof (cases "advance_commit (str_of pid) (int_of expected) cur nxt tm ev s")
    case (Pair res u)
    then show ?thesis
    proof (cases res)
      case (Inl e)
      with a read Pair have "t = u" by (auto simp: advance_def ebind_def)
      with ok advance_commit_Inl Pair Inl show ?thesis by blast
    next
      case (Inr z)
      with a read Pair have "t = u" by (auto simp: advance_def ebind_def)
      moreover have "store_ok u"
        using read Pair Inr ok
        by (auto elim!: advance_read_Inr intro: advance_commit_store_ok [where e = "the evidence"])
      ultimately show ?thesis by simp
    qed
  qed
qed

lemma advance_success:
  assumes ok: "store_ok s" and a: "advance sys pid target evidence expected now s = (Inr r, t)"
  obtains p row e ev where "pid = PStr p" "map_of (processes s) p = Some row" "evidence = Some e"
    "expected = PInt (row_version row)" "target = Some (rec_state r)" "rec_id r = p"
    "rec_version r = row_version row + 1"
    "process_events t = process_events s @ [ev]" "ev_process ev = p"
    "legal_event (last (events_of p s)) ev" "ev_state ev = state_value (rec_state r)"
    "audit_rows t = audit_rows s"
proof -
  have d: "distinct (map fst (processes s))" using ok by (simp add: store_ok_def)
  from a obtain cur nxt tm ev u where
    read: "advance_read sys pid target evidence expected now s = Inr (cur, nxt, tm, ev)"
    and c: "advance_commit (str_of pid) (int_of expected) cur nxt tm ev s = (Inr u, t)"
    and g: "get_process pid t = Inr r"
    by (auto simp: advance_def split: sum.splits prod.splits)
  from read obtain p row e where p: "pid = PStr p" "expected = PInt (row_version row)"
    "map_of (processes s) p = Some row" "row_state row = state_value (rec_state cur)"
    "rec_version cur = row_version row" "evidence = Some e" "target = Some nxt"
    and tr: "transition (Some (rec_state cur)) (Some nxt) (Some e) = Inr nxt"
    "evidence_json e = Inr ev"
    by (rule advance_read_Inr)
  let ?e = "\<lparr>ev_id = next_event_id s, ev_process = p, ev_sequence = rec_version cur + 1,
      ev_previous = Some (state_value (rec_state cur)), ev_state = state_value nxt,
      ev_evidence = ev, ev_time = tm\<rparr>"
  let ?row = "\<lparr>row_state = state_value nxt, row_version = rec_version cur + 1, row_updated = tm\<rparr>"
  from c d p have t: "t = s\<lparr>processes := map (\<lambda>(k, r). (k, if k = p \<and> row_version r = row_version row
        then ?row else r)) (processes s), process_events := process_events s @ [?e],
      next_event_id := next_event_id s + 1\<rparr>"
    by (auto elim!: advance_commit_Inr)
  have trail: "trail_ok (events_of p s) row" using ok p by (auto simp: store_ok_def)
  then have "legal_event (last (events_of p s)) ?e"
    unfolding legal_event_def trail_ok_def using p tr by auto
  moreover have "rec_state r = nxt \<and> rec_id r = p \<and> rec_version r = row_version row + 1"
    using g p by (auto simp: get_process_Inr t map_of_update)
  ultimately show thesis
    using that [of p row e ?e] p by (simp add: t)
qed

lemma advance_failure:
  assumes ok: "store_ok s" and a: "advance sys pid target evidence expected now s = (Inl x, t)"
  shows "t = s"
proof (cases "advance_read sys pid target evidence expected now s")
  case (Inl e)
  with a show ?thesis by (simp add: advance_def)
next
  case (Inr y)
  obtain cur nxt tm ev where read: "advance_read sys pid target evidence expected now s = Inr (cur, nxt, tm, ev)"
    using Inr by (cases y) auto
  then obtain p row where p: "pid = PStr p" "map_of (processes s) p = Some row" "p \<noteq> []"
      "expected = PInt (row_version row)"
    by (auto simp: advance_read_def get_process_Inr is_int_iff)
  have d: "distinct (map fst (processes s))" using ok by (simp add: store_ok_def)
  have get: "\<exists>r. get_process pid u = Inr r" if "advance_commit p (row_version row) cur nxt tm ev s = (Inr z, u)" for z u
    using that d p by (elim advance_commit_Inr) (auto simp: get_process_def map_of_update)
  show ?thesis
    using a read p get advance_commit_Inl
    by (fastforce simp: advance_def ebind_def split: sum.splits prod.splits)
qed

subsection \<open>Histories are workflow runs\<close>

text \<open>\<open>event_records b x\<close>: the stored event \<open>b\<close> records the workflow step \<open>x\<close> and its evidence.\<close>

definition event_records :: "process_event \<Rightarrow> process_state \<times> transition_evidence \<times> process_state \<Rightarrow> bool" where
  "event_records b = (\<lambda>(x, e, y). ev_state b = state_value y \<and> ev_previous b = Some (state_value x) \<and>
     evidence_json e = Inr (ev_evidence b))"

lemma trail_run:
  "successively legal_event es \<Longrightarrow> es \<noteq> [] \<Longrightarrow> ev_state (hd es) = state_value RECEIVED \<Longrightarrow>
     \<exists>log s. workflow_run log s \<and> ev_state (last es) = state_value s \<and>
        list_all2 event_records (rev (tl es)) log"
proof (induction es rule: rev_induct)
  case Nil
  then show ?case by simp
next
  case (snoc b es)
  show ?case
  proof (cases "es = []")
    case True
    with snoc.prems show ?thesis
      by (intro exI [of _ "[]"] exI [of _ RECEIVED]) (auto intro: workflow_run.start)
  next
    case False
    then have leg: "legal_event (last es) b" and prev: "successively legal_event es"
      using snoc.prems(1) by (simp_all add: successively_append_iff)
    with snoc False obtain log s where run: "workflow_run log s" "ev_state (last es) = state_value s"
      and all: "list_all2 event_records (rev (tl es)) log" by auto
    from leg run(2) obtain t e where "transition (Some s) (Some t) (Some e) = Inr t"
      "ev_state b = state_value t" "evidence_json e = Inr (ev_evidence b)" "ev_previous b = Some (state_value s)"
      by (auto simp: legal_event_def)
    then have "event_records b (s, e, t)" and "workflow_run ((s, e, t) # log) t"
      by (auto simp: event_records_def intro: workflow_run.extend [OF run(1)] workflow_step.step)
    with all False \<open>ev_state b = state_value t\<close> show ?thesis
      by (intro exI [of _ "(s, e, t) # log"] exI [of _ t]) simp
  qed
qed

lemma stored_process_run:
  assumes "store_ok s" "map_of (processes s) p = Some row"
  shows "\<exists>log st. workflow_run log st \<and> row_state row = state_value st \<and>
    list_all2 event_records (rev (tl (events_of p s))) log"
proof -
  have "trail_ok (events_of p s) row" using assms by (auto simp: store_ok_def)
  then show ?thesis using trail_run [of "events_of p s"] by (auto simp: trail_ok_def)
qed

section \<open>The store as an audit sink\<close>

definition store_sink :: "pydatetime \<Rightarrow> audit_entry \<Rightarrow> (store, unit) eff" where
  "store_sink sys e = append_audit_event sys (PStr (audit_process e)) (PStr (audit_actor e))
     (PStr (audit_type e)) (PStr (audit_input_digest e)) (PStr (audit_result e))
     (PTuple (map PStr (audit_reasons e))) (audit_time e)"

definition records_entry :: "audit_row \<Rightarrow> audit_entry \<Rightarrow> bool" where
  "records_entry r e \<longleftrightarrow> au_process r = audit_process e \<and> au_actor r = audit_actor e \<and>
     au_type r = audit_type e \<and> au_input_digest r = audit_input_digest e \<and>
     au_result r = audit_result e \<and> au_reasons r = reasons_json (PTuple (map PStr (audit_reasons e)))"

interpretation store_audit: audit_sink "store_sink sys" audit_rows records_entry for sys
  by unfold_locales
    (auto simp: store_sink_def append_audit_event_def records_entry_def split: sum.splits)

section \<open>Properties\<close>

text \<open>
  Claim C1: a process that the store shows as completed has, in its append-only events, a
  transition VERIFYING to STAGED recorded with \<open>verification_passed\<close> and a transition
  WAITING_APPROVAL to APPLYING recorded with \<open>approval_valid\<close>, and neither is followed by a
  return to EXECUTING: nothing is completed whose code changed after it was verified and approved.
\<close>

theorem completed_was_verified_and_approved:
  assumes "store_ok s" and "map_of (processes s) p = Some row" and "row_state row = ''completed''"
  shows "\<exists>log. list_all2 event_records (rev (tl (events_of p s))) log \<and> workflow_run log COMPLETED \<and>
    passed_since verified_step reexecutes log \<and> passed_since approved_step reexecutes log"
proof -
  obtain log st where run: "workflow_run log st" and st: "row_state row = state_value st"
    and all: "list_all2 event_records (rev (tl (events_of p s))) log"
    using stored_process_run [OF assms(1,2)] by blast
  have "state_value st = state_value COMPLETED" using st assms(3) by simp
  then have "st = COMPLETED" by (simp only: state_value_inject)
  with workflow_run_inv [OF run] run all show ?thesis by (auto simp: run_inv_def)
qed

definition full_evidence :: transition_evidence where
  "full_evidence = \<lparr>contract_complete = PBool True, policy_allowed = PBool True,
     artifact_digest = PBool True, verification_passed = PBool True, staged_digest = PBool True,
     approval_valid = PBool True, receipt_present = PBool True, postcondition_verified = PBool True\<rparr>"

definition evidence_text :: "transition_evidence \<Rightarrow> string" where
  "evidence_text e = (case evidence_json e of Inl _ \<Rightarrow> [] | Inr t \<Rightarrow> t)"

lemma full_evidence_json: "evidence_json full_evidence = Inr (evidence_text full_evidence)"
  using evidence_json_ok [of full_evidence]
  by (simp add: evidence_text_def is_ok_iff full_evidence_def evidence_flags_def) auto

definition sample_event :: "int \<Rightarrow> process_state \<Rightarrow> process_state \<Rightarrow> process_event" where
  "sample_event n a b = \<lparr>ev_id = n + 1, ev_process = ''p'', ev_sequence = n,
     ev_previous = Some (state_value a), ev_state = state_value b,
     ev_evidence = evidence_text full_evidence, ev_time = ''t''\<rparr>"

lemma full_evidence_transition:
  "b \<in> set (normal_targets a) \<Longrightarrow> transition (Some a) (Some b) (Some full_evidence) = Inr b"
  by (cases a) (auto simp: transition_def terminal_def required_evidence_def full_evidence_def evidence_flags_def)

lemma sample_event_sel [simp]:
  "ev_process (sample_event n a b) = ''p''" "ev_sequence (sample_event n a b) = n"
  "ev_state (sample_event n a b) = state_value b" "ev_previous (sample_event n a b) = Some (state_value a)"
  "ev_evidence (sample_event n a b) = evidence_text full_evidence"
  by (simp_all add: sample_event_def)

lemma sample_event_legal:
  assumes "ev_state x = state_value a" "ev_sequence x + 1 = n" "b \<in> set (normal_targets a)"
  shows "legal_event x (sample_event n a b)"
  unfolding legal_event_def using assms full_evidence_transition full_evidence_json
  by (intro conjI exI [of _ a] exI [of _ b] exI [of _ full_evidence]) simp_all

definition sample_store :: store where
  "sample_store = \<lparr>processes = [(''p'', \<lparr>row_state = ''completed'', row_version = 8, row_updated = ''t''\<rparr>)],
     process_events = [\<lparr>ev_id = 1, ev_process = ''p'', ev_sequence = 0, ev_previous = None,
         ev_state = ''received'', ev_evidence = ''{}'', ev_time = ''t''\<rparr>,
       sample_event 1 RECEIVED SPECIFIED, sample_event 2 SPECIFIED AUTHORIZED,
       sample_event 3 AUTHORIZED EXECUTING, sample_event 4 EXECUTING VERIFYING,
       sample_event 5 VERIFYING STAGED, sample_event 6 STAGED WAITING_APPROVAL,
       sample_event 7 WAITING_APPROVAL APPLYING, sample_event 8 APPLYING COMPLETED],
     audit_rows = [], next_event_id = 10, next_audit_id = 1\<rparr>"

lemma sample_store_ok: "store_ok sample_store"
proof -
  have "successively legal_event (process_events sample_store)"
    by (simp add: sample_store_def sample_event_legal)
  then show ?thesis
    by (simp add: store_ok_def sample_store_def trail_ok_def events_of_def)
qed

theorem completed_was_verified_and_approved_witness:
  "\<exists>log. list_all2 event_records (rev (tl (events_of ''p'' sample_store))) log \<and> workflow_run log COMPLETED \<and>
    passed_since verified_step reexecutes log \<and> passed_since approved_step reexecutes log"
  by (rule completed_was_verified_and_approved [OF sample_store_ok,
      where row = "\<lparr>row_state = ''completed'', row_version = 8, row_updated = ''t''\<rparr>"])
    (simp_all add: sample_store_def)

section \<open>Several connections\<close>

text \<open>
  Several workers on one database: each operation is atomic, except that \<^verbatim>\<open>advance\<close> reads first
  and commits later; what it has read waits in \<open>pending\<close> while others write.
\<close>

type_synonym pending = "string \<times> int \<times> process_record \<times> process_state \<times> string \<times> string"

inductive concurrent :: "store \<Rightarrow> pending list \<Rightarrow> bool" where
  open_empty: "concurrent empty_store []"
| create: "concurrent s ps \<Longrightarrow> create_process sys pid now s = (r, t) \<Longrightarrow> concurrent t ps"
| audit: "concurrent s ps \<Longrightarrow> append_audit_event sys pid actor typ d result rs now s = (a, t) \<Longrightarrow>
    concurrent t ps"
| read: "concurrent s ps \<Longrightarrow>
    advance_read sys pid target evidence expected now s = Inr (cur, nxt, tm, ev) \<Longrightarrow>
    concurrent s ((str_of pid, int_of expected, cur, nxt, tm, ev) # ps)"
| commit: "concurrent s ps \<Longrightarrow> (p, v, cur, nxt, tm, ev) \<in> set ps \<Longrightarrow>
    advance_commit p v cur nxt tm ev s = (c, t) \<Longrightarrow> concurrent t ps"

definition pending_ok :: "store \<Rightarrow> pending \<Rightarrow> bool" where
  "pending_ok s = (\<lambda>(p, v, cur, nxt, tm, ev). rec_version cur = v \<and>
     (\<exists>e\<in>set (events_of p s). ev_sequence e = v \<and> ev_state e = state_value (rec_state cur)) \<and>
     (\<exists>x. transition (Some (rec_state cur)) (Some nxt) (Some x) = Inr nxt \<and> evidence_json x = Inr ev))"

lemma trail_event_at_version:
  assumes "trail_ok es r" "e \<in> set es" "ev_sequence e = row_version r"
  shows "ev_state e = row_state r"
proof -
  obtain fs x where es: "es = fs @ [x]" using assms(1) by (cases es rule: rev_cases) (auto simp: trail_ok_def)
  have "ev_sequence e < ev_sequence x" if "e \<in> set fs"
    using assms(1) that legal_trail_bound [of fs e]
    by (auto simp: trail_ok_def es successively_append_iff legal_event_def)
  then show ?thesis using assms by (auto simp: trail_ok_def es)
qed

lemma pending_ok_extend:
  "pending_ok s x \<Longrightarrow> set (process_events s) \<subseteq> set (process_events t) \<Longrightarrow> pending_ok t x"
  by (fastforce simp: pending_ok_def events_of_def)

lemma create_process_Inl:
  assumes "create_process sys pid now s = (Inl e, t)"
  shows "t = s"
proof (cases "nonempty_str pid")
  case False
  with assms show ?thesis by (simp add: create_process_def)
next
  case True
  then obtain p where p: "pid = PStr p" "p \<noteq> []" by (auto simp: nonempty_str_iff)
  show ?thesis
  proof (cases "timestamp sys now")
    case (Inl x)
    with assms p show ?thesis by (simp add: create_process_def)
  next
    case (Inr tm)
    let ?m = "transaction (ebind (insert_process p (state_value RECEIVED) tm)
      (\<lambda>_. insert_event p 0 None (state_value RECEIVED) ''{}'' tm))"
    let ?h = "\<lambda>e. if exn_class e = IntegrityError
        then elift (raise ProcessStoreError ''process already exists'') else elift (Inl e)"
    have run: "ebind (ecatch ?m ?h) (\<lambda>_ s. (get_process pid s, s)) s = (Inl e, t)"
      using assms p Inr by (simp add: create_process_def del: state_value.simps)
    obtain r u where m: "?m s = (r, u)" by (cases "?m s") auto
    show ?thesis
    proof (cases r)
      case (Inl x)
      from m [unfolded Inl] have "u = s" by (rule transaction_Inl [THEN iffD1, THEN conjunct1])
      from run [unfolded ebind_ecatch m Inl this] show ?thesis by (simp split: if_splits)
    next
      case (Inr z)
      with m have u: "map_of (processes u) p = Some \<lparr>row_state = state_value RECEIVED, row_version = 0, row_updated = tm\<rparr>"
        by (auto simp: insert_process_Inr insert_event_Inr map_add_def)
      then obtain r where "get_process pid u = Inr r"
        using p state_of_value_value [of RECEIVED] by (auto simp: get_process_def simp del: state_value.simps)
      with run [unfolded ebind_ecatch m Inr] show ?thesis by simp
    qed
  qed
qed

lemma append_audit_tables:
  "append_audit_event sys pid actor typ d result rs now s = (a, t) \<Longrightarrow>
     processes t = processes s \<and> process_events t = process_events s"
  by (auto simp: append_audit_event_def split: sum.splits)

lemma store_ok_tables:
  "store_ok s \<Longrightarrow> processes t = processes s \<Longrightarrow> process_events t = process_events s \<Longrightarrow> store_ok t"
  by (simp only: store_ok_def events_of_def) blast

lemma advance_read_pending:
  assumes "store_ok s" "advance_read sys pid target evidence expected now s = Inr (cur, nxt, tm, ev)"
  shows "pending_ok s (str_of pid, int_of expected, cur, nxt, tm, ev)"
proof -
  from assms(2) obtain p row e where p: "pid = PStr p" "expected = PInt (row_version row)"
    "map_of (processes s) p = Some row" "row_state row = state_value (rec_state cur)"
    "rec_version cur = row_version row"
    and x: "transition (Some (rec_state cur)) (Some nxt) (Some e) = Inr nxt" "evidence_json e = Inr ev"
    by (rule advance_read_Inr)
  have "trail_ok (events_of p s) row" using assms(1) p by (auto simp: store_ok_def)
  then have "last (events_of p s) \<in> set (events_of p s)"
    "ev_sequence (last (events_of p s)) = row_version row"
    "ev_state (last (events_of p s)) = row_state row" by (auto simp: trail_ok_def)
  with p x show ?thesis by (auto simp: pending_ok_def)
qed

lemma pending_commit_ok:
  assumes "store_ok s" "pending_ok s (p, v, cur, nxt, tm, ev)" "advance_commit p v cur nxt tm ev s = (c, t)"
  shows "store_ok t \<and> set (process_events s) \<subseteq> set (process_events t)"
proof (cases c)
  case (Inl e)
  with assms advance_commit_Inl show ?thesis by blast
next
  case (Inr u)
  with assms have c: "advance_commit p v cur nxt tm ev s = (Inr u, t)" by simp
  from assms(2) obtain x where x: "transition (Some (rec_state cur)) (Some nxt) (Some x) = Inr nxt"
    "evidence_json x = Inr ev" and cur: "rec_version cur = v"
    and e: "\<exists>e\<in>set (events_of p s). ev_sequence e = v \<and> ev_state e = state_value (rec_state cur)"
    by (auto simp: pending_ok_def)
  have "row_state row = state_value (rec_state cur)"
    if "map_of (processes s) p = Some row" "row_version row = v" for row
    using e that assms(1) trail_event_at_version [of "events_of p s" row] by (auto simp: store_ok_def)
  with advance_commit_store_ok [OF assms(1) c cur _ x] have "store_ok t" by blast
  moreover have "set (process_events s) \<subseteq> set (process_events t)"
    using assms(1) by (auto simp: store_ok_def intro: advance_commit_Inr [OF c])
  ultimately show ?thesis by blast
qed

text \<open>
  Claim C2: whatever the order in which workers create processes, read, commit and audit, every
  process row agrees with its events: they start at RECEIVED with sequence 0, are numbered without
  gaps, each continues the last by a transition the workflow allows on the recorded evidence, and
  the row shows the last state and its number; every update still waiting was read from such an event.
\<close>

theorem concurrent_histories_legal:
  assumes "concurrent s ps"
  shows "store_ok s \<and> (\<forall>x\<in>set ps. pending_ok s x)"
  using assms
proof (induction rule: concurrent.induct)
  case open_empty
  show ?case by (simp add: store_ok_empty)
next
  case (create s ps sys pid now r t)
  show ?case
  proof (cases r)
    case (Inl e)
    with create create_process_Inl show ?thesis by blast
  next
    case (Inr x)
    with create have c: "create_process sys pid now s = (Inr x, t)" by simp
    have "set (process_events s) \<subseteq> set (process_events t)" by (rule create_process_store [OF c]) auto
    with create create_process_store_ok [OF _ c] pending_ok_extend show ?thesis by blast
  qed
next
  case (audit s ps sys pid actor ty d result rs now a t)
  with append_audit_tables [OF audit.hyps(2)] store_ok_tables pending_ok_extend show ?case by (metis order_refl)
next
  case (read s ps sys pid target evidence expected now cur nxt tm ev)
  with advance_read_pending show ?case by simp
next
  case (commit s ps p v cur nxt tm ev c t)
  with pending_commit_ok pending_ok_extend show ?case by metis
qed

theorem concurrent_histories_legal_witness:
  "store_ok (snd (create_process \<lparr>wall = 0, utc_offset = Some 0\<rparr> (PStr ''p'') NowNone empty_store))"
  using concurrent_histories_legal [OF concurrent.create [OF concurrent.open_empty surjective_pairing]] by blast

text \<open>
  Claim C4: an \<^verbatim>\<open>advance\<close> either raises and leaves the whole store as it was, or moves the process
  from the version the caller expected to the next one, in the state asked for, appending exactly
  one event that continues its history legally, and writes no audit row.
\<close>

theorem advance_all_or_nothing:
  assumes "store_ok s" "advance sys pid target evidence expected now s = (r, t)"
  shows "case r of Inl e \<Rightarrow> t = s
    | Inr rec \<Rightarrow> \<exists>p row e ev. pid = PStr p \<and> map_of (processes s) p = Some row \<and> evidence = Some e \<and>
        expected = PInt (row_version row) \<and> target = Some (rec_state rec) \<and> rec_id rec = p \<and>
        rec_version rec = row_version row + 1 \<and> process_events t = process_events s @ [ev] \<and>
        ev_process ev = p \<and> legal_event (last (events_of p s)) ev \<and>
        ev_state ev = state_value (rec_state rec) \<and> audit_rows t = audit_rows s"
proof (cases r)
  case (Inl e)
  with assms advance_failure show ?thesis by auto
next
  case (Inr rec)
  with assms have a: "advance sys pid target evidence expected now s = (Inr rec, t)" by simp
  show ?thesis unfolding Inr sum.case by (rule advance_success [OF assms(1) a]) blast
qed

definition fresh_store :: store where
  "fresh_store = \<lparr>processes = [(''p'', \<lparr>row_state = ''received'', row_version = 0, row_updated = ''t''\<rparr>)],
     process_events = [\<lparr>ev_id = 1, ev_process = ''p'', ev_sequence = 0, ev_previous = None,
         ev_state = ''received'', ev_evidence = ''{}'', ev_time = ''t''\<rparr>],
     audit_rows = [], next_event_id = 2, next_audit_id = 1\<rparr>"

lemma fresh_store_ok: "store_ok fresh_store"
  by (simp add: store_ok_def fresh_store_def trail_ok_def events_of_def)

definition epoch :: pydatetime where
  "epoch = \<lparr>wall = 0, utc_offset = Some 0\<rparr>"

lemma timestamp_epoch: "timestamp epoch NowNone = Inr (format_utc epoch)"
  by (simp add: timestamp_def epoch_def astimezone_utc_def mk_utc_def instant_def max_wall_def)

lemma fresh_read:
  "advance_read epoch (PStr ''p'') (Some SPECIFIED) (Some full_evidence) (PInt 0) NowNone fresh_store =
     Inr (\<lparr>rec_id = ''p'', rec_state = RECEIVED, rec_version = 0, rec_updated = ''t''\<rparr>, SPECIFIED,
       format_utc epoch, evidence_text full_evidence)"
  using state_of_value_value [of RECEIVED]
  by (simp add: advance_read_def get_process_def fresh_store_def full_evidence_transition
      full_evidence_json timestamp_epoch)

definition after_commit :: store where
  "after_commit = snd (advance_commit ''p'' 0
     \<lparr>rec_id = ''p'', rec_state = RECEIVED, rec_version = 0, rec_updated = ''t''\<rparr> SPECIFIED
     (format_utc epoch) (evidence_text full_evidence) fresh_store)"

lemma fresh_commit: "advance_commit ''p'' 0
     \<lparr>rec_id = ''p'', rec_state = RECEIVED, rec_version = 0, rec_updated = ''t''\<rparr> SPECIFIED
     (format_utc epoch) (evidence_text full_evidence) fresh_store = (Inr (), after_commit)"
  by (simp add: after_commit_def advance_commit_def transaction_def ebind_def update_process_def
      insert_event_def fresh_store_def)

lemma fresh_advance:
  "advance epoch (PStr ''p'') (Some SPECIFIED) (Some full_evidence) (PInt 0) NowNone fresh_store =
     (get_process (PStr ''p'') after_commit, after_commit)"
  by (simp add: advance_def fresh_read ebind_def fresh_commit)

theorem advance_all_or_nothing_witness:
  "\<exists>r t. advance epoch (PStr ''p'') (Some SPECIFIED) (Some full_evidence) (PInt 0) NowNone fresh_store = (r, t) \<and>
    (case r of Inl e \<Rightarrow> t = fresh_store | Inr rec \<Rightarrow> \<exists>ev. process_events t = process_events fresh_store @ [ev])"
proof -
  obtain r t where a: "advance epoch (PStr ''p'') (Some SPECIFIED) (Some full_evidence) (PInt 0) NowNone
      fresh_store = (r, t)" by (cases "advance epoch (PStr ''p'') (Some SPECIFIED) (Some full_evidence) (PInt 0)
      NowNone fresh_store") auto
  from advance_all_or_nothing [OF fresh_store_ok a] a show ?thesis by (cases r) auto
qed

text \<open>
  Claim C3: no update is lost. Of two workers that read a process at the same version, the one that
  commits second gets VersionConflict ("concurrent update") and writes nothing, whatever it meant
  to do.
\<close>

theorem no_lost_update:
  assumes "store_ok s"
    and "advance_read sys1 pid target1 evidence1 expected now1 s = Inr (cur1, next1, tm1, ev1)"
    and "advance_read sys2 pid target2 evidence2 expected now2 s = Inr (cur2, next2, tm2, ev2)"
    and "advance_commit (str_of pid) (int_of expected) cur1 next1 tm1 ev1 s = (Inr u, t)"
  shows "advance_commit (str_of pid) (int_of expected) cur2 next2 tm2 ev2 t =
    (Inl (Exn VersionConflict ''concurrent update''), t)"
proof -
  have d: "distinct (map fst (processes s))" using assms(1) by (simp add: store_ok_def)
  from assms(2) obtain p row where p: "pid = PStr p" "expected = PInt (row_version row)"
    "map_of (processes s) p = Some row" "rec_version cur1 = row_version row" by (rule advance_read_Inr)
  let ?new = "\<lparr>row_state = state_value next1, row_version = rec_version cur1 + 1, row_updated = tm1\<rparr>"
  let ?ps = "map (\<lambda>(k, r). (k, if k = p \<and> row_version r = row_version row then ?new else r)) (processes s)"
  have t: "processes t = ?ps"
    using assms(4) p d by (auto elim!: advance_commit_Inr)
  have "distinct (map fst (processes t))" using d map_fst_update [of p "row_version row" ?new "processes s"]
    by (simp add: t del: map_map)
  moreover have "map_of (processes t) p = Some ?new" using p by (simp add: t map_of_update)
  ultimately show ?thesis using p by (intro advance_commit_stale) auto
qed

theorem no_lost_update_witness:
  "advance_commit ''p'' 0 \<lparr>rec_id = ''p'', rec_state = RECEIVED, rec_version = 0, rec_updated = ''t''\<rparr>
     SPECIFIED (format_utc epoch) (evidence_text full_evidence) after_commit =
   (Inl (Exn VersionConflict ''concurrent update''), after_commit)"
  using no_lost_update [OF fresh_store_ok fresh_read fresh_read] fresh_commit by simp

text \<open>
  Claim C5: a request the gateway lets through is on record. Enforcement with the process store as
  audit sink never raises; when it allows a request, classification allowed it (a read-only
  operation, or an untainted request while policy is available) and the store has exactly one
  more audit row, the newest, with the request's principal, content digest, result and reasons.
\<close>

theorem enforce_allowed_is_recorded:
  "\<exists>d t. enforce (store_sink sys) env p now s = (Inr d, t) \<and>
     (allowed d \<longrightarrow> classify env p = Inr d \<and>
        (operation_of env \<in> set read_only_operations \<or> p = PBool True \<and> \<not> is_tainted env) \<and>
        (\<exists>row. audit_rows t = audit_rows s @ [row] \<and> records_entry row (gateway_audit_entry env d now))) \<and>
     (\<not> allowed d \<longrightarrow> length (audit_rows t) \<le> Suc (length (audit_rows s)))"
proof -
  obtain d t where e: "enforce (store_sink sys) env p now s = (Inr d, t)"
    using enforce_total [of "store_sink sys" env p now s] by blast
  with store_audit.allowed_is_audited [OF e] store_audit.at_most_one_row [OF e] classify_allowed
  show ?thesis by fastforce
qed

definition read_envelope :: pyval where
  "read_envelope = PDict [(''correlation_id'', PStr ''p''),
     (''source'', PDict [(''protocol'', PStr ''internal''), (''principal_id'', PStr ''agent'')]),
     (''intent'', PDict [(''operation'', PStr ''repository.read'')]),
     (''destination'', PDict [(''port'', PStr ''repository'')]),
     (''security'', PDict [(''tainted'', PBool False), (''sensitivity'', PStr ''internal'')]),
     (''payload'', PDict [(''content_digest'', PStr ''sha256:0'')])]"

text \<open>An internal read while policy is available: the fast path, one allowed row in the fresh store.\<close>

lemma read_envelope_fields:
  "is_dict read_envelope" "fld read_envelope ''correlation_id'' = PStr ''p''"
  "fld read_envelope ''source'' = PDict [(''protocol'', PStr ''internal''), (''principal_id'', PStr ''agent'')]"
  "fld read_envelope ''intent'' = PDict [(''operation'', PStr ''repository.read'')]"
  "fld read_envelope ''destination'' = PDict [(''port'', PStr ''repository'')]"
  "fld read_envelope ''security'' = PDict [(''tainted'', PBool False), (''sensitivity'', PStr ''internal'')]"
  "fld read_envelope ''payload'' = PDict [(''content_digest'', PStr ''sha256:0'')]"
  by (simp_all add: read_envelope_def)

lemma read_envelope_shaped: "require_audit_shape read_envelope = Inr ()"
  by (simp add: require_audit_shape_def check_each_Inr required_audit_fields_def require_field_def
      require_text_def read_envelope_fields)

lemma read_envelope_classified:
  "classify read_envelope (PBool True) = Inr (decide_path FAST True [''internal-read-only''])"
  by (simp add: classify_def require_envelope_shape_def check_each_Inr required_envelope_fields_def
      require_field_def require_text_def read_envelope_fields slow_reasons_def Let_def slow_ports_def
      privilege_prefixes_def read_only_operations_def)

lemma read_envelope_entry:
  "gateway_audit_entry read_envelope (decide_path FAST True [''internal-read-only'']) NowNone =
     \<lparr>audit_process = ''p'', audit_actor = ''agent'', audit_type = ''gateway.request'',
      audit_input_digest = ''sha256:0'', audit_result = ''allowed'',
      audit_reasons = [''internal-read-only''], audit_time = NowNone\<rparr>"
  by (simp add: gateway_audit_entry_def read_envelope_fields)

lemma fresh_process: "\<exists>r. get_process (PStr ''p'') fresh_store = Inr r"
  using state_of_value_value [of RECEIVED] by (simp add: get_process_def fresh_store_def)

lemma read_envelope_enforced:
  "\<exists>t. enforce (store_sink epoch) read_envelope (PBool True) NowNone fresh_store =
     (Inr (decide_path FAST True [''internal-read-only'']), t)"
proof -
  have "validate_reason_codes (PTuple [PStr ''internal-read-only'']) = Inr ()"
    by (simp add: validate_reason_codes_def reason_code_ok_def text_eval)
  then show ?thesis
    using fresh_process
    by (auto simp: enforce_def read_envelope_shaped read_envelope_classified read_envelope_entry
        store_sink_def append_audit_event_def timestamp_epoch
        check_each.simps)
qed

theorem enforce_allowed_is_recorded_witness:
  "\<exists>t row. enforce (store_sink epoch) read_envelope (PBool True) NowNone fresh_store =
       (Inr (decide_path FAST True [''internal-read-only'']), t) \<and>
     audit_rows fresh_store = [] \<and> audit_rows t = [row] \<and> au_process row = ''p'' \<and>
     au_actor row = ''agent'' \<and> au_result row = ''allowed''"
proof -
  obtain t where e: "enforce (store_sink epoch) read_envelope (PBool True) NowNone fresh_store =
       (Inr (decide_path FAST True [''internal-read-only'']), t)" using read_envelope_enforced by blast
  then obtain row where "audit_rows t = audit_rows fresh_store @ [row]"
    "records_entry row (gateway_audit_entry read_envelope (decide_path FAST True [''internal-read-only'']) NowNone)"
    using enforce_allowed_is_recorded [of epoch read_envelope "PBool True" NowNone fresh_store] by auto
  with e show ?thesis
    by (auto simp: fresh_store_def records_entry_def read_envelope_entry)
qed

end
