(* ===== verification/Repository_Binding.thy ===== *)
theory Repository_Binding
  imports Json_Injective
begin

text \<open>
  \<^verbatim>\<open>src/app_contracts/repository_binding.py\<close>: the slug of a source repository, the identity the
  provider gives it, and the record that binds the two.
\<close>

section \<open>The two patterns\<close>

definition is_slug_char :: "char \<Rightarrow> bool" where
  "is_slug_char c \<longleftrightarrow> is_alnum c \<or> c \<in> {CHR ''_'', CHR ''.'', CHR ''-''}"

definition is_slug_part :: "string \<Rightarrow> bool" where
  "is_slug_part s \<longleftrightarrow> s \<noteq> [] \<and> list_all is_slug_char s"

text \<open>\<^verbatim>\<open>[A-Za-z0-9_.-]+/[A-Za-z0-9_.-]+\Z\<close>.\<close>

definition is_source_repository :: "string \<Rightarrow> bool" where
  "is_source_repository s =
     (case split_on (CHR ''/'') s of [a, b] \<Rightarrow> is_slug_part a \<and> is_slug_part b | _ \<Rightarrow> False)"

text \<open>\<^verbatim>\<open>[1-9][0-9]*\<close>.\<close>

definition is_positive_number :: "string \<Rightarrow> bool" where
  "is_positive_number s \<longleftrightarrow> s \<noteq> [] \<and> hd s \<noteq> CHR ''0'' \<and> list_all is_digit s"

text \<open>\<^verbatim>\<open>github-installation/[1-9][0-9]*/repository/[1-9][0-9]*\Z\<close>.\<close>

definition is_provider_repository :: "string \<Rightarrow> bool" where
  "is_provider_repository s =
     (case split_on (CHR ''/'') s of
        [a, n, b, m] \<Rightarrow> a = ''github-installation'' \<and> b = ''repository''
          \<and> is_positive_number n \<and> is_positive_number m
      | _ \<Rightarrow> False)"

section \<open>The binding\<close>

record repository_target_binding =
  source_repository :: string
  provider_repository :: string

definition bad_target :: exn where
  "bad_target = Exn ValueError ''repository binding: target identity is invalid''"

text \<open>\<^verbatim>\<open>RepositoryTargetBinding(source_repository_id=..., provider_repository_id=...)\<close>.\<close>

definition mk_repository_target_binding :: "pyval \<Rightarrow> pyval \<Rightarrow> repository_target_binding res" where
  "mk_repository_target_binding src prov =
     unless (\<not> is_str src \<or> \<not> is_source_repository (str_of src)
       \<or> \<not> is_str prov \<or> \<not> is_provider_repository (str_of prov)) bad_target
     (Inr \<lparr>source_repository = str_of src, provider_repository = str_of prov\<rparr>)"

definition provider_repository_id :: "pyval \<Rightarrow> pyval \<Rightarrow> string res" where
  "provider_repository_id installation repository =
     unless (\<not> is_int installation \<or> int_of installation < 1 \<or> \<not> is_int repository \<or> int_of repository < 1)
       bad_target
     (rbind (int_text (int_of installation)) (\<lambda>i.
      rbind (int_text (int_of repository)) (\<lambda>r.
      Inr (''github-installation/'' @ i @ ''/repository/'' @ r))))"

section \<open>Facts\<close>

lemma mk_binding_Inr:
  "mk_repository_target_binding src prov = Inr b \<longleftrightarrow>
     src = PStr (source_repository b) \<and> prov = PStr (provider_repository b) \<and>
     is_source_repository (source_repository b) \<and> is_provider_repository (provider_repository b)"
  by (cases src; cases prov) (auto simp: mk_repository_target_binding_def)

lemma mk_binding_Inl: "mk_repository_target_binding src prov = Inl e \<Longrightarrow> e = bad_target"
  by (auto simp: mk_repository_target_binding_def unless_Inl)

lemma source_not_provider: "is_source_repository s \<Longrightarrow> \<not> is_provider_repository s"
  by (auto simp: is_source_repository_def is_provider_repository_def split: list.splits)

text \<open>What the formatter produces is what the binding accepts, and it determines the two numbers.\<close>

lemma nat_digits_positive: "0 < n \<Longrightarrow> hd (nat_digits n) \<noteq> CHR ''0''"
proof (induction n rule: nat_digits.induct)
  case (1 n)
  show ?case
  proof (cases "n < 10")
    case True
    with 1 have "n \<in> set [1, 2, 3, 4, 5, 6, 7, 8, 9]"
      by (simp only: list.set insert_iff empty_iff) presburger
    then show ?thesis by (subst nat_digits.simps) (auto simp: dec_digit_def)
  next
    case False
    then have "hd (nat_digits (n div 10)) \<noteq> CHR ''0''" using 1 by simp
    with False show ?thesis by (subst nat_digits.simps) (simp add: nat_digits_nonempty)
  qed
qed

lemma nat_digits_positive_number: "0 < n \<Longrightarrow> is_positive_number (nat_digits n)"
  by (simp add: is_positive_number_def nat_digits_nonempty nat_digits_positive nat_digits_is_digit)

lemma slash_not_in_digits: "CHR ''/'' \<notin> set (nat_digits n)"
  using nat_digits_is_digit [of n] by (auto simp: list_all_iff is_digit_def)

lemma provider_repository_id_Inr:
  assumes "provider_repository_id i r = Inr s"
  obtains m n where "i = PInt (int m)" "r = PInt (int n)" "0 < m" "0 < n"
    "s = ''github-installation/'' @ nat_digits m @ ''/repository/'' @ nat_digits n"
proof -
  from assms obtain a b where i: "i = PInt a" "r = PInt b" "1 \<le> a" "1 \<le> b"
    and s: "s = ''github-installation/'' @ int_repr a @ ''/repository/'' @ int_repr b"
    by (auto simp: provider_repository_id_def is_int_iff int_text_def)
  have "int_repr a = nat_digits (nat a)" "int_repr b = nat_digits (nat b)"
    using i by (simp_all add: int_repr_def)
  with i s show thesis using that [of "nat a" "nat b"] by simp
qed

lemma split_provider_repository:
  assumes "CHR ''/'' \<notin> set m" "CHR ''/'' \<notin> set n"
  shows "split_on (CHR ''/'') (''github-installation/'' @ m @ ''/repository/'' @ n) =
    [''github-installation'', m, ''repository'', n]"
  using assms by (simp add: split_on_append split_on_no_sep)

lemma provider_repository_id_accepted:
  "provider_repository_id i r = Inr s \<Longrightarrow> is_provider_repository s"
  by (erule provider_repository_id_Inr)
    (simp add: is_provider_repository_def nat_digits_positive_number slash_not_in_digits
      split_provider_repository [simplified])

lemma provider_repository_id_inject:
  assumes "provider_repository_id i r = Inr s" "provider_repository_id i' r' = Inr s"
  shows "i = i' \<and> r = r'"
proof -
  from assms(1) obtain m n where 1: "i = PInt (int m)" "r = PInt (int n)"
    "s = ''github-installation/'' @ nat_digits m @ ''/repository/'' @ nat_digits n"
    by (rule provider_repository_id_Inr)
  from assms(2) obtain m' n' where 2: "i' = PInt (int m')" "r' = PInt (int n')"
    "s = ''github-installation/'' @ nat_digits m' @ ''/repository/'' @ nat_digits n'"
    by (rule provider_repository_id_Inr)
  have "[''github-installation'', nat_digits m, ''repository'', nat_digits n] =
      [''github-installation'', nat_digits m', ''repository'', nat_digits n']"
    unfolding split_provider_repository [OF slash_not_in_digits slash_not_in_digits, symmetric]
    using 1(3) 2(3) by simp
  with 1 2 show ?thesis by (auto dest: nat_digits_inject)
qed

end
