(* ===== verification/Url_Quote.thy ===== *)
theory Url_Quote
  imports Py_Values
begin

text \<open>
  \<^verbatim>\<open>urllib.parse.quote(s, safe="")\<close>, which \<^verbatim>\<open>publication_seed.py\<close> uses to put branch names
  into an idempotency key: every UTF-8 byte that is not unreserved becomes a percent escape. The
  encoding is injective and its result has no slash, so a key can be taken apart again.
\<close>

definition is_unreserved :: "char \<Rightarrow> bool" where
  "is_unreserved c \<longleftrightarrow> is_alnum c \<or> c \<in> {CHR ''_'', CHR ''.'', CHR ''-'', CHR ''~''}"

definition hex_upper :: "nat \<Rightarrow> char" where
  "hex_upper n = ''0123456789ABCDEF'' ! n"

definition quote_byte :: "char \<Rightarrow> string" where
  "quote_byte c = (if is_unreserved c then [c]
     else [CHR ''%'', hex_upper (byte c div 16), hex_upper (byte c mod 16)])"

definition quote_text :: "string \<Rightarrow> string" where
  "quote_text s = concat (map quote_byte s)"

text \<open>A lone surrogate cannot be encoded.\<close>

definition quote :: "string \<Rightarrow> string res" where
  "quote s = unless (has_surrogate s) (Exn UnicodeEncodeError ''surrogates not allowed'')
     (Inr (quote_text s))"

lemma quote_text_simps [simp]: "quote_text [] = []" "quote_text (c # s) = quote_byte c @ quote_text s"
  by (simp_all add: quote_text_def)

lemma hex_upper_inject:
  assumes "m < 16" "n < 16" "hex_upper m = hex_upper n"
  shows "m = n"
proof -
  have "distinct ''0123456789ABCDEF''" by simp
  with assms show ?thesis by (simp add: hex_upper_def nth_eq_iff_index_eq)
qed

lemma byte_less_256: "byte c < 256"
  by (cases c) (simp add: of_char_Char horner_sum_simps)

lemma byte_pair_inject:
  assumes "byte c div 16 = byte d div 16" "byte c mod 16 = byte d mod 16"
  shows "c = d"
  using assms by (metis char_of_char mod_mult_div_eq)

lemma percent_not_unreserved: "\<not> is_unreserved (CHR ''%'')"
  by (simp add: is_unreserved_def is_alnum_def)

lemma slash_not_unreserved: "\<not> is_unreserved (CHR ''/'')"
  by (simp add: is_unreserved_def is_alnum_def)

lemma quote_byte_unique:
  assumes eq: "quote_byte c @ r = quote_byte d @ r'"
  shows "c = d \<and> r = r'"
proof (cases "is_unreserved c \<or> is_unreserved d")
  case True
  with eq percent_not_unreserved show ?thesis by (auto simp: quote_byte_def split: if_splits)
next
  case False
  with eq have hex: "hex_upper (byte c div 16) = hex_upper (byte d div 16)"
    "hex_upper (byte c mod 16) = hex_upper (byte d mod 16)" and r: "r = r'"
    by (simp_all add: quote_byte_def)
  have "byte c div 16 < 16" "byte d div 16 < 16" "byte c mod 16 < 16" "byte d mod 16 < 16"
    using byte_less_256 [of c] byte_less_256 [of d] by (simp_all add: less_mult_imp_div_less)
  with hex have "byte c div 16 = byte d div 16" "byte c mod 16 = byte d mod 16"
    using hex_upper_inject by blast+
  with r byte_pair_inject show ?thesis by blast
qed

lemma quote_byte_nonempty: "quote_byte c \<noteq> []"
  by (simp add: quote_byte_def)

lemma quote_text_inject: "quote_text s = quote_text t \<Longrightarrow> s = t"
proof (induction s arbitrary: t)
  case Nil
  then show ?case by (cases t) (auto simp: quote_byte_nonempty)
next
  case (Cons c s)
  then obtain d t' where t: "t = d # t'" by (cases t) (auto simp: quote_byte_nonempty)
  with Cons.prems have "c = d \<and> quote_text s = quote_text t'"
    by (intro quote_byte_unique) simp
  with t Cons.IH show ?case by simp
qed

lemma hex_upper_not_slash: "n < 16 \<Longrightarrow> hex_upper n \<noteq> CHR ''/''"
proof -
  assume "n < 16"
  then have "hex_upper n \<in> set ''0123456789ABCDEF''" unfolding hex_upper_def by (intro nth_mem) simp
  then show ?thesis by auto
qed

lemma quote_text_no_slash: "CHR ''/'' \<notin> set (quote_text s)"
proof (induction s)
  case Nil
  then show ?case by simp
next
  case (Cons c s)
  have "byte c div 16 < 16" using byte_less_256 [of c] by (simp add: less_mult_imp_div_less)
  then have "CHR ''/'' \<notin> set (quote_byte c)"
    using slash_not_unreserved hex_upper_not_slash [of "byte c div 16"] hex_upper_not_slash [of "byte c mod 16"]
    by (auto simp: quote_byte_def)
  with Cons show ?case by simp
qed

lemma quote_Inr: "quote s = Inr q \<longleftrightarrow> \<not> has_surrogate s \<and> q = quote_text s"
  by (auto simp: quote_def)

lemma quote_Inl: "quote s = Inl e \<Longrightarrow> exn_class e = UnicodeEncodeError"
  by (auto simp: quote_def unless_Inl)

text \<open>Two texts joined by a slash, the first of which is quoted, come apart in one way.\<close>

lemma quoted_prefix_unique:
  assumes "quote_text s @ CHR ''/'' # r = quote_text t @ CHR ''/'' # r'"
  shows "s = t \<and> r = r'"
proof -
  have "split_on (CHR ''/'') (quote_text s @ CHR ''/'' # r) = quote_text s # split_on (CHR ''/'') r"
    "split_on (CHR ''/'') (quote_text t @ CHR ''/'' # r') = quote_text t # split_on (CHR ''/'') r'"
    by (simp_all add: split_on_append quote_text_no_slash)
  then have "quote_text s = quote_text t" using assms by simp
  with assms show ?thesis by (auto dest: quote_text_inject)
qed

end
