(* ===== verification/Publication_Seed.thy ===== *)
theory Publication_Seed
  imports Repository_Binding Url_Quote
begin

text \<open>
  \<^verbatim>\<open>src/app_contracts/publication_seed.py\<close>: the digest-only seed built from one verified
  execution, the publication intent derived from it and the idempotency key that binds base branch,
  head branch and staged digest. Dataclass fields are arbitrary values until the constructor
  (\<open>mk_publication_seed\<close>, \<open>mk_publication_intent\<close>) has checked them. An argument of another class
  than the one the code tests for is \<open>None\<close>. Of the records of \<^verbatim>\<open>executor.py\<close>,
  \<^verbatim>\<open>pinned_snapshot.py\<close> and \<^verbatim>\<open>github_snapshot.py\<close> only the fields read here are kept.
\<close>

section \<open>Field checks\<close>

abbreviation seed_error :: "string \<Rightarrow> exn" where
  "seed_error m \<equiv> Exn PublicationSeedError m"

definition validate_identity :: "pyval \<Rightarrow> unit res" where
  "validate_identity v =
     unless (\<not> nonempty_str v \<or> strip_changes (str_of v) \<or> any_char is_control (str_of v))
       (seed_error ''publication seed: identity field is invalid'') (Inr ())"

definition validate_digest :: "pyval \<Rightarrow> unit res" where
  "validate_digest v =
     unless (\<not> is_str v \<or> \<not> is_digest (str_of v))
       (seed_error ''publication seed: digest is invalid'') (Inr ())"

text \<open>\<^verbatim>\<open>[A-Za-z0-9][A-Za-z0-9._:-]{0,127}\Z\<close>.\<close>

definition is_key_char :: "char \<Rightarrow> bool" where
  "is_key_char c \<longleftrightarrow> is_alnum c \<or> c \<in> {CHR ''.'', CHR ''_'', CHR '':'', CHR ''-''}"

definition is_key_id :: "string \<Rightarrow> bool" where
  "is_key_id s \<longleftrightarrow> s \<noteq> [] \<and> is_alnum (hd s) \<and> list_all is_key_char s \<and> length s \<le> 128"

text \<open>\<^verbatim>\<open>docker-image:sha256:[0-9a-f]{64}/code:sha256:[0-9a-f]{64}\Z\<close>.\<close>

definition is_docker_verifier_id :: "string \<Rightarrow> bool" where
  "is_docker_verifier_id s =
     (case split_on (CHR ''/'') s of
        [a, b] \<Rightarrow> startswith a ''docker-image:'' \<and> is_digest (drop 13 a)
          \<and> startswith b ''code:'' \<and> is_digest (drop 5 b)
      | _ \<Rightarrow> False)"

definition validate_verifier_id :: "pyval \<Rightarrow> unit res" where
  "validate_verifier_id v =
     unless (\<not> is_str v \<or> (\<not> is_key_id (str_of v) \<and> \<not> is_docker_verifier_id (str_of v)))
       (seed_error ''publication seed: verifier identity is invalid'') (Inr ())"

definition verdicts :: "string list" where
  "verdicts = [''pass'', ''fail'', ''blocked'']"

definition verified_origins :: "string list" where
  "verified_origins = [''local_git_commit'', ''github_rest_api_claim'', ''github_codeload_archive'']"

definition snapshot_origins :: "string list" where
  "snapshot_origins = [''local_git_commit'', ''github_rest_api_claim'', ''github_codeload_archive'',
     ''unverified_local_test'']"

definition remote_origins :: "string list" where
  "remote_origins = [''github_rest_api_claim'', ''github_codeload_archive'']"

abbreviation one_of :: "pyval \<Rightarrow> string list \<Rightarrow> bool" where
  "one_of v ss \<equiv> is_str v \<and> str_of v \<in> set ss"

section \<open>The seed\<close>

record publication_seed =
  sd_process_id :: pyval
  sd_repository_id :: pyval
  sd_base_commit :: pyval
  sd_staged_change_digest :: pyval
  sd_verified_contents_digest :: pyval
  sd_verifier_id :: pyval
  sd_verdict :: pyval
  sd_replay_result_digest :: pyval
  sd_snapshot_tree_digest :: pyval
  sd_snapshot_origin :: pyval
  sd_snapshot_claim_digest :: pyval
  sd_source_repository_id :: pyval
  sd_attestation_digest :: pyval
  sd_attestation_key_id :: pyval
  sd_attestation_profile_digest :: pyval
  sd_trust_enrollment_digest :: pyval
  sd_host_trust_decision_digest :: pyval

definition optional_digest :: "pyval \<Rightarrow> unit res" where
  "optional_digest v = (if v = PNone then Inr () else validate_digest v)"

definition optional_target :: "string \<Rightarrow> pyval \<Rightarrow> pyval \<Rightarrow> unit res" where
  "optional_target msg src repo =
     (if src = PNone then Inr ()
      else (case mk_repository_target_binding src repo of
          Inl _ \<Rightarrow> raise PublicationSeedError msg
        | Inr _ \<Rightarrow> Inr ()))"

definition attestation_fields :: "publication_seed \<Rightarrow> pyval list" where
  "attestation_fields s = [sd_attestation_digest s, sd_attestation_key_id s,
     sd_attestation_profile_digest s, sd_trust_enrollment_digest s, sd_host_trust_decision_digest s]"

definition check_attestation :: "publication_seed \<Rightarrow> unit res" where
  "check_attestation s =
     (if list_all (\<lambda>v. v = PNone) (attestation_fields s) then Inr ()
      else unless (list_ex (\<lambda>v. v = PNone) (attestation_fields s))
        (seed_error ''publication seed: signed verifier trust is not established'')
       (rbind (check_each validate_digest
          [sd_attestation_digest s, sd_attestation_profile_digest s, sd_trust_enrollment_digest s,
           sd_host_trust_decision_digest s]) (\<lambda>_.
        unless (\<not> is_str (sd_attestation_key_id s) \<or> \<not> is_key_id (str_of (sd_attestation_key_id s)))
          (seed_error ''publication seed: verifier attestation key ID is invalid'') (Inr ()))))"

text \<open>\<^verbatim>\<open>PublicationSeed.__post_init__\<close>.\<close>

definition check_seed :: "publication_seed \<Rightarrow> unit res" where
  "check_seed s =
     rbind (check_each validate_identity [sd_process_id s, sd_repository_id s, sd_base_commit s]) (\<lambda>_.
     rbind (check_each validate_digest [sd_staged_change_digest s, sd_verified_contents_digest s]) (\<lambda>_.
     rbind (validate_verifier_id (sd_verifier_id s)) (\<lambda>_.
     unless (\<not> one_of (sd_verdict s) verdicts)
       (seed_error ''publication seed: verifier verdict is invalid'')
    (rbind (check_each optional_digest [sd_replay_result_digest s, sd_snapshot_tree_digest s]) (\<lambda>_.
     unless (\<not> one_of (sd_snapshot_origin s) snapshot_origins)
       (seed_error ''publication seed: snapshot origin is invalid'')
    (unless (one_of (sd_snapshot_origin s) verified_origins \<and> sd_snapshot_tree_digest s = PNone)
       (seed_error ''publication seed: snapshot tree binding is invalid'')
    (rbind (optional_digest (sd_snapshot_claim_digest s)) (\<lambda>_.
     unless (one_of (sd_snapshot_origin s) remote_origins \<noteq> (sd_snapshot_claim_digest s \<noteq> PNone))
       (seed_error ''publication seed: snapshot claim binding is invalid'')
    (rbind (optional_target ''publication seed: repository target binding is invalid''
        (sd_source_repository_id s) (sd_repository_id s)) (\<lambda>_.
     check_attestation s))))))))))"

definition mk_publication_seed :: "publication_seed \<Rightarrow> publication_seed res" where
  "mk_publication_seed s = rbind (check_seed s) (\<lambda>_. Inr s)"

text \<open>\<^verbatim>\<open>bind_publication_seed_to_target\<close>.\<close>

definition bind_publication_seed_to_target ::
  "publication_seed option \<Rightarrow> repository_target_binding option \<Rightarrow> publication_seed res" where
  "bind_publication_seed_to_target seed binding =
     (case (seed, binding) of
        (Some s, Some b) \<Rightarrow>
          unless (sd_verdict s \<noteq> PStr ''pass'')
            (seed_error ''publication seed: repository target binding is invalid'')
         (unless (sd_source_repository_id s \<noteq> PNone \<or> sd_repository_id s \<noteq> PStr (source_repository b))
            (seed_error ''publication seed: repository target does not match source'')
         (mk_publication_seed (s\<lparr>sd_repository_id := PStr (provider_repository b),
            sd_source_repository_id := sd_repository_id s\<rparr>)))
      | _ \<Rightarrow> raise PublicationSeedError ''publication seed: repository target binding is invalid'')"

section \<open>Review metadata of the verifier trust\<close>

text \<open>
  What \<^verbatim>\<open>verifier_provenance.py\<close> emits; \<open>pv_token_ok\<close> is the answer of
  \<^verbatim>\<open>is_verified_stage_verifier_provenance\<close>.
\<close>

record stage_provenance =
  pv_token_ok :: bool
  pv_attestation_digest :: pyval
  pv_key_id :: pyval
  pv_profile_digest :: pyval
  pv_enrollment_digest :: pyval
  pv_decision_digest :: pyval
  pv_request_reconstructed :: pyval
  pv_request_digest :: pyval
  pv_enrollment_authority :: pyval
  pv_decision_authority :: pyval

datatype provenance_arg = NoProvenance | OtherProvenance | Provenance stage_provenance

definition provenance_matches :: "publication_seed \<Rightarrow> pyval \<Rightarrow> stage_provenance \<Rightarrow> bool" where
  "provenance_matches s available p \<longleftrightarrow> pv_token_ok p \<and>
     py_eq (pv_attestation_digest p) (sd_attestation_digest s) \<and>
     py_eq (pv_key_id p) (sd_attestation_key_id s) \<and>
     py_eq (pv_profile_digest p) (sd_attestation_profile_digest s) \<and>
     py_eq (pv_enrollment_digest p) (sd_trust_enrollment_digest s) \<and>
     py_eq (pv_decision_digest p) (sd_host_trust_decision_digest s) \<and>
     pv_request_reconstructed p = PBool True \<and> available = PBool True"

definition recorded_binding :: "publication_seed \<Rightarrow> pyval \<Rightarrow> fields" where
  "recorded_binding s available =
    [(''status'', PStr (if list_ex (\<lambda>v. v \<noteq> PNone) (attestation_fields s)
        then ''recorded_digest_only_not_revalidated'' else ''not_recorded'')),
     (''attestation_digest'', sd_attestation_digest s),
     (''attestation_key_id'', sd_attestation_key_id s),
     (''profile_digest'', sd_attestation_profile_digest s),
     (''enrollment_digest'', sd_trust_enrollment_digest s),
     (''host_trust_decision_digest'', sd_host_trust_decision_digest s),
     (''signed_evidence_available'', available),
     (''signed_evidence_status'', PStr (if sd_attestation_digest s = PNone then ''not_applicable''
        else if available = PBool True then ''stored_not_revalidated'' else ''not_available''))]"

definition verifier_trust_intent_binding ::
  "publication_seed option \<Rightarrow> pyval \<Rightarrow> provenance_arg \<Rightarrow> pyval res" where
  "verifier_trust_intent_binding seed available prov =
     (case seed of
        None \<Rightarrow> raise PublicationSeedError ''publication seed: verifier trust binding is invalid''
      | Some s \<Rightarrow>
          unless (\<not> is_bool available)
            (seed_error ''publication seed: verifier trust binding is invalid'')
            (case prov of
               NoProvenance \<Rightarrow> Inr (PDict (recorded_binding s available))
             | OtherProvenance \<Rightarrow>
                 raise PublicationSeedError ''publication seed: verifier provenance is unavailable''
             | Provenance p \<Rightarrow>
                 unless (\<not> provenance_matches s available p)
                   (seed_error ''publication seed: verifier provenance is unavailable'')
                   (Inr (PDict (dict_update (recorded_binding s available)
                     [(''status'', PStr ''cryptographically_revalidated_request_reconstructed''),
                      (''signed_evidence_status'', PStr ''revalidated''),
                      (''request_input_reconstructed'', PBool True),
                      (''authority_signatures_valid'', PBool True),
                      (''verifier_signature_valid'', PBool True),
                      (''identity_authenticated'', PBool False),
                      (''provider_write'', PBool False),
                      (''request_digest'', pv_request_digest p),
                      (''enrollment_authority_key_id'', pv_enrollment_authority p),
                      (''decision_authority_key_id'', pv_decision_authority p)])))))"

section \<open>Building a seed from an execution\<close>

record pinned_snapshot =
  pin_repository_id :: pyval
  pin_commit_oid :: pyval
  pin_tree_digest :: pyval

datatype pin_arg = NoPin | OtherPin | Pin pinned_snapshot

text \<open>A snapshot claim has passed its constructor: its texts are strings.\<close>

record snapshot_claim =
  cl_owner :: string
  cl_repository :: string
  cl_commit_oid :: string
  cl_tree_oid :: string
  cl_content_digest :: string
  cl_selected_paths :: "string list option"
  cl_evidence_origin :: string

definition full_snapshot :: "snapshot_claim \<Rightarrow> bool" where
  "full_snapshot c \<longleftrightarrow> cl_selected_paths c = None"

datatype remote_arg = NoRemote | OtherRemote | Remote snapshot_claim

record execution_request =
  rq_process_id :: pyval
  rq_repository_id :: pyval
  rq_base_commit :: pyval
  rq_pinned_snapshot :: pin_arg
  rq_remote_snapshot :: remote_arg

datatype execution_status = PREPARED | VERIFIED | EXECUTION_FAILED

datatype verifier_verdict = PASS | FAIL | BLOCKED

record verifier_result =
  vr_process_id :: pyval
  vr_base_commit :: pyval
  vr_snapshot_tree_digest :: pyval
  vr_replay_result_digest :: pyval
  vr_verifier_id :: pyval
  vr_patch_digest :: pyval
  vr_evidence_digest :: pyval
  vr_verification_digest :: pyval
  vr_verified_contents_digest :: pyval
  vr_verdict :: "verifier_verdict option"
  vr_evidence_origin :: pyval

text \<open>\<open>td_token_ok\<close> is the answer of \<^verbatim>\<open>is_verified_verifier_host_trust_decision\<close>.\<close>

record host_trust_decision =
  td_token_ok :: bool
  td_decision_digest :: pyval
  td_enrollment_digest :: pyval
  td_verifier_key_id :: pyval
  td_verifier_profile_digest :: pyval

record execution_result =
  rs_status :: "execution_status option"
  rs_patch_digest :: pyval
  rs_evidence_digest :: pyval
  rs_verification_digest :: pyval
  rs_verified_contents_digest :: pyval
  rs_staged_change_digest :: pyval
  rs_snapshot_tree_digest :: pyval
  rs_snapshot_origin :: pyval
  rs_verifier_result :: "verifier_result option"
  rs_evidence_origin :: pyval
  rs_snapshot_claim_digest :: pyval
  rs_attestation_digest :: pyval
  rs_attestation_key_id :: pyval
  rs_attestation_profile_digest :: pyval
  rs_trust_enrollment_digest :: pyval
  rs_host_trust_decision_digest :: pyval
  rs_host_trust_decision :: "host_trust_decision option"
  rs_signature_valid :: pyval
  rs_host_trust_established :: pyval

text \<open>The signed trust of a result, when it claims any.\<close>

definition host_trust_ok :: "execution_result \<Rightarrow> bool" where
  "host_trust_ok r \<longleftrightarrow> rs_signature_valid r = PBool True \<and> rs_host_trust_established r = PBool True \<and>
     (case rs_host_trust_decision r of
        None \<Rightarrow> False
      | Some d \<Rightarrow> td_token_ok d \<and> py_eq (td_decision_digest d) (rs_host_trust_decision_digest r) \<and>
          py_eq (td_enrollment_digest d) (rs_trust_enrollment_digest r) \<and>
          py_eq (td_verifier_key_id d) (rs_attestation_key_id r) \<and>
          py_eq (td_verifier_profile_digest d) (rs_attestation_profile_digest r))"

definition claim_content :: "snapshot_claim \<Rightarrow> pyval" where
  "claim_content c = PDict
    [(''canonicalization'', PStr (if cl_evidence_origin c = ''github_codeload_archive''
        then ''github-codeload-snapshot-claim/v1'' else ''github-rest-snapshot-claim/v1'')),
     (''owner'', PStr (cl_owner c)), (''repository'', PStr (cl_repository c)),
     (''commit_oid'', PStr (cl_commit_oid c)), (''tree_oid'', PStr (cl_tree_oid c)),
     (''content_digest'', PStr (cl_content_digest c)), (''full_snapshot'', PBool (full_snapshot c)),
     (''selected_paths'', (case cl_selected_paths c of None \<Rightarrow> PNone | Some ps \<Rightarrow> PTuple (map PStr ps))),
     (''evidence_origin'', PStr (cl_evidence_origin c))]"

definition github_claim_digest :: "snapshot_claim \<Rightarrow> string res" where
  "github_claim_digest c = sha256_digest (claim_content c)"

text \<open>What the execution must be bound to.\<close>

record expected_binding =
  xb_repository :: pyval
  xb_commit :: pyval
  xb_tree_digest :: pyval
  xb_origin :: pyval
  xb_claim_digest :: pyval

definition expected_of_request :: "execution_request \<Rightarrow> execution_result \<Rightarrow> expected_binding res" where
  "expected_of_request req r =
     (case rq_pinned_snapshot req of
        OtherPin \<Rightarrow> raise PublicationSeedError ''publication seed: execution binding is invalid''
      | Pin p \<Rightarrow> Inr \<lparr>xb_repository = pin_repository_id p, xb_commit = pin_commit_oid p,
          xb_tree_digest = pin_tree_digest p, xb_origin = PStr ''local_git_commit'', xb_claim_digest = PNone\<rparr>
      | NoPin \<Rightarrow>
          (case rq_remote_snapshot req of
             Remote c \<Rightarrow>
               unless (\<not> full_snapshot c) (seed_error ''publication seed: remote snapshot is incomplete'')
               (rbind (github_claim_digest c) (\<lambda>d.
                unless (\<not> py_eq (rs_snapshot_claim_digest r) (PStr d))
                  (seed_error ''publication seed: remote claim binding mismatch'')
                  (Inr \<lparr>xb_repository = PStr (cl_owner c @ ''/'' @ cl_repository c),
                     xb_commit = PStr (cl_commit_oid c), xb_tree_digest = PStr (cl_content_digest c),
                     xb_origin = PStr (cl_evidence_origin c), xb_claim_digest = PStr d\<rparr>)))
           | _ \<Rightarrow> raise PublicationSeedError ''publication seed: remote snapshot is invalid''))"

definition bindings_match ::
  "execution_request \<Rightarrow> execution_result \<Rightarrow> verifier_result \<Rightarrow> expected_binding \<Rightarrow> bool" where
  "bindings_match req r v x \<longleftrightarrow>
     py_eq (rq_repository_id req) (xb_repository x) \<and> py_eq (rq_base_commit req) (xb_commit x) \<and>
     py_eq (rs_snapshot_origin r) (xb_origin x) \<and> py_eq (rs_snapshot_tree_digest r) (xb_tree_digest x) \<and>
     py_eq (rs_snapshot_claim_digest r) (xb_claim_digest x) \<and>
     py_eq (vr_process_id v) (rq_process_id req) \<and> py_eq (vr_base_commit v) (rq_base_commit req) \<and>
     py_eq (vr_snapshot_tree_digest v) (rs_snapshot_tree_digest r) \<and>
     py_eq (vr_patch_digest v) (rs_patch_digest r) \<and>
     py_eq (vr_evidence_digest v) (rs_evidence_digest r) \<and>
     py_eq (vr_verification_digest v) (rs_verification_digest r) \<and>
     py_eq (vr_verified_contents_digest v) (rs_verified_contents_digest r)"

definition seed_of_execution ::
  "execution_request \<Rightarrow> execution_result \<Rightarrow> verifier_result \<Rightarrow> expected_binding \<Rightarrow> publication_seed" where
  "seed_of_execution req r v x =
     \<lparr>sd_process_id = rq_process_id req, sd_repository_id = rq_repository_id req,
      sd_base_commit = rq_base_commit req, sd_staged_change_digest = rs_staged_change_digest r,
      sd_verified_contents_digest = rs_verified_contents_digest r, sd_verifier_id = vr_verifier_id v,
      sd_verdict = PStr ''pass'', sd_replay_result_digest = vr_replay_result_digest v,
      sd_snapshot_tree_digest = rs_snapshot_tree_digest r, sd_snapshot_origin = rs_snapshot_origin r,
      sd_snapshot_claim_digest = xb_claim_digest x, sd_source_repository_id = PNone,
      sd_attestation_digest = rs_attestation_digest r, sd_attestation_key_id = rs_attestation_key_id r,
      sd_attestation_profile_digest = rs_attestation_profile_digest r,
      sd_trust_enrollment_digest = rs_trust_enrollment_digest r,
      sd_host_trust_decision_digest = rs_host_trust_decision_digest r\<rparr>"

text \<open>\<^verbatim>\<open>build_publication_seed\<close>.\<close>

definition build_publication_seed ::
  "execution_request option \<Rightarrow> execution_result option \<Rightarrow> publication_seed res" where
  "build_publication_seed request result =
     (case request of
        None \<Rightarrow> raise PublicationSeedError ''publication seed: execution request is invalid''
      | Some req \<Rightarrow> (case result of
        None \<Rightarrow> raise PublicationSeedError ''publication seed: execution result is invalid''
      | Some r \<Rightarrow>
          unless (rs_host_trust_established r \<noteq> PNone \<and> \<not> host_trust_ok r)
            (seed_error ''publication seed: signed verifier trust is not established'')
         (unless (rq_pinned_snapshot req = NoPin \<and> rq_remote_snapshot req = NoRemote)
            (seed_error ''publication seed: pinned snapshot is required'')
         (unless (rs_status r \<noteq> Some VERIFIED)
            (seed_error ''publication seed: execution status is not verified'')
         (case rs_verifier_result r of
            None \<Rightarrow> raise PublicationSeedError ''publication seed: verifier evidence is missing''
          | Some v \<Rightarrow>
              unless (vr_verdict v \<noteq> Some PASS) (seed_error ''publication seed: verifier verdict is not pass'')
             (unless (rs_staged_change_digest r = PNone \<or> rs_verified_contents_digest r = PNone)
                (seed_error ''publication seed: staged digest is missing'')
             (unless (\<not> hashable (rs_snapshot_origin r)) unhashable
             (unless (\<not> one_of (rs_snapshot_origin r) verified_origins \<or> rs_snapshot_tree_digest r = PNone)
                (seed_error ''publication seed: snapshot origin is unverified'')
             (rbind (check_each validate_digest
                [rs_patch_digest r, rs_evidence_digest r, rs_verification_digest r]) (\<lambda>_.
              unless (vr_evidence_origin v \<noteq> PStr ''local_test'' \<or> rs_evidence_origin r \<noteq> PStr ''local_test'')
                (seed_error ''publication seed: evidence origin is invalid'')
             (rbind (if vr_replay_result_digest v \<noteq> PNone \<or> rq_pinned_snapshot req \<noteq> NoPin
                then validate_digest (vr_replay_result_digest v) else Inr ()) (\<lambda>_.
              rbind (expected_of_request req r) (\<lambda>x.
              unless (\<not> bindings_match req r v x)
                (seed_error ''publication seed: execution binding mismatch'')
                (mk_publication_seed (seed_of_execution req r v x)))))))))))))))"

section \<open>Facts\<close>

lemma validate_digest_Inr [simp]: "validate_digest v = Inr u \<longleftrightarrow> (\<exists>s. v = PStr s \<and> is_digest s)"
  by (cases v) (simp_all add: validate_digest_def)

lemma validate_identity_Inr [simp]:
  "validate_identity v = Inr u \<longleftrightarrow>
     (\<exists>s. v = PStr s \<and> s \<noteq> [] \<and> \<not> strip_changes s \<and> \<not> any_char is_control s)"
  by (cases v) (auto simp: validate_identity_def)

lemma mk_publication_seed_Inr: "mk_publication_seed s = Inr t \<longleftrightarrow> t = s \<and> check_seed s = Inr ()"
  by (auto simp: mk_publication_seed_def)

text \<open>What every constructed seed satisfies.\<close>

definition seed_ok :: "publication_seed \<Rightarrow> bool" where
  "seed_ok s \<longleftrightarrow> nonempty_str (sd_process_id s) \<and> nonempty_str (sd_repository_id s) \<and>
     nonempty_str (sd_base_commit s) \<and>
     (\<exists>d. sd_staged_change_digest s = PStr d \<and> is_digest d) \<and>
     (\<exists>d. sd_verified_contents_digest s = PStr d \<and> is_digest d) \<and>
     one_of (sd_verdict s) verdicts \<and> one_of (sd_snapshot_origin s) snapshot_origins \<and>
     (sd_snapshot_origin s \<noteq> PStr ''unverified_local_test'' \<longrightarrow> sd_snapshot_tree_digest s \<noteq> PNone) \<and>
     (one_of (sd_snapshot_origin s) remote_origins \<longleftrightarrow> sd_snapshot_claim_digest s \<noteq> PNone) \<and>
     (sd_source_repository_id s \<noteq> PNone \<longrightarrow>
        (\<exists>b. mk_repository_target_binding (sd_source_repository_id s) (sd_repository_id s) = Inr b))"

lemma check_seed_ok: "check_seed s = Inr () \<Longrightarrow> seed_ok s"
  unfolding check_seed_def seed_ok_def optional_target_def
  by (auto simp: is_str_iff verified_origins_def snapshot_origins_def split: if_splits sum.splits)

end
