(* ===== verification/Publication_Intent.thy ===== *)
theory Publication_Intent
  imports Publication_Seed
begin

text \<open>
  The second half of \<^verbatim>\<open>src/app_contracts/publication_seed.py\<close>: branch names, the idempotency key and
  the publication intent. The key determines head branch, base branch and staged digest.
\<close>

section \<open>Branch names\<close>

definition forbidden_in_base :: "nat \<Rightarrow> bool" where
  "forbidden_in_base n \<longleftrightarrow> is_space n \<or> is_control n \<or> n \<in> {126, 94, 58, 63, 42, 91, 92}"

definition bad_base_part :: "string \<Rightarrow> bool" where
  "bad_base_part p \<longleftrightarrow> p \<in> {'''', ''.'', ''..''} \<or> endswith p ''.lock''"

text \<open>\<^verbatim>\<open>len(value.encode("utf-8"))\<close>, 256 for a text that cannot be encoded.\<close>

definition encoded_size :: "string \<Rightarrow> nat" where
  "encoded_size s = (if has_surrogate s then 256 else length s)"

definition validate_publication_base_branch :: "pyval \<Rightarrow> unit res" where
  "validate_publication_base_branch v =
     unless (\<not> nonempty_str v \<or> encoded_size (str_of v) > 255 \<or> strip_changes (str_of v)
       \<or> startswith (str_of v) ''-'' \<or> endswith (str_of v) ''/'' \<or> endswith (str_of v) ''.''
       \<or> contains ''//'' (str_of v) \<or> contains ''..'' (str_of v) \<or> contains [CHR ''@'', CHR 0x7B] (str_of v)
       \<or> any_char forbidden_in_base (str_of v)
       \<or> list_ex bad_base_part (split_on (CHR ''/'') (str_of v)))
       (seed_error ''publication intent: base branch is invalid'') (Inr ())"

definition branch_prefix :: string where
  "branch_prefix = ''agent/''"

definition validate_branch :: "pyval \<Rightarrow> unit res" where
  "validate_branch v =
     unless (\<not> nonempty_str v \<or> strip_changes (str_of v)
       \<or> any_char (\<lambda>n. is_space n \<or> is_control n) (str_of v)
       \<or> contains [CHR 0x5C] (str_of v) \<or> \<not> startswith (str_of v) branch_prefix)
       (seed_error ''publication intent: branch is invalid'')
    (unless (removeprefix branch_prefix (str_of v) = []
       \<or> list_ex (\<lambda>p. p = []) (split_on (CHR ''/'') (removeprefix branch_prefix (str_of v))))
       (seed_error ''publication intent: branch is invalid'') (Inr ()))"

section \<open>The idempotency key\<close>

definition key_text :: "string \<Rightarrow> string \<Rightarrow> string \<Rightarrow> string" where
  "key_text branch base digest =
     ''publish/'' @ quote_text (removeprefix branch_prefix branch) @ ''/'' @ quote_text base @ ''/'' @ digest"

text \<open>A branch that is not a string has no \<^verbatim>\<open>removeprefix\<close>; base branch and digest are strings
  wherever the code calls this.\<close>

definition publication_idempotency_key :: "pyval \<Rightarrow> string \<Rightarrow> string \<Rightarrow> string res" where
  "publication_idempotency_key branch base digest =
     (case branch of
        PStr b \<Rightarrow>
          rbind (quote (removeprefix branch_prefix b)) (\<lambda>h.
          rbind (quote base) (\<lambda>q. Inr (''publish/'' @ h @ ''/'' @ q @ ''/'' @ digest)))
      | _ \<Rightarrow> raise AttributeError ''no attribute removeprefix'')"

section \<open>The intent\<close>

record publication_intent =
  pi_process_id :: pyval
  pi_repository_id :: pyval
  pi_base_commit :: pyval
  pi_base_branch :: pyval
  pi_branch :: pyval
  pi_staged_change_digest :: pyval
  pi_idempotency_key :: pyval
  pi_source_repository_id :: pyval

text \<open>\<^verbatim>\<open>PublicationIntent.__post_init__\<close>.\<close>

definition check_intent :: "publication_intent \<Rightarrow> unit res" where
  "check_intent i =
     rbind (check_each validate_identity [pi_process_id i, pi_repository_id i, pi_base_commit i]) (\<lambda>_.
     rbind (optional_target ''publication intent: repository target binding is invalid''
        (pi_source_repository_id i) (pi_repository_id i)) (\<lambda>_.
     rbind (validate_publication_base_branch (pi_base_branch i)) (\<lambda>_.
     rbind (validate_branch (pi_branch i)) (\<lambda>_.
     rbind (validate_digest (pi_staged_change_digest i)) (\<lambda>_.
     rbind (publication_idempotency_key (pi_branch i) (str_of (pi_base_branch i))
        (str_of (pi_staged_change_digest i))) (\<lambda>k.
     unless (\<not> py_eq (pi_idempotency_key i) (PStr k))
       (seed_error ''publication intent: idempotency key mismatch'')
       (optional_target ''publication intent: repository target binding is invalid''
          (pi_source_repository_id i) (pi_repository_id i))))))))"

definition mk_publication_intent :: "publication_intent \<Rightarrow> publication_intent res" where
  "mk_publication_intent i = rbind (check_intent i) (\<lambda>_. Inr i)"

text \<open>\<^verbatim>\<open>derive_publication_intent\<close>; the seed has passed its constructor.\<close>

definition derive_publication_intent ::
  "publication_seed option \<Rightarrow> pyval \<Rightarrow> pyval \<Rightarrow> publication_intent res" where
  "derive_publication_intent seed branch base =
     (case seed of
        None \<Rightarrow> raise PublicationSeedError ''publication intent: seed is invalid''
      | Some s \<Rightarrow>
          rbind (validate_branch branch) (\<lambda>_.
          rbind (validate_publication_base_branch base) (\<lambda>_.
          rbind (publication_idempotency_key branch (str_of base) (str_of (sd_staged_change_digest s))) (\<lambda>k.
          mk_publication_intent
            \<lparr>pi_process_id = sd_process_id s, pi_repository_id = sd_repository_id s,
             pi_base_commit = sd_base_commit s, pi_base_branch = base, pi_branch = branch,
             pi_staged_change_digest = sd_staged_change_digest s, pi_idempotency_key = PStr k,
             pi_source_repository_id = sd_source_repository_id s\<rparr>))))"

section \<open>Facts\<close>

lemma validate_branch_Inr:
  "validate_branch v = Inr u \<Longrightarrow>
     \<exists>t. v = PStr (branch_prefix @ t) \<and> t \<noteq> [] \<and> \<not> any_char is_space (branch_prefix @ t)"
  by (auto simp: validate_branch_def nonempty_str_iff startswith_iff any_char_def list_ex_iff)

lemma validate_base_Inr:
  "validate_publication_base_branch v = Inr u \<Longrightarrow>
     \<exists>s. v = PStr s \<and> s \<noteq> [] \<and> \<not> has_surrogate s \<and> length s \<le> 255"
  by (auto simp: validate_publication_base_branch_def nonempty_str_iff encoded_size_def split: if_splits)

lemma key_Inr:
  "publication_idempotency_key v base d = Inr k \<longleftrightarrow>
     (\<exists>b. v = PStr b \<and> \<not> has_surrogate (removeprefix branch_prefix b) \<and> \<not> has_surrogate base \<and>
        k = key_text b base d)"
  by (cases v) (auto simp: publication_idempotency_key_def quote_Inr key_text_def)

lemma key_Inl_class:
  "publication_idempotency_key v base d = Inl e \<Longrightarrow> exn_class e \<in> {AttributeError, UnicodeEncodeError}"
  by (cases v) (auto simp: publication_idempotency_key_def rbind_Inl dest: quote_Inl)

lemma key_text_parts:
  assumes "key_text b base d = key_text b' base' d'"
  shows "removeprefix branch_prefix b = removeprefix branch_prefix b' \<and> base = base' \<and> d = d'"
  using assms by (auto simp: key_text_def dest!: quoted_prefix_unique)

lemma key_text_inject:
  assumes "key_text (branch_prefix @ t) base d = key_text (branch_prefix @ t') base' d'"
  shows "t = t' \<and> base = base' \<and> d = d'"
  using key_text_parts [OF assms] by simp

lemma key_text_namespace:
  "startswith (key_text b base d) ''publish/'' \<and> 8 < length (key_text b base d)"
  by (simp add: key_text_def)

lemma optional_target_Inr:
  "optional_target m src repo = Inr u \<longleftrightarrow>
     src = PNone \<or> (\<exists>b. mk_repository_target_binding src repo = Inr b)"
  by (auto simp: optional_target_def split: sum.splits)

lemma check_intent_Inr:
  "check_intent i = Inr u \<longleftrightarrow>
     validate_identity (pi_process_id i) = Inr () \<and> validate_identity (pi_repository_id i) = Inr () \<and>
     validate_identity (pi_base_commit i) = Inr () \<and>
     optional_target ''publication intent: repository target binding is invalid''
        (pi_source_repository_id i) (pi_repository_id i) = Inr () \<and>
     validate_publication_base_branch (pi_base_branch i) = Inr () \<and>
     validate_branch (pi_branch i) = Inr () \<and> validate_digest (pi_staged_change_digest i) = Inr () \<and>
     (\<exists>k. publication_idempotency_key (pi_branch i) (str_of (pi_base_branch i))
        (str_of (pi_staged_change_digest i)) = Inr k \<and> pi_idempotency_key i = PStr k)"
  by (auto simp: check_intent_def simp del: validate_identity_Inr validate_digest_Inr)

lemma mk_publication_intent_Inr:
  "mk_publication_intent i = Inr j \<longleftrightarrow> j = i \<and> check_intent i = Inr ()"
  by (auto simp: mk_publication_intent_def)

text \<open>The intent has the seed's identity and content, the branches asked for, and the key of both.\<close>

lemma derive_Inr:
  assumes "derive_publication_intent seed branch base = Inr i"
  obtains s b q where "seed = Some s" "branch = PStr b" "base = PStr q"
    "pi_process_id i = sd_process_id s" "pi_repository_id i = sd_repository_id s"
    "pi_base_commit i = sd_base_commit s" "pi_base_branch i = PStr q" "pi_branch i = PStr b"
    "pi_staged_change_digest i = sd_staged_change_digest s"
    "pi_idempotency_key i = PStr (key_text b q (str_of (sd_staged_change_digest s)))"
    "pi_source_repository_id i = sd_source_repository_id s" "check_intent i = Inr ()"
proof -
  from assms obtain s k where s: "seed = Some s" and v: "validate_branch branch = Inr ()"
    "validate_publication_base_branch base = Inr ()"
    and k: "publication_idempotency_key branch (str_of base) (str_of (sd_staged_change_digest s)) = Inr k"
    and i: "mk_publication_intent
            \<lparr>pi_process_id = sd_process_id s, pi_repository_id = sd_repository_id s,
             pi_base_commit = sd_base_commit s, pi_base_branch = base, pi_branch = branch,
             pi_staged_change_digest = sd_staged_change_digest s, pi_idempotency_key = PStr k,
             pi_source_repository_id = sd_source_repository_id s\<rparr> = Inr i"
    by (auto simp: derive_publication_intent_def split: option.splits)
  from v obtain b q where "branch = PStr b" "base = PStr q"
    by (auto dest!: validate_branch_Inr validate_base_Inr)
  with s k i show thesis
    using that [of s b q] by (auto simp: mk_publication_intent_Inr key_Inr)
qed

section \<open>Properties\<close>

text \<open>
  Claim C11: the idempotency key is content-bound. Two intents the constructor accepts that carry the
  same key have the same head branch, the same base branch and the same staged digest, so a
  publication recorded under a key cannot stand for another one.
\<close>

theorem equal_keys_same_publication:
  assumes "mk_publication_intent i = Inr i'" and "mk_publication_intent j = Inr j'"
    and "pi_idempotency_key i' = pi_idempotency_key j'"
  shows "pi_branch i' = pi_branch j' \<and> pi_base_branch i' = pi_base_branch j' \<and>
    pi_staged_change_digest i' = pi_staged_change_digest j'"
proof -
  have parts: "\<exists>t q d. pi_branch x = PStr (branch_prefix @ t) \<and> pi_base_branch x = PStr q \<and>
      pi_staged_change_digest x = PStr d \<and> pi_idempotency_key x = PStr (key_text (branch_prefix @ t) q d)"
    if "check_intent x = Inr ()" for x
    using that by (auto simp: check_intent_Inr key_Inr dest!: validate_branch_Inr validate_base_Inr)
  have "check_intent i' = Inr ()" "check_intent j' = Inr ()"
    using assms(1,2) by (simp_all add: mk_publication_intent_Inr)
  with parts [of i'] parts [of j'] assms(3) show ?thesis by (auto dest: key_text_inject)
qed

definition sample_digest :: string where
  "sample_digest = digest_of PNone"

lemma sample_digest: "is_digest sample_digest" "sample_digest \<noteq> []"
  using is_digest_digest_of [of PNone] is_digest_nonempty by (simp_all add: sample_digest_def)

definition sample_seed :: publication_seed where
  "sample_seed = \<lparr>sd_process_id = PStr ''process-1'', sd_repository_id = PStr ''owner/project'',
     sd_base_commit = PStr ''c0'', sd_staged_change_digest = PStr sample_digest,
     sd_verified_contents_digest = PStr sample_digest, sd_verifier_id = PStr ''verifier'',
     sd_verdict = PStr ''pass'', sd_replay_result_digest = PStr sample_digest,
     sd_snapshot_tree_digest = PStr sample_digest, sd_snapshot_origin = PStr ''local_git_commit'',
     sd_snapshot_claim_digest = PNone, sd_source_repository_id = PNone, sd_attestation_digest = PNone,
     sd_attestation_key_id = PNone, sd_attestation_profile_digest = PNone,
     sd_trust_enrollment_digest = PNone, sd_host_trust_decision_digest = PNone\<rparr>"

definition sample_intent :: publication_intent where
  "sample_intent = \<lparr>pi_process_id = PStr ''process-1'', pi_repository_id = PStr ''owner/project'',
     pi_base_commit = PStr ''c0'', pi_base_branch = PStr ''main'', pi_branch = PStr ''agent/x'',
     pi_staged_change_digest = PStr sample_digest,
     pi_idempotency_key = PStr (key_text ''agent/x'' ''main'' sample_digest),
     pi_source_repository_id = PNone\<rparr>"

lemma sample_base: "validate_publication_base_branch (PStr ''main'') = Inr ()"
  by (simp add: validate_publication_base_branch_def encoded_size_def forbidden_in_base_def
      bad_base_part_def text_eval)

lemma sample_branch: "validate_branch (PStr ''agent/x'') = Inr ()"
  by (simp add: validate_branch_def branch_prefix_def text_eval)

lemma sample_key: "publication_idempotency_key (PStr ''agent/x'') ''main'' sample_digest =
    Inr (key_text ''agent/x'' ''main'' sample_digest)"
  by (simp add: key_Inr branch_prefix_def text_eval)

lemma sample_intent_ok: "mk_publication_intent sample_intent = Inr sample_intent"
  by (simp add: mk_publication_intent_Inr check_intent_Inr sample_intent_def sample_base sample_branch
      sample_key sample_digest optional_target_def text_eval)

theorem equal_keys_same_publication_witness: "pi_branch sample_intent = pi_branch sample_intent"
  using equal_keys_same_publication [OF sample_intent_ok sample_intent_ok refl] by (rule conjunct1)

text \<open>
  Claim C12: an intent derived from a seed is the seed's publication. It names the seed's process,
  repository, base commit and staged digest, the branches asked for, which passed their checks, the
  key of exactly these, and the intent constructor accepts it.
\<close>

theorem derived_intent_is_seed_bound:
  assumes "derive_publication_intent (Some s) branch base = Inr i"
  shows "mk_publication_intent i = Inr i \<and>
    pi_process_id i = sd_process_id s \<and> pi_repository_id i = sd_repository_id s \<and>
    pi_base_commit i = sd_base_commit s \<and> pi_staged_change_digest i = sd_staged_change_digest s \<and>
    pi_source_repository_id i = sd_source_repository_id s \<and>
    pi_branch i = branch \<and> validate_branch branch = Inr () \<and>
    pi_base_branch i = base \<and> validate_publication_base_branch base = Inr () \<and>
    (\<exists>k. pi_idempotency_key i = PStr k \<and> startswith k ''publish/'' \<and>
       publication_idempotency_key branch (str_of base) (str_of (sd_staged_change_digest s)) = Inr k)"
  using assms
  by (rule derive_Inr) (auto simp: mk_publication_intent_Inr check_intent_Inr key_Inr key_text_namespace)

lemma sample_derive: "derive_publication_intent (Some sample_seed) (PStr ''agent/x'') (PStr ''main'') = Inr sample_intent"
proof -
  have "check_intent sample_intent = Inr ()" using sample_intent_ok by (simp add: mk_publication_intent_Inr)
  then show ?thesis
    by (simp add: derive_publication_intent_def sample_branch sample_base sample_key sample_seed_def
        mk_publication_intent_def sample_intent_def)
qed

theorem derived_intent_is_seed_bound_witness: "pi_process_id sample_intent = sd_process_id sample_seed"
  using derived_intent_is_seed_bound [OF sample_derive] by blast

text \<open>
  Deriving an intent succeeds for every constructed seed and every pair of branches that
  pass their checks, unless the head branch has a lone surrogate, which no key can encode.
\<close>

theorem derive_succeeds:
  assumes "mk_publication_seed s = Inr s'" "validate_branch (PStr b) = Inr ()"
    "validate_publication_base_branch (PStr q) = Inr ()" "\<not> has_surrogate b"
  shows "\<exists>i. derive_publication_intent (Some s') (PStr b) (PStr q) = Inr i"
proof -
  have seed: "check_seed s' = Inr ()" using assms(1) by (simp add: mk_publication_seed_Inr)
  then obtain d where d: "sd_staged_change_digest s' = PStr d" "is_digest d"
    by (auto simp: check_seed_def)
  have target: "optional_target m (sd_source_repository_id s') (sd_repository_id s') = Inr ()" for m
    using seed by (auto simp: check_seed_def optional_target_Inr)
  obtain t where b: "b = branch_prefix @ t" using validate_branch_Inr [OF assms(2)] by blast
  have "ascii branch_prefix" by (simp add: branch_prefix_def)
  with assms(4) have "\<not> has_surrogate t" by (simp add: b has_surrogate_ascii_append)
  with assms(3) have "publication_idempotency_key (PStr b) q d = Inr (key_text b q d)"
    by (auto simp: key_Inr b dest!: validate_base_Inr)
  with assms(2,3) d target seed show ?thesis
    by (auto simp: derive_publication_intent_def mk_publication_intent_def check_intent_Inr check_seed_def)
qed

lemma sample_seed_ok: "mk_publication_seed sample_seed = Inr sample_seed"
  by (simp add: mk_publication_seed_Inr check_seed_def sample_seed_def sample_digest optional_digest_def
      optional_target_def check_attestation_def attestation_fields_def validate_verifier_id_def is_key_id_def
      is_key_char_def verdicts_def snapshot_origins_def verified_origins_def remote_origins_def text_eval)

theorem derive_succeeds_witness:
  "\<exists>i. derive_publication_intent (Some sample_seed) (PStr ''agent/x'') (PStr ''main'') = Inr i"
  by (rule derive_succeeds [OF sample_seed_ok sample_branch sample_base]) (simp add: text_eval)

text \<open>On None and on texts the equality of Python is equality.\<close>

definition plain_value :: "pyval \<Rightarrow> bool" where
  "plain_value v \<longleftrightarrow> v = PNone \<or> is_str v"

lemma py_eq_plain: "plain_value a \<or> plain_value b \<Longrightarrow> py_eq a b \<longleftrightarrow> a = b"
  by (auto simp: plain_value_def is_str_iff split: pyval.splits)

lemma plain_PNone: "plain_value PNone" "plain_value (PStr t)"
  by (simp_all add: plain_value_def)

lemma check_seed_plain:
  assumes "check_seed s = Inr ()"
  shows "plain_value (sd_process_id s)" "plain_value (sd_repository_id s)" "plain_value (sd_base_commit s)"
    "plain_value (sd_verified_contents_digest s)" "plain_value (sd_snapshot_tree_digest s)"
    "plain_value (sd_snapshot_origin s)" "plain_value (sd_snapshot_claim_digest s)"
    "\<forall>v\<in>set (attestation_fields s). plain_value v"
proof -
  have o: "optional_digest v = Inr () \<Longrightarrow> plain_value v" for v
    by (auto simp: optional_digest_def plain_value_def split: if_splits)
  show "plain_value (sd_process_id s)" "plain_value (sd_repository_id s)" "plain_value (sd_base_commit s)"
    "plain_value (sd_verified_contents_digest s)" "plain_value (sd_snapshot_tree_digest s)"
    "plain_value (sd_snapshot_origin s)" "plain_value (sd_snapshot_claim_digest s)"
    using assms o unfolding check_seed_def by (auto simp: plain_value_def)
  have "check_attestation s = Inr ()" using assms by (simp add: check_seed_def)
  then show "\<forall>v\<in>set (attestation_fields s). plain_value v"
    by (auto simp: check_attestation_def attestation_fields_def plain_value_def is_str_iff split: if_splits)
qed

text \<open>What the execution was bound to, read off the snapshot of the request.\<close>

lemma expected_of_request_Inr:
  assumes "expected_of_request req r = Inr x"
  obtains p where "rq_pinned_snapshot req = Pin p" "x = \<lparr>xb_repository = pin_repository_id p,
        xb_commit = pin_commit_oid p, xb_tree_digest = pin_tree_digest p,
        xb_origin = PStr ''local_git_commit'', xb_claim_digest = PNone\<rparr>"
    | c d where "rq_pinned_snapshot req = NoPin" "rq_remote_snapshot req = Remote c"
        "cl_selected_paths c = None" "sha256_digest (claim_content c) = Inr d"
        "x = \<lparr>xb_repository = PStr (cl_owner c @ ''/'' @ cl_repository c), xb_commit = PStr (cl_commit_oid c),
          xb_tree_digest = PStr (cl_content_digest c), xb_origin = PStr (cl_evidence_origin c),
          xb_claim_digest = PStr d\<rparr>"
  using assms
  by (auto simp: expected_of_request_def full_snapshot_def github_claim_digest_def
      split: pin_arg.splits remote_arg.splits)

text \<open>The steps of a build that returned.\<close>

lemma build_Inr:
  assumes "build_publication_seed (Some req) (Some r) = Inr s"
  obtains v x where "rs_status r = Some VERIFIED" "rs_verifier_result r = Some v" "vr_verdict v = Some PASS"
    "vr_evidence_origin v = PStr ''local_test''" "rs_evidence_origin r = PStr ''local_test''"
    "rs_host_trust_established r = PNone \<or> host_trust_ok r"
    "plain_value (rs_patch_digest r)" "plain_value (rs_evidence_digest r)" "plain_value (rs_verification_digest r)"
    "expected_of_request req r = Inr x" "bindings_match req r v x" "s = seed_of_execution req r v x"
    "check_seed s = Inr ()"
  using assms
  by (auto simp: build_publication_seed_def mk_publication_seed_Inr plain_value_def split: option.splits)

text \<open>
  Claim C13: a seed comes only from a verified execution. When \<^verbatim>\<open>build_publication_seed\<close> returns one,
  the result is VERIFIED with a passing verifier and local evidence; the verifier's report and the result
  name the same patch, evidence and verification digests, and the report names the seed's process, commit,
  snapshot tree and contents; the seed's repository, commit, tree, origin and claim digest are those of the
  request's pin or, without a pin, of its remote claim, which is complete and whose digest is the one the
  seed carries; all the seed's values are the request's, the result's and the report's; any claimed host trust
  rests on a decision token that names the seed's digests; and the seed passes its own constructor.
\<close>

theorem seed_only_from_verified_execution:
  assumes "build_publication_seed (Some req) (Some r) = Inr s"
  shows "rs_status r = Some VERIFIED \<and>
    (\<exists>v. rs_verifier_result r = Some v \<and> vr_verdict v = Some PASS \<and>
       vr_evidence_origin v = PStr ''local_test'' \<and> rs_evidence_origin r = PStr ''local_test'' \<and>
       vr_patch_digest v = rs_patch_digest r \<and> vr_evidence_digest v = rs_evidence_digest r \<and>
       vr_verification_digest v = rs_verification_digest r \<and>
       vr_process_id v = sd_process_id s \<and> vr_base_commit v = sd_base_commit s \<and>
       vr_snapshot_tree_digest v = sd_snapshot_tree_digest s \<and>
       vr_verified_contents_digest v = sd_verified_contents_digest s \<and>
       vr_verifier_id v = sd_verifier_id s \<and> vr_replay_result_digest v = sd_replay_result_digest s) \<and>
    (case rq_pinned_snapshot req of
       Pin p \<Rightarrow> pin_repository_id p = sd_repository_id s \<and> pin_commit_oid p = sd_base_commit s \<and>
         pin_tree_digest p = sd_snapshot_tree_digest s \<and> sd_snapshot_origin s = PStr ''local_git_commit'' \<and>
         sd_snapshot_claim_digest s = PNone
     | OtherPin \<Rightarrow> False
     | NoPin \<Rightarrow> (\<exists>c d. rq_remote_snapshot req = Remote c \<and> cl_selected_paths c = None \<and>
         sd_repository_id s = PStr (cl_owner c @ ''/'' @ cl_repository c) \<and>
         sd_base_commit s = PStr (cl_commit_oid c) \<and> sd_snapshot_tree_digest s = PStr (cl_content_digest c) \<and>
         sd_snapshot_origin s = PStr (cl_evidence_origin c) \<and> sd_snapshot_claim_digest s = PStr d \<and>
         sha256_digest (claim_content c) = Inr d)) \<and>
    sd_process_id s = rq_process_id req \<and> sd_repository_id s = rq_repository_id req \<and>
    sd_base_commit s = rq_base_commit req \<and> sd_staged_change_digest s = rs_staged_change_digest r \<and>
    sd_verified_contents_digest s = rs_verified_contents_digest r \<and>
    sd_snapshot_tree_digest s = rs_snapshot_tree_digest r \<and> sd_snapshot_origin s = rs_snapshot_origin r \<and>
    sd_snapshot_claim_digest s = rs_snapshot_claim_digest r \<and> sd_verdict s = PStr ''pass'' \<and>
    (rs_host_trust_established r \<noteq> PNone \<longrightarrow>
       rs_signature_valid r = PBool True \<and> rs_host_trust_established r = PBool True \<and>
       (\<exists>d. rs_host_trust_decision r = Some d \<and> td_token_ok d \<and>
          td_decision_digest d = sd_host_trust_decision_digest s \<and>
          td_enrollment_digest d = sd_trust_enrollment_digest s \<and>
          td_verifier_key_id d = sd_attestation_key_id s \<and>
          td_verifier_profile_digest d = sd_attestation_profile_digest s)) \<and>
    mk_publication_seed s = Inr s \<and> seed_ok s"
proof -
  from assms obtain v x where b: "rs_status r = Some VERIFIED" "rs_verifier_result r = Some v"
    "vr_verdict v = Some PASS" "vr_evidence_origin v = PStr ''local_test''" "rs_evidence_origin r = PStr ''local_test''"
    and h: "rs_host_trust_established r = PNone \<or> host_trust_ok r"
    and p: "plain_value (rs_patch_digest r)" "plain_value (rs_evidence_digest r)" "plain_value (rs_verification_digest r)"
    and x: "expected_of_request req r = Inr x" and m: "bindings_match req r v x"
    and s: "s = seed_of_execution req r v x" and c: "check_seed s = Inr ()" by (rule build_Inr)
  note plain = check_seed_plain [OF c]
  have f: "sd_process_id s = rq_process_id req" "sd_repository_id s = rq_repository_id req"
    "sd_base_commit s = rq_base_commit req" "sd_staged_change_digest s = rs_staged_change_digest r"
    "sd_verified_contents_digest s = rs_verified_contents_digest r" "sd_verifier_id s = vr_verifier_id v"
    "sd_verdict s = PStr ''pass''" "sd_replay_result_digest s = vr_replay_result_digest v"
    "sd_snapshot_tree_digest s = rs_snapshot_tree_digest r" "sd_snapshot_origin s = rs_snapshot_origin r"
    "sd_snapshot_claim_digest s = xb_claim_digest x" "sd_attestation_key_id s = rs_attestation_key_id r"
    "sd_attestation_profile_digest s = rs_attestation_profile_digest r"
    "sd_trust_enrollment_digest s = rs_trust_enrollment_digest r"
    "sd_host_trust_decision_digest s = rs_host_trust_decision_digest r"
    by (simp_all add: s seed_of_execution_def)
  have e: "xb_repository x = rq_repository_id req" "xb_commit x = rq_base_commit req"
    "xb_origin x = rs_snapshot_origin r" "xb_tree_digest x = rs_snapshot_tree_digest r"
    "xb_claim_digest x = rs_snapshot_claim_digest r"
    "vr_process_id v = rq_process_id req" "vr_base_commit v = rq_base_commit req"
    "vr_snapshot_tree_digest v = rs_snapshot_tree_digest r" "vr_patch_digest v = rs_patch_digest r"
    "vr_evidence_digest v = rs_evidence_digest r" "vr_verification_digest v = rs_verification_digest r"
    "vr_verified_contents_digest v = rs_verified_contents_digest r"
    using m p plain f by (simp_all add: bindings_match_def py_eq_plain)
  have t: "rs_host_trust_established r \<noteq> PNone \<longrightarrow>
       rs_signature_valid r = PBool True \<and> rs_host_trust_established r = PBool True \<and>
       (\<exists>d. rs_host_trust_decision r = Some d \<and> td_token_ok d \<and>
          td_decision_digest d = sd_host_trust_decision_digest s \<and>
          td_enrollment_digest d = sd_trust_enrollment_digest s \<and>
          td_verifier_key_id d = sd_attestation_key_id s \<and>
          td_verifier_profile_digest d = sd_attestation_profile_digest s)"
    using h plain(8) f(12-15)
    by (auto simp: host_trust_ok_def attestation_fields_def py_eq_plain split: option.splits)
  have o: "mk_publication_seed s = Inr s" "seed_ok s"
    using c by (simp_all add: mk_publication_seed_Inr check_seed_ok)
  have "case rq_pinned_snapshot req of
       Pin p \<Rightarrow> pin_repository_id p = sd_repository_id s \<and> pin_commit_oid p = sd_base_commit s \<and>
         pin_tree_digest p = sd_snapshot_tree_digest s \<and> sd_snapshot_origin s = PStr ''local_git_commit'' \<and>
         sd_snapshot_claim_digest s = PNone
     | OtherPin \<Rightarrow> False
     | NoPin \<Rightarrow> (\<exists>c d. rq_remote_snapshot req = Remote c \<and> cl_selected_paths c = None \<and>
         sd_repository_id s = PStr (cl_owner c @ ''/'' @ cl_repository c) \<and>
         sd_base_commit s = PStr (cl_commit_oid c) \<and> sd_snapshot_tree_digest s = PStr (cl_content_digest c) \<and>
         sd_snapshot_origin s = PStr (cl_evidence_origin c) \<and> sd_snapshot_claim_digest s = PStr d \<and>
         sha256_digest (claim_content c) = Inr d)"
    using x e(1-4) f(2,3,9-11) by (elim expected_of_request_Inr) auto
  then show ?thesis using b t o e f by simp
qed

definition sample_request :: execution_request where
  "sample_request = \<lparr>rq_process_id = PStr ''process-1'', rq_repository_id = PStr ''owner/project'',
     rq_base_commit = PStr ''c0'',
     rq_pinned_snapshot = Pin \<lparr>pin_repository_id = PStr ''owner/project'', pin_commit_oid = PStr ''c0'',
       pin_tree_digest = PStr sample_digest\<rparr>,
     rq_remote_snapshot = NoRemote\<rparr>"

definition sample_report :: verifier_result where
  "sample_report = \<lparr>vr_process_id = PStr ''process-1'', vr_base_commit = PStr ''c0'',
     vr_snapshot_tree_digest = PStr sample_digest, vr_replay_result_digest = PStr sample_digest,
     vr_verifier_id = PStr ''verifier'', vr_patch_digest = PStr sample_digest,
     vr_evidence_digest = PStr sample_digest, vr_verification_digest = PStr sample_digest,
     vr_verified_contents_digest = PStr sample_digest, vr_verdict = Some PASS,
     vr_evidence_origin = PStr ''local_test''\<rparr>"

definition sample_result :: execution_result where
  "sample_result = \<lparr>rs_status = Some VERIFIED, rs_patch_digest = PStr sample_digest,
     rs_evidence_digest = PStr sample_digest, rs_verification_digest = PStr sample_digest,
     rs_verified_contents_digest = PStr sample_digest, rs_staged_change_digest = PStr sample_digest,
     rs_snapshot_tree_digest = PStr sample_digest, rs_snapshot_origin = PStr ''local_git_commit'',
     rs_verifier_result = Some sample_report, rs_evidence_origin = PStr ''local_test'',
     rs_snapshot_claim_digest = PNone, rs_attestation_digest = PNone, rs_attestation_key_id = PNone,
     rs_attestation_profile_digest = PNone, rs_trust_enrollment_digest = PNone,
     rs_host_trust_decision_digest = PNone, rs_host_trust_decision = None, rs_signature_valid = PNone,
     rs_host_trust_established = PNone\<rparr>"

lemma sample_build: "build_publication_seed (Some sample_request) (Some sample_result) = Inr sample_seed"
proof -
  have "seed_of_execution sample_request sample_result sample_report
      \<lparr>xb_repository = PStr ''owner/project'', xb_commit = PStr ''c0'', xb_tree_digest = PStr sample_digest,
       xb_origin = PStr ''local_git_commit'', xb_claim_digest = PNone\<rparr> = sample_seed"
    by (simp add: seed_of_execution_def sample_request_def sample_result_def sample_report_def sample_seed_def)
  with sample_seed_ok show ?thesis
    by (simp add: build_publication_seed_def expected_of_request_def bindings_match_def sample_request_def
        sample_result_def sample_report_def sample_digest verified_origins_def)
qed

theorem seed_only_from_verified_execution_witness:
  "build_publication_seed (Some sample_request) (Some sample_result) = Inr sample_seed \<and>
   rs_status sample_result = Some VERIFIED \<and> vr_patch_digest sample_report = rs_patch_digest sample_result \<and>
   sd_snapshot_origin sample_seed = PStr ''local_git_commit'' \<and>
   sd_staged_change_digest sample_seed = rs_staged_change_digest sample_result \<and> seed_ok sample_seed"
proof -
  note seed = seed_only_from_verified_execution [OF sample_build]
  have v: "rs_verifier_result sample_result = Some sample_report"
    and o: "rs_snapshot_origin sample_result = PStr ''local_git_commit''" by (simp_all add: sample_result_def)
  from seed obtain w where "rs_verifier_result sample_result = Some w" "vr_patch_digest w = rs_patch_digest sample_result"
    by blast
  with v have "vr_patch_digest sample_report = rs_patch_digest sample_result" by simp
  moreover have "sd_snapshot_origin sample_seed = rs_snapshot_origin sample_result" using seed by blast
  ultimately show ?thesis using seed sample_build o by (metis (lifting))
qed

end
