(* ===== verification/Mock_Github.thy ===== *)
theory Mock_Github
  imports Publication_Intent
begin

text \<open>
  \<^verbatim>\<open>src/app_contracts/mock_github.py\<close>: the in-memory GitHub boundary. Its state is the dictionary
  from idempotency keys to pull requests. The theory also states the interface of an endpoint
  (\<open>publication_endpoint\<close>) that the publication journal relies on, and shows the mock provides it.
\<close>

section \<open>State and operations\<close>

record mock_pull_request =
  pr_id :: int
  pr_repository_id :: string
  pr_branch :: string
  pr_staged_change_digest :: string
  pr_idempotency_key :: string
  pr_base_branch :: string

type_synonym endpoint = "(string \<times> mock_pull_request) list"

abbreviation contract_error :: "string \<Rightarrow> exn" where
  "contract_error m \<equiv> Exn ContractValidationError m"

definition request_keys :: "string list" where
  "request_keys = [''operation'', ''repository_id'', ''branch'', ''base_branch'',
     ''staged_change_digest'', ''idempotency_key'', ''policy_effect'', ''approval_valid'']"

definition text_keys :: "string list" where
  "text_keys = [''repository_id'', ''branch'', ''base_branch'', ''staged_change_digest'', ''idempotency_key'']"

text \<open>\<^verbatim>\<open>try: validate_publication_base_branch(v) except Exception: raise ContractValidationError\<close>.\<close>

definition require_base_branch :: "string \<Rightarrow> pyval \<Rightarrow> unit res" where
  "require_base_branch msg v = rcatch (validate_publication_base_branch v) (\<lambda>_. Inl (contract_error msg))"

text \<open>The checks of \<^verbatim>\<open>publish_pull_request\<close> before it looks at its state.\<close>

definition check_publish_request :: "pyval \<Rightarrow> unit res" where
  "check_publish_request r =
     unless (\<not> is_dict r \<or> \<not> keys_are r request_keys) (contract_error ''mock github: request shape mismatch'')
    (unless (fld r ''operation'' \<noteq> PStr ''publish_pull_request'')
       (contract_error ''mock github: operation is not registered'')
    (unless (fld r ''policy_effect'' \<noteq> PStr ''allow'' \<or> fld r ''approval_valid'' \<noteq> PBool True)
       (contract_error ''mock github: authority proof is invalid'')
    (rbind (check_each (\<lambda>k. unless (\<not> nonempty_str (fld r k))
         (contract_error ''mock github: boundary field is invalid'') (Inr ())) text_keys) (\<lambda>_.
     unless (\<not> startswith (str_of (fld r ''branch'')) branch_prefix
         \<or> py_len (str_of (fld r ''branch'')) \<le> py_len branch_prefix)
       (contract_error ''mock github: branch is outside the agent namespace'')
    (rbind (require_base_branch ''mock github: base branch is invalid'' (fld r ''base_branch'')) (\<lambda>_.
     unless (\<not> is_digest (str_of (fld r ''staged_change_digest'')))
       (contract_error ''mock github: digest is malformed'')
    (rbind (publication_idempotency_key (fld r ''branch'') (str_of (fld r ''base_branch''))
         (str_of (fld r ''staged_change_digest''))) (\<lambda>k.
     unless (fld r ''idempotency_key'' \<noteq> PStr k)
       (contract_error ''mock github: idempotency key mismatch'') (Inr ())))))))))"

definition pull_request_of :: "int \<Rightarrow> pyval \<Rightarrow> mock_pull_request" where
  "pull_request_of n r =
     \<lparr>pr_id = n, pr_repository_id = str_of (fld r ''repository_id''), pr_branch = str_of (fld r ''branch''),
      pr_staged_change_digest = str_of (fld r ''staged_change_digest''),
      pr_idempotency_key = str_of (fld r ''idempotency_key''),
      pr_base_branch = str_of (fld r ''base_branch'')\<rparr>"

definition publish_pull_request :: "pyval \<Rightarrow> (endpoint, mock_pull_request) eff" where
  "publish_pull_request r e =
     (case check_publish_request r of
        Inl x \<Rightarrow> (Inl x, e)
      | Inr _ \<Rightarrow>
          (case map_of e (str_of (fld r ''idempotency_key'')) of
             Some pr \<Rightarrow>
               (if pr_repository_id pr \<noteq> str_of (fld r ''repository_id'')
                   \<or> pr_branch pr \<noteq> str_of (fld r ''branch'')
                   \<or> pr_base_branch pr \<noteq> str_of (fld r ''base_branch'')
                   \<or> pr_staged_change_digest pr \<noteq> str_of (fld r ''staged_change_digest'')
                then (Inl (contract_error ''mock github: idempotency conflict''), e)
                else (Inr pr, e))
           | None \<Rightarrow>
               (let pr = pull_request_of (int (length e) + 1) r
                in (Inr pr, e @ [(pr_idempotency_key pr, pr)]))))"

definition find_by_idempotency_key ::
  "pyval \<Rightarrow> pyval \<Rightarrow> pyval \<Rightarrow> endpoint \<Rightarrow> mock_pull_request option res" where
  "find_by_idempotency_key key repo base e =
     unless (\<not> nonempty_str key) (contract_error ''mock github: lookup key is invalid'')
    (unless (\<not> startswith (str_of key) ''publish/'' \<or> py_len (str_of key) \<le> py_len ''publish/'')
       (contract_error ''mock github: lookup key is outside the publication namespace'')
    (unless (repo \<noteq> PNone \<and> \<not> nonempty_str repo)
       (contract_error ''mock github: lookup repository is invalid'')
    (case map_of e (str_of key) of
       None \<Rightarrow> Inr None
     | Some pr \<Rightarrow>
         rbind (if base = PNone then Inr True
           else rbind (require_base_branch ''mock github: lookup base branch is invalid'' base) (\<lambda>_.
             rbind (publication_idempotency_key (PStr (pr_branch pr)) (str_of base)
                 (pr_staged_change_digest pr)) (\<lambda>k.
             Inr (k = str_of key \<and> pr_base_branch pr = str_of base)))) (\<lambda>ok.
         Inr (if \<not> ok \<or> (repo \<noteq> PNone \<and> PStr (pr_repository_id pr) \<noteq> repo) then None else Some pr)))))"

section \<open>The endpoint invariant\<close>

text \<open>Every entry is the pull request of its own key, and the numbers are 1, 2, 3, ...\<close>

definition entry_ok :: "string \<times> mock_pull_request \<Rightarrow> bool" where
  "entry_ok x \<longleftrightarrow> fst x = pr_idempotency_key (snd x) \<and>
     publication_idempotency_key (PStr (pr_branch (snd x))) (pr_base_branch (snd x))
       (pr_staged_change_digest (snd x)) = Inr (fst x) \<and>
     validate_publication_base_branch (PStr (pr_base_branch (snd x))) = Inr () \<and>
     pr_repository_id (snd x) \<noteq> []"

definition endpoint_ok :: "endpoint \<Rightarrow> bool" where
  "endpoint_ok e \<longleftrightarrow> distinct (map fst e) \<and> list_all entry_ok e \<and>
     map (\<lambda>x. pr_id (snd x)) e = map (\<lambda>n. int n + 1) [0..<length e]"

lemma endpoint_ok_empty: "endpoint_ok []"
  by (simp add: endpoint_ok_def)

text \<open>The texts of a request that passed.\<close>

lemma check_publish_request_Inr:
  assumes "check_publish_request r = Inr u"
  obtains repo t base d where "is_dict r"
    "fld r ''repository_id'' = PStr repo" "fld r ''branch'' = PStr (branch_prefix @ t)"
    "fld r ''base_branch'' = PStr base" "fld r ''staged_change_digest'' = PStr d"
    "fld r ''idempotency_key'' = PStr (key_text (branch_prefix @ t) base d)"
    "publication_idempotency_key (PStr (branch_prefix @ t)) base d = Inr (key_text (branch_prefix @ t) base d)"
    "validate_publication_base_branch (PStr base) = Inr ()" "is_digest d" "repo \<noteq> []" "t \<noteq> []"
    "fld r ''policy_effect'' = PStr ''allow''" "fld r ''approval_valid'' = PBool True"
    "fld r ''operation'' = PStr ''publish_pull_request''"
proof -
  from assms obtain k where c: "is_dict r" "fld r ''policy_effect'' = PStr ''allow''"
      "fld r ''approval_valid'' = PBool True" "fld r ''operation'' = PStr ''publish_pull_request''"
      "nonempty_str (fld r ''repository_id'')" "nonempty_str (fld r ''branch'')"
      "nonempty_str (fld r ''base_branch'')" "nonempty_str (fld r ''staged_change_digest'')"
      "startswith (str_of (fld r ''branch'')) branch_prefix"
      "\<not> py_len (str_of (fld r ''branch'')) \<le> py_len branch_prefix"
      "validate_publication_base_branch (fld r ''base_branch'') = Inr ()"
      "is_digest (str_of (fld r ''staged_change_digest''))" "fld r ''idempotency_key'' = PStr k"
      "publication_idempotency_key (fld r ''branch'') (str_of (fld r ''base_branch''))
         (str_of (fld r ''staged_change_digest'')) = Inr k"
    by (auto simp: check_publish_request_def text_keys_def require_base_branch_def rcatch_Inr)
  then obtain repo b base d where r: "fld r ''repository_id'' = PStr repo" "fld r ''branch'' = PStr b"
      "fld r ''base_branch'' = PStr base" "fld r ''staged_change_digest'' = PStr d" "repo \<noteq> []"
    by (auto simp: nonempty_str_iff)
  with c obtain t where b: "b = branch_prefix @ t" by (auto simp: startswith_iff)
  moreover have "t \<noteq> []" using c r b by auto
  ultimately show thesis using c r that [of repo t base d] by (auto simp: key_Inr)
qed

lemma publish_Inr:
  assumes "publish_pull_request r e = (Inr pr, e')"
  shows "check_publish_request r = Inr () \<and>
    ((map_of e (str_of (fld r ''idempotency_key'')) = Some pr \<and> e' = e \<and>
        pr_repository_id pr = str_of (fld r ''repository_id'') \<and> pr_branch pr = str_of (fld r ''branch'') \<and>
        pr_base_branch pr = str_of (fld r ''base_branch'') \<and>
        pr_staged_change_digest pr = str_of (fld r ''staged_change_digest'')) \<or>
     (map_of e (str_of (fld r ''idempotency_key'')) = None \<and> pr = pull_request_of (int (length e) + 1) r \<and>
        e' = e @ [(pr_idempotency_key pr, pr)]))"
  using assms by (auto simp: publish_pull_request_def Let_def split: sum.splits option.splits if_splits)

lemma publish_Inl: "publish_pull_request r e = (Inl x, e') \<Longrightarrow> e' = e"
  by (auto simp: publish_pull_request_def Let_def split: sum.splits option.splits if_splits)

lemma publish_entry_ok:
  assumes "check_publish_request r = Inr ()"
  shows "entry_ok (pr_idempotency_key (pull_request_of n r), pull_request_of n r)"
  using assms by (rule check_publish_request_Inr) (simp add: entry_ok_def pull_request_of_def)

lemma publish_endpoint_ok:
  assumes "endpoint_ok e" "publish_pull_request r e = (res, e')"
  shows "endpoint_ok e'"
proof (cases res)
  case (Inl x)
  with assms publish_Inl show ?thesis by blast
next
  case (Inr pr)
  with assms publish_Inr have p: "check_publish_request r = Inr ()" and
    "e' = e \<or> (map_of e (str_of (fld r ''idempotency_key'')) = None \<and> pr = pull_request_of (int (length e) + 1) r \<and>
        e' = e @ [(pr_idempotency_key pr, pr)])" by blast+
  then consider "e' = e" | "map_of e (pr_idempotency_key pr) = None"
      "pr = pull_request_of (int (length e) + 1) r" "e' = e @ [(pr_idempotency_key pr, pr)]"
    by (auto simp: pull_request_of_def)
  then show ?thesis
  proof cases
    case 1
    with assms show ?thesis by simp
  next
    case 2
    have "entry_ok (pr_idempotency_key pr, pr)" using publish_entry_ok [OF p] 2(2) by simp
    moreover have "pr_idempotency_key pr \<notin> fst ` set e" using 2(1) by (simp add: map_of_eq_None_iff)
    moreover have "pr_id pr = int (length e) + 1" using 2(2) by (simp add: pull_request_of_def)
    ultimately show ?thesis using assms(1) 2(3) by (simp add: endpoint_ok_def)
  qed
qed

section \<open>The interface of an endpoint\<close>

text \<open>
  \<open>publishes pr r\<close>: the receipt belongs to the request. An endpoint returns a receipt of the
  request; afterwards the lookup of the request's key, repository and base branch finds it; nothing
  that was published gets lost; a failed publication changes nothing.
\<close>

definition publishes :: "mock_pull_request \<Rightarrow> pyval \<Rightarrow> bool" where
  "publishes pr r \<longleftrightarrow> fld r ''repository_id'' = PStr (pr_repository_id pr) \<and>
     fld r ''branch'' = PStr (pr_branch pr) \<and> fld r ''base_branch'' = PStr (pr_base_branch pr) \<and>
     fld r ''staged_change_digest'' = PStr (pr_staged_change_digest pr) \<and>
     fld r ''idempotency_key'' = PStr (pr_idempotency_key pr)"

locale publication_endpoint =
  fixes publish :: "pyval \<Rightarrow> ('e, mock_pull_request) eff"
    and find :: "pyval \<Rightarrow> pyval \<Rightarrow> pyval \<Rightarrow> 'e \<Rightarrow> mock_pull_request option res"
    and inv :: "'e \<Rightarrow> bool"
    and receipts :: "'e \<Rightarrow> mock_pull_request set"
  assumes publish_receipt: "inv e \<Longrightarrow> publish r e = (Inr pr, e') \<Longrightarrow>
      inv e' \<and> publishes pr r \<and> receipts e' = insert pr (receipts e)"
    and publish_failed: "publish r e = (Inl x, e') \<Longrightarrow> e' = e"
    and find_published: "inv e \<Longrightarrow> pr \<in> receipts e \<Longrightarrow>
      find (PStr (pr_idempotency_key pr)) (PStr (pr_repository_id pr)) (PStr (pr_base_branch pr)) e
        = Inr (Some pr)"
    and find_sound: "inv e \<Longrightarrow> find (PStr k) (PStr repo) (PStr base) e = Inr (Some pr) \<Longrightarrow>
      pr \<in> receipts e \<and> pr_idempotency_key pr = k \<and> pr_repository_id pr = repo \<and> pr_base_branch pr = base"
begin

text \<open>A retry of a request that was published finds the receipt of the first time.\<close>

lemma published_is_found:
  assumes "inv e" "publish r e = (Inr pr, e')"
  shows "find (fld r ''idempotency_key'') (fld r ''repository_id'') (fld r ''base_branch'') e' = Inr (Some pr)"
  using publish_receipt [OF assms] find_published [of e' pr] by (auto simp: publishes_def)

lemma one_receipt_per_publication:
  assumes "inv e" "pr \<in> receipts e" "pr' \<in> receipts e"
    "pr_idempotency_key pr = pr_idempotency_key pr'" "pr_repository_id pr = pr_repository_id pr'"
    "pr_base_branch pr = pr_base_branch pr'"
  shows "pr = pr'"
  using trans [OF find_published [OF assms(1,2), unfolded assms(4-6), symmetric] find_published [OF assms(1,3)]]
  by blast

lemma retry_returns_same:
  assumes "inv e" "publish r e = (Inr pr, e1)" "publish r e1 = (Inr pr2, e2)"
  shows "pr2 = pr \<and> receipts e2 = receipts e1"
proof -
  from publish_receipt [OF assms(1,2)] have 1: "inv e1" "publishes pr r" "pr \<in> receipts e1" by auto
  with publish_receipt [OF 1(1) assms(3)] have 2: "inv e2" "publishes pr2 r"
    "receipts e2 = insert pr2 (receipts e1)" by auto
  with 1 have "pr2 = pr" by (intro one_receipt_per_publication [of e2]) (auto simp: publishes_def)
  with 1 2 show ?thesis by auto
qed

end

definition endpoint_receipts :: "endpoint \<Rightarrow> mock_pull_request set" where
  "endpoint_receipts e = set (map snd e)"

lemma publish_publishes:
  assumes "endpoint_ok e" "publish_pull_request r e = (Inr pr, e')"
  shows "publishes pr r \<and> endpoint_receipts e' = insert pr (endpoint_receipts e)"
proof -
  from publish_Inr [OF assms(2)] have c: "check_publish_request r = Inr ()" by blast
  then obtain k where k: "fld r ''idempotency_key'' = PStr k" by (elim check_publish_request_Inr) blast
  from publish_Inr [OF assms(2)] consider
      "map_of e k = Some pr" "e' = e" "pr_repository_id pr = str_of (fld r ''repository_id'')"
      "pr_branch pr = str_of (fld r ''branch'')" "pr_base_branch pr = str_of (fld r ''base_branch'')"
      "pr_staged_change_digest pr = str_of (fld r ''staged_change_digest'')"
    | "pr = pull_request_of (int (length e) + 1) r" "e' = e @ [(pr_idempotency_key pr, pr)]"
    using k by auto
  then show ?thesis
  proof cases
    case 1
    from 1(1) have "(k, pr) \<in> set e" by (rule map_of_SomeD)
    then have "pr_idempotency_key pr = k" "pr \<in> endpoint_receipts e"
      using assms(1) by (force simp: endpoint_ok_def list_all_iff entry_ok_def endpoint_receipts_def)+
    with 1 k c show ?thesis
      by (auto simp: publishes_def insert_absorb elim!: check_publish_request_Inr)
  next
    case 2
    from c 2 show ?thesis
      by (auto simp: publishes_def pull_request_of_def endpoint_receipts_def elim!: check_publish_request_Inr)
  qed
qed

lemma endpoint_lookup:
  assumes "endpoint_ok e" "pr \<in> endpoint_receipts e"
  shows "map_of e (pr_idempotency_key pr) = Some pr \<and> entry_ok (pr_idempotency_key pr, pr)"
proof -
  from assms(2) obtain k where "(k, pr) \<in> set e" by (auto simp: endpoint_receipts_def)
  with assms(1) have "entry_ok (k, pr)" "map_of e k = Some pr"
    by (auto simp: endpoint_ok_def list_all_iff)
  then show ?thesis by (auto simp: entry_ok_def)
qed

lemma entry_ok_key: "entry_ok (k, pr) \<Longrightarrow> k = key_text (pr_branch pr) (pr_base_branch pr) (pr_staged_change_digest pr)"
  by (auto simp: entry_ok_def key_Inr)

lemma key_text_nonempty: "key_text b q d \<noteq> []"
  by (simp add: key_text_def)

lemma key_text_long: "\<not> py_len (key_text b q d) \<le> py_len ''publish/''"
proof -
  have "py_len (''publish/'' @ quote_text (removeprefix branch_prefix b) @ ''/'' @ quote_text q @ ''/'' @ d) =
      length ''publish/'' + py_len (quote_text (removeprefix branch_prefix b) @ ''/'' @ quote_text q @ ''/'' @ d)"
    by (rule py_len_ascii_append) simp
  moreover have "py_len (quote_text (removeprefix branch_prefix b) @ ''/'' @ quote_text q @ ''/'' @ d) \<noteq> 0"
    by simp
  moreover have "py_len ''publish/'' = length ''publish/''" by (simp add: py_len_ascii)
  ultimately show ?thesis unfolding key_text_def by linarith
qed

lemma find_entry:
  assumes "endpoint_ok e" "pr \<in> endpoint_receipts e"
  shows "find_by_idempotency_key (PStr (pr_idempotency_key pr)) (PStr (pr_repository_id pr))
    (PStr (pr_base_branch pr)) e = Inr (Some pr)"
proof -
  from endpoint_lookup [OF assms] have e: "map_of e (pr_idempotency_key pr) = Some pr"
    "entry_ok (pr_idempotency_key pr, pr)" by blast+
  have "startswith (pr_idempotency_key pr) ''publish/'' \<and> pr_idempotency_key pr \<noteq> [] \<and>
      \<not> py_len (pr_idempotency_key pr) \<le> py_len ''publish/''"
    unfolding entry_ok_key [OF e(2)] using key_text_namespace key_text_nonempty key_text_long by blast
  then show ?thesis
    using e by (simp add: find_by_idempotency_key_def entry_ok_def require_base_branch_def)
qed

lemma find_Some:
  assumes "endpoint_ok e" "find_by_idempotency_key (PStr k) (PStr repo) (PStr base) e = Inr (Some pr)"
  shows "pr \<in> endpoint_receipts e \<and> pr_idempotency_key pr = k \<and> pr_repository_id pr = repo \<and>
    pr_base_branch pr = base"
proof -
  from assms(2) have m: "map_of e k = Some pr" and r: "pr_repository_id pr = repo" "pr_base_branch pr = base"
    by (auto simp: find_by_idempotency_key_def split: option.splits if_splits)
  from m have "(k, pr) \<in> set e" by (rule map_of_SomeD)
  with assms(1) r show ?thesis
    by (force simp: endpoint_ok_def list_all_iff entry_ok_def endpoint_receipts_def)
qed

interpretation mock: publication_endpoint publish_pull_request find_by_idempotency_key endpoint_ok endpoint_receipts
proof unfold_locales
  show "endpoint_ok e \<Longrightarrow> publish_pull_request r e = (Inr pr, e') \<Longrightarrow>
      endpoint_ok e' \<and> publishes pr r \<and> endpoint_receipts e' = insert pr (endpoint_receipts e)" for e r pr e'
    using publish_endpoint_ok publish_publishes by blast
qed (rule publish_Inl find_entry find_Some; assumption)+

section \<open>Properties\<close>

text \<open>
  Publication on the mock is idempotent. After a request was published, publishing it again
  returns the same pull request and changes nothing; the receipt carries the request's repository,
  branches, digest and key; the lookup by the request's key, repository and base branch finds it;
  and the pull requests keep being numbered 1, 2, 3 without two under one key.
\<close>

theorem publish_is_idempotent:
  assumes "endpoint_ok e" and "publish_pull_request r e = (Inr pr, e')"
  shows "publish_pull_request r e' = (Inr pr, e') \<and> publishes pr r \<and> endpoint_ok e' \<and>
    find_by_idempotency_key (fld r ''idempotency_key'') (fld r ''repository_id'') (fld r ''base_branch'') e'
      = Inr (Some pr)"
proof -
  from mock.publish_receipt [OF assms] have 1: "endpoint_ok e'" "publishes pr r" "pr \<in> endpoint_receipts e'"
    by auto
  from endpoint_lookup [OF 1(1,3)] have "map_of e' (pr_idempotency_key pr) = Some pr" by blast
  then have "publish_pull_request r e' = (Inr pr, e')"
    using publish_Inr [OF assms(2)] 1(2) by (simp add: publish_pull_request_def publishes_def)
  with 1 mock.published_is_found [OF assms] show ?thesis by blast
qed

definition sample_publication :: pyval where
  "sample_publication = PDict [(''operation'', PStr ''publish_pull_request''),
     (''repository_id'', PStr ''owner/project''), (''branch'', PStr ''agent/x''),
     (''base_branch'', PStr ''main''), (''staged_change_digest'', PStr sample_digest),
     (''idempotency_key'', PStr (key_text ''agent/x'' ''main'' sample_digest)),
     (''policy_effect'', PStr ''allow''), (''approval_valid'', PBool True)]"

lemma sample_publication_check: "check_publish_request sample_publication = Inr ()"
  by (simp add: check_publish_request_def sample_publication_def keys_are_def request_keys_def text_keys_def
      require_base_branch_def sample_base sample_key sample_digest branch_prefix_def key_text_nonempty text_eval)

lemma sample_publish: "publish_pull_request sample_publication [] =
    (Inr (pull_request_of 1 sample_publication),
     [(pr_idempotency_key (pull_request_of 1 sample_publication), pull_request_of 1 sample_publication)])"
  by (simp add: publish_pull_request_def sample_publication_check Let_def)

theorem publish_is_idempotent_witness: "publishes (pull_request_of 1 sample_publication) sample_publication"
  using publish_is_idempotent [OF endpoint_ok_empty sample_publish] by blast

end
