(* ===== verification/Broker.thy ===== *)
theory Broker
  imports Mock_Github Datetime_Roundtrip
begin

text \<open>
  \<^verbatim>\<open>src/app_contracts/broker.py\<close>: the scope check of a single-use credential grant, the in-memory
  broker that opens at most one channel per grant, and the registry of trusted adapter types. What
  an actuator relies on is the interface \<open>credential_broker\<close>.
\<close>

section \<open>The grant\<close>

definition required_grant_fields :: "string list" where
  "required_grant_fields = [''credential_grant_id'', ''actuator_id'', ''repository_id'', ''operation'',
     ''request_digest'', ''single_use'']"

definition required_request_fields :: "string list" where
  "required_request_fields = [''actuator_id'', ''repository_id'', ''operation'', ''base_branch'']"

text \<open>\<^verbatim>\<open>isinstance(now, datetime) and now.tzinfo is not None\<close>.\<close>

fun aware_clock :: "now_arg \<Rightarrow> bool" where
  "aware_clock (NowAt t) = is_aware t"
| "aware_clock _ = False"

fun clock_of :: "now_arg \<Rightarrow> pydatetime" where
  "clock_of (NowAt t) = t"
| "clock_of _ = \<lparr>wall = 0, utc_offset = None\<rparr>"

definition grant_expiry :: "pyval \<Rightarrow> pydatetime res" where
  "grant_expiry grant =
     (let raw = fld grant ''expires_at''
      in unless (\<not> is_str raw) (contract_error ''broker: credential grant expiry is invalid'')
        (rbind (rcatch (parse_iso (str_of raw))
           (\<lambda>_. Inl (contract_error ''broker: credential grant expiry is invalid''))) (\<lambda>t.
         unless (\<not> is_aware t) (contract_error ''broker: credential grant expiry is invalid'') (Inr t))))"

definition validate_credential_use_grant :: "pyval \<Rightarrow> pyval \<Rightarrow> now_arg \<Rightarrow> unit res" where
  "validate_credential_use_grant grant request now =
     unless (\<not> aware_clock now) (contract_error ''broker: grant expiry check requires aware time'')
    (unless (\<not> is_dict grant \<or> \<not> list_all (has_key grant) required_grant_fields)
       (contract_error ''broker: credential grant is malformed'')
    (unless (\<not> is_dict request \<or> \<not> list_all (has_key request) required_request_fields)
       (contract_error ''broker: actuator request is malformed'')
    (rbind (check_each (\<lambda>k. unless (\<not> nonempty_str (fld grant k) \<or> \<not> nonempty_str (fld request k))
         (contract_error ''broker: binding value is invalid'') (Inr ()))
       [''actuator_id'', ''repository_id'', ''operation'']) (\<lambda>_.
     unless (\<not> nonempty_str (fld request ''base_branch'')) (contract_error ''broker: binding value is invalid'')
    (unless (\<not> nonempty_str (fld grant ''credential_grant_id''))
       (contract_error ''broker: binding value is invalid'')
    (unless (fld grant ''credential_class'' \<noteq> PStr ''github-app-installation'')
       (contract_error ''broker: credential class mismatch'')
    (unless (fld grant ''actuator_id'' \<noteq> fld request ''actuator_id'')
       (contract_error ''broker: actuator identity mismatch'')
    (unless (fld grant ''repository_id'' \<noteq> fld request ''repository_id'')
       (contract_error ''broker: repository mismatch'')
    (unless (fld grant ''operation'' \<noteq> fld request ''operation'') (contract_error ''broker: operation mismatch'')
    (rbind (sha256_digest request) (\<lambda>d.
     unless (fld grant ''request_digest'' \<noteq> PStr d) (contract_error ''broker: request digest mismatch'')
    (unless (fld grant ''single_use'' \<noteq> PBool True)
       (contract_error ''broker: credential grant must be single-use'')
    (rbind (grant_expiry grant) (\<lambda>expires.
     rbind (astimezone_utc (clock_of now)) (\<lambda>moment.
     unless (instant expires \<le> instant moment) (contract_error ''broker: credential grant expired'')
       (Inr ()))))))))))))))))"

section \<open>The in-memory broker\<close>

record broker =
  opened_grants :: "string list"
  used_grants :: "string list"

definition new_broker :: broker where
  "new_broker = \<lparr>opened_grants = [], used_grants = []\<rparr>"

text \<open>
  \<open>factory\<close> is what the injected channel factory does when called: it raises, or returns an object
  that has \<^verbatim>\<open>publish_pull_request\<close> (\<open>Some\<close>) or not (\<open>None\<close>).
\<close>

definition open_github_publication_channel ::
  "'c option res \<Rightarrow> pyval \<Rightarrow> pyval \<Rightarrow> now_arg \<Rightarrow> (broker, 'c) eff" where
  "open_github_publication_channel factory grant request now b =
     (case validate_credential_use_grant grant request now of
        Inl e \<Rightarrow> (Inl e, b)
      | Inr _ \<Rightarrow>
          (let gid = str_of (fld grant ''credential_grant_id'')
           in if gid \<in> set (used_grants b)
              then (Inl (contract_error ''broker: credential grant already used''), b)
              else (case factory of
                  Inl e \<Rightarrow> (Inl e, b)
                | Inr None \<Rightarrow> (Inl (contract_error ''broker: channel factory result is invalid''), b)
                | Inr (Some c) \<Rightarrow>
                    (Inr c, \<lparr>opened_grants = opened_grants b @ [gid], used_grants = used_grants b @ [gid]\<rparr>))))"

definition broker_ok :: "broker \<Rightarrow> bool" where
  "broker_ok b \<longleftrightarrow> opened_grants b = used_grants b \<and> distinct (used_grants b)"

section \<open>The interface of a broker\<close>

text \<open>
  An opened channel used up a fresh grant that was valid for the request; a refusal changes nothing.
\<close>

locale credential_broker =
  fixes open_channel :: "pyval \<Rightarrow> pyval \<Rightarrow> now_arg \<Rightarrow> ('b, 'c) eff"
    and opened :: "'b \<Rightarrow> string list"
    and inv :: "'b \<Rightarrow> bool"
  assumes open_fresh: "inv b \<Longrightarrow> open_channel grant request now b = (Inr c, b') \<Longrightarrow>
      inv b' \<and> validate_credential_use_grant grant request now = Inr () \<and>
      str_of (fld grant ''credential_grant_id'') \<notin> set (opened b) \<and>
      opened b' = opened b @ [str_of (fld grant ''credential_grant_id'')]"
    and open_refused: "open_channel grant request now b = (Inl e, b') \<Longrightarrow> b' = b"
begin

text \<open>A grant that opened a channel never opens another one.\<close>

lemma used_grant_refused:
  assumes "inv b" "str_of (fld grant ''credential_grant_id'') \<in> set (opened b)"
  shows "\<exists>e. open_channel grant request now b = (Inl e, b)"
proof (cases "open_channel grant request now b")
  case (Pair r b')
  with assms show ?thesis
    using open_fresh [OF assms(1), of grant request now _ b'] open_refused [of grant request now b _ b']
    by (cases r) auto
qed

lemma single_use:
  assumes "inv b" "open_channel grant request now b = (Inr c, b')"
  shows "\<exists>e. open_channel grant request' now' b' = (Inl e, b')"
  using open_fresh [OF assms] used_grant_refused [of b' grant request' now'] by auto

lemma attempt_keeps:
  assumes "inv b" "distinct (opened b)"
  shows "inv (snd (open_channel grant request now b)) \<and> distinct (opened (snd (open_channel grant request now b)))"
proof (cases "open_channel grant request now b")
  case (Pair r b')
  with assms show ?thesis
    using open_fresh [OF assms(1), of grant request now _ b'] open_refused [of grant request now b _ b']
    by (cases r) auto
qed

lemma sequence_keeps:
  assumes "inv b" "distinct (opened b)"
  shows "let b' = fold (\<lambda>(g, r, n) b. snd (open_channel g r n b)) xs b in inv b' \<and> distinct (opened b')"
  using assms by (induction xs arbitrary: b) (auto simp: Let_def attempt_keeps)

end

lemma validate_grant_Inr:
  assumes "validate_credential_use_grant grant request now = Inr u"
  obtains t moment expires d where "now = NowAt t" "is_aware t" "is_dict grant" "is_dict request"
    "nonempty_str (fld grant ''credential_grant_id'')"
    "fld grant ''actuator_id'' = fld request ''actuator_id''"
    "fld grant ''repository_id'' = fld request ''repository_id''"
    "fld grant ''operation'' = fld request ''operation''"
    "nonempty_str (fld request ''actuator_id'')" "nonempty_str (fld request ''repository_id'')"
    "nonempty_str (fld request ''operation'')" "nonempty_str (fld request ''base_branch'')"
    "sha256_digest request = Inr d" "fld grant ''request_digest'' = PStr d"
    "fld grant ''single_use'' = PBool True" "grant_expiry grant = Inr expires"
    "astimezone_utc t = Inr moment" "instant moment < instant expires"
  using assms by (cases now) (auto simp: validate_credential_use_grant_def)

lemma in_memory_open_fresh:
  assumes "broker_ok b" "open_github_publication_channel factory grant request now b = (Inr c, b')"
  shows "broker_ok b' \<and> validate_credential_use_grant grant request now = Inr () \<and>
      str_of (fld grant ''credential_grant_id'') \<notin> set (opened_grants b) \<and>
      opened_grants b' = opened_grants b @ [str_of (fld grant ''credential_grant_id'')]"
  using assms
  by (auto simp: open_github_publication_channel_def broker_ok_def Let_def split: sum.splits option.splits if_splits)

lemma in_memory_open_refused:
  "open_github_publication_channel factory grant request now b = (Inl e, b') \<Longrightarrow> b' = b"
  by (auto simp: open_github_publication_channel_def Let_def split: sum.splits option.splits if_splits)

interpretation in_memory: credential_broker "open_github_publication_channel factory" opened_grants broker_ok
  for factory
  by unfold_locales (blast dest: in_memory_open_fresh in_memory_open_refused)+

lemma new_broker_ok: "broker_ok new_broker"
  by (simp add: broker_ok_def new_broker_def)

section \<open>The registry of adapter types\<close>

text \<open>A Python type, identified by \<open>ty_id\<close>; \<open>None\<close> is an argument that is not a type.\<close>

record py_type =
  ty_id :: nat
  ty_module :: string
  ty_name :: string

type_synonym registry = "(string \<times> py_type) list"

definition expected_types ::
  "py_type option \<Rightarrow> py_type option \<Rightarrow> py_type option \<Rightarrow> py_type option option \<Rightarrow>
   (string \<times> py_type option \<times> string) list" where
  "expected_types b c r ro =
     [(''broker'', b, ''GitHubAppCredentialBroker''), (''channel'', c, ''GitHubAppPublicationChannel''),
      (''receipt'', r, ''GitHubPullRequest'')] @
     (case ro of None \<Rightarrow> []
      | Some t \<Rightarrow> [(''read_only_channel'', t, ''GitHubAppReadOnlyReconciliationChannel'')])"

definition adapter_type_ok :: "py_type option \<Rightarrow> string \<Rightarrow> bool" where
  "adapter_type_ok t name =
     (case t of None \<Rightarrow> False
      | Some x \<Rightarrow> ty_module x = ''app_contracts.github_app'' \<and> ty_name x = name)"

definition register_github_app_types ::
  "py_type option \<Rightarrow> py_type option \<Rightarrow> py_type option \<Rightarrow> py_type option option \<Rightarrow> (registry, unit) eff" where
  "register_github_app_types b c r ro reg =
     (let xs = expected_types b c r ro
      in if list_ex (\<lambda>(role, t, name). \<not> adapter_type_ok t name) xs
         then (Inl (contract_error ''broker: trusted adapter types are invalid''), reg)
         else if list_ex (\<lambda>(role, t, name). map_of reg role \<noteq> None \<and> map_of reg role \<noteq> t) xs
         then (Inl (contract_error ''broker: trusted adapter types are already registered''), reg)
         else (Inr (), map (\<lambda>(role, t, name). (role, the t)) xs @ reg))"

definition adapter_roles :: "string list" where
  "adapter_roles = [''broker'', ''channel'', ''receipt'', ''read_only_channel'']"

text \<open>\<^verbatim>\<open>registry.get(role) is candidate\<close>: the candidate may be Python's None, another object, or a type;
  None is what an unregistered role yields.\<close>

datatype candidate = PyNone | NotAType | AType py_type

definition is_registered_provider_adapter_type :: "candidate \<Rightarrow> pyval \<Rightarrow> registry \<Rightarrow> bool" where
  "is_registered_provider_adapter_type candidate role reg =
     (is_str role \<and> str_of role \<in> set adapter_roles \<and>
      (case candidate of
         PyNone \<Rightarrow> map_of reg (str_of role) = None
       | NotAType \<Rightarrow> False
       | AType t \<Rightarrow> map_of reg (str_of role) = Some t))"

text \<open>Routing to the private channel; a channel without the method is \<open>None\<close>.\<close>

definition publish_verified_manifest :: "('a \<Rightarrow> ('w, 'r) eff) option \<Rightarrow> 'a \<Rightarrow> ('w, 'r) eff" where
  "publish_verified_manifest channel args =
     (case channel of
        None \<Rightarrow> elift (Inl (contract_error ''broker: verified-file channel is unavailable''))
      | Some f \<Rightarrow> f args)"

definition reconcile_verified_manifest :: "('a \<Rightarrow> ('w, 'r) eff) option \<Rightarrow> 'a \<Rightarrow> ('w, 'r) eff" where
  "reconcile_verified_manifest channel args =
     (case channel of
        None \<Rightarrow> elift (Inl (contract_error ''broker: verified-file reconciliation is unavailable''))
      | Some f \<Rightarrow> f args)"

section \<open>Properties\<close>

text \<open>
  Claim C16: a credential grant is single use. A grant that opened a channel was valid for the very
  request (its digest, actuator, repository and operation) and had not expired at the time of use; it
  never opens another channel, whatever the later request; and over any sequence of requests the broker
  opens each grant at most once.
\<close>

theorem grant_opens_one_channel:
  assumes "broker_ok b" and "open_github_publication_channel factory grant request now b = (Inr c, b')"
  shows "(\<exists>e. open_github_publication_channel factory grant request' now' b' = (Inl e, b')) \<and>
    distinct (opened_grants (fold (\<lambda>(g, r, n) b. snd (open_github_publication_channel factory g r n b)) xs b')) \<and>
    sha256_digest request = Inr (str_of (fld grant ''request_digest'')) \<and>
    fld grant ''actuator_id'' = fld request ''actuator_id'' \<and>
    fld grant ''repository_id'' = fld request ''repository_id'' \<and>
    fld grant ''operation'' = fld request ''operation'' \<and>
    (\<exists>t expires. now = NowAt t \<and> grant_expiry grant = Inr expires \<and> instant t < instant expires)"
proof (intro conjI)
  from in_memory.open_fresh [OF assms] have ok: "broker_ok b'"
    and v: "validate_credential_use_grant grant request now = Inr ()" by blast+
  from in_memory.single_use [OF assms]
  show "\<exists>e. open_github_publication_channel factory grant request' now' b' = (Inl e, b')" .
  have "distinct (opened_grants b')" using ok by (simp add: broker_ok_def)
  from in_memory.sequence_keeps [OF ok this]
  show "distinct (opened_grants (fold (\<lambda>(g, r, n) b. snd (open_github_publication_channel factory g r n b)) xs b'))"
    unfolding Let_def by blast
  from v show "sha256_digest request = Inr (str_of (fld grant ''request_digest''))"
    by (rule validate_grant_Inr) simp
  from v show "fld grant ''actuator_id'' = fld request ''actuator_id''" by (rule validate_grant_Inr)
  from v show "fld grant ''repository_id'' = fld request ''repository_id''" by (rule validate_grant_Inr)
  from v show "fld grant ''operation'' = fld request ''operation''" by (rule validate_grant_Inr)
  from v show "\<exists>t expires. now = NowAt t \<and> grant_expiry grant = Inr expires \<and> instant t < instant expires"
    by (rule validate_grant_Inr) (auto dest: astimezone_utc_facts)
qed

definition sample_request_value :: pyval where
  "sample_request_value = PDict [(''actuator_id'', PStr ''github''), (''repository_id'', PStr ''owner/project''),
     (''operation'', PStr ''publish_pull_request''), (''base_branch'', PStr ''main''),
     (''branch_namespace'', PStr ''agent/x''), (''staged_change_digest'', PStr ''d''),
     (''idempotency_key'', PStr ''k'')]"

definition sample_later :: pydatetime where
  "sample_later = \<lparr>wall = 5000000, utc_offset = Some 0\<rparr>"

definition sample_grant :: pyval where
  "sample_grant = PDict [(''credential_grant_id'', PStr ''grant-1''), (''actuator_id'', PStr ''github''),
     (''repository_id'', PStr ''owner/project''), (''operation'', PStr ''publish_pull_request''),
     (''request_digest'', PStr (digest_of sample_request_value)), (''single_use'', PBool True),
     (''credential_class'', PStr ''github-app-installation''),
     (''expires_at'', PStr (format_utc sample_later))]"

definition sample_now :: pydatetime where
  "sample_now = \<lparr>wall = 1000000, utc_offset = Some 0\<rparr>"

lemma sample_now_utc: "astimezone_utc sample_now = Inr sample_now" "is_aware sample_now"
  by (simp_all add: sample_now_def astimezone_utc_def mk_utc_def instant_def max_wall_def is_aware_def)

lemma sample_later_parse: "parse_iso (format_utc sample_later) = Inr sample_later"
  by (rule parse_format_utc) (simp_all add: sample_later_def valid_datetime_def max_wall_def)

lemma sample_request_digest: "sha256_digest sample_request_value = Inr (digest_of sample_request_value)"
  by (rule sha256_digest_encodable) (simp add: sample_request_value_def text_eval)

lemma sample_grant_valid: "validate_credential_use_grant sample_grant sample_request_value (NowAt sample_now) = Inr ()"
proof -
  have "grant_expiry sample_grant = Inr sample_later"
    using sample_later_parse by (simp add: grant_expiry_def Let_def sample_grant_def is_aware_def sample_later_def)
  moreover have "instant sample_now < instant sample_later"
    by (simp add: sample_now_def sample_later_def instant_def)
  ultimately show ?thesis
    using sample_request_digest sample_now_utc
    by (simp add: validate_credential_use_grant_def sample_grant_def sample_request_value_def
        required_grant_fields_def required_request_fields_def)
qed

lemma sample_open: "open_github_publication_channel (Inr (Some ())) sample_grant sample_request_value
    (NowAt sample_now) new_broker = (Inr (), \<lparr>opened_grants = [''grant-1''], used_grants = [''grant-1'']\<rparr>)"
  by (simp add: open_github_publication_channel_def sample_grant_valid new_broker_def)
    (simp add: sample_grant_def Let_def)

theorem grant_opens_one_channel_witness:
  "\<exists>e. open_github_publication_channel (Inr (Some ())) sample_grant sample_request_value (NowAt sample_now)
     \<lparr>opened_grants = [''grant-1''], used_grants = [''grant-1'']\<rparr> =
     (Inl e, \<lparr>opened_grants = [''grant-1''], used_grants = [''grant-1'']\<rparr>)"
  using grant_opens_one_channel [OF new_broker_ok sample_open] by blast

end
