(* ===== verification/Approval_Signature.thy ===== *)
theory Approval_Signature
  imports Json_Injective
begin

text \<open>
  \<^verbatim>\<open>src/app_contracts/approval_signature.py\<close>: the signed bytes of an approval and their check.
  Ed25519 is third-party code: \<open>ed_verify key signature message\<close> is a parameter that says whether
  the library's \<^verbatim>\<open>verify\<close> returned.
\<close>

definition approval_signed_fields :: "string list" where
  "approval_signed_fields = [''schema_version'', ''approval_id'', ''approver_id'', ''process_id'',
     ''operation'', ''repository_id'', ''staged_change_digest'', ''approved_intent_digest'',
     ''policy_version'', ''approved_at'', ''expires_at'']"

text \<open>\<^verbatim>\<open>b"agent00x-approval-ed25519-v1\0"\<close>.\<close>

definition signature_domain :: string where
  "signature_domain = ''agent00x-approval-ed25519-v1'' @ [CHR 0x00]"

definition bad_payload :: exn where
  "bad_payload = Exn ValueError ''approval signature: payload is invalid''"

definition signed_content :: "pyval \<Rightarrow> pyval" where
  "signed_content approval = PDict (map (\<lambda>k. (k, fld approval k)) approval_signed_fields)"

definition approval_signature_payload :: "pyval \<Rightarrow> string res" where
  "approval_signature_payload approval =
     unless (\<not> is_dict approval \<or> (\<not> keys_are approval approval_signed_fields
         \<and> \<not> keys_are approval (approval_signed_fields @ [''signature'']))) bad_payload
       (rbind (rcatch (json_enc (signed_content approval)) (\<lambda>_. Inl bad_payload)) (\<lambda>s.
        Inr (signature_domain @ s)))"

text \<open>\<^verbatim>\<open>[0-9a-f]{128}\Z\<close> and \<^verbatim>\<open>bytes.fromhex\<close> of such a text.\<close>

definition is_signature :: "string \<Rightarrow> bool" where
  "is_signature s \<longleftrightarrow> length s = 128 \<and> list_all is_lower_hex s"

text \<open>The key is \<open>None\<close> when it is not a bytes object.\<close>

definition verify_approval_signature ::
  "(string \<Rightarrow> string \<Rightarrow> string \<Rightarrow> bool) \<Rightarrow> pyval \<Rightarrow> string option \<Rightarrow> bool" where
  "verify_approval_signature ed_verify approval key =
     (case key of
        None \<Rightarrow> False
      | Some k \<Rightarrow>
          length k = 32 \<and> is_dict approval \<and> is_str (fld approval ''signature'') \<and>
          is_signature (str_of (fld approval ''signature'')) \<and>
          (case approval_signature_payload approval of
             Inl _ \<Rightarrow> False
           | Inr payload \<Rightarrow> ed_verify k (bytes_of_hex (str_of (fld approval ''signature''))) payload))"

section \<open>What a signature covers\<close>

lemma payload_Inr:
  assumes "approval_signature_payload a = Inr p"
  shows "is_dict a \<and> (\<exists>s. json_enc (signed_content a) = Inr s \<and> p = signature_domain @ s)"
  using assms by (auto simp: approval_signature_payload_def rcatch_Inr)

lemma signed_content_normal:
  assumes "normal (signed_content a) = normal (signed_content b)" "k \<in> set approval_signed_fields"
  shows "normal (fld a k) = normal (fld b k)"
proof -
  have d: "distinct approval_signed_fields" by (simp add: approval_signed_fields_def)
  have sel: "fld (signed_content x) k = fld x k" for x
    using assms(2) by (simp add: signed_content_def map_of_map_restrict restrict_map_def)
  have "normal (fld (signed_content a) k) = normal (fld (signed_content b) k)"
    using assms(1) d unfolding signed_content_def by (intro normal_fld) (simp_all add: comp_def)
  then show ?thesis unfolding sel .
qed

text \<open>
  The signed bytes determine the approval. Two approvals with the same signature payload have
  the same JSON content in every signed field, so a signature made for one approval verifies for
  another only if the two agree on process, repository, operation, digests, policy version and
  times.
\<close>

theorem payload_determines_approval:
  assumes "approval_signature_payload a = Inr p" and "approval_signature_payload b = Inr p"
  shows "\<forall>k\<in>set approval_signed_fields. normal (fld a k) = normal (fld b k)"
proof -
  from payload_Inr [OF assms(1)] payload_Inr [OF assms(2)] obtain s where
    s: "json_enc (signed_content a) = Inr s" "json_enc (signed_content b) = Inr s" by auto
  then have "canonical_json (signed_content a) = Inr s" "canonical_json (signed_content b) = Inr s"
    by (simp_all only: canonical_json_def rcatch_simps)
  then have "normal (signed_content a) = normal (signed_content b)" by (rule canonical_unique)
  with signed_content_normal show ?thesis by blast
qed

definition sample_approval_dict :: "(string \<times> pyval) list" where
  "sample_approval_dict = map (\<lambda>k. (k, PStr k)) approval_signed_fields"

lemma sample_payload: "\<exists>p. approval_signature_payload (PDict sample_approval_dict) = Inr p"
proof -
  have "encodable (signed_content (PDict sample_approval_dict))"
    by (simp add: signed_content_def sample_approval_dict_def approval_signed_fields_def text_eval)
  then have "is_ok (json_enc (signed_content (PDict sample_approval_dict)))" by (simp only: json_enc_ok)
  moreover have "keys_are (PDict sample_approval_dict) approval_signed_fields"
    by (simp add: keys_are_def sample_approval_dict_def approval_signed_fields_def)
  ultimately show ?thesis by (auto simp: approval_signature_payload_def is_ok_iff)
qed

theorem payload_determines_approval_witness:
  "\<exists>p. approval_signature_payload (PDict sample_approval_dict) = Inr p \<and>
     normal (fld (PDict sample_approval_dict) ''process_id'') = PStr ''process_id''"
proof -
  obtain p where p: "approval_signature_payload (PDict sample_approval_dict) = Inr p" using sample_payload by blast
  from payload_determines_approval [OF p p] p show ?thesis
    by (simp add: sample_approval_dict_def approval_signed_fields_def)
qed

end
