(* ===== verification/Authority.thy ===== *)
theory Authority
  imports Broker Approval_Signature
begin

text \<open>
  \<^verbatim>\<open>src/app_contracts/authority.py\<close>: the policy configuration, the checks that bind an approval to
  one publication intent, the deterministic allow/deny decision and the use-time check of its
  lifetime. \<open>ed_verify\<close> is the Ed25519 library (see \<open>Approval_Signature\<close>).
\<close>

section \<open>Configuration\<close>

record policy_config =
  cfg_version :: string
  cfg_repositories :: "string list"
  cfg_actuators :: "string list"
  cfg_approvers :: "string list"
  cfg_keys :: "(string \<times> string) list"
  cfg_ttl :: int

text \<open>
  \<^verbatim>\<open>PolicyConfig(...)\<close>. An argument that is not a set (a mapping) is \<open>None\<close>, a key that is
  not a bytes object is \<open>None\<close>.
\<close>

definition names_ok :: "pyval list option \<Rightarrow> bool" where
  "names_ok m = (case m of None \<Rightarrow> False | Some vs \<Rightarrow> vs \<noteq> [] \<and> list_all nonempty_str vs)"

definition keys_ok :: "(pyval \<times> string option) list option \<Rightarrow> bool" where
  "keys_ok m = (case m of None \<Rightarrow> False
     | Some kvs \<Rightarrow> kvs \<noteq> [] \<and>
         list_all (\<lambda>(k, v). nonempty_str k \<and> (case v of None \<Rightarrow> False | Some b \<Rightarrow> length b = 32)) kvs)"

definition mk_policy_config ::
  "pyval \<Rightarrow> pyval list option \<Rightarrow> pyval list option \<Rightarrow> pyval list option \<Rightarrow>
   (pyval \<times> string option) list option \<Rightarrow> pyval \<Rightarrow> policy_config res" where
  "mk_policy_config version repositories actuators approvers keys ttl =
     unless (\<not> is_int ttl \<or> int_of ttl < 1) (Exn ValueError ''policy: decision TTL must be a positive integer'')
    (unless (\<not> nonempty_str version) (Exn ValueError ''policy: version must be a non-empty string'')
    (unless (\<not> names_ok repositories)
       (Exn ValueError ''policy: allowed_repositories must be a non-empty set of strings'')
    (unless (\<not> names_ok actuators)
       (Exn ValueError ''policy: allowed_actuators must be a non-empty set of strings'')
    (unless (\<not> names_ok approvers)
       (Exn ValueError ''policy: allowed_approver_ids must be a non-empty set of strings'')
    (unless (\<not> keys_ok keys) (Exn ValueError ''policy: trusted approver public keys are invalid'')
    (unless (\<not> list_all (\<lambda>a. a \<in> set (map fst (the keys))) (the approvers))
       (Exn ValueError ''policy: allowlisted approver has no trusted public key'')
    (Inr \<lparr>cfg_version = str_of version, cfg_repositories = map str_of (the repositories),
          cfg_actuators = map str_of (the actuators), cfg_approvers = map str_of (the approvers),
          cfg_keys = map (\<lambda>(k, v). (str_of k, the v)) (the keys), cfg_ttl = int_of ttl\<rparr>)))))))"

definition config_ok :: "policy_config \<Rightarrow> bool" where
  "config_ok c \<longleftrightarrow> 1 \<le> cfg_ttl c \<and> cfg_version c \<noteq> [] \<and>
     list_all (\<lambda>a. map_of (cfg_keys c) a \<noteq> None) (cfg_approvers c) \<and>
     list_all (\<lambda>(k, v). length v = 32) (cfg_keys c)"

section \<open>Times and digests\<close>

definition require_digest :: "pyval \<Rightarrow> string \<Rightarrow> string res" where
  "require_digest v msg = unless (\<not> nonempty_str v) (contract_error msg) (Inr (str_of v))"

definition require_clock :: "now_arg \<Rightarrow> pydatetime res" where
  "require_clock now = unless (\<not> aware_clock now) (contract_error ''authority: clock is invalid'')
     (astimezone_utc (clock_of now))"

definition require_expiry :: "pyval \<Rightarrow> string \<Rightarrow> string \<Rightarrow> pydatetime res" where
  "require_expiry m label field =
     (let raw = fld m field; bad = contract_error (''approval: '' @ label @ '' is invalid'')
      in unless (\<not> is_str raw) bad
        (rbind (rcatch (parse_iso (str_of raw)) (\<lambda>_. Inl bad)) (\<lambda>t.
         unless (\<not> is_aware t) bad (Inr t))))"

text \<open>On a value that is not a dictionary \<^verbatim>\<open>approval.get\<close> raises AttributeError.\<close>

definition check_intent_approved :: "pyval \<Rightarrow> pyval \<Rightarrow> unit res" where
  "check_intent_approved intent approval =
     rbind (get_attr approval ''approved_intent_digest'') (\<lambda>v.
     rbind (require_digest v ''approval: approved intent digest is invalid'') (\<lambda>approved.
     rbind (sha256_digest intent) (\<lambda>d.
     unless (approved \<noteq> d) (contract_error ''approval: approved intent digest mismatch'') (Inr ()))))"

section \<open>The approval\<close>

definition match_fields :: "string list" where
  "match_fields = [''process_id'', ''repository_id'', ''operation'', ''approval_id'']"

definition missing_error :: "string \<Rightarrow> exn" where
  "missing_error k = contract_error (''approval: '' @ k @ '' is missing'')"

definition check_matching_field :: "pyval \<Rightarrow> pyval \<Rightarrow> string \<Rightarrow> unit res" where
  "check_matching_field approval intent k =
     unless (\<not> nonempty_str (fld approval k) \<or> \<not> nonempty_str (fld intent k))
       (contract_error (''approval: '' @ k @ '' is invalid''))
    (unless (fld approval k \<noteq> fld intent k) (contract_error (''approval: '' @ k @ '' mismatch'')) (Inr ()))"

definition validate_approval ::
  "pyval \<Rightarrow> pyval \<Rightarrow> pyval \<Rightarrow> string \<Rightarrow> now_arg \<Rightarrow> unit res" where
  "validate_approval approval staged intent policy_version now =
     unless (\<not> is_dict approval \<or> \<not> is_dict intent \<or> \<not> is_dict staged)
       (contract_error ''approval: binding root is malformed'')
    (rbind (require_clock now) (\<lambda>moment.
     unless (fld approval ''schema_version'' \<noteq> PInt 1) (contract_error ''approval: schema version is invalid'')
    (rbind (sha256_digest staged) (\<lambda>staged_digest.
     rbind (check_each (\<lambda>k. unless (\<not> has_key approval k \<or> \<not> has_key intent k) (missing_error k) (Inr ()))
       match_fields) (\<lambda>_.
     unless (\<not> has_key approval ''approver_id'') (missing_error ''approver_id'')
    (rbind (check_each (\<lambda>(m, k). unless (\<not> has_key m k) (missing_error k) (Inr ()))
       [(approval, ''policy_version''), (approval, ''approved_at''), (approval, ''expires_at''),
        (intent, ''expires_at'')]) (\<lambda>_.
     rbind (check_each (check_matching_field approval intent) match_fields) (\<lambda>_.
     unless (\<not> nonempty_str (fld approval ''approver_id''))
       (contract_error ''approval: approver_id is invalid'')
    (rbind (require_digest (fld approval ''staged_change_digest'')
       ''approval: staged change digest is invalid'') (\<lambda>a.
     unless (a \<noteq> staged_digest) (contract_error ''approval: staged change digest mismatch'')
    (rbind (require_digest (fld intent ''staged_change_digest'')
       ''approval: intent staged change digest is invalid'') (\<lambda>i.
     unless (i \<noteq> staged_digest) (contract_error ''approval: intent staged change digest mismatch'')
    (rbind (check_intent_approved intent approval) (\<lambda>_.
     unless (fld approval ''policy_version'' \<noteq> PStr policy_version)
       (contract_error ''approval: policy version mismatch'')
    (rbind (require_expiry approval ''approval time'' ''approved_at'') (\<lambda>approved_at.
     unless (instant moment < instant approved_at)
       (contract_error ''approval: approval time is in the future'')
    (rbind (require_expiry approval ''expiry'' ''expires_at'') (\<lambda>expires.
     unless (instant expires \<le> instant moment) (contract_error ''approval: expired'')
    (unless (instant expires \<le> instant approved_at)
       (contract_error ''approval: approval time is invalid'')
    (rbind (require_expiry intent ''intent expiry'' ''expires_at'') (\<lambda>intent_expires.
     unless (instant intent_expires \<le> instant moment) (contract_error ''approval: intent expired'')
       (Inr ()))))))))))))))))))))))"

section \<open>The decision\<close>

text \<open>\<^verbatim>\<open>str.replace\<close> for a non-empty pattern.\<close>

fun replace_text :: "string \<Rightarrow> string \<Rightarrow> string \<Rightarrow> string" where
  "replace_text p r [] = []"
| "replace_text p r (c # cs) =
     (if p \<noteq> [] \<and> startswith (c # cs) p then r @ replace_text p r (drop (length p - 1) cs)
      else c # replace_text p r cs)"

definition denial_reason :: "exn \<Rightarrow> string" where
  "denial_reason e = replace_text '' '' ''-'' (replace_text ''approval: '' ''approval-'' (exn_msg e))"

definition request_text_fields :: "string list" where
  "request_text_fields = [''operation'', ''repository_id'', ''actuator_id'']"

definition approver_allowed :: "policy_config \<Rightarrow> pyval \<Rightarrow> bool" where
  "approver_allowed cfg approval \<longleftrightarrow> is_dict approval \<and> nonempty_str (fld approval ''approver_id'') \<and>
     str_of (fld approval ''approver_id'') \<in> set (cfg_approvers cfg)"

definition allow_reasons :: "string list" where
  "allow_reasons = [''repository-allowlisted'', ''approval-valid'', ''digest-bound'']"

text \<open>The effect and its reasons; an exception that is not a ContractValidationError escapes.\<close>

definition decide_effect ::
  "(string \<Rightarrow> string \<Rightarrow> string \<Rightarrow> bool) \<Rightarrow> policy_config \<Rightarrow> pyval \<Rightarrow> pyval \<Rightarrow> pyval \<Rightarrow> pyval \<Rightarrow> now_arg \<Rightarrow>
   string \<Rightarrow> (string \<times> string list) res" where
  "decide_effect ed_verify cfg request approval staged intent now digest =
     (if fld request ''operation'' \<noteq> PStr ''publish_pull_request''
        then Inr (''deny'', [''operation-not-registered''])
      else if str_of (fld request ''repository_id'') \<notin> set (cfg_repositories cfg)
        then Inr (''deny'', [''repository-not-allowlisted''])
      else if str_of (fld request ''actuator_id'') \<notin> set (cfg_actuators cfg)
        then Inr (''deny'', [''actuator-not-allowlisted''])
      else if fld request ''staged_change_digest'' \<noteq> PStr digest
        then Inr (''deny'', [''request-digest-mismatch''])
      else if \<not> is_dict intent then raise AttributeError ''no attribute get''
      else if \<not> py_eq (fld request ''branch_namespace'') (fld intent ''branch_namespace'')
          \<or> \<not> py_eq (fld request ''idempotency_key'') (fld intent ''idempotency_key'')
        then Inr (''deny'', [''request-intent-mismatch''])
      else if \<not> approver_allowed cfg approval
        then Inr (''deny'', [''approver-not-allowlisted''])
      else (case validate_approval approval staged intent (cfg_version cfg) now of
          Inl e \<Rightarrow> (if exn_class e = ContractValidationError then Inr (''deny'', [denial_reason e]) else Inl e)
        | Inr _ \<Rightarrow>
            if \<not> verify_approval_signature ed_verify approval
                 (map_of (cfg_keys cfg) (str_of (fld approval ''approver_id'')))
            then Inr (''deny'', [''approval-signature-invalid''])
            else Inr (''allow'', allow_reasons)))"

definition decision_value ::
  "policy_config \<Rightarrow> pyval \<Rightarrow> pyval \<Rightarrow> string \<Rightarrow> string \<times> string list \<Rightarrow> pydatetime \<Rightarrow> pydatetime \<Rightarrow> pyval" where
  "decision_value cfg decision_id request digest er moment expires = PDict
     [(''schema_version'', PInt 1), (''decision_id'', decision_id), (''effect'', PStr (fst er)),
      (''reason_codes'', PList (map PStr (snd er))),
      (''principal_id'', fld request ''actuator_id''), (''operation'', fld request ''operation''),
      (''repository_id'', fld request ''repository_id''), (''staged_change_digest'', PStr digest),
      (''policy_version'', PStr (cfg_version cfg)), (''evaluated_at'', PStr (format_utc moment)),
      (''expires_at'', PStr (format_utc expires))]"

definition decide ::
  "(string \<Rightarrow> string \<Rightarrow> string \<Rightarrow> bool) \<Rightarrow> policy_config \<Rightarrow> bool \<Rightarrow> pyval \<Rightarrow> pyval \<Rightarrow> pyval \<Rightarrow> pyval \<Rightarrow> pyval \<Rightarrow>
   now_arg \<Rightarrow> pyval res" where
  "decide ed_verify cfg available decision_id request approval staged intent now =
     unless (\<not> available) (Exn PolicyUnavailable ''policy service is unavailable'')
    (rbind (require_clock now) (\<lambda>moment.
     unless (\<not> is_dict request \<or> \<not> list_all (\<lambda>k. nonempty_str (fld request k)) request_text_fields)
       (contract_error ''policy: actuator request is malformed'')
    (rbind (sha256_digest staged) (\<lambda>digest.
     rbind (decide_effect ed_verify cfg request approval staged intent now digest) (\<lambda>er.
     rbind (add_seconds moment (cfg_ttl cfg)) (\<lambda>expires.
     Inr (decision_value cfg decision_id request digest er moment expires)))))))"

text \<open>\<^verbatim>\<open>check_decision_usable\<close>: any failure to read or parse the expiry is the same error.\<close>

definition check_decision_usable :: "pyval \<Rightarrow> now_arg \<Rightarrow> unit res" where
  "check_decision_usable decision now =
     rbind (require_clock now) (\<lambda>moment.
     unless (\<not> is_dict decision) (contract_error ''decision: decision is malformed'')
    (unless (\<not> is_str (fld decision ''expires_at'')) (contract_error ''decision: expiry is invalid'')
    (rbind (rcatch (parse_iso (str_of (fld decision ''expires_at'')))
        (\<lambda>_. Inl (contract_error ''decision: expiry is invalid''))) (\<lambda>expires.
     unless (\<not> is_aware expires) (contract_error ''decision: expiry is invalid'')
    (unless (fld decision ''effect'' \<noteq> PStr ''allow'') (contract_error ''decision: not allow'')
    (unless (instant expires \<le> instant moment) (contract_error ''decision: expired'') (Inr ())))))))"

section \<open>Facts\<close>

lemma require_clock_Inr:
  assumes "require_clock now = Inr m"
  obtains t where "now = NowAt t" "is_aware t" "astimezone_utc t = Inr m" "instant m = instant t"
    "utc_offset m = Some 0" "valid_datetime m"
  using assms by (cases now) (auto simp: require_clock_def dest: astimezone_utc_facts)

lemma check_intent_approved_Inr:
  "check_intent_approved intent approval = Inr u \<longleftrightarrow>
     (\<exists>d. sha256_digest intent = Inr d \<and> fld approval ''approved_intent_digest'' = PStr d)"
  (is "?l \<longleftrightarrow> ?r")
proof
  assume ?l
  then show ?r by (auto simp: check_intent_approved_def require_digest_def get_attr_Inr nonempty_str_iff)
next
  assume ?r
  then obtain d where d: "sha256_digest intent = Inr d" "fld approval ''approved_intent_digest'' = PStr d" by blast
  have "is_dict approval" using d(2) fld_not_dict [of approval] by fastforce
  moreover have "d \<noteq> []" using d(1) sha256_digest_is_digest is_digest_nonempty by blast
  ultimately show ?l using d
    by (simp add: check_intent_approved_def require_digest_def get_attr_def is_dict_iff) auto
qed

lemma require_expiry_Inr:
  "require_expiry m label field = Inr t \<longleftrightarrow>
     (\<exists>s. fld m field = PStr s \<and> parse_iso s = Inr t \<and> is_aware t)"
  by (cases "fld m field") (auto simp: require_expiry_def Let_def rcatch_Inr)

text \<open>The value's \<^verbatim>\<open>expires_at\<close> is a time that the clock has not reached.\<close>

definition expires_after :: "pyval \<Rightarrow> pydatetime \<Rightarrow> bool" where
  "expires_after v t \<longleftrightarrow>
     (\<exists>s x. fld v ''expires_at'' = PStr s \<and> parse_iso s = Inr x \<and> instant t < instant x)"

lemma usable_decision:
  assumes "check_decision_usable decision now = Inr u"
  shows "\<exists>t. now = NowAt t \<and> expires_after decision t \<and> fld decision ''effect'' = PStr ''allow''"
  using assms
  by (auto simp: check_decision_usable_def expires_after_def is_str_iff rcatch_Inr elim!: require_clock_Inr)

lemma require_expiry_Inl: "require_expiry m label field = Inl e \<Longrightarrow> exn_class e = ContractValidationError"
  by (auto simp: require_expiry_def Let_def unless_Inl rbind_Inl rcatch_def split: sum.splits)

text \<open>What an accepted approval says.\<close>

lemma validate_approval_Inr:
  assumes "validate_approval approval staged intent ver now = Inr u"
  obtains moment digest where "require_clock now = Inr moment" "is_dict approval" "is_dict intent" "is_dict staged"
    "sha256_digest staged = Inr digest" "fld approval ''staged_change_digest'' = PStr digest"
    "fld intent ''staged_change_digest'' = PStr digest"
    "check_intent_approved intent approval = Inr ()" "fld approval ''policy_version'' = PStr ver"
    "fld approval ''process_id'' = fld intent ''process_id''"
    "fld approval ''repository_id'' = fld intent ''repository_id''"
    "fld approval ''operation'' = fld intent ''operation''"
    "fld approval ''approval_id'' = fld intent ''approval_id''"
    "\<exists>a x i. require_expiry approval ''approval time'' ''approved_at'' = Inr a \<and>
       require_expiry approval ''expiry'' ''expires_at'' = Inr x \<and>
       require_expiry intent ''intent expiry'' ''expires_at'' = Inr i \<and>
       instant a \<le> instant moment \<and> instant moment < instant x \<and> instant moment < instant i"
proof -
  from assms obtain moment digest where v: "require_clock now = Inr moment" "is_dict approval" "is_dict intent"
    "is_dict staged" "sha256_digest staged = Inr digest"
    "\<forall>k\<in>set match_fields. check_matching_field approval intent k = Inr ()"
    "require_digest (fld approval ''staged_change_digest'') ''approval: staged change digest is invalid'' = Inr digest"
    "require_digest (fld intent ''staged_change_digest'') ''approval: intent staged change digest is invalid'' = Inr digest"
    "check_intent_approved intent approval = Inr ()" "fld approval ''policy_version'' = PStr ver"
    "\<exists>a x i. require_expiry approval ''approval time'' ''approved_at'' = Inr a \<and>
       require_expiry approval ''expiry'' ''expires_at'' = Inr x \<and>
       require_expiry intent ''intent expiry'' ''expires_at'' = Inr i \<and>
       instant a \<le> instant moment \<and> instant moment < instant x \<and> instant moment < instant i"
    unfolding validate_approval_def
    by (simp only: unless_Inr rbind_Inr check_each_Inr not_less not_le simp_thms de_Morgan_disj) auto
  moreover have "fld approval ''staged_change_digest'' = PStr digest" "fld intent ''staged_change_digest'' = PStr digest"
    using v(7,8) by (auto simp: require_digest_def nonempty_str_iff)
  moreover have "fld approval k = fld intent k" if "k \<in> set match_fields" for k
    using that v(6) by (auto simp: check_matching_field_def)
  ultimately show thesis using that [of moment digest] by (simp add: match_fields_def)
qed

text \<open>With a usable clock and encodable contents the only class it raises is ContractValidationError.\<close>

lemma validate_approval_Inl:
  assumes "validate_approval approval staged intent ver now = Inl e" "require_clock now = Inr m"
    "encodable staged" "encodable intent"
  shows "exn_class e = ContractValidationError"
proof -
  have "sha256_digest staged = Inr (digest_of staged)" "sha256_digest intent = Inr (digest_of intent)"
    using assms(3,4) by (simp_all add: sha256_digest_encodable)
  with assms(1,2) show ?thesis
    by (auto simp: validate_approval_def check_intent_approved_def require_digest_def get_attr_def is_dict_iff
        unless_Inl rbind_Inl missing_error_def check_matching_field_def
        dest!: check_each_Inl dest: require_expiry_Inl split: if_splits)
qed

lemma decide_effect_allow:
  assumes "decide_effect ed cfg request approval staged intent now digest = Inr er" "fst er = ''allow''"
  shows "fld request ''operation'' = PStr ''publish_pull_request'' \<and>
    str_of (fld request ''repository_id'') \<in> set (cfg_repositories cfg) \<and>
    str_of (fld request ''actuator_id'') \<in> set (cfg_actuators cfg) \<and>
    fld request ''staged_change_digest'' = PStr digest \<and>
    py_eq (fld request ''branch_namespace'') (fld intent ''branch_namespace'') \<and>
    py_eq (fld request ''idempotency_key'') (fld intent ''idempotency_key'') \<and>
    approver_allowed cfg approval \<and>
    validate_approval approval staged intent (cfg_version cfg) now = Inr () \<and>
    verify_approval_signature ed approval (map_of (cfg_keys cfg) (str_of (fld approval ''approver_id'')))"
  using assms by (auto simp: decide_effect_def split: if_splits sum.splits)

lemma decide_Inr:
  assumes "decide ed cfg available did request approval staged intent now = Inr d"
  obtains moment digest er expires where "available" "require_clock now = Inr moment"
    "sha256_digest staged = Inr digest" "is_dict request"
    "decide_effect ed cfg request approval staged intent now digest = Inr er"
    "add_seconds moment (cfg_ttl cfg) = Inr expires"
    "d = decision_value cfg did request digest er moment expires"
  using assms by (auto simp: decide_def)

lemma decision_value_sel [simp]:
  "is_dict (decision_value cfg did request digest er moment expires)"
  "fld (decision_value cfg did request digest er moment expires) ''effect'' = PStr (fst er)"
  "fld (decision_value cfg did request digest er moment expires) ''expires_at'' = PStr (format_utc expires)"
  "fld (decision_value cfg did request digest er moment expires) ''operation'' = fld request ''operation''"
  "fld (decision_value cfg did request digest er moment expires) ''repository_id'' = fld request ''repository_id''"
  "fld (decision_value cfg did request digest er moment expires) ''staged_change_digest'' = PStr digest"
  by (simp_all add: decision_value_def)

section \<open>A sample publication\<close>

text \<open>Closed inputs on which the properties are applied.\<close>

lemma ascii_digits: "list_all is_digit s \<Longrightarrow> ascii s"
proof -
  have "\<not> digit7 c" if "is_digit c" for c
    using that by (cases c) (auto simp: is_digit_def of_char_Char horner_sum_simps split: if_splits)
  then show "list_all is_digit s \<Longrightarrow> ascii s" by (auto simp: ascii_def list_all_iff)
qed

lemma ascii_format_utc: "ascii (format_utc t)"
proof -
  have "ascii (pad k n)" for k n by (rule ascii_digits [OF pad_digits])
  then show ?thesis by (simp add: format_utc_def time_of_day_def Let_def split: prod.split)
qed

definition sample_staged :: pyval where
  "sample_staged = PDict [(''patch'', PStr ''diff'')]"

definition staged_digest :: string where
  "staged_digest = digest_of sample_staged"

lemma staged_digest: "sha256_digest sample_staged = Inr staged_digest" "is_digest staged_digest"
proof -
  have "encodable sample_staged" by (simp add: sample_staged_def text_eval)
  then show "sha256_digest sample_staged = Inr staged_digest" "is_digest staged_digest"
    by (simp_all add: staged_digest_def sha256_digest_encodable is_digest_digest_of)
qed

definition approved_key :: string where
  "approved_key = key_text ''agent/x'' ''main'' staged_digest"

definition approved_intent :: pyval where
  "approved_intent = PDict
     [(''process_id'', PStr ''p''), (''repository_id'', PStr ''owner/project''),
      (''operation'', PStr ''publish_pull_request''), (''approval_id'', PStr ''approval-1''),
      (''staged_change_digest'', PStr staged_digest), (''branch_namespace'', PStr ''agent/x''),
      (''base_branch'', PStr ''main''), (''idempotency_key'', PStr approved_key),
      (''expires_at'', PStr (format_utc sample_later))]"

definition actuator_request :: pyval where
  "actuator_request = PDict
     [(''actuator_id'', PStr ''github''), (''operation'', PStr ''publish_pull_request''),
      (''repository_id'', PStr ''owner/project''), (''branch_namespace'', PStr ''agent/x''),
      (''base_branch'', PStr ''main''), (''staged_change_digest'', PStr staged_digest),
      (''idempotency_key'', PStr approved_key)]"

definition sample_earlier :: pydatetime where
  "sample_earlier = \<lparr>wall = 0, utc_offset = Some 0\<rparr>"

definition sample_signature :: string where
  "sample_signature = replicate 128 (CHR ''0'')"

definition signed_approval :: pyval where
  "signed_approval = PDict
     [(''schema_version'', PInt 1), (''approval_id'', PStr ''approval-1''),
      (''approver_id'', PStr ''alice''), (''process_id'', PStr ''p''),
      (''operation'', PStr ''publish_pull_request''), (''repository_id'', PStr ''owner/project''),
      (''staged_change_digest'', PStr staged_digest),
      (''approved_intent_digest'', PStr (digest_of approved_intent)),
      (''policy_version'', PStr ''v1''), (''approved_at'', PStr (format_utc sample_earlier)),
      (''expires_at'', PStr (format_utc sample_later)), (''signature'', PStr sample_signature)]"

definition sample_config :: policy_config where
  "sample_config = \<lparr>cfg_version = ''v1'', cfg_repositories = [''owner/project''],
     cfg_actuators = [''github''], cfg_approvers = [''alice''],
     cfg_keys = [(''alice'', replicate 32 (CHR ''k''))], cfg_ttl = 300\<rparr>"

definition accepting :: "string \<Rightarrow> string \<Rightarrow> string \<Rightarrow> bool" where
  "accepting k s m = True"

lemma ascii_key: "ascii d \<Longrightarrow> ascii (key_text ''agent/x'' ''main'' d)"
  by (simp add: key_text_def branch_prefix_def quote_byte_def is_unreserved_def text_eval)

lemma ascii_samples: "ascii staged_digest" "ascii approved_key"
  using staged_digest by (simp_all add: ascii_digest approved_key_def ascii_key)

lemma approved_intent_digest: "sha256_digest approved_intent = Inr (digest_of approved_intent)"
  "is_digest (digest_of approved_intent)"
proof -
  have "encodable approved_intent"
    by (simp add: approved_intent_def text_eval ascii_samples ascii_format_utc)
  then show "sha256_digest approved_intent = Inr (digest_of approved_intent)" "is_digest (digest_of approved_intent)"
    by (simp_all add: sha256_digest_encodable is_digest_digest_of)
qed

lemma signed_approval_verifies:
  "verify_approval_signature accepting signed_approval (Some (replicate 32 (CHR ''k'')))"
proof -
  have a: "ascii (digest_of approved_intent)" using approved_intent_digest(2) by (rule ascii_digest)
  have "encodable (signed_content signed_approval)"
    by (simp add: signed_content_def approval_signed_fields_def signed_approval_def text_eval
        ascii_samples ascii_format_utc a nat_digits.simps)
  then have "is_ok (json_enc (signed_content signed_approval))" by (simp only: json_enc_ok)
  moreover have "keys_are signed_approval (approval_signed_fields @ [''signature''])" "is_dict signed_approval"
    by (simp_all add: keys_are_def signed_approval_def approval_signed_fields_def)
  ultimately obtain p where p: "approval_signature_payload signed_approval = Inr p"
    by (auto simp: approval_signature_payload_def is_ok_iff)
  have "is_signature sample_signature"
    by (simp add: is_signature_def sample_signature_def is_lower_hex_def list_all_length)
  with p show ?thesis
    by (simp add: verify_approval_signature_def accepting_def) (simp add: signed_approval_def)
qed

lemma sample_times: "require_clock (NowAt sample_now) = Inr sample_now"
  "parse_iso (format_utc sample_earlier) = Inr sample_earlier"
  "is_aware sample_earlier" "is_aware sample_later"
  "instant sample_earlier \<le> instant sample_now" "instant sample_now < instant sample_later"
proof -
  show "parse_iso (format_utc sample_earlier) = Inr sample_earlier"
    by (rule parse_format_utc) (simp_all add: sample_earlier_def valid_datetime_def max_wall_def)
  show "require_clock (NowAt sample_now) = Inr sample_now"
    by (simp add: require_clock_def sample_now_utc)
qed (simp_all add: sample_earlier_def sample_later_def is_aware_def
    sample_now_def instant_def)

lemma approved_check: "check_intent_approved approved_intent signed_approval = Inr ()"
  by (simp add: check_intent_approved_Inr approved_intent_digest signed_approval_def)

lemma approval_valid_now: "validate_approval signed_approval sample_staged approved_intent ''v1'' (NowAt sample_now) = Inr ()"
proof -
  have "require_expiry signed_approval ''approval time'' ''approved_at'' = Inr sample_earlier"
    "require_expiry signed_approval ''expiry'' ''expires_at'' = Inr sample_later"
    "require_expiry approved_intent ''intent expiry'' ''expires_at'' = Inr sample_later"
    using sample_times sample_later_parse
    by (simp_all add: require_expiry_Inr signed_approval_def approved_intent_def)
  moreover have "is_dict signed_approval" "is_dict approved_intent" "is_dict sample_staged"
    "fld signed_approval ''schema_version'' = PInt 1" "fld signed_approval ''policy_version'' = PStr ''v1''"
    by (simp_all add: signed_approval_def approved_intent_def sample_staged_def)
  moreover have "\<forall>k\<in>set match_fields. has_key signed_approval k \<and> has_key approved_intent k \<and>
      check_matching_field signed_approval approved_intent k = Inr ()"
    by (simp add: match_fields_def check_matching_field_def signed_approval_def approved_intent_def)
  moreover have "has_key signed_approval ''approver_id'' \<and> has_key signed_approval ''policy_version'' \<and>
      has_key signed_approval ''approved_at'' \<and> has_key signed_approval ''expires_at'' \<and>
      has_key approved_intent ''expires_at'' \<and> nonempty_str (fld signed_approval ''approver_id'')"
    by (simp add: signed_approval_def approved_intent_def)
  moreover have "fld signed_approval ''staged_change_digest'' = PStr staged_digest"
    "fld approved_intent ''staged_change_digest'' = PStr staged_digest" "staged_digest \<noteq> []"
    using is_digest_nonempty [OF staged_digest(2)] by (simp_all add: signed_approval_def approved_intent_def)
  ultimately show ?thesis
    using sample_times staged_digest approved_check
    by (simp add: validate_approval_def require_digest_def)
qed

definition allow_decision :: pyval where
  "allow_decision = decision_value sample_config (PStr ''decision-1'') actuator_request staged_digest
     (''allow'', allow_reasons) sample_now \<lparr>wall = 301000000, utc_offset = Some 0\<rparr>"

lemma sample_decide: "decide accepting sample_config True (PStr ''decision-1'') actuator_request signed_approval
    sample_staged approved_intent (NowAt sample_now) = Inr allow_decision"
proof -
  have "decide_effect accepting sample_config actuator_request signed_approval sample_staged approved_intent
      (NowAt sample_now) staged_digest = Inr (''allow'', allow_reasons)"
    using approval_valid_now signed_approval_verifies
    by (simp add: decide_effect_def sample_config_def approver_allowed_def)
      (simp add: actuator_request_def signed_approval_def approved_intent_def)
  moreover have "add_seconds sample_now (cfg_ttl sample_config) = Inr \<lparr>wall = 301000000, utc_offset = Some 0\<rparr>"
    by (simp add: add_seconds_def sample_now_def sample_config_def mk_utc_def max_wall_def)
  moreover have "is_dict actuator_request" "list_all (\<lambda>k. nonempty_str (fld actuator_request k)) request_text_fields"
    by (simp_all add: actuator_request_def request_text_fields_def)
  ultimately show ?thesis
    using sample_times staged_digest by (simp add: decide_def allow_decision_def)
qed

lemma allow_decision_effect: "fld allow_decision ''effect'' = PStr ''allow''"
  by (simp add: allow_decision_def)

section \<open>Properties\<close>

text \<open>
  Claim C7: the policy allows only what was approved. An allow decision means that the operation is
  publish_pull_request, that repository, actuator and approver are on the allowlists, that the request,
  the intent and the approval all carry the digest of the staged change, that approval and intent agree
  on process, repository, operation and approval id, that the approval binds the digest of this very
  intent under the current policy version, that it was given before now and neither it nor the intent
  has expired, and that its signature verifies under the approver's trusted key.
\<close>

theorem allow_requires_signed_approval:
  assumes "decide ed cfg available did request approval staged intent now = Inr d"
    and "fld d ''effect'' = PStr ''allow''"
  shows "available \<and> fld request ''operation'' = PStr ''publish_pull_request'' \<and>
    str_of (fld request ''repository_id'') \<in> set (cfg_repositories cfg) \<and>
    str_of (fld request ''actuator_id'') \<in> set (cfg_actuators cfg) \<and>
    (\<exists>digest. sha256_digest staged = Inr digest \<and> fld request ''staged_change_digest'' = PStr digest \<and>
       fld intent ''staged_change_digest'' = PStr digest \<and> fld approval ''staged_change_digest'' = PStr digest \<and>
       fld d ''staged_change_digest'' = PStr digest) \<and>
    (\<forall>k\<in>set match_fields. fld approval k = fld intent k) \<and>
    check_intent_approved intent approval = Inr () \<and>
    fld approval ''policy_version'' = PStr (cfg_version cfg) \<and>
    (\<exists>t a x i. now = NowAt t \<and> require_expiry approval ''approval time'' ''approved_at'' = Inr a \<and>
       require_expiry approval ''expiry'' ''expires_at'' = Inr x \<and>
       require_expiry intent ''intent expiry'' ''expires_at'' = Inr i \<and>
       instant a \<le> instant t \<and> instant t < instant x \<and> instant t < instant i) \<and>
    (\<exists>approver. fld approval ''approver_id'' = PStr approver \<and> approver \<in> set (cfg_approvers cfg) \<and>
       verify_approval_signature ed approval (map_of (cfg_keys cfg) approver))"
proof -
  from assms(1) obtain moment digest er expires where d: "available" "require_clock now = Inr moment"
    "sha256_digest staged = Inr digest"
    "decide_effect ed cfg request approval staged intent now digest = Inr er"
    "d = decision_value cfg did request digest er moment expires" by (rule decide_Inr)
  from d(5) assms(2) have "fst er = ''allow''" by simp
  from decide_effect_allow [OF d(4) this] have e: "fld request ''operation'' = PStr ''publish_pull_request''"
    "str_of (fld request ''repository_id'') \<in> set (cfg_repositories cfg)"
    "str_of (fld request ''actuator_id'') \<in> set (cfg_actuators cfg)"
    "fld request ''staged_change_digest'' = PStr digest" "approver_allowed cfg approval"
    "validate_approval approval staged intent (cfg_version cfg) now = Inr ()"
    "verify_approval_signature ed approval (map_of (cfg_keys cfg) (str_of (fld approval ''approver_id'')))"
    by blast+
  from d(2) obtain t where t: "now = NowAt t" "instant moment = instant t" by (rule require_clock_Inr) blast
  from e(5) obtain approver where ap: "fld approval ''approver_id'' = PStr approver" "approver \<in> set (cfg_approvers cfg)"
    by (auto simp: approver_allowed_def nonempty_str_iff)
  from e(6) show ?thesis
    using d(1-3) e(1-4,7) t ap
    by (elim validate_approval_Inr) (auto simp: match_fields_def d(5))
qed

theorem allow_requires_signed_approval_witness:
  "verify_approval_signature accepting signed_approval (map_of (cfg_keys sample_config) ''alice'')"
proof -
  have "fld signed_approval ''approver_id'' = PStr ''alice''" by (simp add: signed_approval_def)
  with allow_requires_signed_approval [OF sample_decide allow_decision_effect] show ?thesis by auto
qed

text \<open>
  Claim C10: an allow decision is usable exactly until its time to live has passed. Whatever the time zone
  of the two clocks, \<^verbatim>\<open>check_decision_usable\<close> accepts a decision made at \<open>t\<close> at a later use time
  \<open>u\<close> if and only if \<open>u\<close> is before \<open>t\<close> plus the configured seconds.
\<close>

theorem decision_usable_until_ttl:
  assumes "decide ed cfg available did request approval staged intent (NowAt t) = Inr d"
    and "fld d ''effect'' = PStr ''allow''" and "require_clock (NowAt u) = Inr moment"
  shows "check_decision_usable d (NowAt u) = Inr () \<longleftrightarrow> instant u < instant t + cfg_ttl cfg * 1000000"
proof -
  from assms(1) obtain m digest er expires where d: "require_clock (NowAt t) = Inr m"
    "add_seconds m (cfg_ttl cfg) = Inr expires" "d = decision_value cfg did request digest er m expires"
    by (rule decide_Inr)
  from d(1) have m: "instant m = instant t" "utc_offset m = Some 0" by (auto elim: require_clock_Inr)
  from assms(3) have u: "instant moment = instant u" by (auto elim: require_clock_Inr)
  from add_seconds_facts [OF d(2) m(2)] have x: "instant expires = instant t + cfg_ttl cfg * 1000000"
    "utc_offset expires = Some 0" "valid_datetime expires" using m(1) by auto
  from parse_format_utc [OF x(3,2)] x(2) have p: "parse_iso (format_utc expires) = Inr expires" "is_aware expires"
    by (simp_all add: is_aware_def)
  show ?thesis
    using assms(2,3) p u x(1) by (auto simp: check_decision_usable_def d(3))
qed

theorem decision_usable_until_ttl_witness:
  "check_decision_usable allow_decision (NowAt sample_now) = Inr ()"
  using decision_usable_until_ttl [OF sample_decide allow_decision_effect sample_times(1)]
  by (simp add: sample_config_def)

text \<open>
  Claim C9: an approval binds one intent. Two intents that pass the check against the same approval have
  the same JSON content, unless their canonical texts are a SHA-256 collision.
\<close>

theorem approval_binds_one_intent:
  assumes "check_intent_approved intent approval = Inr ()" and "check_intent_approved intent' approval = Inr ()"
  shows "normal intent = normal intent' \<or> digest_collision intent intent'"
  using assms same_digest_same_content [of intent _ intent'] by (auto simp: check_intent_approved_Inr)

theorem approval_binds_one_intent_witness:
  "normal approved_intent = normal approved_intent \<or> digest_collision approved_intent approved_intent"
  by (rule approval_binds_one_intent [OF approved_check approved_check])

text \<open>
  The policy fails closed. With a usable clock, a well-formed request and encodable contents a
  decision is always returned, and it is a denial unless every condition of an allow holds; nothing
  about a malformed approval makes it raise.
\<close>

theorem decide_returns:
  assumes "require_clock now = Inr moment" "add_seconds moment (cfg_ttl cfg) = Inr expires"
    "is_dict request" "\<forall>k\<in>set request_text_fields. nonempty_str (fld request k)"
    "encodable staged" "is_dict intent" "encodable intent"
  shows "\<exists>d. decide ed cfg True did request approval staged intent now = Inr d \<and>
    (fld d ''effect'' = PStr ''allow'' \<or> fld d ''effect'' = PStr ''deny'')"
proof -
  have dig: "sha256_digest staged = Inr (digest_of staged)" using assms(5) by (rule sha256_digest_encodable)
  have "\<exists>er. decide_effect ed cfg request approval staged intent now (digest_of staged) = Inr er \<and>
      fst er \<in> {''allow'', ''deny''}"
    using assms(6) validate_approval_Inl [OF _ assms(1,5,7)]
    by (auto simp: decide_effect_def split: sum.split)
  then obtain er where er: "decide_effect ed cfg request approval staged intent now (digest_of staged) = Inr er"
    "fst er = ''allow'' \<or> fst er = ''deny''" by auto
  with assms dig show ?thesis by (simp add: decide_def list_all_iff)
qed

theorem decide_returns_witness:
  "\<exists>d. decide accepting sample_config True PNone actuator_request PNone sample_staged (PDict []) (NowAt sample_now) = Inr d \<and>
    (fld d ''effect'' = PStr ''allow'' \<or> fld d ''effect'' = PStr ''deny'')"
proof (rule decide_returns [OF sample_times(1), where expires = "\<lparr>wall = 301000000, utc_offset = Some 0\<rparr>"])
  show "add_seconds sample_now (cfg_ttl sample_config) = Inr \<lparr>wall = 301000000, utc_offset = Some 0\<rparr>"
    by (simp add: add_seconds_def sample_now_def sample_config_def mk_utc_def max_wall_def)
  show "encodable sample_staged" by (simp add: sample_staged_def text_eval)
qed (simp_all add: actuator_request_def request_text_fields_def)

end
