(* ===== verification/Actuator.thy ===== *)
theory Actuator
  imports Authority Gateway
begin

text \<open>
  \<^verbatim>\<open>src/app_contracts/actuator.py\<close> and \<^verbatim>\<open>github_actuator.py\<close>: the adapter that publishes a request
  only when an allow decision, the approved intent and the gateway agree with it, and the brokered
  actuator that opens its provider channel only after the same gates. The endpoint's
  \<^verbatim>\<open>publish_pull_request\<close> and the broker's channel opening are parameters constrained by the
  interfaces \<open>publication_endpoint\<close> and \<open>credential_broker\<close>.
\<close>

section \<open>The adapter\<close>

definition actuator_text_fields :: "string list" where
  "actuator_text_fields = [''actuator_id'', ''operation'', ''repository_id'', ''branch_namespace'',
     ''base_branch'', ''staged_change_digest'', ''idempotency_key'']"

text \<open>\<^verbatim>\<open>if left[field] != request[field]: raise\<close>.\<close>

definition require_same :: "string \<Rightarrow> pyval \<Rightarrow> pyval \<Rightarrow> string \<Rightarrow> unit res" where
  "require_same label left request k =
     rbind (idx left k) (\<lambda>v.
     unless (\<not> py_eq v (fld request k))
       (contract_error (''actuator: '' @ label @ '' '' @ k @ '' mismatch'')) (Inr ()))"

definition gateway_slow :: "gateway_decision \<Rightarrow> bool" where
  "gateway_slow g \<longleftrightarrow> allowed g \<and> path g = SLOW"

text \<open>Everything \<^verbatim>\<open>publish_authorized_request\<close> checks; \<open>callable\<close> is whether the endpoint publishes.\<close>

definition check_authorized ::
  "bool \<Rightarrow> pyval \<Rightarrow> pyval \<Rightarrow> pyval \<Rightarrow> gateway_decision option \<Rightarrow> pyval \<Rightarrow> now_arg \<Rightarrow> pyval \<Rightarrow> unit res" where
  "check_authorized callable request decision approval_valid gateway intent now approval =
     unless (approval = PNone) (contract_error ''actuator: approval is required'')
    (unless (approval_valid \<noteq> PBool True) (contract_error ''actuator: approval proof is invalid'')
    (unless (\<not> callable) (contract_error ''actuator: endpoint is malformed'')
    (unless (\<not> is_dict request) (contract_error ''actuator: request is malformed'')
    (rbind (check_each (\<lambda>k. unless (\<not> nonempty_str (fld request k))
         (contract_error ''actuator: request identity is invalid'') (Inr ())) actuator_text_fields) (\<lambda>_.
     unless (fld request ''operation'' \<noteq> PStr ''publish_pull_request'')
       (contract_error ''actuator: operation is not registered'')
    (case gateway of
       None \<Rightarrow> Inl (contract_error ''actuator: gateway decision is malformed'')
     | Some g \<Rightarrow>
         rbind (check_decision_usable decision now) (\<lambda>_.
         rbind (check_intent_approved intent approval) (\<lambda>_.
         unless (\<not> gateway_slow g) (contract_error ''actuator: gateway has not authorized slow path'')
        (unless (fld decision ''effect'' \<noteq> PStr ''allow'')
           (contract_error ''actuator: policy decision is not allow'')
        (rbind (check_each (require_same ''policy decision'' decision request)
            [''operation'', ''repository_id'', ''staged_change_digest'']) (\<lambda>_.
         rbind (check_each (require_same ''approved intent'' intent request)
            [''branch_namespace'', ''base_branch'', ''idempotency_key'']) (\<lambda>_.
         rbind (require_base_branch ''actuator: base branch is invalid'' (fld request ''base_branch'')) (\<lambda>_.
         rbind (publication_idempotency_key (fld request ''branch_namespace'')
            (str_of (fld request ''base_branch'')) (str_of (fld request ''staged_change_digest''))) (\<lambda>k.
         unless (fld request ''idempotency_key'' \<noteq> PStr k)
           (contract_error ''actuator: idempotency key does not match publication intent'')
           (Inr ())))))))))))))))"

definition boundary_request :: "pyval \<Rightarrow> pyval \<Rightarrow> pyval \<Rightarrow> pyval" where
  "boundary_request request decision approval_valid = PDict
     [(''operation'', fld request ''operation''), (''repository_id'', fld request ''repository_id''),
      (''branch'', fld request ''branch_namespace''), (''base_branch'', fld request ''base_branch''),
      (''staged_change_digest'', fld request ''staged_change_digest''),
      (''idempotency_key'', fld request ''idempotency_key''),
      (''policy_effect'', fld decision ''effect''), (''approval_valid'', approval_valid)]"

text \<open>\<^verbatim>\<open>publish_authorized_request\<close>; an endpoint without \<^verbatim>\<open>publish_pull_request\<close> is \<open>None\<close>.\<close>

definition publish_authorized_request ::
  "(pyval \<Rightarrow> ('e, mock_pull_request) eff) option \<Rightarrow> pyval \<Rightarrow> pyval \<Rightarrow> pyval \<Rightarrow> gateway_decision option \<Rightarrow>
   pyval \<Rightarrow> now_arg \<Rightarrow> pyval \<Rightarrow> ('e, mock_pull_request) eff" where
  "publish_authorized_request endpoint request decision approval_valid gateway intent now approval e =
     (case check_authorized (endpoint \<noteq> None) request decision approval_valid gateway intent now approval of
        Inl x \<Rightarrow> (Inl x, e)
      | Inr _ \<Rightarrow> the endpoint (boundary_request request decision approval_valid) e)"

section \<open>The brokered actuator\<close>

text \<open>The gates before the broker is asked for a channel.\<close>

definition check_before_broker ::
  "pyval \<Rightarrow> gateway_decision option \<Rightarrow> pyval \<Rightarrow> now_arg \<Rightarrow> pyval \<Rightarrow> unit res" where
  "check_before_broker decision gateway intent now approval =
     unless (approval = PNone) (contract_error ''actuator: approval is required'')
    (rbind (check_decision_usable decision now) (\<lambda>_.
     rbind (check_intent_approved intent approval) (\<lambda>_.
     (case gateway of
        None \<Rightarrow> Inl (contract_error ''actuator: gateway decision is malformed'')
      | Some g \<Rightarrow> unless (\<not> gateway_slow g)
          (contract_error ''actuator: gateway has not authorized slow path'') (Inr ())))))"

text \<open>
  \<^verbatim>\<open>BrokeredGitHubActuator.publish_pull_request\<close> over the state of the broker and of the provider;
  \<open>channel_publish c\<close> is what the channel \<open>c\<close> does when asked to publish.
\<close>

definition brokered_publish ::
  "(pyval \<Rightarrow> pyval \<Rightarrow> now_arg \<Rightarrow> ('b, 'c) eff) \<Rightarrow> ('c \<Rightarrow> pyval \<Rightarrow> ('e, mock_pull_request) eff) \<Rightarrow>
   pyval \<Rightarrow> pyval \<Rightarrow> pyval \<Rightarrow> pyval \<Rightarrow> gateway_decision option \<Rightarrow> pyval \<Rightarrow> now_arg \<Rightarrow> pyval \<Rightarrow>
   ('b \<times> 'e, mock_pull_request) eff" where
  "brokered_publish open_channel channel_publish request grant decision approval_valid gateway intent now approval =
     (\<lambda>(b, e).
       case check_before_broker decision gateway intent now approval of
         Inl x \<Rightarrow> (Inl x, b, e)
       | Inr _ \<Rightarrow>
           (case open_channel grant request now b of
              (Inl x, b') \<Rightarrow> (Inl x, b', e)
            | (Inr c, b') \<Rightarrow>
                (case publish_authorized_request (Some (channel_publish c)) request decision approval_valid
                    gateway intent now approval e of
                  (r, e') \<Rightarrow> (r, b', e'))))"

section \<open>Facts\<close>

lemma require_same_Inr:
  "require_same label l r k = Inr u \<longleftrightarrow> (\<exists>v. idx l k = Inr v \<and> py_eq v (fld r k))"
  by (auto simp: require_same_def)

lemma check_authorized_Inr:
  assumes "check_authorized callable request decision approval_valid gateway intent now approval = Inr u"
  obtains g where "approval \<noteq> PNone" "approval_valid = PBool True" "is_dict request" "gateway = Some g"
    "check_decision_usable decision now = Inr ()" "check_intent_approved intent approval = Inr ()"
    "gateway_slow g" "fld decision ''effect'' = PStr ''allow''" "is_dict intent"
    "\<forall>k\<in>set [''operation'', ''repository_id'', ''staged_change_digest'']. fld decision k = fld request k"
    "\<forall>k\<in>set [''branch_namespace'', ''base_branch'', ''idempotency_key'']. fld intent k = fld request k"
    "\<forall>k\<in>set actuator_text_fields. nonempty_str (fld request k)"
    "fld request ''operation'' = PStr ''publish_pull_request''"
proof -
  have strs: "\<forall>k\<in>set actuator_text_fields. nonempty_str (fld request k)"
    using assms by (auto simp: check_authorized_def)
  have same: "fld l k = fld request k \<and> is_dict l"
    if "require_same label l request k = Inr ()" "k \<in> set actuator_text_fields" for label l k
    using that strs by (auto simp: require_same_Inr idx_Inr nonempty_str_iff dest!: bspec)
  from assms obtain g where g: "approval \<noteq> PNone" "approval_valid = PBool True" "is_dict request"
    "gateway = Some g" "check_decision_usable decision now = Inr ()"
    "check_intent_approved intent approval = Inr ()" "gateway_slow g" "fld decision ''effect'' = PStr ''allow''"
    "\<forall>k\<in>set [''operation'', ''repository_id'', ''staged_change_digest'']. require_same ''policy decision'' decision request k = Inr ()"
    "\<forall>k\<in>set [''branch_namespace'', ''base_branch'', ''idempotency_key'']. require_same ''approved intent'' intent request k = Inr ()"
    "fld request ''operation'' = PStr ''publish_pull_request''"
    by (auto simp: check_authorized_def split: option.splits)
  have sub: "set [''operation'', ''repository_id'', ''staged_change_digest''] \<subseteq> set actuator_text_fields"
    "set [''branch_namespace'', ''base_branch'', ''idempotency_key''] \<subseteq> set actuator_text_fields"
    by (simp_all add: actuator_text_fields_def)
  show thesis
  proof (rule that [OF g(1-8)])
    show "is_dict intent" using g(10) same sub(2) by fastforce
    show "\<forall>k\<in>set [''operation'', ''repository_id'', ''staged_change_digest'']. fld decision k = fld request k"
      using g(9) same sub(1) by blast
    show "\<forall>k\<in>set [''branch_namespace'', ''base_branch'', ''idempotency_key'']. fld intent k = fld request k"
      using g(10) same sub(2) by blast
  qed (use strs g(11) in auto)
qed

text \<open>
  The receipt belongs to the boundary request, whatever endpoint provides it: this is where the
  interface is used.
\<close>

context publication_endpoint
begin

lemma authorized_receipt:
  assumes "inv e"
    "publish_authorized_request (Some publish) request decision approval_valid gateway intent now approval e = (Inr pr, e')"
  shows "check_authorized True request decision approval_valid gateway intent now approval = Inr () \<and>
    publishes pr (boundary_request request decision approval_valid) \<and> pr \<in> receipts e' \<and> inv e'"
  using assms publish_receipt [OF assms(1)]
  by (auto simp: publish_authorized_request_def split: sum.splits)

lemma unauthorized_keeps:
  assumes "publish_authorized_request (Some publish) request decision approval_valid gateway intent now approval e = (Inl x, e')"
  shows "e' = e"
  using assms publish_failed by (auto simp: publish_authorized_request_def split: sum.splits)

end

section \<open>Properties\<close>

lemma boundary_request_sel [simp]:
  "fld (boundary_request r d v) ''branch'' = fld r ''branch_namespace''"
  "fld (boundary_request r d v) ''base_branch'' = fld r ''base_branch''"
  "fld (boundary_request r d v) ''idempotency_key'' = fld r ''idempotency_key''"
  "fld (boundary_request r d v) ''repository_id'' = fld r ''repository_id''"
  "fld (boundary_request r d v) ''staged_change_digest'' = fld r ''staged_change_digest''"
  by (simp_all add: boundary_request_def)

lemma authorized_pull_request:
  assumes "endpoint_ok e"
    "publish_authorized_request (Some publish_pull_request) request decision approval_valid gateway intent now approval e
       = (Inr pr, e')"
  shows "is_dict intent \<and> check_intent_approved intent approval = Inr () \<and>
    check_decision_usable decision now = Inr () \<and> (\<exists>g. gateway = Some g \<and> gateway_slow g) \<and>
    PStr (pr_branch pr) = fld intent ''branch_namespace'' \<and> PStr (pr_base_branch pr) = fld intent ''base_branch'' \<and>
    PStr (pr_idempotency_key pr) = fld intent ''idempotency_key'' \<and>
    PStr (pr_repository_id pr) = fld decision ''repository_id'' \<and>
    PStr (pr_staged_change_digest pr) = fld decision ''staged_change_digest'' \<and>
    pr \<in> endpoint_receipts e' \<and> endpoint_ok e'"
proof -
  from mock.authorized_receipt [OF assms] have c: "check_authorized True request decision approval_valid gateway
      intent now approval = Inr ()" and p: "publishes pr (boundary_request request decision approval_valid)"
    "pr \<in> endpoint_receipts e'" "endpoint_ok e'" by blast+
  from c p show ?thesis by (elim check_authorized_Inr) (simp add: publishes_def)
qed

lemma receipt_key: "endpoint_ok e \<Longrightarrow> pr \<in> endpoint_receipts e \<Longrightarrow>
    pr_idempotency_key pr = key_text (pr_branch pr) (pr_base_branch pr) (pr_staged_change_digest pr)"
  using endpoint_lookup entry_ok_key by blast

text \<open>
  Claim C6: the brokered actuator has no effect without authority. Broker and provider are in states that
  their operations keep (\<open>broker_ok\<close>, \<open>endpoint_ok\<close>). If a call changes the state of the broker or of the provider, an approval was presented that names the digest of this very intent, the
  decision says allow and has not expired, the gateway allowed the request on the slow path, and the grant
  was unused so far, names the digest of this very request and its actuator, repository and operation, and
  has not expired; afterwards it is used. If the provider changed, then moreover the approval proof is valid
  and the decision and the intent agree with the request in repository, staged change, branches and key.
\<close>

theorem no_effect_without_authority:
  assumes "broker_ok b" "endpoint_ok e"
    and "brokered_publish (open_github_publication_channel factory) (\<lambda>_. publish_pull_request) request grant
           decision approval_valid gateway intent now approval (b, e) = (r, b', e')"
    and "(b', e') \<noteq> (b, e)"
  shows "approval \<noteq> PNone \<and>
    sha256_digest intent = Inr (str_of (fld approval ''approved_intent_digest'')) \<and>
    fld decision ''effect'' = PStr ''allow'' \<and> (\<exists>t. now = NowAt t \<and> expires_after decision t) \<and>
    (\<exists>g. gateway = Some g \<and> allowed g \<and> path g = SLOW) \<and>
    str_of (fld grant ''credential_grant_id'') \<notin> set (opened_grants b) \<and>
    opened_grants b' = opened_grants b @ [str_of (fld grant ''credential_grant_id'')] \<and>
    sha256_digest request = Inr (str_of (fld grant ''request_digest'')) \<and>
    (\<forall>k\<in>{''actuator_id'', ''repository_id'', ''operation''}. fld grant k = fld request k) \<and>
    (\<exists>t x. now = NowAt t \<and> grant_expiry grant = Inr x \<and> instant t < instant x) \<and>
    (e' \<noteq> e \<longrightarrow> approval_valid = PBool True \<and>
       (\<forall>k\<in>{''repository_id'', ''staged_change_digest''}. fld decision k = fld request k) \<and>
       (\<forall>k\<in>{''branch_namespace'', ''base_branch'', ''idempotency_key''}. fld intent k = fld request k))"
proof -
  have gate: "check_before_broker decision gateway intent now approval = Inr ()"
    using assms(3,4) by (auto simp: brokered_publish_def split: sum.splits)
  then have g: "approval \<noteq> PNone" "check_decision_usable decision now = Inr ()"
    "check_intent_approved intent approval = Inr ()" "\<exists>g. gateway = Some g \<and> allowed g \<and> path g = SLOW"
    by (auto simp: check_before_broker_def gateway_slow_def split: option.splits)
  obtain res b1 where opn: "open_github_publication_channel factory grant request now b = (res, b1)"
    by (cases rule: prod.exhaust)
  obtain c where c: "res = Inr c"
    using assms(3,4) gate opn in_memory.open_refused [of factory grant request now b _ b1]
    by (cases res) (auto simp: brokered_publish_def)
  obtain e1 where pub: "publish_authorized_request (Some publish_pull_request) request decision approval_valid
      gateway intent now approval e = (r, e1)" and "b' = b1" "e' = e1"
    using assms(3) gate opn c by (auto simp: brokered_publish_def split: prod.splits)
  note opened = in_memory.open_fresh [OF assms(1) opn [unfolded c]]
  have "e' = e \<or> check_authorized True request decision approval_valid gateway intent now approval = Inr ()"
    using pub \<open>e' = e1\<close> by (auto simp: publish_authorized_request_def split: sum.splits)
  then have "e' \<noteq> e \<longrightarrow> approval_valid = PBool True \<and>
      (\<forall>k\<in>{''repository_id'', ''staged_change_digest''}. fld decision k = fld request k) \<and>
      (\<forall>k\<in>{''branch_namespace'', ''base_branch'', ''idempotency_key''}. fld intent k = fld request k)"
    by (auto elim!: check_authorized_Inr)
  moreover from opened have "validate_credential_use_grant grant request now = Inr ()" by blast
  then have "sha256_digest request = Inr (str_of (fld grant ''request_digest''))"
    "\<forall>k\<in>{''actuator_id'', ''repository_id'', ''operation''}. fld grant k = fld request k"
    "\<exists>t x. now = NowAt t \<and> grant_expiry grant = Inr x \<and> instant t < instant x"
    by (rule validate_grant_Inr; force dest: astimezone_utc_facts)+
  moreover have "sha256_digest intent = Inr (str_of (fld approval ''approved_intent_digest''))"
    using g(3) by (auto simp: check_intent_approved_Inr)
  ultimately show ?thesis using g usable_decision [OF g(2)] opened \<open>b' = b1\<close> by blast
qed

lemma sample_slow: "gateway_slow (decide_path SLOW True [])"
  by (simp add: gateway_slow_def)

lemma key_not_empty: "approved_key \<noteq> []" "staged_digest \<noteq> []"
  using is_digest_nonempty [OF staged_digest(2)] by (simp_all add: approved_key_def key_text_nonempty)

lemma usable_until:
  assumes "require_clock (NowAt t) = Inr m" "instant m < 301000000"
  shows "check_decision_usable allow_decision (NowAt t) = Inr ()"
proof -
  have "parse_iso (format_utc \<lparr>wall = 301000000, utc_offset = Some 0\<rparr>) = Inr \<lparr>wall = 301000000, utc_offset = Some 0\<rparr>"
    by (rule parse_format_utc) (simp_all add: valid_datetime_def max_wall_def)
  then show ?thesis
    using assms
    by (simp add: check_decision_usable_def allow_decision_def decision_value_def is_aware_def sample_now_def instant_def)
qed

lemma sample_usable: "check_decision_usable allow_decision (NowAt sample_now) = Inr ()"
  using usable_until [OF sample_times(1)] by (simp add: sample_now_def instant_def)

lemma sample_authorized_at:
  assumes "check_decision_usable allow_decision now = Inr ()" "gateway_slow g"
  shows "check_authorized True actuator_request allow_decision (PBool True) (Some g) approved_intent now
    signed_approval = Inr ()"
proof -
  have key: "publication_idempotency_key (PStr ''agent/x'') ''main'' staged_digest = Inr approved_key"
    by (simp add: key_Inr branch_prefix_def approved_key_def text_eval)
  have "\<forall>k\<in>set actuator_text_fields. nonempty_str (fld actuator_request k)"
    by (simp add: actuator_text_fields_def actuator_request_def key_not_empty)
  moreover have "\<forall>k\<in>set [''operation'', ''repository_id'', ''staged_change_digest''].
      require_same ''policy decision'' allow_decision actuator_request k = Inr ()"
    by (simp add: require_same_Inr idx_def allow_decision_def decision_value_def actuator_request_def)
  moreover have "\<forall>k\<in>set [''branch_namespace'', ''base_branch'', ''idempotency_key''].
      require_same ''approved intent'' approved_intent actuator_request k = Inr ()"
    by (simp add: require_same_Inr idx_def approved_intent_def actuator_request_def)
  moreover have "require_base_branch ''actuator: base branch is invalid'' (fld actuator_request ''base_branch'') = Inr ()"
    by (simp add: actuator_request_def require_base_branch_def sample_base)
  moreover have "is_dict actuator_request" "fld actuator_request ''operation'' = PStr ''publish_pull_request''"
    "fld actuator_request ''branch_namespace'' = PStr ''agent/x''" "fld actuator_request ''base_branch'' = PStr ''main''"
    "fld actuator_request ''staged_change_digest'' = PStr staged_digest"
    "fld actuator_request ''idempotency_key'' = PStr approved_key" "signed_approval \<noteq> PNone"
    by (simp_all add: actuator_request_def signed_approval_def)
  ultimately show ?thesis
    using assms approved_check key allow_decision_effect
    unfolding check_authorized_def by (simp only: unless_Inr rbind_Inr check_each_Inr option.case str_of.simps) simp
qed

lemmas sample_authorized = sample_authorized_at [OF sample_usable sample_slow]

definition first_request :: pyval where
  "first_request = boundary_request actuator_request allow_decision (PBool True)"

lemma first_request_check: "check_publish_request first_request = Inr ()"
proof -
  have key: "publication_idempotency_key (PStr ''agent/x'') ''main'' staged_digest = Inr approved_key"
    by (simp add: key_Inr branch_prefix_def approved_key_def text_eval)
  show ?thesis
    by (simp add: check_publish_request_def first_request_def boundary_request_def actuator_request_def
        allow_decision_effect keys_are_def request_keys_def text_keys_def require_base_branch_def sample_base key
        staged_digest branch_prefix_def key_not_empty text_eval)
qed

lemma sample_authorized_publish:
  "publish_authorized_request (Some publish_pull_request) actuator_request allow_decision (PBool True)
     (Some (decide_path SLOW True [])) approved_intent (NowAt sample_now) signed_approval [] =
   (Inr (pull_request_of 1 first_request),
    [(pr_idempotency_key (pull_request_of 1 first_request), pull_request_of 1 first_request)])"
  by (simp add: publish_authorized_request_def sample_authorized)
    (simp add: publish_pull_request_def first_request_check [unfolded first_request_def] Let_def first_request_def)

definition actuator_grant :: pyval where
  "actuator_grant = PDict [(''credential_grant_id'', PStr ''grant-2''), (''actuator_id'', PStr ''github''),
     (''repository_id'', PStr ''owner/project''), (''operation'', PStr ''publish_pull_request''),
     (''request_digest'', PStr (digest_of actuator_request)), (''single_use'', PBool True),
     (''credential_class'', PStr ''github-app-installation''),
     (''expires_at'', PStr (format_utc sample_later))]"

lemma actuator_grant_valid: "validate_credential_use_grant actuator_grant actuator_request (NowAt sample_now) = Inr ()"
proof -
  have "encodable actuator_request" by (simp add: actuator_request_def ascii_samples text_eval)
  then have "sha256_digest actuator_request = Inr (digest_of actuator_request)" by (rule sha256_digest_encodable)
  moreover have "grant_expiry actuator_grant = Inr sample_later"
    using sample_later_parse sample_times by (simp add: grant_expiry_def Let_def actuator_grant_def)
  ultimately show ?thesis
    using sample_times sample_now_utc
    by (simp add: validate_credential_use_grant_def actuator_grant_def actuator_request_def
        required_grant_fields_def required_request_fields_def)
qed

lemma sample_open_2: "open_github_publication_channel (Inr (Some ())) actuator_grant actuator_request
    (NowAt sample_now) new_broker = (Inr (), \<lparr>opened_grants = [''grant-2''], used_grants = [''grant-2'']\<rparr>)"
  by (simp add: open_github_publication_channel_def actuator_grant_valid new_broker_def)
    (simp add: actuator_grant_def Let_def)

lemma sample_brokered: "brokered_publish (open_github_publication_channel (Inr (Some ()))) (\<lambda>_. publish_pull_request)
    actuator_request actuator_grant allow_decision (PBool True) (Some (decide_path SLOW True [])) approved_intent
    (NowAt sample_now) signed_approval (new_broker, []) =
    (Inr (pull_request_of 1 first_request), \<lparr>opened_grants = [''grant-2''], used_grants = [''grant-2'']\<rparr>,
     [(pr_idempotency_key (pull_request_of 1 first_request), pull_request_of 1 first_request)])"
proof -
  have "signed_approval \<noteq> PNone" by (simp add: signed_approval_def)
  then have "check_before_broker allow_decision (Some (decide_path SLOW True [])) approved_intent (NowAt sample_now)
      signed_approval = Inr ()"
    using sample_usable approved_check sample_slow by (simp add: check_before_broker_def)
  then show ?thesis
    by (simp add: brokered_publish_def sample_open_2 sample_authorized_publish)
qed

theorem no_effect_without_authority_witness:
  "\<exists>b e. brokered_publish (open_github_publication_channel (Inr (Some ()))) (\<lambda>_. publish_pull_request)
      actuator_request actuator_grant allow_decision (PBool True) (Some (decide_path SLOW True [])) approved_intent
      (NowAt sample_now) signed_approval (new_broker, []) = (Inr (pull_request_of 1 first_request), b, e) \<and>
    length e = 1 \<and> opened_grants new_broker = [] \<and> opened_grants b = [''grant-2''] \<and>
    expires_after allow_decision sample_now \<and>
    sha256_digest actuator_request = Inr (str_of (fld actuator_grant ''request_digest'')) \<and>
    sha256_digest approved_intent = Inr (str_of (fld signed_approval ''approved_intent_digest'')) \<and>
    fld approved_intent ''idempotency_key'' = fld actuator_request ''idempotency_key''"
  using no_effect_without_authority [OF new_broker_ok endpoint_ok_empty sample_brokered] sample_brokered
  by (simp add: new_broker_def)

text \<open>
  A call of the actuator with its arguments, and the endpoint after it, whatever the call returned.
\<close>

record actuator_call =
  ac_request :: pyval
  ac_decision :: pyval
  ac_approval_valid :: pyval
  ac_gateway :: "gateway_decision option"
  ac_intent :: pyval
  ac_now :: now_arg
  ac_approval :: pyval

definition actuator_publish :: "actuator_call \<Rightarrow> (endpoint, mock_pull_request) eff" where
  "actuator_publish c = publish_authorized_request (Some publish_pull_request) (ac_request c) (ac_decision c)
     (ac_approval_valid c) (ac_gateway c) (ac_intent c) (ac_now c) (ac_approval c)"

definition actuator_step :: "actuator_call \<Rightarrow> endpoint \<Rightarrow> endpoint" where
  "actuator_step c e = snd (actuator_publish c e)"

lemma actuator_step_keeps:
  assumes "endpoint_ok e"
  shows "endpoint_ok (actuator_step c e) \<and> endpoint_receipts e \<subseteq> endpoint_receipts (actuator_step c e)"
proof -
  obtain r e' where a: "actuator_publish c e = (r, e')" by (cases rule: prod.exhaust)
  show ?thesis
  proof (cases r)
    case (Inl x)
    with a mock.unauthorized_keeps have "e' = e" by (simp add: actuator_publish_def)
    with a assms show ?thesis by (simp add: actuator_step_def)
  next
    case (Inr pr)
    with a have p: "publish_pull_request (boundary_request (ac_request c) (ac_decision c) (ac_approval_valid c)) e
        = (Inr pr, e')"
      by (auto simp: actuator_publish_def publish_authorized_request_def split: sum.splits)
    from mock.publish_receipt [OF assms p] a show ?thesis by (auto simp: actuator_step_def)
  qed
qed

lemma actuator_steps_keep:
  "endpoint_ok e \<Longrightarrow> endpoint_ok (fold actuator_step cs e) \<and>
     endpoint_receipts e \<subseteq> endpoint_receipts (fold actuator_step cs e)"
  using actuator_step_keeps by (induction cs arbitrary: e) fastforce+

text \<open>What the approved intent of a publication says about its pull request.\<close>

lemma same_approval_same_key:
  assumes "endpoint_ok e" "endpoint_ok e2" "wf_val (ac_intent c)" "wf_val (ac_intent c2)"
    and "actuator_publish c e = (Inr pr, e')" "actuator_publish c2 e2 = (Inr pr2, e2')"
    and "ac_approval c2 = ac_approval c" "\<not> digest_collision (ac_intent c) (ac_intent c2)"
  shows "pr_idempotency_key pr2 = pr_idempotency_key pr"
proof -
  note 1 = authorized_pull_request [OF assms(1) assms(5) [unfolded actuator_publish_def]]
    and 2 = authorized_pull_request [OF assms(2) assms(6) [unfolded actuator_publish_def]]
  from 1 2 have "normal (ac_intent c) = normal (ac_intent c2)"
    using same_digest_same_content [of "ac_intent c" _ "ac_intent c2"] assms(7,8)
    by (auto simp: check_intent_approved_Inr)
  moreover obtain d d2 where d: "ac_intent c = PDict d" "ac_intent c2 = PDict d2"
    using 1 2 by (auto simp: is_dict_iff)
  ultimately have "normal (fld (ac_intent c) k) = normal (fld (ac_intent c2) k)" for k
    using assms(3,4) normal_fld [of d d2 k] by (simp del: fld_PDict normal.simps)
  from this [of "''idempotency_key''"] 1 2 show ?thesis
    by (metis normal.simps(7) pyval.inject(3))
qed

text \<open>
  Claim C8: an approval authorises one publication. Once the actuator has published on an endpoint
  (\<open>endpoint_ok\<close>, the invariant of the mock endpoint) under an approval, and whatever other calls the actuator makes on that endpoint afterwards, a later call under
  the same approval that succeeds, at any time and with any request, decision and intent, returns the very
  pull request of the first one and leaves the endpoint unchanged, unless the two intents exhibit a
  collision of SHA-256. The intents are JSON values whose dictionaries have distinct keys (\<open>wf_val\<close>),
  as Python's have.
\<close>

theorem approval_authorises_one_publication:
  assumes "endpoint_ok e" "wf_val (ac_intent first)" "wf_val (ac_intent second)"
    and "actuator_publish first e = (Inr pr, e1)"
    and "actuator_publish second (fold actuator_step calls e1) = (Inr pr2, e2)"
    and "ac_approval second = ac_approval first"
  shows "(pr2 = pr \<and> e2 = fold actuator_step calls e1) \<or> digest_collision (ac_intent first) (ac_intent second)"
proof (rule disjCI)
  assume no: "\<not> digest_collision (ac_intent first) (ac_intent second)"
  let ?e = "fold actuator_step calls e1"
  from authorized_pull_request [OF assms(1) assms(4) [unfolded actuator_publish_def]]
  have 1: "endpoint_ok e1" "pr \<in> endpoint_receipts e1" by blast+
  from actuator_steps_keep [OF 1(1), of calls] 1(2) have e: "endpoint_ok ?e" "pr \<in> endpoint_receipts ?e" by blast+
  have k: "pr_idempotency_key pr2 = pr_idempotency_key pr"
    by (rule same_approval_same_key [OF assms(1) e(1) assms(2-6) no])
  from assms(5) obtain r where p: "publish_pull_request r ?e = (Inr pr2, e2)"
    by (auto simp: actuator_publish_def publish_authorized_request_def split: sum.splits)
  from mock.publish_receipt [OF e(1) p] have "str_of (fld r ''idempotency_key'') = pr_idempotency_key pr2"
    by (auto simp: publishes_def)
  then have "map_of ?e (str_of (fld r ''idempotency_key'')) = Some pr" using endpoint_lookup [OF e] k by simp
  with publish_Inr [OF p] show "pr2 = pr \<and> e2 = ?e" by simp
qed

lemma approved_intent_wf: "wf_val approved_intent"
  by (simp add: approved_intent_def)

text \<open>
  The first publication, a refused call under another approval, and the same approval presented again a
  second later with another gateway decision.
\<close>

definition sample_call :: actuator_call where
  "sample_call = \<lparr>ac_request = actuator_request, ac_decision = allow_decision, ac_approval_valid = PBool True,
     ac_gateway = Some (decide_path SLOW True []), ac_intent = approved_intent, ac_now = NowAt sample_now,
     ac_approval = signed_approval\<rparr>"

definition first_endpoint :: endpoint where
  "first_endpoint = [(pr_idempotency_key (pull_request_of 1 first_request), pull_request_of 1 first_request)]"

definition second_now :: pydatetime where
  "second_now = \<lparr>wall = 2000000, utc_offset = Some 0\<rparr>"

lemma second_usable: "check_decision_usable allow_decision (NowAt second_now) = Inr ()"
proof -
  have "require_clock (NowAt second_now) = Inr second_now"
    by (simp add: require_clock_def second_now_def is_aware_def astimezone_utc_def mk_utc_def instant_def max_wall_def)
  then show ?thesis by (rule usable_until) (simp add: second_now_def instant_def)
qed

definition later_call :: actuator_call where
  "later_call = sample_call\<lparr>ac_gateway := Some (decide_path SLOW True [''sensitive-port'']),
     ac_now := NowAt second_now\<rparr>"

lemma sample_call_publishes: "actuator_publish sample_call [] = (Inr (pull_request_of 1 first_request), first_endpoint)"
  using sample_authorized_publish by (simp add: actuator_publish_def sample_call_def first_endpoint_def)

lemma refused_call: "actuator_step (sample_call\<lparr>ac_approval := PNone\<rparr>) e = e"
  by (simp add: actuator_step_def actuator_publish_def publish_authorized_request_def check_authorized_def sample_call_def)

lemma later_call_publishes: "\<exists>pr e. actuator_publish later_call first_endpoint = (Inr pr, e)"
proof -
  have "gateway_slow (decide_path SLOW True [''sensitive-port''])" by (simp add: gateway_slow_def)
  from sample_authorized_at [OF second_usable this]
  have "check_authorized True actuator_request allow_decision (PBool True)
      (Some (decide_path SLOW True [''sensitive-port''])) approved_intent (NowAt second_now) signed_approval = Inr ()" .
  then show ?thesis
    by (simp add: actuator_publish_def later_call_def sample_call_def publish_authorized_request_def)
      (simp add: publish_pull_request_def first_request_check [unfolded first_request_def] first_endpoint_def
        first_request_def pull_request_of_def)
qed

theorem approval_authorises_one_publication_witness:
  "actuator_publish later_call (fold actuator_step [sample_call\<lparr>ac_approval := PNone\<rparr>] first_endpoint) =
     (Inr (pull_request_of 1 first_request), first_endpoint)"
proof -
  have same: "ac_intent sample_call = approved_intent" "ac_intent later_call = approved_intent"
    "ac_approval later_call = ac_approval sample_call" by (simp_all add: later_call_def sample_call_def)
  have "\<not> digest_collision approved_intent approved_intent" by (auto simp: digest_collision_def)
  moreover obtain pr e where "actuator_publish later_call first_endpoint = (Inr pr, e)"
    using later_call_publishes by blast
  ultimately show ?thesis
    using approval_authorises_one_publication [OF endpoint_ok_empty _ _ sample_call_publishes,
        of later_call "[sample_call\<lparr>ac_approval := PNone\<rparr>]"] same approved_intent_wf
    by (auto simp: refused_call)
qed

end
