(* ===== verification/Chain.thy ===== *)
theory Chain
  imports Authority
begin

text \<open>
  \<^verbatim>\<open>src/app_contracts/chain.py\<close>: the cross-contract invariants of one repository change, from the
  process contract through evidence, verification, staging, approval, intent, decision, request and
  credential grant to the action receipt.
\<close>

section \<open>Shape\<close>

definition contract_names :: "string list" where
  "contract_names = [''process_contract'', ''identity'', ''capability_grant'', ''delegation_receipt'',
     ''trust_profile'', ''canonical_envelope'', ''task_contract'', ''evidence_bundle'',
     ''verification_report'', ''staged_change'', ''approval'', ''intent'', ''policy_decision'',
     ''actuator_request'', ''credential_use_grant'', ''action_receipt'']"

definition required_members :: "(string \<times> string list) list" where
  "required_members =
    [(''process_contract'', [''process_id'', ''repository_id'']),
     (''identity'', [''identity_id'', ''status'']),
     (''capability_grant'', [''subject'', ''status'', ''process_id'', ''grant_id'',
        ''delegable_actions'', ''resources'', ''max_delegation_depth'']),
     (''delegation_receipt'', [''parent_grant_id'', ''issuer'', ''process_id'', ''actions'',
        ''resources'', ''remaining_delegation_depth'']),
     (''trust_profile'', [''principal_id'']),
     (''canonical_envelope'', [''correlation_id'', ''security'']),
     (''task_contract'', [''process_id'', ''task_id'']),
     (''evidence_bundle'', [''task_id'', ''patch_digest'']),
     (''verification_report'', [''evidence_digest'', ''verdict'']),
     (''staged_change'', [''process_id'', ''repository_id'', ''patch_digest'', ''evidence_digest'',
        ''verification_digest'', ''patch_artifact_ref'']),
     (''approval'', [''process_id'', ''repository_id'', ''staged_change_digest'', ''approval_id'']),
     (''intent'', [''process_id'', ''repository_id'', ''staged_change_digest'', ''approval_id'',
        ''branch_namespace'', ''title_artifact_ref'', ''body_artifact_ref'', ''idempotency_key'',
        ''base_commit'', ''base_branch'']),
     (''policy_decision'', [''repository_id'', ''staged_change_digest'', ''decision_id'', ''effect'']),
     (''actuator_request'', [''process_id'', ''repository_id'', ''base_commit'', ''staged_change_digest'',
        ''approval_id'', ''branch_namespace'', ''title_artifact_ref'', ''body_artifact_ref'',
        ''idempotency_key'', ''policy_decision_id'', ''patch_artifact_ref'', ''actuator_id'', ''base_branch'']),
     (''credential_use_grant'', [''actuator_id'', ''repository_id'', ''request_digest'']),
     (''action_receipt'', [''process_id'', ''repository_id'', ''staged_change_digest'', ''approval_id'',
        ''policy_decision_id'', ''idempotency_key'', ''base_branch''])]"

abbreviation chain_error :: "string \<Rightarrow> exn" where
  "chain_error m \<equiv> contract_error (''chain: '' @ m)"

text \<open>The text of a list of names in an error message.\<close>

definition repr_names :: "string list \<Rightarrow> string" where
  "repr_names ns = ''['' @ join '', '' (map (\<lambda>n. [CHR 0x27] @ n @ [CHR 0x27]) ns) @ '']''"

definition require_members :: "pyval \<Rightarrow> unit res" where
  "require_members chain =
     rbind (check_each (\<lambda>(name, ks). check_each (\<lambda>k. unless (\<not> has_key (fld chain name) k)
         (chain_error (name @ '' is missing '' @ k)) (Inr ())) ks) required_members) (\<lambda>_.
     unless (\<not> has_key (fld (fld chain ''canonical_envelope'') ''security'') ''tainted'')
       (chain_error ''canonical_envelope is missing security.tainted'') (Inr ()))"

section \<open>Bindings\<close>

definition at :: "pyval \<Rightarrow> string \<Rightarrow> string \<Rightarrow> pyval" where
  "at chain name k = fld (fld chain name) k"

definition binding_value :: "pyval \<Rightarrow> string \<Rightarrow> string \<Rightarrow> string res" where
  "binding_value chain k name =
     unless (\<not> is_str (at chain name k)) (chain_error (name @ '' has non-string binding value''))
    (unless (str_of (at chain name k) = []) (chain_error (name @ '' has empty binding value''))
    (Inr (str_of (at chain name k))))"

definition binding_values :: "pyval \<Rightarrow> string \<Rightarrow> string list \<Rightarrow> string list res" where
  "binding_values chain k names = map_res (binding_value chain k) names"

text \<open>\<^verbatim>\<open>len(values) == 1\<close> of the set of the values.\<close>

definition require_single :: "string \<Rightarrow> string list \<Rightarrow> unit res" where
  "require_single k vs = unless (length (remdups vs) \<noteq> 1) (chain_error (k @ '' mismatch'')) (Inr ())"

definition require_equal :: "pyval \<Rightarrow> pyval \<Rightarrow> string \<Rightarrow> unit res" where
  "require_equal v w msg = unless (\<not> py_eq v w) (chain_error msg) (Inr ())"

section \<open>Delegation\<close>

definition members_of :: "pyval \<Rightarrow> pyval list option" where
  "members_of v = (case v of PList xs \<Rightarrow> Some xs | PTuple xs \<Rightarrow> Some xs | _ \<Rightarrow> None)"

definition check_delegation_list :: "pyval \<times> string \<Rightarrow> unit res" where
  "check_delegation_list = (\<lambda>(holder, k).
     unless (case members_of (fld holder k) of None \<Rightarrow> True | Some xs \<Rightarrow> \<not> list_all nonempty_str xs)
       (chain_error (''delegation '' @ k @ '' is malformed'')) (Inr ()))"

definition subset_of :: "pyval \<Rightarrow> pyval \<Rightarrow> bool" where
  "subset_of v w \<longleftrightarrow> set (the (members_of v)) \<subseteq> set (the (members_of w))"

definition validate_delegation :: "pyval \<Rightarrow> pyval \<Rightarrow> unit res" where
  "validate_delegation parent child =
     rbind (check_each check_delegation_list
       [(child, ''actions''), (child, ''resources''), (parent, ''delegable_actions''), (parent, ''resources'')]) (\<lambda>_.
     unless (\<not> is_int (fld child ''remaining_delegation_depth''))
       (chain_error ''delegation remaining_delegation_depth is malformed'')
    (unless (\<not> is_int (fld parent ''max_delegation_depth''))
       (chain_error ''delegation max_delegation_depth is malformed'')
    (rbind (require_equal (fld child ''issuer'') (fld parent ''subject'') ''delegation issuer mismatch'') (\<lambda>_.
     rbind (require_equal (fld child ''process_id'') (fld parent ''process_id'') ''delegation process mismatch'') (\<lambda>_.
     unless (\<not> subset_of (fld child ''actions'') (fld parent ''delegable_actions''))
       (chain_error ''delegation expands actions'')
    (unless (\<not> subset_of (fld child ''resources'') (fld parent ''resources''))
       (chain_error ''delegation expands resources'')
    (unless (int_of (fld parent ''max_delegation_depth'') \<le> int_of (fld child ''remaining_delegation_depth''))
       (chain_error ''delegation depth is not reduced'') (Inr ()))))))))"

section \<open>The chain\<close>

text \<open>The checks before the digests.\<close>

definition check_identities :: "pyval \<Rightarrow> unit res" where
  "check_identities chain =
     rbind (binding_values chain ''process_id''
       [''process_contract'', ''staged_change'', ''approval'', ''intent'', ''action_receipt'']) (\<lambda>ps.
     rbind (require_single ''process_id'' ps) (\<lambda>_.
     rbind (require_equal (at chain ''identity'' ''identity_id'') (at chain ''capability_grant'' ''subject'')
       ''capability subject identity mismatch'') (\<lambda>_.
     unless (at chain ''identity'' ''status'' \<noteq> PStr ''active''
         \<or> at chain ''capability_grant'' ''status'' \<noteq> PStr ''active'')
       (chain_error ''inactive identity or capability grant'')
    (rbind (require_equal (at chain ''capability_grant'' ''process_id'') (at chain ''process_contract'' ''process_id'')
       ''capability process_id mismatch'') (\<lambda>_.
     rbind (require_equal (at chain ''delegation_receipt'' ''parent_grant_id'') (at chain ''capability_grant'' ''grant_id'')
       ''delegation parent grant mismatch'') (\<lambda>_.
     rbind (validate_delegation (fld chain ''capability_grant'') (fld chain ''delegation_receipt'')) (\<lambda>_.
     rbind (require_equal (at chain ''trust_profile'' ''principal_id'') (at chain ''identity'' ''identity_id'')
       ''trust profile principal mismatch'') (\<lambda>_.
     rbind (binding_values chain ''repository_id''
       [''process_contract'', ''staged_change'', ''approval'', ''intent'', ''policy_decision'', ''action_receipt'']) (\<lambda>rs.
     rbind (require_single ''repository_id'' rs) (\<lambda>_.
     rbind (require_equal (at chain ''canonical_envelope'' ''correlation_id'')
       (at chain ''process_contract'' ''process_id'') ''envelope correlation_id mismatch'') (\<lambda>_.
     unless (\<not> is_bool (fld (at chain ''canonical_envelope'' ''security'') ''tainted''))
       (chain_error ''taint marker is not a boolean'')
    (unless (fld (at chain ''canonical_envelope'' ''security'') ''tainted'' = PBool True)
       (chain_error ''tainted envelope cannot authorize publication'')
    (rbind (require_equal (at chain ''task_contract'' ''process_id'') (at chain ''process_contract'' ''process_id'')
       ''task process_id mismatch'') (\<lambda>_.
     rbind (require_equal (at chain ''evidence_bundle'' ''task_id'') (at chain ''task_contract'' ''task_id'')
       ''evidence task_id mismatch'') (\<lambda>_.
     require_equal (at chain ''evidence_bundle'' ''patch_digest'') (at chain ''staged_change'' ''patch_digest'')
       ''patch_digest mismatch'')))))))))))))))"

text \<open>Each stage carries the digest of the one before.\<close>

definition check_digests :: "pyval \<Rightarrow> string res" where
  "check_digests chain =
     rbind (sha256_digest (fld chain ''evidence_bundle'')) (\<lambda>ed.
     rbind (require_equal (at chain ''verification_report'' ''evidence_digest'') (PStr ed)
       ''verification evidence digest mismatch'') (\<lambda>_.
     rbind (require_equal (at chain ''staged_change'' ''evidence_digest'') (PStr ed)
       ''staged evidence digest mismatch'') (\<lambda>_.
     rbind (sha256_digest (fld chain ''verification_report'')) (\<lambda>vd.
     rbind (require_equal (at chain ''staged_change'' ''verification_digest'') (PStr vd)
       ''verification digest mismatch'') (\<lambda>_.
     unless (at chain ''verification_report'' ''verdict'' \<noteq> PStr ''pass'')
       (chain_error ''only a passing verification can be staged'')
    (rbind (sha256_digest (fld chain ''staged_change'')) (\<lambda>sd.
     rbind (binding_values chain ''staged_change_digest''
       [''approval'', ''intent'', ''policy_decision'', ''action_receipt'']) (\<lambda>ds.
     rbind (require_single ''staged_change_digest'' ds) (\<lambda>_.
     unless (set ds \<noteq> {sd}) (chain_error ''staged change digest does not match content'')
       (Inr sd))))))))))"

definition request_fields :: "string list" where
  "request_fields = [''process_id'', ''repository_id'', ''base_commit'', ''staged_change_digest'',
     ''approval_id'', ''branch_namespace'', ''base_branch'', ''title_artifact_ref'', ''body_artifact_ref'',
     ''idempotency_key'']"

definition check_action :: "pyval \<Rightarrow> string \<Rightarrow> unit res" where
  "check_action chain sd =
     unless (\<not> py_eq (at chain ''intent'' ''approval_id'') (at chain ''approval'' ''approval_id'')
         \<or> \<not> py_eq (at chain ''action_receipt'' ''approval_id'') (at chain ''approval'' ''approval_id''))
       (chain_error ''approval_id mismatch'')
    (rbind (require_equal (at chain ''action_receipt'' ''policy_decision_id'') (at chain ''policy_decision'' ''decision_id'')
       ''policy_decision_id mismatch'') (\<lambda>_.
     unless (at chain ''policy_decision'' ''effect'' \<noteq> PStr ''allow'')
       (chain_error ''receipt cannot reference a deny decision'')
    (rbind (check_each (\<lambda>k. require_equal (at chain ''actuator_request'' k) (at chain ''intent'' k)
         (''actuator request '' @ k @ '' mismatch'')) request_fields) (\<lambda>_.
     rbind (require_equal (at chain ''actuator_request'' ''policy_decision_id'') (at chain ''policy_decision'' ''decision_id'')
       ''actuator request policy decision mismatch'') (\<lambda>_.
     rbind (require_equal (at chain ''actuator_request'' ''patch_artifact_ref'') (at chain ''staged_change'' ''patch_artifact_ref'')
       ''actuator request patch mismatch'') (\<lambda>_.
     rbind (require_equal (at chain ''credential_use_grant'' ''actuator_id'') (at chain ''actuator_request'' ''actuator_id'')
       ''credential grant actuator mismatch'') (\<lambda>_.
     rbind (require_equal (at chain ''credential_use_grant'' ''repository_id'') (at chain ''actuator_request'' ''repository_id'')
       ''credential grant repository mismatch'') (\<lambda>_.
     rbind (sha256_digest (fld chain ''actuator_request'')) (\<lambda>rd.
     rbind (require_equal (at chain ''credential_use_grant'' ''request_digest'') (PStr rd)
       ''credential grant request digest mismatch'') (\<lambda>_.
     rbind (require_base_branch ''chain: intent base branch is invalid'' (at chain ''intent'' ''base_branch'')) (\<lambda>_.
     rbind (require_equal (at chain ''actuator_request'' ''base_branch'') (at chain ''intent'' ''base_branch'')
       ''actuator request base branch mismatch'') (\<lambda>_.
     rbind (require_equal (at chain ''action_receipt'' ''base_branch'') (at chain ''intent'' ''base_branch'')
       ''receipt base branch mismatch'') (\<lambda>_.
     rbind (publication_idempotency_key (at chain ''intent'' ''branch_namespace'')
       (str_of (at chain ''intent'' ''base_branch'')) sd) (\<lambda>key.
     rbind (require_equal (at chain ''intent'' ''idempotency_key'') (PStr key)
       ''intent idempotency key is not content-bound'') (\<lambda>_.
     require_equal (at chain ''action_receipt'' ''idempotency_key'') (PStr key)
       ''receipt idempotency key mismatch'')))))))))))))))"

definition validate_chain :: "pyval \<Rightarrow> unit res" where
  "validate_chain chain =
     unless (\<not> is_dict chain) (chain_error ''chain is malformed'')
    (let missing = filter (\<lambda>n. \<not> has_key chain n) contract_names;
         malformed = filter (\<lambda>n. \<not> is_dict (fld chain n)) contract_names
     in unless (missing \<noteq> []) (chain_error (''missing contracts '' @ repr_names missing))
       (unless (malformed \<noteq> []) (chain_error (''malformed contracts '' @ repr_names malformed))
       (rbind (require_members chain) (\<lambda>_.
        rbind (check_identities chain) (\<lambda>_.
        rbind (check_digests chain) (\<lambda>sd. check_action chain sd))))))"

section \<open>Facts\<close>

lemma map_res_Inr: "map_res f xs = Inr ys \<longleftrightarrow> list_all2 (\<lambda>x y. f x = Inr y) xs ys"
proof (induction xs arbitrary: ys)
  case (Cons x xs)
  have "map_res f (x # xs) = Inr ys \<longleftrightarrow> (\<exists>y zs. ys = y # zs \<and> f x = Inr y \<and> map_res f xs = Inr zs)"
    by (auto split: sum.split)
  with Cons.IH show ?case by (simp add: list_all2_Cons1)
qed auto

lemma require_equal_Inr [simp]: "require_equal v w m = Inr u \<longleftrightarrow> py_eq v w"
  by (simp add: require_equal_def)

lemma binding_value_Inr: "binding_value chain k n = Inr s \<longleftrightarrow> at chain n k = PStr s \<and> s \<noteq> []"
  by (cases "at chain n k") (auto simp: binding_value_def)

lemma require_single_Inr: "require_single k vs = Inr u \<longleftrightarrow> (\<exists>v. set vs = {v})"
proof -
  have "length (remdups vs) = card (set vs)" by (simp add: length_remdups_card_conv)
  then show ?thesis by (auto simp: require_single_def card_1_singleton_iff)
qed

text \<open>One value in every named contract.\<close>

lemma single_binding:
  assumes "binding_values chain k names = Inr vs" "set vs = {v}"
  shows "\<forall>n\<in>set names. at chain n k = PStr v"
proof
  fix n assume n: "n \<in> set names"
  have all: "list_all2 (\<lambda>n s. at chain n k = PStr s \<and> s \<noteq> []) names vs"
    using assms(1) by (simp add: binding_values_def map_res_Inr binding_value_Inr)
  from n obtain i where i: "i < length names" "names ! i = n" by (auto simp: in_set_conv_nth)
  with all have "at chain n k = PStr (vs ! i)" "vs ! i \<in> set vs" by (auto simp: list_all2_conv_all_nth)
  with assms(2) show "at chain n k = PStr v" by simp
qed

lemma single_bound:
  assumes "binding_values chain k names = Inr vs" "require_single l vs = Inr u"
  shows "\<exists>v. \<forall>n\<in>set names. at chain n k = PStr v"
  using single_binding [OF assms(1)] assms(2) by (auto simp only: require_single_Inr)

lemma check_identities_Inr:
  assumes "check_identities chain = Inr u"
  shows "(\<exists>p. \<forall>n\<in>set [''process_contract'', ''staged_change'', ''approval'', ''intent'', ''action_receipt''].
        at chain n ''process_id'' = PStr p) \<and>
    (\<exists>r. \<forall>n\<in>set [''process_contract'', ''staged_change'', ''approval'', ''intent'', ''policy_decision'', ''action_receipt''].
        at chain n ''repository_id'' = PStr r) \<and>
    validate_delegation (fld chain ''capability_grant'') (fld chain ''delegation_receipt'') = Inr () \<and>
    fld (at chain ''canonical_envelope'' ''security'') ''tainted'' = PBool False"
proof (intro conjI)
  from assms obtain ps rs u1 u2 u3 where
    ps: "binding_values chain ''process_id''
       [''process_contract'', ''staged_change'', ''approval'', ''intent'', ''action_receipt''] = Inr ps"
       "require_single ''process_id'' ps = Inr u1"
    and rs: "binding_values chain ''repository_id''
       [''process_contract'', ''staged_change'', ''approval'', ''intent'', ''policy_decision'', ''action_receipt''] = Inr rs"
       "require_single ''repository_id'' rs = Inr u2"
    and del: "validate_delegation (fld chain ''capability_grant'') (fld chain ''delegation_receipt'') = Inr u3"
    and taint: "is_bool (fld (at chain ''canonical_envelope'' ''security'') ''tainted'')"
       "fld (at chain ''canonical_envelope'' ''security'') ''tainted'' \<noteq> PBool True"
    unfolding check_identities_def by (simp only: rbind_Inr unless_Inr not_not) blast
  show "\<exists>p. \<forall>n\<in>set [''process_contract'', ''staged_change'', ''approval'', ''intent'', ''action_receipt''].
        at chain n ''process_id'' = PStr p" by (rule single_bound [OF ps])
  show "\<exists>r. \<forall>n\<in>set [''process_contract'', ''staged_change'', ''approval'', ''intent'', ''policy_decision'', ''action_receipt''].
        at chain n ''repository_id'' = PStr r" by (rule single_bound [OF rs])
  show "validate_delegation (fld chain ''capability_grant'') (fld chain ''delegation_receipt'') = Inr ()" using del by simp
  show "fld (at chain ''canonical_envelope'' ''security'') ''tainted'' = PBool False"
    using taint by (cases "fld (at chain ''canonical_envelope'' ''security'') ''tainted''") auto
qed

lemma check_digests_Inr:
  assumes "check_digests chain = Inr sd"
  shows "sha256_digest (fld chain ''staged_change'') = Inr sd \<and>
    (\<exists>ed. sha256_digest (fld chain ''evidence_bundle'') = Inr ed \<and>
       at chain ''verification_report'' ''evidence_digest'' = PStr ed \<and> at chain ''staged_change'' ''evidence_digest'' = PStr ed) \<and>
    (\<exists>vd. sha256_digest (fld chain ''verification_report'') = Inr vd \<and>
       at chain ''staged_change'' ''verification_digest'' = PStr vd) \<and>
    at chain ''verification_report'' ''verdict'' = PStr ''pass'' \<and>
    (\<forall>n\<in>set [''approval'', ''intent'', ''policy_decision'', ''action_receipt'']. at chain n ''staged_change_digest'' = PStr sd)"
proof -
  from assms obtain ed vd ds where d: "sha256_digest (fld chain ''evidence_bundle'') = Inr ed"
    "py_eq (at chain ''verification_report'' ''evidence_digest'') (PStr ed)"
    "py_eq (at chain ''staged_change'' ''evidence_digest'') (PStr ed)"
    "sha256_digest (fld chain ''verification_report'') = Inr vd"
    "py_eq (at chain ''staged_change'' ''verification_digest'') (PStr vd)"
    "at chain ''verification_report'' ''verdict'' = PStr ''pass''"
    "sha256_digest (fld chain ''staged_change'') = Inr sd"
    and ds: "binding_values chain ''staged_change_digest''
       [''approval'', ''intent'', ''policy_decision'', ''action_receipt''] = Inr ds" "set ds = {sd}"
    unfolding check_digests_def
    by (simp only: rbind_Inr unless_Inr require_equal_Inr not_not sum.inject) blast
  from single_binding [OF ds] d show ?thesis by simp
qed

text \<open>The action: one key, made of the intent's branches and the staged digest.\<close>

lemma check_action_Inr:
  assumes "check_action chain sd = Inr u"
  shows "(\<forall>k\<in>set request_fields. py_eq (at chain ''actuator_request'' k) (at chain ''intent'' k)) \<and>
    at chain ''policy_decision'' ''effect'' = PStr ''allow'' \<and>
    (\<exists>rd. sha256_digest (fld chain ''actuator_request'') = Inr rd \<and>
       at chain ''credential_use_grant'' ''request_digest'' = PStr rd) \<and>
    (\<exists>b q. at chain ''intent'' ''branch_namespace'' = PStr b \<and> at chain ''intent'' ''base_branch'' = PStr q \<and>
       at chain ''action_receipt'' ''base_branch'' = PStr q \<and>
       at chain ''intent'' ''idempotency_key'' = PStr (key_text b q sd) \<and>
       at chain ''action_receipt'' ''idempotency_key'' = PStr (key_text b q sd))"
proof -
  from assms obtain rd key uu where c: "\<forall>k\<in>set request_fields. py_eq (at chain ''actuator_request'' k) (at chain ''intent'' k)"
    "at chain ''policy_decision'' ''effect'' = PStr ''allow''"
    "sha256_digest (fld chain ''actuator_request'') = Inr rd"
    "py_eq (at chain ''credential_use_grant'' ''request_digest'') (PStr rd)"
    "require_base_branch ''chain: intent base branch is invalid'' (at chain ''intent'' ''base_branch'') = Inr uu"
    "py_eq (at chain ''action_receipt'' ''base_branch'') (at chain ''intent'' ''base_branch'')"
    "publication_idempotency_key (at chain ''intent'' ''branch_namespace'')
       (str_of (at chain ''intent'' ''base_branch'')) sd = Inr key"
    "py_eq (at chain ''intent'' ''idempotency_key'') (PStr key)"
    "py_eq (at chain ''action_receipt'' ''idempotency_key'') (PStr key)"
    unfolding check_action_def
    by (simp only: rbind_Inr unless_Inr require_equal_Inr check_each_Inr not_not) blast
  obtain q where "at chain ''intent'' ''base_branch'' = PStr q"
    using c(5) by (auto simp: require_base_branch_def rcatch_Inr dest: validate_base_Inr)
  with c show ?thesis by (auto simp: key_Inr)
qed

lemma validate_chain_Inr:
  assumes "validate_chain chain = Inr u"
  shows "is_dict chain \<and> (\<forall>n\<in>set contract_names. is_dict (fld chain n)) \<and> check_identities chain = Inr () \<and>
    (\<exists>sd. check_digests chain = Inr sd \<and> check_action chain sd = Inr ())"
  using assms by (auto simp: validate_chain_def Let_def filter_empty_conv)

lemma valid_receipt_key:
  assumes "validate_chain chain = Inr u"
  shows "\<exists>b q sd. sha256_digest (fld chain ''staged_change'') = Inr sd \<and>
    at chain ''action_receipt'' ''idempotency_key'' = PStr (key_text b q sd)"
proof -
  from validate_chain_Inr [OF assms] obtain sd where d: "check_digests chain = Inr sd"
    and a: "check_action chain sd = Inr ()" by blast
  from check_digests_Inr [OF d] check_action_Inr [OF a] show ?thesis by blast
qed

section \<open>A sample chain\<close>

definition sample_evidence :: pyval where
  "sample_evidence = PDict [(''task_id'', PStr ''t''), (''patch_digest'', PStr ''pd'')]"

definition evidence_digest :: string where "evidence_digest = digest_of sample_evidence"

definition sample_verification :: pyval where
  "sample_verification = PDict [(''evidence_digest'', PStr evidence_digest), (''verdict'', PStr ''pass'')]"

definition verification_digest :: string where "verification_digest = digest_of sample_verification"

definition chain_staged :: pyval where
  "chain_staged = PDict [(''process_id'', PStr ''p''), (''repository_id'', PStr ''r''),
     (''patch_digest'', PStr ''pd''), (''evidence_digest'', PStr evidence_digest),
     (''verification_digest'', PStr verification_digest), (''patch_artifact_ref'', PStr ''ref'')]"

definition chain_digest :: string where "chain_digest = digest_of chain_staged"

definition chain_key :: string where
  "chain_key = key_text ''agent/x'' ''main'' chain_digest"

definition chain_fields :: fields where
  "chain_fields = [(''process_id'', PStr ''p''), (''repository_id'', PStr ''r''), (''base_commit'', PStr ''c''),
     (''staged_change_digest'', PStr chain_digest), (''approval_id'', PStr ''a''),
     (''branch_namespace'', PStr ''agent/x''), (''base_branch'', PStr ''main''),
     (''title_artifact_ref'', PStr ''t''), (''body_artifact_ref'', PStr ''b''),
     (''idempotency_key'', PStr chain_key)]"

definition chain_request :: pyval where
  "chain_request = PDict (chain_fields @ [(''policy_decision_id'', PStr ''d''),
     (''patch_artifact_ref'', PStr ''ref''), (''actuator_id'', PStr ''github'')])"

definition chain_receipt :: pyval where
  "chain_receipt = PDict (chain_fields @ [(''policy_decision_id'', PStr ''d'')])"

definition request_digest :: string where "request_digest = digest_of chain_request"

definition sample_chain :: pyval where
  "sample_chain = PDict
    [(''process_contract'', PDict [(''process_id'', PStr ''p''), (''repository_id'', PStr ''r'')]),
     (''identity'', PDict [(''identity_id'', PStr ''i''), (''status'', PStr ''active'')]),
     (''capability_grant'', PDict [(''subject'', PStr ''i''), (''status'', PStr ''active''),
        (''process_id'', PStr ''p''), (''grant_id'', PStr ''g''), (''delegable_actions'', PList [PStr ''read'']),
        (''resources'', PList [PStr ''repo'']), (''max_delegation_depth'', PInt 1)]),
     (''delegation_receipt'', PDict [(''parent_grant_id'', PStr ''g''), (''issuer'', PStr ''i''),
        (''process_id'', PStr ''p''), (''actions'', PList [PStr ''read'']), (''resources'', PList []),
        (''remaining_delegation_depth'', PInt 0)]),
     (''trust_profile'', PDict [(''principal_id'', PStr ''i'')]),
     (''canonical_envelope'', PDict [(''correlation_id'', PStr ''p''),
        (''security'', PDict [(''tainted'', PBool False)])]),
     (''task_contract'', PDict [(''process_id'', PStr ''p''), (''task_id'', PStr ''t'')]),
     (''evidence_bundle'', sample_evidence), (''verification_report'', sample_verification),
     (''staged_change'', chain_staged), (''approval'', PDict chain_fields), (''intent'', PDict chain_fields),
     (''policy_decision'', PDict [(''repository_id'', PStr ''r''),
        (''staged_change_digest'', PStr chain_digest), (''decision_id'', PStr ''d''),
        (''effect'', PStr ''allow'')]),
     (''actuator_request'', chain_request),
     (''credential_use_grant'', PDict [(''actuator_id'', PStr ''github''), (''repository_id'', PStr ''r''),
        (''request_digest'', PStr request_digest)]),
     (''action_receipt'', chain_receipt)]"

lemma sample_chain_digests:
  "sha256_digest sample_evidence = Inr evidence_digest"
  "sha256_digest sample_verification = Inr verification_digest"
  "sha256_digest chain_staged = Inr chain_digest" "is_digest chain_digest"
  "sha256_digest chain_request = Inr request_digest"
proof -
  have e: "encodable sample_evidence" by (simp add: sample_evidence_def text_eval)
  then have ae: "ascii evidence_digest" unfolding evidence_digest_def by (intro ascii_digest is_digest_digest_of)
  then have v: "encodable sample_verification" by (simp add: sample_verification_def text_eval)
  then have av: "ascii verification_digest"
    unfolding verification_digest_def by (intro ascii_digest is_digest_digest_of)
  with ae have s: "encodable chain_staged" by (simp add: chain_staged_def text_eval)
  then show d: "is_digest chain_digest" unfolding chain_digest_def by (rule is_digest_digest_of)
  then have as: "ascii chain_digest" by (rule ascii_digest)
  then have "ascii chain_key" unfolding chain_key_def by (rule ascii_key)
  with as have r: "encodable chain_request" by (simp add: chain_request_def chain_fields_def text_eval)
  from e v s r show "sha256_digest sample_evidence = Inr evidence_digest"
    "sha256_digest sample_verification = Inr verification_digest"
    "sha256_digest chain_staged = Inr chain_digest"
    "sha256_digest chain_request = Inr request_digest"
    by (simp_all only: sha256_digest_encodable evidence_digest_def verification_digest_def chain_digest_def
        request_digest_def)
qed

lemmas chain_parts = sample_evidence_def sample_verification_def chain_staged_def chain_fields_def
  chain_request_def chain_receipt_def

lemma sample_chain_fld:
  "fld sample_chain ''evidence_bundle'' = sample_evidence"
  "fld sample_chain ''verification_report'' = sample_verification"
  "fld sample_chain ''staged_change'' = chain_staged" "fld sample_chain ''approval'' = PDict chain_fields"
  "fld sample_chain ''intent'' = PDict chain_fields" "fld sample_chain ''actuator_request'' = chain_request"
  "fld sample_chain ''action_receipt'' = chain_receipt"
  by (simp_all add: sample_chain_def)

lemma sample_chain_at:
  "at sample_chain ''policy_decision'' ''decision_id'' = PStr ''d''"
  "at sample_chain ''policy_decision'' ''effect'' = PStr ''allow''"
  "at sample_chain ''policy_decision'' ''repository_id'' = PStr ''r''"
  "at sample_chain ''policy_decision'' ''staged_change_digest'' = PStr chain_digest"
  "at sample_chain ''credential_use_grant'' ''actuator_id'' = PStr ''github''"
  "at sample_chain ''credential_use_grant'' ''repository_id'' = PStr ''r''"
  "at sample_chain ''credential_use_grant'' ''request_digest'' = PStr request_digest"
  by (simp_all add: at_def sample_chain_def)

lemma sample_chain_delegation:
  "validate_delegation (fld sample_chain ''capability_grant'') (fld sample_chain ''delegation_receipt'') = Inr ()"
  by (simp add: validate_delegation_def check_delegation_list_def members_of_def subset_of_def sample_chain_def)

lemma sample_chain_identities: "check_identities sample_chain = Inr ()"
proof -
  have "at sample_chain ''process_contract'' ''process_id'' = PStr ''p''"
    "at sample_chain ''process_contract'' ''repository_id'' = PStr ''r''"
    "at sample_chain ''identity'' ''identity_id'' = PStr ''i''" "at sample_chain ''identity'' ''status'' = PStr ''active''"
    "at sample_chain ''capability_grant'' ''subject'' = PStr ''i''"
    "at sample_chain ''capability_grant'' ''status'' = PStr ''active''"
    "at sample_chain ''capability_grant'' ''process_id'' = PStr ''p''"
    "at sample_chain ''capability_grant'' ''grant_id'' = PStr ''g''"
    "at sample_chain ''delegation_receipt'' ''parent_grant_id'' = PStr ''g''"
    "at sample_chain ''delegation_receipt'' ''issuer'' = PStr ''i''"
    "at sample_chain ''delegation_receipt'' ''process_id'' = PStr ''p''"
    "at sample_chain ''trust_profile'' ''principal_id'' = PStr ''i''"
    "at sample_chain ''canonical_envelope'' ''correlation_id'' = PStr ''p''"
    "at sample_chain ''canonical_envelope'' ''security'' = PDict [(''tainted'', PBool False)]"
    "at sample_chain ''task_contract'' ''process_id'' = PStr ''p''" "at sample_chain ''task_contract'' ''task_id'' = PStr ''t''"
    by (simp_all add: at_def sample_chain_def)
  moreover have "at sample_chain n ''process_id'' = PStr ''p''" "at sample_chain n ''repository_id'' = PStr ''r''"
    if "n \<in> {''staged_change'', ''approval'', ''intent'', ''action_receipt''}" for n
    using that by (auto simp: at_def sample_chain_fld chain_parts)
  moreover have "at sample_chain ''evidence_bundle'' ''task_id'' = PStr ''t''"
    "at sample_chain ''evidence_bundle'' ''patch_digest'' = PStr ''pd''"
    "at sample_chain ''staged_change'' ''patch_digest'' = PStr ''pd''"
    by (simp_all add: at_def sample_chain_fld chain_parts)
  ultimately show ?thesis
    using sample_chain_delegation sample_chain_at(3)
    by (simp add: check_identities_def binding_values_def binding_value_def require_single_def)
qed

lemma sample_chain_check_digests: "check_digests sample_chain = Inr chain_digest"
proof -
  have "chain_digest \<noteq> []" using sample_chain_digests(4) by (rule is_digest_nonempty)
  moreover have "at sample_chain n ''staged_change_digest'' = PStr chain_digest"
    if "n \<in> {''approval'', ''intent'', ''action_receipt''}" for n
    using that by (auto simp: at_def sample_chain_fld chain_parts)
  moreover have "at sample_chain ''verification_report'' ''evidence_digest'' = PStr evidence_digest"
    "at sample_chain ''verification_report'' ''verdict'' = PStr ''pass''"
    "at sample_chain ''staged_change'' ''evidence_digest'' = PStr evidence_digest"
    "at sample_chain ''staged_change'' ''verification_digest'' = PStr verification_digest"
    by (simp_all add: at_def sample_chain_fld chain_parts)
  ultimately show ?thesis
    using sample_chain_digests sample_chain_at(4)
    by (simp add: check_digests_def binding_values_def binding_value_def require_single_def sample_chain_fld)
qed

lemma sample_chain_action: "check_action sample_chain chain_digest = Inr ()"
proof -
  have key: "publication_idempotency_key (PStr ''agent/x'') ''main'' chain_digest = Inr chain_key"
    by (simp add: key_Inr branch_prefix_def chain_key_def text_eval)
  have base: "require_base_branch ''chain: intent base branch is invalid'' (PStr ''main'') = Inr ()"
    by (simp add: require_base_branch_def sample_base)
  have sel: "at sample_chain ''actuator_request'' k = fld chain_request k"
    "at sample_chain ''intent'' k = fld (PDict chain_fields) k" "at sample_chain ''approval'' k = fld (PDict chain_fields) k"
    "at sample_chain ''action_receipt'' k = fld chain_receipt k"
    "at sample_chain ''staged_change'' k = fld chain_staged k" for k
    by (simp_all add: at_def sample_chain_fld)
  show ?thesis
    unfolding check_action_def sel sample_chain_at sample_chain_fld sample_chain_digests(5) check_each_Inr
    by (simp add: request_fields_def chain_request_def chain_receipt_def chain_fields_def chain_staged_def key base)
qed

lemma sample_chain_valid: "validate_chain sample_chain = Inr ()"
proof -
  have "require_members sample_chain = Inr ()"
    by (simp add: require_members_def required_members_def sample_chain_def sample_evidence_def
        sample_verification_def chain_staged_def chain_fields_def chain_request_def chain_receipt_def)
  moreover have "filter (\<lambda>n. \<not> has_key sample_chain n) contract_names = []"
    "filter (\<lambda>n. \<not> is_dict (fld sample_chain n)) contract_names = []"
    by (simp_all add: contract_names_def sample_chain_def sample_evidence_def sample_verification_def
        chain_staged_def chain_request_def chain_receipt_def)
  moreover have "is_dict sample_chain" by (simp add: sample_chain_def)
  ultimately show ?thesis
    using sample_chain_identities sample_chain_check_digests sample_chain_action
    by (simp add: validate_chain_def Let_def)
qed

section \<open>Properties\<close>

text \<open>
  Claim C14: a valid chain is bound end to end by content. Process and repository agree in every contract that names
  them, the envelope is untainted, the verification passed, the report and the staged change carry the
  digest of the evidence, the staged change that of the report, the approval, intent, decision and
  receipt that of the staged change, the credential grant that of the request, and intent and receipt
  have the key of the intent's branches and the staged digest; and the decision was an allow.
\<close>

theorem valid_chain_is_content_bound:
  assumes "validate_chain chain = Inr ()"
  shows "(\<exists>p. \<forall>n\<in>set [''process_contract'', ''staged_change'', ''approval'', ''intent'', ''action_receipt''].
        at chain n ''process_id'' = PStr p) \<and>
    (\<exists>r. \<forall>n\<in>set [''process_contract'', ''staged_change'', ''approval'', ''intent'', ''policy_decision'', ''action_receipt''].
        at chain n ''repository_id'' = PStr r) \<and>
    fld (at chain ''canonical_envelope'' ''security'') ''tainted'' = PBool False \<and>
    at chain ''verification_report'' ''verdict'' = PStr ''pass'' \<and>
    at chain ''policy_decision'' ''effect'' = PStr ''allow'' \<and>
    sha256_digest (fld chain ''evidence_bundle'') = Inr (str_of (at chain ''verification_report'' ''evidence_digest'')) \<and>
    sha256_digest (fld chain ''evidence_bundle'') = Inr (str_of (at chain ''staged_change'' ''evidence_digest'')) \<and>
    sha256_digest (fld chain ''verification_report'') = Inr (str_of (at chain ''staged_change'' ''verification_digest'')) \<and>
    (\<forall>n\<in>set [''approval'', ''intent'', ''policy_decision'', ''action_receipt''].
       sha256_digest (fld chain ''staged_change'') = Inr (str_of (at chain n ''staged_change_digest''))) \<and>
    sha256_digest (fld chain ''actuator_request'') = Inr (str_of (at chain ''credential_use_grant'' ''request_digest'')) \<and>
    at chain ''action_receipt'' ''idempotency_key'' = at chain ''intent'' ''idempotency_key'' \<and>
    (\<exists>b q sd. at chain ''intent'' ''branch_namespace'' = PStr b \<and> at chain ''intent'' ''base_branch'' = PStr q \<and>
       sha256_digest (fld chain ''staged_change'') = Inr sd \<and>
       at chain ''intent'' ''idempotency_key'' = PStr (key_text b q sd))"
proof -
  from validate_chain_Inr [OF assms] obtain sd where i: "check_identities chain = Inr ()"
    and d: "check_digests chain = Inr sd" and a: "check_action chain sd = Inr ()" by blast
  note i' = check_identities_Inr [OF i] and d' = check_digests_Inr [OF d] and a' = check_action_Inr [OF a]
  show ?thesis
    using i' d' a' by (elim conjE exE, intro conjI) (assumption | simp)+
qed

theorem valid_chain_is_content_bound_witness:
  "at sample_chain ''verification_report'' ''verdict'' = PStr ''pass''"
  using valid_chain_is_content_bound [OF sample_chain_valid] by blast

text \<open>
  Claim C15: delegation never grows authority. In a valid chain the delegated actions are among the
  delegable ones, the delegated resources among the parent's, the issuer is the parent's subject, and the
  remaining depth is smaller than the parent's.
\<close>

theorem delegation_never_expands:
  assumes "validate_chain chain = Inr ()"
  shows "\<exists>as ds rs ps m n. members_of (at chain ''delegation_receipt'' ''actions'') = Some as \<and>
    members_of (at chain ''capability_grant'' ''delegable_actions'') = Some ds \<and> set as \<subseteq> set ds \<and>
    members_of (at chain ''delegation_receipt'' ''resources'') = Some rs \<and>
    members_of (at chain ''capability_grant'' ''resources'') = Some ps \<and> set rs \<subseteq> set ps \<and>
    py_eq (at chain ''delegation_receipt'' ''issuer'') (at chain ''capability_grant'' ''subject'') \<and>
    at chain ''delegation_receipt'' ''remaining_delegation_depth'' = PInt m \<and>
    at chain ''capability_grant'' ''max_delegation_depth'' = PInt n \<and> m < n"
proof -
  from validate_chain_Inr [OF assms] have "check_identities chain = Inr ()" by (elim conjE)
  from check_identities_Inr [OF this]
  have "validate_delegation (fld chain ''capability_grant'') (fld chain ''delegation_receipt'') = Inr ()"
    by (elim conjE)
  then show ?thesis
    by (auto simp: validate_delegation_def check_delegation_list_def subset_of_def at_def is_int_iff
        split: option.splits)
qed

theorem delegation_never_expands_witness:
  "\<exists>m n. at sample_chain ''delegation_receipt'' ''remaining_delegation_depth'' = PInt m \<and>
     at sample_chain ''capability_grant'' ''max_delegation_depth'' = PInt n \<and> m < n"
  using delegation_never_expands [OF sample_chain_valid] by (elim exE conjE) (intro exI conjI)

text \<open>
  A receipt key identifies the change. Two valid chains whose receipts carry the same
  idempotency key publish the same staged change, unless the two staged changes are a SHA-256 collision.
\<close>

theorem receipt_key_identifies_change:
  assumes "validate_chain chain = Inr ()" "validate_chain chain2 = Inr ()"
    and "at chain ''action_receipt'' ''idempotency_key'' = at chain2 ''action_receipt'' ''idempotency_key''"
  shows "normal (fld chain ''staged_change'') = normal (fld chain2 ''staged_change'') \<or>
    digest_collision (fld chain ''staged_change'') (fld chain2 ''staged_change'')"
proof -
  from valid_receipt_key [OF assms(1)] obtain b q sd where
    k: "sha256_digest (fld chain ''staged_change'') = Inr sd"
      "at chain ''action_receipt'' ''idempotency_key'' = PStr (key_text b q sd)" by blast
  from valid_receipt_key [OF assms(2)] obtain b2 q2 sd2 where
    k2: "sha256_digest (fld chain2 ''staged_change'') = Inr sd2"
      "at chain2 ''action_receipt'' ''idempotency_key'' = PStr (key_text b2 q2 sd2)" by blast
  have "key_text b q sd = key_text b2 q2 sd2" using assms(3) k(2) k2(2) by simp
  then have "sd = sd2" using key_text_parts by blast
  then show ?thesis
    using same_digest_same_content [OF k(1), of "fld chain2 ''staged_change''"] k2(1) by blast
qed

theorem receipt_key_identifies_change_witness:
  "normal (fld sample_chain ''staged_change'') = normal (fld sample_chain ''staged_change'') \<or>
    digest_collision (fld sample_chain ''staged_change'') (fld sample_chain ''staged_change'')"
  by (rule receipt_key_identifies_change [OF sample_chain_valid sample_chain_valid refl])

end
