(* ===== verification/Url_Unquote.thy ===== *)
theory Url_Unquote
  imports Url_Quote
begin

text \<open>
  \<^verbatim>\<open>urllib.parse.unquote\<close> and the parts of \<^verbatim>\<open>urlparse\<close> the journal of \<^verbatim>\<open>publication.py\<close>
  reads: percent escapes become bytes, the bytes are decoded as UTF-8 with U+FFFD for what is not
  UTF-8, and decoding inverts \<open>quote_text\<close> on every text.
\<close>

section \<open>Percent escapes\<close>

definition hex_digit_value :: "char \<Rightarrow> nat option" where
  "hex_digit_value c =
     (if CHR ''0'' \<le> c \<and> c \<le> CHR ''9'' then Some (byte c - 48)
      else if CHR ''A'' \<le> c \<and> c \<le> CHR ''F'' then Some (byte c - 55)
      else if CHR ''a'' \<le> c \<and> c \<le> CHR ''f'' then Some (byte c - 87) else None)"

text \<open>An escape that is no pair of hex digits stays.\<close>

fun percent_bytes :: "string \<Rightarrow> string" where
  "percent_bytes (c # a # b # cs) =
     (case (if c = CHR ''%'' then hex_digit_value a else None, hex_digit_value b) of
        (Some m, Some n) \<Rightarrow> char_of (16 * m + n) # percent_bytes cs
      | _ \<Rightarrow> c # percent_bytes (a # b # cs))"
| "percent_bytes cs = cs"

section \<open>Decoding with replacement\<close>

text \<open>The length a lead byte announces, 0 for a byte that cannot lead.\<close>

definition sequence_length :: "nat \<Rightarrow> nat" where
  "sequence_length b = (if b < 128 then 1 else if b < 194 then 0 else if b < 224 then 2
     else if b < 240 then 3 else if b < 245 then 4 else 0)"

text \<open>The second byte excludes overlong forms, surrogates and values above U+10FFFF.\<close>

definition second_byte_ok :: "nat \<Rightarrow> nat \<Rightarrow> bool" where
  "second_byte_ok lead b \<longleftrightarrow>
     (if lead = 224 then 160 else if lead = 240 then 144 else 128) \<le> b \<and>
     b \<le> (if lead = 237 then 159 else if lead = 244 then 143 else 191)"

definition continuation_byte :: "nat \<Rightarrow> bool" where
  "continuation_byte b \<longleftrightarrow> 128 \<le> b \<and> b \<le> 191"

text \<open>The tail bytes that belong to a lead byte, as far as they are well formed.\<close>

definition sequence_tail :: "nat \<Rightarrow> nat \<Rightarrow> string \<Rightarrow> string" where
  "sequence_tail lead n cs =
     (case cs of
        [] \<Rightarrow> []
      | a # r \<Rightarrow> if n = 0 \<or> \<not> second_byte_ok lead (byte a) then []
          else a # takeWhile (\<lambda>c. continuation_byte (byte c)) (take (n - 1) r))"

definition replacement :: string where
  "replacement = [CHR 0xEF, CHR 0xBF, CHR 0xBD]"

function utf8_replace :: "string \<Rightarrow> string" where
  "utf8_replace [] = []"
| "utf8_replace (c # cs) =
     (let n = sequence_length (byte c); tl = sequence_tail (byte c) (n - 1) cs
      in if n = 0 then replacement @ utf8_replace cs
         else if length tl = n - 1 then c # tl @ utf8_replace (drop (n - 1) cs)
         else replacement @ utf8_replace (drop (length tl) cs))"
  by pat_completeness auto
termination by (relation "measure length") auto

text \<open>
  \<^verbatim>\<open>unquote(s)\<close>: each maximal run of ASCII characters is unescaped and decoded on its own, the other
  characters stay.
\<close>

function unquote :: "string \<Rightarrow> string" where
  "unquote [] = []"
| "unquote (c # cs) =
     (if byte c < 128
      then utf8_replace (percent_bytes (c # takeWhile (\<lambda>d. byte d < 128) cs))
             @ unquote (dropWhile (\<lambda>d. byte d < 128) cs)
      else c # unquote cs)"
  by pat_completeness auto
termination by (relation "measure length") (auto simp: le_imp_less_Suc length_dropWhile_le)

section \<open>Unquoting inverts quoting\<close>

text \<open>A text that is UTF-8.\<close>

definition is_utf8 :: "string \<Rightarrow> bool" where
  "is_utf8 s \<longleftrightarrow> utf8_replace s = s"

lemma hex_digit_value_upper: "n < 16 \<Longrightarrow> hex_digit_value (hex_upper n) = Some n"
proof -
  assume "n < 16"
  then have "n \<in> set [0..<16]" by simp
  moreover have "\<forall>n\<in>set [0..<16]. hex_digit_value (hex_upper n) = Some n" by code_simp
  ultimately show ?thesis by blast
qed

lemma percent_bytes_plain: "c \<noteq> CHR ''%'' \<Longrightarrow> percent_bytes (c # s) = c # percent_bytes s"
  by (cases "(c # s)" rule: percent_bytes.cases) (auto split: option.splits)

lemma percent_bytes_escape:
  assumes "m < 16" "n < 16"
  shows "percent_bytes (CHR ''%'' # hex_upper m # hex_upper n # s) = char_of (16 * m + n) # percent_bytes s"
  using assms by (simp add: hex_digit_value_upper)

lemma percent_bytes_quote: "percent_bytes (quote_text s) = s"
proof (induction s)
  case Nil
  then show ?case by simp
next
  case (Cons c s)
  show ?case
  proof (cases "is_unreserved c")
    case True
    then have "c \<noteq> CHR ''%''" using percent_not_unreserved by blast
    with True Cons show ?thesis by (simp add: quote_byte_def percent_bytes_plain)
  next
    case False
    have "byte c div 16 < 16" "byte c mod 16 < 16" using byte_less_256 [of c] by (simp_all add: less_mult_imp_div_less)
    moreover have "16 * (byte c div 16) + byte c mod 16 = byte c" by simp
    ultimately have "percent_bytes (quote_byte c @ quote_text s) = char_of (byte c) # percent_bytes (quote_text s)"
      using False percent_bytes_escape by (simp add: quote_byte_def del: percent_bytes.simps)
    with Cons show ?thesis by simp
  qed
qed

lemma ascii_quote_byte: "\<forall>d\<in>set (quote_byte c). byte d < 128"
proof -
  have h: "byte (hex_upper n) < 128" if "n < 16" for n
  proof -
    have "hex_upper n \<in> set ''0123456789ABCDEF''" unfolding hex_upper_def using that by (intro nth_mem) simp
    then show ?thesis by auto
  qed
  have "byte c < 128" if "is_unreserved c"
    using that by (auto simp: is_unreserved_def is_alnum_def is_digit_def less_eq_char_def)
  then show ?thesis
    using h [of "byte c div 16"] h [of "byte c mod 16"] byte_less_256 [of c]
    by (auto simp: quote_byte_def less_mult_imp_div_less)
qed

lemma ascii_quote_text: "\<forall>d\<in>set (quote_text s). byte d < 128"
  using ascii_quote_byte by (induction s) auto

lemma unquote_ascii: "\<forall>d\<in>set s. byte d < 128 \<Longrightarrow> unquote s = utf8_replace (percent_bytes s)"
  by (cases s) (auto simp: takeWhile_eq_all_conv [THEN iffD2] dropWhile_eq_Nil_conv [THEN iffD2] simp del: percent_bytes.simps(1))

lemma unquote_quote_text: "is_utf8 s \<Longrightarrow> unquote (quote_text s) = s"
  using unquote_ascii [OF ascii_quote_text] by (simp add: percent_bytes_quote is_utf8_def)

lemma utf8_replace_ascii: "\<forall>d\<in>set s. byte d < 128 \<Longrightarrow> utf8_replace s = s"
proof (induction s)
  case Nil
  then show ?case by simp
next
  case (Cons c s)
  then have "sequence_length (byte c) = 1" "utf8_replace s = s" by (simp_all add: sequence_length_def)
  moreover have "sequence_tail (byte c) 0 s = []" by (simp add: sequence_tail_def split: list.split)
  ultimately show ?case by (subst utf8_replace.simps) (simp add: Let_def del: utf8_replace.simps)
qed

lemma is_utf8_ascii: "ascii s \<Longrightarrow> is_utf8 s"
  unfolding is_utf8_def by (rule utf8_replace_ascii) (auto simp: ascii_def list_all_iff dest: ascii_byte)

section \<open>Splitting a URL\<close>

text \<open>
  The scheme, the network location and the fragment as \<^verbatim>\<open>urlparse\<close> finds them. \<open>netloc_ok\<close>
  answers for the library's checks of a location with brackets or characters outside ASCII.
\<close>

definition strip_url :: "string \<Rightarrow> string" where
  "strip_url s = filter (\<lambda>c. byte c \<notin> {9, 10, 13}) (dropWhile (\<lambda>c. byte c \<le> 32) s)"

definition is_letter :: "char \<Rightarrow> bool" where
  "is_letter c \<longleftrightarrow> is_alnum c \<and> \<not> is_digit c"

definition is_scheme_char :: "char \<Rightarrow> bool" where
  "is_scheme_char c \<longleftrightarrow> is_alnum c \<or> c \<in> {CHR ''+'', CHR ''-'', CHR ''.''}"

definition lower_char :: "char \<Rightarrow> char" where
  "lower_char c = (if CHR ''A'' \<le> c \<and> c \<le> CHR ''Z'' then char_of (byte c + 32) else c)"

definition split_scheme :: "string \<Rightarrow> string \<times> string" where
  "split_scheme url =
     (let s = takeWhile (\<lambda>c. c \<noteq> CHR '':'') url
      in if s \<noteq> url \<and> s \<noteq> [] \<and> is_letter (hd s) \<and> list_all is_scheme_char s
         then (map lower_char s, drop (Suc (length s)) url) else ([], url))"

definition netloc_end :: "char \<Rightarrow> bool" where
  "netloc_end c \<longleftrightarrow> c \<in> {CHR ''/'', CHR ''?'', CHR ''#''}"

definition split_netloc :: "string \<Rightarrow> string \<times> string" where
  "split_netloc url =
     (if take 2 url = ''//''
      then (takeWhile (\<lambda>c. \<not> netloc_end c) (drop 2 url), dropWhile (\<lambda>c. \<not> netloc_end c) (drop 2 url))
      else ([], url))"

definition valid_netloc :: "(string \<Rightarrow> bool) \<Rightarrow> string \<Rightarrow> bool" where
  "valid_netloc netloc_ok n \<longleftrightarrow> (CHR ''['' \<in> set n \<longleftrightarrow> CHR '']'' \<in> set n) \<and>
     (CHR ''['' \<in> set n \<or> \<not> ascii n \<longrightarrow> netloc_ok n)"

definition url_fragment :: "string \<Rightarrow> string" where
  "url_fragment url = drop 1 (dropWhile (\<lambda>c. c \<noteq> CHR ''#'') url)"

text \<open>\<^verbatim>\<open>parsed is not None, scheme https, a netloc without user and password, no fragment\<close>.\<close>

definition is_https_url :: "(string \<Rightarrow> bool) \<Rightarrow> string \<Rightarrow> bool" where
  "is_https_url netloc_ok s =
     (let (scheme, rest) = split_scheme (strip_url s); (netloc, tail) = split_netloc rest
      in valid_netloc netloc_ok netloc \<and> scheme = ''https'' \<and> netloc \<noteq> [] \<and>
         CHR ''@'' \<notin> set netloc \<and> url_fragment tail = [])"

end
