(* ===== verification/Publication_Journal.thy ===== *)
theory Publication_Journal
  imports Publication_Intent Url_Unquote Py_Datetime
begin

text \<open>
  The journal of \<^verbatim>\<open>src/app_contracts/publication.py\<close> (class \<^verbatim>\<open>PublicationJournal\<close>): one row per
  process with the states around one external effect. The table is a list of rows; an operation
  returns its result and the new table, and a failed one leaves the table as it was, which is what its
  transaction does. A row follows the state machine \<open>attempt_step\<close>.
\<close>

section \<open>Rows\<close>

datatype attempt_status = Prepared | Attempting | Completed | ReconciliationRequired

fun status_text :: "attempt_status \<Rightarrow> string" where
  "status_text Prepared = ''prepared''"
| "status_text Attempting = ''attempting''"
| "status_text Completed = ''completed''"
| "status_text ReconciliationRequired = ''reconciliation_required''"

record publication_record =
  jr_process_id :: string
  jr_idempotency_key :: string
  jr_request_digest :: string
  jr_repository_id :: string
  jr_base_branch :: "string option"
  jr_status :: attempt_status
  jr_pull_request_id :: "int option"
  jr_pull_request_url :: "string option"
  jr_files_digest :: "string option"
  jr_files_outcome :: "string option"
  jr_branch_commit :: "string option"
  jr_files_observed_at :: "string option"

type_synonym journal = "publication_record list"

abbreviation value_error :: "string \<Rightarrow> exn" where
  "value_error m \<equiv> Exn ValueError m"

section \<open>Opening\<close>

text \<open>What the file system and SQLite answer; no columns means no table.\<close>

record journal_file =
  jf_symlink :: bool
  jf_regular :: bool
  jf_connects :: bool
  jf_columns :: "string list"
  jf_wal_answer :: pyval
  jf_mode_answer :: pyval
  jf_synchronous :: pyval

definition journal_columns :: "string list" where
  "journal_columns = [''process_id'', ''idempotency_key'', ''request_digest'', ''repository_id'',
     ''base_branch'', ''status'', ''pull_request_id'', ''pull_request_url'', ''verified_files_digest'',
     ''verified_files_outcome'', ''verified_branch_commit_sha'', ''verified_files_observed_at'']"

definition migrated_columns :: "string list" where
  "migrated_columns = [''pull_request_url'', ''base_branch'', ''verified_files_digest'',
     ''verified_files_outcome'', ''verified_branch_commit_sha'', ''verified_files_observed_at'']"

text \<open>\<^verbatim>\<open>CREATE TABLE IF NOT EXISTS\<close>, then one \<^verbatim>\<open>ALTER TABLE\<close> per column that is missing.\<close>

definition migrate :: "string list \<Rightarrow> string list" where
  "migrate cols = (let cs = (if cols = [] then journal_columns else cols)
     in cs @ filter (\<lambda>c. c \<notin> set cs) migrated_columns)"

definition lower_text :: "string \<Rightarrow> string" where
  "lower_text s = map lower_char s"

definition configure_durability :: "bool \<Rightarrow> journal_file \<Rightarrow> unit res" where
  "configure_durability create file =
     (let mode = (if create then jf_wal_answer file else jf_mode_answer file)
      in unless (\<not> is_str mode \<or> lower_text (str_of mode) \<noteq> ''wal'' \<or> \<not> py_eq (jf_synchronous file) (PInt 2))
           (value_error ''publication journal durability is unavailable'') (Inr ()))"

definition open_journal :: "pyval \<Rightarrow> journal_file \<Rightarrow> string list res" where
  "open_journal create file =
     unless (\<not> is_bool create) (value_error ''publication journal mode is invalid'')
    (if create = PBool True
     then unless (\<not> jf_connects file) (Exn ForeignError ''unable to open database file'')
         (rbind (configure_durability True file) (\<lambda>_. Inr (migrate (jf_columns file))))
     else unless (jf_symlink file \<or> \<not> jf_regular file \<or> \<not> jf_connects file)
           (value_error ''publication journal is unavailable'')
         (unless (\<not> set journal_columns \<subseteq> set (jf_columns file))
           (value_error ''publication journal schema is unavailable'')
         (rbind (configure_durability False file) (\<lambda>_. Inr (jf_columns file)))))"

section \<open>Reading and preparing\<close>

text \<open>Binding a value to a statement: a text must be encodable, an integer must fit 64 bits.\<close>

definition bind_text :: "string \<Rightarrow> unit res" where
  "bind_text s = unless (has_surrogate s) (Exn UnicodeEncodeError ''surrogates not allowed'') (Inr ())"

definition bind_int :: "int \<Rightarrow> unit res" where
  "bind_int n = unless (n < - (2 ^ 63) \<or> 2 ^ 63 \<le> n)
     (Exn OverflowError ''Python int too large to convert to SQLite INTEGER'') (Inr ())"

definition attempt_of :: "journal \<Rightarrow> string \<Rightarrow> publication_record option" where
  "attempt_of j p = List.find (\<lambda>r. jr_process_id r = p) j"

definition get_attempt :: "pyval \<Rightarrow> journal \<Rightarrow> publication_record res" where
  "get_attempt pid j =
     unless (\<not> nonempty_str pid) (value_error ''publication process ID is invalid'')
    (rbind (bind_text (str_of pid)) (\<lambda>_.
     case attempt_of j (str_of pid) of None \<Rightarrow> Inl (Exn KeyError (str_of pid)) | Some r \<Rightarrow> Inr r))"

text \<open>The base branch of a canonical idempotency key.\<close>

definition key_parts :: "string \<Rightarrow> string list" where
  "key_parts k = split_on (CHR ''/'') (if startswith k ''publish/'' then drop 8 k else [])"

definition not_canonical :: exn where
  "not_canonical = value_error ''publication idempotency key is not canonical''"

definition parse_key :: "string \<Rightarrow> string res" where
  "parse_key k =
     (case key_parts k of
        [h, b, d] \<Rightarrow>
          unless (h = [] \<or> b = [] \<or> d = []) not_canonical
         (rbind (quote (unquote h)) (\<lambda>h'. unless (h' \<noteq> h) not_canonical
         (rbind (quote (unquote b)) (\<lambda>b'. unless (b' \<noteq> b \<or> \<not> is_digest d) not_canonical
         (rcatch (rbind (validate_publication_base_branch (PStr (unquote b))) (\<lambda>_. Inr (unquote b)))
            (\<lambda>_. Inl not_canonical))))))
      | _ \<Rightarrow> Inl not_canonical)"

definition opt_text :: "pyval \<Rightarrow> string option" where
  "opt_text v = (case v of PStr s \<Rightarrow> Some s | _ \<Rightarrow> None)"

definition fresh_attempt :: "string \<Rightarrow> string \<Rightarrow> string \<Rightarrow> string \<Rightarrow> string \<Rightarrow> string option \<Rightarrow> publication_record" where
  "fresh_attempt pid key digest repo base files =
     \<lparr>jr_process_id = pid, jr_idempotency_key = key, jr_request_digest = digest, jr_repository_id = repo,
      jr_base_branch = Some base, jr_status = Prepared, jr_pull_request_id = None, jr_pull_request_url = None,
      jr_files_digest = files, jr_files_outcome = None, jr_branch_commit = None, jr_files_observed_at = None\<rparr>"

text \<open>\<^verbatim>\<open>INSERT\<close>: process and key are unique.\<close>

definition insert_attempt :: "publication_record \<Rightarrow> (journal, unit) eff" where
  "insert_attempt r j =
     (case rbind (bind_text (jr_idempotency_key r)) (\<lambda>_. bind_text (jr_repository_id r)) of
        Inl e \<Rightarrow> (Inl e, j)
      | Inr _ \<Rightarrow>
          if list_ex (\<lambda>x. jr_process_id x = jr_process_id r \<or> jr_idempotency_key x = jr_idempotency_key r) j
          then (Inl (value_error ''publication payload conflict''), j) else (Inr (), j @ [r]))"

text \<open>The checks of \<^verbatim>\<open>prepare\<close> before it looks the process up; the result is the base branch.\<close>

definition check_prepare :: "pyval \<Rightarrow> pyval \<Rightarrow> pyval \<Rightarrow> pyval \<Rightarrow> pyval \<Rightarrow> string res" where
  "check_prepare pid key digest repo files =
     unless (\<not> nonempty_str pid) (value_error ''publication process ID is invalid'')
    (unless (\<not> nonempty_str key) (value_error ''publication idempotency key is invalid'')
    (rbind (parse_key (str_of key)) (\<lambda>base.
     unless (\<not> nonempty_str digest) (value_error ''publication request digest is invalid'')
    (unless (\<not> is_digest (str_of digest)) (value_error ''publication request digest is not canonical'')
    (unless (\<not> nonempty_str repo) (value_error ''publication repository is invalid'')
    (unless (files \<noteq> PNone \<and> (\<not> is_str files \<or> \<not> is_digest (str_of files)))
       (value_error ''publication verified-files digest is invalid'')
    (Inr base)))))))"

definition same_attempt :: "publication_record \<Rightarrow> pyval \<Rightarrow> pyval \<Rightarrow> pyval \<Rightarrow> string \<Rightarrow> pyval \<Rightarrow> bool" where
  "same_attempt r key digest repo base files \<longleftrightarrow>
     jr_idempotency_key r = str_of key \<and> jr_request_digest r = str_of digest \<and>
     jr_repository_id r = str_of repo \<and> jr_base_branch r = Some base \<and>
     (files = PNone \<or> jr_files_digest r = opt_text files)"

definition prepare :: "pyval \<Rightarrow> pyval \<Rightarrow> pyval \<Rightarrow> pyval \<Rightarrow> pyval \<Rightarrow> (journal, publication_record) eff" where
  "prepare pid key digest repo files j =
     (case check_prepare pid key digest repo files of
        Inl e \<Rightarrow> (Inl e, j)
      | Inr base \<Rightarrow>
          (case get_attempt pid j of
             Inr r \<Rightarrow>
               (if same_attempt r key digest repo base files then Inr r
                else Inl (value_error ''publication payload conflict''), j)
           | Inl e \<Rightarrow>
               if exn_class e \<noteq> KeyError then (Inl e, j)
               else ebind (insert_attempt (fresh_attempt (str_of pid) (str_of key) (str_of digest) (str_of repo)
                        base (opt_text files)))
                      (\<lambda>_ j'. (get_attempt pid j', j')) j))"

section \<open>Changing the status\<close>

text \<open>\<^verbatim>\<open>UPDATE ... WHERE process_id = ? AND status = ?\<close>; any row count but 1 rolls back.\<close>

definition update_attempt ::
  "string \<Rightarrow> attempt_status \<Rightarrow> (publication_record \<Rightarrow> publication_record) \<Rightarrow> exn \<Rightarrow> (journal, unit) eff" where
  "update_attempt pid expected f e j =
     (let hit = (\<lambda>r. jr_process_id r = pid \<and> jr_status r = expected)
      in if length (filter hit j) \<noteq> 1 then (Inl e, j)
         else (Inr (), map (\<lambda>r. if hit r then f r else r) j))"

definition not_in :: "attempt_status \<Rightarrow> exn" where
  "not_in s = value_error (''publication is not '' @ status_text s)"

definition set_status :: "pyval \<Rightarrow> attempt_status \<Rightarrow> attempt_status \<Rightarrow> (journal, unit) eff" where
  "set_status pid expected target j =
     (if \<not> nonempty_str pid then (Inl (value_error ''publication process ID is invalid''), j)
      else case bind_text (str_of pid) of
        Inl e \<Rightarrow> (Inl e, j)
      | Inr _ \<Rightarrow> update_attempt (str_of pid) expected (\<lambda>r. r\<lparr>jr_status := target\<rparr>) (not_in expected) j)"

definition mark_attempting :: "pyval \<Rightarrow> (journal, unit) eff" where
  "mark_attempting pid = set_status pid Prepared Attempting"

definition mark_reconciliation_required :: "pyval \<Rightarrow> (journal, unit) eff" where
  "mark_reconciliation_required pid = set_status pid Attempting ReconciliationRequired"

section \<open>Completing with a receipt\<close>

datatype receipt_type = MockReceipt | GitHubReceipt | OtherReceipt

text \<open>\<open>rc_url\<close> is \<^verbatim>\<open>getattr(receipt, "pull_request_url", None)\<close>.\<close>

record receipt =
  rc_type :: receipt_type
  rc_id :: pyval
  rc_repository_id :: pyval
  rc_branch :: pyval
  rc_base_branch :: pyval
  rc_digest :: pyval
  rc_idempotency_key :: pyval
  rc_url :: pyval

definition bad_receipt :: exn where
  "bad_receipt = value_error ''publication receipt is invalid''"

definition receipt_shape :: "(string \<Rightarrow> bool) \<Rightarrow> receipt \<Rightarrow> unit res" where
  "receipt_shape netloc_ok rc =
     unless (rc_type rc = OtherReceipt) bad_receipt
    (unless (\<not> is_int (rc_id rc) \<or> int_of (rc_id rc) < 1) bad_receipt
    (unless (\<not> nonempty_str (rc_branch rc) \<or> \<not> nonempty_str (rc_digest rc)) bad_receipt
    (unless (if rc_type rc = GitHubReceipt
             then \<not> is_str (rc_url rc) \<or> \<not> is_https_url netloc_ok (str_of (rc_url rc))
             else rc_url rc \<noteq> PNone) bad_receipt (Inr ()))))"

definition receipt_matches :: "publication_record \<Rightarrow> receipt \<Rightarrow> unit res" where
  "receipt_matches r rc =
     rbind (publication_idempotency_key (rc_branch rc) (case jr_base_branch r of None \<Rightarrow> [] | Some b \<Rightarrow> b)
         (str_of (rc_digest rc))) (\<lambda>k.
     unless (k \<noteq> jr_idempotency_key r \<or> \<not> py_eq (rc_idempotency_key rc) (PStr (jr_idempotency_key r))
         \<or> \<not> py_eq (rc_repository_id rc) (PStr (jr_repository_id r))
         \<or> jr_base_branch r = None \<or> \<not> py_eq (rc_base_branch rc) (PStr (the (jr_base_branch r))))
       (value_error ''publication receipt mismatch'') (Inr ()))"

definition complete_attempt ::
  "(string \<Rightarrow> bool) \<Rightarrow> pyval \<Rightarrow> receipt \<Rightarrow> attempt_status \<Rightarrow> (journal, unit) eff" where
  "complete_attempt netloc_ok pid rc expected j =
     (case rbind (get_attempt pid j) (\<lambda>r.
        unless (jr_status r \<noteq> expected) (not_in expected)
       (rbind (receipt_shape netloc_ok rc) (\<lambda>_.
        rbind (receipt_matches r rc) (\<lambda>_.
        rbind (bind_int (int_of (rc_id rc))) (\<lambda>_.
        bind_text (str_of (rc_url rc))))))) of
        Inl e \<Rightarrow> (Inl e, j)
      | Inr _ \<Rightarrow>
          update_attempt (str_of pid) expected
            (\<lambda>r. r\<lparr>jr_status := Completed, jr_pull_request_id := Some (int_of (rc_id rc)),
                   jr_pull_request_url := opt_text (rc_url rc)\<rparr>) (not_in expected) j)"

definition mark_completed :: "(string \<Rightarrow> bool) \<Rightarrow> pyval \<Rightarrow> receipt \<Rightarrow> (journal, unit) eff" where
  "mark_completed netloc_ok pid rc = complete_attempt netloc_ok pid rc Attempting"

definition mark_completed_from_reconciliation :: "(string \<Rightarrow> bool) \<Rightarrow> pyval \<Rightarrow> receipt \<Rightarrow> (journal, unit) eff" where
  "mark_completed_from_reconciliation netloc_ok pid rc = complete_attempt netloc_ok pid rc ReconciliationRequired"

section \<open>Evidence of a reconciliation\<close>

definition check_evidence :: "publication_record \<Rightarrow> pyval \<Rightarrow> pyval \<Rightarrow> pyval \<Rightarrow> now_arg \<Rightarrow> string res" where
  "check_evidence r manifest outcome commit observed =
     unless (\<not> is_str manifest \<or> \<not> is_digest (str_of manifest) \<or> jr_files_digest r \<noteq> Some (str_of manifest)
         \<or> \<not> one_of outcome [''verified'', ''unverified'']
         \<or> (case observed of NowAt t \<Rightarrow> \<not> is_aware t | _ \<Rightarrow> True))
       (value_error ''publication reconciliation evidence is invalid'')
    (unless (if outcome = PStr ''verified'' then \<not> is_str commit \<or> \<not> is_hex40 (str_of commit) else commit \<noteq> PNone)
       (value_error ''publication reconciliation evidence is invalid'')
    (case observed of NowAt t \<Rightarrow> rbind (astimezone_utc t) (\<lambda>u. Inr (format_utc u)) | _ \<Rightarrow> Inr []))"

definition record_verified_file_reconciliation ::
  "pyval \<Rightarrow> pyval \<Rightarrow> pyval \<Rightarrow> pyval \<Rightarrow> now_arg \<Rightarrow> (journal, unit) eff" where
  "record_verified_file_reconciliation pid manifest outcome commit observed j =
     (case rbind (get_attempt pid j) (\<lambda>r.
        unless (jr_status r \<noteq> ReconciliationRequired) (value_error ''publication is not awaiting reconciliation'')
          (check_evidence r manifest outcome commit observed)) of
        Inl e \<Rightarrow> (Inl e, j)
      | Inr seen \<Rightarrow>
          update_attempt (str_of pid) ReconciliationRequired
            (\<lambda>r. r\<lparr>jr_files_digest := opt_text manifest, jr_files_outcome := opt_text outcome,
                   jr_branch_commit := opt_text commit, jr_files_observed_at := Some seen\<rparr>)
            (value_error ''publication is not awaiting reconciliation'') j)"

section \<open>The machine of one row\<close>

text \<open>The identity of an attempt; no step changes it.\<close>

definition attempt_identity :: "publication_record \<Rightarrow> string \<times> string \<times> string \<times> string \<times> string option" where
  "attempt_identity r = (jr_process_id r, jr_idempotency_key r, jr_request_digest r, jr_repository_id r, jr_base_branch r)"

inductive attempt_step :: "publication_record \<Rightarrow> publication_record \<Rightarrow> bool" where
  start: "jr_status r = Prepared \<Longrightarrow> attempt_step r (r\<lparr>jr_status := Attempting\<rparr>)"
| uncertain: "jr_status r = Attempting \<Longrightarrow> attempt_step r (r\<lparr>jr_status := ReconciliationRequired\<rparr>)"
| complete: "jr_status r \<in> {Attempting, ReconciliationRequired} \<Longrightarrow> 1 \<le> n \<Longrightarrow>
    attempt_step r (r\<lparr>jr_status := Completed, jr_pull_request_id := Some n, jr_pull_request_url := u\<rparr>)"
| evidence: "jr_status r = ReconciliationRequired \<Longrightarrow> jr_files_digest r = Some m \<Longrightarrow>
    o' \<in> {''verified'', ''unverified''} \<Longrightarrow> (if o' = ''verified'' then \<exists>h. c = Some h \<and> is_hex40 h else c = None) \<Longrightarrow>
    attempt_step r (r\<lparr>jr_files_digest := Some m, jr_files_outcome := Some o', jr_branch_commit := c,
      jr_files_observed_at := Some seen\<rparr>)"

inductive_cases attempt_stepE: "attempt_step r r'"

text \<open>What every row satisfies.\<close>

definition attempt_ok :: "publication_record \<Rightarrow> bool" where
  "attempt_ok r \<longleftrightarrow> jr_process_id r \<noteq> [] \<and> \<not> has_surrogate (jr_process_id r) \<and>
     (\<exists>b. jr_base_branch r = Some b \<and> parse_key (jr_idempotency_key r) = Inr b) \<and>
     is_digest (jr_request_digest r) \<and> jr_repository_id r \<noteq> [] \<and>
     (jr_status r = Completed \<longleftrightarrow> jr_pull_request_id r \<noteq> None) \<and>
     (\<forall>n. jr_pull_request_id r = Some n \<longrightarrow> 1 \<le> n) \<and>
     (jr_pull_request_url r \<noteq> None \<longrightarrow> jr_status r = Completed) \<and>
     (jr_files_outcome r \<noteq> None \<longrightarrow> jr_status r \<in> {ReconciliationRequired, Completed}) \<and>
     (jr_files_outcome r = Some ''verified'' \<longleftrightarrow> jr_branch_commit r \<noteq> None) \<and>
     (\<forall>h. jr_branch_commit r = Some h \<longrightarrow> is_hex40 h)"

definition journal_ok :: "journal \<Rightarrow> bool" where
  "journal_ok j \<longleftrightarrow> distinct (map jr_process_id j) \<and> distinct (map jr_idempotency_key j) \<and> list_all attempt_ok j"

lemma journal_ok_empty: "journal_ok []"
  by (simp add: journal_ok_def)

lemma attempt_step_identity: "attempt_step r r' \<Longrightarrow> attempt_identity r' = attempt_identity r"
  by (induction rule: attempt_step.induct) (simp_all add: attempt_identity_def)

lemma attempt_step_ok: "attempt_step r r' \<Longrightarrow> attempt_ok r \<Longrightarrow> attempt_ok r'"
  by (induction rule: attempt_step.induct) (auto simp: attempt_ok_def split: if_splits)

lemma attempt_step_not_completed: "attempt_step r r' \<Longrightarrow> jr_status r \<noteq> Completed"
  by (auto elim: attempt_stepE)

lemma attempt_step_not_prepared: "attempt_step r r' \<Longrightarrow> jr_status r' \<noteq> Prepared"
  by (auto elim!: attempt_stepE)

section \<open>Facts about the table\<close>

lemma attempt_of_Nil [simp]: "attempt_of [] p = None"
  by (simp add: attempt_of_def)

lemma attempt_of_Cons [simp]: "attempt_of (r # j) p = (if jr_process_id r = p then Some r else attempt_of j p)"
  by (simp add: attempt_of_def)

lemma attempt_of_append: "attempt_of (j @ j') p = (case attempt_of j p of None \<Rightarrow> attempt_of j' p | r \<Rightarrow> r)"
  by (induction j) auto

lemma attempt_of_map: "(\<And>r. jr_process_id (f r) = jr_process_id r) \<Longrightarrow> attempt_of (map f j) p = map_option f (attempt_of j p)"
  by (induction j) auto

lemma attempt_of_None: "attempt_of j p = None \<longleftrightarrow> p \<notin> jr_process_id ` set j"
  by (induction j) auto

lemma attempt_of_Some: "attempt_of j p = Some r \<Longrightarrow> r \<in> set j \<and> jr_process_id r = p"
  by (induction j) (auto split: if_splits)

lemma attempt_of_member:
  "distinct (map jr_process_id j) \<Longrightarrow> r \<in> set j \<Longrightarrow> attempt_of j (jr_process_id r) = Some r"
  by (induction j) force+

lemma get_attempt_Inr: "get_attempt pid j = Inr r \<longleftrightarrow>
    nonempty_str pid \<and> \<not> has_surrogate (str_of pid) \<and> attempt_of j (str_of pid) = Some r"
  by (auto simp: get_attempt_def bind_text_def split: option.splits)

lemma get_attempt_KeyError: "get_attempt pid j = Inl e \<Longrightarrow> exn_class e = KeyError \<Longrightarrow>
    nonempty_str pid \<and> \<not> has_surrogate (str_of pid) \<and> attempt_of j (str_of pid) = None"
  by (auto simp: get_attempt_def bind_text_def rbind_Inl unless_Inl split: option.splits)

text \<open>An update that went through hit exactly the row of the process.\<close>

lemma update_attempt_Inr:
  assumes "update_attempt pid expected f e j = (Inr u, j')" "distinct (map jr_process_id j)"
    "\<And>r. jr_process_id (f r) = jr_process_id r"
  obtains r where "attempt_of j pid = Some r" "jr_status r = expected"
    "j' = map (\<lambda>x. if x = r then f x else x) j"
    "\<And>p. attempt_of j' p = (if p = pid then Some (f r) else attempt_of j p)"
proof -
  let ?hit = "\<lambda>r. jr_process_id r = pid \<and> jr_status r = expected"
  from assms(1) have one: "length (filter ?hit j) = 1" and j': "j' = map (\<lambda>r. if ?hit r then f r else r) j"
    by (auto simp: update_attempt_def Let_def split: if_splits)
  then obtain r where r: "filter ?hit j = [r]" by (auto simp: length_Suc_conv)
  then have rj: "r \<in> set j" "?hit r" by (auto simp: filter_eq_Cons_iff)
  then have a: "attempt_of j pid = Some r" using attempt_of_member [OF assms(2), of r] by simp
  have uniq: "?hit x \<longleftrightarrow> x = r" if "x \<in> set j" for x
  proof
    assume "?hit x"
    with that attempt_of_member [OF assms(2), of x] a show "x = r" by simp
  qed (use rj in simp)
  then have j2: "j' = map (\<lambda>x. if x = r then f x else x) j" unfolding j' by (intro map_cong) auto
  have "attempt_of j' p = map_option (\<lambda>x. if ?hit x then f x else x) (attempt_of j p)" for p
    unfolding j' by (rule attempt_of_map) (simp add: assms(3))
  then have "attempt_of j' p = (if p = pid then Some (f r) else attempt_of j p)" for p
    using a rj by (cases "attempt_of j p") (auto dest: attempt_of_Some)
  with a rj j2 show ?thesis by (intro that) auto
qed

lemma update_attempt_Inl: "update_attempt pid expected f e j = (Inl x, j') \<Longrightarrow> j' = j \<and> x = e"
  by (auto simp: update_attempt_def Let_def split: if_splits)

text \<open>The update succeeds on a row in the expected status.\<close>

lemma update_attempt_hits:
  assumes "distinct (map jr_process_id j)" "attempt_of j pid = Some r" "jr_status r = expected"
  shows "\<exists>j'. update_attempt pid expected f e j = (Inr (), j')"
proof -
  let ?hit = "\<lambda>r. jr_process_id r = pid \<and> jr_status r = expected"
  have r: "r \<in> set j" "?hit r" using attempt_of_Some [OF assms(2)] assms(3) by auto
  have "filter ?hit j = [r]"
    using assms(1) r
  proof (induction j)
    case (Cons x j)
    show ?case
    proof (cases "x = r")
      case True
      with Cons.prems have "\<forall>y\<in>set j. jr_process_id y \<noteq> pid" by (metis distinct.simps(2) image_eqI list.set_map list.simps(9))
      with True Cons.prems show ?thesis by (simp add: filter_empty_conv)
    next
      case False
      with Cons show ?thesis by auto
    qed
  qed simp
  then show ?thesis by (simp add: update_attempt_def)
qed

text \<open>A row replaced by its successor keeps the table in order.\<close>

lemma step_journal_ok:
  assumes "journal_ok j" "attempt_of j p = Some r" "attempt_step r (f r)"
  shows "journal_ok (map (\<lambda>x. if x = r then f x else x) j)"
proof -
  have id: "attempt_identity (f r) = attempt_identity r" using assms(3) by (rule attempt_step_identity)
  then have "map jr_process_id (map (\<lambda>x. if x = r then f x else x) j) = map jr_process_id j"
    "map jr_idempotency_key (map (\<lambda>x. if x = r then f x else x) j) = map jr_idempotency_key j"
    by (auto simp: attempt_identity_def)
  moreover have "attempt_ok r" using assms(1) attempt_of_Some [OF assms(2)] by (auto simp: journal_ok_def list_all_iff)
  then have "attempt_ok (f r)" using assms(3) attempt_step_ok by blast
  ultimately show ?thesis using assms(1) unfolding journal_ok_def by (simp only: list_all_iff) auto
qed

section \<open>Every operation follows the machine\<close>

text \<open>
  \<open>follows p j j'\<close>: the operation changed at most the row of \<open>p\<close>, by one step of the machine, or inserted
  it as prepared.
\<close>

definition follows :: "string \<Rightarrow> journal \<Rightarrow> journal \<Rightarrow> bool" where
  "follows p j j' \<longleftrightarrow>
     (\<forall>q. q \<noteq> p \<longrightarrow> attempt_of j' q = attempt_of j q) \<and>
     (attempt_of j' p = attempt_of j p \<or>
      (\<exists>r'. attempt_of j p = None \<and> attempt_of j' p = Some r' \<and> jr_status r' = Prepared) \<or>
      (\<exists>r r'. attempt_of j p = Some r \<and> attempt_of j' p = Some r' \<and> attempt_step r r'))"

lemma follows_refl: "follows p j j"
  by (simp add: follows_def)

lemma update_follows:
  assumes "update_attempt p expected f e j = (res, j')" "journal_ok j"
    "\<And>r. jr_process_id (f r) = jr_process_id r"
    "\<And>r. attempt_of j p = Some r \<Longrightarrow> jr_status r = expected \<Longrightarrow> attempt_step r (f r)"
  shows "follows p j j' \<and> journal_ok j'"
proof (cases res)
  case (Inl x)
  with assms(1,2) show ?thesis by (auto dest: update_attempt_Inl simp: follows_refl)
next
  case (Inr u)
  with assms(1) have up: "update_attempt p expected f e j = (Inr u, j')" by simp
  have d: "distinct (map jr_process_id j)" using assms(2) by (simp add: journal_ok_def)
  obtain r where r: "attempt_of j p = Some r" "jr_status r = expected"
    "j' = map (\<lambda>x. if x = r then f x else x) j"
    "\<And>q. attempt_of j' q = (if q = p then Some (f r) else attempt_of j q)"
    by (rule update_attempt_Inr [OF up d assms(3)]) blast
  from assms(4) [OF r(1,2)] have s: "attempt_step r (f r)" .
  with step_journal_ok [OF assms(2) r(1)] r show ?thesis by (auto simp: follows_def)
qed

lemma set_status_follows:
  assumes "set_status pid expected target j = (res, j')" "journal_ok j"
    "\<And>r. jr_status r = expected \<Longrightarrow> attempt_step r (r\<lparr>jr_status := target\<rparr>)"
  shows "follows (str_of pid) j j' \<and> journal_ok j'"
proof (cases "nonempty_str pid \<and> \<not> has_surrogate (str_of pid)")
  case True
  with assms(1) have "update_attempt (str_of pid) expected (\<lambda>r. r\<lparr>jr_status := target\<rparr>) (not_in expected) j = (res, j')"
    by (simp add: set_status_def bind_text_def)
  then show ?thesis by (rule update_follows) (use assms in auto)
next
  case False
  with assms(1) have "j' = j" by (auto simp: set_status_def bind_text_def split: if_splits)
  with assms(2) show ?thesis by (simp add: follows_refl)
qed

lemma receipt_shape_Inr: "receipt_shape ok rc = Inr u \<Longrightarrow>
    rc_type rc \<noteq> OtherReceipt \<and> (\<exists>n b d. rc_id rc = PInt n \<and> 1 \<le> n \<and> rc_branch rc = PStr b \<and> rc_digest rc = PStr d) \<and>
    (rc_type rc = MockReceipt \<longrightarrow> rc_url rc = PNone)"
  by (cases "rc_type rc") (auto simp: receipt_shape_def is_int_iff nonempty_str_iff)

lemma complete_follows:
  assumes "complete_attempt ok pid rc expected j = (res, j')" "journal_ok j"
    "expected \<in> {Attempting, ReconciliationRequired}"
  shows "follows (str_of pid) j j' \<and> journal_ok j'"
proof (cases "complete_attempt ok pid rc expected j = (res, j) \<and> j' = j")
  case True
  then show ?thesis using assms(2) by (simp add: follows_refl)
next
  case False
  with assms(1) obtain r u where "receipt_shape ok rc = Inr u" and
    up: "update_attempt (str_of pid) expected
            (\<lambda>r. r\<lparr>jr_status := Completed, jr_pull_request_id := Some (int_of (rc_id rc)),
                   jr_pull_request_url := opt_text (rc_url rc)\<rparr>) (not_in expected) j = (res, j')"
    by (auto simp: complete_attempt_def split: sum.splits)
  then have "1 \<le> int_of (rc_id rc)" using receipt_shape_Inr by force
  with up assms(2,3) show ?thesis by (intro update_follows [OF up]) (auto intro: attempt_step.complete)
qed

lemma check_evidence_Inr:
  assumes "check_evidence r manifest outcome commit observed = Inr seen"
  obtains m o' where "manifest = PStr m" "jr_files_digest r = Some m" "outcome = PStr o'"
    "o' \<in> {''verified'', ''unverified''}"
    "if o' = ''verified'' then \<exists>h. opt_text commit = Some h \<and> is_hex40 h else opt_text commit = None"
  using assms by (force simp: check_evidence_def is_str_iff opt_text_def split: if_splits)

lemma evidence_follows:
  assumes "record_verified_file_reconciliation pid manifest outcome commit observed j = (res, j')" "journal_ok j"
  shows "follows (str_of pid) j j' \<and> journal_ok j'"
proof (cases "rbind (get_attempt pid j) (\<lambda>r.
        unless (jr_status r \<noteq> ReconciliationRequired) (value_error ''publication is not awaiting reconciliation'')
          (check_evidence r manifest outcome commit observed))")
  case (Inl e)
  with assms show ?thesis by (auto simp: record_verified_file_reconciliation_def follows_refl)
next
  case (Inr seen)
  then obtain r where r: "attempt_of j (str_of pid) = Some r" "check_evidence r manifest outcome commit observed = Inr seen"
    by (auto simp: get_attempt_Inr)
  from r(2) obtain m o' where e: "manifest = PStr m" "jr_files_digest r = Some m" "outcome = PStr o'"
    "o' \<in> {''verified'', ''unverified''}"
    "if o' = ''verified'' then \<exists>h. opt_text commit = Some h \<and> is_hex40 h else opt_text commit = None"
    by (rule check_evidence_Inr)
  have up: "update_attempt (str_of pid) ReconciliationRequired
            (\<lambda>r. r\<lparr>jr_files_digest := opt_text manifest, jr_files_outcome := opt_text outcome,
                   jr_branch_commit := opt_text commit, jr_files_observed_at := Some seen\<rparr>)
            (value_error ''publication is not awaiting reconciliation'') j = (res, j')"
    using assms(1) Inr by (simp add: record_verified_file_reconciliation_def)
  show ?thesis
  proof (rule update_follows [OF up assms(2)])
    fix x assume x: "attempt_of j (str_of pid) = Some x" "jr_status x = ReconciliationRequired"
    with r(1) have "x = r" by simp
    with x e show "attempt_step x (x\<lparr>jr_files_digest := opt_text manifest, jr_files_outcome := opt_text outcome,
                   jr_branch_commit := opt_text commit, jr_files_observed_at := Some seen\<rparr>)"
      by (simp only: opt_text_def pyval.case) (rule attempt_step.evidence; simp)
  qed simp
qed

end
