(* ===== verification/Publication.thy ===== *)
theory Publication
  imports Publication_Journal Mock_Github
begin

text \<open>
  The two procedures of \<^verbatim>\<open>src/app_contracts/publication.py\<close> around the journal:
  \<^verbatim>\<open>execute_publication\<close> performs the external effect once, \<^verbatim>\<open>recover_publication\<close> settles
  an uncertain outcome by lookup only. Endpoint and journal are the state \<^typ>\<open>'e \<times> journal\<close>; the
  endpoint's two methods are arguments.
\<close>

section \<open>Execute and recover\<close>

text \<open>\<^verbatim>\<open>before_publish\<close>: absent, not callable, or an action on the endpoint's side.\<close>

datatype 'e hook = NoHook | NotCallable | Hook "('e, unit) eff"

fun run_hook :: "'e hook \<Rightarrow> ('e, unit) eff" where
  "run_hook (Hook h) e = h e"
| "run_hook _ e = (Inr (), e)"

definition boundary_fields :: "string list" where
  "boundary_fields = [''operation'', ''repository_id'', ''branch'', ''base_branch'',
     ''staged_change_digest'', ''idempotency_key'', ''policy_effect'', ''approval_valid'']"

definition boundary_texts :: "string list" where
  "boundary_texts = [''operation'', ''repository_id'', ''branch'', ''base_branch'',
     ''staged_change_digest'', ''idempotency_key'', ''policy_effect'']"

definition check_execute :: "bool \<Rightarrow> 'e hook \<Rightarrow> pyval \<Rightarrow> unit res" where
  "check_execute callable hook request =
     unless (\<not> callable \<or> (case hook of NotCallable \<Rightarrow> True | _ \<Rightarrow> False))
       (contract_error ''publication: collaborator is invalid'')
    (unless (\<not> is_dict request \<or> \<not> has_key request ''process_id''
         \<or> list_ex (\<lambda>k. \<not> has_key request k) boundary_fields)
       (contract_error ''publication: request is malformed'')
    (rbind (check_each (\<lambda>k. unless (\<not> nonempty_str (fld request k))
         (contract_error ''publication: request value is invalid'') (Inr ())) boundary_texts) (\<lambda>_.
     unless (\<not> is_bool (fld request ''approval_valid''))
       (contract_error ''publication: request value is invalid'')
    (unless (\<not> nonempty_str (fld request ''process_id''))
       (contract_error ''publication: request value is invalid'') (Inr ())))))"

definition boundary_part :: "pyval \<Rightarrow> pyval" where
  "boundary_part request = PDict (map (\<lambda>k. (k, fld request k)) boundary_fields)"

definition crashed :: exn where
  "crashed = Exn SimulatedCrash ''crash after external effect before local receipt''"

definition execute_publication ::
  "(string \<Rightarrow> bool) \<Rightarrow> (pyval \<Rightarrow> ('e, receipt) eff) option \<Rightarrow> 'e hook \<Rightarrow> pyval \<Rightarrow> bool \<Rightarrow>
   ('e \<times> journal, receipt) eff" where
  "execute_publication netloc_ok publish hook request crash = (\<lambda>(e, j).
     case check_execute (publish \<noteq> None) hook request of
       Inl x \<Rightarrow> (Inl x, e, j)
     | Inr _ \<Rightarrow>
     (case get_attempt (fld request ''process_id'') j of
       Inl x \<Rightarrow> (Inl x, e, j)
     | Inr r \<Rightarrow>
     if jr_status r \<noteq> Prepared then (Inl (value_error ''publication is not prepared''), e, j) else
     (case mark_attempting (PStr (jr_process_id r)) j of
       (Inl x, j1) \<Rightarrow> (Inl x, e, j1)
     | (Inr _, j1) \<Rightarrow>
     (case run_hook hook e of
       (Inl x, e1) \<Rightarrow> (Inl x, e1, j1)
     | (Inr _, e1) \<Rightarrow>
     (case the publish (boundary_part request) e1 of
       (Inl x, e2) \<Rightarrow> (Inl x, e2, j1)
     | (Inr rc, e2) \<Rightarrow>
     if crash then (Inl crashed, e2, j1) else
     (case mark_completed netloc_ok (PStr (jr_process_id r)) rc j1 of
       (Inl x, j2) \<Rightarrow> (Inl x, e2, j2)
     | (Inr _, j2) \<Rightarrow> (Inr rc, e2, j2)))))))"

definition recovery_required :: exn where
  "recovery_required = Exn PublicationRecoveryRequired ''publication recovery required''"

definition give_up :: "pyval \<Rightarrow> (journal, publication_record) eff" where
  "give_up pid j = (case mark_reconciliation_required pid j of
     (Inl x, j') \<Rightarrow> (Inl x, j') | (Inr _, j') \<Rightarrow> (Inl recovery_required, j'))"

definition recover_attempting ::
  "(string \<Rightarrow> bool) \<Rightarrow> (pyval \<Rightarrow> pyval \<Rightarrow> pyval \<Rightarrow> ('e, receipt option) eff) \<Rightarrow> pyval \<Rightarrow> publication_record \<Rightarrow>
   ('e \<times> journal, publication_record) eff" where
  "recover_attempting netloc_ok lookup pid r = (\<lambda>(e, j).
     case jr_base_branch r of
       None \<Rightarrow> (case give_up pid j of (x, j') \<Rightarrow> (x, e, j'))
     | Some b \<Rightarrow>
     if b = [] then (case give_up pid j of (x, j') \<Rightarrow> (x, e, j')) else
     (case lookup (PStr (jr_idempotency_key r)) (PStr (jr_repository_id r)) (PStr b) e of
       (Inl x, e') \<Rightarrow> (Inl x, e', j)
     | (Inr None, e') \<Rightarrow> (case give_up pid j of (x, j') \<Rightarrow> (x, e', j'))
     | (Inr (Some rc), e') \<Rightarrow>
     (case mark_completed netloc_ok pid rc j of
       (Inl x, j') \<Rightarrow> (Inl x, e', j')
     | (Inr _, j') \<Rightarrow> (get_attempt pid j', e', j'))))"

definition recover_publication ::
  "(string \<Rightarrow> bool) \<Rightarrow> (pyval \<Rightarrow> pyval \<Rightarrow> pyval \<Rightarrow> ('e, receipt option) eff) option \<Rightarrow> pyval \<Rightarrow>
   ('e \<times> journal, publication_record) eff" where
  "recover_publication netloc_ok lookup pid = (\<lambda>(e, j).
     case lookup of
       None \<Rightarrow> (Inl (contract_error ''publication: collaborator is invalid''), e, j)
     | Some f \<Rightarrow>
     (case get_attempt pid j of
       Inl x \<Rightarrow> (Inl x, e, j)
     | Inr r \<Rightarrow>
     (case jr_status r of
       Completed \<Rightarrow> (Inr r, e, j)
     | Prepared \<Rightarrow> (Inr r, e, j)
     | Attempting \<Rightarrow> recover_attempting netloc_ok f pid r (e, j)
     | ReconciliationRequired \<Rightarrow> (Inl recovery_required, e, j))))"

section \<open>The mock endpoint as a collaborator\<close>

definition mock_receipt :: "mock_pull_request \<Rightarrow> receipt" where
  "mock_receipt pr =
     \<lparr>rc_type = MockReceipt, rc_id = PInt (pr_id pr), rc_repository_id = PStr (pr_repository_id pr),
      rc_branch = PStr (pr_branch pr), rc_base_branch = PStr (pr_base_branch pr),
      rc_digest = PStr (pr_staged_change_digest pr), rc_idempotency_key = PStr (pr_idempotency_key pr),
      rc_url = PNone\<rparr>"

definition typed_publish :: "(pyval \<Rightarrow> ('e, mock_pull_request) eff) \<Rightarrow> pyval \<Rightarrow> ('e, receipt) eff" where
  "typed_publish publish r = ebind (publish r) (\<lambda>pr. eret (mock_receipt pr))"

definition typed_find ::
  "(pyval \<Rightarrow> pyval \<Rightarrow> pyval \<Rightarrow> 'e \<Rightarrow> mock_pull_request option res) \<Rightarrow>
   pyval \<Rightarrow> pyval \<Rightarrow> pyval \<Rightarrow> ('e, receipt option) eff" where
  "typed_find lookup k repo base e = (rbind (lookup k repo base e) (\<lambda>x. Inr (map_option mock_receipt x)), e)"

section \<open>The journal's calls\<close>

datatype journal_call =
    Prepare pyval pyval pyval pyval pyval
  | MarkAttempting pyval
  | MarkCompleted pyval receipt
  | MarkFromReconciliation pyval receipt
  | MarkReconciliation pyval
  | RecordFiles pyval pyval pyval pyval now_arg

fun call_process :: "journal_call \<Rightarrow> pyval" where
  "call_process (Prepare pid k d r f) = pid"
| "call_process (MarkAttempting pid) = pid"
| "call_process (MarkCompleted pid rc) = pid"
| "call_process (MarkFromReconciliation pid rc) = pid"
| "call_process (MarkReconciliation pid) = pid"
| "call_process (RecordFiles pid m o' c t) = pid"

fun run_call :: "(string \<Rightarrow> bool) \<Rightarrow> journal_call \<Rightarrow> journal \<Rightarrow> journal" where
  "run_call ok (Prepare pid k d r f) j = snd (prepare pid k d r f j)"
| "run_call ok (MarkAttempting pid) j = snd (mark_attempting pid j)"
| "run_call ok (MarkCompleted pid rc) j = snd (mark_completed ok pid rc j)"
| "run_call ok (MarkFromReconciliation pid rc) j = snd (mark_completed_from_reconciliation ok pid rc j)"
| "run_call ok (MarkReconciliation pid) j = snd (mark_reconciliation_required pid j)"
| "run_call ok (RecordFiles pid m o' c t) j = snd (record_verified_file_reconciliation pid m o' c t j)"

section \<open>Preparing\<close>

lemma parse_key_Inr:
  assumes "parse_key k = Inr b"
  shows "\<exists>h q d. key_parts k = [h, q, d] \<and> b = unquote q \<and> quote b = Inr q \<and> is_digest d \<and>
    validate_publication_base_branch (PStr b) = Inr ()"
  using assms by (auto simp: parse_key_def rcatch_Inr not_canonical_def split: list.splits)

lemma check_prepare_Inr:
  "check_prepare pid key digest repo files = Inr base \<longleftrightarrow>
     nonempty_str pid \<and> nonempty_str key \<and> parse_key (str_of key) = Inr base \<and> nonempty_str digest \<and>
     is_digest (str_of digest) \<and> nonempty_str repo \<and>
     (files = PNone \<or> is_str files \<and> is_digest (str_of files))"
  by (auto simp: check_prepare_def)

lemma fresh_attempt_ok:
  assumes "check_prepare pid key digest repo files = Inr base" "\<not> has_surrogate (str_of pid)"
  shows "attempt_ok (fresh_attempt (str_of pid) (str_of key) (str_of digest) (str_of repo) base fs)"
  using assms by (auto simp: attempt_ok_def fresh_attempt_def check_prepare_Inr nonempty_str_iff)

lemma insert_attempt_cases:
  assumes "insert_attempt r j = (res, j')"
  shows "(\<exists>e. res = Inl e \<and> j' = j) \<or> (res = Inr () \<and> j' = j @ [r] \<and> jr_process_id r \<notin> jr_process_id ` set j \<and>
    jr_idempotency_key r \<notin> jr_idempotency_key ` set j)"
proof (cases "rbind (bind_text (jr_idempotency_key r)) (\<lambda>_. bind_text (jr_repository_id r))")
  case (Inl e)
  have "insert_attempt r j = (Inl e, j)" unfolding insert_attempt_def Inl by simp
  with assms show ?thesis by auto
next
  case (Inr u)
  with assms show ?thesis by (auto simp: insert_attempt_def list_ex_iff split: if_splits)
qed

lemma insert_journal_ok:
  assumes "journal_ok j" "attempt_ok r" "jr_process_id r \<notin> jr_process_id ` set j"
    "jr_idempotency_key r \<notin> jr_idempotency_key ` set j"
  shows "journal_ok (j @ [r])"
  using assms by (simp add: journal_ok_def)

lemma prepare_cases:
  assumes "prepare pid key digest repo files j = (res, j')"
  shows "j' = j \<and> (\<forall>r. res = Inr r \<longrightarrow> attempt_of j (str_of pid) = Some r) \<or>
    (\<exists>base r. check_prepare pid key digest repo files = Inr base \<and> \<not> has_surrogate (str_of pid) \<and>
       r = fresh_attempt (str_of pid) (str_of key) (str_of digest) (str_of repo) base (opt_text files) \<and>
       attempt_of j (str_of pid) = None \<and> insert_attempt r j = (Inr (), j') \<and> j' = j @ [r] \<and> res = Inr r)"
proof (cases "check_prepare pid key digest repo files")
  case (Inl e)
  with assms show ?thesis by (auto simp: prepare_def)
next
  case base: (Inr base)
  show ?thesis
  proof (cases "get_attempt pid j")
    case (Inr r)
    with base assms show ?thesis by (auto simp: prepare_def get_attempt_Inr split: if_splits)
  next
    case get: (Inl e)
    let ?r = "fresh_attempt (str_of pid) (str_of key) (str_of digest) (str_of repo) base (opt_text files)"
    show ?thesis
    proof (cases "exn_class e = KeyError")
      case False
      with base get assms show ?thesis by (auto simp: prepare_def)
    next
      case True
      from get_attempt_KeyError [OF get True] have g: "nonempty_str pid" "\<not> has_surrogate (str_of pid)"
        "attempt_of j (str_of pid) = None" by auto
      obtain x j1 where ins: "insert_attempt ?r j = (x, j1)" by (cases "insert_attempt ?r j")
      from insert_attempt_cases [OF ins] show ?thesis
      proof
        assume "\<exists>e. x = Inl e \<and> j1 = j"
        with base get True ins assms show ?thesis by (auto simp: prepare_def ebind_def)
      next
        assume i: "x = Inr () \<and> j1 = j @ [?r] \<and> jr_process_id ?r \<notin> jr_process_id ` set j \<and>
          jr_idempotency_key ?r \<notin> jr_idempotency_key ` set j"
        then have "get_attempt pid j1 = Inr ?r" using g
          by (simp add: get_attempt_Inr attempt_of_append) (simp add: fresh_attempt_def)
        with base get True ins i g assms show ?thesis by (auto simp: prepare_def ebind_def)
      qed
    qed
  qed
qed

lemma prepare_follows:
  assumes "prepare pid key digest repo files j = (res, j')" "journal_ok j"
  shows "follows (str_of pid) j j' \<and> journal_ok j'"
  using prepare_cases [OF assms(1)]
proof
  assume "j' = j \<and> (\<forall>r. res = Inr r \<longrightarrow> attempt_of j (str_of pid) = Some r)"
  then show ?thesis using assms(2) by (simp add: follows_refl)
next
  assume "\<exists>base r. check_prepare pid key digest repo files = Inr base \<and> \<not> has_surrogate (str_of pid) \<and>
       r = fresh_attempt (str_of pid) (str_of key) (str_of digest) (str_of repo) base (opt_text files) \<and>
       attempt_of j (str_of pid) = None \<and> insert_attempt r j = (Inr (), j') \<and> j' = j @ [r] \<and> res = Inr r"
  then obtain base r where c: "check_prepare pid key digest repo files = Inr base" "\<not> has_surrogate (str_of pid)"
    and r: "r = fresh_attempt (str_of pid) (str_of key) (str_of digest) (str_of repo) base (opt_text files)"
    and n: "attempt_of j (str_of pid) = None" and i: "insert_attempt r j = (Inr (), j')" and j': "j' = j @ [r]"
    by blast
  have "attempt_ok r" unfolding r using c by (rule fresh_attempt_ok)
  with insert_attempt_cases [OF i] assms(2) have ok: "journal_ok j'" by (auto intro: insert_journal_ok)
  have p: "jr_process_id r = str_of pid" "jr_status r = Prepared" by (simp_all add: r fresh_attempt_def)
  have "follows (str_of pid) j j'"
    unfolding follows_def j' using n p by (simp add: attempt_of_append split: option.split)
  with ok show ?thesis by blast
qed

lemma run_call_follows:
  assumes "journal_ok j"
  shows "follows (str_of (call_process c)) j (run_call ok c j) \<and> journal_ok (run_call ok c j)"
proof (cases c)
  case (Prepare pid k d r f)
  with assms show ?thesis by (cases "prepare pid k d r f j") (auto dest: prepare_follows)
next
  case (MarkAttempting pid)
  with assms show ?thesis
    by (cases "mark_attempting pid j")
      (use set_status_follows attempt_step.start in \<open>auto simp: mark_attempting_def\<close>)
next
  case (MarkCompleted pid rc)
  with assms show ?thesis
    by (cases "mark_completed ok pid rc j") (use complete_follows in \<open>auto simp: mark_completed_def\<close>)
next
  case (MarkFromReconciliation pid rc)
  with assms show ?thesis
    by (cases "mark_completed_from_reconciliation ok pid rc j")
      (use complete_follows in \<open>auto simp: mark_completed_from_reconciliation_def\<close>)
next
  case (MarkReconciliation pid)
  with assms show ?thesis
    by (cases "mark_reconciliation_required pid j")
      (use set_status_follows attempt_step.uncertain in \<open>auto simp: mark_reconciliation_required_def\<close>)
next
  case (RecordFiles pid m o' c' t)
  with assms show ?thesis
    by (cases "record_verified_file_reconciliation pid m o' c' t j") (auto dest: evidence_follows)
qed

section \<open>What an execution does\<close>

lemma set_status_Inr:
  assumes "journal_ok j" "attempt_of j p = Some r" "jr_status r = expected"
  shows "\<exists>j'. set_status (PStr p) expected target j = (Inr (), j') \<and>
    (\<forall>q. attempt_of j' q = (if q = p then Some (r\<lparr>jr_status := target\<rparr>) else attempt_of j q))"
proof -
  have d: "distinct (map jr_process_id j)" using assms(1) by (simp add: journal_ok_def)
  have "attempt_ok r" using assms(1) attempt_of_Some [OF assms(2)] by (auto simp: journal_ok_def list_all_iff)
  then have p: "p \<noteq> []" "\<not> has_surrogate p" using attempt_of_Some [OF assms(2)] by (auto simp: attempt_ok_def)
  from update_attempt_hits [OF d assms(2,3)] obtain j' where
    up: "update_attempt p expected (\<lambda>r. r\<lparr>jr_status := target\<rparr>) (not_in expected) j = (Inr (), j')" by blast
  then have "set_status (PStr p) expected target j = (Inr (), j')" using p by (simp add: set_status_def bind_text_def)
  moreover have "\<forall>q. attempt_of j' q = (if q = p then Some (r\<lparr>jr_status := target\<rparr>) else attempt_of j q)"
    by (rule update_attempt_Inr [OF up d]) (use assms(2) in auto)
  ultimately show ?thesis by blast
qed

text \<open>
  The steps of an execution that was not refused: the row goes from prepared to attempting, the hook and
  the endpoint run, then a receipt is recorded unless the process crashes first.
\<close>

lemma execute_cases:
  assumes "execute_publication ok (Some publish) hook request crash (e, j) = (res, e', j')" "journal_ok j"
  obtains (refused) x where "res = Inl x" "e' = e" "j' = j"
  | (started) p r j1 where "fld request ''process_id'' = PStr p" "attempt_of j p = Some r" "jr_status r = Prepared"
      "mark_attempting (PStr p) j = (Inr (), j1)" "journal_ok j1"
      "\<And>q. attempt_of j1 q = (if q = p then Some (r\<lparr>jr_status := Attempting\<rparr>) else attempt_of j q)"
      "(\<exists>x. run_hook hook e = (Inl x, e') \<and> res = Inl x \<and> j' = j1) \<or>
       (\<exists>e1. run_hook hook e = (Inr (), e1) \<and>
         ((\<exists>x. publish (boundary_part request) e1 = (Inl x, e') \<and> res = Inl x \<and> j' = j1) \<or>
          (\<exists>rc. publish (boundary_part request) e1 = (Inr rc, e') \<and>
             (if crash then res = Inl crashed \<and> j' = j1
              else \<exists>y. mark_completed ok (PStr p) rc j1 = (y, j') \<and> res = map_sum id (\<lambda>_. rc) y))))"
proof (cases "check_execute True hook request")
  case (Inl x)
  with assms(1) show ?thesis by (intro refused [of x]) (auto simp: execute_publication_def)
next
  case chk: (Inr u)
  show ?thesis
  proof (cases "get_attempt (fld request ''process_id'') j")
    case (Inl x)
    with chk assms(1) show ?thesis by (intro refused [of x]) (auto simp: execute_publication_def)
  next
    case get: (Inr r)
    then obtain p where p: "fld request ''process_id'' = PStr p" "attempt_of j p = Some r"
      by (auto simp: get_attempt_Inr nonempty_str_iff)
    have pr: "jr_process_id r = p" using attempt_of_Some [OF p(2)] by blast
    show ?thesis
    proof (cases "jr_status r = Prepared")
      case False
      with chk get assms(1) show ?thesis
        by (intro refused [of "value_error ''publication is not prepared''"]) (auto simp: execute_publication_def)
    next
      case True
      from set_status_Inr [OF assms(2) p(2) True, of Attempting] obtain j1 where
        m: "mark_attempting (PStr p) j = (Inr (), j1)"
        and a: "\<And>q. attempt_of j1 q = (if q = p then Some (r\<lparr>jr_status := Attempting\<rparr>) else attempt_of j q)"
        by (auto simp: mark_attempting_def)
      have ok1: "journal_ok j1" using run_call_follows [OF assms(2), of "MarkAttempting (PStr p)"] m by simp
      have run: "(res, e', j') = (case run_hook hook e of
         (Inl x, e1) \<Rightarrow> (Inl x, e1, j1)
       | (Inr _, e1) \<Rightarrow>
       (case publish (boundary_part request) e1 of
         (Inl x, e2) \<Rightarrow> (Inl x, e2, j1)
       | (Inr rc, e2) \<Rightarrow>
       if crash then (Inl crashed, e2, j1) else
       (case mark_completed ok (PStr (jr_process_id r)) rc j1 of
         (Inl x, j2) \<Rightarrow> (Inl x, e2, j2)
       | (Inr _, j2) \<Rightarrow> (Inr rc, e2, j2))))"
        using assms(1) chk get True m by (simp add: execute_publication_def pr [symmetric] cong: prod.case_cong sum.case_cong)
      show ?thesis
        by (rule started [OF p(1,2) True m ok1 a], use run [unfolded pr] in \<open>auto split: prod.splits sum.splits if_splits\<close>)
    qed
  qed
qed

text \<open>An execution that crashes after its effect.\<close>

lemma execute_crashes:
  assumes "check_execute True (NoHook :: 'e hook) request = Inr ()" "fld request ''process_id'' = PStr p"
    "get_attempt (PStr p) j = Inr r" "jr_status r = Prepared" "mark_attempting (PStr p) j = (Inr (), j1)"
    "publish (boundary_part request) e = (Inr rc, e')"
  shows "execute_publication ok (Some publish) NoHook request True (e :: 'e, j) = (Inl crashed, e', j1)"
proof -
  have "jr_process_id r = p" using assms(3) by (auto simp: get_attempt_Inr dest: attempt_of_Some)
  with assms show ?thesis by (simp add: execute_publication_def)
qed

lemma get_attempt_stored:
  assumes "journal_ok j" "attempt_of j p = Some r"
  shows "get_attempt (PStr p) j = Inr r"
  using assms attempt_of_Some [OF assms(2)]
  by (auto simp: get_attempt_Inr journal_ok_def list_all_iff attempt_ok_def)

lemma boundary_part_sel:
  "k \<in> set boundary_fields \<Longrightarrow> fld (boundary_part request) k = fld request k"
  by (auto simp: boundary_part_def boundary_fields_def)

text \<open>\<open>advances p j j'\<close>: the row of \<open>p\<close> made steps of the machine.\<close>

definition advances :: "string \<Rightarrow> journal \<Rightarrow> journal \<Rightarrow> bool" where
  "advances p j j' \<longleftrightarrow>
     (\<forall>r. attempt_of j p = Some r \<longrightarrow> (\<exists>r'. attempt_of j' p = Some r' \<and> attempt_step\<^sup>*\<^sup>* r r'))"

lemma advances_refl [simp]: "advances p j j"
  by (simp add: advances_def)

lemma advances_trans: "advances p j j' \<Longrightarrow> advances p j' j'' \<Longrightarrow> advances p j j''"
  unfolding advances_def by (meson rtranclp_trans)

lemma follows_advances: "follows p j j' \<Longrightarrow> advances q j j'"
  unfolding follows_def advances_def by (metis option.distinct(1) option.inject r_into_rtranclp rtranclp.rtrancl_refl)

lemma steps_not_prepared: "attempt_step\<^sup>*\<^sup>* r r' \<Longrightarrow> jr_status r \<noteq> Prepared \<Longrightarrow> jr_status r' \<noteq> Prepared"
  by (induction rule: rtranclp_induct) (auto dest: attempt_step_not_prepared)

lemma steps_completed: "attempt_step\<^sup>*\<^sup>* r r' \<Longrightarrow> jr_status r = Completed \<Longrightarrow> r' = r"
  by (induction rule: rtranclp_induct) (auto dest: attempt_step_not_completed)

lemma steps_identity: "attempt_step\<^sup>*\<^sup>* r r' \<Longrightarrow> attempt_identity r' = attempt_identity r"
  by (induction rule: rtranclp_induct) (auto dest: attempt_step_identity)

lemma run_calls_advance:
  "journal_ok j \<Longrightarrow> journal_ok (fold (run_call ok) cs j) \<and> advances p j (fold (run_call ok) cs j)"
proof (induction cs arbitrary: j)
  case (Cons c cs)
  have c: "journal_ok (run_call ok c j)" "advances p j (run_call ok c j)"
    using run_call_follows [OF Cons.prems] follows_advances by blast+
  with Cons.IH [OF c(1)] show ?case by (auto intro: advances_trans)
qed simp

lemma complete_advances:
  assumes "mark_completed ok pid rc j = (y, j')" "journal_ok j"
  shows "journal_ok j' \<and> advances q j j'"
  using run_call_follows [OF assms(2), of "MarkCompleted pid rc" ok] assms(1) follows_advances by auto

lemma execute_advances:
  assumes "execute_publication ok (Some publish) hook request crash (e, j) = (res, e', j')" "journal_ok j"
  shows "journal_ok j' \<and> advances q j j'"
  using assms
proof (cases rule: execute_cases)
  case (refused x)
  then show ?thesis using assms(2) by simp
next
  case (started p r j1)
  have a1: "advances q j j1" using run_call_follows [OF assms(2), of "MarkAttempting (PStr p)" ok] started(4)
    by (auto intro: follows_advances)
  from started(7) consider "j' = j1" | rc y where "mark_completed ok (PStr p) rc j1 = (y, j')"
    by (auto split: if_splits)
  then show ?thesis
  proof cases
    case 1
    with a1 started(5) show ?thesis by simp
  next
    case 2
    with complete_advances [OF 2 started(5)] a1 show ?thesis by (auto intro: advances_trans)
  qed
qed

lemma give_up_advances:
  assumes "give_up pid j = (res, j')" "journal_ok j"
  shows "journal_ok j' \<and> advances q j j'"
proof -
  have "j' = snd (mark_reconciliation_required pid j)"
    using assms(1) by (auto simp: give_up_def split: prod.splits sum.splits)
  with run_call_follows [OF assms(2), of "MarkReconciliation pid"] follows_advances show ?thesis by auto
qed

lemma recover_advances:
  assumes "recover_publication ok lookup pid (e, j) = (res, e', j')" "journal_ok j"
  shows "journal_ok j' \<and> advances q j j'"
proof -
  from assms(1) consider "j' = j" | y where "give_up pid j = (y, j')" | y rc where "mark_completed ok pid rc j = (y, j')"
    by (auto simp: recover_publication_def recover_attempting_def
        split: option.splits sum.splits attempt_status.splits prod.splits if_splits)
  then show ?thesis
    by cases (use assms(2) give_up_advances complete_advances in \<open>auto\<close>)
qed

section \<open>Runs of a system\<close>

text \<open>The endpoint with a log of the calls that reached its publish method.\<close>

definition logged :: "(pyval \<Rightarrow> ('e, 'r) eff) \<Rightarrow> pyval \<Rightarrow> ('e \<times> pyval list, 'r) eff" where
  "logged publish r = (\<lambda>(e, l). case publish r e of (x, e') \<Rightarrow> (x, (e', l @ [r])))"

fun unlogged_hook :: "'e hook \<Rightarrow> ('e \<times> pyval list) hook" where
  "unlogged_hook (Hook h) = Hook (\<lambda>(e, l). case h e of (x, e') \<Rightarrow> (x, (e', l)))"
| "unlogged_hook NoHook = NoHook"
| "unlogged_hook NotCallable = NotCallable"

definition unlogged :: "(pyval \<Rightarrow> pyval \<Rightarrow> pyval \<Rightarrow> ('e, 'r) eff) \<Rightarrow> pyval \<Rightarrow> pyval \<Rightarrow> pyval \<Rightarrow> ('e \<times> pyval list, 'r) eff" where
  "unlogged lookup k repo base = (\<lambda>(e, l). case lookup k repo base e of (x, e') \<Rightarrow> (x, (e', l)))"

datatype command = Journal journal_call | Execute pyval bool | Recover pyval

fun command_process :: "command \<Rightarrow> pyval" where
  "command_process (Journal c) = call_process c"
| "command_process (Execute request crash) = fld request ''process_id''"
| "command_process (Recover pid) = pid"

text \<open>A collaborator: its publish and lookup methods, the hook and the answer about network locations.\<close>

type_synonym 'e system = "(string \<Rightarrow> bool) \<times> (pyval \<Rightarrow> ('e, receipt) eff) \<times>
  (pyval \<Rightarrow> pyval \<Rightarrow> pyval \<Rightarrow> ('e, receipt option) eff) \<times> 'e hook"

fun run_command :: "'e system \<Rightarrow> command \<Rightarrow> ('e \<times> pyval list) \<times> journal \<Rightarrow> ('e \<times> pyval list) \<times> journal" where
  "run_command (ok, publish, lookup, hook) (Journal c) (w, j) = (w, run_call ok c j)"
| "run_command (ok, publish, lookup, hook) (Execute request crash) (w, j) =
     snd (execute_publication ok (Some (logged publish)) (unlogged_hook hook) request crash (w, j))"
| "run_command (ok, publish, lookup, hook) (Recover pid) (w, j) =
     snd (recover_publication ok (Some (unlogged lookup)) pid (w, j))"

text \<open>How often a sequence of commands made the endpoint publish for the process \<open>p\<close>.\<close>

fun calls_for :: "'e system \<Rightarrow> string \<Rightarrow> command list \<Rightarrow> ('e \<times> pyval list) \<times> journal \<Rightarrow> nat" where
  "calls_for sys p [] w = 0"
| "calls_for sys p (c # cs) w =
     (let w' = run_command sys c w
      in (if command_process c = PStr p then length (snd (fst w')) - length (snd (fst w)) else 0)
         + calls_for sys p cs w')"

lemma unlogged_hook_log: "run_hook (unlogged_hook hook) (e, l) = (x, w) \<Longrightarrow> snd w = l"
  by (cases hook) (auto split: prod.splits)

lemma unlogged_log: "unlogged lookup k repo base (e, l) = (x, w) \<Longrightarrow> snd w = l"
  by (auto simp: unlogged_def split: prod.splits)

lemma recover_log:
  assumes "recover_publication ok (Some lookup) pid (w, j) = (res, w', j')"
    "\<And>k repo base v x v'. lookup k repo base v = (x, v') \<Longrightarrow> snd v' = (snd v :: pyval list)"
  shows "snd w' = snd w"
  using assms(1)
  by (auto simp: recover_publication_def recover_attempting_def
      split: option.splits sum.splits attempt_status.splits prod.splits if_splits dest: assms(2))

text \<open>An execution that reached the endpoint found its process prepared and leaves it otherwise.\<close>

lemma execute_log:
  assumes "execute_publication ok (Some (logged publish)) hook request crash (w, j) = (res, w', j')"
    "journal_ok j" and quiet: "\<And>v x v'. run_hook hook v = (x, v') \<Longrightarrow> snd v' = snd v"
  shows "snd w' = snd w \<or> (length (snd w') = Suc (length (snd w)) \<and>
    (\<exists>p r r'. fld request ''process_id'' = PStr p \<and> attempt_of j p = Some r \<and> jr_status r = Prepared \<and>
      attempt_of j' p = Some r' \<and> jr_status r' \<noteq> Prepared))"
  using assms(1,2)
proof (cases rule: execute_cases)
  case (refused x)
  then show ?thesis by simp
next
  case (started p r j1)
  have "advances p j1 j'"
  proof -
    from started(7) consider "j' = j1" | rc y where "mark_completed ok (PStr p) rc j1 = (y, j')"
      by (auto split: if_splits)
    then show ?thesis by cases (use complete_advances [OF _ started(5)] in auto)
  qed
  moreover have "attempt_of j1 p = Some (r\<lparr>jr_status := Attempting\<rparr>)" using started(6) by simp
  ultimately obtain r' where "attempt_of j' p = Some r'" "attempt_step\<^sup>*\<^sup>* (r\<lparr>jr_status := Attempting\<rparr>) r'"
    by (auto simp: advances_def)
  with started(1-3) have row: "\<exists>p r r'. fld request ''process_id'' = PStr p \<and> attempt_of j p = Some r \<and>
      jr_status r = Prepared \<and> attempt_of j' p = Some r' \<and> jr_status r' \<noteq> Prepared"
    using steps_not_prepared by fastforce
  have log: "length (snd v') = Suc (length (snd w))"
    if "run_hook hook w = (y, v)" "logged publish (boundary_part request) v = (x, v')" for y v x v'
    using quiet [OF that(1)] that(2) by (cases v) (auto simp: logged_def split: prod.splits)
  from started(7) have "snd w' = snd w \<or> length (snd w') = Suc (length (snd w))"
    using quiet log by blast
  with row show ?thesis by blast
qed

lemma run_command_advances:
  assumes "journal_ok j" "run_command sys c (w, j) = (w', j')"
  shows "journal_ok j' \<and> advances p j j'"
proof -
  obtain ok publish lookup hook where sys: "sys = (ok, publish, lookup, hook)" by (cases sys)
  show ?thesis
  proof (cases c)
    case (Journal call)
    have "journal_ok (run_call ok call j)" "advances p j (run_call ok call j)"
      using run_call_follows [OF assms(1)] follows_advances by blast+
    with Journal assms(2) sys show ?thesis by auto
  next
    case (Execute request crash)
    then obtain res where "execute_publication ok (Some (logged publish)) (unlogged_hook hook) request crash (w, j) = (res, w', j')"
      using assms(2) sys by (cases "execute_publication ok (Some (logged publish)) (unlogged_hook hook) request crash (w, j)") auto
    then show ?thesis using assms(1) by (rule execute_advances)
  next
    case (Recover pid)
    then obtain res where "recover_publication ok (Some (unlogged lookup)) pid (w, j) = (res, w', j')"
      using assms(2) sys by (cases "recover_publication ok (Some (unlogged lookup)) pid (w, j)") auto
    then show ?thesis using assms(1) by (rule recover_advances)
  qed
qed

text \<open>A command grows the log only by executing a prepared process.\<close>

lemma run_command_log:
  assumes "journal_ok j" "run_command sys c ((e, l), j) = (w', j')"
  shows "snd w' = l \<or> (length (snd w') = Suc (length l) \<and>
    (\<forall>p. command_process c = PStr p \<longrightarrow> (\<exists>r r'. attempt_of j p = Some r \<and> jr_status r = Prepared \<and>
      attempt_of j' p = Some r' \<and> jr_status r' \<noteq> Prepared)))"
proof -
  obtain ok publish lookup hook where sys: "sys = (ok, publish, lookup, hook)" by (cases sys)
  show ?thesis
  proof (cases c)
    case (Journal call)
    with assms sys show ?thesis by auto
  next
    case (Execute request crash)
    then obtain res where "execute_publication ok (Some (logged publish)) (unlogged_hook hook) request crash ((e, l), j) = (res, w', j')"
      using assms(2) sys by (cases "execute_publication ok (Some (logged publish)) (unlogged_hook hook) request crash ((e, l), j)") auto
    from execute_log [OF this assms(1)] unlogged_hook_log [of hook] Execute show ?thesis by fastforce
  next
    case (Recover pid)
    then obtain res where "recover_publication ok (Some (unlogged lookup)) pid ((e, l), j) = (res, w', j')"
      using assms(2) sys by (cases "recover_publication ok (Some (unlogged lookup)) pid ((e, l), j)") auto
    from recover_log [OF this] unlogged_log [of lookup] have "snd w' = l" by fastforce
    then show ?thesis by blast
  qed
qed

text \<open>Whether the process may still cause a call.\<close>

definition open_for :: "journal \<Rightarrow> string \<Rightarrow> nat" where
  "open_for j p = (case attempt_of j p of None \<Rightarrow> 1 | Some r \<Rightarrow> if jr_status r = Prepared then 1 else 0)"

lemma open_for_advances: "advances p j j' \<Longrightarrow> open_for j' p \<le> open_for j p"
  by (auto simp: open_for_def advances_def dest: steps_not_prepared split: option.splits)

lemma calls_bounded: "journal_ok j \<Longrightarrow> calls_for sys p cs (w, j) \<le> open_for j p"
proof (induction cs arbitrary: w j)
  case Nil
  then show ?case by simp
next
  case (Cons c cs)
  obtain e l where w: "w = (e, l)" by (cases w)
  obtain w' j' where run: "run_command sys c ((e, l), j) = (w', j')" by (cases "run_command sys c ((e, l), j)")
  have adv: "journal_ok j'" "advances p j j'" using run_command_advances [OF Cons.prems run] by blast+
  have ih: "calls_for sys p cs (w', j') \<le> open_for j' p" using Cons.IH [OF adv(1)] by (cases w') simp
  show ?case
  proof (cases "command_process c = PStr p \<and> length (snd w') \<noteq> length l")
    case True
    with run_command_log [OF Cons.prems run] have "open_for j p = 1" "open_for j' p = 0" "length (snd w') = Suc (length l)"
      by (auto simp: open_for_def)
    with run True ih show ?thesis by (simp add: w Let_def)
  next
    case False
    with run ih open_for_advances [OF adv(2)] show ?thesis by (auto simp: w Let_def)
  qed
qed

section \<open>Canonical keys\<close>

lemma utf8_replace_append_ascii: "\<forall>d\<in>set s. byte d < 128 \<Longrightarrow> utf8_replace (s @ t) = s @ utf8_replace t"
proof (induction s)
  case Nil
  then show ?case by simp
next
  case (Cons c s)
  then have "sequence_length (byte c) = 1" "utf8_replace (s @ t) = s @ utf8_replace t" by (simp_all add: sequence_length_def)
  moreover have "sequence_tail (byte c) 0 u = []" for u by (simp add: sequence_tail_def split: list.split)
  ultimately show ?case by (subst append_Cons, subst utf8_replace.simps) (simp add: Let_def del: utf8_replace.simps)
qed

lemma is_utf8_branch: "is_utf8 (branch_prefix @ t) \<Longrightarrow> is_utf8 t"
proof -
  assume "is_utf8 (branch_prefix @ t)"
  moreover have "utf8_replace (branch_prefix @ t) = branch_prefix @ utf8_replace t"
    by (rule utf8_replace_append_ascii) (simp add: branch_prefix_def)
  ultimately show ?thesis by (simp add: is_utf8_def)
qed

lemma digest_no_slash: "is_digest d \<Longrightarrow> CHR ''/'' \<notin> set d"
proof -
  assume d: "is_digest d"
  then obtain h where h: "d = ''sha256:'' @ h" by (auto simp: is_digest_def startswith_iff)
  with d have "list_all is_lower_hex h" by (simp add: is_digest_def)
  then have "CHR ''/'' \<notin> set h" by (auto simp: list_all_iff is_lower_hex_def less_eq_char_def)
  with h show ?thesis by simp
qed

text \<open>The key of valid branches is canonical, and its base branch can be read back.\<close>

lemma parse_key_text:
  assumes "t \<noteq> []" "is_utf8 t" "\<not> has_surrogate t" "validate_publication_base_branch (PStr q) = Inr ()"
    "is_utf8 q" "is_digest d"
  shows "parse_key (key_text (branch_prefix @ t) q d) = Inr q"
proof -
  have q: "q \<noteq> []" "\<not> has_surrogate q" using validate_base_Inr [OF assms(4)] by auto
  have "key_parts (key_text (branch_prefix @ t) q d) = [quote_text t, quote_text q, d]"
    by (simp add: key_parts_def key_text_def split_on_append split_on_no_sep quote_text_no_slash
        digest_no_slash [OF assms(6)])
  moreover have "quote_text t \<noteq> []" "quote_text q \<noteq> []" using assms(1) q(1) quote_byte_nonempty
    by (cases t, auto, cases q, auto)
  moreover have "d \<noteq> []" using assms(6) by (rule is_digest_nonempty)
  ultimately show ?thesis
    using assms q by (simp add: parse_key_def unquote_quote_text quote_def)
qed

section \<open>Recovery on the mock endpoint\<close>

lemma mock_receipt_accepted:
  assumes "endpoint_ok e" "pr \<in> endpoint_receipts e" "check_publish_request r = Inr u" "publishes pr r"
  shows "receipt_shape ok (mock_receipt pr) = Inr ()" "1 \<le> pr_id pr" "pr_id pr \<le> int (length e)"
proof -
  from assms(2) obtain k where k: "(k, pr) \<in> set e" by (auto simp: endpoint_receipts_def)
  then obtain i where i: "i < length e" "e ! i = (k, pr)" by (auto simp: in_set_conv_nth)
  have "map (\<lambda>x. pr_id (snd x)) e ! i = map (\<lambda>n. int n + 1) [0..<length e] ! i"
    using assms(1) by (simp add: endpoint_ok_def)
  then have id: "pr_id pr = int i + 1" using i by simp
  then show "1 \<le> pr_id pr" "pr_id pr \<le> int (length e)" using i(1) by auto
  have "pr_branch pr \<noteq> []" "pr_staged_change_digest pr \<noteq> []"
    using assms(3,4) by (auto simp: publishes_def is_digest_def elim!: check_publish_request_Inr)
  with id show "receipt_shape ok (mock_receipt pr) = Inr ()"
    by (simp add: receipt_shape_def mock_receipt_def)
qed

lemma mock_receipt_matches:
  assumes "endpoint_ok e" "pr \<in> endpoint_receipts e" "jr_idempotency_key r = pr_idempotency_key pr"
    "jr_repository_id r = pr_repository_id pr" "jr_base_branch r = Some (pr_base_branch pr)"
  shows "receipt_matches r (mock_receipt pr) = Inr ()"
  using endpoint_lookup [OF assms(1,2)] assms(3-5)
  by (auto simp: receipt_matches_def mock_receipt_def entry_ok_def)

lemma complete_on:
  assumes "journal_ok j" "attempt_of j p = Some r" "jr_status r = expected"
    "receipt_shape ok rc = Inr ()" "receipt_matches r rc = Inr ()" "bind_int (int_of (rc_id rc)) = Inr ()"
    "bind_text (str_of (rc_url rc)) = Inr ()"
  shows "\<exists>j'. complete_attempt ok (PStr p) rc expected j = (Inr (), j') \<and>
    attempt_of j' p = Some (r\<lparr>jr_status := Completed, jr_pull_request_id := Some (int_of (rc_id rc)),
                   jr_pull_request_url := opt_text (rc_url rc)\<rparr>)"
proof -
  let ?f = "\<lambda>r. r\<lparr>jr_status := Completed, jr_pull_request_id := Some (int_of (rc_id rc)),
                   jr_pull_request_url := opt_text (rc_url rc)\<rparr>"
  have d: "distinct (map jr_process_id j)" using assms(1) by (simp add: journal_ok_def)
  have "attempt_ok r" using assms(1) attempt_of_Some [OF assms(2)] by (auto simp: journal_ok_def list_all_iff)
  then have "get_attempt (PStr p) j = Inr r" using attempt_of_Some [OF assms(2)] assms(2)
    by (auto simp: get_attempt_Inr attempt_ok_def)
  moreover from update_attempt_hits [OF d assms(2,3)] obtain j' where
    up: "update_attempt p expected ?f (not_in expected) j = (Inr (), j')" by blast
  ultimately have "complete_attempt ok (PStr p) rc expected j = (Inr (), j')"
    using assms(3-7) by (simp add: complete_attempt_def)
  moreover have "attempt_of j' p = Some (?f r)"
    by (rule update_attempt_Inr [OF up d]) (use assms(2) in auto)
  ultimately show ?thesis by blast
qed

end
