(* ===== verification/Publication_Gates.thy ===== *)
theory Publication_Gates
  imports Authority Gateway Publication
begin

text \<open>
  The gates of \<^verbatim>\<open>src/app_contracts/controlled_publication.py\<close>: approval, policy, gateway and broker,
  each of which hands over to its continuation only when its checks pass. The world \<open>'w\<close> is whatever the
  injected collaborators (gateway, broker, observer) act on, together with the journal. An
  observer is its two halves around a step: the event journaled before it and the one after it.
\<close>

abbreviation cp_error :: "string \<Rightarrow> exn" where
  "cp_error m \<equiv> Exn ControlledPublicationError (''controlled publication: '' @ m)"

section \<open>The observer\<close>

record 'w observer =
  ob_before :: "string \<Rightarrow> pyval \<Rightarrow> ('w, unit) eff"
  ob_after :: "string \<Rightarrow> bool \<Rightarrow> ('w, unit) eff"

text \<open>
  \<^verbatim>\<open>observer.run_controlled_step(step, dispatch, process_id=...)\<close>: refused before the step, or the
  step runs and its result or exception is passed on unless journaling the outcome fails.
\<close>

fun observed :: "'w observer option \<Rightarrow> string \<Rightarrow> pyval \<Rightarrow> ('w, 'a) eff \<Rightarrow> ('w, 'a) eff" where
  "observed None step pid m = m"
| "observed (Some ob) step pid m =
     ebind (ob_before ob step pid) (\<lambda>_ w.
       case m w of (r, w1) \<Rightarrow>
         (case ob_after ob step (is_ok r) w1 of
            (Inl e, w2) \<Rightarrow> (Inl e, w2)
          | (Inr _, w2) \<Rightarrow> (r, w2)))"

section \<open>Clocks and expiries\<close>

definition cp_clock :: "now_arg \<Rightarrow> pydatetime res" where
  "cp_clock now = unless (\<not> aware_clock now) (cp_error ''clock is invalid'') (astimezone_utc (clock_of now))"

text \<open>\<^verbatim>\<open>_require_approval_expiry\<close> and \<^verbatim>\<open>_require_grant_expiry\<close> on the value of \<^verbatim>\<open>expires_at\<close>.\<close>

definition cp_expiry :: "string \<Rightarrow> pyval \<Rightarrow> pydatetime res" where
  "cp_expiry label raw =
     (let bad = cp_error (label @ '' expiry is invalid'')
      in unless (\<not> is_str raw) bad
        (rbind (rcatch (parse_iso (str_of raw)) (\<lambda>_. Inl bad)) (\<lambda>t. unless (\<not> is_aware t) bad (Inr t))))"

text \<open>An expiry that has not passed.\<close>

definition not_expired :: "string \<Rightarrow> pyval \<Rightarrow> pydatetime \<Rightarrow> string \<Rightarrow> unit res" where
  "not_expired label raw moment message =
     rbind (cp_expiry label raw) (\<lambda>t. unless (instant t \<le> instant moment) (cp_error message) (Inr ()))"

section \<open>Intent and seed as dictionaries\<close>

definition intent_dict :: "publication_intent \<Rightarrow> pyval" where
  "intent_dict i = PDict [(''process_id'', pi_process_id i), (''repository_id'', pi_repository_id i),
     (''base_commit'', pi_base_commit i), (''base_branch'', pi_base_branch i), (''branch'', pi_branch i),
     (''staged_change_digest'', pi_staged_change_digest i), (''idempotency_key'', pi_idempotency_key i),
     (''source_repository_id'', pi_source_repository_id i)]"

definition seed_dict :: "publication_seed \<Rightarrow> pyval" where
  "seed_dict s = PDict [(''process_id'', sd_process_id s), (''repository_id'', sd_repository_id s),
     (''base_commit'', sd_base_commit s), (''staged_change_digest'', sd_staged_change_digest s),
     (''verified_contents_digest'', sd_verified_contents_digest s), (''verifier_id'', sd_verifier_id s),
     (''verdict'', sd_verdict s), (''replay_result_digest'', sd_replay_result_digest s),
     (''snapshot_tree_digest'', sd_snapshot_tree_digest s), (''snapshot_origin'', sd_snapshot_origin s),
     (''snapshot_claim_digest'', sd_snapshot_claim_digest s), (''source_repository_id'', sd_source_repository_id s),
     (''verifier_attestation_digest'', sd_attestation_digest s),
     (''verifier_attestation_key_id'', sd_attestation_key_id s),
     (''verifier_attestation_profile_digest'', sd_attestation_profile_digest s),
     (''verifier_trust_enrollment_digest'', sd_trust_enrollment_digest s),
     (''verifier_host_trust_decision_digest'', sd_host_trust_decision_digest s)]"

text \<open>\<^verbatim>\<open>intent.branch.split("/", 1)[0]\<close>.\<close>

definition branch_namespace :: "publication_intent \<Rightarrow> string" where
  "branch_namespace i = hd (split_on (CHR ''/'') (str_of (pi_branch i)))"

definition bound_fields :: "string list" where
  "bound_fields = [''process_id'', ''repository_id'', ''base_commit'', ''staged_change_digest'', ''idempotency_key'']"

text \<open>The engine intent names the same publication; \<open>with_namespace\<close> as in all places but the journal's.\<close>

definition engine_matches :: "bool \<Rightarrow> publication_intent \<Rightarrow> pyval \<Rightarrow> bool" where
  "engine_matches with_namespace i engine \<longleftrightarrow>
     list_all (\<lambda>k. py_eq (fld engine k) (fld (intent_dict i) k)) bound_fields \<and>
     py_eq (fld engine ''source_repository_id'') (pi_source_repository_id i) \<and>
     py_eq (fld engine ''operation'') (PStr ''publish_pull_request'') \<and>
     (with_namespace \<longrightarrow> py_eq (fld engine ''branch_namespace'') (PStr (branch_namespace i)))"

definition require_engine_intent_binding :: "publication_intent \<Rightarrow> pyval \<Rightarrow> unit res" where
  "require_engine_intent_binding i engine =
     unless (\<not> is_dict engine) (cp_error ''engine intent is missing'')
    (unless (\<not> engine_matches True i engine) (cp_error ''engine intent binding mismatch'')
    (unless (\<not> is_str (fld engine ''expires_at'')) (cp_error ''engine intent binding is invalid'') (Inr ())))"

section \<open>The approval gate\<close>

definition approval_step :: "publication_intent \<Rightarrow> pyval \<Rightarrow> pyval \<Rightarrow> pydatetime \<Rightarrow> unit res" where
  "approval_step i approval engine moment =
     rbind
      (if engine = PNone then check_intent_approved (intent_dict i) approval
       else rbind (require_engine_intent_binding i engine) (\<lambda>_.
            rbind (rcatch (check_intent_approved engine approval)
              (\<lambda>_. Inl (cp_error ''approval binding is invalid''))) (\<lambda>_.
            not_expired ''approval'' (fld engine ''expires_at'') moment ''engine intent expired''))) (\<lambda>_.
     not_expired ''approval'' (fld approval ''expires_at'') moment ''approval expired'')"

text \<open>An argument of the wrong type is \<open>None\<close>.\<close>

definition run_approval_gate ::
  "publication_intent option \<Rightarrow> pyval \<Rightarrow> pyval \<Rightarrow> now_arg \<Rightarrow> (publication_intent \<Rightarrow> ('w, 'a) eff) \<Rightarrow>
   'w observer option \<Rightarrow> ('w, 'a) eff" where
  "run_approval_gate intent approval engine now proceed observer =
     (case intent of
        None \<Rightarrow> elift (Inl (cp_error ''intent is invalid''))
      | Some i \<Rightarrow>
          eunless (\<not> is_dict approval) (cp_error ''approval is missing'')
          (ebind (elift (cp_clock now)) (\<lambda>moment.
           ebind (observed observer ''Approval.validate'' (pi_process_id i) (elift (approval_step i approval engine moment))) (\<lambda>_.
           proceed i))))"

section \<open>The policy gate\<close>

text \<open>The policy engine: Ed25519 verification, its configuration and whether it is available.\<close>

type_synonym policy_engine = "(string \<Rightarrow> string \<Rightarrow> string \<Rightarrow> bool) \<times> policy_config \<times> bool"

text \<open>The checks before the evaluation; the result is the normalised clock.\<close>

definition policy_checks ::
  "publication_intent \<Rightarrow> pyval \<Rightarrow> pyval \<Rightarrow> pyval \<Rightarrow> pyval \<Rightarrow> pyval \<Rightarrow> now_arg \<Rightarrow> pydatetime res" where
  "policy_checks i approval engine staged decision_id actuator_id now =
     unless (\<not> is_dict engine) (cp_error ''engine intent is missing'')
    (unless (\<not> is_dict staged) (cp_error ''staged change is invalid'')
    (unless (\<not> nonempty_str decision_id) (cp_error ''decision id is invalid'')
    (unless (\<not> nonempty_str actuator_id) (cp_error ''actuator id is invalid'')
    (rbind (cp_clock now) (\<lambda>moment.
     rbind (not_expired ''approval'' (fld approval ''expires_at'') moment ''approval expired'') (\<lambda>_.
     unless (\<not> engine_matches True i engine) (cp_error ''engine intent binding mismatch'')
    (rbind (rcatch (rbind (check_intent_approved engine approval) (\<lambda>_. sha256_digest staged))
       (\<lambda>_. Inl (cp_error ''approval binding is invalid''))) (\<lambda>digest.
     unless (\<not> py_eq (PStr digest) (pi_staged_change_digest i)) (cp_error ''staged change digest mismatch'')
    (unless (\<not> nonempty_str (fld approval ''approval_id'')) (cp_error ''approval binding is invalid'')
    (unless (\<not> nonempty_str (fld approval ''policy_version'')) (cp_error ''approval binding is invalid'')
    (unless (\<not> is_str (fld engine ''expires_at'')) (cp_error ''engine intent binding is invalid'')
    (rbind (not_expired ''approval'' (fld engine ''expires_at'') moment ''engine intent expired'') (\<lambda>_.
     Inr moment)))))))))))))"

definition policy_request :: "publication_intent \<Rightarrow> pyval \<Rightarrow> pyval \<Rightarrow> pyval" where
  "policy_request i engine actuator_id = PDict
     [(''operation'', PStr ''publish_pull_request''), (''repository_id'', pi_repository_id i),
      (''actuator_id'', actuator_id), (''staged_change_digest'', pi_staged_change_digest i),
      (''branch_namespace'', fld engine ''branch_namespace''), (''idempotency_key'', pi_idempotency_key i)]"

definition evaluate_policy ::
  "policy_engine \<Rightarrow> publication_intent \<Rightarrow> pyval \<Rightarrow> pyval \<Rightarrow> pyval \<Rightarrow> pyval \<Rightarrow> pyval \<Rightarrow> pydatetime \<Rightarrow> pyval res" where
  "evaluate_policy policy i approval engine staged decision_id actuator_id moment =
     (case policy of (ed_verify, cfg, available) \<Rightarrow>
     rbind (decide ed_verify cfg available decision_id (policy_request i engine actuator_id) approval staged
        engine (NowAt moment)) (\<lambda>decision.
     unless (\<not> is_dict decision) (cp_error ''policy decision is invalid'')
    (unless (\<not> py_eq (fld decision ''operation'') (PStr ''publish_pull_request''))
       (cp_error ''decision operation mismatch'')
    (unless (\<not> py_eq (fld decision ''repository_id'') (pi_repository_id i)) (cp_error ''decision repository mismatch'')
    (unless (\<not> py_eq (fld decision ''staged_change_digest'') (pi_staged_change_digest i))
       (cp_error ''decision digest mismatch'')
    (unless (\<not> py_eq (fld decision ''policy_version'') (fld approval ''policy_version''))
       (cp_error ''decision policy version mismatch'')
    (rbind (check_decision_usable decision (NowAt moment)) (\<lambda>_. Inr decision))))))))"

definition run_policy_gate ::
  "publication_intent option \<Rightarrow> pyval \<Rightarrow> policy_engine option \<Rightarrow> pyval \<Rightarrow> pyval \<Rightarrow> pyval \<Rightarrow> pyval \<Rightarrow> now_arg \<Rightarrow>
   (publication_intent \<Rightarrow> pyval \<Rightarrow> pyval \<Rightarrow> ('w, 'a) eff) \<Rightarrow> 'w observer option \<Rightarrow> ('w, 'a) eff" where
  "run_policy_gate intent approval policy engine staged decision_id actuator_id now proceed observer =
     (case intent of
        None \<Rightarrow> elift (Inl (cp_error ''intent is invalid''))
      | Some i \<Rightarrow>
          eunless (\<not> is_dict approval) (cp_error ''approval is missing'')
          (case policy of
             None \<Rightarrow> elift (Inl (cp_error ''policy engine is invalid''))
           | Some p \<Rightarrow>
               ebind (elift (policy_checks i approval engine staged decision_id actuator_id now)) (\<lambda>moment.
               ebind (observed observer ''PolicyEngine.evaluate'' (pi_process_id i)
                 (elift (evaluate_policy p i approval engine staged decision_id actuator_id moment))) (\<lambda>decision.
               proceed i approval decision))))"

section \<open>The gateway gate\<close>

text \<open>An injected gateway: \<open>None\<close> as its answer is a value that is no gateway decision.\<close>

type_synonym 'w injected_gateway = "pyval \<Rightarrow> now_arg \<Rightarrow> ('w, gateway_decision option) eff"

definition envelope_part :: "pyval \<Rightarrow> string \<Rightarrow> string \<Rightarrow> pyval" where
  "envelope_part envelope part k = fld (fld envelope part) k"

definition require_bound_envelope :: "publication_intent \<Rightarrow> pyval \<Rightarrow> unit res" where
  "require_bound_envelope i envelope =
     unless (\<not> is_dict envelope
         \<or> \<not> is_dict (fld envelope ''intent'')
         \<or> \<not> py_eq (envelope_part envelope ''intent'' ''operation'') (PStr ''publish_pull_request'')
         \<or> \<not> is_dict (fld envelope ''destination'')
         \<or> \<not> py_eq (envelope_part envelope ''destination'' ''repository_id'') (pi_repository_id i)
         \<or> \<not> py_eq (envelope_part envelope ''destination'' ''base_branch'') (pi_base_branch i)
         \<or> \<not> is_dict (fld envelope ''source'')
         \<or> \<not> py_eq (envelope_part envelope ''source'' ''principal_id'') (pi_process_id i)
         \<or> \<not> is_dict (fld envelope ''payload'')
         \<or> \<not> py_eq (envelope_part envelope ''payload'' ''content_digest'') (pi_staged_change_digest i)
         \<or> \<not> py_eq (fld envelope ''correlation_id'') (pi_idempotency_key i))
       (cp_error ''gateway envelope mismatch'') (Inr ())"

definition gateway_allows :: "gateway_decision \<Rightarrow> bool" where
  "gateway_allows g \<longleftrightarrow> allowed g \<and> path g = SLOW"

definition authorize_gateway :: "'w injected_gateway \<Rightarrow> pyval \<Rightarrow> pydatetime \<Rightarrow> ('w, gateway_decision) eff" where
  "authorize_gateway gateway envelope moment =
     ebind (ecatch (gateway envelope (NowAt moment)) (\<lambda>_. elift (Inl (cp_error ''gateway invocation failed'')))) (\<lambda>d.
     case d of
       None \<Rightarrow> elift (Inl (cp_error ''gateway has not authorized slow path''))
     | Some g \<Rightarrow> eunless (\<not> gateway_allows g) (cp_error ''gateway has not authorized slow path'') (eret g))"

definition run_gateway_gate ::
  "publication_intent option \<Rightarrow> pyval \<Rightarrow> pyval \<Rightarrow> 'w injected_gateway option \<Rightarrow> pyval \<Rightarrow> now_arg \<Rightarrow>
   (publication_intent \<Rightarrow> pyval \<Rightarrow> pyval \<Rightarrow> gateway_decision \<Rightarrow> ('w, 'a) eff) \<Rightarrow> 'w observer option \<Rightarrow> ('w, 'a) eff" where
  "run_gateway_gate intent approval decision gateway envelope now proceed observer =
     (case intent of
        None \<Rightarrow> elift (Inl (cp_error ''intent is invalid''))
      | Some i \<Rightarrow>
          eunless (\<not> is_dict approval) (cp_error ''approval is missing'')
          (eunless (\<not> is_dict decision) (cp_error ''decision is missing'')
          (case gateway of
             None \<Rightarrow> elift (Inl (cp_error ''gateway is invalid''))
           | Some gw \<Rightarrow>
               ebind (elift (rbind (cp_clock now) (\<lambda>moment.
                 rbind (check_decision_usable decision (NowAt moment)) (\<lambda>_.
                 rbind (require_bound_envelope i envelope) (\<lambda>_. Inr moment))))) (\<lambda>moment.
               ebind (observed observer ''Gateway.authorize'' (pi_process_id i)
                 (authorize_gateway gw envelope moment)) (\<lambda>g.
               proceed i approval decision g)))))"

end
