(* ===== verification/Controlled_Publication.thy ===== *)
theory Controlled_Publication
  imports Publication_Gates Broker
begin

text \<open>
  The broker gate and the coordinators of \<^verbatim>\<open>src/app_contracts/controlled_publication.py\<close>. The world
  is the environment \<open>'e\<close> of the injected collaborators and the journal; a provider is a record of what
  the code calls on broker, channel and endpoint. A publication goes through approval, policy,
  gateway, broker and journal before the channel is asked to publish.
\<close>

section \<open>The journal row of a cleared request\<close>

definition fingerprint_fields :: "string list" where
  "fingerprint_fields = [''approval_id'', ''approved_intent_digest'', ''expires_at'', ''policy_version'']"

definition metadata_fields :: "string list" where
  "metadata_fields = [''decision_id'', ''effect'', ''reason_codes'', ''operation'', ''repository_id'',
     ''staged_change_digest'', ''policy_version'', ''evaluated_at'', ''expires_at'']"

text \<open>A dictionary of what \<^verbatim>\<open>get\<close> returns for some keys.\<close>

definition picked :: "pyval \<Rightarrow> string list \<Rightarrow> pyval" where
  "picked v ks = PDict (map (\<lambda>k. (k, fld v k)) ks)"

fun path_text :: "gateway_path \<Rightarrow> string" where
  "path_text FAST = ''fast''"
| "path_text SLOW = ''slow''"
| "path_text DEGRADED = ''degraded''"

definition gateway_value :: "gateway_decision \<Rightarrow> pyval" where
  "gateway_value g = PDict [(''path'', PStr (path_text (path g))), (''allowed'', PBool (allowed g)),
     (''reason_codes'', PTuple (map PStr (reason_codes g)))]"

definition request_content :: "publication_seed \<Rightarrow> publication_intent \<Rightarrow> string \<Rightarrow> pyval \<Rightarrow> gateway_decision \<Rightarrow> pyval" where
  "request_content s i fingerprint decision g = PDict
     [(''schema_version'', PInt 1), (''seed'', seed_dict s), (''intent'', intent_dict i),
      (''approval_fingerprint'', PStr fingerprint), (''policy_decision'', picked decision metadata_fields),
      (''gateway_decision'', gateway_value g)]"

definition seed_matches :: "publication_seed \<Rightarrow> publication_intent \<Rightarrow> bool" where
  "seed_matches s i \<longleftrightarrow> py_eq (sd_process_id s) (pi_process_id i) \<and> py_eq (sd_repository_id s) (pi_repository_id i) \<and>
     py_eq (sd_source_repository_id s) (pi_source_repository_id i) \<and> py_eq (sd_base_commit s) (pi_base_commit i) \<and>
     py_eq (sd_staged_change_digest s) (pi_staged_change_digest i)"

definition require_seed_intent_binding :: "publication_seed \<Rightarrow> publication_intent \<Rightarrow> unit res" where
  "require_seed_intent_binding s i = unless (\<not> seed_matches s i) (cp_error ''seed binding mismatch'') (Inr ())"

text \<open>The last checks before the row; every failure of the approval's own check is one error.\<close>

definition journal_request_digest ::
  "publication_seed \<Rightarrow> publication_intent \<Rightarrow> pyval \<Rightarrow> pyval \<Rightarrow> pyval \<Rightarrow> gateway_decision \<Rightarrow> now_arg \<Rightarrow> string res" where
  "journal_request_digest s i approval engine decision g now =
     unless (\<not> is_dict approval) (cp_error ''approval is missing'')
    (unless (\<not> is_dict engine) (cp_error ''engine intent is missing'')
    (unless (\<not> is_dict decision) (cp_error ''policy decision is invalid'')
    (rbind (cp_clock now) (\<lambda>moment.
     rbind (require_seed_intent_binding s i) (\<lambda>_.
     unless (\<not> engine_matches False i engine) (cp_error ''engine intent binding mismatch'')
    (rbind (rcatch
        (rbind (check_intent_approved engine approval) (\<lambda>_.
         rbind (not_expired ''approval'' (fld approval ''expires_at'') moment ''approval expired'') (\<lambda>_.
         check_decision_usable decision (NowAt moment))))
        (\<lambda>x. Inl (if exn_class x = ControlledPublicationError then x else cp_error ''approval binding is invalid''))) (\<lambda>_.
     unless (\<not> py_eq (fld decision ''operation'') (PStr ''publish_pull_request'')
         \<or> \<not> py_eq (fld decision ''repository_id'') (pi_repository_id i)
         \<or> \<not> py_eq (fld decision ''staged_change_digest'') (pi_staged_change_digest i)
         \<or> \<not> py_eq (fld decision ''policy_version'') (fld approval ''policy_version''))
       (cp_error ''policy decision binding mismatch'')
    (unless (\<not> gateway_allows g) (cp_error ''gateway has not authorized slow path'')
    (rbind (sha256_digest (picked approval fingerprint_fields)) (\<lambda>fingerprint.
     sha256_digest (request_content s i fingerprint decision g)))))))))))"

definition prepare_publication_journal ::
  "publication_seed \<Rightarrow> publication_intent \<Rightarrow> pyval \<Rightarrow> pyval \<Rightarrow> pyval \<Rightarrow> gateway_decision \<Rightarrow> now_arg \<Rightarrow>
   (journal, publication_record) eff" where
  "prepare_publication_journal s i approval engine decision g now =
     ebind (elift (journal_request_digest s i approval engine decision g now)) (\<lambda>digest.
     prepare (pi_process_id i) (pi_idempotency_key i) (PStr digest) (pi_repository_id i) (sd_verified_contents_digest s))"

section \<open>The broker gate\<close>

text \<open>Effects on one half of the world.\<close>

definition on_env :: "('e, 'a) eff \<Rightarrow> ('e \<times> journal, 'a) eff" where
  "on_env m = (\<lambda>(e, j). case m e of (r, e') \<Rightarrow> (r, e', j))"

definition on_journal :: "(journal, 'a) eff \<Rightarrow> ('e \<times> journal, 'a) eff" where
  "on_journal m = (\<lambda>(e, j). case m j of (r, j') \<Rightarrow> (r, e, j'))"

definition env_observer :: "'e observer \<Rightarrow> ('e \<times> journal) observer" where
  "env_observer ob = \<lparr>ob_before = (\<lambda>step pid. on_env (ob_before ob step pid)),
     ob_after = (\<lambda>step done. on_env (ob_after ob step done))\<rparr>"

definition actuator_request_of :: "publication_intent \<Rightarrow> pyval \<Rightarrow> pyval" where
  "actuator_request_of i actuator_id = PDict
     [(''operation'', PStr ''publish_pull_request''), (''repository_id'', pi_repository_id i),
      (''actuator_id'', actuator_id), (''base_branch'', pi_base_branch i),
      (''staged_change_digest'', pi_staged_change_digest i), (''branch_namespace'', PStr (branch_namespace i)),
      (''idempotency_key'', pi_idempotency_key i)]"

text \<open>The checks of the grant; the result is the normalised clock.\<close>

definition check_grant :: "publication_intent \<Rightarrow> pyval \<Rightarrow> pyval \<Rightarrow> now_arg \<Rightarrow> pydatetime res" where
  "check_grant i grant actuator_id now =
     unless (\<not> is_dict grant) (cp_error ''credential grant is invalid'')
    (unless (\<not> nonempty_str actuator_id) (cp_error ''actuator id is invalid'')
    (unless (\<not> nonempty_str (fld grant ''credential_grant_id'')) (cp_error ''credential grant is invalid'')
    (unless (\<not> py_eq (fld grant ''repository_id'') (pi_repository_id i)
         \<or> \<not> py_eq (fld grant ''operation'') (PStr ''publish_pull_request'')
         \<or> \<not> py_eq (fld grant ''actuator_id'') actuator_id
         \<or> \<not> py_eq (fld grant ''credential_class'') (PStr ''github-app-installation''))
       (cp_error ''credential grant binding mismatch'')
    (unless (fld grant ''single_use'' \<noteq> PBool True) (cp_error ''credential grant must be single-use'')
    (rbind (cp_clock now) (\<lambda>moment.
     rbind (not_expired ''credential grant'' (fld grant ''expires_at'') moment ''credential grant expired'') (\<lambda>_.
     rbind (sha256_digest (actuator_request_of i actuator_id)) (\<lambda>digest.
     unless (\<not> py_eq (fld grant ''request_digest'') (PStr digest)) (cp_error ''credential grant binding mismatch'')
       (Inr moment)))))))))"

type_synonym ('e, 'c) channel_opener = "pyval \<Rightarrow> pyval \<Rightarrow> now_arg \<Rightarrow> ('e, 'c) eff"

text \<open>Errors of the observer's journal pass; any other failure of the broker is one error.\<close>

definition open_channel ::
  "('e, 'c) channel_opener \<Rightarrow> 'e observer option \<Rightarrow> publication_intent \<Rightarrow> pyval \<Rightarrow> pyval \<Rightarrow> pydatetime \<Rightarrow> ('e, 'c) eff" where
  "open_channel broker_open observer i grant actuator_id moment =
     ecatch (observed observer ''CredentialBroker.open-channel'' (pi_process_id i)
       (broker_open grant (actuator_request_of i actuator_id) (NowAt moment)))
       (\<lambda>x. elift (Inl (if exn_class x \<in> {ControlledPublicationJournalError, ControlledPublicationOutcomeUnknownError}
          then x else cp_error ''broker invocation failed'')))"

definition open_after_policy ::
  "publication_seed \<Rightarrow> pyval \<Rightarrow> 'e injected_gateway option \<Rightarrow> pyval \<Rightarrow> ('e, 'c) channel_opener \<Rightarrow> pyval \<Rightarrow> pyval \<Rightarrow>
   pydatetime \<Rightarrow> (publication_intent \<Rightarrow> pyval \<Rightarrow> pyval \<Rightarrow> gateway_decision \<Rightarrow> 'c \<Rightarrow> ('e \<times> journal, 'a) eff) \<Rightarrow>
   'e observer option \<Rightarrow> publication_intent \<Rightarrow> pyval \<Rightarrow> pyval \<Rightarrow> ('e \<times> journal, 'a) eff" where
  "open_after_policy seed engine gateway envelope broker_open grant actuator_id moment proceed observer i approval decision =
     (case gateway of
        None \<Rightarrow> elift (Inl (cp_error ''gateway is invalid''))
      | Some gw \<Rightarrow>
          ebind (elift (require_bound_envelope i envelope)) (\<lambda>_.
          ebind (on_env (observed observer ''Gateway.authorize'' (pi_process_id i) (authorize_gateway gw envelope moment))) (\<lambda>g.
          ebind (on_env (open_channel broker_open observer i grant actuator_id moment)) (\<lambda>c.
          ebind (on_journal (prepare_publication_journal seed i approval engine decision g (NowAt moment))) (\<lambda>_.
          proceed i approval decision g c)))))"

definition run_broker_gate ::
  "publication_intent option \<Rightarrow> pyval \<Rightarrow> policy_engine option \<Rightarrow> pyval \<Rightarrow> pyval \<Rightarrow> pyval \<Rightarrow> 'e injected_gateway option \<Rightarrow>
   pyval \<Rightarrow> ('e, 'c) channel_opener option \<Rightarrow> pyval \<Rightarrow> pyval \<Rightarrow> now_arg \<Rightarrow>
   (publication_intent \<Rightarrow> pyval \<Rightarrow> pyval \<Rightarrow> gateway_decision \<Rightarrow> 'c \<Rightarrow> ('e \<times> journal, 'a) eff) \<Rightarrow>
   publication_seed option \<Rightarrow> 'e observer option \<Rightarrow> ('e \<times> journal, 'a) eff" where
  "run_broker_gate intent approval policy engine staged decision_id gateway envelope broker grant actuator_id now
     proceed seed observer =
     (case (intent, seed, broker) of
        (None, _, _) \<Rightarrow> elift (Inl (cp_error ''intent is invalid''))
      | (Some i, None, _) \<Rightarrow> elift (Inl (cp_error ''publication seed is invalid''))
      | (Some i, Some s, None) \<Rightarrow> elift (Inl (cp_error ''broker is invalid''))
      | (Some i, Some s, Some broker_open) \<Rightarrow>
          ebind (elift (check_grant i grant actuator_id now)) (\<lambda>moment.
          run_policy_gate (Some i) approval policy engine staged decision_id actuator_id (NowAt moment)
            (open_after_policy s engine gateway envelope broker_open grant actuator_id moment proceed observer)
            (map_option env_observer observer)))"

section \<open>The provider\<close>

datatype broker_kind = InMemory | GitHubApp | OtherBroker

text \<open>A publishable file passed its constructor: path and content are texts.\<close>

datatype file_item = PublishableFile string string pyval | NotAFile

datatype files_arg = NoFiles | OtherFiles | Files "file_item list"

text \<open>
  What the coordinators use of broker, endpoint argument and channel: their types (\<open>pv_kind\<close>,
  \<open>pv_endpoint_typed\<close>, \<open>pv_channel_typed\<close>), the broker's target binding, and the methods. The
  private file methods are \<open>None\<close> on a channel that lacks them.
\<close>

record ('e, 'c) provider =
  pv_kind :: broker_kind
  pv_endpoint_typed :: bool
  pv_target :: "repository_target_binding option"
  pv_open :: "('e, 'c) channel_opener"
  pv_channel_typed :: "'c \<Rightarrow> bool"
  pv_publish :: "'c \<Rightarrow> pyval \<Rightarrow> ('e, receipt) eff"
  pv_find :: "'c \<Rightarrow> pyval \<Rightarrow> pyval \<Rightarrow> pyval \<Rightarrow> ('e, receipt option) eff"
  pv_publish_files :: "'c \<Rightarrow> (pyval \<times> pyval \<times> file_item list \<Rightarrow> ('e, pyval) eff) option"
  pv_reconcile_files :: "'c \<Rightarrow> (pyval \<times> file_item list \<Rightarrow> ('e, pyval) eff) option"

definition require_broker_target_binding :: "publication_seed \<Rightarrow> repository_target_binding option \<Rightarrow> unit res" where
  "require_broker_target_binding s target =
     unless (case target of
        None \<Rightarrow> True
      | Some b \<Rightarrow> \<not> py_eq (PStr (source_repository b)) (sd_source_repository_id s)
          \<or> \<not> py_eq (PStr (provider_repository b)) (sd_repository_id s))
       (cp_error ''broker repository target mismatch'') (Inr ())"

definition bind_stage_repository_identity :: "publication_seed \<Rightarrow> publication_intent \<Rightarrow> pyval \<Rightarrow> pyval res" where
  "bind_stage_repository_identity s i staged =
     (if sd_source_repository_id s = PNone then Inr staged
      else unless (\<not> py_eq (pi_source_repository_id i) (sd_source_repository_id s)
             \<or> \<not> py_eq (fld staged ''repository_id'') (sd_source_repository_id s))
           (cp_error ''source repository binding mismatch'')
           (Inr (PDict (dict_set ''repository_id'' (sd_repository_id s) (items staged)))))"

section \<open>The verified files\<close>

definition bad_manifest :: exn where
  "bad_manifest = cp_error ''verified file manifest is invalid''"

text \<open>The digest is taken only of a file that passed the other checks.\<close>

definition check_file :: "file_item \<Rightarrow> unit res" where
  "check_file f =
     (case f of
        NotAFile \<Rightarrow> Inl bad_manifest
      | PublishableFile p c d \<Rightarrow>
          unless (p = [] \<or> strip_changes p \<or> startswith p ''/'' \<or> ''..'' \<in> set (split_on (CHR ''/'') p)) bad_manifest
         (rbind (bind_text c) (\<lambda>_. unless (\<not> py_eq d (PStr (sha256_bytes c))) bad_manifest (Inr ()))))"

fun file_path :: "file_item \<Rightarrow> string" where
  "file_path (PublishableFile p c d) = p"
| "file_path NotAFile = []"

fun file_value :: "file_item \<Rightarrow> pyval" where
  "file_value (PublishableFile p c d) = PTuple [PStr p, PStr c]"
| "file_value NotAFile = PNone"

definition validate_verified_files :: "publication_seed \<Rightarrow> files_arg \<Rightarrow> file_item list res" where
  "validate_verified_files s arg =
     (case arg of
        Files fs \<Rightarrow>
          unless (fs = []) bad_manifest
         (rbind (check_each check_file fs) (\<lambda>_.
          unless (map file_path fs \<noteq> sort (remdups (map file_path fs))) (cp_error ''verified file digest mismatch'')
         (rbind (sha256_digest (PTuple (map file_value fs))) (\<lambda>d.
          unless (\<not> py_eq (PStr d) (sd_verified_contents_digest s)) (cp_error ''verified file digest mismatch'') (Inr fs)))))
      | _ \<Rightarrow> Inl bad_manifest)"

section \<open>Publishing after the broker\<close>

definition publication_request :: "publication_intent \<Rightarrow> pyval \<Rightarrow> pyval" where
  "publication_request i decision = PDict
     [(''process_id'', pi_process_id i), (''operation'', PStr ''publish_pull_request''),
      (''repository_id'', pi_repository_id i), (''branch'', pi_branch i), (''base_branch'', pi_base_branch i),
      (''staged_change_digest'', pi_staged_change_digest i), (''idempotency_key'', pi_idempotency_key i),
      (''policy_effect'', fld decision ''effect''), (''approval_valid'', PBool True)]"

text \<open>A failed upload is checked once by reading; without a commit the publication stops.\<close>

definition publish_files_hook :: "('e, 'c) provider \<Rightarrow> 'c \<Rightarrow> publication_intent \<Rightarrow> pyval \<Rightarrow> file_item list \<Rightarrow> ('e, unit) eff" where
  "publish_files_hook pv c i staged files =
     ebind (ecatch (publish_verified_manifest (pv_publish_files pv c) (pi_branch i, staged, files))
       (\<lambda>_. ecatch (reconcile_verified_manifest (pv_reconcile_files pv c) (pi_branch i, files)) (\<lambda>_. eret PNone))) (\<lambda>commit.
     eunless (\<not> is_str commit \<or> \<not> is_hex40 (str_of commit)) (cp_error ''verified-file receipt is invalid'') (eret ()))"

definition dispatch_publication ::
  "(string \<Rightarrow> bool) \<Rightarrow> ('e, 'c) provider \<Rightarrow> 'c \<Rightarrow> publication_intent \<Rightarrow> pyval \<Rightarrow> file_item list \<Rightarrow> pyval \<Rightarrow>
   ('e \<times> journal, receipt) eff" where
  "dispatch_publication netloc_ok pv c i staged files decision =
     execute_publication netloc_ok (Some (pv_publish pv c))
       (if pv_kind pv = GitHubApp then Hook (publish_files_hook pv c i staged files) else NoHook)
       (publication_request i decision) False"

text \<open>The last resort: an attempting row is marked, and the caller learns that recovery is needed.\<close>

definition mark_outcome_unknown :: "pyval \<Rightarrow> ('e \<times> journal, 'a) eff" where
  "mark_outcome_unknown pid = (\<lambda>(e, j).
     (Inl recovery_required, e,
      case get_attempt pid j of
        Inr r \<Rightarrow> if jr_status r = Attempting then snd (mark_reconciliation_required pid j) else j
      | Inl _ \<Rightarrow> j))"

text \<open>An uncertain dispatch: reconcile by lookup, never publish again.\<close>

definition settle_dispatch ::
  "(string \<Rightarrow> bool) \<Rightarrow> ('e, 'c) provider \<Rightarrow> 'c \<Rightarrow> publication_intent \<Rightarrow> exn \<Rightarrow> ('e \<times> journal, receipt) eff" where
  "settle_dispatch netloc_ok pv c i x = (\<lambda>(e, j).
     if exn_class x = SimulatedCrash then (Inl x, e, j)
     else case get_attempt (pi_process_id i) j of
       Inl y \<Rightarrow> (Inl y, e, j)
     | Inr cur \<Rightarrow>
         if jr_status cur \<noteq> Attempting then (Inl x, e, j)
         else case recover_publication netloc_ok (Some (pv_find pv c)) (pi_process_id i) (e, j) of
           (Inl _, e1, j1) \<Rightarrow> mark_outcome_unknown (pi_process_id i) (e1, j1)
         | (Inr r, e1, j1) \<Rightarrow>
             if jr_status r \<noteq> Completed then mark_outcome_unknown (pi_process_id i) (e1, j1)
             else case pv_find pv c (pi_idempotency_key i) PNone PNone e1 of
               (Inr (Some rc), e2) \<Rightarrow>
                 if rc_type rc \<noteq> OtherReceipt then (Inr rc, e2, j1) else mark_outcome_unknown (pi_process_id i) (e2, j1)
             | (_, e2) \<Rightarrow> mark_outcome_unknown (pi_process_id i) (e2, j1))"

definition publish_after_broker ::
  "(string \<Rightarrow> bool) \<Rightarrow> ('e, 'c) provider \<Rightarrow> file_item list \<Rightarrow> pyval \<Rightarrow> 'e observer option \<Rightarrow>
   publication_intent \<Rightarrow> pyval \<Rightarrow> pyval \<Rightarrow> gateway_decision \<Rightarrow> 'c \<Rightarrow> ('e \<times> journal, receipt) eff" where
  "publish_after_broker netloc_ok pv files staged observer i approval decision g c =
     eunless (\<not> pv_channel_typed pv c) (cp_error ''broker channel is invalid'')
     (ecatch (observed (map_option env_observer observer) ''Publication.dispatch'' (pi_process_id i)
         (dispatch_publication netloc_ok pv c i staged files decision))
       (settle_dispatch netloc_ok pv c i))"

section \<open>The coordinator\<close>

text \<open>The type checks before any gate; the result is the file manifest, empty on the mock path.\<close>

definition check_collaborators ::
  "publication_seed \<Rightarrow> publication_intent \<Rightarrow> ('e, 'c) provider \<Rightarrow> files_arg \<Rightarrow> file_item list res" where
  "check_collaborators s i pv files =
     (case pv_kind pv of
        OtherBroker \<Rightarrow> Inl (cp_error ''supported broker is required'')
      | InMemory \<Rightarrow>
          unless (\<not> pv_endpoint_typed pv) (cp_error ''mock endpoint is required'')
         (unless (files \<noteq> NoFiles) (cp_error ''mock endpoint cannot publish files'')
         (rbind (require_seed_intent_binding s i) (\<lambda>_. Inr [])))
      | GitHubApp \<Rightarrow>
          unless (\<not> pv_endpoint_typed pv) (cp_error ''GitHub channel type is required'')
         (rbind (validate_verified_files s files) (\<lambda>fs.
          rbind (require_seed_intent_binding s i) (\<lambda>_.
          if sd_source_repository_id s = PNone then Inr fs
          else rbind (require_broker_target_binding s (pv_target pv)) (\<lambda>_. Inr fs)))))"

definition load_stage :: "(publication_seed \<Rightarrow> ('e, pyval) eff) \<Rightarrow> publication_seed \<Rightarrow> ('e, pyval) eff" where
  "load_stage load s =
     ebind (ecatch (load s) (\<lambda>x. elift (Inl (if exn_class x = ControlledPublicationError then x
         else cp_error ''staged change load failed'')))) (\<lambda>staged.
     eunless (\<not> is_dict staged) (cp_error ''staged change is invalid'') (eret staged))"

definition run_controlled_local_publication ::
  "(string \<Rightarrow> bool) \<Rightarrow> publication_seed option \<Rightarrow> publication_intent option \<Rightarrow> pyval \<Rightarrow> policy_engine option \<Rightarrow> pyval \<Rightarrow>
   (publication_seed \<Rightarrow> ('e, pyval) eff) option \<Rightarrow> pyval \<Rightarrow> 'e injected_gateway option \<Rightarrow> pyval \<Rightarrow> ('e, 'c) provider \<Rightarrow>
   pyval \<Rightarrow> files_arg \<Rightarrow> pyval \<Rightarrow> now_arg \<Rightarrow> 'e observer option \<Rightarrow> ('e \<times> journal, receipt) eff" where
  "run_controlled_local_publication netloc_ok seed intent approval policy engine load decision_id gateway envelope pv
     grant files actuator_id now observer =
     (case (seed, intent, policy, load) of
        (Some s, Some i, Some p, Some ld) \<Rightarrow>
          ebind (elift (check_collaborators s i pv files)) (\<lambda>manifest.
          run_approval_gate (Some i) approval engine now (\<lambda>i'.
            ebind (on_env (load_stage ld s)) (\<lambda>staged.
            ebind (elift (bind_stage_repository_identity s i staged)) (\<lambda>provider_staged.
            run_broker_gate (Some i') approval (Some p) engine staged decision_id gateway envelope (Some (pv_open pv)) grant
              actuator_id now (publish_after_broker netloc_ok pv manifest provider_staged observer) (Some s) observer)))
            (map_option env_observer observer))
      | (None, _) \<Rightarrow> elift (Inl (cp_error ''publication seed is invalid''))
      | (_, None, _) \<Rightarrow> elift (Inl (cp_error ''intent is invalid''))
      | (_, _, None, _) \<Rightarrow> elift (Inl (cp_error ''policy engine is invalid''))
      | _ \<Rightarrow> elift (Inl (cp_error ''staged change loader is invalid'')))"

section \<open>Reconciling after a restart\<close>

text \<open>Reading the files back: the outcome and the commit to record.\<close>

definition file_outcome :: "('e, 'c) provider \<Rightarrow> 'c \<Rightarrow> publication_intent \<Rightarrow> file_item list \<Rightarrow> ('e, pyval \<times> pyval) eff" where
  "file_outcome pv c i manifest =
     ebind (ecatch (reconcile_verified_manifest (pv_reconcile_files pv c) (pi_branch i, manifest)) (\<lambda>_. eret PNone)) (\<lambda>commit.
     eret (if is_str commit \<and> is_hex40 (str_of commit) then (PStr ''verified'', commit) else (PStr ''unverified'', PNone)))"

definition record_evidence ::
  "('e, 'c) provider \<Rightarrow> 'c \<Rightarrow> publication_seed \<Rightarrow> publication_intent \<Rightarrow> file_item list \<Rightarrow> pydatetime \<Rightarrow>
   ('e \<times> journal, publication_record) eff" where
  "record_evidence pv c s i manifest moment =
     ebind (on_env (file_outcome pv c i manifest)) (\<lambda>(outcome, commit).
     ecatch (ebind (on_journal (record_verified_file_reconciliation (pi_process_id i) (sd_verified_contents_digest s)
           outcome commit (NowAt moment))) (\<lambda>_ (e, j). (get_attempt (pi_process_id i) j, e, j)))
       (\<lambda>_. elift (Inl (cp_error ''recovery evidence could not be persisted''))))"

text \<open>An attempting row is recovered, or marked when that fails.\<close>

definition recover_or_mark ::
  "(string \<Rightarrow> bool) \<Rightarrow> ('e, 'c) provider \<Rightarrow> 'c \<Rightarrow> pyval \<Rightarrow> ('e \<times> journal, publication_record) eff" where
  "recover_or_mark netloc_ok pv c pid =
     ecatch (recover_publication netloc_ok (Some (pv_find pv c)) pid) (\<lambda>_.
       ecatch (ebind (\<lambda>(e, j). (get_attempt pid j, e, j)) (\<lambda>r.
           if jr_status r \<noteq> Attempting then eret r
           else ebind (on_journal (mark_reconciliation_required pid)) (\<lambda>_ (e, j). (get_attempt pid j, e, j))))
         (\<lambda>_. elift (Inl recovery_required)))"

text \<open>A lookup by key for a row that already waits for reconciliation; any failure is ignored.\<close>

definition complete_from_lookup ::
  "(string \<Rightarrow> bool) \<Rightarrow> ('e, 'c) provider \<Rightarrow> 'c \<Rightarrow> publication_record \<Rightarrow> pyval \<Rightarrow> ('e \<times> journal, publication_record option) eff" where
  "complete_from_lookup netloc_ok pv c r pid =
     ecatch (ebind (on_env (pv_find pv c (PStr (jr_idempotency_key r)) (PStr (jr_repository_id r))
         (case jr_base_branch r of None \<Rightarrow> PNone | Some b \<Rightarrow> PStr b))) (\<lambda>found.
       (case found of
          Some rc \<Rightarrow>
            if rc_type rc = GitHubReceipt
            then ebind (on_journal (mark_completed_from_reconciliation netloc_ok pid rc))
                   (\<lambda>_. ebind (\<lambda>(e, j). (get_attempt pid j, e, j)) (\<lambda>r'. eret (Some r')))
            else eret None
        | None \<Rightarrow> eret None)))
       (\<lambda>_. eret None)"

definition reconcile_row ::
  "(string \<Rightarrow> bool) \<Rightarrow> ('e, 'c) provider \<Rightarrow> 'c \<Rightarrow> publication_seed \<Rightarrow> publication_intent \<Rightarrow> file_item list \<Rightarrow> pydatetime \<Rightarrow>
   publication_record \<Rightarrow> ('e \<times> journal, publication_record) eff" where
  "reconcile_row netloc_ok pv c s i manifest moment r =
     (case jr_status r of
        Completed \<Rightarrow> eret r
      | Prepared \<Rightarrow> elift (Inl recovery_required)
      | Attempting \<Rightarrow>
          ebind (recover_or_mark netloc_ok pv c (pi_process_id i)) (\<lambda>r'.
          if jr_status r' = Completed then eret r'
          else eunless (jr_status r' \<noteq> ReconciliationRequired) recovery_required
            (record_evidence pv c s i manifest moment))
      | ReconciliationRequired \<Rightarrow>
          ebind (complete_from_lookup netloc_ok pv c r (pi_process_id i)) (\<lambda>done.
          case done of Some r' \<Rightarrow> eret r' | None \<Rightarrow> record_evidence pv c s i manifest moment))"

definition row_binding :: "publication_seed \<Rightarrow> publication_intent \<Rightarrow> publication_record \<Rightarrow> unit res" where
  "row_binding s i r =
     unless (\<not> py_eq (PStr (jr_idempotency_key r)) (pi_idempotency_key i)
         \<or> \<not> py_eq (PStr (jr_repository_id r)) (pi_repository_id i)
         \<or> \<not> py_eq (case jr_files_digest r of None \<Rightarrow> PNone | Some d \<Rightarrow> PStr d) (sd_verified_contents_digest s))
       (cp_error ''recovery binding mismatch'') (Inr ())"

text \<open>\<open>channel_typed\<close>: the channel is a registered publication or read-only channel.\<close>

definition reconcile_controlled_attempt_after_restart ::
  "(string \<Rightarrow> bool) \<Rightarrow> publication_seed option \<Rightarrow> publication_intent option \<Rightarrow> files_arg \<Rightarrow> bool \<Rightarrow> ('e, 'c) provider \<Rightarrow> 'c \<Rightarrow>
   now_arg \<Rightarrow> ('e \<times> journal, publication_record) eff" where
  "reconcile_controlled_attempt_after_restart netloc_ok seed intent files channel_typed pv c now =
     (case (seed, intent) of
        (Some s, Some i) \<Rightarrow>
          eunless (\<not> channel_typed) (cp_error ''GitHub channel type is required'')
          (ebind (elift (cp_clock now)) (\<lambda>moment.
           ebind (elift (validate_verified_files s files)) (\<lambda>manifest.
           ebind (elift (require_seed_intent_binding s i)) (\<lambda>_.
           ebind (ecatch (\<lambda>(e, j). (get_attempt (pi_process_id i) j, e, j))
             (\<lambda>_. elift (Inl (cp_error ''recovery record is unavailable'')))) (\<lambda>r.
           ebind (elift (row_binding s i r)) (\<lambda>_.
           reconcile_row netloc_ok pv c s i manifest moment r))))))
      | _ \<Rightarrow> elift (Inl (cp_error ''recovery binding is invalid'')))"

end
