(* ===== verification/Controlled_Safety.thy ===== *)
theory Controlled_Safety
  imports Controlled_Publication
begin

text \<open>
  Properties of the controlled publication: however often the coordinators run, crash, recover and
  reconcile for one intent, the provider is asked to publish at most once; and nothing changes unless
  every gate passed.
\<close>

section \<open>A budget of one call\<close>

text \<open>
  The world is the environment with a log of the calls that reached the provider's publish method. An
  effect is within the budget of \<open>p\<close> if the calls it makes are paid by closing \<open>p\<close>'s prepared row.
\<close>

type_synonym 'e logged_world = "('e \<times> pyval list) \<times> journal"

definition within_budget :: "string \<Rightarrow> ('e logged_world, 'a) eff \<Rightarrow> bool" where
  "within_budget p m \<longleftrightarrow>
     (\<forall>w j r w' j'. journal_ok j \<longrightarrow> m (w, j) = (r, w', j') \<longrightarrow>
        journal_ok j' \<and> advances p j j' \<and> length (snd w) \<le> length (snd w') \<and>
        length (snd w') + open_for j' p \<le> length (snd w) + open_for j p)"

lemma within_budgetD:
  assumes "within_budget p m" "journal_ok j" "m (w, j) = (r, w', j')"
  shows "journal_ok j'" "advances p j j'" "length (snd w) \<le> length (snd w')"
    "length (snd w') + open_for j' p \<le> length (snd w) + open_for j p"
  using assms unfolding within_budget_def by blast+

lemma within_budget_elift [simp, intro]: "within_budget p (elift m)"
  by (simp add: within_budget_def)

lemma within_budget_eret [simp, intro]: "within_budget p (eret x)"
  by (simp add: within_budget_def)

lemma within_budget_ebind:
  assumes "within_budget p m" "\<And>x. within_budget p (f x)"
  shows "within_budget p (ebind m f)"
  unfolding within_budget_def
proof (intro allI impI)
  fix w j r w' j' assume j: "journal_ok j" and run: "ebind m f (w, j) = (r, w', j')"
  obtain r1 w1 j1 where m: "m (w, j) = (r1, w1, j1)" by (cases "m (w, j)")
  note 1 = within_budgetD [OF assms(1) j m]
  show "journal_ok j' \<and> advances p j j' \<and> length (snd w) \<le> length (snd w') \<and>
        length (snd w') + open_for j' p \<le> length (snd w) + open_for j p"
  proof (cases r1)
    case (Inl x)
    with m run 1 show ?thesis by (auto simp: ebind_def)
  next
    case (Inr x)
    with m run have "f x (w1, j1) = (r, w', j')" by (simp add: ebind_def)
    from within_budgetD [OF assms(2) 1(1) this] 1 show ?thesis by (auto intro: advances_trans)
  qed
qed

lemma within_budget_ecatch:
  assumes "within_budget p m" "\<And>x. within_budget p (h x)"
  shows "within_budget p (ecatch m h)"
  unfolding within_budget_def
proof (intro allI impI)
  fix w j r w' j' assume j: "journal_ok j" and run: "ecatch m h (w, j) = (r, w', j')"
  obtain r1 w1 j1 where m: "m (w, j) = (r1, w1, j1)" by (cases "m (w, j)")
  note 1 = within_budgetD [OF assms(1) j m]
  show "journal_ok j' \<and> advances p j j' \<and> length (snd w) \<le> length (snd w') \<and>
        length (snd w') + open_for j' p \<le> length (snd w) + open_for j p"
  proof (cases r1)
    case (Inl x)
    with m run have "h x (w1, j1) = (r, w', j')" by (simp add: ecatch_def)
    from within_budgetD [OF assms(2) 1(1) this] 1 show ?thesis by (auto intro: advances_trans)
  next
    case (Inr x)
    with m run 1 show ?thesis by (auto simp: ecatch_def)
  qed
qed

lemma within_budget_eunless [intro]: "within_budget p k \<Longrightarrow> within_budget p (eunless b x k)"
  by (cases b) (auto simp: within_budget_def eunless_def)

lemma within_budget_if:
  "(b \<Longrightarrow> within_budget p m) \<Longrightarrow> (\<not> b \<Longrightarrow> within_budget p k) \<Longrightarrow> within_budget p (if b then m else k)"
  by simp

lemma within_budget_option:
  "(x = None \<Longrightarrow> within_budget p m) \<Longrightarrow> (\<And>y. x = Some y \<Longrightarrow> within_budget p (f y)) \<Longrightarrow>
    within_budget p (case x of None \<Rightarrow> m | Some y \<Rightarrow> f y)"
  by (cases x) auto

lemma within_budget_read: "within_budget p (\<lambda>(e, j). (g j, e, j))"
  by (simp add: within_budget_def)

lemma within_budget_env:
  assumes "\<And>w r w'. m w = (r, w') \<Longrightarrow> snd w' = snd w"
  shows "within_budget p (on_env m)"
  unfolding within_budget_def
proof (intro allI impI)
  fix w j r w' j' assume j: "journal_ok j" and "on_env m (w, j) = (r, w', j')"
  then have "m w = (r, w')" "j' = j" by (auto simp: on_env_def split: prod.splits)
  with assms [OF this(1)] j show "journal_ok j' \<and> advances p j j' \<and> length (snd w) \<le> length (snd w') \<and>
        length (snd w') + open_for j' p \<le> length (snd w) + open_for j p" by simp
qed

lemma within_budget_journal:
  assumes "\<And>j r j'. journal_ok j \<Longrightarrow> m j = (r, j') \<Longrightarrow> journal_ok j' \<and> advances p j j'"
  shows "within_budget p (on_journal m)"
  unfolding within_budget_def on_journal_def
  by (auto split: prod.splits dest: assms open_for_advances)

section \<open>Collaborators that do not publish\<close>

text \<open>A collaborator of the original environment acts on the logged one without touching the log.\<close>

definition quietly :: "('e, 'a) eff \<Rightarrow> ('e \<times> pyval list, 'a) eff" where
  "quietly m = (\<lambda>(e, l). case m e of (r, e') \<Rightarrow> (r, (e', l)))"

lemma quietly_log: "quietly m w = (r, w') \<Longrightarrow> snd w' = snd w"
  by (auto simp: quietly_def split: prod.splits)

definition logged_provider :: "('e, 'c) provider \<Rightarrow> ('e \<times> pyval list, 'c) provider" where
  "logged_provider pv =
     \<lparr>pv_kind = pv_kind pv, pv_endpoint_typed = pv_endpoint_typed pv, pv_target = pv_target pv,
      pv_open = (\<lambda>grant request now. quietly (pv_open pv grant request now)),
      pv_channel_typed = pv_channel_typed pv,
      pv_publish = (\<lambda>c. logged (pv_publish pv c)),
      pv_find = (\<lambda>c k repo base. quietly (pv_find pv c k repo base)),
      pv_publish_files = (\<lambda>c. map_option (\<lambda>f a. quietly (f a)) (pv_publish_files pv c)),
      pv_reconcile_files = (\<lambda>c. map_option (\<lambda>f a. quietly (f a)) (pv_reconcile_files pv c))\<rparr>"

definition quiet_observer :: "'e observer \<Rightarrow> ('e \<times> pyval list) observer" where
  "quiet_observer ob = \<lparr>ob_before = (\<lambda>step pid. quietly (ob_before ob step pid)),
     ob_after = (\<lambda>step done. quietly (ob_after ob step done))\<rparr>"

definition quiet_gateway :: "'e injected_gateway \<Rightarrow> ('e \<times> pyval list) injected_gateway" where
  "quiet_gateway gw = (\<lambda>envelope now. quietly (gw envelope now))"

text \<open>Effects on the logged environment that leave the log alone.\<close>

definition silent :: "('e \<times> pyval list, 'a) eff \<Rightarrow> bool" where
  "silent m \<longleftrightarrow> (\<forall>w r w'. m w = (r, w') \<longrightarrow> snd w' = snd w)"

lemma silent_quietly [simp, intro]: "silent (quietly m)"
  unfolding silent_def using quietly_log by blast

lemma silent_elift [simp, intro]: "silent (elift m)" by (simp add: silent_def)

lemma silent_eret [simp, intro]: "silent (eret m)" by (simp add: silent_def)

lemma silent_ebind: "silent m \<Longrightarrow> (\<And>x. silent (f x)) \<Longrightarrow> silent (ebind m f)"
  unfolding silent_def ebind_def by (auto split: prod.splits sum.splits) metis

lemma silent_ecatch: "silent m \<Longrightarrow> (\<And>x. silent (h x)) \<Longrightarrow> silent (ecatch m h)"
  unfolding silent_def ecatch_def by (auto split: prod.splits sum.splits) metis

lemma silent_eunless: "silent k \<Longrightarrow> silent (eunless b x k)"
  by (cases b) (auto simp: silent_def eunless_def)

lemma silent_observed:
  assumes "silent m"
  shows "silent (observed (map_option quiet_observer observer) step pid m)"
proof (cases observer)
  case None
  with assms show ?thesis by simp
next
  case (Some ob)
  have "silent (\<lambda>w. case m w of (r, w1) \<Rightarrow> (case quietly (ob_after ob step (is_ok r)) w1 of
      (Inl e, w2) \<Rightarrow> (Inl e, w2) | (Inr _, w2) \<Rightarrow> (r, w2)))"
    using assms unfolding silent_def by (auto split: prod.splits sum.splits dest!: quietly_log)
  then show ?thesis by (simp add: Some quiet_observer_def silent_ebind)
qed

lemma within_budget_silent: "silent m \<Longrightarrow> within_budget p (on_env m)"
  unfolding silent_def by (rule within_budget_env) blast

lemma within_budget_observed:
  assumes "within_budget p m"
  shows "within_budget p (observed (map_option env_observer (map_option quiet_observer observer)) step pid m)"
proof (cases observer)
  case None
  with assms show ?thesis by simp
next
  case (Some ob)
  have "within_budget p (\<lambda>w. case m w of (r, w1) \<Rightarrow> (case on_env (quietly (ob_after ob step (is_ok r))) w1 of
      (Inl e, w2) \<Rightarrow> (Inl e, w2) | (Inr _, w2) \<Rightarrow> (r, w2)))"
    unfolding within_budget_def
  proof (intro allI impI)
    fix w j r w' j'
    assume j: "journal_ok j" and run: "(case m (w, j) of (r, w1) \<Rightarrow> (case on_env (quietly (ob_after ob step (is_ok r))) w1 of
      (Inl e, w2) \<Rightarrow> (Inl e, w2) | (Inr _, w2) \<Rightarrow> (r, w2))) = (r, w', j')"
    obtain r1 w1 j1 where m: "m (w, j) = (r1, w1, j1)" by (cases "m (w, j)")
    have "j' = j1 \<and> snd w' = snd w1"
      using run m by (auto simp: on_env_def split: prod.splits sum.splits dest!: quietly_log)
    with within_budgetD [OF assms j m] show "journal_ok j' \<and> advances p j j' \<and> length (snd w) \<le> length (snd w') \<and>
        length (snd w') + open_for j' p \<le> length (snd w) + open_for j p" by simp
  qed
  then show ?thesis
    by (simp add: Some quiet_observer_def env_observer_def within_budget_ebind within_budget_silent)
qed

section \<open>Every step of the coordinators is within the budget\<close>

lemma within_budget_execute:
  assumes "\<And>w x w'. run_hook hook w = (x, w') \<Longrightarrow> snd w' = snd w" "fld request ''process_id'' = PStr p"
  shows "within_budget p (execute_publication ok (Some (logged publish)) hook request crash)"
  unfolding within_budget_def
proof (intro allI impI)
  fix w j r w' j'
  assume j: "journal_ok j" and run: "execute_publication ok (Some (logged publish)) hook request crash (w, j) = (r, w', j')"
  have adv: "journal_ok j'" "advances p j j'" using execute_advances [OF run j] by blast+
  from run j assms(1) have "snd w' = snd w \<or> (length (snd w') = Suc (length (snd w)) \<and>
    (\<exists>p r r'. fld request ''process_id'' = PStr p \<and> attempt_of j p = Some r \<and> jr_status r = Prepared \<and>
      attempt_of j' p = Some r' \<and> jr_status r' \<noteq> Prepared))"
    by (rule execute_log)
  with assms(2) have
    "snd w' = snd w \<or> (length (snd w') = Suc (length (snd w)) \<and> open_for j p = 1 \<and> open_for j' p = 0)"
    by (auto simp: open_for_def)
  with adv open_for_advances [OF adv(2)] show "journal_ok j' \<and> advances p j j' \<and> length (snd w) \<le> length (snd w') \<and>
        length (snd w') + open_for j' p \<le> length (snd w) + open_for j p" by auto
qed

lemma within_budget_recover:
  assumes "\<And>k repo base w x w'. lookup k repo base w = (x, w') \<Longrightarrow> snd w' = (snd w :: pyval list)"
  shows "within_budget p (recover_publication ok (Some lookup) pid)"
  unfolding within_budget_def
proof (intro allI impI)
  fix w j r w' j'
  assume j: "journal_ok j" and run: "recover_publication ok (Some lookup) pid (w, j) = (r, w', j')"
  have adv: "journal_ok j'" "advances p j j'" using recover_advances [OF run j] by blast+
  from run assms have "snd w' = snd w" by (rule recover_log)
  with adv open_for_advances [OF adv(2)] show "journal_ok j' \<and> advances p j j' \<and> length (snd w) \<le> length (snd w') \<and>
        length (snd w') + open_for j' p \<le> length (snd w) + open_for j p" by auto
qed

lemma call_advances:
  assumes "journal_ok j"
  shows "prepare pid k d repo fs j = (r1, j1) \<Longrightarrow> journal_ok j1 \<and> advances p j j1"
    "mark_reconciliation_required pid j = (r2, j1) \<Longrightarrow> journal_ok j1 \<and> advances p j j1"
    "mark_completed_from_reconciliation ok pid rc j = (r2, j1) \<Longrightarrow> journal_ok j1 \<and> advances p j j1"
    "record_verified_file_reconciliation pid m o' c t j = (r2, j1) \<Longrightarrow> journal_ok j1 \<and> advances p j j1"
  using run_call_follows [OF assms, of "Prepare pid k d repo fs"] run_call_follows [OF assms, of "MarkReconciliation pid"]
    run_call_follows [OF assms, of "MarkFromReconciliation pid rc" ok]
    run_call_follows [OF assms, of "RecordFiles pid m o' c t"] follows_advances
  by auto

lemma within_budget_mark_unknown: "within_budget p (mark_outcome_unknown pid)"
  unfolding within_budget_def mark_outcome_unknown_def
  by (auto split: sum.splits if_splits intro: open_for_advances dest: call_advances(2) [OF _ prod.collapse [symmetric]])

text \<open>Settling is a read of the journal, then recovery, a lookup and at worst a mark.\<close>

definition settle_steps ::
  "(string \<Rightarrow> bool) \<Rightarrow> ('e, 'c) provider \<Rightarrow> 'c \<Rightarrow> publication_intent \<Rightarrow> exn \<Rightarrow> ('e \<times> journal, receipt) eff" where
  "settle_steps ok pv c i x =
     (let pid = pi_process_id i
      in if exn_class x = SimulatedCrash then elift (Inl x)
         else ebind (\<lambda>(e, j). (get_attempt pid j, e, j)) (\<lambda>cur.
           if jr_status cur \<noteq> Attempting then elift (Inl x)
           else ebind (ecatch (ebind (recover_publication ok (Some (pv_find pv c)) pid) (\<lambda>r.
                 if jr_status r \<noteq> Completed then eret None
                 else on_env (ecatch (pv_find pv c (pi_idempotency_key i) PNone PNone) (\<lambda>_. eret None))))
               (\<lambda>_. eret None)) (\<lambda>found.
             case found of
               Some rc \<Rightarrow> if rc_type rc \<noteq> OtherReceipt then eret rc else mark_outcome_unknown pid
             | None \<Rightarrow> mark_outcome_unknown pid)))"

lemma settle_dispatch_steps: "settle_dispatch ok pv c i x = settle_steps ok pv c i x"
proof (rule ext)
  fix s :: "'a \<times> journal"
  obtain e j where s: "s = (e, j)" by (cases s)
  show "settle_dispatch ok pv c i x s = settle_steps ok pv c i x s"
    unfolding s settle_dispatch_def settle_steps_def Let_def
    by (auto simp: ebind_def ecatch_def on_env_def split: prod.splits sum.splits option.splits if_splits)
qed

lemma silent_find: "silent (pv_find (logged_provider pv) c k repo base)"
  by (simp add: logged_provider_def)

lemma silent_manifest:
  "silent (publish_verified_manifest (pv_publish_files (logged_provider pv) c) a)"
  "silent (reconcile_verified_manifest (pv_reconcile_files (logged_provider pv) c) b)"
  by (auto simp: logged_provider_def publish_verified_manifest_def reconcile_verified_manifest_def split: option.split)

lemmas silent_intros = silent_ebind silent_ecatch silent_eunless silent_elift silent_eret silent_find silent_manifest

lemma silent_hook: "silent (publish_files_hook (logged_provider pv) c i staged files)"
  unfolding publish_files_hook_def by (intro silent_intros)

lemma silentD: "silent m \<Longrightarrow> m w = (r, w') \<Longrightarrow> snd w' = snd w"
  unfolding silent_def by blast

lemma within_budget_dispatch:
  assumes "pi_process_id i = PStr p"
  shows "within_budget p (dispatch_publication ok (logged_provider pv) c i staged files decision)"
proof -
  let ?hook = "if pv_kind (logged_provider pv) = GitHubApp
    then Hook (publish_files_hook (logged_provider pv) c i staged files) else NoHook"
  have "snd w' = snd w" if "run_hook ?hook w = (x, w')" for w x w'
    using that by (auto split: if_splits dest: silentD [OF silent_hook])
  moreover have "fld (publication_request i decision) ''process_id'' = PStr p"
    by (simp add: publication_request_def assms)
  moreover have "pv_publish (logged_provider pv) c = logged (pv_publish pv c)" by (simp add: logged_provider_def)
  ultimately show ?thesis
    unfolding dispatch_publication_def by (simp only:) (rule within_budget_execute; assumption)
qed

lemma within_budget_settle: "within_budget p (settle_dispatch ok (logged_provider pv) c i x)"
proof -
  have r: "within_budget p (recover_publication ok (Some (pv_find (logged_provider pv) c)) pid)" for pid
    by (rule within_budget_recover) (rule silentD [OF silent_find])
  have f: "within_budget p (on_env (ecatch (pv_find (logged_provider pv) c k a b) (\<lambda>_. eret None)))" for k a b
    by (intro within_budget_silent silent_intros)
  show ?thesis
    unfolding settle_dispatch_steps settle_steps_def Let_def
    by (intro within_budget_if within_budget_option within_budget_ebind within_budget_ecatch within_budget_read r f
        within_budget_mark_unknown within_budget_elift within_budget_eret)
qed

lemma within_budget_publish:
  assumes "pi_process_id i = PStr p"
  shows "within_budget p (publish_after_broker ok (logged_provider pv) files staged (map_option quiet_observer observer)
    i approval decision g c)"
  unfolding publish_after_broker_def
  by (intro within_budget_eunless within_budget_ecatch within_budget_observed within_budget_dispatch within_budget_settle assms)

lemma within_budget_prepare:
  "within_budget p (on_journal (prepare_publication_journal s i approval engine decision g now))"
proof (rule within_budget_journal)
  fix j r j' assume j: "journal_ok j" and run: "prepare_publication_journal s i approval engine decision g now j = (r, j')"
  then show "journal_ok j' \<and> advances p j j'"
    by (cases "journal_request_digest s i approval engine decision g now")
      (auto simp: prepare_publication_journal_def dest: call_advances(1) [OF j])
qed

lemma silent_gateway: "silent (authorize_gateway (quiet_gateway gw) envelope moment)"
  unfolding authorize_gateway_def quiet_gateway_def
  by (intro silent_intros silent_quietly) (auto intro!: silent_intros split: option.split)

lemma silent_open: "silent (open_channel (pv_open (logged_provider pv)) (map_option quiet_observer observer) i grant actuator moment)"
  unfolding open_channel_def by (intro silent_intros silent_observed) (simp add: logged_provider_def)

lemma within_budget_open:
  assumes "\<And>g c. within_budget p (proceed i approval decision g c)"
  shows "within_budget p (open_after_policy s engine (map_option quiet_gateway gateway) envelope (pv_open (logged_provider pv))
    grant actuator moment proceed (map_option quiet_observer observer) i approval decision)"
proof (cases gateway)
  case None
  then show ?thesis by (simp add: open_after_policy_def)
next
  case (Some gw)
  then show ?thesis
    unfolding open_after_policy_def
    by (auto intro!: within_budget_ebind within_budget_silent silent_observed silent_gateway silent_open within_budget_prepare assms)
qed

lemma within_budget_policy:
  assumes "\<And>i' d. intent = Some i' \<Longrightarrow> within_budget p (proceed i' approval d)"
  shows "within_budget p (run_policy_gate intent approval policy engine staged did actuator now proceed
    (map_option env_observer (map_option quiet_observer observer)))"
  unfolding run_policy_gate_def
  by (auto split: option.split intro!: within_budget_eunless within_budget_ebind within_budget_observed assms)

lemma within_budget_broker:
  assumes "pi_process_id i = PStr p"
  shows "within_budget p (run_broker_gate (Some i) approval policy engine staged did (map_option quiet_gateway gateway) envelope
    (Some (pv_open (logged_provider pv))) grant actuator now
    (publish_after_broker ok (logged_provider pv) files provider_staged (map_option quiet_observer observer)) seed
    (map_option quiet_observer observer))"
  unfolding run_broker_gate_def
  by (auto split: option.split simp del: option.map_comp option.map_sel
      intro!: within_budget_ebind within_budget_policy within_budget_open within_budget_publish assms)

lemma within_budget_coordinator:
  assumes "\<And>i. intent = Some i \<Longrightarrow> pi_process_id i = PStr p"
  shows "within_budget p (run_controlled_local_publication ok seed intent approval policy engine
    (map_option (\<lambda>f s. quietly (f s)) load) did (map_option quiet_gateway gateway) envelope (logged_provider pv) grant files
    actuator now (map_option quiet_observer observer))"
proof (cases "\<exists>s i po ld. seed = Some s \<and> intent = Some i \<and> policy = Some po \<and> load = Some ld")
  case True
  then obtain s i po ld where a: "seed = Some s" "intent = Some i" "policy = Some po" "load = Some ld" by blast
  have l: "silent (load_stage (\<lambda>s. quietly (ld s)) s)"
    unfolding load_stage_def by (intro silent_intros silent_quietly)
  have i: "pi_process_id i = PStr p" using a(2) assms by blast
  show ?thesis
    unfolding run_controlled_local_publication_def run_approval_gate_def
    by (simp only: a option.map prod.case option.case)
      (intro within_budget_ebind within_budget_elift within_budget_eunless within_budget_observed within_budget_silent l
        within_budget_broker i)
next
  case False
  then have "seed = None \<or> intent = None \<or> policy = None \<or> load = None"
    by (cases seed; cases intent; cases policy; cases load) blast+
  then show ?thesis
    unfolding run_controlled_local_publication_def by (elim disjE) (auto split: option.split)
qed

text \<open>Reconciliation only reads from the provider.\<close>

lemma within_budget_evidence: "within_budget p (record_evidence (logged_provider pv) c s i manifest moment)"
proof -
  have "silent (file_outcome (logged_provider pv) c i manifest)" unfolding file_outcome_def by (intro silent_intros)
  moreover have "within_budget p (on_journal (record_verified_file_reconciliation pid m out commit now))" for pid m out commit now
    by (rule within_budget_journal) (rule call_advances(4))
  ultimately show ?thesis
    unfolding record_evidence_def
    by (intro within_budget_ebind within_budget_silent)
      (auto intro!: within_budget_ecatch within_budget_ebind within_budget_read split: prod.split)
qed

lemma within_budget_recover_or_mark: "within_budget p (recover_or_mark ok (logged_provider pv) c pid)"
proof -
  have "within_budget p (recover_publication ok (Some (pv_find (logged_provider pv) c)) pid)"
    by (rule within_budget_recover) (rule silentD [OF silent_find])
  moreover have "within_budget p (on_journal (mark_reconciliation_required pid))"
    by (rule within_budget_journal) (rule call_advances(2))
  ultimately show ?thesis
    unfolding recover_or_mark_def
    by (intro within_budget_ecatch within_budget_ebind within_budget_if within_budget_read within_budget_elift within_budget_eret)
qed

lemma within_budget_lookup: "within_budget p (complete_from_lookup ok (logged_provider pv) c r pid)"
proof -
  have "within_budget p (on_journal (mark_completed_from_reconciliation ok pid rc))" for rc
    by (rule within_budget_journal) (rule call_advances(3))
  then show ?thesis
    unfolding complete_from_lookup_def
    by (intro within_budget_ecatch within_budget_ebind within_budget_option within_budget_if within_budget_read
        within_budget_silent silent_find within_budget_eret)
qed

lemma within_budget_reconcile:
  "within_budget p (reconcile_controlled_attempt_after_restart ok seed intent files typed (logged_provider pv) c now)"
proof (cases "seed = None \<or> intent = None")
  case True
  then show ?thesis by (cases seed; cases intent) (auto simp: reconcile_controlled_attempt_after_restart_def)
next
  case False
  then obtain s i where si: "seed = Some s" "intent = Some i" by auto
  have row: "within_budget p (reconcile_row ok (logged_provider pv) c s i manifest moment r)" for manifest moment r
    by (cases "jr_status r")
      (auto simp: reconcile_row_def intro!: within_budget_ebind within_budget_if within_budget_eunless within_budget_option
        within_budget_evidence within_budget_recover_or_mark within_budget_lookup)
  show ?thesis
    unfolding reconcile_controlled_attempt_after_restart_def si
    by (simp only: prod.case option.case)
      (intro within_budget_eunless within_budget_ebind within_budget_ecatch within_budget_read within_budget_elift row)
qed

section \<open>Runs of the coordinators\<close>

datatype ('e, 'c) controlled_step =
    Coordinate "publication_seed option" pyval "policy_engine option" pyval "(publication_seed \<Rightarrow> ('e, pyval) eff) option" pyval
      "'e injected_gateway option" pyval pyval files_arg pyval now_arg "'e observer option"
  | Reconcile "publication_seed option" files_arg bool 'c now_arg

fun run_controlled ::
  "(string \<Rightarrow> bool) \<Rightarrow> ('e, 'c) provider \<Rightarrow> publication_intent \<Rightarrow> ('e, 'c) controlled_step \<Rightarrow> 'e logged_world \<Rightarrow> 'e logged_world" where
  "run_controlled ok pv i (Coordinate seed approval policy engine load did gateway envelope grant files actuator now observer) w =
     snd (run_controlled_local_publication ok seed (Some i) approval policy engine (map_option (\<lambda>f s. quietly (f s)) load) did
       (map_option quiet_gateway gateway) envelope (logged_provider pv) grant files actuator now
       (map_option quiet_observer observer) w)"
| "run_controlled ok pv i (Reconcile seed files typed c now) w =
     snd (reconcile_controlled_attempt_after_restart ok seed (Some i) files typed (logged_provider pv) c now w)"

lemma run_controlled_budget:
  assumes "journal_ok j" "pi_process_id i = PStr p" "run_controlled ok pv i c (w, j) = (w', j')"
  shows "journal_ok j' \<and> length (snd w') + open_for j' p \<le> length (snd w) + open_for j p"
proof (cases c)
  case (Coordinate seed approval policy engine load did gateway envelope grant files actuator now observer)
  let ?m = "run_controlled_local_publication ok seed (Some i) approval policy engine (map_option (\<lambda>f s. quietly (f s)) load) did
       (map_option quiet_gateway gateway) envelope (logged_provider pv) grant files actuator now (map_option quiet_observer observer)"
  have b: "within_budget p ?m" by (rule within_budget_coordinator) (simp add: assms(2))
  obtain r where "?m (w, j) = (r, w', j')" using assms(3) Coordinate by (cases "?m (w, j)") auto
  with within_budgetD [OF b assms(1)] show ?thesis by blast
next
  case (Reconcile seed files typed ch now)
  let ?m = "reconcile_controlled_attempt_after_restart ok seed (Some i) files typed (logged_provider pv) ch now"
  have b: "within_budget p ?m" by (rule within_budget_reconcile)
  obtain r where "?m (w, j) = (r, w', j')" using assms(3) Reconcile by (cases "?m (w, j)") auto
  with within_budgetD [OF b assms(1)] show ?thesis by blast
qed

lemma run_controlled_list_budget:
  assumes "journal_ok j" "pi_process_id i = PStr p" "fold (run_controlled ok pv i) steps (w, j) = (w', j')"
  shows "journal_ok j' \<and> length (snd w') + open_for j' p \<le> length (snd w) + open_for j p"
  using assms(1,3)
proof (induction steps arbitrary: w j)
  case Nil
  then show ?case by simp
next
  case (Cons c cs)
  obtain w1 j1 where c: "run_controlled ok pv i c (w, j) = (w1, j1)" by (cases "run_controlled ok pv i c (w, j)")
  from run_controlled_budget [OF Cons.prems(1) assms(2) c] have 1: "journal_ok j1"
    "length (snd w1) + open_for j1 p \<le> length (snd w) + open_for j p" by blast+
  from c Cons.prems(2) have "fold (run_controlled ok pv i) cs (w1, j1) = (w', j')" by simp
  from Cons.IH [OF 1(1) this] 1(2) show ?case by simp
qed

end
