(* ===== verification/Publication_Safety.thy ===== *)
theory Publication_Safety
  imports Publication
begin

text \<open>
  The properties of the publication journal: its refinement of the attempt machine, one external call
  per process, recovery after a crash, the error of an outcome that stays unknown, and the keys it
  accepts.
\<close>

section \<open>A sample attempt\<close>

definition attempt_key :: string where
  "attempt_key = key_text ''agent/x'' ''main'' sample_digest"

definition prepared_attempt :: publication_record where
  "prepared_attempt = fresh_attempt ''process-1'' attempt_key sample_digest ''owner/project'' ''main'' None"

definition attempt_request :: pyval where
  "attempt_request = PDict ((''process_id'', PStr ''process-1'') # items sample_publication)"

lemma attempt_key_parses: "parse_key attempt_key = Inr ''main''"
proof -
  have "key_text (branch_prefix @ ''x'') ''main'' sample_digest = attempt_key"
    by (simp add: attempt_key_def branch_prefix_def)
  moreover have "is_utf8 ''x''" "is_utf8 ''main''" by (simp_all add: is_utf8_ascii)
  ultimately show ?thesis using parse_key_text [of "''x''" "''main''" sample_digest] sample_base sample_digest
    by (simp add: text_eval)
qed

lemma prepared_attempt_sel:
  "jr_process_id prepared_attempt = ''process-1''" "jr_idempotency_key prepared_attempt = attempt_key"
  "jr_repository_id prepared_attempt = ''owner/project''" "jr_base_branch prepared_attempt = Some ''main''"
  "jr_status prepared_attempt = Prepared"
  by (simp_all add: prepared_attempt_def fresh_attempt_def)

lemma prepared_journal_ok: "journal_ok [prepared_attempt]"
  by (simp add: journal_ok_def attempt_ok_def prepared_attempt_def fresh_attempt_def attempt_key_parses
      sample_digest text_eval)

lemma attempt_request_checked: "check_execute True NoHook attempt_request = Inr ()"
  by (simp add: check_execute_def attempt_request_def sample_publication_def boundary_fields_def boundary_texts_def
      sample_digest key_text_nonempty)

lemma attempt_request_boundary: "boundary_part attempt_request = sample_publication"
  by (simp add: boundary_part_def attempt_request_def sample_publication_def boundary_fields_def)

lemma ascii_quoted: "ascii (quote_text s)"
  using ascii_quote_text by (simp add: ascii_iff)

lemma boundary_sel:
  "fld (boundary_part request) ''idempotency_key'' = fld request ''idempotency_key''"
  "fld (boundary_part request) ''repository_id'' = fld request ''repository_id''"
  "fld (boundary_part request) ''base_branch'' = fld request ''base_branch''"
  by (simp_all add: boundary_part_def boundary_fields_def)

section \<open>Preparing a derived intent\<close>

text \<open>The texts of an intent derived from a seed.\<close>

lemma derived_texts:
  assumes "derive_publication_intent (Some s) (PStr b) (PStr q) = Inr i"
  obtains p repo d t where "pi_process_id i = PStr p" "p \<noteq> []" "pi_repository_id i = PStr repo" "repo \<noteq> []"
    "pi_staged_change_digest i = PStr d" "is_digest d" "pi_branch i = PStr b" "pi_base_branch i = PStr q"
    "b = branch_prefix @ t" "t \<noteq> []" "q \<noteq> []" "validate_publication_base_branch (PStr q) = Inr ()"
    "pi_idempotency_key i = PStr (key_text b q d)" "\<not> has_surrogate (removeprefix branch_prefix b)"
    "publication_idempotency_key (PStr b) q d = Inr (key_text b q d)"
  using assms
proof (cases rule: derive_Inr)
  case (1 s' b' q')
  from 1(12) have v: "validate_branch (PStr b) = Inr ()" "validate_publication_base_branch (PStr q) = Inr ()"
    "nonempty_str (pi_process_id i)" "nonempty_str (pi_repository_id i)" "\<not> has_surrogate (removeprefix branch_prefix b)"
    "\<exists>d. pi_staged_change_digest i = PStr d \<and> is_digest d"
    using 1 by (auto simp: check_intent_Inr validate_identity_Inr validate_digest_Inr key_Inr)
  from v(6) obtain d where d: "pi_staged_change_digest i = PStr d" "is_digest d" by blast
  from v(3,4) obtain p repo where p: "pi_process_id i = PStr p" "p \<noteq> []" "pi_repository_id i = PStr repo" "repo \<noteq> []"
    by (auto simp: nonempty_str_iff)
  from validate_branch_Inr [OF v(1)] obtain t where t: "b = branch_prefix @ t" "t \<noteq> []" by auto
  have "sd_staged_change_digest s' = PStr d" using 1 d(1) by simp
  then have k: "pi_idempotency_key i = PStr (key_text b q d)" using 1 by simp
  have "publication_idempotency_key (PStr b) q d = Inr (key_text b q d)" using v(5) t validate_base_Inr [OF v(2)] by (simp add: key_Inr)
  moreover have "q \<noteq> []" using v(2) by (auto dest: validate_base_Inr)
  ultimately show ?thesis using that [OF p d _ _ t _ v(2) k v(5)] 1 by simp
qed

text \<open>The journal inserts the row of a derived intent.\<close>

lemma derived_prepares:
  assumes "derive_publication_intent (Some s) (PStr b) (PStr q) = Inr i" "is_utf8 b" "is_utf8 q"
    and "is_digest rd" "\<not> has_surrogate (str_of (pi_process_id i))" "\<not> has_surrogate (str_of (pi_repository_id i))"
    and "str_of (pi_process_id i) \<notin> jr_process_id ` set j" "str_of (pi_idempotency_key i) \<notin> jr_idempotency_key ` set j"
    and "files = PNone \<or> (\<exists>fd. files = PStr fd \<and> is_digest fd)"
  shows "prepare (pi_process_id i) (pi_idempotency_key i) (PStr rd) (pi_repository_id i) files j =
    (Inr (fresh_attempt (str_of (pi_process_id i)) (str_of (pi_idempotency_key i)) rd (str_of (pi_repository_id i)) q (opt_text files)),
     j @ [fresh_attempt (str_of (pi_process_id i)) (str_of (pi_idempotency_key i)) rd (str_of (pi_repository_id i)) q (opt_text files)])"
proof -
  obtain p repo d t where a: "pi_process_id i = PStr p" "p \<noteq> []" "pi_repository_id i = PStr repo" "repo \<noteq> []"
    "pi_staged_change_digest i = PStr d" "is_digest d" "b = branch_prefix @ t" "t \<noteq> []"
    "validate_publication_base_branch (PStr q) = Inr ()" "pi_idempotency_key i = PStr (key_text b q d)"
    "\<not> has_surrogate (removeprefix branch_prefix b)"
    using derived_texts [OF assms(1)] by metis
  have "parse_key (key_text b q d) = Inr q"
    unfolding a(7) using assms(2,3) a is_utf8_branch by (intro parse_key_text) auto
  moreover have "\<not> has_surrogate (key_text b q d)"
    using a(6) by (intro no_surrogate_ascii) (simp add: key_text_def ascii_digest ascii_quoted)
  moreover have "rd \<noteq> []" using assms(4) by (rule is_digest_nonempty)
  moreover have "check_prepare (pi_process_id i) (pi_idempotency_key i) (PStr rd) (pi_repository_id i) files = Inr q"
    using a assms(4,9) calculation by (auto simp: check_prepare_def key_text_nonempty)
  ultimately show ?thesis
    using a assms(5-8)
    by (auto simp add: prepare_def get_attempt_def bind_text_def attempt_of_None [THEN iffD2]
        insert_attempt_def fresh_attempt_def list_ex_iff image_iff ebind_def opt_text_def attempt_of_append)
qed

section \<open>Properties\<close>

text \<open>
  Claim C18: the journal refines the attempt machine. Over any sequence of calls, whatever their arguments,
  a row that exists stays, keeps its process, key, request digest, repository and base branch, and moves
  only along prepared, attempting, reconciliation required, completed; a completed row never
  changes again; and the table keeps one row per process and per key with a receipt number exactly
  on completed rows.
\<close>

theorem journal_refines_attempt_machine:
  assumes "journal_ok j" "attempt_of j p = Some r"
  shows "\<exists>r'. attempt_of (fold (run_call ok) calls j) p = Some r' \<and> attempt_step\<^sup>*\<^sup>* r r' \<and>
    attempt_identity r' = attempt_identity r \<and> (jr_status r = Completed \<longrightarrow> r' = r) \<and>
    journal_ok (fold (run_call ok) calls j)"
proof -
  have run: "journal_ok (fold (run_call ok) calls j)" "advances p j (fold (run_call ok) calls j)"
    using run_calls_advance [OF assms(1)] by blast+
  then obtain r' where "attempt_of (fold (run_call ok) calls j) p = Some r'" "attempt_step\<^sup>*\<^sup>* r r'"
    using assms(2) by (auto simp: advances_def)
  with run(1) steps_identity steps_completed show ?thesis by blast
qed

theorem journal_refines_attempt_machine_witness:
  "\<exists>r'. attempt_of (fold (run_call (\<lambda>_. True)) [MarkAttempting (PStr ''process-1''),
       MarkReconciliation (PStr ''process-1'')] [prepared_attempt]) ''process-1'' = Some r' \<and>
     attempt_step\<^sup>*\<^sup>* prepared_attempt r'"
proof -
  have "attempt_of [prepared_attempt] ''process-1'' = Some prepared_attempt" by (simp add: prepared_attempt_sel)
  from journal_refines_attempt_machine [OF prepared_journal_ok this] show ?thesis by blast
qed

text \<open>
  Claim C17: at most one external call. Whatever sequence of journal calls, executions (crashing after the
  effect or not) and recoveries runs, with whatever endpoint, hook and requests, the endpoint's publish
  method is called at most once for a process, and never when the process has already left
  the prepared state.
\<close>

theorem at_most_one_external_call:
  assumes "journal_ok j"
  shows "calls_for sys p cmds (w, j) \<le> (case attempt_of j p of None \<Rightarrow> 1 | Some r \<Rightarrow> if jr_status r = Prepared then 1 else 0)"
  using calls_bounded [OF assms] unfolding open_for_def .

theorem at_most_one_external_call_witness:
  "calls_for (\<lambda>_. True, typed_publish publish_pull_request, typed_find find_by_idempotency_key, NoHook) ''process-1''
     [Execute attempt_request True, Recover (PStr ''process-1''), Execute attempt_request False]
     (([], []), [prepared_attempt]) \<le> 1"
  using at_most_one_external_call [OF prepared_journal_ok, of _ "''process-1''"]
  by (simp only: attempt_of_Cons prepared_attempt_sel option.case simp_thms if_True)

text \<open>
  Claim C19: a crash after the effect is recovered. When the mock endpoint published the request of a
  prepared process and the process crashed before recording the receipt, recovery finds the pull
  request by its key, completes the row with its number and leaves the endpoint as it is.
\<close>

theorem crashed_publication_recovers:
  assumes "journal_ok j" "endpoint_ok e" "attempt_of j p = Some r" "jr_status r = Prepared"
    and "check_execute True (NoHook :: endpoint hook) request = Inr ()" "fld request ''process_id'' = PStr p"
    and "fld request ''idempotency_key'' = PStr (jr_idempotency_key r)"
    and "fld request ''repository_id'' = PStr (jr_repository_id r)"
    and "jr_base_branch r = Some q" "fld request ''base_branch'' = PStr q"
    and "publish_pull_request (boundary_part request) e = (Inr pr, e')" "int (length e') < 2 ^ 63"
  shows "\<exists>j' r' j''.
    execute_publication ok (Some (typed_publish publish_pull_request)) NoHook request True (e, j) = (Inl crashed, e', j') \<and>
    recover_publication ok (Some (typed_find find_by_idempotency_key)) (PStr p) (e', j') = (Inr r', e', j'') \<and>
    jr_status r' = Completed \<and> jr_pull_request_id r' = Some (pr_id pr) \<and> pr \<in> endpoint_receipts e' \<and>
    attempt_identity r' = attempt_identity r"
proof -
  let ?att = "r\<lparr>jr_status := Attempting\<rparr>"
  from set_status_Inr [OF assms(1,3,4), of Attempting] obtain j1 where
    m: "mark_attempting (PStr p) j = (Inr (), j1)" and a1: "attempt_of j1 p = Some ?att"
    by (auto simp: mark_attempting_def)
  have ok1: "journal_ok j1" using run_call_follows [OF assms(1), of "MarkAttempting (PStr p)"] m by simp
  have exec: "execute_publication ok (Some (typed_publish publish_pull_request)) NoHook request True (e, j) = (Inl crashed, e', j1)"
    by (rule execute_crashes [OF assms(5,6) get_attempt_stored [OF assms(1,3)] assms(4) m])
      (simp add: assms(11) typed_publish_def ebind_def eret_def)
  from mock.publish_receipt [OF assms(2,11)] have e': "endpoint_ok e'" "publishes pr (boundary_part request)"
    "pr \<in> endpoint_receipts e'" by auto
  have chk: "check_publish_request (boundary_part request) = Inr ()" using publish_Inr [OF assms(11)] by blast
  have key: "jr_idempotency_key r = pr_idempotency_key pr" "jr_repository_id r = pr_repository_id pr"
    "jr_base_branch r = Some (pr_base_branch pr)" "q = pr_base_branch pr"
    using e'(2) assms(7-10) by (auto simp: publishes_def boundary_sel)
  have q: "q \<noteq> []" using chk assms(10) by (auto simp: boundary_sel elim!: check_publish_request_Inr dest: validate_base_Inr)
  have lookup: "typed_find find_by_idempotency_key (PStr (jr_idempotency_key r)) (PStr (jr_repository_id r)) (PStr q) e'
      = (Inr (Some (mock_receipt pr)), e')"
    using mock.find_published [OF e'(1,3)] by (simp add: typed_find_def key)
  have "receipt_matches ?att (mock_receipt pr) = Inr ()"
    by (rule mock_receipt_matches [OF e'(1,3)]) (use key in simp_all)
  moreover have "receipt_shape ok (mock_receipt pr) = Inr ()" "bind_int (int_of (rc_id (mock_receipt pr))) = Inr ()"
    using mock_receipt_accepted [OF e'(1,3) chk e'(2)] assms(12) by (simp_all add: bind_int_def mock_receipt_def)
  moreover have "bind_text (str_of (rc_url (mock_receipt pr))) = Inr ()"
    by (simp add: bind_text_def mock_receipt_def has_surrogate_def any_char_def)
  ultimately obtain j2 where c: "mark_completed ok (PStr p) (mock_receipt pr) j1 = (Inr (), j2)"
    and a2: "attempt_of j2 p = Some (?att\<lparr>jr_status := Completed, jr_pull_request_id := Some (pr_id pr),
      jr_pull_request_url := None\<rparr>)"
    using complete_on [OF ok1 a1, of Attempting ok "mock_receipt pr"]
    by (auto simp: mark_completed_def mock_receipt_def opt_text_def)
  have ok2: "journal_ok j2" using complete_advances [OF c ok1] by blast
  have g: "get_attempt (PStr p) j1 = Inr ?att"
    "get_attempt (PStr p) j2 = Inr (?att\<lparr>jr_status := Completed, jr_pull_request_id := Some (pr_id pr),
      jr_pull_request_url := None\<rparr>)"
    using get_attempt_stored [OF ok1 a1] get_attempt_stored [OF ok2 a2] by blast+
  have "recover_publication ok (Some (typed_find find_by_idempotency_key)) (PStr p) (e', j1) =
      (Inr (?att\<lparr>jr_status := Completed, jr_pull_request_id := Some (pr_id pr), jr_pull_request_url := None\<rparr>), e', j2)"
    using g c q lookup assms(9) by (simp add: recover_publication_def recover_attempting_def)
  with exec e'(3) show ?thesis
    by (intro exI [of _ j1] exI [of _ "?att\<lparr>jr_status := Completed, jr_pull_request_id := Some (pr_id pr),
      jr_pull_request_url := None\<rparr>"] exI [of _ j2]) (simp add: attempt_identity_def)
qed

theorem crashed_publication_recovers_witness:
  "\<exists>j' r' j'' e'. recover_publication (\<lambda>_. True) (Some (typed_find find_by_idempotency_key)) (PStr ''process-1'')
     (e', j') = (Inr r', e', j'') \<and> jr_status r' = Completed \<and> jr_pull_request_id r' = Some 1"
proof -
  have "attempt_of [prepared_attempt] ''process-1'' = Some prepared_attempt" by (simp add: prepared_attempt_sel)
  from crashed_publication_recovers [OF prepared_journal_ok endpoint_ok_empty this _ attempt_request_checked _ _ _ _ _
      sample_publish [folded attempt_request_boundary], of "''main''" "\<lambda>_. True"]
  show ?thesis by (auto simp: prepared_attempt_sel attempt_request_def sample_publication_def attempt_key_def pull_request_of_def)
qed

text \<open>
  Claim C20: an outcome that stays unknown is an error, not a retry. Recovering an attempting row whose
  pull request the endpoint does not know raises and marks the row; from then on every execution of
  the process and every recovery raises and changes neither endpoint nor journal.
\<close>

theorem unknown_outcome_stays_closed:
  assumes "journal_ok j" "endpoint_ok e" "attempt_of j p = Some r" "jr_status r = Attempting"
    and "jr_base_branch r = Some q" "q \<noteq> []" "find_by_idempotency_key (PStr (jr_idempotency_key r))
      (PStr (jr_repository_id r)) (PStr q) e = Inr None"
  shows "\<exists>j'. recover_publication ok (Some (typed_find find_by_idempotency_key)) (PStr p) (e, j) = (Inl recovery_required, e, j') \<and>
    attempt_of j' p = Some (r\<lparr>jr_status := ReconciliationRequired\<rparr>) \<and>
    recover_publication ok (Some (typed_find find_by_idempotency_key)) (PStr p) (e, j') = (Inl recovery_required, e, j') \<and>
    (\<forall>request crash publish. fld request ''process_id'' \<noteq> PStr p \<or>
      (\<exists>x. execute_publication ok (Some publish) NoHook request crash (e, j') = (Inl x, e, j')))"
proof -
  from set_status_Inr [OF assms(1,3,4), of ReconciliationRequired] obtain j' where
    m: "mark_reconciliation_required (PStr p) j = (Inr (), j')"
    and a: "attempt_of j' p = Some (r\<lparr>jr_status := ReconciliationRequired\<rparr>)"
    by (auto simp: mark_reconciliation_required_def)
  have ok': "journal_ok j'" using run_call_follows [OF assms(1), of "MarkReconciliation (PStr p)"] m by simp
  have g: "get_attempt (PStr p) j = Inr r" "get_attempt (PStr p) j' = Inr (r\<lparr>jr_status := ReconciliationRequired\<rparr>)"
    using get_attempt_stored [OF assms(1,3)] get_attempt_stored [OF ok' a] by blast+
  have "recover_publication ok (Some (typed_find find_by_idempotency_key)) (PStr p) (e, j) = (Inl recovery_required, e, j')"
    "recover_publication ok (Some (typed_find find_by_idempotency_key)) (PStr p) (e, j') = (Inl recovery_required, e, j')"
    using g m assms(4-7) by (simp_all add: recover_publication_def recover_attempting_def give_up_def typed_find_def)
  moreover have "\<exists>x. execute_publication ok (Some publish) NoHook request crash (e, j') = (Inl x, e, j')"
    if "fld request ''process_id'' = PStr p" for request crash and publish :: "pyval \<Rightarrow> (endpoint, receipt) eff"
    using that g(2) by (cases "check_execute True (NoHook :: endpoint hook) request") (simp_all add: execute_publication_def)
  ultimately show ?thesis using a by blast
qed

theorem unknown_outcome_stays_closed_witness:
  "\<exists>j'. recover_publication (\<lambda>_. True) (Some (typed_find find_by_idempotency_key)) (PStr ''process-1'')
     ([], [prepared_attempt\<lparr>jr_status := Attempting\<rparr>]) = (Inl recovery_required, [], j')"
proof -
  let ?r = "prepared_attempt\<lparr>jr_status := Attempting\<rparr>"
  have "journal_ok [?r]"
    by (simp add: journal_ok_def attempt_ok_def prepared_attempt_def fresh_attempt_def attempt_key_parses sample_digest text_eval)
  moreover have "attempt_of [?r] ''process-1'' = Some ?r" "jr_base_branch ?r = Some ''main''" by (simp_all add: prepared_attempt_sel)
  moreover have "find_by_idempotency_key (PStr (jr_idempotency_key ?r)) (PStr (jr_repository_id ?r)) (PStr ''main'') [] = Inr None"
    using key_text_long by (simp add: find_by_idempotency_key_def prepared_attempt_sel attempt_key_def key_text_nonempty key_text_namespace)
  ultimately show ?thesis using unknown_outcome_stays_closed [OF _ endpoint_ok_empty, of "[?r]" "''process-1''" ?r "''main''" "\<lambda>_. True"]
    by simp blast
qed

text \<open>
  Keys survive the round trip through the journal. The key of an intent derived on UTF-8 branch
  names is canonical for the journal: preparing an attempt with it inserts exactly one row, and the
  base branch the journal reads back out of the key by unquoting is the intent's base branch.
\<close>

theorem derived_key_prepares:
  assumes "derive_publication_intent (Some s) (PStr b) (PStr q) = Inr i" "is_utf8 b" "is_utf8 q"
    and "is_digest rd" "\<not> has_surrogate (str_of (pi_process_id i))" "\<not> has_surrogate (str_of (pi_repository_id i))"
    and "str_of (pi_process_id i) \<notin> jr_process_id ` set j" "str_of (pi_idempotency_key i) \<notin> jr_idempotency_key ` set j"
  shows "\<exists>r. prepare (pi_process_id i) (pi_idempotency_key i) (PStr rd) (pi_repository_id i) PNone j = (Inr r, j @ [r]) \<and>
    jr_base_branch r = Some q \<and> jr_status r = Prepared \<and> PStr (jr_idempotency_key r) = pi_idempotency_key i"
proof -
  obtain k where "pi_idempotency_key i = PStr k" using derived_texts [OF assms(1)] by metis
  then show ?thesis using derived_prepares [OF assms, of PNone] by (simp add: fresh_attempt_def opt_text_def)
qed

theorem derived_key_prepares_witness:
  "\<exists>r. prepare (PStr ''process-1'') (PStr attempt_key) (PStr sample_digest) (PStr ''owner/project'') PNone [] = (Inr r, [r])"
proof -
  have "is_utf8 ''agent/x''" "is_utf8 ''main''" by (simp_all add: is_utf8_ascii)
  moreover have "\<not> has_surrogate (str_of (pi_process_id sample_intent))" "\<not> has_surrogate (str_of (pi_repository_id sample_intent))"
    by (simp_all add: sample_intent_def text_eval)
  ultimately show ?thesis
    using derived_key_prepares [OF sample_derive _ _ sample_digest(1), of "[]"]
    by (auto simp: sample_intent_def attempt_key_def)
qed

end
