(* ===== verification/Controlled_Authority.thy ===== *)
theory Controlled_Authority
  imports Controlled_Safety Publication_Safety
begin

text \<open>
  What a controlled publication needs: steps that leave the journal alone, and for each gate of the
  coordinator what must have passed when the journal did change.
\<close>

section \<open>Steps that leave the journal alone\<close>

definition journal_frame :: "('e \<times> journal, 'a) eff \<Rightarrow> bool" where
  "journal_frame m \<longleftrightarrow> (\<forall>e j r e' j'. m (e, j) = (r, e', j') \<longrightarrow> j' = j)"

lemma journal_frameD: "journal_frame m \<Longrightarrow> m (e, j) = (r, e', j') \<Longrightarrow> j' = j"
  unfolding journal_frame_def by blast

lemma journal_frame_elift: "journal_frame (elift m)"
  by (simp add: journal_frame_def)

lemma journal_frame_on_env: "journal_frame (on_env m)"
  by (auto simp: journal_frame_def on_env_def split: prod.splits)

lemma journal_frame_observed:
  assumes "journal_frame m"
  shows "journal_frame (observed (map_option env_observer observer) step pid m)"
proof (cases observer)
  case None
  with assms show ?thesis by simp
next
  case (Some ob)
  show ?thesis
    unfolding journal_frame_def Some
    by (auto simp: env_observer_def ebind_def on_env_def split: prod.splits sum.splits dest: journal_frameD [OF assms])
qed

text \<open>If the journal changed, a framed first step succeeded and the rest changed it.\<close>

lemma ebind_changed:
  assumes "ebind m f (e, j) = (r, e', j')" "j' \<noteq> j" "journal_frame m"
  obtains x e1 where "m (e, j) = (Inr x, e1, j)" "f x (e1, j) = (r, e', j')"
proof -
  obtain r1 e1 j1 where m: "m (e, j) = (r1, e1, j1)" by (cases "m (e, j)")
  with assms(3) have "j1 = j" by (rule journal_frameD)
  with m assms(1,2) that show ?thesis by (cases r1) (auto simp: ebind_def)
qed

lemma elift_changed:
  assumes "ebind (elift m) f (e, j) = (r, e', j')" "j' \<noteq> j"
  obtains x where "m = Inr x" "f x (e, j) = (r, e', j')"
  using assms by (cases m) (auto simp: ebind_def)

lemma eunless_changed:
  assumes "eunless b x k (e, j) = (r, e', j')" "j' \<noteq> j"
  shows "\<not> b \<and> k (e, j) = (r, e', j')"
  using assms by (auto simp: eunless_def split: if_splits)

lemma observed_Inr:
  assumes "observed observer step pid m w = (Inr x, w')"
  shows "\<exists>w0 w1. m w0 = (Inr x, w1)"
  using assms by (cases observer) (auto simp: ebind_def split: prod.splits sum.splits)

lemma observed_elift: "observed observer step pid (elift m) w = (Inr x, w') \<Longrightarrow> m = Inr x"
  by (drule observed_Inr) simp

text \<open>The gateway itself answered with the decision that passed, and the broker itself opened the channel.\<close>

lemma authorized:
  assumes "observed observer step pid (authorize_gateway gw envelope moment) w = (Inr g, w')"
  shows "gateway_allows g \<and> (\<exists>w0 w1. gw envelope (NowAt moment) w0 = (Inr (Some g), w1))"
proof -
  from observed_Inr [OF assms] obtain w0 w1 where "authorize_gateway gw envelope moment w0 = (Inr g, w1)" by blast
  then show ?thesis
    by (auto simp: authorize_gateway_def ebind_def ecatch_def eunless_def split: option.splits sum.splits prod.splits if_splits)
qed

lemma load_stage_Inr:
  assumes "load_stage ld s w = (Inr staged, w')"
  shows "ld s w = (Inr staged, w') \<and> is_dict staged"
  using assms
  by (auto simp: load_stage_def ebind_def ecatch_def eunless_def split: sum.splits prod.splits if_splits)

lemma opened_channel:
  assumes "open_channel broker_open observer i grant actuator moment w = (Inr c, w')"
  shows "\<exists>w0 w1. broker_open grant (actuator_request_of i actuator) (NowAt moment) w0 = (Inr c, w1)"
  using assms observed_Inr [of observer]
  by (auto simp: open_channel_def ecatch_def split: sum.splits prod.splits)

text \<open>What the three stages of the broker gate leave behind when the journal changed.\<close>

lemma open_changed:
  assumes "open_after_policy s engine gateway envelope broker_open grant actuator moment proceed observer i approval decision
      (e, j) = (r, e', j')" "j' \<noteq> j"
  shows "require_bound_envelope i envelope = Inr () \<and>
    (\<exists>gw g w0 w1. gateway = Some gw \<and> gw envelope (NowAt moment) w0 = (Inr (Some g), w1) \<and> gateway_allows g) \<and>
    (\<exists>c w0 w1. broker_open grant (actuator_request_of i actuator) (NowAt moment) w0 = (Inr c, w1))"
proof -
  from assms obtain gw where gw: "gateway = Some gw" by (cases gateway) (auto simp: open_after_policy_def)
  let ?opened = "\<lambda>g. ebind (on_env (open_channel broker_open observer i grant actuator moment)) (\<lambda>c.
          ebind (on_journal (prepare_publication_journal s i approval engine decision g (NowAt moment))) (\<lambda>_.
          proceed i approval decision g c))"
  let ?asked = "observed observer ''Gateway.authorize'' (pi_process_id i) (authorize_gateway gw envelope moment)"
  from assms(1)
  have run: "ebind (elift (require_bound_envelope i envelope)) (\<lambda>_. ebind (on_env ?asked) ?opened) (e, j) = (r, e', j')"
    by (simp add: open_after_policy_def gw)
  obtain x where
    1: "require_bound_envelope i envelope = Inr x" and
    run1: "ebind (on_env ?asked) ?opened (e, j) = (r, e', j')"
    by (rule elift_changed [OF run assms(2)]) (rule that)
  obtain g e2 where
    2: "on_env ?asked (e, j) = (Inr g, e2, j)" and
    run2: "?opened g (e2, j) = (r, e', j')"
    by (rule ebind_changed [OF run1 assms(2) journal_frame_on_env]) (rule that)
  obtain c e3 where
    3: "on_env (open_channel broker_open observer i grant actuator moment) (e2, j) = (Inr c, e3, j)"
    by (rule ebind_changed [OF run2 assms(2) journal_frame_on_env]) (rule that)
  have "?asked e = (Inr g, e2)" using 2 by (auto simp: on_env_def split: prod.splits)
  moreover have "open_channel broker_open observer i grant actuator moment e2 = (Inr c, e3)"
    using 3 by (auto simp: on_env_def split: prod.splits)
  ultimately show ?thesis using authorized opened_channel 1 gw by (metis (lifting) old.unit.exhaust)
qed

lemma policy_changed:
  assumes "run_policy_gate (Some i) approval (Some po) engine staged did actuator now proceed
      (map_option env_observer observer) (e, j) = (r, e', j')" "j' \<noteq> j"
  obtains moment decision e1 where "policy_checks i approval engine staged did actuator now = Inr moment"
    "evaluate_policy po i approval engine staged did actuator moment = Inr decision"
    "proceed i approval decision (e1, j) = (r, e', j')"
proof -
  let ?eval = "\<lambda>moment. elift (evaluate_policy po i approval engine staged did actuator moment)"
  from assms have run: "ebind (elift (policy_checks i approval engine staged did actuator now)) (\<lambda>moment.
       ebind (observed (map_option env_observer observer) ''PolicyEngine.evaluate'' (pi_process_id i) (?eval moment))
         (\<lambda>decision. proceed i approval decision)) (e, j) = (r, e', j')"
    by (auto simp: run_policy_gate_def dest: eunless_changed)
  obtain moment where
    1: "policy_checks i approval engine staged did actuator now = Inr moment" and
    run1: "ebind (observed (map_option env_observer observer) ''PolicyEngine.evaluate'' (pi_process_id i) (?eval moment))
         (\<lambda>decision. proceed i approval decision) (e, j) = (r, e', j')"
    by (rule elift_changed [OF run assms(2)]) (rule that)
  obtain decision e2 where
    2: "observed (map_option env_observer observer) ''PolicyEngine.evaluate'' (pi_process_id i) (?eval moment) (e, j) = (Inr decision, e2, j)"
    "proceed i approval decision (e2, j) = (r, e', j')"
    by (rule ebind_changed [OF run1 assms(2) journal_frame_observed [OF journal_frame_elift]]) (rule that)
  show ?thesis by (rule that [OF 1 observed_elift [OF 2(1)] 2(2)])
qed

lemma broker_changed:
  assumes "run_broker_gate (Some i) approval (Some po) engine staged did gateway envelope (Some broker_open) grant actuator now
      proceed (Some s) observer (e, j) = (r, e', j')" "j' \<noteq> j"
  obtains moment m decision where "check_grant i grant actuator now = Inr moment"
    "policy_checks i approval engine staged did actuator (NowAt moment) = Inr m"
    "evaluate_policy po i approval engine staged did actuator m = Inr decision"
    "require_bound_envelope i envelope = Inr ()"
    "\<exists>gw g w0 w1. gateway = Some gw \<and> gw envelope (NowAt moment) w0 = (Inr (Some g), w1) \<and> gateway_allows g"
    "\<exists>c w0 w1. broker_open grant (actuator_request_of i actuator) (NowAt moment) w0 = (Inr c, w1)"
proof -
  from assms(1) have run: "ebind (elift (check_grant i grant actuator now)) (\<lambda>moment.
          run_policy_gate (Some i) approval (Some po) engine staged did actuator (NowAt moment)
            (open_after_policy s engine gateway envelope broker_open grant actuator moment proceed observer)
            (map_option env_observer observer)) (e, j) = (r, e', j')"
    by (simp add: run_broker_gate_def)
  obtain moment where
    1: "check_grant i grant actuator now = Inr moment" and
    run1: "run_policy_gate (Some i) approval (Some po) engine staged did actuator (NowAt moment)
            (open_after_policy s engine gateway envelope broker_open grant actuator moment proceed observer)
            (map_option env_observer observer) (e, j) = (r, e', j')"
    by (rule elift_changed [OF run assms(2)]) (rule that)
  from policy_changed [OF run1 assms(2)] obtain m decision e2 where
    2: "policy_checks i approval engine staged did actuator (NowAt moment) = Inr m"
    "evaluate_policy po i approval engine staged did actuator m = Inr decision"
    "open_after_policy s engine gateway envelope broker_open grant actuator moment proceed observer i approval decision
      (e2, j) = (r, e', j')" by blast
  note 3 = open_changed [OF 2(3) assms(2)]
  show ?thesis by (rule that [OF 1 2(1,2)]) (use 3 in blast)+
qed

lemma approval_changed:
  assumes "run_approval_gate (Some i) approval engine now proceed (map_option env_observer observer) (e, j) = (r, e', j')" "j' \<noteq> j"
  obtains moment e1 where "cp_clock now = Inr moment" "approval_step i approval engine moment = Inr ()"
    "proceed i (e1, j) = (r, e', j')"
proof -
  let ?step = "\<lambda>moment. elift (approval_step i approval engine moment)"
  from assms have run: "ebind (elift (cp_clock now)) (\<lambda>moment.
       ebind (observed (map_option env_observer observer) ''Approval.validate'' (pi_process_id i) (?step moment))
         (\<lambda>_. proceed i)) (e, j) = (r, e', j')"
    by (auto simp: run_approval_gate_def dest: eunless_changed)
  obtain moment where
    1: "cp_clock now = Inr moment" and
    run1: "ebind (observed (map_option env_observer observer) ''Approval.validate'' (pi_process_id i) (?step moment))
         (\<lambda>_. proceed i) (e, j) = (r, e', j')"
    by (rule elift_changed [OF run assms(2)]) (rule that)
  obtain x e2 where
    2: "observed (map_option env_observer observer) ''Approval.validate'' (pi_process_id i) (?step moment) (e, j) = (Inr x, e2, j)"
    "proceed i (e2, j) = (r, e', j')"
    by (rule ebind_changed [OF run1 assms(2) journal_frame_observed [OF journal_frame_elift]]) (rule that)
  from observed_elift [OF 2(1)] 1 2(2) show ?thesis by (auto intro: that)
qed

lemma coordinator_changed:
  assumes "run_controlled_local_publication ok seed intent approval policy engine load did gateway envelope pv grant files
      actuator now observer (e, j) = (r, e', j')" "j' \<noteq> j"
  obtains s i po ld manifest moment1 staged moment m decision where "seed = Some s" "intent = Some i" "policy = Some po"
    "load = Some ld" "check_collaborators s i pv files = Inr manifest" "cp_clock now = Inr moment1"
    "approval_step i approval engine moment1 = Inr ()" "\<exists>w w'. ld s w = (Inr staged, w')"
    "check_grant i grant actuator now = Inr moment"
    "policy_checks i approval engine staged did actuator (NowAt moment) = Inr m"
    "evaluate_policy po i approval engine staged did actuator m = Inr decision"
    "require_bound_envelope i envelope = Inr ()"
    "\<exists>gw g w0 w1. gateway = Some gw \<and> gw envelope (NowAt moment) w0 = (Inr (Some g), w1) \<and> gateway_allows g"
    "\<exists>c w0 w1. pv_open pv grant (actuator_request_of i actuator) (NowAt moment) w0 = (Inr c, w1)"
proof -
  from assms obtain s i po ld where a: "seed = Some s" "intent = Some i" "policy = Some po" "load = Some ld"
    by (cases seed; cases intent; cases policy; cases load) (auto simp: run_controlled_local_publication_def)
  let ?gated = "\<lambda>manifest i' staged provider_staged.
            run_broker_gate (Some i') approval (Some po) engine staged did gateway envelope (Some (pv_open pv)) grant
              actuator now (publish_after_broker ok pv manifest provider_staged observer) (Some s) observer"
  let ?after = "\<lambda>manifest i'. ebind (on_env (load_stage ld s)) (\<lambda>staged.
            ebind (elift (bind_stage_repository_identity s i staged)) (?gated manifest i' staged))"
  from assms(1) have run: "ebind (elift (check_collaborators s i pv files)) (\<lambda>manifest.
          run_approval_gate (Some i) approval engine now (?after manifest) (map_option env_observer observer)) (e, j) = (r, e', j')"
    by (simp add: run_controlled_local_publication_def a)
  obtain manifest where
    1: "check_collaborators s i pv files = Inr manifest" and
    run1: "run_approval_gate (Some i) approval engine now (?after manifest) (map_option env_observer observer) (e, j) = (r, e', j')"
    by (rule elift_changed [OF run assms(2)]) (rule that)
  from approval_changed [OF run1 assms(2)] obtain moment1 e2 where
    2: "cp_clock now = Inr moment1" "approval_step i approval engine moment1 = Inr ()"
    and run2: "?after manifest i (e2, j) = (r, e', j')" by blast
  obtain staged e3 where
    3: "on_env (load_stage ld s) (e2, j) = (Inr staged, e3, j)" and
    run3: "ebind (elift (bind_stage_repository_identity s i staged)) (?gated manifest i staged) (e3, j) = (r, e', j')"
    by (rule ebind_changed [OF run2 assms(2) journal_frame_on_env]) (rule that)
  from 3 have loaded: "\<exists>w w'. ld s w = (Inr staged, w')"
    using load_stage_Inr by (fastforce simp: on_env_def split: prod.splits)
  obtain provider_staged where
    run4: "?gated manifest i staged provider_staged (e3, j) = (r, e', j')"
    by (rule elift_changed [OF run3 assms(2)]) (rule that)
  show ?thesis
    by (rule broker_changed [OF run4 assms(2)]) (rule that [OF a 1 2 loaded])
qed

text \<open>The facts behind the stages, at the one time of the run.\<close>

lemma cp_clock_Inr:
  assumes "cp_clock now = Inr m"
  obtains t where "now = NowAt t" "is_aware t" "instant m = instant t" "cp_clock (NowAt m) = Inr m"
proof (cases now)
  case (NowAt t)
  with assms have t: "is_aware t" "astimezone_utc t = Inr m" by (simp_all add: cp_clock_def)
  then have "m = \<lparr>wall = instant t, utc_offset = Some 0\<rparr>" "mk_utc (instant t) = Inr m"
    by (auto simp: astimezone_utc_def mk_utc_def)
  then have "cp_clock (NowAt m) = Inr m" "instant m = instant t"
    by (simp_all add: cp_clock_def is_aware_def astimezone_utc_def instant_def)
  then show thesis by (intro that [OF NowAt t(1)])
qed (use assms in \<open>simp_all add: cp_clock_def\<close>)

lemma not_expired_Inr:
  "not_expired label (fld v ''expires_at'') m message = Inr u \<Longrightarrow> expires_after v m"
  by (auto simp: not_expired_def cp_expiry_def Let_def expires_after_def is_str_iff rcatch_Inr)

lemma engine_matches_Inr:
  assumes "engine_matches True i engine"
  shows "(\<forall>k\<in>{''process_id'', ''repository_id'', ''base_commit'', ''staged_change_digest'', ''idempotency_key'',
      ''source_repository_id''}. py_eq (fld engine k) (fld (intent_dict i) k)) \<and>
    fld engine ''operation'' = PStr ''publish_pull_request'' \<and>
    fld engine ''branch_namespace'' = PStr (branch_namespace i)"
  using assms by (simp add: engine_matches_def bound_fields_def) (simp add: intent_dict_def)

lemma require_bound_envelope_Inr:
  assumes "require_bound_envelope i envelope = Inr u"
  shows "fld (fld envelope ''intent'') ''operation'' = PStr ''publish_pull_request'' \<and>
    py_eq (fld (fld envelope ''destination'') ''repository_id'') (pi_repository_id i) \<and>
    py_eq (fld (fld envelope ''destination'') ''base_branch'') (pi_base_branch i) \<and>
    py_eq (fld (fld envelope ''source'') ''principal_id'') (pi_process_id i) \<and>
    py_eq (fld (fld envelope ''payload'') ''content_digest'') (pi_staged_change_digest i) \<and>
    py_eq (fld envelope ''correlation_id'') (pi_idempotency_key i)"
  using assms by (simp add: require_bound_envelope_def envelope_part_def)

lemma approval_step_Inr:
  "approval_step i approval engine moment = Inr u \<Longrightarrow> expires_after approval moment"
  by (auto simp: approval_step_def dest: not_expired_Inr)

lemma policy_checks_Inr:
  assumes "policy_checks i approval engine staged did actuator now = Inr m"
  shows "check_intent_approved engine approval = Inr () \<and> engine_matches True i engine \<and>
    (\<exists>d. sha256_digest staged = Inr d \<and> pi_staged_change_digest i = PStr d) \<and>
    cp_clock now = Inr m \<and> expires_after engine m"
proof -
  from assms obtain d where "rcatch (rbind (check_intent_approved engine approval) (\<lambda>_. sha256_digest staged))
       (\<lambda>_. Inl (cp_error ''approval binding is invalid'')) = Inr d" "py_eq (PStr d) (pi_staged_change_digest i)"
     "engine_matches True i engine"
    unfolding policy_checks_def by (simp only: unless_Inr rbind_Inr not_not) blast
  moreover from assms have "cp_clock now = Inr m" "expires_after engine m"
    unfolding policy_checks_def by (simp_all only: unless_Inr rbind_Inr not_not) (auto dest: not_expired_Inr)
  ultimately show ?thesis by (auto simp: rcatch_Inr split: pyval.splits)
qed

lemma evaluate_policy_Inr:
  assumes "evaluate_policy (ed, cfg, available) i approval engine staged did actuator m = Inr decision"
  shows "decide ed cfg available did (policy_request i engine actuator) approval staged engine (NowAt m) = Inr decision \<and>
    check_decision_usable decision (NowAt m) = Inr ()"
  using assms unfolding evaluate_policy_def by (simp only: prod.case unless_Inr rbind_Inr) auto

lemma usable_is_allow: "check_decision_usable d now = Inr u \<Longrightarrow> fld d ''effect'' = PStr ''allow''"
  unfolding check_decision_usable_def by (simp only: unless_Inr rbind_Inr) auto

lemma check_collaborators_Inr: "check_collaborators s i pv files = Inr manifest \<Longrightarrow> seed_matches s i"
  by (auto simp: check_collaborators_def require_seed_intent_binding_def split: broker_kind.splits if_splits)

lemma check_grant_Inr:
  assumes "check_grant i grant actuator now = Inr m"
  shows "cp_clock now = Inr m \<and> (\<exists>d. sha256_digest (actuator_request_of i actuator) = Inr d \<and> fld grant ''request_digest'' = PStr d) \<and>
    fld grant ''single_use'' = PBool True \<and> expires_after grant m \<and>
    py_eq (fld grant ''repository_id'') (pi_repository_id i) \<and>
    fld grant ''operation'' = PStr ''publish_pull_request'' \<and> py_eq (fld grant ''actuator_id'') actuator"
  using assms unfolding check_grant_def by (simp only: unless_Inr rbind_Inr not_not) (auto dest: not_expired_Inr)

end
