(* ===== verification/Controlled_Completion.thy ===== *)
theory Controlled_Completion
  imports Controlled_Authority
begin

text \<open>
  A request that every gate clears completes: the journal accepts what the gates cleared, the mock
  endpoint publishes it, and the row records its receipt. The second half runs this on a sample.
\<close>

section \<open>The journal accepts what the gates cleared\<close>

lemma policy_checks_clock:
  assumes "policy_checks i approval engine staged did actuator now = Inr m"
  shows "cp_clock now = Inr m \<and> is_dict engine \<and>
    not_expired ''approval'' (fld approval ''expires_at'') m ''approval expired'' = Inr ()"
  using assms unfolding policy_checks_def by (simp only: unless_Inr rbind_Inr not_not) auto

lemma evaluate_policy_fields:
  assumes "evaluate_policy po i approval engine staged did actuator m = Inr decision"
  shows "is_dict decision \<and> py_eq (fld decision ''operation'') (PStr ''publish_pull_request'') \<and>
    py_eq (fld decision ''repository_id'') (pi_repository_id i) \<and>
    py_eq (fld decision ''staged_change_digest'') (pi_staged_change_digest i) \<and>
    py_eq (fld decision ''policy_version'') (fld approval ''policy_version'') \<and>
    check_decision_usable decision (NowAt m) = Inr ()"
  using assms unfolding evaluate_policy_def by (cases po) (simp only: prod.case unless_Inr rbind_Inr not_not, auto)

lemma engine_matches_weaken: "engine_matches True i engine \<Longrightarrow> engine_matches False i engine"
  by (simp add: engine_matches_def)

lemma journal_accepts_cleared:
  assumes "seed_matches s i" "is_dict approval" "policy_checks i approval engine staged did actuator (NowAt t) = Inr m"
    "evaluate_policy po i approval engine staged did actuator m = Inr decision" "gateway_allows g"
  shows "journal_request_digest s i approval engine decision g (NowAt t) =
    rbind (sha256_digest (picked approval fingerprint_fields)) (\<lambda>fingerprint. sha256_digest (request_content s i fingerprint decision g))"
proof -
  note p = policy_checks_clock [OF assms(3)] policy_checks_Inr [OF assms(3)]
  note d = evaluate_policy_fields [OF assms(4)]
  have m: "engine_matches False i engine" using p engine_matches_weaken by blast
  show ?thesis
    using assms(1,2,5) p d m
    by (simp add: journal_request_digest_def require_seed_intent_binding_def rcatch_def del: py_eq.simps)
qed

lemma seed_matches_derived: "derive_publication_intent (Some s) b q = Inr i \<Longrightarrow> seed_matches s i"
  by (erule derive_Inr)
    (auto simp: seed_matches_def check_intent_Inr validate_identity_Inr validate_digest_Inr optional_target_Inr nonempty_str_iff
      mk_binding_Inr)

section \<open>The dispatch\<close>

lemma execute_completes:
  assumes "check_execute True (NoHook :: 'e hook) request = Inr ()" "fld request ''process_id'' = PStr p"
    "get_attempt (PStr p) j = Inr r" "jr_status r = Prepared" "mark_attempting (PStr p) j = (Inr (), j1)"
    "publish (boundary_part request) e = (Inr rc, e')" "mark_completed ok (PStr p) rc j1 = (Inr (), j2)"
  shows "execute_publication ok (Some publish) NoHook request False (e :: 'e, j) = (Inr rc, e', j2)"
proof -
  have "jr_process_id r = p" using assms(3) by (auto simp: get_attempt_Inr dest: attempt_of_Some)
  with assms show ?thesis by (simp add: execute_publication_def)
qed

text \<open>A prepared row, a receipt that fits it, and an endpoint that returns it.\<close>

lemma execute_completes_row:
  assumes "journal_ok j" "attempt_of j p = Some r" "jr_status r = Prepared"
    and "check_execute True (NoHook :: 'e hook) request = Inr ()" "fld request ''process_id'' = PStr p"
    and "publish (boundary_part request) e = (Inr rc, e')"
    and "receipt_shape ok rc = Inr ()" "receipt_matches (r\<lparr>jr_status := Attempting\<rparr>) rc = Inr ()"
    and "bind_int (int_of (rc_id rc)) = Inr ()" "bind_text (str_of (rc_url rc)) = Inr ()"
  shows "\<exists>j' r'. execute_publication ok (Some publish) NoHook request False (e :: 'e, j) = (Inr rc, e', j') \<and>
    attempt_of j' p = Some r' \<and> jr_status r' = Completed \<and> jr_pull_request_id r' = Some (int_of (rc_id rc)) \<and>
    attempt_identity r' = attempt_identity r"
proof -
  let ?att = "r\<lparr>jr_status := Attempting\<rparr>"
  from set_status_Inr [OF assms(1-3), of Attempting] obtain j1 where
    m: "mark_attempting (PStr p) j = (Inr (), j1)" and a1: "attempt_of j1 p = Some ?att"
    by (auto simp: mark_attempting_def)
  have ok1: "journal_ok j1" using run_call_follows [OF assms(1), of "MarkAttempting (PStr p)"] m by simp
  from complete_on [OF ok1 a1, of Attempting ok rc] assms(7-10) obtain j2 where
    c: "mark_completed ok (PStr p) rc j1 = (Inr (), j2)" and
    a2: "attempt_of j2 p = Some (?att\<lparr>jr_status := Completed, jr_pull_request_id := Some (int_of (rc_id rc)),
      jr_pull_request_url := opt_text (rc_url rc)\<rparr>)"
    by (auto simp: mark_completed_def)
  have "execute_publication ok (Some publish) NoHook request False (e, j) = (Inr rc, e', j2)"
    by (rule execute_completes) (use assms(3-6) get_attempt_stored [OF assms(1,2)] m c in blast)+
  with a2 show ?thesis by (auto simp: attempt_identity_def)
qed

section \<open>The request the coordinator sends to the mock endpoint\<close>

lemma ascii_prefix: "ascii branch_prefix"
  by (simp add: branch_prefix_def)

lemma publication_request_sel:
  "fld (publication_request i decision) ''process_id'' = pi_process_id i"
  "boundary_part (publication_request i decision) = PDict
     [(''operation'', PStr ''publish_pull_request''), (''repository_id'', pi_repository_id i), (''branch'', pi_branch i),
      (''base_branch'', pi_base_branch i), (''staged_change_digest'', pi_staged_change_digest i),
      (''idempotency_key'', pi_idempotency_key i), (''policy_effect'', fld decision ''effect''), (''approval_valid'', PBool True)]"
  by (simp_all add: publication_request_def boundary_part_def boundary_fields_def)

lemma derived_request_checked:
  assumes "derive_publication_intent (Some s) (PStr b) (PStr q) = Inr i" "fld decision ''effect'' = PStr ''allow''"
  shows "check_execute True (NoHook :: 'e hook) (publication_request i decision) = Inr ()"
    "check_publish_request (boundary_part (publication_request i decision)) = Inr ()"
proof -
  obtain p repo d t where a: "pi_process_id i = PStr p" "p \<noteq> []" "pi_repository_id i = PStr repo" "repo \<noteq> []"
    "pi_staged_change_digest i = PStr d" "is_digest d" "pi_branch i = PStr b" "pi_base_branch i = PStr q"
    "b = branch_prefix @ t" "t \<noteq> []" "q \<noteq> []" "validate_publication_base_branch (PStr q) = Inr ()"
    "pi_idempotency_key i = PStr (key_text b q d)" "\<not> has_surrogate (removeprefix branch_prefix b)"
    "publication_idempotency_key (PStr b) q d = Inr (key_text b q d)"
    using derived_texts [OF assms(1)] by metis
  have n: "b \<noteq> []" "d \<noteq> []" "key_text b q d \<noteq> []"
    using a(9,10) is_digest_nonempty [OF a(6)] by (auto simp: key_text_nonempty)
  have t: "0 < py_len t" using a(10) by (metis py_len_zero neq0_conv)
  have len: "py_len b > py_len branch_prefix" "startswith b branch_prefix"
    using a(9) t by (simp_all add: py_len_ascii_append [of branch_prefix] py_len_ascii [of branch_prefix] ascii_prefix startswith_iff)
  show "check_execute True (NoHook :: 'e hook) (publication_request i decision) = Inr ()"
    using a n assms(2)
    by (simp add: check_execute_def publication_request_def boundary_fields_def boundary_texts_def)
  show "check_publish_request (boundary_part (publication_request i decision)) = Inr ()"
    using a(1-8,11-13,15) n len assms(2)
    by (simp add: check_publish_request_def publication_request_sel keys_are_def request_keys_def
        text_keys_def require_base_branch_def)
qed

section \<open>Publishing and recording\<close>

text \<open>On a fresh key the mock endpoint publishes any request it accepts.\<close>

lemma publish_fresh:
  assumes "check_publish_request r = Inr ()" "map_of e (str_of (fld r ''idempotency_key'')) = None"
  shows "publish_pull_request r e = (Inr (pull_request_of (int (length e) + 1) r),
    e @ [(str_of (fld r ''idempotency_key''), pull_request_of (int (length e) + 1) r)])"
  using assms by (simp add: publish_pull_request_def pull_request_of_def Let_def)

text \<open>Dispatching a derived intent whose row is prepared, on the mock endpoint.\<close>

lemma dispatch_completes:
  assumes "derive_publication_intent (Some s) (PStr b) (PStr q) = Inr i" "fld decision ''effect'' = PStr ''allow''"
    and "pi_process_id i = PStr p" "attempt_of j p = Some r" "jr_status r = Prepared" "journal_ok j"
    and "PStr (jr_idempotency_key r) = pi_idempotency_key i" "PStr (jr_repository_id r) = pi_repository_id i"
    and "jr_base_branch r = Some q"
    and "endpoint_ok e" "map_of e (str_of (pi_idempotency_key i)) = None" "int (length e) + 1 < 2 ^ 63"
    and "pv_kind pv = InMemory" "pv_publish pv c = typed_publish publish_pull_request"
  shows "\<exists>pr e' j' r'. dispatch_publication ok pv c i staged files decision (e, j) = (Inr (mock_receipt pr), e', j') \<and>
    publishes pr (boundary_part (publication_request i decision)) \<and> pr \<in> endpoint_receipts e' \<and> endpoint_ok e' \<and>
    attempt_of j' p = Some r' \<and> jr_status r' = Completed \<and> jr_pull_request_id r' = Some (pr_id pr) \<and>
    attempt_identity r' = attempt_identity r"
proof -
  let ?req = "publication_request i decision"
  let ?br = "boundary_part ?req"
  note chk = derived_request_checked [OF assms(1,2)]
  have k: "fld ?br ''idempotency_key'' = pi_idempotency_key i" "fld ?br ''repository_id'' = pi_repository_id i"
    "fld ?br ''base_branch'' = pi_base_branch i" by (simp_all add: publication_request_sel)
  let ?pr = "pull_request_of (int (length e) + 1) ?br"
  let ?e = "e @ [(str_of (fld ?br ''idempotency_key''), ?pr)]"
  have pub: "publish_pull_request ?br e = (Inr ?pr, ?e)"
    by (rule publish_fresh [OF chk(2)]) (simp add: k assms(11))
  from mock.publish_receipt [OF assms(10) pub] have e': "endpoint_ok ?e" "publishes ?pr ?br" "?pr \<in> endpoint_receipts ?e" by auto
  have base: "pi_base_branch i = PStr q" using assms(1) by (auto elim: derive_Inr)
  have key: "jr_idempotency_key r = pr_idempotency_key ?pr" "jr_repository_id r = pr_repository_id ?pr"
    "q = pr_base_branch ?pr"
    using assms(7,8) by (simp_all add: pull_request_of_def k base flip: assms(7,8))
  have m: "receipt_matches (r\<lparr>jr_status := Attempting\<rparr>) (mock_receipt ?pr) = Inr ()"
    by (rule mock_receipt_matches [OF e'(1,3)]) (use key assms(9) in simp_all)
  note acc = mock_receipt_accepted [OF e'(1,3) chk(2) e'(2)]
  have n: "bind_int (int_of (rc_id (mock_receipt ?pr))) = Inr ()" "bind_text (str_of (rc_url (mock_receipt ?pr))) = Inr ()"
    using acc assms(12) by (simp_all add: bind_int_def bind_text_def mock_receipt_def has_surrogate_def any_char_def)
  have p: "fld ?req ''process_id'' = PStr p" by (simp add: publication_request_sel assms(3))
  have t: "typed_publish publish_pull_request ?br e = (Inr (mock_receipt ?pr), ?e)"
    by (simp add: typed_publish_def ebind_def eret_def pub)
  from execute_completes_row [OF assms(6,4,5) chk(1) p, of "typed_publish publish_pull_request" e "mock_receipt ?pr" ?e ok]
  obtain j' r' where "execute_publication ok (Some (typed_publish publish_pull_request)) NoHook ?req False (e, j) = (Inr (mock_receipt ?pr), ?e, j')"
    "attempt_of j' p = Some r'" "jr_status r' = Completed" "jr_pull_request_id r' = Some (int_of (rc_id (mock_receipt ?pr)))"
    "attempt_identity r' = attempt_identity r"
    using t acc(1) m n by blast
  with e' show ?thesis
    by (intro exI [of _ ?pr] exI [of _ ?e] exI [of _ j'] exI [of _ r'])
      (simp add: dispatch_publication_def assms(13,14) mock_receipt_def)
qed

section \<open>The cleared run\<close>

text \<open>The gates, on a request they clear, hand over to the dispatch with a prepared row.\<close>

lemma cleared_run_dispatches:
  assumes "seed_matches s i" "is_dict approval" "cp_clock now = Inr m" "approval_step i approval engine m = Inr ()"
    and "ld s e = (Inr staged, e)" "is_dict staged" "sd_source_repository_id s = PNone"
    and "check_grant i grant actuator now = Inr m"
    and "policy_checks i approval engine staged did actuator (NowAt m) = Inr m'"
    and "evaluate_policy po i approval engine staged did actuator m' = Inr decision"
    and "require_bound_envelope i envelope = Inr ()" "gw envelope (NowAt m) e = (Inr (Some g), e)" "gateway_allows g"
    and "pv_kind pv = InMemory" "pv_endpoint_typed pv" "pv_channel_typed pv c"
    and "pv_open pv grant (actuator_request_of i actuator) (NowAt m) e = (Inr c, e)"
    and "journal_request_digest s i approval engine decision g (NowAt m) = Inr rd"
    and "prepare (pi_process_id i) (pi_idempotency_key i) (PStr rd) (pi_repository_id i) (sd_verified_contents_digest s) j = (Inr r, j1)"
  shows "run_controlled_local_publication ok (Some s) (Some i) approval (Some po) engine (Some ld) did (Some gw) envelope pv grant
      NoFiles actuator now None (e, j) = ecatch (dispatch_publication ok pv c i staged [] decision) (settle_dispatch ok pv c i) (e, j1)"
proof -
  have col: "check_collaborators s i pv NoFiles = Inr []"
    using assms(1,14,15) by (simp add: check_collaborators_def require_seed_intent_binding_def)
  have load: "load_stage ld s e = (Inr staged, e)"
    using assms(5,6) by (simp add: load_stage_def ebind_def ecatch_def eunless_def eret_def)
  have bind: "bind_stage_repository_identity s i staged = Inr staged"
    using assms(7) by (simp add: bind_stage_repository_identity_def)
  have gate: "authorize_gateway gw envelope m e = (Inr g, e)"
    using assms(12,13) by (simp add: authorize_gateway_def ebind_def ecatch_def eunless_def eret_def)
  have opn: "open_channel (pv_open pv) None i grant actuator m e = (Inr c, e)"
    using assms(17) by (simp add: open_channel_def ecatch_def)
  have prep: "prepare_publication_journal s i approval engine decision g (NowAt m) j = (Inr r, j1)"
    using assms(18,19) by (simp add: prepare_publication_journal_def ebind_def)
  have after: "open_after_policy s engine (Some gw) envelope (pv_open pv) grant actuator m
      (publish_after_broker ok pv [] staged None) None i approval decision (e, j) =
      ecatch (dispatch_publication ok pv c i staged [] decision) (settle_dispatch ok pv c i) (e, j1)"
    using assms(11,16) gate opn prep
    by (simp add: open_after_policy_def ebind_def on_env_def on_journal_def publish_after_broker_def eunless_def)
  have pol: "run_policy_gate (Some i) approval (Some po) engine staged did actuator (NowAt m) K None (e, j) = K i approval decision (e, j)"
    for K :: "publication_intent \<Rightarrow> pyval \<Rightarrow> pyval \<Rightarrow> ('a \<times> journal, receipt) eff"
    using assms(2,9,10) by (simp add: run_policy_gate_def ebind_def eunless_def)
  have brk: "run_broker_gate (Some i) approval (Some po) engine staged did (Some gw) envelope (Some (pv_open pv)) grant actuator now
      (publish_after_broker ok pv [] staged None) (Some s) None (e, j) =
      ecatch (dispatch_publication ok pv c i staged [] decision) (settle_dispatch ok pv c i) (e, j1)"
    by (simp add: run_broker_gate_def ebind_def assms(8) pol after)
  show ?thesis
    by (simp add: run_controlled_local_publication_def run_approval_gate_def ebind_def eunless_def on_env_def
        col assms(2,3,4) load bind brk)
qed

section \<open>A sample run\<close>

definition cp_seed :: publication_seed where
  "cp_seed = sample_seed\<lparr>sd_process_id := PStr ''p'', sd_staged_change_digest := PStr staged_digest\<rparr>"

definition cp_intent :: publication_intent where
  "cp_intent = sample_intent\<lparr>pi_process_id := PStr ''p'', pi_staged_change_digest := PStr staged_digest,
     pi_idempotency_key := PStr approved_key\<rparr>"

definition cp_engine :: pyval where
  "cp_engine = PDict
     [(''process_id'', PStr ''p''), (''repository_id'', PStr ''owner/project''), (''base_commit'', PStr ''c0''),
      (''staged_change_digest'', PStr staged_digest), (''idempotency_key'', PStr approved_key),
      (''source_repository_id'', PNone), (''operation'', PStr ''publish_pull_request''),
      (''branch_namespace'', PStr ''agent''), (''approval_id'', PStr ''approval-1''),
      (''expires_at'', PStr (format_utc sample_later))]"

definition engine_digest :: string where
  "engine_digest = digest_of cp_engine"

definition cp_approval :: pyval where
  "cp_approval = PDict
     [(''schema_version'', PInt 1), (''approval_id'', PStr ''approval-1''),
      (''approver_id'', PStr ''alice''), (''process_id'', PStr ''p''),
      (''operation'', PStr ''publish_pull_request''), (''repository_id'', PStr ''owner/project''),
      (''staged_change_digest'', PStr staged_digest), (''approved_intent_digest'', PStr engine_digest),
      (''policy_version'', PStr ''v1''), (''approved_at'', PStr (format_utc sample_earlier)),
      (''expires_at'', PStr (format_utc sample_later)), (''signature'', PStr sample_signature)]"

definition grant_digest :: string where
  "grant_digest = digest_of (actuator_request_of cp_intent (PStr ''github''))"

definition cp_grant :: pyval where
  "cp_grant = PDict
     [(''credential_grant_id'', PStr ''grant-1''), (''repository_id'', PStr ''owner/project''),
      (''operation'', PStr ''publish_pull_request''), (''actuator_id'', PStr ''github''),
      (''credential_class'', PStr ''github-app-installation''), (''single_use'', PBool True),
      (''request_digest'', PStr grant_digest), (''expires_at'', PStr (format_utc sample_later))]"

definition cp_envelope :: pyval where
  "cp_envelope = PDict
     [(''intent'', PDict [(''operation'', PStr ''publish_pull_request'')]),
      (''destination'', PDict [(''repository_id'', PStr ''owner/project''), (''base_branch'', PStr ''main'')]),
      (''source'', PDict [(''principal_id'', PStr ''p'')]),
      (''payload'', PDict [(''content_digest'', PStr staged_digest)]), (''correlation_id'', PStr approved_key)]"

definition cp_decision :: pyval where
  "cp_decision = decision_value sample_config (PStr ''decision-1'') (policy_request cp_intent cp_engine (PStr ''github'')) staged_digest
     (''allow'', allow_reasons) sample_now \<lparr>wall = 301000000, utc_offset = Some 0\<rparr>"

definition slow_allow :: gateway_decision where
  "slow_allow = decide_path SLOW True []"

definition cp_provider :: "(endpoint, unit) provider" where
  "cp_provider = \<lparr>pv_kind = InMemory, pv_endpoint_typed = True, pv_target = None, pv_open = (\<lambda>_ _ _. eret ()),
     pv_channel_typed = (\<lambda>_. True), pv_publish = (\<lambda>_. typed_publish publish_pull_request),
     pv_find = (\<lambda>_. typed_find find_by_idempotency_key), pv_publish_files = (\<lambda>_. None), pv_reconcile_files = (\<lambda>_. None)\<rparr>"

lemma approved_key_derived: "publication_idempotency_key (PStr ''agent/x'') ''main'' staged_digest = Inr approved_key"
  by (simp add: key_Inr branch_prefix_def approved_key_def text_eval)

lemma cp_derive: "derive_publication_intent (Some cp_seed) (PStr ''agent/x'') (PStr ''main'') = Inr cp_intent"
proof -
  have "check_intent cp_intent = Inr ()"
    by (simp add: check_intent_Inr cp_intent_def sample_intent_def sample_base sample_branch approved_key_derived staged_digest
        optional_target_def text_eval)
  then show ?thesis
    by (simp add: derive_publication_intent_def sample_branch sample_base approved_key_derived cp_seed_def sample_seed_def
        mk_publication_intent_def cp_intent_def sample_intent_def)
qed

lemma cp_intent_sel:
  "pi_process_id cp_intent = PStr ''p''" "pi_repository_id cp_intent = PStr ''owner/project''"
  "pi_base_commit cp_intent = PStr ''c0''" "pi_base_branch cp_intent = PStr ''main''" "pi_branch cp_intent = PStr ''agent/x''"
  "pi_staged_change_digest cp_intent = PStr staged_digest" "pi_idempotency_key cp_intent = PStr approved_key"
  "pi_source_repository_id cp_intent = PNone"
  by (simp_all add: cp_intent_def sample_intent_def)

lemma cp_digests: "sha256_digest cp_engine = Inr engine_digest" "is_digest engine_digest"
  "sha256_digest (actuator_request_of cp_intent (PStr ''github'')) = Inr grant_digest"
proof -
  have "encodable cp_engine"
    by (simp add: cp_engine_def text_eval ascii_samples ascii_format_utc)
  then show "sha256_digest cp_engine = Inr engine_digest" "is_digest engine_digest"
    by (simp_all add: engine_digest_def sha256_digest_encodable is_digest_digest_of)
  have "encodable (actuator_request_of cp_intent (PStr ''github''))"
    by (simp add: actuator_request_of_def cp_intent_sel branch_namespace_def text_eval ascii_samples)
  then show "sha256_digest (actuator_request_of cp_intent (PStr ''github'')) = Inr grant_digest"
    by (simp add: grant_digest_def sha256_digest_encodable)
qed

lemma cp_namespace: "branch_namespace cp_intent = ''agent''"
  by (simp add: branch_namespace_def cp_intent_sel)

lemma cp_approved: "check_intent_approved cp_engine cp_approval = Inr ()"
  by (simp add: check_intent_approved_Inr cp_digests) (simp add: cp_approval_def)

lemma cp_matches: "engine_matches True cp_intent cp_engine"
  by (simp add: engine_matches_def bound_fields_def intent_dict_def cp_namespace cp_intent_sel) (simp add: cp_engine_def)

lemma cp_times: "cp_clock (NowAt sample_now) = Inr sample_now"
  "not_expired label (PStr (format_utc sample_later)) sample_now msg = Inr ()"
proof -
  show "cp_clock (NowAt sample_now) = Inr sample_now"
    using sample_now_utc by (simp add: cp_clock_def)
  have "cp_expiry label (PStr (format_utc sample_later)) = Inr sample_later"
    using sample_times(4) sample_later_parse by (simp add: cp_expiry_def rcatch_def Let_def)
  then show "not_expired label (PStr (format_utc sample_later)) sample_now msg = Inr ()"
    using sample_times(6) by (simp add: not_expired_def)
qed

text \<open>The gates clear the sample.\<close>

lemma cp_fields:
  "fld cp_engine ''expires_at'' = PStr (format_utc sample_later)" "fld cp_approval ''expires_at'' = PStr (format_utc sample_later)"
  "is_dict cp_engine" "is_dict cp_approval" "fld cp_approval ''approval_id'' = PStr ''approval-1''"
  "fld cp_approval ''policy_version'' = PStr ''v1''" "fld cp_approval ''approver_id'' = PStr ''alice''"
  by (simp_all add: cp_engine_def cp_approval_def)

lemma cp_approval_step: "approval_step cp_intent cp_approval cp_engine sample_now = Inr ()"
proof -
  have "cp_engine \<noteq> PNone" by (simp add: cp_engine_def)
  then show ?thesis
    using cp_approved cp_matches
    by (simp add: approval_step_def require_engine_intent_binding_def cp_fields cp_times rcatch_def)
qed

lemma cp_policy_checks: "policy_checks cp_intent cp_approval cp_engine sample_staged (PStr ''decision-1'') (PStr ''github'')
    (NowAt sample_now) = Inr sample_now"
proof -
  have "is_dict sample_staged" by (simp add: sample_staged_def)
  then show ?thesis
    using cp_approved cp_matches staged_digest(1)
    by (simp add: policy_checks_def cp_fields cp_times rcatch_def cp_intent_sel)
qed

lemma cp_approval_verifies: "verify_approval_signature accepting cp_approval (Some (replicate 32 (CHR ''k'')))"
proof -
  have a: "ascii engine_digest" by (rule ascii_digest [OF cp_digests(2)])
  have "encodable (signed_content cp_approval)"
    by (simp add: signed_content_def approval_signed_fields_def cp_approval_def text_eval
        ascii_samples ascii_format_utc a nat_digits.simps)
  then have "is_ok (json_enc (signed_content cp_approval))" by (simp only: json_enc_ok)
  moreover have "keys_are cp_approval (approval_signed_fields @ [''signature''])" "is_dict cp_approval"
    by (simp_all add: keys_are_def cp_approval_def approval_signed_fields_def)
  ultimately obtain p where p: "approval_signature_payload cp_approval = Inr p"
    by (auto simp: approval_signature_payload_def is_ok_def split: sum.splits)
  have "is_signature sample_signature"
    by (simp add: is_signature_def sample_signature_def is_lower_hex_def list_all_length)
  with p show ?thesis
    by (simp add: verify_approval_signature_def accepting_def) (simp add: cp_approval_def)
qed

lemma cp_approval_valid: "validate_approval cp_approval sample_staged cp_engine ''v1'' (NowAt sample_now) = Inr ()"
proof -
  have "require_expiry cp_approval ''approval time'' ''approved_at'' = Inr sample_earlier"
    "require_expiry cp_approval ''expiry'' ''expires_at'' = Inr sample_later"
    "require_expiry cp_engine ''intent expiry'' ''expires_at'' = Inr sample_later"
    using sample_times sample_later_parse
    by (simp_all add: require_expiry_Inr cp_approval_def cp_engine_def)
  moreover have "is_dict sample_staged" "fld cp_approval ''schema_version'' = PInt 1"
    by (simp_all add: sample_staged_def cp_approval_def)
  moreover have "\<forall>k\<in>set match_fields. has_key cp_approval k \<and> has_key cp_engine k \<and>
      check_matching_field cp_approval cp_engine k = Inr ()"
    by (simp add: match_fields_def check_matching_field_def cp_approval_def cp_engine_def)
  moreover have "has_key cp_approval ''approver_id'' \<and> has_key cp_approval ''policy_version'' \<and>
      has_key cp_approval ''approved_at'' \<and> has_key cp_approval ''expires_at'' \<and> has_key cp_engine ''expires_at''"
    by (simp add: cp_approval_def cp_engine_def)
  moreover have "fld cp_approval ''staged_change_digest'' = PStr staged_digest"
    "fld cp_engine ''staged_change_digest'' = PStr staged_digest" "staged_digest \<noteq> []"
    using is_digest_nonempty [OF staged_digest(2)] by (simp_all add: cp_approval_def cp_engine_def)
  ultimately show ?thesis
    using sample_times staged_digest cp_approved cp_fields
    by (simp add: validate_approval_def require_digest_def)
qed

lemma cp_decide: "decide accepting sample_config True (PStr ''decision-1'') (policy_request cp_intent cp_engine (PStr ''github''))
    cp_approval sample_staged cp_engine (NowAt sample_now) = Inr cp_decision"
proof -
  let ?req = "policy_request cp_intent cp_engine (PStr ''github'')"
  have "decide_effect accepting sample_config ?req cp_approval sample_staged cp_engine (NowAt sample_now) staged_digest =
      Inr (''allow'', allow_reasons)"
    using cp_approval_valid cp_approval_verifies
    by (simp add: decide_effect_def sample_config_def approver_allowed_def cp_fields policy_request_def cp_intent_sel)
      (simp add: cp_engine_def)
  moreover have "add_seconds sample_now (cfg_ttl sample_config) = Inr \<lparr>wall = 301000000, utc_offset = Some 0\<rparr>"
    by (simp add: add_seconds_def sample_now_def sample_config_def mk_utc_def max_wall_def)
  moreover have "is_dict ?req" "list_all (\<lambda>k. nonempty_str (fld ?req k)) request_text_fields"
    by (simp_all add: policy_request_def request_text_fields_def cp_intent_sel)
  ultimately show ?thesis
    using sample_times staged_digest by (simp add: decide_def cp_decision_def)
qed

lemma cp_decision_sel:
  "is_dict cp_decision" "fld cp_decision ''effect'' = PStr ''allow''"
  "fld cp_decision ''operation'' = PStr ''publish_pull_request''" "fld cp_decision ''repository_id'' = PStr ''owner/project''"
  "fld cp_decision ''staged_change_digest'' = PStr staged_digest" "fld cp_decision ''policy_version'' = PStr ''v1''"
  "fld cp_decision ''expires_at'' = PStr (format_utc \<lparr>wall = 301000000, utc_offset = Some 0\<rparr>)"
  by (simp_all add: cp_decision_def decision_value_def policy_request_def cp_intent_sel sample_config_def)

lemma cp_usable: "check_decision_usable cp_decision (NowAt sample_now) = Inr ()"
proof -
  have "parse_iso (format_utc \<lparr>wall = 301000000, utc_offset = Some 0\<rparr>) = Inr \<lparr>wall = 301000000, utc_offset = Some 0\<rparr>"
    by (rule parse_format_utc) (simp_all add: valid_datetime_def max_wall_def)
  then show ?thesis
    using sample_times(1)
    by (simp add: check_decision_usable_def cp_decision_sel is_aware_def sample_now_def instant_def)
qed

lemma cp_policy: "evaluate_policy (accepting, sample_config, True) cp_intent cp_approval cp_engine sample_staged
    (PStr ''decision-1'') (PStr ''github'') sample_now = Inr cp_decision"
  using cp_decide cp_usable by (simp add: evaluate_policy_def cp_decision_sel cp_intent_sel cp_fields)

lemma cp_grant_ok: "check_grant cp_intent cp_grant (PStr ''github'') (NowAt sample_now) = Inr sample_now"
proof -
  have "is_dict cp_grant" "nonempty_str (fld cp_grant ''credential_grant_id'')" "fld cp_grant ''repository_id'' = PStr ''owner/project''"
    "fld cp_grant ''operation'' = PStr ''publish_pull_request''" "fld cp_grant ''actuator_id'' = PStr ''github''"
    "fld cp_grant ''credential_class'' = PStr ''github-app-installation''" "fld cp_grant ''single_use'' = PBool True"
    "fld cp_grant ''expires_at'' = PStr (format_utc sample_later)" "fld cp_grant ''request_digest'' = PStr grant_digest"
    by (simp_all add: cp_grant_def)
  then show ?thesis
    by (simp add: check_grant_def cp_times cp_intent_sel cp_digests)
qed

lemma cp_envelope_bound: "require_bound_envelope cp_intent cp_envelope = Inr ()"
  by (simp add: require_bound_envelope_def envelope_part_def cp_intent_sel cp_envelope_def)

lemma slow_allow: "gateway_allows slow_allow"
  by (simp add: gateway_allows_def slow_allow_def)

lemma cp_content: "\<exists>fp rd. sha256_digest (picked cp_approval fingerprint_fields) = Inr fp \<and>
    sha256_digest (request_content cp_seed cp_intent fp cp_decision slow_allow) = Inr rd"
proof -
  have a: "ascii engine_digest" by (rule ascii_digest [OF cp_digests(2)])
  have "encodable (picked cp_approval fingerprint_fields)"
    by (simp add: picked_def fingerprint_fields_def cp_approval_def text_eval ascii_samples ascii_format_utc a)
  then have f: "sha256_digest (picked cp_approval fingerprint_fields) = Inr (digest_of (picked cp_approval fingerprint_fields))"
    by (rule sha256_digest_encodable)
  define fp where "fp = digest_of (picked cp_approval fingerprint_fields)"
  have "ascii fp" unfolding fp_def by (rule ascii_digest [OF sha256_digest_is_digest [OF f]])
  moreover have "ascii sample_digest" by (rule ascii_digest [OF sample_digest(1)])
  ultimately have "encodable (request_content cp_seed cp_intent fp cp_decision slow_allow)"
    by (simp add: request_content_def seed_dict_def intent_dict_def cp_intent_sel cp_seed_def sample_seed_def picked_def
        metadata_fields_def cp_decision_def decision_value_def allow_reasons_def policy_request_def gateway_value_def
        slow_allow_def decide_path_def sample_config_def text_eval ascii_samples ascii_format_utc nat_digits.simps)
  then have "sha256_digest (request_content cp_seed cp_intent fp cp_decision slow_allow) =
      Inr (digest_of (request_content cp_seed cp_intent fp cp_decision slow_allow))"
    by (rule sha256_digest_encodable)
  with f [folded fp_def] show ?thesis by blast
qed

text \<open>The sample's collaborators.\<close>

definition cp_load :: "publication_seed \<Rightarrow> (endpoint, pyval) eff" where
  "cp_load s = eret sample_staged"

definition cp_gateway :: "endpoint injected_gateway" where
  "cp_gateway envelope now = eret (Some slow_allow)"

definition cp_run :: "endpoint \<times> journal \<Rightarrow> receipt res \<times> endpoint \<times> journal" where
  "cp_run = run_controlled_local_publication (\<lambda>_. True) (Some cp_seed) (Some cp_intent) cp_approval
     (Some (accepting, sample_config, True)) cp_engine (Some cp_load) (PStr ''decision-1'') (Some cp_gateway) cp_envelope
     cp_provider cp_grant NoFiles (PStr ''github'') (NowAt sample_now) None"

lemma cp_collaborators:
  "cp_load s e = (Inr sample_staged, e)" "cp_gateway envelope now e = (Inr (Some slow_allow), e)" "is_dict sample_staged"
  "pv_kind cp_provider = InMemory" "pv_endpoint_typed cp_provider" "pv_channel_typed cp_provider c"
  "pv_publish cp_provider c = typed_publish publish_pull_request" "pv_open cp_provider grant request now e = (Inr (), e)"
  by (simp_all add: cp_load_def cp_gateway_def cp_provider_def eret_def sample_staged_def)

lemma cp_seed_sel: "sd_verified_contents_digest cp_seed = PStr sample_digest" "sd_source_repository_id cp_seed = PNone"
  by (simp_all add: cp_seed_def sample_seed_def)

lemma cp_texts: "\<not> has_surrogate (str_of (pi_process_id cp_intent))" "\<not> has_surrogate (str_of (pi_repository_id cp_intent))"
  "is_utf8 ''agent/x''" "is_utf8 ''main''"
  by (simp_all add: cp_intent_sel text_eval is_utf8_ascii)

lemmas cp_cleared = cp_derive cp_texts sample_digest(1) cp_seed_sel cp_fields(4) cp_times(1) cp_approval_step cp_collaborators
  cp_grant_ok cp_policy_checks cp_policy cp_envelope_bound slow_allow

lemma cp_run_changes: "\<exists>rc e' j'. cp_run ([], []) = (Inr rc, e', j') \<and> j' \<noteq> []"
proof -
  obtain fp rd where digests: "sha256_digest (picked cp_approval fingerprint_fields) = Inr fp"
    "sha256_digest (request_content cp_seed cp_intent fp cp_decision slow_allow) = Inr rd"
    using cp_content by blast
  define r where "r = fresh_attempt ''p'' approved_key rd ''owner/project'' ''main'' (Some sample_digest)"
  have m: "seed_matches cp_seed cp_intent" by (rule seed_matches_derived [OF cp_derive])
  have dig: "journal_request_digest cp_seed cp_intent cp_approval cp_engine cp_decision slow_allow (NowAt sample_now) = Inr rd"
    using journal_accepts_cleared [OF m cp_fields(4) cp_policy_checks cp_policy slow_allow] digests by simp
  have prep: "prepare (pi_process_id cp_intent) (pi_idempotency_key cp_intent) (PStr rd) (pi_repository_id cp_intent)
      (sd_verified_contents_digest cp_seed) [] = (Inr r, [r])"
    using derived_prepares [OF cp_derive cp_texts(3,4) sha256_digest_is_digest [OF digests(2)] cp_texts(1,2), of "[]"] sample_digest(1)
    by (simp add: r_def cp_intent_sel cp_seed_sel opt_text_def)
  then have ok: "journal_ok [r]" using call_advances(1) [OF journal_ok_empty] by blast
  have run: "cp_run ([], []) = ecatch (dispatch_publication (\<lambda>_. True) cp_provider () cp_intent sample_staged [] cp_decision)
      (settle_dispatch (\<lambda>_. True) cp_provider () cp_intent) ([], [r])"
    unfolding cp_run_def by (rule cleared_run_dispatches) (fact m dig prep cp_cleared)+
  have row: "attempt_of [r] ''p'' = Some r" "jr_status r = Prepared" "PStr (jr_idempotency_key r) = pi_idempotency_key cp_intent"
    "PStr (jr_repository_id r) = pi_repository_id cp_intent" "jr_base_branch r = Some ''main''"
    by (simp_all add: r_def fresh_attempt_def cp_intent_sel)
  have new: "map_of ([] :: endpoint) (str_of (pi_idempotency_key cp_intent)) = None" "int (length ([] :: endpoint)) + 1 < 2 ^ 63"
    by simp_all
  have "\<exists>pr e' j' r'. dispatch_publication (\<lambda>_. True) cp_provider () cp_intent sample_staged [] cp_decision ([], [r]) =
      (Inr (mock_receipt pr), e', j') \<and>
    publishes pr (boundary_part (publication_request cp_intent cp_decision)) \<and> pr \<in> endpoint_receipts e' \<and> endpoint_ok e' \<and>
    attempt_of j' ''p'' = Some r' \<and> jr_status r' = Completed \<and> jr_pull_request_id r' = Some (pr_id pr) \<and>
    attempt_identity r' = attempt_identity r"
    by (rule dispatch_completes)
      (fact cp_derive cp_decision_sel cp_intent_sel row ok endpoint_ok_empty new cp_collaborators)+
  then obtain pr e' j' r' where "dispatch_publication (\<lambda>_. True) cp_provider () cp_intent sample_staged [] cp_decision ([], [r]) =
      (Inr (mock_receipt pr), e', j')" "attempt_of j' ''p'' = Some r'" by blast
  then have "cp_run ([], []) = (Inr (mock_receipt pr), e', j')" "j' \<noteq> []" using run by (auto simp: ecatch_def)
  then show ?thesis by blast
qed

section \<open>Properties\<close>

text \<open>
  Claim C23: a cleared publication completes. If the intent was derived from the seed, its process and key
  are new to journal and endpoint, and approval, policy, gateway and broker clear the request, then the
  coordinator publishes exactly that request on the mock endpoint, returns its receipt, and leaves
  the process with a completed row that carries the receipt's number and the intent's key.
\<close>

theorem cleared_publication_completes:
  assumes "derive_publication_intent (Some s) (PStr b) (PStr q) = Inr i" "is_utf8 b" "is_utf8 q"
    and "\<not> has_surrogate (str_of (pi_process_id i))" "\<not> has_surrogate (str_of (pi_repository_id i))"
    and "sd_verified_contents_digest s = PStr fd" "is_digest fd" "sd_source_repository_id s = PNone"
    and "journal_ok j" "str_of (pi_process_id i) \<notin> jr_process_id ` set j" "str_of (pi_idempotency_key i) \<notin> jr_idempotency_key ` set j"
    and "endpoint_ok e" "map_of e (str_of (pi_idempotency_key i)) = None" "int (length e) + 1 < 2 ^ 63"
    and "is_dict approval" "cp_clock now = Inr m" "approval_step i approval engine m = Inr ()"
    and "ld s e = (Inr staged, e)" "is_dict staged" "check_grant i grant actuator now = Inr m"
    and "policy_checks i approval engine staged did actuator (NowAt m) = Inr m'"
    and "evaluate_policy po i approval engine staged did actuator m' = Inr decision"
    and "require_bound_envelope i envelope = Inr ()" "gw envelope (NowAt m) e = (Inr (Some g), e)" "gateway_allows g"
    and "pv_kind pv = InMemory" "pv_endpoint_typed pv" "pv_channel_typed pv c" "pv_publish pv c = typed_publish publish_pull_request"
    and "pv_open pv grant (actuator_request_of i actuator) (NowAt m) e = (Inr c, e)"
    and "sha256_digest (picked approval fingerprint_fields) = Inr fp" "sha256_digest (request_content s i fp decision g) = Inr rd"
  shows "\<exists>pr e' j' r. run_controlled_local_publication ok (Some s) (Some i) approval (Some po) engine (Some ld) did (Some gw)
      envelope pv grant NoFiles actuator now None (e, j) = (Inr (mock_receipt pr), e', j') \<and>
    publishes pr (boundary_part (publication_request i decision)) \<and> pr \<in> endpoint_receipts e' \<and>
    attempt_of j' (str_of (pi_process_id i)) = Some r \<and> jr_status r = Completed \<and> jr_pull_request_id r = Some (pr_id pr) \<and>
    PStr (jr_idempotency_key r) = pi_idempotency_key i"
proof -
  obtain p repo k where a: "pi_process_id i = PStr p" "pi_repository_id i = PStr repo" "pi_idempotency_key i = PStr k"
    using derived_texts [OF assms(1)] by metis
  define r where "r = fresh_attempt p k rd repo q (Some fd)"
  have "is_digest rd" using assms(32) by (rule sha256_digest_is_digest)
  from derived_prepares [OF assms(1-3) this assms(4,5,10,11), of "PStr fd"] assms(7)
  have prep: "prepare (pi_process_id i) (pi_idempotency_key i) (PStr rd) (pi_repository_id i) (sd_verified_contents_digest s) j = (Inr r, j @ [r])"
    by (simp add: a r_def opt_text_def assms(6))
  then have ok1: "journal_ok (j @ [r])" using call_advances(1) [OF assms(9)] by blast
  have row: "attempt_of (j @ [r]) p = Some r" "jr_status r = Prepared" "jr_idempotency_key r = k" "jr_repository_id r = repo"
    "jr_base_branch r = Some q"
    using attempt_of_None [of j p] assms(10) by (auto simp: r_def fresh_attempt_def attempt_of_append a)
  have allow: "fld decision ''effect'' = PStr ''allow''"
    using evaluate_policy_fields [OF assms(22)] usable_is_allow by blast
  have m: "seed_matches s i" by (rule seed_matches_derived [OF assms(1)])
  have dig: "journal_request_digest s i approval engine decision g (NowAt m) = Inr rd"
    using journal_accepts_cleared [OF m assms(15,21,22,25)] assms(31,32) by simp
  from dispatch_completes [OF assms(1) allow a(1) row(1,2) ok1, of e pv c ok staged "[]"] row a assms(12-14,26,29)
  obtain pr e' j' r' where d: "dispatch_publication ok pv c i staged [] decision (e, j @ [r]) = (Inr (mock_receipt pr), e', j')"
    "publishes pr (boundary_part (publication_request i decision))" "pr \<in> endpoint_receipts e'"
    "attempt_of j' p = Some r'" "jr_status r' = Completed" "jr_pull_request_id r' = Some (pr_id pr)"
    "attempt_identity r' = attempt_identity r" by auto
  have "run_controlled_local_publication ok (Some s) (Some i) approval (Some po) engine (Some ld) did (Some gw) envelope pv grant
      NoFiles actuator now None (e, j) =
      ecatch (dispatch_publication ok pv c i staged [] decision) (settle_dispatch ok pv c i) (e, j @ [r])"
    by (rule cleared_run_dispatches) (fact m dig prep assms)+
  with d(1) have "run_controlled_local_publication ok (Some s) (Some i) approval (Some po) engine (Some ld) did (Some gw) envelope
      pv grant NoFiles actuator now None (e, j) = (Inr (mock_receipt pr), e', j')"
    by (simp add: ecatch_def)
  moreover have "jr_idempotency_key r' = k" using d(7) row(3) by (simp add: attempt_identity_def)
  ultimately show ?thesis using d a by auto
qed

theorem cleared_publication_completes_witness:
  "\<exists>pr e' j' r. cp_run ([], []) = (Inr (mock_receipt pr), e', j') \<and> attempt_of j' ''p'' = Some r \<and> jr_status r = Completed"
proof -
  obtain fp rd where digests: "sha256_digest (picked cp_approval fingerprint_fields) = Inr fp"
    "sha256_digest (request_content cp_seed cp_intent fp cp_decision slow_allow) = Inr rd"
    using cp_content by blast
  have new: "str_of (pi_process_id cp_intent) \<notin> jr_process_id ` set []" "str_of (pi_idempotency_key cp_intent) \<notin> jr_idempotency_key ` set []"
    "map_of ([] :: endpoint) (str_of (pi_idempotency_key cp_intent)) = None" "int (length ([] :: endpoint)) + 1 < 2 ^ 63"
    by simp_all
  have "\<exists>pr e' j' r. cp_run ([], []) = (Inr (mock_receipt pr), e', j') \<and>
    publishes pr (boundary_part (publication_request cp_intent cp_decision)) \<and> pr \<in> endpoint_receipts e' \<and>
    attempt_of j' (str_of (pi_process_id cp_intent)) = Some r \<and> jr_status r = Completed \<and> jr_pull_request_id r = Some (pr_id pr) \<and>
    PStr (jr_idempotency_key r) = pi_idempotency_key cp_intent"
    unfolding cp_run_def
    by (intro cleared_publication_completes [where ok = "\<lambda>_. True"]) (fact cp_cleared journal_ok_empty endpoint_ok_empty digests new)+
  then show ?thesis by (auto simp: cp_intent_sel)
qed

text \<open>
  Claim C21: nothing is prepared, published or recorded without every gate. If a run of the coordinator
  changes the journal, then at the time of the run: the seed and the engine intent name this
  publication; the approval names the digest of that engine intent, and neither has expired; the staged
  change is the one the loader returned for this seed and has the intent's digest; the policy engine itself
  decided to allow this request, and the decision has not expired; the gateway, asked with an envelope of
  this publication, itself answered that the request is allowed on the slow path; the grant is a single-use,
  unexpired grant for the digest of exactly this actuator request; and the broker opened a channel for
  that grant and request. Gateway, loader and broker may be any collaborators; each answer was given in
  some state of theirs.
\<close>

theorem journal_changes_only_behind_gates:
  assumes "run_controlled_local_publication ok seed intent approval policy engine load did gateway envelope pv grant files
      actuator now observer (e, j) = (r, e', j')" and "j' \<noteq> j"
  shows "\<exists>s i ed cfg available ld gw t moment staged decision g c.
    seed = Some s \<and> intent = Some i \<and> policy = Some (ed, cfg, available) \<and> load = Some ld \<and> gateway = Some gw \<and>
    now = NowAt t \<and> instant moment = instant t \<and>
    (\<forall>(a, b)\<in>{(sd_process_id s, pi_process_id i), (sd_repository_id s, pi_repository_id i),
        (sd_source_repository_id s, pi_source_repository_id i), (sd_base_commit s, pi_base_commit i),
        (sd_staged_change_digest s, pi_staged_change_digest i)}. py_eq a b) \<and>
    (\<forall>k\<in>{''process_id'', ''repository_id'', ''base_commit'', ''staged_change_digest'', ''idempotency_key'',
        ''source_repository_id''}. py_eq (fld engine k) (fld (intent_dict i) k)) \<and>
    fld engine ''operation'' = PStr ''publish_pull_request'' \<and>
    sha256_digest engine = Inr (str_of (fld approval ''approved_intent_digest'')) \<and>
    expires_after engine moment \<and> expires_after approval moment \<and>
    (\<exists>w w'. ld s w = (Inr staged, w')) \<and>
    sha256_digest staged = Inr (str_of (pi_staged_change_digest i)) \<and>
    decide ed cfg available did (policy_request i engine actuator) approval staged engine (NowAt moment) = Inr decision \<and>
    fld decision ''effect'' = PStr ''allow'' \<and> expires_after decision moment \<and>
    fld (fld envelope ''intent'') ''operation'' = PStr ''publish_pull_request'' \<and>
    (\<forall>(part, k, v)\<in>{(''destination'', ''repository_id'', pi_repository_id i),
        (''destination'', ''base_branch'', pi_base_branch i), (''source'', ''principal_id'', pi_process_id i),
        (''payload'', ''content_digest'', pi_staged_change_digest i)}. py_eq (fld (fld envelope part) k) v) \<and>
    py_eq (fld envelope ''correlation_id'') (pi_idempotency_key i) \<and>
    (\<exists>w w'. gw envelope (NowAt moment) w = (Inr (Some g), w')) \<and> allowed g \<and> path g = SLOW \<and>
    sha256_digest (actuator_request_of i actuator) = Inr (str_of (fld grant ''request_digest'')) \<and>
    fld grant ''single_use'' = PBool True \<and> py_eq (fld grant ''repository_id'') (pi_repository_id i) \<and>
    fld grant ''operation'' = PStr ''publish_pull_request'' \<and> py_eq (fld grant ''actuator_id'') actuator \<and>
    expires_after grant moment \<and>
    (\<exists>w w'. pv_open pv grant (actuator_request_of i actuator) (NowAt moment) w = (Inr c, w'))"
  using assms
proof (rule coordinator_changed)
  fix s i po ld manifest moment staged moment2 m decision
  assume a: "seed = Some s" "intent = Some i" "policy = Some po" "load = Some ld"
    "check_collaborators s i pv files = Inr manifest" "cp_clock now = Inr moment"
    "approval_step i approval engine moment = Inr ()" "\<exists>w w'. ld s w = (Inr staged, w')"
    "check_grant i grant actuator now = Inr moment2"
    "policy_checks i approval engine staged did actuator (NowAt moment2) = Inr m"
    "evaluate_policy po i approval engine staged did actuator m = Inr decision"
    "require_bound_envelope i envelope = Inr ()"
    and gw: "\<exists>gw g w0 w1. gateway = Some gw \<and> gw envelope (NowAt moment2) w0 = (Inr (Some g), w1) \<and> gateway_allows g"
    and opened: "\<exists>c w0 w1. pv_open pv grant (actuator_request_of i actuator) (NowAt moment2) w0 = (Inr c, w1)"
  note g = check_grant_Inr [OF a(9)] and p = policy_checks_Inr [OF a(10)]
  from g a(6) have "moment2 = moment" by simp
  moreover from a(6) obtain t where t: "now = NowAt t" "instant moment = instant t" "cp_clock (NowAt moment) = Inr moment"
    by (rule cp_clock_Inr)
  ultimately have m: "moment2 = moment" "m = moment" using p by simp_all
  obtain ed cfg available where po: "po = (ed, cfg, available)" by (cases po)
  note d = evaluate_policy_Inr [OF a(11) [unfolded po m]]
  from usable_decision [of decision "NowAt moment"] d
  have u: "fld decision ''effect'' = PStr ''allow''" "expires_after decision moment" by auto
  from gw m obtain gw' g' where w: "gateway = Some gw'" "\<exists>w w'. gw' envelope (NowAt moment) w = (Inr (Some g'), w')"
    "allowed g'" "path g' = SLOW" by (auto simp: gateway_allows_def)
  from opened m obtain c where c: "\<exists>w w'. pv_open pv grant (actuator_request_of i actuator) (NowAt moment) w = (Inr c, w')"
    by auto
  have s: "\<forall>(a, b)\<in>{(sd_process_id s, pi_process_id i), (sd_repository_id s, pi_repository_id i),
        (sd_source_repository_id s, pi_source_repository_id i), (sd_base_commit s, pi_base_commit i),
        (sd_staged_change_digest s, pi_staged_change_digest i)}. py_eq a b"
    using check_collaborators_Inr [OF a(5)] by (simp add: seed_matches_def)
  have v: "\<forall>(part, k, v)\<in>{(''destination'', ''repository_id'', pi_repository_id i),
        (''destination'', ''base_branch'', pi_base_branch i), (''source'', ''principal_id'', pi_process_id i),
        (''payload'', ''content_digest'', pi_staged_change_digest i)}. py_eq (fld (fld envelope part) k) v"
    using require_bound_envelope_Inr [OF a(12)] by simp
  have h: "sha256_digest engine = Inr (str_of (fld approval ''approved_intent_digest''))"
    "sha256_digest staged = Inr (str_of (pi_staged_change_digest i))"
    "sha256_digest (actuator_request_of i actuator) = Inr (str_of (fld grant ''request_digest''))"
    using p g by (auto simp: check_intent_approved_Inr)
  have em: "engine_matches True i engine" using p by (elim conjE)
  note n = engine_matches_Inr [OF em] and x = require_bound_envelope_Inr [OF a(12)]
  have z: "decide ed cfg available did (policy_request i engine actuator) approval staged engine (NowAt moment) = Inr decision"
    using d by (elim conjE)
  have y: "fld grant ''single_use'' = PBool True" "py_eq (fld grant ''repository_id'') (pi_repository_id i)"
    "fld grant ''operation'' = PStr ''publish_pull_request''" "py_eq (fld grant ''actuator_id'') actuator"
    "expires_after grant moment" "expires_after engine moment" using g p m by simp_all
  note f = a(1,2,4,8) a(3)[unfolded po] w t(1,2) s n [THEN conjunct1] n [THEN conjunct2, THEN conjunct1] h
    approval_step_Inr [OF a(7)] z u x [THEN conjunct1] v x [THEN conjunct2, THEN conjunct2, THEN conjunct2,
      THEN conjunct2, THEN conjunct2] y c
  show ?thesis by ((rule exI)+, intro conjI) (rule f)+
qed

theorem journal_changes_only_behind_gates_witness:
  "\<exists>rc e' j'. cp_run ([], []) = (Inr rc, e', j') \<and> j' \<noteq> [] \<and>
     cp_gateway cp_envelope (NowAt sample_now) [] = (Inr (Some slow_allow), []) \<and>
     (\<exists>decision moment. instant moment = instant sample_now \<and>
        decide accepting sample_config True (PStr ''decision-1'') (policy_request cp_intent cp_engine (PStr ''github''))
          cp_approval sample_staged cp_engine (NowAt moment) = Inr decision \<and>
        expires_after decision moment \<and> expires_after cp_approval moment \<and> expires_after cp_grant moment) \<and>
     sha256_digest (actuator_request_of cp_intent (PStr ''github'')) = Inr (str_of (fld cp_grant ''request_digest'')) \<and>
     sha256_digest sample_staged = Inr (str_of (pi_staged_change_digest cp_intent))"
proof -
  obtain rc e' j' where run: "cp_run ([], []) = (Inr rc, e', j')" "j' \<noteq> []" using cp_run_changes by blast
  have load: "cp_load cp_seed w = (Inr staged, w') \<Longrightarrow> staged = sample_staged" for staged w w'
    by (auto simp: cp_load_def eret_def)
  from journal_changes_only_behind_gates [OF run(1) [unfolded cp_run_def] run(2)]
  obtain s i ed cfg available ld t moment staged decision where f: "Some cp_seed = Some s" "Some cp_intent = Some i"
    "Some (accepting, sample_config, True) = Some (ed, cfg, available)" "Some cp_load = Some ld" "NowAt sample_now = NowAt t"
    "instant moment = instant t" "\<exists>w w'. ld s w = (Inr staged, w')"
    "decide ed cfg available (PStr ''decision-1'') (policy_request i cp_engine (PStr ''github'')) cp_approval staged cp_engine
       (NowAt moment) = Inr decision"
    "expires_after decision moment" "expires_after cp_approval moment" "expires_after cp_grant moment"
    "sha256_digest (actuator_request_of i (PStr ''github'')) = Inr (str_of (fld cp_grant ''request_digest''))"
    "sha256_digest staged = Inr (str_of (pi_staged_change_digest i))"
    by (elim exE) (elim conjE, rule that, assumption+)
  moreover from f load have "staged = sample_staged" by blast
  ultimately show ?thesis using run cp_collaborators(2) by (intro exI conjI) simp_all
qed

text \<open>
  Claim C22: however often the coordinators run, one process is published at most once. Over any sequence
  of coordinator runs and restarts' reconciliations for one intent, with whatever approvals, policies,
  gateways, brokers, observers and files, crashing or failing anywhere, the provider's publish method
  is called at most once, and not at all when the process had left the prepared state.
\<close>

theorem controlled_runs_publish_once:
  assumes "journal_ok j" and "pi_process_id i = PStr p"
  shows "length (snd (fst (fold (run_controlled ok pv i) steps (w, j)))) \<le>
    length (snd w) + (case attempt_of j p of None \<Rightarrow> 1 | Some r \<Rightarrow> if jr_status r = Prepared then 1 else 0)"
proof -
  obtain w' j' where f: "fold (run_controlled ok pv i) steps (w, j) = (w', j')" by (cases rule: prod.exhaust)
  from run_controlled_list_budget [OF assms f] show ?thesis by (simp add: f open_for_def)
qed

theorem controlled_runs_publish_once_witness:
  "length (snd (fst (fold (run_controlled (\<lambda>_. True) cp_provider cp_intent)
     (replicate 3 (Coordinate (Some cp_seed) cp_approval (Some (accepting, sample_config, True)) cp_engine (Some cp_load)
        (PStr ''decision-1'') (Some cp_gateway) cp_envelope cp_grant NoFiles (PStr ''github'') (NowAt sample_now) None) @
      [Reconcile (Some cp_seed) NoFiles True () (NowAt sample_now)])
     (([], []), [])))) \<le> 1"
  by (rule order_trans [OF controlled_runs_publish_once [OF journal_ok_empty cp_intent_sel(1)]]) simp

end
