(* ===== verification/Attempt_Ledger.thy ===== *)
theory Attempt_Ledger
  imports Py_Values
begin

text \<open>
  \<^verbatim>\<open>src/app_contracts/r5_attempt_ledger.py\<close>: the append-only, no-repeat ledger of bounded worker
  attempts. A ledger is the content of its SQLite file (version, meta row, attempt rows, event rows in
  insertion order) and whether the connection is closed. SQLite is available throughout; the file
  system's answers about a path are an argument.
\<close>

section \<open>The fixed vocabulary\<close>

abbreviation ledger_error :: "string \<Rightarrow> exn" where
  "ledger_error m \<equiv> Exn R5AttemptLedgerError (''R5 attempt ledger: '' @ m)"

text \<open>An invalid ledger found while reading: \<^verbatim>\<open>raise ValueError\<close>.\<close>

abbreviation bad_ledger :: exn where
  "bad_ledger \<equiv> Exn ValueError []"

text \<open>\<^verbatim>\<open>re.fullmatch(r"R5-(?:00[1-9]|0[1-9][0-9]|100)\Z", s)\<close>.\<close>

definition is_attempt_id :: "string \<Rightarrow> bool" where
  "is_attempt_id s \<longleftrightarrow> length s = 6 \<and> startswith s ''R5-'' \<and>
     (let a = s ! 3; b = s ! 4; c = s ! 5
      in a = CHR ''0'' \<and> b = CHR ''0'' \<and> is_digit c \<and> c \<noteq> CHR ''0''
       \<or> a = CHR ''0'' \<and> is_digit b \<and> b \<noteq> CHR ''0'' \<and> is_digit c
       \<or> a = CHR ''1'' \<and> b = CHR ''0'' \<and> c = CHR ''0'')"

text \<open>\<^verbatim>\<open>int(s[3:])\<close> of an attempt ID.\<close>

definition attempt_number :: "string \<Rightarrow> nat" where
  "attempt_number s = fold (\<lambda>c n. 10 * n + (byte c - 48)) (drop 3 s) 0"

definition first_five :: "string list" where
  "first_five = [''R5-001'', ''R5-002'', ''R5-003'', ''R5-004'', ''R5-005'']"

definition outcomes :: "string list" where
  "outcomes = [''verified'', ''failed'', ''needs_input'', ''blocked'', ''denied'']"

definition unknown_phase_reasons :: "string list" where
  "unknown_phase_reasons =
     [''input-validation-error'', ''executor-uncaught-error'', ''result-validation-error'',
      ''executor-request-rejected'', ''executor-worker-rejected'', ''executor-sandbox-rejected'',
      ''executor-snapshot-rejected'', ''executor-preparation-rejected'', ''executor-verifier-rejected'',
      ''executor-stage-rejected'', ''executor-marker-unmapped'', ''executor-value-error'',
      ''executor-type-error'', ''executor-os-error'', ''executor-runtime-error'', ''executor-key-error'',
      ''executor-attribute-error'', ''executor-workspace-error'', ''executor-contract-invalid'',
      ''executor-test-result-malformed'']"

text \<open>The target test failure codes of \<^verbatim>\<open>repository_process.py\<close>.\<close>

definition detail_fields :: "string list" where
  "detail_fields = [''level'', ''correct'', ''wrong'', ''total'', ''time_ms'']"

definition detail_cases :: "(string \<times> string) list" where
  "detail_cases = [(''malformed'', ''bool''), (''malformed'', ''fractional''), (''malformed'', ''numeric-string''),
     (''sqlite-range'', ''above''), (''sqlite-range'', ''below'')]"

definition detailed_categories :: "string list" where
  "detailed_categories =
     [category @ ''-'' @ phase @ ''-'' @ f @ ''-'' @ cs.
       (category, cs) \<leftarrow> detail_cases, f \<leftarrow> detail_fields, phase \<leftarrow> [''status'', ''no-write'']]"

definition failure_categories :: "string list" where
  "failure_categories =
     [''readiness-exit'', ''readiness-timeout'', ''malformed-status'', ''malformed-no-write'', ''overflow-status'',
      ''overflow-no-write'', ''sqlite-range-status'', ''sqlite-range-no-write'', ''valid-status'', ''valid-body'',
      ''valid-row''] @ detailed_categories"

definition safe_target_test_failure_codes :: "string list" where
  "safe_target_test_failure_codes = map (\<lambda>c. ''target-test-'' @ c) (failure_categories @ [''allowlisted-tests-failed''])"

definition execution_failure_reasons :: "string list" where
  "execution_failure_reasons =
     [''observation-gate-failed'', ''sandbox-command-failed'', ''sandbox-create-failed'',
      ''sandbox-observation-gate-failed'', ''sandbox-outcome-unknown'', ''stage-observation-gate-failed'',
      ''stage-operation-failed'', ''stage-outcome-unknown'', ''stage-persistence-failed'',
      ''verification-replay-failed'', ''verifier-attestation-invalid'', ''verifier-failed'', ''verifier-not-pass'',
      ''verifier-observation-gate-failed'', ''verifier-outcome-unknown'', ''verifier-trust-unestablished'',
      ''worker-failed'', ''worker-outcome-unknown'', ''worker-proposal-invalid'', ''target-tests-failed'',
      ''target-test-readiness-exit'', ''target-test-readiness-timeout'', ''target-test-overflow-status'',
      ''target-test-overflow-no-write'', ''target-test-valid-status'', ''target-test-valid-body'',
      ''target-test-valid-row''] @ safe_target_test_failure_codes"

definition reasons :: "string list" where
  "reasons =
     [''none'', ''execution-failed'', ''worker-clarification'', ''worker-blocked'', ''worker-denied'',
      ''worker-error'', ''pipeline-error'', ''interrupted'', ''result-unavailable'']
     @ execution_failure_reasons @ unknown_phase_reasons"

definition unknown_reasons :: "string list" where
  "unknown_reasons = [''interrupted'', ''result-unavailable'', ''pipeline-error''] @ unknown_phase_reasons"

section \<open>State\<close>

text \<open>A row of \<^verbatim>\<open>attempt_events\<close>; a file that was not written by this code may hold any values.\<close>

record ledger_event =
  ev_attempt :: string
  ev_state :: pyval
  ev_input :: pyval
  ev_result :: pyval
  ev_outcome :: pyval
  ev_reason :: pyval

text \<open>
  The meta row is the schema version and the allowed IDs as \<^verbatim>\<open>json.loads\<close> reads them (\<open>None\<close>: it
  raises). Events are in the order of their IDs.
\<close>

record ledger_file =
  lf_version :: int
  lf_meta :: "(pyval \<times> pyval option) option"
  lf_attempts :: "string list"
  lf_events :: "ledger_event list"

record ledger =
  lg_file :: ledger_file
  lg_closed :: bool

record attempt_record =
  ar_id :: string
  ar_state :: pyval
  ar_input :: pyval
  ar_result :: pyval
  ar_outcome :: pyval
  ar_reason :: pyval

section \<open>Checks\<close>

text \<open>\<^verbatim>\<open>values == tuple(sorted(values, key=number))\<close>: the sort is stable.\<close>

definition by_number :: "string list \<Rightarrow> bool" where
  "by_number ids \<longleftrightarrow> ids = sort_key attempt_number ids"

definition validate_attempt_ids :: "pyval \<Rightarrow> string list res" where
  "validate_attempt_ids v =
     (let bad = ledger_error ''attempt list rejected''
      in case v of
        PTuple xs \<Rightarrow>
          unless (xs = [] \<or> 100 < length xs) bad
         (unless (list_ex (\<lambda>x. \<not> is_str x \<or> \<not> is_attempt_id (str_of x)) xs) bad
         (unless (\<not> distinct (map str_of xs)) bad
         (unless (\<not> by_number (map str_of xs)) bad (Inr (map str_of xs)))))
      | _ \<Rightarrow> Inl bad)"

definition require_digest_text :: "pyval \<Rightarrow> unit res" where
  "require_digest_text v = unless (\<not> is_str v \<or> \<not> is_digest (str_of v)) (ledger_error ''digest rejected'') (Inr ())"

text \<open>\<^verbatim>\<open>v in {...}\<close> for a set of texts.\<close>

definition in_texts :: "pyval \<Rightarrow> string list \<Rightarrow> bool res" where
  "in_texts v xs = unless (\<not> hashable v) unhashable (Inr (is_str v \<and> str_of v \<in> set xs))"

record path_facts =
  pf_typed :: bool
  pf_absolute :: bool
  pf_name :: string
  pf_parent_dir :: bool
  pf_parent_symlink :: bool
  pf_exists :: bool
  pf_symlink :: bool
  pf_file :: bool
  pf_wal :: bool
  pf_shm :: bool

definition validate_new_path :: "path_facts \<Rightarrow> unit res" where
  "validate_new_path p =
     unless (\<not> pf_typed p \<or> \<not> pf_absolute p \<or> pf_name p \<in> set [[], ''.'', ''..''] \<or> \<not> pf_parent_dir p
         \<or> pf_parent_symlink p \<or> pf_exists p \<or> pf_symlink p \<or> pf_wal p \<or> pf_shm p)
       (ledger_error ''destination unavailable'') (Inr ())"

definition validate_existing_path :: "path_facts \<Rightarrow> unit res" where
  "validate_existing_path p =
     unless (\<not> pf_typed p \<or> \<not> pf_absolute p \<or> pf_symlink p \<or> \<not> pf_file p)
       (ledger_error ''existing ledger rejected'') (Inr ())"

section \<open>Reading\<close>

definition attempt_events :: "ledger_file \<Rightarrow> string \<Rightarrow> ledger_event list" where
  "attempt_events f a = filter (\<lambda>e. ev_attempt e = a) (lf_events f)"

definition check_event :: "ledger_event \<Rightarrow> unit res" where
  "check_event e =
     rbind (require_digest_text (ev_input e)) (\<lambda>_.
     if ev_state e = PStr ''CLAIMED'' then
       unless (ev_result e \<noteq> PNone \<or> ev_outcome e \<noteq> PNone \<or> ev_reason e \<noteq> PNone) bad_ledger (Inr ())
     else if ev_state e = PStr ''COMPLETED'' then
       rbind (require_digest_text (ev_result e)) (\<lambda>_.
       rbind (in_texts (ev_outcome e) outcomes) (\<lambda>known.
       unless (\<not> known) bad_ledger
      (rbind (in_texts (ev_reason e) reasons) (\<lambda>known. unless (\<not> known) bad_ledger (Inr ())))))
     else if ev_state e = PStr ''UNKNOWN'' then
       rbind (if ev_result e = PNone then Inr () else require_digest_text (ev_result e)) (\<lambda>_.
       unless (ev_outcome e \<noteq> PNone) bad_ledger
      (rbind (in_texts (ev_reason e) unknown_reasons) (\<lambda>known. unless (\<not> known) bad_ledger (Inr ()))))
     else Inl bad_ledger)"

text \<open>The record of an attempt is its last event.\<close>

definition read_record :: "ledger_file \<Rightarrow> string \<Rightarrow> attempt_record res" where
  "read_record f a =
     unless (a \<notin> set (lf_attempts f)) bad_ledger
     (case rev (attempt_events f a) of
        [] \<Rightarrow> Inr \<lparr>ar_id = a, ar_state = PStr ''PENDING'', ar_input = PNone, ar_result = PNone, ar_outcome = PNone,
                 ar_reason = PNone\<rparr>
      | e # _ \<Rightarrow> rbind (check_event e) (\<lambda>_.
          Inr \<lparr>ar_id = a, ar_state = ev_state e, ar_input = ev_input e, ar_result = ev_result e,
               ar_outcome = ev_outcome e, ar_reason = ev_reason e\<rparr>))"

text \<open>\<^verbatim>\<open>tuple(v)\<close> of a value read from JSON.\<close>

definition json_tuple :: "pyval \<Rightarrow> pyval list res" where
  "json_tuple v = (case v of
      PList xs \<Rightarrow> Inr xs
    | PDict d \<Rightarrow> Inr (map (\<lambda>f. PStr (fst f)) d)
    | PStr s \<Rightarrow> Inr (map (\<lambda>c. PStr [c]) s)
    | _ \<Rightarrow> raise TypeError ''not iterable'')"

text \<open>The allowed IDs of the meta row, as the code reads and validates them.\<close>

definition allowed_ids :: "ledger_file \<Rightarrow> string list res" where
  "allowed_ids f = (case lf_meta f of
      Some (_, Some v) \<Rightarrow> rbind (json_tuple v) (\<lambda>xs. validate_attempt_ids (PTuple xs))
    | _ \<Rightarrow> Inl bad_ledger)"

definition check_attempt_events :: "ledger_file \<Rightarrow> string \<Rightarrow> unit res" where
  "check_attempt_events f a =
     (let es = attempt_events f a
      in unless (2 < length es) bad_ledger
        (rbind (if es = [] then Inr ()
          else unless (ev_state (hd es) \<noteq> PStr ''CLAIMED'') bad_ledger
              (rbind (require_digest_text (ev_input (hd es))) (\<lambda>_.
               unless (ev_result (hd es) \<noteq> PNone \<or> ev_outcome (hd es) \<noteq> PNone \<or> ev_reason (hd es) \<noteq> PNone)
                 bad_ledger (Inr ())))) (\<lambda>_.
         rbind (if length es = 2
           then unless (ev_input (hd es) \<noteq> ev_input (last es)
                    \<or> (ev_state (last es) \<noteq> PStr ''COMPLETED'' \<and> ev_state (last es) \<noteq> PStr ''UNKNOWN'')) bad_ledger
               (rbind (read_record f a) (\<lambda>_. Inr ()))
           else Inr ()) (\<lambda>_.
         if es \<noteq> [] \<and> ev_state (last es) = PStr ''CLAIMED'' then rbind (read_record f a) (\<lambda>_. Inr ()) else Inr ()))))"

definition validate_existing_schema :: "ledger_file \<Rightarrow> unit res" where
  "validate_existing_schema f =
     unless (lf_version f \<noteq> 1) bad_ledger
    (unless (case lf_meta f of None \<Rightarrow> True | Some (v, _) \<Rightarrow> \<not> py_eq v (PInt 1)) bad_ledger
    (rbind (allowed_ids f) (\<lambda>ids.
     unless (set (lf_attempts f) \<noteq> set ids \<or> length (lf_attempts f) \<noteq> length ids) bad_ledger
       (check_each (check_attempt_events f) ids))))"

section \<open>Creating and opening\<close>

definition ledger_meta :: "string list \<Rightarrow> pyval \<times> pyval option" where
  "ledger_meta ids = (PInt 1, Some (PList (map PStr ids)))"

text \<open>\<open>creatable\<close>: the exclusive creation of the file succeeds.\<close>

definition create :: "path_facts \<Rightarrow> bool \<Rightarrow> pyval \<Rightarrow> ledger res" where
  "create p creatable allowed =
     rbind (validate_new_path p) (\<lambda>_.
     rbind (validate_attempt_ids allowed) (\<lambda>ids.
     unless (ids \<noteq> first_five) (ledger_error ''attempt list rejected'')
    (unless (\<not> creatable) (ledger_error ''destination unavailable'')
    (Inr \<lparr>lg_file = \<lparr>lf_version = 1, lf_meta = Some (ledger_meta ids), lf_attempts = ids, lf_events = []\<rparr>,
          lg_closed = False\<rparr>))))"

text \<open>\<open>connectable\<close>: the file is a database that can be opened for writing.\<close>

definition open_existing :: "path_facts \<Rightarrow> bool \<Rightarrow> ledger_file \<Rightarrow> ledger res" where
  "open_existing p connectable f =
     rbind (validate_existing_path p) (\<lambda>_.
     unless (\<not> connectable \<or> \<not> is_ok (validate_existing_schema f)) (ledger_error ''existing ledger rejected'')
       (Inr \<lparr>lg_file = f, lg_closed = False\<rparr>))"

section \<open>Operations\<close>

definition ensure_open :: "ledger \<Rightarrow> unit res" where
  "ensure_open l = unless (lg_closed l) (ledger_error ''ledger is closed'') (Inr ())"

text \<open>
  The text a statement's parameter can match in a column of attempt IDs: a number or \<^verbatim>\<open>None\<close> matches
  none, a value SQLite cannot bind raises. Every other object is taken as one that cannot be bound.
\<close>

definition bind_id :: "pyval \<Rightarrow> string option res" where
  "bind_id v = (case v of
      PStr s \<Rightarrow> unless (has_surrogate s) (Exn UnicodeEncodeError ''surrogates not allowed'') (Inr (Some s))
    | PNone \<Rightarrow> Inr None
    | PBool b \<Rightarrow> Inr None
    | PInt n \<Rightarrow> unless (n < - (2 ^ 63) \<or> 2 ^ 63 \<le> n) (Exn OverflowError ''Python int too large'') (Inr None)
    | _ \<Rightarrow> raise ForeignError ''type is not supported'')"

definition append_event :: "ledger_event \<Rightarrow> ledger \<Rightarrow> ledger" where
  "append_event e l = l\<lparr>lg_file := (lg_file l)\<lparr>lf_events := lf_events (lg_file l) @ [e]\<rparr>\<rparr>"

definition claim :: "pyval \<Rightarrow> pyval \<Rightarrow> (ledger, unit) eff" where
  "claim a digest l =
     (case rbind (require_digest_text digest) (\<lambda>_. rbind (ensure_open l) (\<lambda>_.
         case bind_id a of
           Inl _ \<Rightarrow> Inl (ledger_error ''claim failed'')
         | Inr None \<Rightarrow> Inl (ledger_error ''claim unavailable'')
         | Inr (Some s) \<Rightarrow>
             unless (s \<notin> set (lf_attempts (lg_file l)) \<or> attempt_events (lg_file l) s \<noteq> [])
               (ledger_error ''claim unavailable'') (Inr s))) of
        Inl e \<Rightarrow> (Inl e, l)
      | Inr s \<Rightarrow> (Inr (), append_event \<lparr>ev_attempt = s, ev_state = PStr ''CLAIMED'', ev_input = digest, ev_result = PNone,
          ev_outcome = PNone, ev_reason = PNone\<rparr> l))"

text \<open>The next event of a claimed attempt repeats its input digest.\<close>

definition append_transition :: "pyval \<Rightarrow> string \<Rightarrow> pyval \<Rightarrow> pyval \<Rightarrow> pyval \<Rightarrow> (ledger, unit) eff" where
  "append_transition a state result out reason l =
     (case rbind (ensure_open l) (\<lambda>_.
         case bind_id a of
           Inl _ \<Rightarrow> Inl (ledger_error ''transition failed'')
         | Inr None \<Rightarrow> Inl (ledger_error ''transition unavailable'')
         | Inr (Some s) \<Rightarrow>
             unless (attempt_events (lg_file l) s = [] \<or> ev_state (last (attempt_events (lg_file l) s)) \<noteq> PStr ''CLAIMED'')
               (ledger_error ''transition unavailable'') (Inr s)) of
        Inl e \<Rightarrow> (Inl e, l)
      | Inr s \<Rightarrow> (Inr (), append_event \<lparr>ev_attempt = s, ev_state = PStr state,
          ev_input = ev_input (last (attempt_events (lg_file l) s)), ev_result = result, ev_outcome = out, ev_reason = reason\<rparr> l))"

definition check_result :: "pyval \<Rightarrow> pyval \<Rightarrow> pyval \<Rightarrow> unit res" where
  "check_result result out reason =
     rbind (require_digest_text result) (\<lambda>_.
     rbind (in_texts out outcomes) (\<lambda>known.
     unless (\<not> known) (ledger_error ''result rejected'')
    (rbind (in_texts reason reasons) (\<lambda>known. unless (\<not> known) (ledger_error ''result rejected'') (Inr ())))))"

definition complete :: "pyval \<Rightarrow> pyval \<Rightarrow> pyval \<Rightarrow> pyval \<Rightarrow> (ledger, unit) eff" where
  "complete a result out reason =
     ebind (elift (check_result result out reason)) (\<lambda>_. append_transition a ''COMPLETED'' result out reason)"

definition check_unknown :: "pyval \<Rightarrow> pyval \<Rightarrow> unit res" where
  "check_unknown reason result =
     rbind (in_texts reason unknown_reasons) (\<lambda>known.
     unless (\<not> known) (ledger_error ''result rejected'')
       (if result = PNone then Inr () else require_digest_text result))"

definition mark_unknown :: "pyval \<Rightarrow> pyval \<Rightarrow> pyval \<Rightarrow> (ledger, unit) eff" where
  "mark_unknown a reason result =
     ebind (elift (check_unknown reason result)) (\<lambda>_. append_transition a ''UNKNOWN'' result PNone reason)"

definition get_record :: "pyval \<Rightarrow> ledger \<Rightarrow> attempt_record res" where
  "get_record a l =
     rbind (ensure_open l) (\<lambda>_.
     rcatch (rbind (bind_id a) (\<lambda>s. case s of None \<Rightarrow> Inl bad_ledger | Some s \<Rightarrow> read_record (lg_file l) s))
       (\<lambda>_. Inl (ledger_error ''record unavailable'')))"

definition records :: "ledger \<Rightarrow> attempt_record list res" where
  "records l =
     rbind (ensure_open l) (\<lambda>_.
     rcatch (map_res (read_record (lg_file l)) (sort (lf_attempts (lg_file l))))
       (\<lambda>_. Inl (ledger_error ''records unavailable'')))"

text \<open>What the transaction of an extension checks; the result is the new list of IDs.\<close>

definition check_extension :: "ledger_file \<Rightarrow> string list \<Rightarrow> string list res" where
  "check_extension f additions =
     rbind (allowed_ids f) (\<lambda>current.
     unless (current = [] \<or> set current \<inter> set additions \<noteq> {}) bad_ledger
    (unless (\<not> by_number additions \<or> attempt_number (hd additions) \<le> attempt_number (last current)) bad_ledger
    (unless (\<not> by_number (current @ additions)) bad_ledger
    (unless (sort (lf_attempts f) \<noteq> sort current) bad_ledger (Inr (current @ additions))))))"

definition extend_allowed_attempt_ids :: "pyval \<Rightarrow> (ledger, string list) eff" where
  "extend_allowed_attempt_ids v l =
     (case rbind (validate_attempt_ids v) (\<lambda>additions. rbind (ensure_open l) (\<lambda>_.
         rcatch (rbind (check_extension (lg_file l) additions) (\<lambda>updated. Inr (additions, updated)))
           (\<lambda>_. Inl (ledger_error ''extension rejected'')))) of
        Inl e \<Rightarrow> (Inl e, l)
      | Inr (additions, updated) \<Rightarrow>
          (Inr updated, l\<lparr>lg_file := (lg_file l)\<lparr>lf_attempts := lf_attempts (lg_file l) @ additions,
             lf_meta := map_option (\<lambda>(v, _). (v, snd (ledger_meta updated))) (lf_meta (lg_file l))\<rparr>\<rparr>))"

definition close :: "ledger \<Rightarrow> ledger" where
  "close l = l\<lparr>lg_closed := True\<rparr>"

end
