(* ===== verification/Attempt_Schedule.thy ===== *)
theory Attempt_Schedule
  imports Attempt_Ledger
begin

text \<open>
  What the attempt ledger promises: the schedule, a map from attempt IDs to their state, with one step
  per call; the ledger implements it, never grants an attempt twice, keeps settled attempts, and every
  ledger it writes opens again.
\<close>

section \<open>The schedule\<close>

datatype attempt_state =
    Waiting
  | Taken pyval
  | Settled pyval pyval pyval pyval pyval

fun history_state :: "ledger_event list \<Rightarrow> attempt_state" where
  "history_state [] = Waiting"
| "history_state [a] = Taken (ev_input a)"
| "history_state (a # b # _) = Settled (ev_input a) (ev_state b) (ev_result b) (ev_outcome b) (ev_reason b)"

definition schedule :: "ledger_file \<Rightarrow> string \<Rightarrow> attempt_state option" where
  "schedule f a = (if a \<in> set (lf_attempts f) then Some (history_state (attempt_events f a)) else None)"

fun state_record :: "string \<Rightarrow> attempt_state \<Rightarrow> attempt_record" where
  "state_record a Waiting = \<lparr>ar_id = a, ar_state = PStr ''PENDING'', ar_input = PNone, ar_result = PNone, ar_outcome = PNone,
     ar_reason = PNone\<rparr>"
| "state_record a (Taken d) = \<lparr>ar_id = a, ar_state = PStr ''CLAIMED'', ar_input = d, ar_result = PNone, ar_outcome = PNone,
     ar_reason = PNone\<rparr>"
| "state_record a (Settled d s rd out reason) = \<lparr>ar_id = a, ar_state = s, ar_input = d, ar_result = rd, ar_outcome = out,
     ar_reason = reason\<rparr>"

section \<open>The invariant\<close>

fun history_ok :: "ledger_event list \<Rightarrow> bool" where
  "history_ok [] = True"
| "history_ok [a] = (ev_state a = PStr ''CLAIMED'' \<and> check_event a = Inr ())"
| "history_ok [a, b] = (ev_state a = PStr ''CLAIMED'' \<and> check_event a = Inr () \<and> check_event b = Inr () \<and>
     ev_input b = ev_input a \<and> (ev_state b = PStr ''COMPLETED'' \<or> ev_state b = PStr ''UNKNOWN''))"
| "history_ok _ = False"

definition ids_ok :: "string list \<Rightarrow> bool" where
  "ids_ok ids \<longleftrightarrow> ids \<noteq> [] \<and> list_all is_attempt_id ids \<and> distinct ids \<and> by_number ids"

definition ledger_ok :: "ledger_file \<Rightarrow> bool" where
  "ledger_ok f \<longleftrightarrow> lf_version f = 1 \<and> lf_meta f = Some (ledger_meta (lf_attempts f)) \<and> ids_ok (lf_attempts f) \<and>
     (\<forall>a. history_ok (attempt_events f a)) \<and> ev_attempt ` set (lf_events f) \<subseteq> set (lf_attempts f)"

section \<open>Attempt IDs\<close>

lemma length_six: "length s = 6 \<Longrightarrow> \<exists>r v h a b c. s = [r, v, h, a, b, c]"
  by (auto simp: length_Suc_conv eval_nat_numeral)

lemma digit_zero: "byte x = 48 \<longleftrightarrow> x = CHR ''0''"
  using of_char_eq_iff [of x "CHR ''0''", where 'a = nat] by simp

lemma digit_bounds: "is_digit x \<Longrightarrow> 48 \<le> byte x \<and> byte x \<le> 57"
  by (simp add: is_digit_def)

lemma attempt_id_digits:
  assumes "is_attempt_id s"
  obtains a b c where "s = ''R5-'' @ [a, b, c]" "is_digit a" "is_digit b" "is_digit c"
    "attempt_number s = 100 * (byte a - 48) + 10 * (byte b - 48) + (byte c - 48)"
    "1 \<le> attempt_number s" "attempt_number s \<le> 100"
proof -
  from assms obtain a b c where s: "s = [CHR ''R'', CHR ''5'', CHR ''-'', a, b, c]"
    using length_six [of s] by (auto simp: is_attempt_id_def)
  have n: "attempt_number s = 100 * (byte a - 48) + 10 * (byte b - 48) + (byte c - 48)"
    by (simp add: attempt_number_def s)
  from assms consider "a = CHR ''0''" "b = CHR ''0''" "is_digit c" "byte c \<noteq> 48"
    | "a = CHR ''0''" "is_digit b" "byte b \<noteq> 48" "is_digit c"
    | "a = CHR ''1''" "b = CHR ''0''" "c = CHR ''0''"
    by (auto simp: is_attempt_id_def s Let_def digit_zero)
  then have "is_digit a \<and> is_digit b \<and> is_digit c \<and> 1 \<le> attempt_number s \<and> attempt_number s \<le> 100"
  proof cases
    case 1
    with digit_bounds [of c] have "1 \<le> byte c - 48 \<and> byte c - 48 \<le> 9" by linarith
    with 1 show ?thesis by (simp add: n is_digit_def)
  next
    case 2
    with digit_bounds [of b] digit_bounds [of c] have "1 \<le> byte b - 48 \<and> byte b - 48 \<le> 9 \<and> byte c - 48 \<le> 9" by linarith
    then have "1 \<le> 10 * (byte b - 48) + (byte c - 48) \<and> 10 * (byte b - 48) + (byte c - 48) \<le> 100" by linarith
    moreover have "attempt_number s = 10 * (byte b - 48) + (byte c - 48)" using 2 by (simp add: n)
    ultimately show ?thesis using 2 by (simp add: is_digit_def)
  next
    case 3
    then show ?thesis by (simp add: n is_digit_def)
  qed
  with n show ?thesis using that [of a b c] s by simp
qed

lemma three_digits:
  fixes x y z :: nat
  assumes "100 * x + 10 * y + z = 100 * x' + 10 * y' + z'" "y \<le> 9" "z \<le> 9" "y' \<le> 9" "z' \<le> 9"
  shows "x = x' \<and> y = y' \<and> z = z'"
proof -
  have "x = x'" using assms by linarith
  moreover from this have "y = y'" using assms by linarith
  ultimately show ?thesis using assms by linarith
qed

lemma attempt_number_inj: "inj_on attempt_number {s. is_attempt_id s}"
proof (rule inj_onI)
  fix s t assume "s \<in> {s. is_attempt_id s}" "t \<in> {s. is_attempt_id s}" and eq: "attempt_number s = attempt_number t"
  then have "is_attempt_id s" "is_attempt_id t" by simp_all
  then obtain a b c a' b' c' where s: "s = ''R5-'' @ [a, b, c]" "is_digit a" "is_digit b" "is_digit c"
    "attempt_number s = 100 * (byte a - 48) + 10 * (byte b - 48) + (byte c - 48)"
    and t: "t = ''R5-'' @ [a', b', c']" "is_digit a'" "is_digit b'" "is_digit c'"
    "attempt_number t = 100 * (byte a' - 48) + 10 * (byte b' - 48) + (byte c' - 48)"
    by (metis attempt_id_digits)
  note d = s(2-4) [THEN digit_bounds] t(2-4) [THEN digit_bounds]
  have "byte a - 48 = byte a' - 48 \<and> byte b - 48 = byte b' - 48 \<and> byte c - 48 = byte c' - 48"
    by (rule three_digits [OF eq [unfolded s(5) t(5)]]) (use d in linarith)+
  then have "byte a = byte a' \<and> byte b = byte b' \<and> byte c = byte c'" using d by linarith
  then show "s = t" unfolding s(1) t(1) by simp
qed

lemma attempt_ids_bounded:
  assumes "list_all is_attempt_id ids" "distinct ids"
  shows "length ids \<le> 100"
proof -
  have i: "inj_on attempt_number (set ids)"
    by (rule inj_on_subset [OF attempt_number_inj]) (use assms(1) in \<open>auto simp: list_all_iff\<close>)
  have "attempt_number ` set ids \<subseteq> {1..100}"
  proof (rule image_subsetI)
    fix x assume "x \<in> set ids"
    with assms(1) have "is_attempt_id x" by (simp add: list_all_iff)
    then show "attempt_number x \<in> {1..100}" by (rule attempt_id_digits) simp
  qed
  then have "card (set ids) \<le> card {1..100 :: nat}" using i by (intro card_inj_on_le [of attempt_number]) auto
  then show ?thesis using assms(2) by (simp add: distinct_card)
qed

lemma attempt_id_ascii: "is_attempt_id s \<Longrightarrow> ascii s"
  by (erule attempt_id_digits) (auto simp: ascii_iff dest!: digit_bounds)

lemma attempt_id_binds: "is_attempt_id s \<Longrightarrow> bind_id (PStr s) = Inr (Some s)"
  using no_surrogate_ascii [OF attempt_id_ascii] by (simp add: bind_id_def)

lemma validate_ids_Inr:
  "validate_attempt_ids v = Inr ids \<longleftrightarrow> v = PTuple (map PStr ids) \<and> ids_ok ids"
proof
  assume v: "validate_attempt_ids v = Inr ids"
  then obtain xs where xs: "v = PTuple xs" by (cases v) (auto simp: validate_attempt_ids_def Let_def)
  with v have x: "xs \<noteq> []" "\<forall>x\<in>set xs. is_str x \<and> is_attempt_id (str_of x)" "distinct ids" "by_number ids" "ids = map str_of xs"
    by (auto simp: validate_attempt_ids_def Let_def list_ex_iff)
  have "map PStr (map str_of xs) = xs" using x(2) by (induction xs) (auto simp: is_str_iff)
  with x xs show "v = PTuple (map PStr ids) \<and> ids_ok ids" by (simp add: ids_ok_def list_all_iff)
next
  assume "v = PTuple (map PStr ids) \<and> ids_ok ids"
  then show "validate_attempt_ids v = Inr ids"
    using attempt_ids_bounded [of ids]
    by (auto simp: validate_attempt_ids_def Let_def ids_ok_def list_ex_iff list_all_iff comp_def)
qed

section \<open>Extensions\<close>

lemma by_number_sorted: "by_number ids \<longleftrightarrow> sorted (map attempt_number ids)"
  unfolding by_number_def by (metis sorted_sort_key sort_key_id_if_sorted)

lemma allowed_ids_ok: "ledger_ok f \<Longrightarrow> allowed_ids f = Inr (lf_attempts f)"
  by (auto simp: ledger_ok_def allowed_ids_def ledger_meta_def json_tuple_def validate_ids_Inr)

lemma extension_order:
  assumes "ids_ok cur" "ids_ok new"
  shows "set cur \<inter> set new = {} \<and> attempt_number (last cur) < attempt_number (hd new) \<and> by_number (cur @ new) \<longleftrightarrow>
    (\<forall>x\<in>set cur. \<forall>y\<in>set new. attempt_number x < attempt_number y)" (is "?l \<longleftrightarrow> ?r")
proof
  have c: "cur \<noteq> []" "sorted (map attempt_number cur)" "new \<noteq> []" "sorted (map attempt_number new)"
    using assms by (simp_all add: ids_ok_def by_number_sorted)
  have last: "attempt_number x \<le> attempt_number (last cur)" if "x \<in> set cur" for x
    using c(1,2) that by (induction cur rule: rev_induct) (auto simp: sorted_append)
  have hd: "attempt_number (hd new) \<le> attempt_number y" if "y \<in> set new" for y
    using c(3,4) that by (cases new) auto
  show ?r if ?l
  proof (intro ballI)
    fix x y assume "x \<in> set cur" "y \<in> set new"
    with last [of x] hd [of y] that show "attempt_number x < attempt_number y" by linarith
  qed
  show ?l if ?r
    using that c by (force simp: by_number_sorted sorted_append)
qed

lemma check_extension_Inr:
  assumes "ledger_ok f" "ids_ok new"
  shows "check_extension f new = Inr up \<longleftrightarrow>
    up = lf_attempts f @ new \<and> (\<forall>x\<in>set (lf_attempts f). \<forall>y\<in>set new. attempt_number x < attempt_number y)"
proof -
  have i: "ids_ok (lf_attempts f)" "lf_attempts f \<noteq> []" using assms(1) by (auto simp: ledger_ok_def ids_ok_def)
  have "by_number new" using assms(2) by (simp add: ids_ok_def)
  then show ?thesis
    unfolding extension_order [OF i(1) assms(2), symmetric]
    by (auto simp: check_extension_def allowed_ids_ok [OF assms(1)] i(2))
qed

lemma ids_ok_append:
  assumes "ids_ok cur" "ids_ok new" "\<forall>x\<in>set cur. \<forall>y\<in>set new. attempt_number x < attempt_number y"
  shows "ids_ok (cur @ new)"
  using assms extension_order [OF assms(1,2)] by (auto simp: ids_ok_def list_all_iff)

section \<open>One call\<close>

lemma schedule_Some: "schedule f a = Some st \<Longrightarrow> a \<in> set (lf_attempts f) \<and> st = history_state (attempt_events f a)"
  by (auto simp: schedule_def split: if_splits)

lemma schedule_Waiting: "schedule f a = Some Waiting \<longleftrightarrow> a \<in> set (lf_attempts f) \<and> attempt_events f a = []"
  by (cases "attempt_events f a" rule: history_state.cases) (auto simp: schedule_def)

text \<open>A known history is empty, a claim, or a claim and its settlement.\<close>

lemma history_cases:
  assumes "history_ok es"
  obtains (waiting) "es = []" "history_state es = Waiting"
  | (taken) a where "es = [a]" "ev_state a = PStr ''CLAIMED''" "check_event a = Inr ()" "history_state es = Taken (ev_input a)"
  | (settled) a b where "es = [a, b]" "ev_state b \<noteq> PStr ''CLAIMED''"
      "history_state es = Settled (ev_input a) (ev_state b) (ev_result b) (ev_outcome b) (ev_reason b)"
  using assms by (cases es rule: history_ok.cases) auto

lemma ledger_history: "ledger_ok f \<Longrightarrow> history_ok (attempt_events f a)"
  by (simp add: ledger_ok_def)

lemma ledger_id: "ledger_ok f \<Longrightarrow> a \<in> set (lf_attempts f) \<Longrightarrow> bind_id (PStr a) = Inr (Some a)"
  by (rule attempt_id_binds) (auto simp: ledger_ok_def ids_ok_def list_all_iff)

lemma events_only_known: "ledger_ok f \<Longrightarrow> attempt_events f a \<noteq> [] \<Longrightarrow> a \<in> set (lf_attempts f)"
  by (auto simp: ledger_ok_def attempt_events_def filter_empty_conv)

lemma append_event_sel [simp]:
  "lg_closed (append_event e l) = lg_closed l" "lf_attempts (lg_file (append_event e l)) = lf_attempts (lg_file l)"
  "lf_version (lg_file (append_event e l)) = lf_version (lg_file l)" "lf_meta (lg_file (append_event e l)) = lf_meta (lg_file l)"
  "lf_events (lg_file (append_event e l)) = lf_events (lg_file l) @ [e]"
  "attempt_events (lg_file (append_event e l)) a = attempt_events (lg_file l) a @ (if ev_attempt e = a then [e] else [])"
  by (simp_all add: append_event_def attempt_events_def)

lemma append_event_ok:
  assumes "ledger_ok (lg_file l)" "ev_attempt e \<in> set (lf_attempts (lg_file l))"
    "history_ok (attempt_events (lg_file l) (ev_attempt e) @ [e])"
  shows "ledger_ok (lg_file (append_event e l))"
  using assms by (auto simp: ledger_ok_def)

lemma append_event_schedule:
  assumes "ev_attempt e \<in> set (lf_attempts (lg_file l))"
  shows "schedule (lg_file (append_event e l)) =
    (schedule (lg_file l))(ev_attempt e \<mapsto> history_state (attempt_events (lg_file l) (ev_attempt e) @ [e]))"
  using assms by (auto simp: schedule_def)

text \<open>When a claim and a append_transition are granted, and what they append.\<close>

definition can_claim :: "pyval \<Rightarrow> pyval \<Rightarrow> ledger \<Rightarrow> bool" where
  "can_claim a d l \<longleftrightarrow> require_digest_text d = Inr () \<and> \<not> lg_closed l \<and> is_str a \<and> schedule (lg_file l) (str_of a) = Some Waiting"

definition can_settle :: "pyval \<Rightarrow> ledger \<Rightarrow> bool" where
  "can_settle a l \<longleftrightarrow> \<not> lg_closed l \<and> is_str a \<and> (\<exists>d. schedule (lg_file l) (str_of a) = Some (Taken d))"

lemma claim_granted:
  assumes "ledger_ok (lg_file l)" "can_claim a d l"
  shows "claim a d l = (Inr (), append_event \<lparr>ev_attempt = str_of a, ev_state = PStr ''CLAIMED'', ev_input = d, ev_result = PNone,
      ev_outcome = PNone, ev_reason = PNone\<rparr> l)"
proof -
  from assms(2) obtain s where s: "a = PStr s" "s \<in> set (lf_attempts (lg_file l))" "attempt_events (lg_file l) s = []"
    by (auto simp: can_claim_def is_str_iff schedule_Waiting)
  then show ?thesis
    using assms ledger_id [OF assms(1)] by (simp add: claim_def can_claim_def ensure_open_def)
qed

lemma claim_refused:
  assumes "ledger_ok (lg_file l)" "\<not> can_claim a d l"
  shows "\<exists>e. claim a d l = (Inl e, l)"
proof (cases "require_digest_text d = Inr () \<and> \<not> lg_closed l")
  case True
  then have "\<not> (\<exists>s. bind_id a = Inr (Some s) \<and> s \<in> set (lf_attempts (lg_file l)) \<and> attempt_events (lg_file l) s = [])"
    using assms(2) by (auto simp: can_claim_def schedule_Waiting bind_id_def split: pyval.splits)
  then show ?thesis
    using True by (auto simp: claim_def ensure_open_def unless_def split: sum.splits option.splits)
next
  case False
  then show ?thesis
    by (cases "require_digest_text d") (auto simp: claim_def ensure_open_def)
qed

lemma settle_event:
  assumes "ledger_ok (lg_file l)" "can_settle a l"
  obtains s e where "a = PStr s" "s \<in> set (lf_attempts (lg_file l))" "attempt_events (lg_file l) s = [e]"
    "ev_state e = PStr ''CLAIMED''" "check_event e = Inr ()" "schedule (lg_file l) s = Some (Taken (ev_input e))"
proof -
  from assms(2) obtain s d where s: "a = PStr s" "schedule (lg_file l) s = Some (Taken d)"
    by (auto simp: can_settle_def is_str_iff)
  from ledger_history [OF assms(1), of s] schedule_Some [OF s(2)] s show ?thesis
    by (cases rule: history_cases) (auto intro: that)
qed

lemma transition_granted:
  assumes "ledger_ok (lg_file l)" "a = PStr s" "s \<in> set (lf_attempts (lg_file l))" "attempt_events (lg_file l) s = [e]"
    "ev_state e = PStr ''CLAIMED''" "\<not> lg_closed l"
  shows "append_transition a st rd out reason l = (Inr (), append_event \<lparr>ev_attempt = s, ev_state = PStr st, ev_input = ev_input e,
      ev_result = rd, ev_outcome = out, ev_reason = reason\<rparr> l)"
  using assms ledger_id [OF assms(1,3)] by (simp add: append_transition_def ensure_open_def)

lemma transition_refused:
  assumes "ledger_ok (lg_file l)" "\<not> can_settle a l"
  shows "\<exists>x. append_transition a st rd out reason l = (Inl x, l)"
proof (cases "lg_closed l")
  case True
  then show ?thesis by (simp add: append_transition_def ensure_open_def)
next
  case False
  have "attempt_events (lg_file l) s = [] \<or> ev_state (last (attempt_events (lg_file l) s)) \<noteq> PStr ''CLAIMED''"
    if "bind_id a = Inr (Some s)" for s
  proof -
    from that have a: "a = PStr s" by (auto simp: bind_id_def split: pyval.splits)
    from ledger_history [OF assms(1), of s] show ?thesis
    proof (cases rule: history_cases)
      case (taken e)
      then have "schedule (lg_file l) s = Some (Taken (ev_input e))"
        using events_only_known [OF assms(1), of s] by (simp add: schedule_def)
      with assms(2) False a show ?thesis by (auto simp: can_settle_def)
    qed auto
  qed
  with False show ?thesis
    by (auto simp: append_transition_def ensure_open_def unless_def split: sum.splits option.splits)
qed

section \<open>The schedule's steps\<close>

datatype ledger_call =
    Claim pyval pyval
  | Complete pyval pyval pyval pyval
  | Mark_Unknown pyval pyval pyval
  | Extend pyval
  | Close
  | Reopen path_facts

fun run_ledger :: "ledger_call \<Rightarrow> ledger \<Rightarrow> ledger" where
  "run_ledger (Claim a d) l = snd (claim a d l)"
| "run_ledger (Complete a rd out reason) l = snd (complete a rd out reason l)"
| "run_ledger (Mark_Unknown a reason rd) l = snd (mark_unknown a reason rd l)"
| "run_ledger (Extend v) l = snd (extend_allowed_attempt_ids v l)"
| "run_ledger Close l = close l"
| "run_ledger (Reopen p) l = (case open_existing p True (lg_file l) of Inl _ \<Rightarrow> l | Inr l' \<Rightarrow> l')"

text \<open>The abstract machine: the schedule and whether the connection is closed.\<close>

type_synonym board = "(string \<Rightarrow> attempt_state option) \<times> bool"

definition board_of :: "ledger \<Rightarrow> board" where
  "board_of l = (schedule (lg_file l), lg_closed l)"

fun settle_state :: "attempt_state option \<Rightarrow> pyval \<Rightarrow> pyval \<Rightarrow> pyval \<Rightarrow> pyval \<Rightarrow> attempt_state option" where
  "settle_state (Some (Taken d)) st rd out reason = Some (Settled d st rd out reason)"
| "settle_state x st rd out reason = x"

fun step_board :: "ledger_call \<Rightarrow> board \<Rightarrow> board" where
  "step_board (Claim a d) (m, c) =
     (if require_digest_text d = Inr () \<and> \<not> c \<and> is_str a \<and> m (str_of a) = Some Waiting then (m(str_of a \<mapsto> Taken d), c) else (m, c))"
| "step_board (Complete a rd out reason) (m, c) =
     (if check_result rd out reason = Inr () \<and> \<not> c \<and> is_str a
      then (m(str_of a := settle_state (m (str_of a)) (PStr ''COMPLETED'') rd out reason), c) else (m, c))"
| "step_board (Mark_Unknown a reason rd) (m, c) =
     (if check_unknown reason rd = Inr () \<and> \<not> c \<and> is_str a
      then (m(str_of a := settle_state (m (str_of a)) (PStr ''UNKNOWN'') rd PNone reason), c) else (m, c))"
| "step_board (Extend v) (m, c) =
     (case validate_attempt_ids v of
        Inl _ \<Rightarrow> (m, c)
      | Inr new \<Rightarrow>
          if \<not> c \<and> (\<forall>x\<in>dom m. \<forall>y\<in>set new. attempt_number x < attempt_number y)
          then (\<lambda>a. if a \<in> set new then Some Waiting else m a, c) else (m, c))"
| "step_board Close (m, c) = (m, True)"
| "step_board (Reopen p) (m, c) = (m, c \<and> \<not> is_ok (validate_existing_path p))"

text \<open>Every ledger that satisfies the invariant opens.\<close>

lemma ledger_ok_opens:
  assumes "ledger_ok f"
  shows "validate_existing_schema f = Inr ()"
proof -
  have "check_attempt_events f a = Inr ()" if a: "a \<in> set (lf_attempts f)" for a
    using ledger_history [OF assms, of a]
  proof (cases rule: history_cases)
    case waiting
    then show ?thesis by (simp add: check_attempt_events_def)
  next
    case (taken e)
    then show ?thesis using a
      by (auto simp: check_attempt_events_def read_record_def check_event_def)
  next
    case (settled e e')
    then show ?thesis using a ledger_history [OF assms, of a]
      by (auto simp: check_attempt_events_def read_record_def check_event_def [of e])
  qed
  moreover have "lf_version f = 1" "lf_meta f = Some (ledger_meta (lf_attempts f))" using assms by (simp_all add: ledger_ok_def)
  ultimately show ?thesis
    by (simp add: validate_existing_schema_def allowed_ids_ok [OF assms] ledger_meta_def)
qed

section \<open>The ledger implements the schedule\<close>

text \<open>What every call keeps: the invariant, the abstract step, and the events already written.\<close>

definition implements :: "ledger_call \<Rightarrow> ledger \<Rightarrow> ledger \<Rightarrow> bool" where
  "implements c l l' \<longleftrightarrow> ledger_ok (lg_file l') \<and> board_of l' = step_board c (board_of l) \<and>
     (\<exists>es. lf_events (lg_file l') = lf_events (lg_file l) @ es)"

lemma claim_event_ok:
  "require_digest_text d = Inr () \<Longrightarrow> check_event \<lparr>ev_attempt = s, ev_state = PStr ''CLAIMED'', ev_input = d, ev_result = PNone,
     ev_outcome = PNone, ev_reason = PNone\<rparr> = Inr ()"
  by (simp add: check_event_def)

lemma implements_claim:
  assumes "ledger_ok (lg_file l)"
  shows "implements (Claim a d) l (snd (claim a d l))"
proof (cases "can_claim a d l")
  case True
  let ?e = "\<lparr>ev_attempt = str_of a, ev_state = PStr ''CLAIMED'', ev_input = d, ev_result = PNone, ev_outcome = PNone, ev_reason = PNone\<rparr>"
  from True have w: "require_digest_text d = Inr ()" "\<not> lg_closed l" "is_str a" "str_of a \<in> set (lf_attempts (lg_file l))"
    "attempt_events (lg_file l) (str_of a) = []" "schedule (lg_file l) (str_of a) = Some Waiting"
    by (auto simp: can_claim_def schedule_Waiting)
  have "ledger_ok (lg_file (append_event ?e l))"
    by (rule append_event_ok [OF assms]) (use w claim_event_ok in simp_all)
  moreover have "schedule (lg_file (append_event ?e l)) = (schedule (lg_file l))(str_of a \<mapsto> Taken d)"
    using append_event_schedule [of ?e l] w by simp
  ultimately show ?thesis
    using claim_granted [OF assms True] w by (simp add: implements_def board_of_def)
next
  case False
  then show ?thesis
    using claim_refused [OF assms False] assms by (auto simp: implements_def board_of_def can_claim_def)
qed

lemma settle_state_other: "\<nexists>d. x = Some (Taken d) \<Longrightarrow> settle_state x st rd out reason = x"
  by (induction x st rd out reason rule: settle_state.induct) auto

text \<open>A append_transition whose arguments passed the checks of its state.\<close>

lemma implements_transition:
  fixes a :: pyval
  assumes "ledger_ok (lg_file l)" "st = ''COMPLETED'' \<or> st = ''UNKNOWN''"
    and "\<And>e. require_digest_text (ev_input e) = Inr () \<Longrightarrow> ev_state e = PStr st \<Longrightarrow> ev_result e = rd \<Longrightarrow>
      ev_outcome e = out \<Longrightarrow> ev_reason e = reason \<Longrightarrow> check_event e = Inr ()"
  defines "l' \<equiv> snd (append_transition a st rd out reason l)"
  shows "ledger_ok (lg_file l') \<and> (\<exists>es. lf_events (lg_file l') = lf_events (lg_file l) @ es) \<and> lg_closed l' = lg_closed l \<and>
    schedule (lg_file l') = (if \<not> lg_closed l \<and> is_str a
      then (schedule (lg_file l))(str_of a := settle_state (schedule (lg_file l) (str_of a)) (PStr st) rd out reason)
      else schedule (lg_file l))"
proof (cases "can_settle a l")
  case True
  obtain s e where s: "a = PStr s" "s \<in> set (lf_attempts (lg_file l))" "attempt_events (lg_file l) s = [e]"
    "ev_state e = PStr ''CLAIMED''" "check_event e = Inr ()" "schedule (lg_file l) s = Some (Taken (ev_input e))"
    using settle_event [OF assms(1) True] by blast
  let ?e = "\<lparr>ev_attempt = s, ev_state = PStr st, ev_input = ev_input e, ev_result = rd, ev_outcome = out, ev_reason = reason\<rparr>"
  have o: "\<not> lg_closed l" using True by (simp add: can_settle_def)
  have l': "l' = append_event ?e l"
    unfolding l'_def transition_granted [OF assms(1) s(1-4) o] by simp
  have "check_event ?e = Inr ()"
    by (rule assms(3)) (use s(5) in \<open>simp_all add: check_event_def\<close>)
  then have "ledger_ok (lg_file l')"
    unfolding l' by (intro append_event_ok [OF assms(1)]) (use s assms(2) in auto)
  moreover have "schedule (lg_file l') = (schedule (lg_file l))(s \<mapsto> Settled (ev_input e) (PStr st) rd out reason)"
    unfolding l' using append_event_schedule [of ?e l] s by simp
  ultimately show ?thesis using s o by (simp add: l')
next
  case False
  obtain x where "append_transition a st rd out reason l = (Inl x, l)" using transition_refused [OF assms(1) False] by blast
  then have "l' = l" by (simp add: l'_def)
  moreover have "settle_state (schedule (lg_file l) (str_of a)) (PStr st) rd out reason = schedule (lg_file l) (str_of a)"
    if "\<not> lg_closed l" "is_str a"
    by (rule settle_state_other) (use that False in \<open>auto simp: can_settle_def\<close>)
  ultimately show ?thesis using assms(1) by simp
qed

lemma implements_complete:
  assumes "ledger_ok (lg_file l)"
  shows "implements (Complete a rd out reason) l (snd (complete a rd out reason l))"
proof (cases "check_result rd out reason")
  case (Inl x)
  then show ?thesis using assms by (simp add: implements_def complete_def ebind_def board_of_def)
next
  case (Inr u)
  then have "check_event e = Inr ()" if "require_digest_text (ev_input e) = Inr ()" "ev_state e = PStr ''COMPLETED''"
    "ev_result e = rd" "ev_outcome e = out" "ev_reason e = reason" for e
    using that by (simp add: check_event_def check_result_def)
  with implements_transition [OF assms, of "''COMPLETED''" rd out reason a] Inr show ?thesis
    by (simp add: implements_def complete_def ebind_def board_of_def)
qed

lemma implements_mark_unknown:
  assumes "ledger_ok (lg_file l)"
  shows "implements (Mark_Unknown a reason rd) l (snd (mark_unknown a reason rd l))"
proof (cases "check_unknown reason rd")
  case (Inl x)
  then show ?thesis using assms by (simp add: implements_def mark_unknown_def ebind_def board_of_def)
next
  case (Inr u)
  then have "check_event e = Inr ()" if "require_digest_text (ev_input e) = Inr ()" "ev_state e = PStr ''UNKNOWN''"
    "ev_result e = rd" "ev_outcome e = PNone" "ev_reason e = reason" for e
    using that by (auto simp: check_event_def check_unknown_def split: if_splits)
  with implements_transition [OF assms, of "''UNKNOWN''" rd PNone reason a] Inr show ?thesis
    by (simp add: implements_def mark_unknown_def ebind_def board_of_def)
qed

lemma extend_refused:
  assumes "validate_attempt_ids v = Inl e \<or> lg_closed l \<or> (\<exists>new. validate_attempt_ids v = Inr new \<and> check_extension (lg_file l) new = Inl e)"
  shows "\<exists>x. extend_allowed_attempt_ids v l = (Inl x, l)"
  using assms by (cases "validate_attempt_ids v"; cases "lg_closed l") (auto simp: extend_allowed_attempt_ids_def ensure_open_def rcatch_def)

lemma implements_extend:
  assumes "ledger_ok (lg_file l)"
  shows "implements (Extend v) l (snd (extend_allowed_attempt_ids v l))"
proof (cases "validate_attempt_ids v")
  case (Inl e)
  with extend_refused [of v e l] assms show ?thesis by (auto simp: implements_def board_of_def)
next
  case (Inr new)
  then have new: "ids_ok new" by (simp add: validate_ids_Inr)
  let ?f = "lg_file l"
  have dom: "dom (schedule ?f) = set (lf_attempts ?f)" by (auto simp: schedule_def split: if_splits)
  show ?thesis
  proof (cases "\<not> lg_closed l \<and> (\<forall>x\<in>set (lf_attempts ?f). \<forall>y\<in>set new. attempt_number x < attempt_number y)")
    case True
    then have up: "check_extension ?f new = Inr (lf_attempts ?f @ new)" by (simp add: check_extension_Inr [OF assms new])
    have meta: "lf_meta ?f = Some (ledger_meta (lf_attempts ?f))" "ids_ok (lf_attempts ?f)" using assms by (simp_all add: ledger_ok_def)
    let ?f' = "?f\<lparr>lf_attempts := lf_attempts ?f @ new, lf_meta := Some (ledger_meta (lf_attempts ?f @ new))\<rparr>"
    have run: "extend_allowed_attempt_ids v l = (Inr (lf_attempts ?f @ new), l\<lparr>lg_file := ?f'\<rparr>)"
      using True up meta(1) by (simp add: extend_allowed_attempt_ids_def Inr ensure_open_def ledger_meta_def)
    have ev: "attempt_events ?f' a = attempt_events ?f a" for a by (simp add: attempt_events_def)
    have "ledger_ok ?f'"
      using assms ids_ok_append [OF meta(2) new] True by (auto simp: ledger_ok_def ev)
    moreover have "schedule ?f' = (\<lambda>a. if a \<in> set new then Some Waiting else schedule ?f a)"
    proof (rule ext)
      fix a
      have "attempt_events ?f a = []" if "a \<in> set new"
        using events_only_known [OF assms, of a] True that by force
      then show "schedule ?f' a = (if a \<in> set new then Some Waiting else schedule ?f a)"
        by (simp add: schedule_def ev)
    qed
    ultimately show ?thesis using True by (simp add: implements_def board_of_def run Inr dom)
  next
    case False
    have "lg_closed l \<or> (\<exists>e. check_extension ?f new = Inl e)"
      using False check_extension_Inr [OF assms new] by (cases "check_extension ?f new") auto
    then obtain x where "extend_allowed_attempt_ids v l = (Inl x, l)" using extend_refused [of v _ l] Inr by blast
    with False assms show ?thesis by (auto simp: implements_def board_of_def Inr dom)
  qed
qed

lemma open_existing_ok:
  assumes "ledger_ok f" "validate_existing_path p = Inr ()"
  shows "open_existing p True f = Inr \<lparr>lg_file = f, lg_closed = False\<rparr>"
  using assms by (simp add: open_existing_def ledger_ok_opens)

lemma implements_reopen:
  assumes "ledger_ok (lg_file l)"
  shows "implements (Reopen p) l (run_ledger (Reopen p) l)"
proof (cases "validate_existing_path p")
  case (Inl e)
  then have "open_existing p True (lg_file l) = Inl e" by (simp add: open_existing_def)
  with Inl assms show ?thesis by (simp add: implements_def board_of_def)
next
  case (Inr u)
  with open_existing_ok [OF assms, of p] assms show ?thesis by (simp add: implements_def board_of_def)
qed

lemma run_ledger_implements: "ledger_ok (lg_file l) \<Longrightarrow> implements c l (run_ledger c l)"
  using implements_claim implements_complete implements_mark_unknown implements_extend implements_reopen
  by (cases c) (auto simp: implements_def board_of_def close_def)

lemma run_ledger_list:
  assumes "ledger_ok (lg_file l)"
  shows "ledger_ok (lg_file (fold run_ledger cs l)) \<and> board_of (fold run_ledger cs l) = fold step_board cs (board_of l) \<and>
    (\<exists>es. lf_events (lg_file (fold run_ledger cs l)) = lf_events (lg_file l) @ es)"
  using assms
proof (induction cs arbitrary: l)
  case Nil
  then show ?case by simp
next
  case (Cons c cs)
  have i: "implements c l (run_ledger c l)" by (rule run_ledger_implements [OF Cons.prems])
  then have "ledger_ok (lg_file (run_ledger c l))" by (simp add: implements_def)
  from Cons.IH [OF this] i show ?case by (auto simp: implements_def)
qed

lemma create_ok: "create p creatable v = Inr l \<Longrightarrow> ledger_ok (lg_file l) \<and> \<not> lg_closed l \<and> lf_events (lg_file l) = [] \<and>
    lf_attempts (lg_file l) = first_five"
  by (auto simp: create_def ledger_ok_def validate_ids_Inr attempt_events_def)

section \<open>Reading the records\<close>

lemma read_record_ok:
  assumes "ledger_ok f" "a \<in> set (lf_attempts f)"
  shows "read_record f a = Inr (state_record a (history_state (attempt_events f a)))"
  using ledger_history [OF assms(1), of a] assms(2)
proof (cases rule: history_cases)
  case waiting
  then show ?thesis using assms(2) by (simp add: read_record_def)
next
  case (taken e)
  then show ?thesis using assms(2) by (auto simp: read_record_def check_event_def)
next
  case (settled e e')
  then show ?thesis using assms(2) ledger_history [OF assms(1), of a] by (auto simp: read_record_def)
qed

lemma records_ok:
  assumes "ledger_ok f"
  shows "records \<lparr>lg_file = f, lg_closed = False\<rparr> = Inr (map (\<lambda>a. state_record a (the (schedule f a))) (sort (lf_attempts f)))"
proof -
  have "map_res (read_record f) (sort (lf_attempts f)) = Inr (map (\<lambda>a. state_record a (the (schedule f a))) (sort (lf_attempts f)))"
    by (rule map_res_all) (simp add: read_record_ok [OF assms] schedule_def)
  then show ?thesis by (simp add: records_def ensure_open_def)
qed

lemma get_record_ok:
  assumes "ledger_ok (lg_file l)" "\<not> lg_closed l"
  shows "get_record a l = (case (if is_str a then schedule (lg_file l) (str_of a) else None) of
      None \<Rightarrow> Inl (ledger_error ''record unavailable'')
    | Some st \<Rightarrow> Inr (state_record (str_of a) st))"
proof (cases "\<exists>s. a = PStr s \<and> s \<in> set (lf_attempts (lg_file l))")
  case True
  then obtain s where s: "a = PStr s" "s \<in> set (lf_attempts (lg_file l))" by blast
  then show ?thesis
    using assms(2) ledger_id [OF assms(1) s(2)] read_record_ok [OF assms(1) s(2)]
    by (simp add: get_record_def ensure_open_def schedule_def)
next
  case False
  then have "rbind (bind_id a) (\<lambda>s. case s of None \<Rightarrow> Inl bad_ledger | Some s \<Rightarrow> read_record (lg_file l) s) \<in> range Inl"
    by (auto simp: bind_id_def read_record_def unless_def split: pyval.splits)
  then show ?thesis
    using False assms(2) by (auto simp: get_record_def ensure_open_def schedule_def is_str_iff)
qed

section \<open>Claims granted\<close>

fun grants :: "string \<Rightarrow> ledger_call list \<Rightarrow> ledger \<Rightarrow> nat" where
  "grants s [] l = 0"
| "grants s (c # cs) l =
     (case c of Claim a d \<Rightarrow> (if a = PStr s \<and> is_ok (fst (claim a d l)) then 1 else 0) | _ \<Rightarrow> 0)
       + grants s cs (run_ledger c l)"

definition claimable :: "string \<Rightarrow> ledger \<Rightarrow> nat" where
  "claimable s l = (case schedule (lg_file l) s of None \<Rightarrow> 1 | Some st \<Rightarrow> if st = Waiting then 1 else 0)"

lemma granted_is_waiting:
  assumes "ledger_ok (lg_file l)" "is_ok (fst (claim (PStr s) d l))"
  shows "can_claim (PStr s) d l"
  using assms claim_refused [OF assms(1)] by fastforce

text \<open>A step of the schedule never makes an attempt claimable that was not.\<close>

lemma step_board_claimed:
  "fst b s = Some st \<Longrightarrow> st \<noteq> Waiting \<Longrightarrow> \<exists>st'. fst (step_board c b) s = Some st' \<and> st' \<noteq> Waiting \<and>
     ((\<exists>d x rd out reason. st = Settled d x rd out reason) \<longrightarrow> st' = st)"
proof (cases c)
  case (Extend v)
  assume "fst b s = Some st" "st \<noteq> Waiting"
  then show ?thesis
    using Extend by (cases b) (force split: sum.splits)
qed (cases b; cases st; auto split: if_splits)+

lemma claimable_step:
  assumes "ledger_ok (lg_file l)"
  shows "claimable s (run_ledger c l) \<le> claimable s l"
proof -
  from run_ledger_implements [OF assms, of c] have b: "board_of (run_ledger c l) = step_board c (board_of l)"
    by (simp add: implements_def)
  show ?thesis
  proof (cases "\<exists>st. schedule (lg_file l) s = Some st \<and> st \<noteq> Waiting")
    case True
    then obtain st where st: "schedule (lg_file l) s = Some st" "st \<noteq> Waiting" by blast
    then have "fst (board_of l) s = Some st" by (simp add: board_of_def)
    from step_board_claimed [OF this st(2), of c, folded b] show ?thesis by (auto simp: board_of_def claimable_def)
  next
    case False
    then have "claimable s l = 1" by (auto simp: claimable_def split: option.split)
    then show ?thesis by (auto simp: claimable_def split: option.split)
  qed
qed

lemma grants_bounded: "ledger_ok (lg_file l) \<Longrightarrow> grants s cs l \<le> claimable s l"
proof (induction cs arbitrary: l)
  case Nil
  then show ?case by simp
next
  case (Cons c cs)
  let ?l = "run_ledger c l"
  have ok: "ledger_ok (lg_file ?l)" using run_ledger_implements [OF Cons.prems] by (simp add: implements_def)
  note rest = Cons.IH [OF ok] claimable_step [OF Cons.prems, of s c]
  show ?case
  proof (cases "\<exists>d. c = Claim (PStr s) d \<and> is_ok (fst (claim (PStr s) d l))")
    case True
    then obtain d where c: "c = Claim (PStr s) d" "is_ok (fst (claim (PStr s) d l))" by blast
    from granted_is_waiting [OF Cons.prems c(2)] have g: "can_claim (PStr s) d l" .
    then have "claimable s l = 1" by (simp add: claimable_def can_claim_def)
    moreover have "claimable s ?l = 0"
      using run_ledger_implements [OF Cons.prems, of c] g
      by (simp add: implements_def board_of_def c(1) can_claim_def claimable_def)
    ultimately show ?thesis using rest c by simp
  next
    case False
    then have "grants s (c # cs) l = grants s cs ?l" by (auto split: ledger_call.splits)
    with rest show ?thesis by simp
  qed
qed

section \<open>A sample ledger\<close>

definition sample_path :: path_facts where
  "sample_path = \<lparr>pf_typed = True, pf_absolute = True, pf_name = ''ledger.db'', pf_parent_dir = True, pf_parent_symlink = False,
     pf_exists = False, pf_symlink = False, pf_file = True, pf_wal = False, pf_shm = False\<rparr>"

definition zero_digest :: string where
  "zero_digest = ''sha256:'' @ replicate 64 (CHR ''0'')"

definition fresh_ledger :: ledger where
  "fresh_ledger = \<lparr>lg_file = \<lparr>lf_version = 1, lf_meta = Some (ledger_meta first_five), lf_attempts = first_five, lf_events = []\<rparr>,
     lg_closed = False\<rparr>"

lemma first_five_ok: "ids_ok first_five"
  by (simp add: ids_ok_def first_five_def by_number_sorted is_attempt_id_def attempt_number_def is_digit_def)

lemma sample_create: "create sample_path True (PTuple (map PStr first_five)) = Inr fresh_ledger"
proof -
  have "validate_attempt_ids (PTuple (map PStr first_five)) = Inr first_five"
    by (simp add: validate_ids_Inr first_five_ok)
  then show ?thesis
    by (simp add: create_def validate_new_path_def sample_path_def fresh_ledger_def)
qed

lemma zero_digest: "require_digest_text (PStr zero_digest) = Inr ()"
  by (simp add: require_digest_text_def zero_digest_def is_digest_def list_all_length is_lower_hex_def)

lemma fresh_ledger_ok: "ledger_ok (lg_file fresh_ledger)"
  using create_ok [OF sample_create] by simp

lemma fresh_waiting: "schedule (lg_file fresh_ledger) ''R5-001'' = Some Waiting"
  by (simp add: schedule_Waiting fresh_ledger_def first_five_def attempt_events_def)

section \<open>Properties\<close>

text \<open>
  Claim C24: the ledger implements the schedule. Whatever calls are made, in whatever order and with
  whatever arguments, closing and reopening included, the states of all attempts are those the abstract
  schedule reaches by the same calls, the file satisfies its invariant, and events are only appended.
\<close>

theorem ledger_refines_schedule:
  assumes "create p creatable allowed = Inr l"
  shows "board_of (fold run_ledger calls l) = fold step_board calls (board_of l) \<and>
    ledger_ok (lg_file (fold run_ledger calls l)) \<and>
    (\<exists>es. lf_events (lg_file (fold run_ledger calls l)) = lf_events (lg_file l) @ es)"
  using run_ledger_list create_ok [OF assms] by blast

theorem ledger_refines_schedule_witness:
  "board_of (fold run_ledger [Claim (PStr ''R5-001'') (PStr zero_digest), Close, Reopen sample_path] fresh_ledger) =
     fold step_board [Claim (PStr ''R5-001'') (PStr zero_digest), Close, Reopen sample_path] (board_of fresh_ledger)"
  using ledger_refines_schedule [OF sample_create] by blast

text \<open>
  Claim C25: no attempt is granted twice. Over any calls on a ledger, with any reopening in between, at most
  one claim of an attempt ID succeeds, and none when the ID has been claimed before.
\<close>

theorem attempt_granted_once:
  assumes "ledger_ok (lg_file l)"
  shows "grants s calls l \<le> (case schedule (lg_file l) s of None \<Rightarrow> 1 | Some st \<Rightarrow> if st = Waiting then 1 else 0)"
  using grants_bounded [OF assms] unfolding claimable_def .

theorem attempt_granted_once_witness:
  "grants ''R5-001'' [Claim (PStr ''R5-001'') (PStr zero_digest), Close, Reopen sample_path,
     Claim (PStr ''R5-001'') (PStr zero_digest)] fresh_ledger \<le> 1"
  by (rule order_trans [OF attempt_granted_once [OF fresh_ledger_ok]]) (simp add: fresh_waiting)

text \<open>
  Claim C26: every ledger this code writes opens again, unchanged. After any calls on a created ledger,
  opening its file at a path that passes the checks returns exactly the file's content, and
  its attempts read back as the schedule says, in the order of their IDs.
\<close>

theorem ledger_reopens:
  assumes "create p creatable allowed = Inr l" "validate_existing_path q = Inr ()"
  shows "let f = lg_file (fold run_ledger calls l) in open_existing q True f = Inr \<lparr>lg_file = f, lg_closed = False\<rparr> \<and>
    records \<lparr>lg_file = f, lg_closed = False\<rparr> = Inr (map (\<lambda>a. state_record a (the (schedule f a))) (sort (lf_attempts f)))"
proof -
  have ok: "ledger_ok (lg_file (fold run_ledger calls l))" using run_ledger_list create_ok [OF assms(1)] by blast
  then show ?thesis using open_existing_ok [OF ok assms(2)] records_ok [OF ok] by (simp add: Let_def)
qed

theorem ledger_reopens_witness:
  "open_existing sample_path True (lg_file (fold run_ledger [Claim (PStr ''R5-001'') (PStr zero_digest)] fresh_ledger)) =
     Inr \<lparr>lg_file = lg_file (fold run_ledger [Claim (PStr ''R5-001'') (PStr zero_digest)] fresh_ledger), lg_closed = False\<rparr>"
proof -
  have "validate_existing_path sample_path = Inr ()" by (simp add: validate_existing_path_def sample_path_def)
  from ledger_reopens [OF sample_create this] show ?thesis by (simp only: Let_def)
qed

text \<open>
  Reading an attempt agrees with the schedule. On every ledger that satisfies the invariant and is
  open, looking up any value returns the record of the schedule's state when it is the ID of an
  attempt, and the one error otherwise: the last event alone determines the record.
\<close>

theorem record_is_schedule_state:
  assumes "ledger_ok (lg_file l)" "\<not> lg_closed l"
  shows "get_record a l = (case (if is_str a then schedule (lg_file l) (str_of a) else None) of
      None \<Rightarrow> Inl (ledger_error ''record unavailable'')
    | Some st \<Rightarrow> Inr (state_record (str_of a) st))"
  using get_record_ok [OF assms] .

theorem record_is_schedule_state_witness:
  "get_record (PStr ''R5-001'') fresh_ledger = Inr (state_record ''R5-001'' Waiting)"
proof -
  have "\<not> lg_closed fresh_ledger" by (simp add: fresh_ledger_def)
  from record_is_schedule_state [OF fresh_ledger_ok this] show ?thesis by (simp add: fresh_waiting)
qed

end
