(* ===== verification/Validator.thy ===== *)
theory Validator
  imports Canonical_Json Py_Datetime
begin

text \<open>
  \<^verbatim>\<open>src/app_contracts/validator.py\<close>: the validator for the JSON Schema subset of the contracts. A schema
  is a value; the first check rejects a malformed schema (RuntimeError), the second an instance
  that does not conform (ContractValidationError). \<open>re\<close> is \<^verbatim>\<open>re.search(p, s) is not None\<close>.

  Both checks recurse over the schema. The first argument \<open>n\<close> of their definitions is the number of
  nested calls the interpreter still has room for; a call without room is Python's RecursionError.
  Messages name the path as the code does; the parts that print a value of the schema are left out.
\<close>

section \<open>Keywords\<close>

definition supported_keywords :: "string list" where
  "supported_keywords =
     [''$schema'', ''$id'', ''title'', ''description'',
      ''type'', ''additionalProperties'', ''required'', ''properties'', ''const'', ''enum'',
      ''pattern'', ''format'', ''minLength'', ''maxLength'', ''minimum'', ''maximum'', ''minItems'', ''items'',
      ''minProperties'', ''maxProperties'', ''propertyNames'']"

definition supported_types :: "string list" where
  "supported_types = [''object'', ''array'', ''string'', ''integer'', ''boolean'']"

definition bound_keywords :: "string list" where
  "bound_keywords =
     [''minimum'', ''maximum'', ''minLength'', ''maxLength'', ''minItems'', ''minProperties'', ''maxProperties'']"

definition schema_error :: "string \<Rightarrow> string \<Rightarrow> exn" where
  "schema_error path m = Exn RuntimeError (''invalid schema declaration at '' @ path @ '': '' @ m)"

definition invalid :: "string \<Rightarrow> string \<Rightarrow> exn" where
  "invalid path m = Exn ContractValidationError (path @ '': '' @ m)"

definition keyword_error :: "string \<Rightarrow> exn" where
  "keyword_error path = Exn RuntimeError (''unsupported schema keywords at '' @ path)"

text \<open>RecursionError is a RuntimeError.\<close>

definition stack_error :: exn where
  "stack_error = Exn RuntimeError ''maximum recursion depth exceeded''"

definition check_keywords :: "string \<Rightarrow> fields \<Rightarrow> unit res" where
  "check_keywords path d =
     unless (\<not> list_all (\<lambda>k. k \<in> set supported_keywords) (map fst d)) (keyword_error path) (Inr ())"

text \<open>The items of a list value (the code has checked that it is a list).\<close>

fun elements :: "pyval \<Rightarrow> pyval list" where
  "elements (PList xs) = xs"
| "elements _ = []"

fun is_list :: "pyval \<Rightarrow> bool" where
  "is_list (PList _) = True"
| "is_list _ = False"

text \<open>\<^verbatim>\<open>if k in schema: ...\<close>.\<close>

definition when_key :: "fields \<Rightarrow> string \<Rightarrow> (pyval \<Rightarrow> unit res) \<Rightarrow> unit res" where
  "when_key d k f = (case map_of d k of None \<Rightarrow> Inr () | Some v \<Rightarrow> f v)"

section \<open>The schema\<close>

definition check_required :: "string \<Rightarrow> pyval \<Rightarrow> unit res" where
  "check_required path v =
     unless (\<not> is_list v \<or> \<not> list_all is_str (elements v))
       (schema_error path ''required must be a list of strings'') (Inr ())"

definition check_properties :: "string \<Rightarrow> pyval \<Rightarrow> unit res" where
  "check_properties path v =
     unless (\<not> is_dict v \<or> \<not> list_all (\<lambda>f. is_dict (snd f)) (items v))
       (schema_error path ''properties must map names to schemas'') (Inr ())"

definition check_additional :: "string \<Rightarrow> pyval \<Rightarrow> unit res" where
  "check_additional path v =
     unless (\<not> is_bool v \<and> \<not> is_dict v)
       (schema_error path ''additionalProperties must be a boolean or schema'') (Inr ())"

definition check_enum :: "string \<Rightarrow> pyval \<Rightarrow> unit res" where
  "check_enum path v =
     unless (\<not> is_list v \<or> elements v = []) (schema_error path ''enum must be a non-empty list'') (Inr ())"

definition check_type :: "string \<Rightarrow> pyval \<Rightarrow> unit res" where
  "check_type path v =
     unless (\<not> is_str v \<or> str_of v \<notin> set supported_types) (schema_error path ''unsupported type'') (Inr ())"

definition check_bound :: "string \<Rightarrow> fields \<Rightarrow> string \<Rightarrow> unit res" where
  "check_bound path d k = when_key d k (\<lambda>b.
     unless (\<not> is_int b) (schema_error path (k @ '' must be a number''))
    (unless (k \<in> set [''minProperties'', ''maxProperties''] \<and> int_of b < 0)
       (schema_error path (k @ '' must be a non-negative integer'')) (Inr ())))"

definition check_order :: "string \<Rightarrow> fields \<Rightarrow> string \<Rightarrow> string \<Rightarrow> string \<Rightarrow> unit res" where
  "check_order path d lo hi m = when_key d lo (\<lambda>a. when_key d hi (\<lambda>b.
     unless (int_of b < int_of a) (schema_error path m) (Inr ())))"

definition check_bounds :: "string \<Rightarrow> fields \<Rightarrow> unit res" where
  "check_bounds path d =
     rbind (check_each (check_bound path d) bound_keywords) (\<lambda>_.
     rbind (check_order path d ''minProperties'' ''maxProperties'' ''property bounds are inconsistent'') (\<lambda>_.
     check_order path d ''minimum'' ''maximum'' ''numeric bounds are inconsistent''))"

fun validate_schema :: "nat \<Rightarrow> string \<Rightarrow> pyval \<Rightarrow> unit res" where
  "validate_schema 0 path s = Inl stack_error"
| "validate_schema (Suc n) path s = (case s of
      PDict d \<Rightarrow>
        rbind (check_keywords path d) (\<lambda>_.
        rbind (when_key d ''required'' (check_required path)) (\<lambda>_.
        rbind (when_key d ''properties'' (\<lambda>v. rbind (check_properties path v) (\<lambda>_.
            check_each (\<lambda>f. validate_schema n (path @ ''.'' @ fst f) (snd f)) (items v)))) (\<lambda>_.
        rbind (when_key d ''additionalProperties'' (\<lambda>v. rbind (check_additional path v) (\<lambda>_.
            if is_dict v then validate_schema n (path @ ''.<additionalProperties>'') v else Inr ()))) (\<lambda>_.
        rbind (when_key d ''propertyNames'' (\<lambda>v.
            unless (\<not> is_dict v) (schema_error path ''propertyNames must be a schema'')
              (validate_schema n (path @ ''.<propertyNames>'') v))) (\<lambda>_.
        rbind (when_key d ''enum'' (check_enum path)) (\<lambda>_.
        rbind (when_key d ''type'' (check_type path)) (\<lambda>_.
        rbind (check_bounds path d) (\<lambda>_.
        when_key d ''items'' (validate_schema n (path @ ''[]''))))))))))
    | _ \<Rightarrow> Inl (schema_error path ''schema must be an object''))"

section \<open>The instance\<close>

definition has_type :: "string \<Rightarrow> pyval \<Rightarrow> bool" where
  "has_type t v \<longleftrightarrow>
     (t = ''object'' \<and> is_dict v) \<or> (t = ''array'' \<and> is_list v) \<or> (t = ''string'' \<and> is_str v)
     \<or> (t = ''integer'' \<and> is_int v) \<or> (t = ''boolean'' \<and> is_bool v)"

definition validate_type :: "string \<Rightarrow> pyval \<Rightarrow> pyval \<Rightarrow> unit res" where
  "validate_type path v t =
     (if t = PNone then Inr ()
      else unless (\<not> hashable t) unhashable
          (unless (\<not> is_str t \<or> str_of t \<notin> set supported_types) (Exn RuntimeError (''unsupported type at '' @ path))
          (unless (\<not> has_type (str_of t) v) (invalid path (''expected '' @ str_of t)) (Inr ()))))"

definition in_enum :: "pyval \<Rightarrow> pyval list \<Rightarrow> bool" where
  "in_enum v ms = (if is_bool v then list_ex (\<lambda>m. is_bool m \<and> py_eq m v) ms else list_ex (py_eq v) ms)"

definition validate_value :: "string \<Rightarrow> pyval \<Rightarrow> fields \<Rightarrow> unit res" where
  "validate_value path v d =
     rbind (when_key d ''const'' (\<lambda>c. unless (\<not> py_eq v c) (invalid path ''expected constant'') (Inr ()))) (\<lambda>_.
     when_key d ''enum'' (\<lambda>ms. unless (\<not> in_enum v (elements ms)) (invalid path ''value is not in enum'') (Inr ())))"

text \<open>\<^verbatim>\<open>schema.get(k, 0)\<close> of a lower bound.\<close>

definition lower_bound :: "fields \<Rightarrow> string \<Rightarrow> int" where
  "lower_bound d k = (case map_of d k of None \<Rightarrow> 0 | Some b \<Rightarrow> int_of b)"

definition above :: "fields \<Rightarrow> string \<Rightarrow> int \<Rightarrow> bool" where
  "above d k n = (case map_of d k of None \<Rightarrow> False | Some b \<Rightarrow> int_of b < n)"

text \<open>\<^verbatim>\<open>required\<close> and \<^verbatim>\<open>properties\<close> with their defaults.\<close>

definition required_names :: "fields \<Rightarrow> string list" where
  "required_names d = (case map_of d ''required'' of None \<Rightarrow> [] | Some v \<Rightarrow> map str_of (elements v))"

definition property_schemas :: "fields \<Rightarrow> fields" where
  "property_schemas d = (case map_of d ''properties'' of None \<Rightarrow> [] | Some v \<Rightarrow> items v)"

text \<open>The length of an object and, after its names, the presence and absence of its fields.\<close>

definition validate_count :: "string \<Rightarrow> fields \<Rightarrow> fields \<Rightarrow> unit res" where
  "validate_count path ob d =
     unless (int (length ob) < lower_bound d ''minProperties'') (invalid path ''too few properties'')
    (unless (above d ''maxProperties'' (int (length ob))) (invalid path ''too many properties'') (Inr ()))"

definition validate_names :: "string \<Rightarrow> fields \<Rightarrow> fields \<Rightarrow> unit res" where
  "validate_names path ob d =
     unless (\<not> list_all (\<lambda>k. k \<in> set (map fst ob)) (required_names d)) (invalid path ''missing fields'')
    (unless (map_of d ''additionalProperties'' = Some (PBool False)
         \<and> \<not> list_all (\<lambda>k. k \<in> set (map fst (property_schemas d))) (map fst ob))
       (invalid path ''unknown fields'') (Inr ()))"

text \<open>The schema of a field and the path it is reported under.\<close>

definition field_schema :: "string \<Rightarrow> fields \<Rightarrow> string \<Rightarrow> (string \<times> pyval) option" where
  "field_schema path d k = (case map_of (property_schemas d) k of
      Some s \<Rightarrow> Some (path @ ''.'' @ k, s)
    | None \<Rightarrow> (case map_of d ''additionalProperties'' of
          Some (PDict e) \<Rightarrow> Some (path @ ''.<additionalProperty>'', PDict e)
        | _ \<Rightarrow> None))"

definition validate_string :: "(pyval \<Rightarrow> string \<Rightarrow> bool res) \<Rightarrow> string \<Rightarrow> string \<Rightarrow> fields \<Rightarrow> unit res" where
  "validate_string re path t d =
     unless (int (py_len t) < lower_bound d ''minLength'') (invalid path ''string is too short'')
    (unless (above d ''maxLength'' (int (py_len t))) (invalid path ''string is too long'')
    (rbind (when_key d ''pattern'' (\<lambda>p. rbind (re p t) (\<lambda>found.
         unless (\<not> found) (invalid path ''pattern mismatch'') (Inr ())))) (\<lambda>_.
     when_key d ''format'' (\<lambda>f. if f = PStr ''date-time''
       then unless (\<not> is_ok (parse_iso t)) (invalid path ''invalid date-time'') (Inr ()) else Inr ()))))"

definition validate_number :: "string \<Rightarrow> pyval \<Rightarrow> fields \<Rightarrow> unit res" where
  "validate_number path v d =
     rbind (when_key d ''minimum'' (\<lambda>b. unless (is_bool v) (invalid path ''expected number'')
         (unless (is_int v \<and> int_of v < int_of b) (invalid path ''below minimum'') (Inr ())))) (\<lambda>_.
     when_key d ''maximum'' (\<lambda>b. unless (is_bool v) (invalid path ''expected number'')
         (unless (is_int v \<and> int_of b < int_of v) (invalid path ''above maximum'') (Inr ()))))"

text \<open>The path of an element of an array.\<close>

definition index_path :: "string \<Rightarrow> nat \<Rightarrow> string" where
  "index_path path i = path @ ''['' @ nat_digits i @ '']''"

fun validate_at :: "(pyval \<Rightarrow> string \<Rightarrow> bool res) \<Rightarrow> nat \<Rightarrow> string \<Rightarrow> pyval \<Rightarrow> pyval \<Rightarrow> unit res" where
  "validate_at re 0 path v s = Inl stack_error"
| "validate_at re (Suc n) path v s = (case s of
      PDict d \<Rightarrow>
        rbind (check_keywords path d) (\<lambda>_.
        rbind (when_key d ''type'' (validate_type path v)) (\<lambda>_.
        rbind (validate_value path v d) (\<lambda>_.
        rbind (case v of
            PDict ob \<Rightarrow>
              rbind (validate_count path ob d) (\<lambda>_.
              rbind (when_key d ''propertyNames'' (\<lambda>p. if p = PNone then Inr () else
                  check_each (\<lambda>f. validate_at re n (path @ ''.<propertyName>'') (PStr (fst f)) p) ob)) (\<lambda>_.
              rbind (validate_names path ob d) (\<lambda>_.
              check_each (\<lambda>f. case field_schema path d (fst f) of
                  None \<Rightarrow> Inr ()
                | Some (sub, t) \<Rightarrow> validate_at re n sub (snd f) t) ob)))
          | PList xs \<Rightarrow>
              unless (int (length xs) < lower_bound d ''minItems'') (invalid path ''too few items'')
                (when_key d ''items'' (\<lambda>t.
                  check_each (\<lambda>(i, x). validate_at re n (index_path path i) x t) (enumerate 0 xs)))
          | PStr t \<Rightarrow> validate_string re path t d
          | _ \<Rightarrow> Inr ()) (\<lambda>_.
        validate_number path v d))))
    | _ \<Rightarrow> raise TypeError ''schema is not a dictionary'')"

text \<open>\<^verbatim>\<open>validate\<close> with room for \<open>n\<close> nested calls.\<close>

definition validate_within :: "(pyval \<Rightarrow> string \<Rightarrow> bool res) \<Rightarrow> nat \<Rightarrow> pyval \<Rightarrow> pyval \<Rightarrow> unit res" where
  "validate_within re n v s = rbind (validate_schema n ''$'' s) (\<lambda>_. validate_at re n ''$'' v s)"

text \<open>How deep a schema is nested: the room \<^verbatim>\<open>validate\<close> needs, whatever the instance.\<close>

fun nesting :: "pyval \<Rightarrow> nat" where
  "nesting (PDict d) = Suc (foldr max (map (\<lambda>f. nesting (snd f)) d) 0)"
| "nesting _ = 1"

definition validate :: "(pyval \<Rightarrow> string \<Rightarrow> bool res) \<Rightarrow> pyval \<Rightarrow> pyval \<Rightarrow> unit res" where
  "validate re v s = validate_within re (nesting s) v s"

end
