(* ===== verification/Validator_Facts.thy ===== *)
theory Validator_Facts
  imports Validator
begin

text \<open>
  What the validator decides. \<open>schema_ok\<close> and \<open>conforms\<close> say it without calls, order of checks or
  messages; validation accepts exactly the instances that conform to a correct schema, blames the
  schema or the instance by the class of its exception, and needs no more room on the stack
  than the schema is nested.
\<close>

section \<open>The specification\<close>

inductive schema_ok :: "pyval \<Rightarrow> bool" where
  "\<lbrakk> set (map fst d) \<subseteq> set supported_keywords;
     \<And>v. map_of d ''required'' = Some v \<Longrightarrow> \<exists>names. v = PList (map PStr names);
     \<And>v. map_of d ''properties'' = Some v \<Longrightarrow> \<exists>ps. v = PDict ps \<and> (\<forall>f\<in>set ps. schema_ok (snd f));
     \<And>v. map_of d ''additionalProperties'' = Some v \<Longrightarrow> is_bool v \<or> schema_ok v;
     \<And>v. map_of d ''propertyNames'' = Some v \<Longrightarrow> schema_ok v;
     \<And>v. map_of d ''enum'' = Some v \<Longrightarrow> \<exists>m ms. v = PList (m # ms);
     \<And>v. map_of d ''type'' = Some v \<Longrightarrow> \<exists>t. v = PStr t \<and> t \<in> set supported_types;
     \<And>k v. k \<in> set bound_keywords \<Longrightarrow> map_of d k = Some v \<Longrightarrow>
       \<exists>b. v = PInt b \<and> (k = ''minProperties'' \<or> k = ''maxProperties'' \<longrightarrow> 0 \<le> b);
     \<And>a b. map_of d ''minProperties'' = Some (PInt a) \<Longrightarrow> map_of d ''maxProperties'' = Some (PInt b) \<Longrightarrow> a \<le> b;
     \<And>a b. map_of d ''minimum'' = Some (PInt a) \<Longrightarrow> map_of d ''maximum'' = Some (PInt b) \<Longrightarrow> a \<le> b;
     \<And>v. map_of d ''items'' = Some v \<Longrightarrow> schema_ok v \<rbrakk>
   \<Longrightarrow> schema_ok (PDict d)"

text \<open>The schema that governs field \<open>k\<close> of an object.\<close>

definition governs :: "fields \<Rightarrow> string \<Rightarrow> pyval \<Rightarrow> bool" where
  "governs d k t \<longleftrightarrow> (case map_of (property_schemas d) k of
      Some s \<Rightarrow> t = s
    | None \<Rightarrow> map_of d ''additionalProperties'' = Some t \<and> is_dict t)"

inductive conforms :: "(pyval \<Rightarrow> string \<Rightarrow> bool res) \<Rightarrow> pyval \<Rightarrow> pyval \<Rightarrow> bool"
  for re :: "pyval \<Rightarrow> string \<Rightarrow> bool res" where
  "\<lbrakk> \<And>t. map_of d ''type'' = Some (PStr t) \<Longrightarrow> has_type t v;
     \<And>c. map_of d ''const'' = Some c \<Longrightarrow> py_eq v c;
     \<And>ms. map_of d ''enum'' = Some (PList ms) \<Longrightarrow> in_enum v ms;
     \<And>b. is_dict v \<Longrightarrow> map_of d ''minProperties'' = Some (PInt b) \<Longrightarrow> b \<le> int (length (items v));
     \<And>b. is_dict v \<Longrightarrow> map_of d ''maxProperties'' = Some (PInt b) \<Longrightarrow> int (length (items v)) \<le> b;
     \<And>p f. map_of d ''propertyNames'' = Some p \<Longrightarrow> f \<in> set (items v) \<Longrightarrow> conforms re (PStr (fst f)) p;
     \<And>names. is_dict v \<Longrightarrow> map_of d ''required'' = Some (PList (map PStr names)) \<Longrightarrow> set names \<subseteq> set (map fst (items v));
     map_of d ''additionalProperties'' = Some (PBool False) \<Longrightarrow>
       set (map fst (items v)) \<subseteq> set (map fst (property_schemas d));
     \<And>f t. f \<in> set (items v) \<Longrightarrow> governs d (fst f) t \<Longrightarrow> conforms re (snd f) t;
     \<And>b. is_list v \<Longrightarrow> map_of d ''minItems'' = Some (PInt b) \<Longrightarrow> b \<le> int (length (elements v));
     \<And>t x. map_of d ''items'' = Some t \<Longrightarrow> x \<in> set (elements v) \<Longrightarrow> conforms re x t;
     \<And>t b. v = PStr t \<Longrightarrow> map_of d ''minLength'' = Some (PInt b) \<Longrightarrow> b \<le> int (py_len t);
     \<And>t b. v = PStr t \<Longrightarrow> map_of d ''maxLength'' = Some (PInt b) \<Longrightarrow> int (py_len t) \<le> b;
     \<And>t p. v = PStr t \<Longrightarrow> map_of d ''pattern'' = Some p \<Longrightarrow> re p t = Inr True;
     \<And>t. v = PStr t \<Longrightarrow> map_of d ''format'' = Some (PStr ''date-time'') \<Longrightarrow> is_ok (parse_iso t);
     \<And>b. map_of d ''minimum'' = Some (PInt b) \<Longrightarrow> \<not> is_bool v \<and> (is_int v \<longrightarrow> b \<le> int_of v);
     \<And>b. map_of d ''maximum'' = Some (PInt b) \<Longrightarrow> \<not> is_bool v \<and> (is_int v \<longrightarrow> int_of v \<le> b) \<rbrakk>
   \<Longrightarrow> conforms re v (PDict d)"

section \<open>Depth\<close>

lemma nesting_pos: "0 < nesting s"
  by (cases s) auto

lemma foldr_max_ge: "x \<in> set xs \<Longrightarrow> (x::nat) \<le> foldr max xs 0"
  by (induction xs) auto

lemma nesting_member: "f \<in> set d \<Longrightarrow> nesting (snd f) < nesting (PDict d)"
  using foldr_max_ge [of "nesting (snd f)" "map (\<lambda>f. nesting (snd f)) d"] by (auto simp: less_Suc_eq_le)

lemma nesting_key: "map_of d k = Some w \<Longrightarrow> nesting w < nesting (PDict d)"
  using nesting_member [of "(k, w)" d] by (auto dest: map_of_SomeD)

lemma nesting_property:
  "map_of d k = Some (PDict ps) \<Longrightarrow> f \<in> set ps \<Longrightarrow> nesting (snd f) < nesting (PDict d)"
  using nesting_key [of d k] nesting_member [of f ps] by fastforce

lemma nesting_governs: "governs d k t \<Longrightarrow> nesting t < nesting (PDict d)"
proof (cases "map_of (property_schemas d) k")
  case None
  then show "governs d k t \<Longrightarrow> ?thesis" by (auto simp: governs_def dest: nesting_key)
next
  case (Some s)
  then obtain v where v: "map_of d ''properties'' = Some v" "(k, s) \<in> set (items v)"
    by (auto simp: property_schemas_def dest: map_of_SomeD split: option.splits)
  then have "nesting s < nesting (PDict d)"
    using nesting_property [of d "''properties''" _ "(k, s)"] by (cases v) auto
  then show "governs d k t \<Longrightarrow> ?thesis" using Some by (simp add: governs_def)
qed

lemma field_schema_governs: "field_schema path d k = Some (sub, t) \<Longrightarrow> governs d k t"
  by (auto simp: field_schema_def governs_def split: option.splits pyval.splits)

lemma governs_field_schema: "governs d k t \<Longrightarrow> \<exists>sub. field_schema path d k = Some (sub, t)"
  by (auto simp: field_schema_def governs_def is_dict_iff split: option.splits)

section \<open>Guards\<close>

lemma when_key_Inr: "when_key d k f = Inr u \<longleftrightarrow> (\<forall>v. map_of d k = Some v \<longrightarrow> f v = Inr ())"
  by (cases u) (auto simp: when_key_def split: option.splits)

lemma is_ok_when_key: "is_ok (when_key d k f) \<longleftrightarrow> (\<forall>v. map_of d k = Some v \<longrightarrow> is_ok (f v))"
  by (auto simp: when_key_def split: option.splits)

lemma is_ok_then: "is_ok (rbind m (\<lambda>_. k)) \<longleftrightarrow> is_ok m \<and> is_ok k"
  by (cases m) auto

lemmas is_ok_guards = is_ok_when_key is_ok_then is_ok_unless is_ok_check_each

lemma when_key_cong:
  "d = d' \<Longrightarrow> k = k' \<Longrightarrow> (\<And>v. map_of d' k' = Some v \<Longrightarrow> f v = g v) \<Longrightarrow> when_key d k f = when_key d' k' g"
  by (auto simp: when_key_def split: option.splits)

lemma check_each_cong:
  "xs = ys \<Longrightarrow> (\<And>x. x \<in> set ys \<Longrightarrow> f x = g x) \<Longrightarrow> check_each f xs = check_each g ys"
  by (induction xs arbitrary: ys) (auto simp: check_each.simps split: sum.splits)

lemma rbind_cong: "m = m' \<Longrightarrow> (\<And>x. m' = Inr x \<Longrightarrow> f x = g x) \<Longrightarrow> rbind m f = rbind m' g"
  by (auto simp: rbind_def split: sum.splits)

text \<open>What a check may raise.\<close>

definition raises_only :: "(exn \<Rightarrow> bool) \<Rightarrow> 'a res \<Rightarrow> bool" where
  "raises_only P m \<longleftrightarrow> (\<forall>e. m = Inl e \<longrightarrow> P e)"

lemma raises_only_simps [simp]: "raises_only P (Inr x)" "raises_only P (Inl e) = P e"
  by (simp_all add: raises_only_def)

lemma raises_only_Inr: "raises_only P (Inr x)"
  by simp

lemma raises_only_rbind: "raises_only P m \<Longrightarrow> (\<And>x. m = Inr x \<Longrightarrow> raises_only P (f x)) \<Longrightarrow> raises_only P (rbind m f)"
  by (cases m) auto

lemma raises_only_unless: "P e \<Longrightarrow> (\<not> b \<Longrightarrow> raises_only P k) \<Longrightarrow> raises_only P (unless b e k)"
  by (auto simp: unless_def)

lemma raises_only_when_key:
  "(\<And>v. map_of d k = Some v \<Longrightarrow> raises_only P (f v)) \<Longrightarrow> raises_only P (when_key d k f)"
  by (auto simp: when_key_def split: option.splits)

lemma raises_only_check_each:
  "(\<And>x. x \<in> set xs \<Longrightarrow> raises_only P (f x)) \<Longrightarrow> raises_only P (check_each f xs)"
  by (auto simp: raises_only_def dest: check_each_Inl)

lemmas raises_only_intros = raises_only_rbind raises_only_unless raises_only_when_key raises_only_check_each

inductive_simps schema_ok_PDict: "schema_ok (PDict d)"

section \<open>The schema check\<close>

lemma validate_schema_stack:
  "nesting s \<le> n \<Longrightarrow> nesting s \<le> m \<Longrightarrow> validate_schema n path s = validate_schema m path s"
proof (induction n arbitrary: m path s)
  case 0
  then show ?case using nesting_pos [of s] by simp
next
  case (Suc n)
  then obtain m' where m: "m = Suc m'" using nesting_pos [of s] by (cases m) auto
  show ?case
  proof (cases s)
    case (PDict d)
    have eq: "validate_schema n p w = validate_schema m' p w" if "nesting w < nesting (PDict d)" for p w
      by (rule Suc.IH) (use that Suc.prems m PDict in auto)
    have props: "check_each (\<lambda>f. validate_schema n (path @ ''.'' @ fst f) (snd f)) (items v)
        = check_each (\<lambda>f. validate_schema m' (path @ ''.'' @ fst f) (snd f)) (items v)"
      if "map_of d ''properties'' = Some v" for v
      by (rule check_each_cong [OF refl]) (use that in \<open>cases v; auto intro!: eq dest: nesting_property\<close>)
    show ?thesis unfolding m PDict validate_schema.simps pyval.case
      by (intro rbind_cong when_key_cong refl props if_cong unless_cong eq; (assumption | erule nesting_key))
  qed (simp_all add: m)
qed

lemma schema_ok_dict: "schema_ok s \<Longrightarrow> is_dict s"
  by (auto elim: schema_ok.cases)

lemma raises_schema:
  assumes P: "\<And>p m. P (schema_error p m)" "\<And>p. P (keyword_error p)"
  shows "P stack_error \<or> nesting s \<le> n \<Longrightarrow> raises_only P (validate_schema n path s)"
proof (induction n arbitrary: path s)
  case 0
  then show ?case using nesting_pos [of s] by simp
next
  case (Suc n)
  show ?case
  proof (cases s)
    case (PDict d)
    have sub: "raises_only P (validate_schema n p w)" if "nesting w < nesting (PDict d)" for p w
      by (rule Suc.IH) (use that Suc.prems PDict in auto)
    have props: "raises_only P (check_each (\<lambda>f. validate_schema n (path @ ''.'' @ fst f) (snd f)) (items v))"
      if "map_of d ''properties'' = Some v" for v
      by (rule raises_only_check_each) (use that in \<open>cases v; auto intro!: sub dest: nesting_property\<close>)
    have part: "raises_only P (check_required path v)" "raises_only P (check_properties path v)"
      "raises_only P (check_additional path v)" "raises_only P (check_enum path v)" "raises_only P (check_type path v)"
      "raises_only P (check_keywords path d)" for v
      by (simp_all add: P check_required_def check_properties_def check_additional_def check_enum_def check_type_def
          check_keywords_def raises_only_unless)
    have bounds: "raises_only P (check_bounds path d)"
      unfolding check_bounds_def check_bound_def check_order_def by (intro raises_only_intros P) simp_all
    have add: "raises_only P (if is_dict v then validate_schema n p v else Inr ())"
      if "map_of d k = Some v" for p k v
      using sub nesting_key [OF that] by simp
    show ?thesis unfolding PDict validate_schema.simps pyval.case
      by (intro raises_only_intros part bounds add props P sub; (assumption | erule nesting_key))
  qed (simp_all add: P)
qed

lemma list_of_strings: "is_list v \<and> list_all is_str (elements v) \<longleftrightarrow> (\<exists>names. v = PList (map PStr names))"
  by (cases v) (auto simp: list_all_iff is_str_iff image_iff simp flip: ex_map_conv)

lemma validate_schema_iff: "nesting s \<le> n \<Longrightarrow> is_ok (validate_schema n path s) \<longleftrightarrow> schema_ok s"
proof (induction n arbitrary: path s)
  case 0
  then show ?case using nesting_pos [of s] by simp
next
  case (Suc n)
  show ?case
  proof (cases s)
    case (PDict d)
    have sub: "is_ok (validate_schema n p w) \<longleftrightarrow> schema_ok w" if "nesting w < nesting (PDict d)" for p w
      by (rule Suc.IH) (use that Suc.prems PDict in auto)
    have keys: "is_ok (check_keywords path d) \<longleftrightarrow> set (map fst d) \<subseteq> set supported_keywords"
      by (auto simp: check_keywords_def list_all_iff)
    have req: "is_ok (check_required path v) \<longleftrightarrow> (\<exists>names. v = PList (map PStr names))" for v
      by (simp add: check_required_def flip: list_of_strings)
    have props: "is_ok (rbind (check_properties path v) (\<lambda>_. check_each (\<lambda>f. validate_schema n (path @ ''.'' @ fst f) (snd f)) (items v)))
       \<longleftrightarrow> (\<exists>ps. v = PDict ps \<and> (\<forall>f\<in>set ps. schema_ok (snd f)))"
      if "map_of d ''properties'' = Some v" for v
      using that sub nesting_property [of d "''properties''"] schema_ok_dict
      by (cases v) (auto simp: check_properties_def is_ok_then is_ok_check_each list_all_iff)
    have add: "is_ok (rbind (check_additional path v) (\<lambda>_. if is_dict v then validate_schema n (path @ ''.<additionalProperties>'') v else Inr ()))
       \<longleftrightarrow> is_bool v \<or> schema_ok v" if "map_of d ''additionalProperties'' = Some v" for v
      using sub [OF nesting_key [OF that]] schema_ok_dict [of v]
      by (cases v) (auto simp: check_additional_def is_ok_then)
    have names: "is_ok (unless (\<not> is_dict v) e (validate_schema n p v)) \<longleftrightarrow> schema_ok v"
      if "map_of d ''propertyNames'' = Some v" for v e p
      using sub [OF nesting_key [OF that]] schema_ok_dict [of v] by auto
    have enum: "is_ok (check_enum path v) \<longleftrightarrow> (\<exists>m ms. v = PList (m # ms))" for v
      by (cases v) (auto simp: check_enum_def neq_Nil_conv)
    have ty: "is_ok (check_type path v) \<longleftrightarrow> (\<exists>t. v = PStr t \<and> t \<in> set supported_types)" for v
      by (cases v) (auto simp: check_type_def)
    have bnd: "is_ok (check_bound path d k) \<longleftrightarrow>
        (\<forall>v. map_of d k = Some v \<longrightarrow> (\<exists>b. v = PInt b \<and> (k = ''minProperties'' \<or> k = ''maxProperties'' \<longrightarrow> 0 \<le> b)))" for k
      by (auto simp: check_bound_def is_ok_guards is_int_iff not_less)
    have ord: "is_ok (check_order path d lo hi m) \<longleftrightarrow>
        (\<forall>a b. map_of d lo = Some (PInt a) \<longrightarrow> map_of d hi = Some (PInt b) \<longrightarrow> a \<le> b)"
      if "is_ok (check_bound path d lo)" "is_ok (check_bound path d hi)" for lo hi m
      using that by (auto simp: check_order_def is_ok_guards bnd not_less)
    have bounds: "is_ok (check_bounds path d) \<longleftrightarrow>
        (\<forall>k\<in>set bound_keywords. \<forall>v. map_of d k = Some v \<longrightarrow>
           (\<exists>b. v = PInt b \<and> (k = ''minProperties'' \<or> k = ''maxProperties'' \<longrightarrow> 0 \<le> b)))
        \<and> (\<forall>a b. map_of d ''minProperties'' = Some (PInt a) \<longrightarrow> map_of d ''maxProperties'' = Some (PInt b) \<longrightarrow> a \<le> b)
        \<and> (\<forall>a b. map_of d ''minimum'' = Some (PInt a) \<longrightarrow> map_of d ''maximum'' = Some (PInt b) \<longrightarrow> a \<le> b)"
    proof -
      have *: "k \<in> set bound_keywords \<Longrightarrow> is_ok (check_each (check_bound path d) bound_keywords) \<Longrightarrow> is_ok (check_bound path d k)" for k
        by (simp add: is_ok_check_each)
      show ?thesis unfolding check_bounds_def is_ok_then
        using * ord by (auto simp: is_ok_check_each bnd) (auto simp: bound_keywords_def)
    qed
    show ?thesis unfolding PDict validate_schema.simps pyval.case is_ok_then is_ok_when_key
      by (simp only: keys req props [unfolded is_ok_then] add [unfolded is_ok_then] names enum ty bounds sub nesting_key
          schema_ok_PDict Ball_def conj_assoc imp_conjL imp_disjL set_map all_simps cong: imp_cong)
  qed (auto dest: schema_ok_dict)
qed

section \<open>The instance check\<close>

inductive_simps conforms_PDict: "conforms re v (PDict d)"

lemma conforms_dict: "conforms re v s \<Longrightarrow> is_dict s"
  by (auto elim: conforms.cases)

lemma schema_bound:
  "schema_ok (PDict d) \<Longrightarrow> k \<in> set bound_keywords \<Longrightarrow> map_of d k = Some v \<Longrightarrow> \<exists>b. v = PInt b"
  unfolding schema_ok_PDict by (elim conjE) metis

lemma schema_required:
  "schema_ok (PDict d) \<Longrightarrow> map_of d ''required'' = Some v \<Longrightarrow> \<exists>names. v = PList (map PStr names)"
  unfolding schema_ok_PDict by (elim conjE) metis

lemma schema_enum:
  "schema_ok (PDict d) \<Longrightarrow> map_of d ''enum'' = Some v \<Longrightarrow> \<exists>ms. v = PList ms"
  unfolding schema_ok_PDict by (elim conjE) metis

lemma schema_type:
  "schema_ok (PDict d) \<Longrightarrow> map_of d ''type'' = Some v \<Longrightarrow> \<exists>t. v = PStr t \<and> t \<in> set supported_types"
  unfolding schema_ok_PDict by (elim conjE) metis

lemma schema_names: "schema_ok (PDict d) \<Longrightarrow> map_of d ''propertyNames'' = Some v \<Longrightarrow> schema_ok v"
  unfolding schema_ok_PDict by (elim conjE) metis

lemma schema_items: "schema_ok (PDict d) \<Longrightarrow> map_of d ''items'' = Some v \<Longrightarrow> schema_ok v"
  unfolding schema_ok_PDict by (elim conjE) metis

lemma schema_governs:
  assumes ok: "schema_ok (PDict d)" and t: "governs d k t"
  shows "schema_ok t"
proof (cases "map_of (property_schemas d) k")
  case None
  then have "map_of d ''additionalProperties'' = Some t" "is_dict t" using t by (auto simp: governs_def)
  then show ?thesis using ok unfolding schema_ok_PDict by (elim conjE) (metis is_bool_iff is_dict.simps(3))
next
  case (Some s)
  then obtain v where v: "map_of d ''properties'' = Some v" "(k, s) \<in> set (items v)"
    by (auto simp: property_schemas_def dest: map_of_SomeD split: option.splits)
  then obtain ps where "v = PDict ps" "\<forall>f\<in>set ps. schema_ok (snd f)"
    using ok unfolding schema_ok_PDict by (elim conjE) metis
  then show ?thesis using v t Some by (auto simp: governs_def)
qed

lemma lower_bound_iff:
  assumes "schema_ok (PDict d)" "k \<in> set bound_keywords"
  shows "\<not> int n < lower_bound d k \<longleftrightarrow> (\<forall>b. map_of d k = Some (PInt b) \<longrightarrow> b \<le> int n)"
  using schema_bound [OF assms] by (auto simp: lower_bound_def split: option.splits)

lemma above_iff:
  assumes "schema_ok (PDict d)" "k \<in> set bound_keywords"
  shows "\<not> above d k n \<longleftrightarrow> (\<forall>b. map_of d k = Some (PInt b) \<longrightarrow> n \<le> b)"
  using schema_bound [OF assms] by (auto simp: above_def split: option.splits)

lemma keywords_known:
  assumes ok: "schema_ok (PDict d)"
  shows "is_ok (check_keywords path d)"
  using ok by (auto simp: check_keywords_def list_all_iff schema_ok_PDict)

lemma type_conforms:
  assumes ok: "schema_ok (PDict d)"
  shows "is_ok (when_key d ''type'' (validate_type path v)) \<longleftrightarrow> (\<forall>t. map_of d ''type'' = Some (PStr t) \<longrightarrow> has_type t v)"
  using schema_type [OF ok] by (fastforce simp: is_ok_when_key validate_type_def)

lemma value_conforms:
  assumes ok: "schema_ok (PDict d)"
  shows "is_ok (validate_value path v d) \<longleftrightarrow> (\<forall>c. map_of d ''const'' = Some c \<longrightarrow> py_eq v c)
     \<and> (\<forall>ms. map_of d ''enum'' = Some (PList ms) \<longrightarrow> in_enum v ms)"
  using schema_enum [OF ok] by (fastforce simp: validate_value_def is_ok_guards)

lemma count_conforms:
  assumes ok: "schema_ok (PDict d)"
  shows "is_ok (validate_count path ob d) \<longleftrightarrow>
     (\<forall>b. map_of d ''minProperties'' = Some (PInt b) \<longrightarrow> b \<le> int (length ob))
     \<and> (\<forall>b. map_of d ''maxProperties'' = Some (PInt b) \<longrightarrow> int (length ob) \<le> b)"
  using lower_bound_iff [OF ok, of "''minProperties''"] above_iff [OF ok, of "''maxProperties''"]
  by (simp add: validate_count_def bound_keywords_def)

lemma names_conform:
  assumes ok: "schema_ok (PDict d)"
  shows "is_ok (validate_names path ob d) \<longleftrightarrow>
     (\<forall>names. map_of d ''required'' = Some (PList (map PStr names)) \<longrightarrow> set names \<subseteq> set (map fst ob))
     \<and> (map_of d ''additionalProperties'' = Some (PBool False) \<longrightarrow>
          set (map fst ob) \<subseteq> set (map fst (property_schemas d)))"
proof -
  have req: "list_all (\<lambda>k. k \<in> set (map fst ob)) (required_names d) \<longleftrightarrow>
      (\<forall>names. map_of d ''required'' = Some (PList (map PStr names)) \<longrightarrow> set names \<subseteq> set (map fst ob))"
  proof (cases "map_of d ''required''")
    case (Some v)
    then obtain names where v: "v = PList (map PStr names)" using schema_required [OF ok] by blast
    have inj: "map PStr xs = map PStr ys \<longleftrightarrow> xs = ys" for xs ys
      by (simp add: inj_map_eq_map inj_def)
    show ?thesis using Some by (auto simp: required_names_def v inj list_all_iff comp_def)
  qed (simp add: required_names_def)
  show ?thesis unfolding validate_names_def is_ok_unless not_not req by (auto simp: list_all_iff)
qed

lemma string_conforms:
  assumes ok: "schema_ok (PDict d)"
  shows "is_ok (validate_string re path t d) \<longleftrightarrow>
     (\<forall>b. map_of d ''minLength'' = Some (PInt b) \<longrightarrow> b \<le> int (py_len t))
     \<and> (\<forall>b. map_of d ''maxLength'' = Some (PInt b) \<longrightarrow> int (py_len t) \<le> b)
     \<and> (\<forall>p. map_of d ''pattern'' = Some p \<longrightarrow> re p t = Inr True)
     \<and> (map_of d ''format'' = Some (PStr ''date-time'') \<longrightarrow> is_ok (parse_iso t))"
proof -
  have "is_ok (rbind (re p t) (\<lambda>found. unless (\<not> found) e (Inr ()))) \<longleftrightarrow> re p t = Inr True" for p e
    by (cases "re p t") auto
  then show ?thesis
    using lower_bound_iff [OF ok, of "''minLength''"] above_iff [OF ok, of "''maxLength''"]
    by (simp add: validate_string_def bound_keywords_def is_ok_guards)
qed

lemma number_conforms:
  assumes ok: "schema_ok (PDict d)"
  shows "is_ok (validate_number path v d) \<longleftrightarrow>
     (\<forall>b. map_of d ''minimum'' = Some (PInt b) \<longrightarrow> \<not> is_bool v \<and> (is_int v \<longrightarrow> b \<le> int_of v))
     \<and> (\<forall>b. map_of d ''maximum'' = Some (PInt b) \<longrightarrow> \<not> is_bool v \<and> (is_int v \<longrightarrow> int_of v \<le> b))"
proof -
  have "\<exists>b. w = PInt b" if "map_of d ''minimum'' = Some w \<or> map_of d ''maximum'' = Some w" for w
    using that schema_bound [OF ok] by (auto simp: bound_keywords_def)
  then show ?thesis
    by (fastforce simp: validate_number_def is_ok_guards not_less)
qed

lemma validate_at_iff:
  "schema_ok s \<Longrightarrow> nesting s \<le> n \<Longrightarrow> is_ok (validate_at re n path v s) \<longleftrightarrow> conforms re v s"
proof (induction n arbitrary: path v s)
  case 0
  then show ?case using nesting_pos [of s] by simp
next
  case (Suc n)
  obtain d where d: "s = PDict d" using schema_ok_dict [OF Suc.prems(1)] by (auto simp: is_dict_iff)
  have ok: "schema_ok (PDict d)" using Suc.prems d by simp
  have sub: "is_ok (validate_at re n p w t) \<longleftrightarrow> conforms re w t"
    if "schema_ok t" "nesting t < nesting (PDict d)" for p w t
    by (rule Suc.IH) (use that Suc.prems d in auto)
  have pn: "is_ok (if p = PNone then Inr () else check_each (\<lambda>f. validate_at re n q (PStr (fst f)) p) ob) \<longleftrightarrow>
      (\<forall>a. (\<exists>b. (a, b) \<in> set ob) \<longrightarrow> conforms re (PStr a) p)" if "map_of d ''propertyNames'' = Some p" for p q ob
    using sub [OF schema_names [OF ok that] nesting_key [OF that]] schema_ok_dict [OF schema_names [OF ok that]]
    by (auto simp: is_ok_check_each)
  have field: "is_ok (case field_schema path d (fst f) of None \<Rightarrow> Inr () | Some (q, t) \<Rightarrow> validate_at re n q (snd f) t)
      \<longleftrightarrow> (\<forall>t. governs d (fst f) t \<longrightarrow> conforms re (snd f) t)" for f
  proof (cases "field_schema path d (fst f)")
    case None
    then show ?thesis using governs_field_schema [of d "fst f" _ path] by fastforce
  next
    case (Some qt)
    obtain q t where qt: "qt = (q, t)" by fastforce
    have g: "governs d (fst f) t" using field_schema_governs Some qt by blast
    then have "governs d (fst f) t' \<longleftrightarrow> t' = t" for t' by (auto simp: governs_def split: option.splits)
    then show ?thesis using sub [OF schema_governs [OF ok g] nesting_governs [OF g]] by (simp add: Some qt)
  qed
  have fields: "is_ok (check_each (\<lambda>f. case field_schema path d (fst f) of None \<Rightarrow> Inr ()
        | Some (q, t) \<Rightarrow> validate_at re n q (snd f) t) ob)
      \<longleftrightarrow> (\<forall>a b. (a, b) \<in> set ob \<longrightarrow> (\<forall>t. governs d a t \<longrightarrow> conforms re b t))" for ob
    by (auto simp: is_ok_check_each field)
  have it: "is_ok (check_each (\<lambda>(i, x). validate_at re n (index_path path i) x t) (enumerate 0 xs)) \<longleftrightarrow>
      (\<forall>x\<in>set xs. conforms re x t)" if "map_of d ''items'' = Some t" for t xs
  proof -
    have "set xs = snd ` set (enumerate 0 xs)" by (metis map_snd_enumerate set_map)
    then show ?thesis using sub [OF schema_items [OF ok that] nesting_key [OF that]]
      by (auto simp: is_ok_check_each split_beta)
  qed
  have len: "\<not> int (length xs) < lower_bound d ''minItems'' \<longleftrightarrow>
      (\<forall>b. map_of d ''minItems'' = Some (PInt b) \<longrightarrow> b \<le> int (length xs))" for xs :: "pyval list"
    by (rule lower_bound_iff [OF ok]) (simp add: bound_keywords_def)
  note common = keywords_known [OF ok] is_ok_then is_ok_when_key
  note step = d validate_at.simps is_ok_then conforms_PDict
      type_conforms [OF ok] value_conforms [OF ok] number_conforms [OF ok]
  show ?case
  proof (cases v)
    case (PDict ob)
    show ?thesis unfolding step PDict pyval.case
      by (simp add: common count_conforms [OF ok] names_conform [OF ok] fields pn cong: imp_cong)
  next
    case (PList xs)
    show ?thesis unfolding step PList pyval.case
      by (simp add: common len it Ball_def cong: imp_cong)
  next
    case (PStr t)
    show ?thesis unfolding step PStr pyval.case
      by (simp add: common string_conforms [OF ok] cong: imp_cong)
  qed (simp_all only: step pyval.case, simp_all add: common cong: imp_cong)
qed

lemma validate_at_stack:
  "nesting s \<le> n \<Longrightarrow> nesting s \<le> m \<Longrightarrow> validate_at re n path v s = validate_at re m path v s"
proof (induction n arbitrary: m path v s)
  case 0
  then show ?case using nesting_pos [of s] by simp
next
  case (Suc n)
  then obtain m' where m: "m = Suc m'" using nesting_pos [of s] by (cases m) auto
  show ?case
  proof (cases s)
    case (PDict d)
    have eq: "validate_at re n p w t = validate_at re m' p w t" if "nesting t < nesting (PDict d)" for p w t
      by (rule Suc.IH) (use that Suc.prems m PDict in auto)
    have fields: "(case field_schema path d k of None \<Rightarrow> Inr () | Some (q, t) \<Rightarrow> validate_at re n q w t)
        = (case field_schema path d k of None \<Rightarrow> Inr () | Some (q, t) \<Rightarrow> validate_at re m' q w t)" for k w
      by (auto split: option.splits intro!: eq nesting_governs dest: field_schema_governs)
    have names: "(if p = PNone then Inr () else check_each (\<lambda>f. validate_at re n q (PStr (fst f)) p) ob)
        = (if p = PNone then Inr () else check_each (\<lambda>f. validate_at re m' q (PStr (fst f)) p) ob)"
      if "map_of d k = Some p" for k p q and ob :: fields
      using eq nesting_key [OF that] by simp
    have it: "check_each (\<lambda>(i, x). validate_at re n (index_path path i) x t) (enumerate 0 xs)
        = check_each (\<lambda>(i, x). validate_at re m' (index_path path i) x t) (enumerate 0 xs)"
      if "map_of d k = Some t" for k t xs
      using eq nesting_key [OF that] by simp
    show ?thesis unfolding m PDict validate_at.simps pyval.case fields
      by (cases v) (auto intro!: rbind_cong when_key_cong names it unless_cong)
  qed (simp_all add: m)
qed

lemma raises_validate_at:
  assumes P: "\<And>p m. P (invalid p m)" and re: "\<And>p t. raises_only P (re p t)"
  shows "schema_ok s \<Longrightarrow> nesting s \<le> n \<Longrightarrow> raises_only P (validate_at re n path v s)"
proof (induction n arbitrary: path v s)
  case 0
  then show ?case using nesting_pos [of s] by simp
next
  case (Suc n)
  obtain d where d: "s = PDict d" using schema_ok_dict [OF Suc.prems(1)] by (auto simp: is_dict_iff)
  have ok: "schema_ok (PDict d)" using Suc.prems d by simp
  have sub: "raises_only P (validate_at re n p w t)" if "schema_ok t" "nesting t < nesting (PDict d)" for p w t
    by (rule Suc.IH) (use that Suc.prems d in auto)
  have kw: "raises_only P (check_keywords path d)" using keywords_known [OF ok, of path] by (auto simp: is_ok_iff)
  have ty: "raises_only P (when_key d ''type'' (validate_type path v))"
    by (rule raises_only_when_key) (auto simp: validate_type_def unless_def P dest!: schema_type [OF ok])
  have part: "raises_only P (validate_value path v d)" "raises_only P (validate_number path v d)"
    "raises_only P (validate_count path ob d)" "raises_only P (validate_names path ob d)"
    "raises_only P (validate_string re path t d)" for ob t
    unfolding validate_value_def validate_number_def validate_count_def validate_names_def validate_string_def
    by (auto intro!: raises_only_intros P re)
  have fields: "raises_only P (case field_schema path d k of None \<Rightarrow> Inr () | Some (q, t) \<Rightarrow> validate_at re n q w t)" for k w
    by (auto split: option.splits intro!: sub nesting_governs schema_governs [OF ok] dest: field_schema_governs)
  have names: "raises_only P (if p = PNone then Inr () else check_each (\<lambda>f. validate_at re n q (PStr (fst f)) p) ob)"
    if "map_of d ''propertyNames'' = Some p" for p q ob
    using sub [OF schema_names [OF ok that] nesting_key [OF that]] by (auto intro!: raises_only_check_each)
  have it: "raises_only P (check_each (\<lambda>(i, x). validate_at re n (index_path path i) x t) (enumerate 0 xs))"
    if "map_of d ''items'' = Some t" for t xs
    using sub [OF schema_items [OF ok that] nesting_key [OF that]] by (auto intro!: raises_only_check_each)
  show ?case unfolding d validate_at.simps pyval.case
    by (intro raises_only_rbind kw ty part; cases v; simp only: pyval.case)
      (intro raises_only_intros part fields names it P raises_only_Inr; assumption)+
qed

lemma validate_conforms: "validate re v s = Inr () \<longleftrightarrow> schema_ok s \<and> conforms re v s"
proof -
  have "validate re v s = Inr () \<longleftrightarrow> is_ok (validate re v s)" by (auto simp: is_ok_iff)
  then show ?thesis
    using validate_schema_iff [of s "nesting s" "''$''"] validate_at_iff [of s "nesting s" re "''$''" v]
    by (auto simp: validate_def validate_within_def is_ok_then)
qed

end
