(* ===== verification/Py_Regex.thy ===== *)
theory Py_Regex
  imports Py_Values
begin

text \<open>
  \<^verbatim>\<open>re.search\<close> for the patterns of the schemas: literals, character classes, groups, alternatives,
  counted and unbounded repetition, \<^verbatim>\<open>^\<close> and \<^verbatim>\<open>$\<close> (the end, or before a final line feed). A pattern
  is parsed into a \<open>regex\<close>; \<open>match_ends\<close> computes where its matches end and \<open>matches\<close> says what a match
  is. Patterns with other constructs (look-ahead, escapes of classes) are not parsed.
\<close>

section \<open>Matching\<close>

datatype regex =
    One bool "(nat \<times> nat) list"
  | Start
  | Finish
  | Eps
  | Seq regex regex
  | Or regex regex
  | Rep regex nat "nat option"

definition in_class :: "bool \<Rightarrow> (nat \<times> nat) list \<Rightarrow> nat \<Rightarrow> bool" where
  "in_class neg rs c \<longleftrightarrow> list_ex (\<lambda>(a, b). a \<le> c \<and> c \<le> b) rs \<noteq> neg"

definition at_end :: "nat list \<Rightarrow> nat \<Rightarrow> bool" where
  "at_end s i \<longleftrightarrow> i = length s \<or> (Suc i = length s \<and> s ! i = 10)"

fun matches :: "nat list \<Rightarrow> regex \<Rightarrow> nat \<Rightarrow> nat \<Rightarrow> bool" where
  "matches s (One neg rs) i j \<longleftrightarrow> i < length s \<and> j = Suc i \<and> in_class neg rs (s ! i)"
| "matches s Start i j \<longleftrightarrow> i = 0 \<and> j = 0"
| "matches s Finish i j \<longleftrightarrow> i = j \<and> at_end s i"
| "matches s Eps i j \<longleftrightarrow> i = j"
| "matches s (Seq r q) i j \<longleftrightarrow> (\<exists>k. matches s r i k \<and> matches s q k j)"
| "matches s (Or r q) i j \<longleftrightarrow> matches s r i j \<or> matches s q i j"
| "matches s (Rep r lo hi) i j \<longleftrightarrow>
     (\<exists>n. lo \<le> n \<and> (case hi of None \<Rightarrow> True | Some h \<Rightarrow> n \<le> h) \<and> (matches s r ^^ n) i j)"

text \<open>All positions one, exactly \<open>n\<close>, and at most \<open>n\<close> steps away.\<close>

definition next_ends :: "(nat \<Rightarrow> nat list) \<Rightarrow> nat list \<Rightarrow> nat list" where
  "next_ends f ps = remdups (concat (map f ps))"

fun after :: "(nat \<Rightarrow> nat list) \<Rightarrow> nat \<Rightarrow> nat list \<Rightarrow> nat list" where
  "after f 0 ps = ps"
| "after f (Suc n) ps = after f n (next_ends f ps)"

fun within :: "(nat \<Rightarrow> nat list) \<Rightarrow> nat \<Rightarrow> nat list \<Rightarrow> nat list" where
  "within f 0 ps = ps"
| "within f (Suc n) ps = (if ps = [] then [] else remdups (ps @ within f n (next_ends f ps)))"

fun match_ends :: "nat list \<Rightarrow> regex \<Rightarrow> nat \<Rightarrow> nat list" where
  "match_ends s (One neg rs) i = (if i < length s \<and> in_class neg rs (s ! i) then [Suc i] else [])"
| "match_ends s Start i = (if i = 0 then [0] else [])"
| "match_ends s Finish i = (if at_end s i then [i] else [])"
| "match_ends s Eps i = [i]"
| "match_ends s (Seq r q) i = next_ends (match_ends s q) (match_ends s r i)"
| "match_ends s (Or r q) i = remdups (match_ends s r i @ match_ends s q i)"
| "match_ends s (Rep r lo hi) i = (case hi of
      None \<Rightarrow> within (match_ends s r) (length s) (after (match_ends s r) lo [i])
    | Some h \<Rightarrow> if h < lo then [] else within (match_ends s r) (h - lo) (after (match_ends s r) lo [i]))"

text \<open>\<^verbatim>\<open>re.search\<close>: a match that starts anywhere.\<close>

definition found :: "regex \<Rightarrow> nat list \<Rightarrow> bool" where
  "found r s = list_ex (\<lambda>i. match_ends s r i \<noteq> []) [0..<Suc (length s)]"

section \<open>Patterns\<close>

definition special :: "char \<Rightarrow> bool" where
  "special c \<longleftrightarrow> c \<in> set ''*+?{}|()[]''"

definition lit :: "char \<Rightarrow> regex" where
  "lit c = One False [(byte c, byte c)]"

text \<open>The number before a closing or separating character.\<close>

definition number_of :: "string \<Rightarrow> (nat \<times> string) option" where
  "number_of cs = (let ds = takeWhile is_digit cs
     in if ds = [] then None else Some (fold (\<lambda>c n. 10 * n + (byte c - 48)) ds 0, dropWhile is_digit cs))"

definition counts :: "string \<Rightarrow> ((nat \<times> nat option) \<times> string) option" where
  "counts cs = (case number_of cs of
      None \<Rightarrow> None
    | Some (lo, CHR ''}'' # r) \<Rightarrow> Some ((lo, Some lo), r)
    | Some (lo, CHR '','' # r) \<Rightarrow> (case number_of r of
          Some (hi, CHR ''}'' # q) \<Rightarrow> if hi < lo then None else Some ((lo, Some hi), q)
        | _ \<Rightarrow> None)
    | _ \<Rightarrow> None)"

definition quantified :: "regex \<Rightarrow> string \<Rightarrow> (regex \<times> string) option" where
  "quantified r cs =
     (let q = (case cs of
          CHR ''*'' # t \<Rightarrow> Some (Rep r 0 None, t)
        | CHR ''+'' # t \<Rightarrow> Some (Rep r 1 None, t)
        | CHR ''?'' # t \<Rightarrow> Some (Rep r 0 (Some 1), t)
        | CHR ''{'' # t \<Rightarrow> map_option (\<lambda>((lo, hi), u). (Rep r lo hi, u)) (counts t)
        | _ \<Rightarrow> Some (r, cs))
      in case q of Some (p, c # t) \<Rightarrow> if p \<noteq> r \<and> c \<in> set ''*+?{'' then None else q | _ \<Rightarrow> q)"

text \<open>The ranges up to the closing bracket.\<close>

fun class_items :: "string \<Rightarrow> ((nat \<times> nat) list \<times> string) option" where
  "class_items [] = None"
| "class_items (c # cs) =
     (if c = CHR '']'' then Some ([], cs)
      else if c = CHR 0x5C \<or> c = CHR ''['' then None
      else (case cs of
          d # e # r \<Rightarrow>
            if d = CHR ''-'' \<and> e \<noteq> CHR '']''
            then (if e = CHR 0x5C \<or> byte e < byte c then None
                  else map_option (\<lambda>(rs, q). ((byte c, byte e) # rs, q)) (class_items r))
            else map_option (\<lambda>(rs, q). ((byte c, byte c) # rs, q)) (class_items cs)
        | _ \<Rightarrow> map_option (\<lambda>(rs, q). ((byte c, byte c) # rs, q)) (class_items cs)))"

fun parse_alt :: "nat \<Rightarrow> string \<Rightarrow> (regex \<times> string) option"
  and parse_seq :: "nat \<Rightarrow> string \<Rightarrow> (regex \<times> string) option"
  and parse_atom :: "nat \<Rightarrow> string \<Rightarrow> (regex \<times> string) option" where
  "parse_alt 0 cs = None"
| "parse_alt (Suc n) cs = (case parse_seq n cs of
      Some (r, CHR ''|'' # t) \<Rightarrow> map_option (\<lambda>(q, u). (Or r q, u)) (parse_alt n t)
    | p \<Rightarrow> p)"
| "parse_seq 0 cs = None"
| "parse_seq (Suc n) cs =
     (if cs = [] \<or> hd cs = CHR '')'' \<or> hd cs = CHR ''|'' then Some (Eps, cs)
      else case parse_atom n cs of
          None \<Rightarrow> None
        | Some (a, t) \<Rightarrow> (case quantified a t of
              None \<Rightarrow> None
            | Some (r, u) \<Rightarrow> map_option (\<lambda>(q, v). (Seq r q, v)) (parse_seq n u)))"
| "parse_atom 0 cs = None"
| "parse_atom (Suc n) cs = (case cs of
      [] \<Rightarrow> None
    | c # t \<Rightarrow>
        if c = CHR ''^'' then Some (Start, t)
        else if c = CHR ''$'' then Some (Finish, t)
        else if c = CHR ''.'' then Some (One True [(10, 10)], t)
        else if c = CHR ''['' then (case t of
            [] \<Rightarrow> None
          | d # u \<Rightarrow> if d = CHR '']'' then None
              else if d = CHR ''^'' then map_option (\<lambda>(rs, q). (One True rs, q)) (class_items u)
              else map_option (\<lambda>(rs, q). (One False rs, q)) (class_items t))
        else if c = CHR ''('' then
          (let body = (if take 2 t = ''?:'' then Some (drop 2 t) else if take 1 t = ''?'' then None else Some t)
           in case body of
               None \<Rightarrow> None
             | Some b \<Rightarrow> (case parse_alt n b of
                   Some (r, d # q) \<Rightarrow> if d = CHR '')'' then Some (r, q) else None
                 | _ \<Rightarrow> None))
        else if c = CHR 0x5C then (case t of
            [] \<Rightarrow> None
          | d # q \<Rightarrow> if is_alnum d \<or> digit7 d then None else Some (lit d, q))
        else if special c \<or> digit7 c then None
        else Some (lit c, t))"

definition parse_regex :: "string \<Rightarrow> regex option" where
  "parse_regex p = (case parse_alt (3 * length p + 3) p of
      Some (r, []) \<Rightarrow> Some r
    | _ \<Rightarrow> None)"

definition re_search :: "pyval \<Rightarrow> string \<Rightarrow> bool res" where
  "re_search p t = (case p of
      PStr q \<Rightarrow> (case parse_regex q of
          None \<Rightarrow> raise ForeignError ''pattern is not supported''
        | Some r \<Rightarrow> Inr (found r (code_points t)))
    | _ \<Rightarrow> raise TypeError ''first argument must be string or compiled pattern'')"

section \<open>The search finds every match\<close>

lemma matches_bounds: "matches s r i j \<Longrightarrow> i \<le> length s \<Longrightarrow> i \<le> j \<and> j \<le> length s"
proof (induction r arbitrary: i j)
  case (Seq r q)
  then obtain k where "matches s r i k" "matches s q k j" by auto
  then show ?case using Seq.IH Seq.prems(2) by (meson order.trans)
next
  case (Rep r lo hi)
  have "(matches s r ^^ n) i j \<Longrightarrow> i \<le> j \<and> j \<le> length s" for n j
    by (induction n arbitrary: j) (use Rep in \<open>auto, (meson order.trans)+\<close>)
  then show ?case using Rep.prems by auto
qed auto

lemma set_next_ends: "set (next_ends f ps) = (\<Union>i\<in>set ps. set (f i))"
  by (simp add: next_ends_def)

lemma relpowp_Suc_first: "(R ^^ Suc n) i j \<longleftrightarrow> (\<exists>k. R i k \<and> (R ^^ n) k j)"
  by (meson relpowp_Suc_D2 relpowp_Suc_I2)

lemma ex_le_Suc: "(\<exists>m\<le>Suc n. Q m) \<longleftrightarrow> Q 0 \<or> (\<exists>m\<le>n. Q (Suc m))"
  by (metis Suc_le_mono le0 not0_implies_Suc)

lemma ex_shift: "(\<exists>n. lo \<le> n \<and> n \<le> h \<and> P n) \<longleftrightarrow> \<not> h < lo \<and> (\<exists>m\<le>h - lo. P (lo + m :: nat))"
proof safe
  fix n assume "lo \<le> n" "n \<le> h" "P n"
  then show "\<exists>m\<le>h - lo. P (lo + m)" by (intro exI [of _ "n - lo"]) auto
next
  fix m assume "\<not> h < lo" "m \<le> h - lo" "P (lo + m)"
  then show "\<exists>n. lo \<le> n \<and> n \<le> h \<and> P n" by (intro exI [of _ "lo + m"]) auto
qed auto

lemma set_after:
  assumes "\<And>i j. i \<le> N \<Longrightarrow> j \<in> set (f i) \<longleftrightarrow> R i j" "\<And>i j. R i j \<Longrightarrow> i \<le> N \<Longrightarrow> j \<le> N"
  shows "\<forall>i\<in>set ps. i \<le> N \<Longrightarrow> j \<in> set (after f n ps) \<longleftrightarrow> (\<exists>i\<in>set ps. (R ^^ n) i j)"
proof (induction n arbitrary: ps)
  case (Suc n)
  have step: "k \<in> set (next_ends f ps) \<longleftrightarrow> (\<exists>i\<in>set ps. R i k)" for k
    using Suc.prems assms(1) by (auto simp: set_next_ends)
  have "\<forall>i\<in>set (next_ends f ps). i \<le> N" using Suc.prems assms(2) step by blast
  then have "j \<in> set (after f (Suc n) ps) \<longleftrightarrow> (\<exists>k\<in>set (next_ends f ps). (R ^^ n) k j)"
    using Suc.IH by simp
  then show ?case using step unfolding relpowp_Suc_first by blast
qed auto

lemma set_within:
  assumes "\<And>i j. i \<le> N \<Longrightarrow> j \<in> set (f i) \<longleftrightarrow> R i j" "\<And>i j. R i j \<Longrightarrow> i \<le> N \<Longrightarrow> j \<le> N"
  shows "\<forall>i\<in>set ps. i \<le> N \<Longrightarrow> j \<in> set (within f n ps) \<longleftrightarrow> (\<exists>i\<in>set ps. \<exists>m\<le>n. (R ^^ m) i j)"
proof (induction n arbitrary: ps)
  case (Suc n)
  have step: "k \<in> set (next_ends f ps) \<longleftrightarrow> (\<exists>i\<in>set ps. R i k)" for k
    using Suc.prems assms(1) by (auto simp: set_next_ends)
  have "\<forall>i\<in>set (next_ends f ps). i \<le> N" using Suc.prems assms(2) step by blast
  then have "j \<in> set (within f (Suc n) ps) \<longleftrightarrow> j \<in> set ps \<or> (\<exists>k\<in>set (next_ends f ps). \<exists>m\<le>n. (R ^^ m) k j)"
    using Suc.IH by (auto simp: set_next_ends)
  also have "\<dots> \<longleftrightarrow> j \<in> set ps \<or> (\<exists>i\<in>set ps. \<exists>m\<le>n. (R ^^ Suc m) i j)"
    using step unfolding relpowp_Suc_first by blast
  finally show ?case unfolding ex_le_Suc by auto
qed auto

text \<open>A loop needs no more turns than the positions it advances.\<close>

lemma relpowp_short:
  assumes "\<And>i j. i \<le> N \<Longrightarrow> R i j \<Longrightarrow> i \<le> j \<and> j \<le> (N::nat)"
  shows "(R ^^ n) i j \<Longrightarrow> i \<le> N \<Longrightarrow> (\<exists>m\<le>j - i. (R ^^ m) i j) \<and> i \<le> j \<and> j \<le> N"
proof (induction n arbitrary: i)
  case (Suc n)
  then obtain k where k: "R i k" "(R ^^ n) k j" unfolding relpowp_Suc_first by blast
  have ik: "i \<le> k" "k \<le> N" using assms k(1) Suc.prems(2) by blast+
  then obtain m where m: "m \<le> j - k" "(R ^^ m) k j" "k \<le> j" "j \<le> N" using Suc.IH k(2) by blast
  show ?case
  proof (cases "k = i")
    case False
    then have "Suc m \<le> j - i" using ik m by linarith
    moreover have "(R ^^ Suc m) i j" using k(1) m(2) unfolding relpowp_Suc_first by blast
    ultimately show ?thesis using ik m by (intro conjI exI [of _ "Suc m"]) simp_all
  qed (use m in blast)
qed auto

theorem set_ends: "i \<le> length s \<Longrightarrow> j \<in> set (match_ends s r i) \<longleftrightarrow> matches s r i j"
proof (induction r arbitrary: i j)
  case (Seq r q)
  then show ?case using matches_bounds [of s r i] by (auto simp: set_next_ends)
next
  case (Rep r lo hi)
  let ?R = "matches s r"
  have ex: "j \<in> set (match_ends s r i) \<longleftrightarrow> ?R i j" if "i \<le> length s" for i j using Rep.IH that by blast
  have bd: "?R i j \<Longrightarrow> i \<le> length s \<Longrightarrow> j \<le> length s" for i j using matches_bounds by blast
  have pow: "(?R ^^ n) i j \<Longrightarrow> i \<le> length s \<Longrightarrow> i \<le> j \<and> j \<le> length s" for n i j
    using matches_bounds [of s "Rep r n (Some n)" i j] by auto
  have start: "k \<in> set (after (match_ends s r) lo [i]) \<longleftrightarrow> (?R ^^ lo) i k" for k
    using set_after [of "length s" "match_ends s r" ?R "[i]" k lo, OF ex bd] Rep.prems by simp
  have all: "j \<in> set (within (match_ends s r) n (after (match_ends s r) lo [i])) \<longleftrightarrow> (\<exists>m\<le>n. (?R ^^ (lo + m)) i j)" for n
  proof -
    have "\<forall>k\<in>set (after (match_ends s r) lo [i]). k \<le> length s" using start pow Rep.prems by blast
    then have "j \<in> set (within (match_ends s r) n (after (match_ends s r) lo [i]))
        \<longleftrightarrow> (\<exists>k\<in>set (after (match_ends s r) lo [i]). \<exists>m\<le>n. (?R ^^ m) k j)"
      using set_within [of "length s" "match_ends s r" ?R "after (match_ends s r) lo [i]" j n, OF ex bd] by simp
    also have "\<dots> \<longleftrightarrow> (\<exists>m\<le>n. \<exists>k. (?R ^^ lo) i k \<and> (?R ^^ m) k j)" unfolding Bex_def start by blast
    finally show ?thesis unfolding relpowp_add OO_def .
  qed
  show ?case
  proof (cases hi)
    case None
    have short: "\<exists>m\<le>length s. (?R ^^ (lo + m)) i j" if "(?R ^^ (lo + n)) i j" for n
    proof -
      obtain k where k: "(?R ^^ lo) i k" "(?R ^^ n) k j" using \<open>(?R ^^ (lo + n)) i j\<close> by (auto simp: relpowp_add)
      have "i \<le> k \<and> k \<le> length s" using pow k(1) Rep.prems by blast
      then obtain m where m: "m \<le> j - k" "(?R ^^ m) k j" "j \<le> length s"
        using relpowp_short [of "length s" ?R, OF _ k(2)] matches_bounds by blast
      have "(?R ^^ (lo + m)) i j" using k(1) m(2) unfolding relpowp_add OO_def by blast
      moreover have "m \<le> length s" using m by linarith
      ultimately show ?thesis by blast
    qed
    show ?thesis by (simp add: None all) (metis le_add1 le_add_diff_inverse short)
  next
    case (Some h)
    show ?thesis by (simp add: Some all ex_shift)
  qed
qed auto

lemma found_iff: "found r s \<longleftrightarrow> (\<exists>i j. i \<le> length s \<and> matches s r i j)"
proof -
  have "match_ends s r i \<noteq> [] \<longleftrightarrow> (\<exists>j. matches s r i j)" if "i \<le> length s" for i
    using set_ends [OF that, of _ r] by (metis list.set_intros(1) neq_Nil_conv empty_iff empty_set)
  then show ?thesis by (auto simp: found_def list_ex_iff less_Suc_eq_le simp del: upt_Suc)
qed

section \<open>The patterns of the schemas\<close>

lemma matches_one_power:
  "(matches s (One neg rs) ^^ n) i j \<longleftrightarrow> j = i + n \<and> (n = 0 \<or> j \<le> length s) \<and> (\<forall>k. i \<le> k \<and> k < j \<longrightarrow> in_class neg rs (s ! k))"
proof (induction n arbitrary: j)
  case (Suc n)
  show ?case
    unfolding relpowp.simps OO_def unfolding Suc.IH unfolding matches.simps by (auto simp: less_Suc_eq)
qed auto

lemma matches_exact: "matches s (Rep r n (Some n)) i j \<longleftrightarrow> (matches s r ^^ n) i j"
  by auto

text \<open>A pattern \<open>^literal\<close> followed by more.\<close>

fun literal :: "string \<Rightarrow> regex \<Rightarrow> regex" where
  "literal [] r = r"
| "literal (c # cs) r = Seq (lit c) (literal cs r)"

lemma matches_lit: "matches s (lit c) i j \<longleftrightarrow> i < length s \<and> j = Suc i \<and> s ! i = byte c"
  by (auto simp: lit_def in_class_def)

lemma matches_literal:
  "matches s (literal p r) i j \<longleftrightarrow> take (length p) (drop i s) = map of_char p \<and> matches s r (i + length p) j"
proof (induction p arbitrary: i)
  case (Cons c p)
  show ?case
  proof (cases "i < length s")
    case True
    then have "drop i s = s ! i # drop (Suc i) s" by (simp add: Cons_nth_drop_Suc)
    then show ?thesis using Cons True by (auto simp: matches_lit)
  qed (auto simp: matches_lit)
qed simp

definition digest_pattern :: string where
  "digest_pattern = ''^sha256:[0-9a-f]{64}$''"

lemma parse_digest_pattern:
  "parse_regex digest_pattern = Some (Seq Start (literal ''sha256:''
     (Seq (Rep (One False [(48, 57), (97, 102)]) 64 (Some 64)) (Seq Finish Eps))))"
  by code_simp

lemma hex_class: "in_class False [(48, 57), (97, 102)] (of_char c) \<longleftrightarrow> is_lower_hex c"
  by (auto simp: in_class_def is_lower_hex_def)

text \<open>The pattern finds a digest, and a digest with a line feed after it.\<close>

lemma digest_found:
  assumes "parse_regex digest_pattern = Some r"
  shows "found r s \<longleftrightarrow> (\<exists>d. is_digest d \<and> (s = map of_char d \<or> s = map of_char d @ [10]))"
proof -
  have r: "found r s \<longleftrightarrow> take 7 s = map of_char ''sha256:'' \<and> 71 \<le> length s
      \<and> (\<forall>k. 7 \<le> k \<and> k < 71 \<longrightarrow> in_class False [(48, 57), (97, 102)] (s ! k)) \<and> at_end s 71"
  proof -
    have len: "length ''sha256:'' = 7" by simp
    note lit = matches_literal [of s "''sha256:''", unfolded len]
    have "found r s \<longleftrightarrow> (\<exists>j. matches s r 0 j)"
      using assms by (auto simp: parse_digest_pattern found_iff simp del: literal.simps)
    also have "\<dots> \<longleftrightarrow> (\<exists>j. take 7 s = map of_char ''sha256:'' \<and>
        (matches s (One False [(48, 57), (97, 102)]) ^^ 64) 7 j \<and> at_end s j)"
      using assms by (auto simp: parse_digest_pattern lit matches_exact simp del: literal.simps matches.simps(7))
    finally show ?thesis by (auto simp: matches_one_power)
  qed
  show ?thesis
  proof
    assume "found r s"
    then have f: "take 7 s = map of_char ''sha256:''" "71 \<le> length s" "at_end s 71"
      and hex: "\<And>k. 7 \<le> k \<Longrightarrow> k < 71 \<Longrightarrow> in_class False [(48, 57), (97, 102)] (s ! k)" by (simp_all add: r)
    define h where "h = take 64 (drop 7 s)"
    have cls: "in_class False [(48, 57), (97, 102)] x" if "x \<in> set h" for x
      using that f(2) hex by (auto simp: h_def in_set_conv_nth)
    have h: "of_char (char_of x) = x" if "x \<in> set h" for x
      using cls [OF that] by (auto simp: in_class_def)
    define d where "d = ''sha256:'' @ map char_of h"
    have "is_lower_hex (char_of x)" if "x \<in> set h" for x
      using cls [OF that] h [OF that] hex_class [of "char_of x"] by simp
    moreover have "length h = 64" using f(2) by (simp add: h_def)
    ultimately have "is_digest d" by (simp add: is_digest_def d_def list_all_iff)
    have "map of_char d = take 7 s @ h" using h by (simp add: d_def f(1) map_idI comp_def)
    also have "\<dots> = take 71 s" using take_add [of 7 64 s] by (simp add: h_def)
    finally have s: "s = map of_char d @ drop 71 s" by simp
    have "drop 71 s = [] \<or> drop 71 s = [10]"
    proof (cases "length s = 71")
      case False
      then have e: "length s = 72" "s ! 71 = 10" using f(3) by (auto simp: at_end_def)
      then have "drop 71 s = s ! 71 # drop 72 s" using Cons_nth_drop_Suc [of 71 s] by simp
      then show ?thesis using e by simp
    qed simp
    then have "s = map of_char d \<or> s = map of_char d @ [10]"
      using s by (elim disjE) (metis append_Nil2, metis)
    then show "\<exists>d. is_digest d \<and> (s = map of_char d \<or> s = map of_char d @ [10])"
      using \<open>is_digest d\<close> by blast
  next
    assume "\<exists>d. is_digest d \<and> (s = map of_char d \<or> s = map of_char d @ [10])"
    then obtain d where d: "is_digest d" "s = map of_char d \<or> s = map of_char d @ [10]" by blast
    obtain h where h: "d = ''sha256:'' @ h" using d(1) by (auto simp: is_digest_def startswith_iff)
    have hx: "length h = 64" "list_all is_lower_hex h" using d(1) by (simp_all add: h is_digest_def)
    have "in_class False [(48, 57), (97, 102)] (s ! k)" if "7 \<le> k" "k < 71" for k
    proof -
      define p :: "nat list" where "p = map of_char ''sha256:''"
      have p: "length p = 7" "s = p @ map of_char h \<or> s = p @ map of_char h @ [10]"
        using d(2) by (auto simp: p_def h)
      have "k - 7 < 64" using that by linarith
      then have "s ! k = of_char (h ! (k - 7))" using that hx(1) p by (auto simp: nth_append)
      then show ?thesis using that hx by (simp add: hex_class list_all_length)
    qed
    moreover have "take 7 s = map of_char ''sha256:''" using d(2) by (auto simp: h)
    ultimately show "found r s" using d(2) hx(1) unfolding r by (auto simp: at_end_def h nth_append)
  qed
qed

end
