(* ===== verification/Contract_Checks.thy ===== *)
theory Contract_Checks
  imports Validator_Facts Py_Regex
begin

text \<open>What validation guarantees its callers, over any schema and over the patterns the schemas use.\<close>

text \<open>Claim C27: Validation accepts an instance exactly when the schema is well formed and the instance conforms
  to it, whatever the order of the checks.\<close>

theorem validation_decides_conformance:
  "validate re v s = Inr () \<longleftrightarrow> schema_ok s \<and> conforms re v s"
  by (rule validate_conforms)

text \<open>Claim C28: Validation ends within as many nested calls as the schema is nested, whatever the instance: with
  that much room on the stack it neither runs out of it nor depends on how much more there is.\<close>

theorem validation_depth_bounded:
  assumes "nesting s \<le> n" and "\<And>p t. re p t \<noteq> Inl stack_error"
  shows "validate_within re n v s = validate re v s \<and> validate_within re n v s \<noteq> Inl stack_error"
proof
  show "validate_within re n v s = validate re v s"
    using validate_schema_stack [of s n "nesting s"] validate_at_stack [of s n "nesting s"] assms(1)
    by (simp add: validate_def validate_within_def)
  have "raises_only (\<lambda>e. e \<noteq> stack_error) (validate_schema n ''$'' s)"
    by (rule raises_schema) (use assms(1) in \<open>auto simp: schema_error_def keyword_error_def stack_error_def\<close>)
  moreover have "raises_only (\<lambda>e. e \<noteq> stack_error) (validate_at re n ''$'' v s)" if "schema_ok s"
    by (rule raises_validate_at)
      (use assms that in \<open>auto simp: invalid_def stack_error_def raises_only_def\<close>)
  ultimately show "validate_within re n v s \<noteq> Inl stack_error"
    using validate_schema_iff [OF assms(1), of "''$''"]
    by (auto simp: validate_within_def rbind_Inl raises_only_def is_ok_iff)
qed

text \<open>A small schema: an object with an identity and no other field.\<close>

definition id_schema :: pyval where
  "id_schema = PDict [(''type'', PStr ''object''), (''additionalProperties'', PBool False),
     (''required'', PList [PStr ''id'']),
     (''properties'', PDict [(''id'', PDict [(''type'', PStr ''string''), (''pattern'', PStr ''^event-[a-z0-9-]+$'')])])]"

lemma re_search_stack: "re_search p t \<noteq> Inl stack_error"
  by (auto simp: re_search_def stack_error_def split: pyval.splits option.splits)

theorem validation_depth_bounded_witness:
  "validate_within re_search 7 (PDict [(''id'', PStr ''event-1'')]) id_schema
     = validate re_search (PDict [(''id'', PStr ''event-1'')]) id_schema
   \<and> validate_within re_search 7 (PDict [(''id'', PStr ''event-1'')]) id_schema \<noteq> Inl stack_error
   \<and> validate re_search (PDict [(''id'', PStr ''event-1'')]) id_schema = Inr ()"
proof -
  have n: "nesting id_schema \<le> 7" by code_simp
  have "validate re_search (PDict [(''id'', PStr ''event-1'')]) id_schema = Inr ()" by code_simp
  then show ?thesis
    using validation_depth_bounded [OF n, of re_search, OF re_search_stack] by blast
qed

text \<open>A failure blames the right side: a malformed schema is a RuntimeError for every instance, and
  against a well-formed schema the only failures are that the instance does not conform or that the
  search of a pattern itself raises.\<close>

theorem validation_failure_class:
  assumes "validate re v s = Inl e"
  shows "if schema_ok s then exn_class e = ContractValidationError \<or> (\<exists>p t. re p t = Inl e)
         else exn_class e = RuntimeError"
proof (cases "schema_ok s")
  case True
  have "raises_only (\<lambda>e. exn_class e = ContractValidationError \<or> (\<exists>p t. re p t = Inl e))
      (validate_at re (nesting s) ''$'' v s)"
    by (rule raises_validate_at [OF _ _ True]) (auto simp: invalid_def raises_only_def)
  moreover have "is_ok (validate_schema (nesting s) ''$'' s)" using validate_schema_iff True by blast
  ultimately show ?thesis
    using assms True by (auto simp: validate_def validate_within_def rbind_Inl raises_only_def is_ok_iff)
next
  case False
  have "raises_only (\<lambda>e. exn_class e = RuntimeError) (validate_schema (nesting s) ''$'' s)"
    by (rule raises_schema) (auto simp: schema_error_def keyword_error_def)
  moreover have "\<not> is_ok (validate_schema (nesting s) ''$'' s)" using validate_schema_iff False by blast
  ultimately show ?thesis
    using assms False by (auto simp: validate_def validate_within_def rbind_Inl raises_only_def is_ok_iff)
qed

theorem validation_failure_class_witness:
  "\<exists>e. validate re_search (PDict [(''id'', PStr ''Event 1'')]) id_schema = Inl e
     \<and> (if schema_ok id_schema then exn_class e = ContractValidationError \<or> (\<exists>p t. re_search p t = Inl e)
        else exn_class e = RuntimeError)"
proof -
  have e: "validate re_search (PDict [(''id'', PStr ''Event 1'')]) id_schema
      = Inl (Exn ContractValidationError ''$.id: pattern mismatch'')" by code_simp
  show ?thesis using e validation_failure_class [OF e] by blast
qed

text \<open>
  The digest fields of the schemas carry the pattern \<^verbatim>\<open>^sha256:[0-9a-f]{64}$\<close>: searched, it accepts a
  digest and also a digest with a line feed after it.
\<close>

definition digest_schema :: pyval where
  "digest_schema = PDict [(''type'', PStr ''string''), (''pattern'', PStr digest_pattern)]"

theorem digest_field_accepts:
  "validate re_search (PStr t) digest_schema = Inr () \<longleftrightarrow>
     (\<exists>d. is_digest d \<and> (code_points t = map of_char d \<or> code_points t = map of_char d @ [10]))"
proof -
  obtain r where r: "parse_regex digest_pattern = Some r" using parse_digest_pattern by blast
  have "re_search (PStr digest_pattern) t = Inr True \<longleftrightarrow> found r (code_points t)"
    by (simp add: re_search_def r)
  moreover have "schema_ok digest_schema"
    by (auto simp: digest_schema_def schema_ok_PDict supported_keywords_def supported_types_def bound_keywords_def)
  moreover have "conforms re_search (PStr t) digest_schema \<longleftrightarrow> re_search (PStr digest_pattern) t = Inr True"
    by (auto simp: digest_schema_def conforms_PDict has_type_def governs_def property_schemas_def)
  ultimately show ?thesis
    using digest_found [OF r, of "code_points t"] by (simp add: validate_conforms)
qed

end
