(* ===== verification/Contract_Schemas.thy ===== *)
theory Contract_Schemas
  imports Validator_Facts Json_Injective
begin

text \<open>
  The two schemas of the observation journal (\<^verbatim>\<open>schemas/observation-event.schema.json\<close> and
  \<^verbatim>\<open>schemas/checkpoint.schema.json\<close>) and what a value that conforms to them has. Conformance does not
  depend on the order of keys: the value read back from its JSON text conforms again.
\<close>

definition event_schema :: pyval where
  "event_schema = PDict [
      (''$schema'', PStr ''https://json-schema.org/draft/2020-12/schema''),
      (''$id'', PStr ''https://agent-process.local/schemas/observation-event.schema.json''),
      (''title'', PStr ''ObservationEvent''),
      (''description'',
          PStr ''Minimal R0 contract for a structured observer event from document 28. safe_parameters is a strict allowlist of typed redacted metadata; raw payload, secret-like keys and prompt text are rejected.''),
      (''type'', PStr ''object''),
      (''additionalProperties'', PBool False),
      (''required'', PList (map PStr [''schema_version'', ''event_id'', ''event_type'', ''process_id'', ''run_id'',
          ''branch_id'', ''task_id'', ''agent_id'', ''sequence'', ''occurred_at'', ''recorded_at'',
          ''classification'', ''redaction_status''])),
      (''properties'', PDict [
        (''schema_version'', PDict [(''const'', PInt 1)]),
        (''event_id'', PDict [(''type'', PStr ''string''), (''pattern'', PStr ''^event-[a-z0-9-]+$'')]),
        (''event_type'', PDict [
          (''enum'', PList (map PStr [''decision_proposed'', ''decision_applied'', ''tool_requested'',
              ''tool_completed'', ''tool_failed'', ''tool_denied'', ''outcome_unknown'', ''agent_started'',
              ''agent_finished'', ''run_finished'', ''correction_proposed'', ''branch_created'']))]),
        (''process_id'', PDict [(''type'', PStr ''string''), (''pattern'', PStr ''^process-[a-z0-9-]+$'')]),
        (''run_id'', PDict [(''type'', PStr ''string''), (''pattern'', PStr ''^run-[a-z0-9-]+$'')]),
        (''branch_id'', PDict [(''type'', PStr ''string''), (''pattern'', PStr ''^branch-[a-z0-9-]+$'')]),
        (''task_id'', PDict [(''type'', PStr ''string''), (''pattern'', PStr ''^task-[a-z0-9-]+$'')]),
        (''agent_id'', PDict [(''type'', PStr ''string''), (''pattern'', PStr ''^(agent|service)-[a-z0-9-]+$'')]),
        (''parent_agent_id'', PDict [(''type'', PStr ''string''), (''pattern'',
            PStr ''^(agent|service)-[a-z0-9-]+$'')]),
        (''sequence'', PDict [(''type'', PStr ''integer''), (''minimum'', PInt 0)]),
        (''occurred_at'', PDict [(''type'', PStr ''string''), (''format'', PStr ''date-time'')]),
        (''recorded_at'', PDict [(''type'', PStr ''string''), (''format'', PStr ''date-time'')]),
        (''causal_event_ids'', PDict [
          (''type'', PStr ''array''),
          (''minItems'', PInt 1),
          (''items'', PDict [(''type'', PStr ''string''), (''pattern'', PStr ''^event-[a-z0-9-]+$'')])]),
        (''checkpoint_id'', PDict [(''type'', PStr ''string''), (''pattern'', PStr ''^checkpoint-[a-z0-9-]+$'')]),
        (''invocation_id'', PDict [(''type'', PStr ''string''), (''pattern'', PStr ''^invocation-[a-z0-9-]+$'')]),
        (''state_version'', PDict [(''type'', PStr ''integer''), (''minimum'', PInt 1)]),
        (''agent_build_id'', PDict [(''type'', PStr ''string''), (''minLength'', PInt 1)]),
        (''procedure_version'', PDict [(''type'', PStr ''string''), (''minLength'', PInt 1)]),
        (''input_refs'', PDict [
          (''type'', PStr ''array''),
          (''minItems'', PInt 1),
          (''items'', PDict [(''type'', PStr ''string''), (''pattern'', PStr ''^artifact://'')])]),
        (''output_refs'', PDict [
          (''type'', PStr ''array''),
          (''minItems'', PInt 1),
          (''items'', PDict [(''type'', PStr ''string''), (''pattern'', PStr ''^artifact://'')])]),
        (''decision_or_tool'', PDict [(''type'', PStr ''string''), (''minLength'', PInt 1)]),
        (''safe_parameters'', PDict [
          (''type'', PStr ''object''),
          (''additionalProperties'', PBool False),
          (''properties'', PDict [
            (''path'', PDict [
              (''type'', PStr ''string''),
              (''pattern'', PStr ''^[A-Za-z0-9_./-]+$''),
              (''minLength'', PInt 1),
              (''maxLength'', PInt 256)]),
            (''max_bytes'', PDict [(''type'', PStr ''integer''), (''minimum'', PInt 0)]),
            (''limit'', PDict [(''type'', PStr ''integer''), (''minimum'', PInt 0)]),
            (''offset'', PDict [(''type'', PStr ''integer''), (''minimum'', PInt 0)]),
            (''artifact_ref'', PDict [
              (''type'', PStr ''string''),
              (''pattern'', PStr ''^artifact://[A-Za-z0-9_./-]+$''),
              (''minLength'', PInt 12),
              (''maxLength'', PInt 256)]),
            (''worker_outcome'', PDict [(''enum'', PList (map PStr [''clarification_required'', ''blocked'',
                ''denied'']))]),
            (''sandbox_return_code'', PDict [(''type'', PStr ''integer''), (''minimum'', PInt (- 255)),
                (''maximum'', PInt 255)]),
            (''sandbox_failure_code'', PDict [
              (''enum'', PList (map PStr [''readiness-exit'', ''readiness-timeout'', ''overflow-status'',
                  ''overflow-no-write'', ''valid-status'', ''valid-body'', ''valid-row'',
                  ''malformed-status-level-bool'', ''malformed-no-write-level-bool'',
                  ''malformed-status-level-fractional'', ''malformed-no-write-level-fractional'',
                  ''malformed-status-level-numeric-string'', ''malformed-no-write-level-numeric-string'',
                  ''sqlite-range-status-level-above'', ''sqlite-range-no-write-level-above'',
                  ''sqlite-range-status-level-below'', ''sqlite-range-no-write-level-below'',
                  ''malformed-status-correct-bool'', ''malformed-no-write-correct-bool'',
                  ''malformed-status-correct-fractional'', ''malformed-no-write-correct-fractional'',
                  ''malformed-status-correct-numeric-string'', ''malformed-no-write-correct-numeric-string'',
                  ''sqlite-range-status-correct-above'', ''sqlite-range-no-write-correct-above'',
                  ''sqlite-range-status-correct-below'', ''sqlite-range-no-write-correct-below'',
                  ''malformed-status-wrong-bool'', ''malformed-no-write-wrong-bool'',
                  ''malformed-status-wrong-fractional'', ''malformed-no-write-wrong-fractional'',
                  ''malformed-status-wrong-numeric-string'', ''malformed-no-write-wrong-numeric-string'',
                  ''sqlite-range-status-wrong-above'', ''sqlite-range-no-write-wrong-above'',
                  ''sqlite-range-status-wrong-below'', ''sqlite-range-no-write-wrong-below'',
                  ''malformed-status-total-bool'', ''malformed-no-write-total-bool'',
                  ''malformed-status-total-fractional'', ''malformed-no-write-total-fractional'',
                  ''malformed-status-total-numeric-string'', ''malformed-no-write-total-numeric-string'',
                  ''sqlite-range-status-total-above'', ''sqlite-range-no-write-total-above'',
                  ''sqlite-range-status-total-below'', ''sqlite-range-no-write-total-below'',
                  ''malformed-status-time_ms-bool'', ''malformed-no-write-time_ms-bool'',
                  ''malformed-status-time_ms-fractional'', ''malformed-no-write-time_ms-fractional'',
                  ''malformed-status-time_ms-numeric-string'', ''malformed-no-write-time_ms-numeric-string'',
                  ''sqlite-range-status-time_ms-above'', ''sqlite-range-no-write-time_ms-above'',
                  ''sqlite-range-status-time_ms-below'', ''sqlite-range-no-write-time_ms-below'']))])])]),
        (''rationale'', PDict [(''type'', PStr ''string''), (''minLength'', PInt 1)]),
        (''expected_result'', PDict [(''type'', PStr ''string''), (''minLength'', PInt 1)]),
        (''authority_refs'', PDict [
          (''type'', PStr ''array''),
          (''minItems'', PInt 1),
          (''items'', PDict [(''type'', PStr ''string''), (''pattern'', PStr ''^artifact://'')])]),
        (''status'', PDict [(''enum'', PList (map PStr [''pending'', ''ok'', ''failed'', ''denied'', ''unknown'']))]),
        (''error_code'', PDict [(''type'', PStr ''string''), (''minLength'', PInt 1)]),
        (''classification'', PDict [(''enum'', PList (map PStr [''public'', ''internal'', ''confidential'',
            ''restricted'']))]),
        (''redaction_status'', PDict [(''enum'', PList (map PStr [''complete'', ''redacted'']))])])]"

definition checkpoint_schema :: pyval where
  "checkpoint_schema = PDict [
      (''$schema'', PStr ''https://json-schema.org/draft/2020-12/schema''),
      (''$id'', PStr ''https://agent-process.local/schemas/checkpoint.schema.json''),
      (''title'', PStr ''Checkpoint''),
      (''description'',
          PStr ''Minimal R0 contract for a pre-action checkpoint from document 28. Holds versioned references only; never credentials, approval values or secret contents.''),
      (''type'', PStr ''object''),
      (''additionalProperties'', PBool False),
      (''required'', PList (map PStr [''schema_version'', ''checkpoint_id'', ''kind'', ''process_id'', ''run_id'',
          ''branch_id'', ''agent_id'', ''trigger_event_id'', ''event_cursor'', ''state_ref'', ''completeness'',
          ''restore_mode'', ''created_at''])),
      (''properties'', PDict [
        (''schema_version'', PDict [(''const'', PInt 1)]),
        (''checkpoint_id'', PDict [(''type'', PStr ''string''), (''pattern'', PStr ''^checkpoint-[a-z0-9-]+$'')]),
        (''kind'', PDict [(''enum'', PList (map PStr [''decision'', ''tool_call'']))]),
        (''process_id'', PDict [(''type'', PStr ''string''), (''pattern'', PStr ''^process-[a-z0-9-]+$'')]),
        (''run_id'', PDict [(''type'', PStr ''string''), (''pattern'', PStr ''^run-[a-z0-9-]+$'')]),
        (''branch_id'', PDict [(''type'', PStr ''string''), (''pattern'', PStr ''^branch-[a-z0-9-]+$'')]),
        (''agent_id'', PDict [(''type'', PStr ''string''), (''pattern'', PStr ''^(agent|service)-[a-z0-9-]+$'')]),
        (''trigger_event_id'', PDict [(''type'', PStr ''string''), (''pattern'', PStr ''^event-[a-z0-9-]+$'')]),
        (''parent_checkpoint_id'', PDict [(''type'', PStr ''string''), (''pattern'',
            PStr ''^checkpoint-[a-z0-9-]+$'')]),
        (''event_cursor'', PDict [(''type'', PStr ''integer''), (''minimum'', PInt 0)]),
        (''state_ref'', PDict [
          (''type'', PStr ''string''),
          (''pattern'', PStr ''^artifact://[A-Za-z0-9_./-]+$''),
          (''minLength'', PInt 12),
          (''maxLength'', PInt 256)]),
        (''context_manifest_ref'', PDict [
          (''type'', PStr ''string''),
          (''pattern'', PStr ''^artifact://[A-Za-z0-9_./-]+$''),
          (''minLength'', PInt 12),
          (''maxLength'', PInt 256)]),
        (''workspace_manifest_ref'', PDict [
          (''type'', PStr ''string''),
          (''pattern'', PStr ''^artifact://[A-Za-z0-9_./-]+$''),
          (''minLength'', PInt 12),
          (''maxLength'', PInt 256)]),
        (''configuration_refs'', PDict [
          (''type'', PStr ''array''),
          (''minItems'', PInt 1),
          (''items'', PDict [
            (''type'', PStr ''string''),
            (''pattern'', PStr ''^artifact://[A-Za-z0-9_./-]+$''),
            (''minLength'', PInt 12),
            (''maxLength'', PInt 256)])]),
        (''authority_refs'', PDict [
          (''type'', PStr ''array''),
          (''minItems'', PInt 1),
          (''items'', PDict [
            (''type'', PStr ''string''),
            (''pattern'', PStr ''^artifact://[A-Za-z0-9_./-]+$''),
            (''minLength'', PInt 12),
            (''maxLength'', PInt 256)])]),
        (''pending_action_ref'', PDict [
          (''type'', PStr ''string''),
          (''pattern'', PStr ''^artifact://[A-Za-z0-9_./-]+$''),
          (''minLength'', PInt 12),
          (''maxLength'', PInt 256)]),
        (''in_flight_invocation_ids'', PDict [
          (''type'', PStr ''array''),
          (''minItems'', PInt 1),
          (''items'', PDict [(''type'', PStr ''string''), (''pattern'', PStr ''^invocation-[a-z0-9-]+$'')])]),
        (''external_effect_refs'', PDict [
          (''type'', PStr ''array''),
          (''minItems'', PInt 1),
          (''items'', PDict [
            (''type'', PStr ''string''),
            (''pattern'', PStr ''^artifact://[A-Za-z0-9_./-]+$''),
            (''minLength'', PInt 12),
            (''maxLength'', PInt 256)])]),
        (''restore_mode'', PDict [(''enum'', PList (map PStr [''simulation'', ''supervised'', ''none'']))]),
        (''completeness'', PDict [(''enum'', PList (map PStr [''complete'', ''partial'']))]),
        (''created_at'', PDict [(''type'', PStr ''string''), (''format'', PStr ''date-time'')])])]"

section \<open>Facts from conformance\<close>

lemma conforms_type: "conforms re v (PDict d) \<Longrightarrow> map_of d ''type'' = Some (PStr t) \<Longrightarrow> has_type t v"
  by (simp add: conforms_PDict)

lemma conforms_required:
  assumes ok: "schema_ok (PDict d)" and c: "conforms re v (PDict d)" "is_dict v" and k: "k \<in> set (required_names d)"
  shows "has_key v k"
proof -
  obtain w where w: "map_of d ''required'' = Some w"
    using k by (cases "map_of d ''required''") (auto simp: required_names_def)
  then obtain names where n: "map_of d ''required'' = Some (PList (map PStr names))"
    using schema_required [OF ok w] by blast
  then have "set names \<subseteq> set (map fst (items v))" using c by (simp add: conforms_PDict)
  then show ?thesis using k n by (auto simp: has_key_def map_of_eq_None_iff required_names_def comp_def)
qed

lemma conforms_field:
  assumes "conforms re v (PDict d)" "map_of (property_schemas d) k = Some s" "has_key v k"
  shows "conforms re (fld v k) s"
proof -
  obtain w where w: "map_of (items v) k = Some w" using assms(3) by (auto simp: has_key_def)
  then have "(k, w) \<in> set (items v)" by (rule map_of_SomeD)
  moreover have "governs d k s" using assms(2) by (simp add: governs_def)
  ultimately have "conforms re w s" using assms(1) by (simp add: conforms_PDict)
  then show ?thesis using w by (simp add: fld_def)
qed

text \<open>A required field of a given type.\<close>

definition typed_field :: "fields \<Rightarrow> string \<Rightarrow> string \<Rightarrow> bool" where
  "typed_field d t k = (case map_of (property_schemas d) k of
      Some (PDict e) \<Rightarrow> map_of e ''type'' = Some (PStr t) | _ \<Rightarrow> False)"

lemma conforms_typed_field:
  assumes ok: "schema_ok (PDict d)" and c: "conforms re v (PDict d)"
    and o: "map_of d ''type'' = Some (PStr ''object'')" and r: "k \<in> set (required_names d)"
    and t: "typed_field d t k"
  shows "has_key v k \<and> has_type t (fld v k)"
proof -
  have "is_dict v" using conforms_type [OF c o] by (simp add: has_type_def)
  then have k: "has_key v k" using conforms_required [OF ok c _ r] by blast
  obtain e where s: "map_of (property_schemas d) k = Some (PDict e)" "map_of e ''type'' = Some (PStr t)"
    using t by (auto simp: typed_field_def split: option.splits pyval.splits)
  then show ?thesis using conforms_type [OF conforms_field [OF c s(1) k] s(2)] k by blast
qed

lemma has_type_simps [simp]:
  "has_type ''string'' v = is_str v" "has_type ''integer'' v = is_int v" "has_type ''object'' v = is_dict v"
  by (auto simp: has_type_def)

definition event_fields :: "string list" where
  "event_fields = [''event_id'', ''process_id'', ''run_id'', ''branch_id'']"

lemma event_conforms:
  assumes "validate re v event_schema = Inr ()"
  shows "is_dict v" and "k \<in> set event_fields \<Longrightarrow> is_str (fld v k)"
proof -
  obtain d where d: "event_schema = PDict d" by (simp add: event_schema_def)
  have "map_of (items event_schema) ''type'' = Some (PStr ''object'')" by code_simp
  then have o: "map_of d ''type'' = Some (PStr ''object'')" by (simp add: d)
  have ok: "schema_ok (PDict d)" and c: "conforms re v (PDict d)" using assms d by (simp_all add: validate_conforms)
  show "is_dict v" using conforms_type [OF c o] by simp
  have "list_all (\<lambda>k. k \<in> set (required_names (items event_schema))) event_fields" by code_simp
  then have r: "k \<in> set (required_names d)" if "k \<in> set event_fields" for k
    using that by (auto simp: d list_all_iff)
  have "list_all (typed_field (items event_schema) ''string'') event_fields" by code_simp
  then show "is_str (fld v k)" if "k \<in> set event_fields"
    using conforms_typed_field [OF ok c o r, where k = k and t = "''string''"] that
    by (auto simp: d list_all_iff)
qed

definition checkpoint_texts :: "string list" where
  "checkpoint_texts = [''checkpoint_id'', ''trigger_event_id'', ''process_id'', ''run_id'', ''branch_id'']"

lemma checkpoint_conforms:
  assumes "validate re v checkpoint_schema = Inr ()"
  shows "is_dict v" and "k \<in> set checkpoint_texts \<Longrightarrow> is_str (fld v k)" and "is_int (fld v ''event_cursor'')"
proof -
  obtain d where d: "checkpoint_schema = PDict d" by (simp add: checkpoint_schema_def)
  have "map_of (items checkpoint_schema) ''type'' = Some (PStr ''object'')" by code_simp
  then have o: "map_of d ''type'' = Some (PStr ''object'')" by (simp add: d)
  have ok: "schema_ok (PDict d)" and c: "conforms re v (PDict d)" using assms d by (simp_all add: validate_conforms)
  show "is_dict v" using conforms_type [OF c o] by simp
  have "list_all (\<lambda>k. k \<in> set (required_names (items checkpoint_schema))) (''event_cursor'' # checkpoint_texts)" by code_simp
  then have r: "k \<in> set (required_names d)" if "k \<in> set (''event_cursor'' # checkpoint_texts)" for k
    using that by (auto simp: d list_all_iff)
  have "list_all (typed_field (items checkpoint_schema) ''string'') checkpoint_texts" by code_simp
  then show "is_str (fld v k)" if "k \<in> set checkpoint_texts"
    using conforms_typed_field [OF ok c o r, where k = k and t = "''string''"] that
    by (auto simp: d list_all_iff)
  have "typed_field (items checkpoint_schema) ''integer'' ''event_cursor''" by code_simp
  then show "is_int (fld v ''event_cursor'')"
    using conforms_typed_field [OF ok c o r, where k = "''event_cursor''" and t = "''integer''"] by (simp add: d)
qed

section \<open>The value read back\<close>

text \<open>What \<^verbatim>\<open>json.loads\<close> returns: no tuples, and the keys of an object are distinct.\<close>

fun json_value :: "pyval \<Rightarrow> bool" where
  "json_value (PList xs) = list_all json_value xs"
| "json_value (PTuple xs) = False"
| "json_value (PDict d) = (distinct (map fst d) \<and> list_all (\<lambda>f. json_value (snd f)) d)"
| "json_value (PObj n) = False"
| "json_value _ = True"

lemma normal_shape [simp]:
  "is_dict (normal v) = is_dict v" "is_str (normal v) = is_str v" "is_int (normal v) = is_int v"
  "is_bool (normal v) = is_bool v" "int_of (normal v) = int_of v" "str_of (normal v) = str_of v"
  "normal v = PStr t \<longleftrightarrow> v = PStr t" "normal v = PNone \<longleftrightarrow> v = PNone" "normal v = PBool b \<longleftrightarrow> v = PBool b"
  by (cases v; simp)+

lemma set_items_normal: "set (items (normal v)) = (\<lambda>f. (fst f, normal (snd f))) ` set (items v)"
  by (cases v) auto

lemma length_items_normal [simp]: "length (items (normal v)) = length (items v)"
  by (cases v) auto

lemma keys_normal [simp]: "set (map fst (items (normal v))) = set (map fst (items v))"
  unfolding set_map set_items_normal by (simp add: image_image)

lemma json_value_normal: "json_value v \<Longrightarrow> json_value (normal v)"
proof (induction v)
  case (PDict d)
  have "distinct (map fst (sort_key fst (map (\<lambda>f. (fst f, normal (snd f))) d)))"
    using PDict.prems by (simp add: distinct_map inj_on_def comp_def) (auto simp: distinct_map inj_on_def)
  then show ?case using PDict by (force simp: list_all_iff)
qed (auto simp: list_all_iff)

lemma map_of_normal: "json_value (PDict d) \<Longrightarrow> map_of (items (normal (PDict d))) k = map_option normal (map_of d k)"
proof -
  assume j: "json_value (PDict d)"
  let ?n = "map (\<lambda>f. (fst f, normal (snd f))) d"
  have "map_of (sort_key fst ?n) = map_of ?n"
  proof (rule map_of_inject_set [THEN iffD2])
    show "distinct (map fst (sort_key fst ?n))" using json_value_normal [OF j] by simp
    show "distinct (map fst ?n)" using j by (simp add: comp_def)
  qed simp
  moreover have "map_of ?n k = map_option normal (map_of d k)" by (induction d) auto
  ultimately show ?thesis by simp
qed

lemma fld_normal: "json_value v \<Longrightarrow> fld (normal v) k = normal (fld v k)"
  using map_of_normal by (cases v) (auto simp: fld_def split: option.splits simp del: normal.simps(3))

lemma has_key_normal: "json_value v \<Longrightarrow> has_key (normal v) k = has_key v k"
  by (auto simp: has_key_def map_of_eq_None_iff simp flip: set_map)

lemma normal_normal [simp]: "normal (normal v) = normal v"
proof (induction v)
  case (PDict d)
  let ?g = "\<lambda>f. (fst f, normal (snd f))"
  have "sort_key fst (map ?g (map ?g (sort_key fst d))) = map ?g (map ?g (sort_key fst d))"
    by (simp only: sort_key_map_snd sort_key_id_if_sorted sorted_sort_key)
  moreover have "map ?g (map ?g (sort_key fst d)) = map ?g (sort_key fst d)"
    using PDict by (auto simp: set_sort)
  ultimately show ?case by (simp only: normal.simps sort_key_map_snd)
qed auto

lemma encodable_normal [simp]: "encodable (normal v) = encodable v"
proof (induction v)
  case (PDict d)
  then show ?case by (force simp: list_all_iff)
qed (auto simp: list_all_iff)

lemma sha256_digest_normal: "sha256_digest v = Inr k \<Longrightarrow> sha256_digest (normal v) = Inr k"
proof -
  assume v: "sha256_digest v = Inr k"
  then have "encodable v" by (simp add: is_ok_iff flip: sha256_digest_ok)
  then obtain s t where st: "json_enc v = Inr s" "json_enc (normal v) = Inr t"
    using json_enc_ok [of v] json_enc_ok [of "normal v"] by (auto simp: is_ok_iff)
  then have "s = render (normal v)" "t = render (normal v)" using json_enc_render by fastforce+
  then show ?thesis using v st by (simp add: sha256_digest_def canonical_json_def)
qed

lemma py_sub_iff: "py_sub d e \<longleftrightarrow> (\<forall>f\<in>set d. \<exists>w. map_of e (fst f) = Some w \<and> py_eq (snd f) w)"
  by (induction d) (auto split: option.splits)

lemma py_eqs_normal:
  "(\<And>x c. x \<in> set xs \<Longrightarrow> py_eq x c \<Longrightarrow> py_eq (normal x) c) \<Longrightarrow> py_eqs xs ys \<Longrightarrow> py_eqs (map normal xs) ys"
  by (induction xs arbitrary: ys) (auto split: list.splits)

lemma py_eq_normal: "json_value v \<Longrightarrow> py_eq v c \<Longrightarrow> py_eq (normal v) c"
proof (induction v arbitrary: c)
  case (PList xs)
  then obtain ys where ys: "c = PList ys" "py_eqs xs ys" by (cases c) auto
  have "py_eqs (map normal xs) ys"
    by (rule py_eqs_normal [OF _ ys(2)]) (use PList in \<open>auto simp: list_all_iff\<close>)
  then show ?case using ys by simp
next
  case (PDict d)
  then obtain e where e: "c = PDict e" "length d = length e" "py_sub d e" by (cases c) auto
  have "py_eq (normal (snd f)) w" if "f \<in> set d" "py_eq (snd f) w" for f w
    using PDict.IH [of f "snd f" w] PDict.prems(1) that by (auto simp: list_all_iff snds.simps)
  then show ?case using e by (force simp: py_sub_iff)
qed auto

lemma in_enum_normal: "json_value v \<Longrightarrow> in_enum v ms \<Longrightarrow> in_enum (normal v) ms"
proof (cases "is_bool v")
  case True
  then show "json_value v \<Longrightarrow> in_enum v ms \<Longrightarrow> ?thesis" by (cases v) auto
next
  case False
  then show "json_value v \<Longrightarrow> in_enum v ms \<Longrightarrow> ?thesis"
    using py_eq_normal by (auto simp: in_enum_def list_ex_iff)
qed

lemma has_type_normal [simp]: "json_value v \<Longrightarrow> has_type t (normal v) = has_type t v"
  by (cases v) (auto simp: has_type_def)

lemma json_value_parts:
  "json_value v \<Longrightarrow> f \<in> set (items v) \<Longrightarrow> json_value (snd f)"
  "json_value v \<Longrightarrow> x \<in> set (elements v) \<Longrightarrow> json_value x"
  by (cases v; auto simp: list_all_iff)+

lemma elements_normal: "json_value v \<Longrightarrow> elements (normal v) = map normal (elements v)"
  by (cases v) auto

lemma is_list_normal: "json_value v \<Longrightarrow> is_list (normal v) = is_list v"
  by (cases v) auto

lemma conforms_normal: "conforms re v s \<Longrightarrow> json_value v \<Longrightarrow> conforms re (normal v) s"
proof (induction rule: conforms.induct)
  case (1 d v)
  note j = \<open>json_value v\<close>
  show ?case
  proof (rule conforms.intros)
    show "has_type t (normal v)" if "map_of d ''type'' = Some (PStr t)" for t using 1(1) [OF that] j by simp
    show "py_eq (normal v) c" if "map_of d ''const'' = Some c" for c by (rule py_eq_normal [OF j 1(2) [OF that]])
    show "in_enum (normal v) ms" if "map_of d ''enum'' = Some (PList ms)" for ms
      by (rule in_enum_normal [OF j 1(3) [OF that]])
    show "b \<le> int (length (items (normal v)))"
      if "is_dict (normal v)" "map_of d ''minProperties'' = Some (PInt b)" for b using 1(4) that by simp
    show "int (length (items (normal v))) \<le> b"
      if "is_dict (normal v)" "map_of d ''maxProperties'' = Some (PInt b)" for b using 1(5) that by simp
    show "conforms re (PStr (fst f)) p" if "map_of d ''propertyNames'' = Some p" "f \<in> set (items (normal v))" for p f
      using 1(6) [OF that(1)] that(2) by (auto simp: set_items_normal)
    show "set names \<subseteq> set (map fst (items (normal v)))"
      if "is_dict (normal v)" "map_of d ''required'' = Some (PList (map PStr names))" for names
      using 1(7) that by (simp only: keys_normal normal_shape)
    show "set (map fst (items (normal v))) \<subseteq> set (map fst (property_schemas d))"
      if "map_of d ''additionalProperties'' = Some (PBool False)"
      using 1(8) [OF that] by (simp only: keys_normal)
    show "conforms re (snd f) t" if "f \<in> set (items (normal v))" "governs d (fst f) t" for f t
      using 1(19) that json_value_parts(1) [OF j] by (auto simp: set_items_normal)
    show "conforms re x t" if "map_of d ''items'' = Some t" "x \<in> set (elements (normal v))" for t x
      using 1(20) [OF that(1)] that(2) json_value_parts(2) [OF j] by (auto simp: elements_normal [OF j])
    show "b \<le> int (length (elements (normal v)))" if "is_list (normal v)" "map_of d ''minItems'' = Some (PInt b)" for b
      using 1(10) that by (simp add: is_list_normal [OF j] elements_normal [OF j])
    show "b \<le> int (py_len t)" if "normal v = PStr t" "map_of d ''minLength'' = Some (PInt b)" for t b
      using 1(12) that by simp
    show "int (py_len t) \<le> b" if "normal v = PStr t" "map_of d ''maxLength'' = Some (PInt b)" for t b
      using 1(13) that by simp
    show "re p t = Inr True" if "normal v = PStr t" "map_of d ''pattern'' = Some p" for t p using 1(14) that by simp
    show "is_ok (parse_iso t)" if "normal v = PStr t" "map_of d ''format'' = Some (PStr ''date-time'')" for t
      using 1(15) that by simp
    show "\<not> is_bool (normal v) \<and> (is_int (normal v) \<longrightarrow> b \<le> int_of (normal v))"
      if "map_of d ''minimum'' = Some (PInt b)" for b using 1(16) [OF that] by simp
    show "\<not> is_bool (normal v) \<and> (is_int (normal v) \<longrightarrow> int_of (normal v) \<le> b)"
      if "map_of d ''maximum'' = Some (PInt b)" for b using 1(17) [OF that] by simp
  qed
qed

lemma validate_normal: "validate re v s = Inr () \<Longrightarrow> json_value v \<Longrightarrow> validate re (normal v) s = Inr ()"
  by (simp add: validate_conforms conforms_normal)

end
