(* ===== verification/Observation_Store.thy ===== *)
theory Observation_Store
  imports Contract_Schemas
begin

text \<open>
  \<^verbatim>\<open>src/app_contracts/observation_store.py\<close>: the append-only observation journal, in memory and in
  SQLite, and the gate that records a checkpoint and an intent before a side effect. Both journals
  share the checks of a checkpoint and of the causality of a result. \<open>re\<close> is \<^verbatim>\<open>re.search\<close> as in the
  validator. SQLite is available; an operation is atomic (one connection, or BEGIN IMMEDIATE).
\<close>

section \<open>Checks over the recorded events\<close>

abbreviation contract_refusal :: "string \<Rightarrow> exn" where
  "contract_refusal m \<equiv> Exn ContractValidationError m"

abbreviation conflict :: "string \<Rightarrow> exn" where
  "conflict m \<equiv> Exn EventConflictError m"

definition journal_error :: "string \<Rightarrow> exn" where
  "journal_error m = Exn ObservationStoreError (''observation journal: '' @ m)"

definition intent_event_types :: "string list" where
  "intent_event_types = [''decision_proposed'', ''tool_requested'']"

abbreviation event_id :: "pyval \<Rightarrow> string" where
  "event_id e \<equiv> str_of (fld e ''event_id'')"

abbreviation checkpoint_id :: "pyval \<Rightarrow> string" where
  "checkpoint_id c \<equiv> str_of (fld c ''checkpoint_id'')"

text \<open>The position of the first record whose field \<open>k\<close> is the text \<open>v\<close>.\<close>

definition position_of :: "string \<Rightarrow> string \<Rightarrow> pyval list \<Rightarrow> nat option" where
  "position_of k v es =
     (let n = length (takeWhile (\<lambda>e. fld e k \<noteq> PStr v) es) in if n < length es then Some n else None)"

definition same_context :: "pyval \<Rightarrow> pyval \<Rightarrow> unit res" where
  "same_context trigger cp = check_each
     (\<lambda>k. unless (\<not> py_eq (fld trigger k) (fld cp k)) (contract_refusal (''checkpoint trigger '' @ k @ '' mismatch'')) (Inr ()))
     [''process_id'', ''run_id'', ''branch_id'']"

text \<open>\<open>events\<close> is what reading the journal returns, once the checkpoint's schema has been checked.\<close>

definition check_checkpoint :: "(pyval \<Rightarrow> string \<Rightarrow> bool res) \<Rightarrow> pyval list res \<Rightarrow> pyval \<Rightarrow> int res" where
  "check_checkpoint re events cp =
     unless (\<not> is_dict cp) (contract_refusal ''checkpoint is malformed'')
    (rbind (validate re cp checkpoint_schema) (\<lambda>_.
     rbind events (\<lambda>es.
     case position_of ''event_id'' (str_of (fld cp ''trigger_event_id'')) es of
       None \<Rightarrow> Inl (contract_refusal ''unknown trigger event'')
     | Some p \<Rightarrow>
         rbind (same_context (es ! p) cp) (\<lambda>_.
         let cursor = int_of (fld cp ''event_cursor'')
         in unless (int (length es) \<le> cursor) (contract_refusal ''checkpoint cursor is beyond journal end'')
           (unless (cursor \<noteq> int p) (contract_refusal ''checkpoint cursor does not match trigger position'')
           (Inr cursor))))))"

text \<open>The other records of the result's invocation, with their positions.\<close>

definition invocation_records :: "pyval list \<Rightarrow> pyval \<Rightarrow> (nat \<times> pyval) list" where
  "invocation_records es result = filter (\<lambda>(p, e). py_eq (fld e ''invocation_id'') (fld result ''invocation_id'')
     \<and> \<not> py_eq (fld e ''event_id'') (fld result ''event_id'')) (enumerate 0 es)"

definition is_intent :: "pyval \<Rightarrow> bool" where
  "is_intent e \<longleftrightarrow> is_str (fld e ''event_type'') \<and> str_of (fld e ''event_type'') \<in> set intent_event_types"

definition check_result_causality :: "(pyval \<Rightarrow> string \<Rightarrow> bool res) \<Rightarrow> pyval list res \<Rightarrow> pyval \<Rightarrow> int res" where
  "check_result_causality re events result =
     rbind (validate re result event_schema) (\<lambda>_.
     unless (fld result ''invocation_id'' = PNone \<or> fld result ''invocation_id'' = PStr [])
       (contract_refusal ''result has no invocation reference'')
    (rbind events (\<lambda>es.
     let own = position_of ''event_id'' (event_id result) es;
         related = invocation_records es result;
         intents = filter (\<lambda>(p, e). is_intent e) related;
         later = (\<lambda>p. case own of None \<Rightarrow> False | Some q \<Rightarrow> q \<le> p);
         preceding = filter (\<lambda>p. \<not> later p) (map fst intents)
     in unless (1 < length preceding) (contract_refusal ''ambiguous invocation reference'')
       (if length preceding = 1 then Inr (int (hd preceding))
        else unless (list_ex later (map fst intents)) (contract_refusal ''invocation reference is not preceding'')
            (unless (list_ex (\<lambda>(p, e). \<not> is_intent e) related) (contract_refusal ''invocation reference is not an intent'')
            (Inl (contract_refusal ''unknown invocation reference'')))))))"

section \<open>The journal in memory\<close>

record obs_store =
  os_events :: "pyval list"
  os_digests :: "(string \<times> string) list"
  os_checkpoints :: "pyval list"
  os_checkpoint_digests :: "(string \<times> string) list"

definition empty_obs_store :: obs_store where
  "empty_obs_store = \<lparr>os_events = [], os_digests = [], os_checkpoints = [], os_checkpoint_digests = []\<rparr>"

definition stored_position :: "string \<Rightarrow> string \<Rightarrow> pyval list \<Rightarrow> int res" where
  "stored_position k v es = (case position_of k v es of None \<Rightarrow> raise KeyError v | Some p \<Rightarrow> Inr (int p))"

definition obs_append :: "(pyval \<Rightarrow> string \<Rightarrow> bool res) \<Rightarrow> pyval \<Rightarrow> (obs_store, int) eff" where
  "obs_append re ev s =
     (case rbind (validate re ev event_schema) (\<lambda>_. sha256_digest ev) of
        Inl e \<Rightarrow> (Inl e, s)
      | Inr digest \<Rightarrow> (case map_of (os_digests s) (event_id ev) of
            Some known \<Rightarrow> (if known = digest then stored_position ''event_id'' (event_id ev) (os_events s)
                         else Inl (conflict ''event id conflict''), s)
          | None \<Rightarrow> (Inr (int (length (os_events s))),
              s\<lparr>os_events := os_events s @ [ev], os_digests := (event_id ev, digest) # os_digests s\<rparr>)))"

definition obs_record_checkpoint :: "(pyval \<Rightarrow> string \<Rightarrow> bool res) \<Rightarrow> pyval \<Rightarrow> (obs_store, int) eff" where
  "obs_record_checkpoint re cp s =
     (case rbind (check_checkpoint re (Inr (os_events s)) cp) (\<lambda>_. sha256_digest cp) of
        Inl e \<Rightarrow> (Inl e, s)
      | Inr digest \<Rightarrow> (case map_of (os_checkpoint_digests s) (checkpoint_id cp) of
            Some known \<Rightarrow> (if known = digest then stored_position ''checkpoint_id'' (checkpoint_id cp) (os_checkpoints s)
                         else Inl (conflict ''checkpoint id conflict''), s)
          | None \<Rightarrow> (Inr (int (length (os_checkpoints s))),
              s\<lparr>os_checkpoints := os_checkpoints s @ [cp],
                os_checkpoint_digests := (checkpoint_id cp, digest) # os_checkpoint_digests s\<rparr>)))"

definition obs_record_once :: "(pyval \<Rightarrow> string \<Rightarrow> bool res) \<Rightarrow> pyval \<Rightarrow> pyval \<Rightarrow> (obs_store, int) eff" where
  "obs_record_once re cp ev =
     ebind (elift (validate re ev event_schema)) (\<lambda>_ s.
       if map_of (os_digests s) (event_id ev) \<noteq> None then (Inl (conflict ''one-shot intent already recorded''), s)
       else ebind (obs_record_checkpoint re cp) (\<lambda>_. obs_append re ev) s)"

section \<open>The journal in SQLite\<close>

text \<open>
  A row holds the identity, the cursor, what \<^verbatim>\<open>json.loads\<close> reads from the JSON text (\<open>None\<close>: it is not
  JSON) and the digest. The text \<^verbatim>\<open>json.dumps\<close> writes with sorted keys reads back as the normal form.
\<close>

record obs_row =
  or_id :: string
  or_cursor :: int
  or_json :: "pyval option"
  or_digest :: string

text \<open>A database file: its version, its tables with their columns, and the rows of the two tables.\<close>

record obs_db =
  od_version :: int
  od_tables :: "(string \<times> string list) list"
  od_events :: "obs_row list"
  od_checkpoints :: "obs_row list"

definition empty_obs_db :: obs_db where
  "empty_obs_db = \<lparr>od_version = 0, od_tables = [], od_events = [], od_checkpoints = []\<rparr>"

definition expected_tables :: "(string \<times> string list) list" where
  "expected_tables =
     [(''observation_events'', [''event_id'', ''cursor'', ''event_json'', ''digest'']),
      (''observation_checkpoints'', [''checkpoint_id'', ''cursor'', ''checkpoint_json'', ''digest''])]"

definition initialize_schema :: "obs_db \<Rightarrow> obs_db res" where
  "initialize_schema f =
     (if od_version f = 0 \<and> od_tables f = []
      then Inr (f\<lparr>od_version := 1, od_tables := expected_tables\<rparr>)
      else unless (od_version f \<noteq> 1) (journal_error ''unsupported schema version'')
          (unless (\<not> list_all (\<lambda>(t, _). map_of (od_tables f) t \<noteq> None) expected_tables) (journal_error ''schema is malformed'')
          (unless (\<not> list_all (\<lambda>(t, cols). set (the (map_of (od_tables f) t)) = set cols) expected_tables)
             (journal_error ''schema is malformed'') (Inr f))))"

text \<open>\<^verbatim>\<open>SELECT ... ORDER BY cursor\<close>, decoded.\<close>

definition decode :: "obs_row \<Rightarrow> pyval res" where
  "decode r = (case or_json r of None \<Rightarrow> raise ValueError ''not JSON'' | Some v \<Rightarrow> Inr v)"

definition read_rows :: "obs_row list \<Rightarrow> pyval list res" where
  "read_rows rows = map_res decode (sort_key or_cursor rows)"

definition db_events :: "obs_db \<Rightarrow> pyval list res" where
  "db_events f = read_rows (od_events f)"

definition db_check_checkpoint :: "(pyval \<Rightarrow> string \<Rightarrow> bool res) \<Rightarrow> pyval \<Rightarrow> obs_db \<Rightarrow> int res" where
  "db_check_checkpoint re cp f = check_checkpoint re (db_events f) cp"

definition db_check_causality :: "(pyval \<Rightarrow> string \<Rightarrow> bool res) \<Rightarrow> pyval \<Rightarrow> obs_db \<Rightarrow> int res" where
  "db_check_causality re result f = check_result_causality re (db_events f) result"

text \<open>One persisted row: its text, its schema, its position, its identity and its digest.\<close>

definition check_row :: "(pyval \<Rightarrow> string \<Rightarrow> bool res) \<Rightarrow> pyval \<Rightarrow> string \<Rightarrow> nat \<Rightarrow> obs_row \<Rightarrow> pyval res" where
  "check_row re schema key n r =
     rbind (decode r) (\<lambda>v.
     rbind (validate re v schema) (\<lambda>_.
     let bad = Exn ValueError ''row mismatch''
     in unless (or_cursor r \<noteq> int n) bad
       (rbind (idx v key) (\<lambda>i.
        unless (i \<noteq> PStr (or_id r)) bad
       (rbind (sha256_digest v) (\<lambda>d. unless (d \<noteq> or_digest r) bad (Inr v)))))))"

definition validate_persisted_rows :: "(pyval \<Rightarrow> string \<Rightarrow> bool res) \<Rightarrow> obs_db \<Rightarrow> unit res" where
  "validate_persisted_rows re f =
     rcatch
       (rbind (check_each (\<lambda>(n, r). rbind (check_row re event_schema ''event_id'' n r) (\<lambda>_. Inr ()))
          (enumerate 0 (sort_key or_cursor (od_events f)))) (\<lambda>_.
        check_each (\<lambda>(n, r). rbind (check_row re checkpoint_schema ''checkpoint_id'' n r) (\<lambda>cp.
            rbind (db_check_checkpoint re cp f) (\<lambda>_. Inr ())))
          (enumerate 0 (sort_key or_cursor (od_checkpoints f)))))
       (\<lambda>e. if is_value_error e \<or> exn_class e \<in> {TypeError, KeyError, IndexError}
            then Inl (journal_error ''persisted records are malformed'') else Inl e)"

text \<open>\<open>path_ok\<close>: the path is a non-empty text; \<open>opens\<close>: the file can be created and is a database.\<close>

definition open_obs_db :: "(pyval \<Rightarrow> string \<Rightarrow> bool res) \<Rightarrow> bool \<Rightarrow> bool \<Rightarrow> obs_db \<Rightarrow> obs_db res" where
  "open_obs_db re path_ok opens f =
     unless (\<not> path_ok) (journal_error ''database path is invalid'')
    (unless (\<not> opens) (journal_error ''database could not be opened'')
    (rbind (initialize_schema f) (\<lambda>g.
     rbind (validate_persisted_rows re g) (\<lambda>_. Inr g))))"

definition next_cursor :: "obs_row list \<Rightarrow> int" where
  "next_cursor rows = (if rows = [] then 0 else Max (set (map or_cursor rows)) + 1)"

text \<open>\<^verbatim>\<open>INSERT\<close> of a value at the next cursor: both the identity and the cursor are unique.\<close>

definition insert_row :: "string \<Rightarrow> pyval \<Rightarrow> string \<Rightarrow> obs_row list \<Rightarrow> (int \<times> obs_row list) res" where
  "insert_row i v digest rows =
     (let c = next_cursor rows
      in unless (list_ex (\<lambda>r. or_id r = i \<or> or_cursor r = c) rows) (Exn IntegrityError ''UNIQUE constraint failed'')
        (Inr (c, rows @ [\<lparr>or_id = i, or_cursor = c, or_json = Some (normal v), or_digest = digest\<rparr>])))"

definition row_of :: "string \<Rightarrow> obs_row list \<Rightarrow> obs_row option" where
  "row_of i rows = find (\<lambda>r. or_id r = i) rows"

definition db_append :: "(pyval \<Rightarrow> string \<Rightarrow> bool res) \<Rightarrow> pyval \<Rightarrow> (obs_db, int) eff" where
  "db_append re ev f =
     (case rbind (validate re ev event_schema) (\<lambda>_. sha256_digest ev) of
        Inl e \<Rightarrow> (Inl e, f)
      | Inr digest \<Rightarrow> (case row_of (event_id ev) (od_events f) of
            Some known \<Rightarrow> (if or_digest known = digest then Inr (or_cursor known)
                         else Inl (conflict ''event id conflict''), f)
          | None \<Rightarrow> (case insert_row (event_id ev) ev digest (od_events f) of
                Inl _ \<Rightarrow> (Inl (journal_error ''event could not be stored''), f)
              | Inr (c, rows) \<Rightarrow> (Inr c, f\<lparr>od_events := rows\<rparr>))))"

definition db_record_checkpoint :: "(pyval \<Rightarrow> string \<Rightarrow> bool res) \<Rightarrow> pyval \<Rightarrow> (obs_db, int) eff" where
  "db_record_checkpoint re cp f =
     (case rbind (db_check_checkpoint re cp f) (\<lambda>_. sha256_digest cp) of
        Inl e \<Rightarrow> (Inl e, f)
      | Inr digest \<Rightarrow> (case row_of (checkpoint_id cp) (od_checkpoints f) of
            Some known \<Rightarrow> (if or_digest known = digest then Inr (or_cursor known)
                         else Inl (conflict ''checkpoint id conflict''), f)
          | None \<Rightarrow> (case insert_row (checkpoint_id cp) cp digest (od_checkpoints f) of
                Inl _ \<Rightarrow> (Inl (journal_error ''checkpoint could not be stored''), f)
              | Inr (c, rows) \<Rightarrow> (Inr c, f\<lparr>od_checkpoints := rows\<rparr>))))"

text \<open>What both transactions compute before they start.\<close>

definition pair_digests :: "(pyval \<Rightarrow> string \<Rightarrow> bool res) \<Rightarrow> pyval \<Rightarrow> pyval \<Rightarrow> (string \<times> string) res" where
  "pair_digests re cp ev =
     rbind (validate re ev event_schema) (\<lambda>_.
     rbind (sha256_digest ev) (\<lambda>de.
     rbind (if is_dict cp then sha256_digest cp else Inr []) (\<lambda>dc. Inr (dc, de))))"

text \<open>The checkpoint's row, unless it is there already.\<close>

definition add_checkpoint :: "pyval \<Rightarrow> string \<Rightarrow> obs_db \<Rightarrow> obs_db res" where
  "add_checkpoint cp digest f = (case row_of (checkpoint_id cp) (od_checkpoints f) of
      Some _ \<Rightarrow> Inr f
    | None \<Rightarrow> rbind (insert_row (checkpoint_id cp) cp digest (od_checkpoints f)) (\<lambda>(c, rows).
        Inr (f\<lparr>od_checkpoints := rows\<rparr>)))"

definition add_event :: "pyval \<Rightarrow> string \<Rightarrow> obs_db \<Rightarrow> (int \<times> obs_db) res" where
  "add_event ev digest f =
     rbind (insert_row (event_id ev) ev digest (od_events f)) (\<lambda>(c, rows). Inr (c, f\<lparr>od_events := rows\<rparr>))"

text \<open>An sqlite3 error becomes the journal's own; every other exception passes. Either rolls back.\<close>

definition journal_txn :: "string \<Rightarrow> (obs_db \<Rightarrow> (int \<times> obs_db) res) \<Rightarrow> (obs_db, int) eff" where
  "journal_txn m body f = (case body f of
      Inl e \<Rightarrow> (Inl (if exn_class e = IntegrityError then journal_error m else e), f)
    | Inr (c, g) \<Rightarrow> (Inr c, g))"

definition checkpoint_conflict :: "pyval \<Rightarrow> string \<Rightarrow> obs_db \<Rightarrow> bool" where
  "checkpoint_conflict cp digest f =
     (case row_of (checkpoint_id cp) (od_checkpoints f) of None \<Rightarrow> False | Some r \<Rightarrow> or_digest r \<noteq> digest)"

definition db_record_pair :: "(pyval \<Rightarrow> string \<Rightarrow> bool res) \<Rightarrow> pyval \<Rightarrow> pyval \<Rightarrow> (obs_db, int) eff" where
  "db_record_pair re cp ev =
     ebind (elift (pair_digests re cp ev)) (\<lambda>(dc, de).
     journal_txn ''gated records could not be stored'' (\<lambda>f.
       rbind (db_check_checkpoint re cp f) (\<lambda>_.
       unless (checkpoint_conflict cp dc f) (conflict ''checkpoint id conflict'')
      (unless (case row_of (event_id ev) (od_events f) of None \<Rightarrow> False | Some r \<Rightarrow> or_digest r \<noteq> de)
         (conflict ''event id conflict'')
      (rbind (add_checkpoint cp dc f) (\<lambda>g.
       case row_of (event_id ev) (od_events f) of
         Some r \<Rightarrow> Inr (or_cursor r, g)
       | None \<Rightarrow> add_event ev de g))))))"

definition db_record_once :: "(pyval \<Rightarrow> string \<Rightarrow> bool res) \<Rightarrow> pyval \<Rightarrow> pyval \<Rightarrow> (obs_db, int) eff" where
  "db_record_once re cp ev =
     ebind (elift (pair_digests re cp ev)) (\<lambda>(dc, de).
     journal_txn ''one-shot intent could not be stored'' (\<lambda>f.
       rbind (db_check_checkpoint re cp f) (\<lambda>_.
       unless (row_of (event_id ev) (od_events f) \<noteq> None) (conflict ''one-shot intent already recorded'')
      (unless (checkpoint_conflict cp dc f) (conflict ''checkpoint id conflict'')
      (rbind (add_checkpoint cp dc f) (add_event ev de))))))"

section \<open>The gate before a side effect\<close>

text \<open>
  What the gate uses of a store: its record operations, of which the pair operations may be missing
  (the journal in memory has no \<^verbatim>\<open>record_checkpoint_and_intent\<close>).
\<close>

record 's gate_store =
  gs_record :: "(pyval \<Rightarrow> ('s, int) eff) option"
  gs_append :: "(pyval \<Rightarrow> ('s, int) eff) option"
  gs_pair :: "(pyval \<Rightarrow> pyval \<Rightarrow> ('s, int) eff) option"
  gs_once :: "(pyval \<Rightarrow> pyval \<Rightarrow> ('s, int) eff) option"

definition memory_gate :: "(pyval \<Rightarrow> string \<Rightarrow> bool res) \<Rightarrow> obs_store gate_store" where
  "memory_gate re = \<lparr>gs_record = Some (obs_record_checkpoint re), gs_append = Some (obs_append re), gs_pair = None,
     gs_once = Some (obs_record_once re)\<rparr>"

definition sqlite_gate :: "(pyval \<Rightarrow> string \<Rightarrow> bool res) \<Rightarrow> obs_db gate_store" where
  "sqlite_gate re = \<lparr>gs_record = Some (db_record_checkpoint re), gs_append = Some (db_append re),
     gs_pair = Some (db_record_pair re), gs_once = Some (db_record_once re)\<rparr>"

abbreviation gate_error :: "string \<Rightarrow> exn" where
  "gate_error m \<equiv> Exn PreDispatchError (''pre-dispatch gate refused: '' @ m)"

text \<open>The exceptions the gate turns into its own.\<close>

definition gated :: "exn \<Rightarrow> exn" where
  "gated e = (if exn_class e \<in> {ContractValidationError, AllowlistedTestFailureError, EventConflictError, ObservationStoreError}
     then gate_error (exn_msg e) else e)"

text \<open>The gate works on the journal and the world; \<open>on_store\<close> and \<open>on_world\<close> act on one of the two.\<close>

definition on_store :: "('s, 'a) eff \<Rightarrow> ('s \<times> 'w, 'a) eff" where
  "on_store m = (\<lambda>(s, w). case m s of (r, t) \<Rightarrow> (r, (t, w)))"

definition on_world :: "('w, 'a) eff \<Rightarrow> ('s \<times> 'w, 'a) eff" where
  "on_world m = (\<lambda>(s, w). case m w of (r, v) \<Rightarrow> (r, (s, v)))"

text \<open>The records, and then the callback on the recorded cursor.\<close>

definition gate_records :: "'s gate_store \<Rightarrow> bool \<Rightarrow> pyval \<Rightarrow> pyval \<Rightarrow> (int \<Rightarrow> ('w, unit) eff) option \<Rightarrow>
   ('s \<times> 'w, int) eff" where
  "gate_records st once cp ev callback =
     ebind
       (if once then (case gs_once st of
            None \<Rightarrow> elift (raise ObservationStoreError ''one-shot journal insertion unavailable'')
          | Some f \<Rightarrow> on_store (f cp ev))
        else (case gs_pair st of
            Some f \<Rightarrow> on_store (f cp ev)
          | None \<Rightarrow> ebind (on_store (the (gs_record st) cp)) (\<lambda>_. on_store (the (gs_append st) ev)))) (\<lambda>cursor.
     case callback of
       None \<Rightarrow> eret cursor
     | Some g \<Rightarrow> ebind (on_world (g cursor)) (\<lambda>_. eret cursor))"

text \<open>
  A collaborator that is not callable is \<open>None\<close>; the callback may also be absent (\<open>Some None\<close>). The
  dispatch may itself write to the journal.
\<close>

definition run_gated_dispatch :: "'s gate_store \<Rightarrow> pyval \<Rightarrow> pyval \<Rightarrow> ('s \<times> 'w, 'a) eff option \<Rightarrow> bool \<Rightarrow>
   (int \<Rightarrow> ('w, unit) eff) option option \<Rightarrow> ('s \<times> 'w, int \<times> 'a) eff" where
  "run_gated_dispatch st cp ev dispatch once callback =
     eunless (gs_record st = None \<or> gs_append st = None) (gate_error ''store is invalid'')
    (case dispatch of
       None \<Rightarrow> elift (Inl (gate_error ''dispatch is not callable''))
     | Some run \<Rightarrow> (case callback of
         None \<Rightarrow> elift (Inl (gate_error ''intent callback is invalid''))
       | Some cb \<Rightarrow>
           (let go = (\<lambda>cursor. ebind run (\<lambda>x. eret (cursor, x)))
            in if once then ecatch (ebind (gate_records st once cp ev cb) go) (\<lambda>e. elift (Inl (gated e)))
               else ebind (ecatch (gate_records st once cp ev cb) (\<lambda>e. elift (Inl (gated e)))) go)))"

end
