(* ===== verification/Observed_Run.thy ===== *)
theory Observed_Run
  imports Observation_Store Py_Datetime
begin

text \<open>
  The run of \<^verbatim>\<open>src/app_contracts/observer_runtime.py\<close>: one execution whose calls are journaled. A run
  (\<open>observed_run\<close>, the slots of \<^verbatim>\<open>JournaledProposalWorker\<close>) writes to an observation journal. Every call
  records a checkpoint and an intent, dispatches, and records a terminal event; theory Observed_Calls
  has the calls. The identifier factory and the clock are injected; they act on a state of their own
  (\<open>run_env\<close>). A state is the journal, the run and the rest of the world.
\<close>

section \<open>The run\<close>

record 'e observed_run =
  run_process :: string
  run_task :: string
  run_id :: string
  run_branch :: string
  run_used :: bool
  run_start_event :: "string option"
  run_invocation :: "string option"
  run_agent_finished :: bool
  run_finished :: bool
  run_legacy_gap :: bool
  run_sequence :: int
  run_last_event :: "string option"
  run_last_cursor :: "int option"
  run_verifier_used :: bool
  run_pin_used :: bool
  run_authorization_used :: bool
  run_publication_used :: bool
  run_steps_used :: "string list"
  run_env :: 'e

record 'e run_sources =
  src_id :: "('e, pyval) eff"
  src_clock :: "('e, now_arg) eff"

text \<open>What a run uses of its journal: the gate, reading the events, the causality of a result.\<close>

record 's observer_store =
  ost_gate :: "'s gate_store"
  ost_events :: "'s \<Rightarrow> pyval list res"
  ost_causality :: "pyval \<Rightarrow> 's \<Rightarrow> int res"

definition memory_observer :: "(pyval \<Rightarrow> string \<Rightarrow> bool res) \<Rightarrow> obs_store observer_store" where
  "memory_observer re = \<lparr>ost_gate = memory_gate re, ost_events = (\<lambda>s. Inr (os_events s)),
     ost_causality = (\<lambda>ev s. check_result_causality re (Inr (os_events s)) ev)\<rparr>"

definition sqlite_observer :: "(pyval \<Rightarrow> string \<Rightarrow> bool res) \<Rightarrow> obs_db observer_store" where
  "sqlite_observer re = \<lparr>ost_gate = sqlite_gate re, ost_events = db_events, ost_causality = db_check_causality re\<rparr>"

type_synonym ('s, 'e, 'w) run_state = "'s \<times> 'e observed_run \<times> 'w"

definition on_run :: "('e observed_run, 'a) eff \<Rightarrow> (('s, 'e, 'w) run_state, 'a) eff" where
  "on_run m = (\<lambda>(s, r, w). case m r of (x, q) \<Rightarrow> (x, (s, q, w)))"

definition worker_journal :: "string \<Rightarrow> exn" where
  "worker_journal m = Exn WorkerJournalError (''worker journal: '' @ m)"

text \<open>\<^verbatim>\<open>WorkerJournalError\<close> and its subclasses.\<close>

definition worker_journal_classes :: "exc_class set" where
  "worker_journal_classes = {WorkerJournalError, SnapshotPinDecisionError, SnapshotPinDecisionOutcomeUnknownError,
     ExecutionAuthorizationJournalError, ExecutionAuthorizationOutcomeUnknownError}"

text \<open>\<open>unless_of classes e\<close> is \<^verbatim>\<open>except classes: raise; except Exception: raise e\<close>.\<close>

definition unless_of :: "exc_class set \<Rightarrow> exn \<Rightarrow> ('z, 'a) eff \<Rightarrow> ('z, 'a) eff" where
  "unless_of classes e m = ecatch m (\<lambda>x. elift (Inl (if exn_class x \<in> classes then x else e)))"

section \<open>Identifiers, time and events\<close>

text \<open>\<^verbatim>\<open>^[a-z0-9-]{8,64}$\<close>, matched in full.\<close>

definition is_id_char :: "char \<Rightarrow> bool" where
  "is_id_char c \<longleftrightarrow> (97 \<le> byte c \<and> byte c \<le> 122) \<or> is_digit c \<or> c = CHR ''-''"

definition is_safe_id :: "string \<Rightarrow> bool" where
  "is_safe_id s \<longleftrightarrow> 8 \<le> length s \<and> length s \<le> 64 \<and> list_all is_id_char s"

definition on_env :: "('e, 'a) eff \<Rightarrow> ('e observed_run, 'a) eff" where
  "on_env m = (\<lambda>r. case m (run_env r) of (x, e) \<Rightarrow> (x, r\<lparr>run_env := e\<rparr>))"

definition next_id :: "'e run_sources \<Rightarrow> ('e observed_run, string) eff" where
  "next_id src = ebind (on_env (src_id src)) (\<lambda>v.
     eunless (\<not> is_str v \<or> \<not> is_safe_id (str_of v)) (worker_journal ''identifier unavailable'') (eret (str_of v)))"

text \<open>\<^verbatim>\<open>isoformat(timespec="seconds")\<close>.\<close>

definition format_seconds :: "pydatetime \<Rightarrow> string" where
  "format_seconds t = format_utc (t\<lparr>wall := wall t - wall t mod 1000000\<rparr>)"

definition timestamp_of :: "now_arg \<Rightarrow> string res" where
  "timestamp_of now = (case now of
      NowAt t \<Rightarrow> unless (\<not> is_aware t) (worker_journal ''clock unavailable'')
        (rbind (astimezone_utc t) (\<lambda>u. Inr (format_seconds u)))
    | _ \<Rightarrow> Inl (worker_journal ''clock unavailable''))"

definition run_timestamp :: "'e run_sources \<Rightarrow> ('e observed_run, string) eff" where
  "run_timestamp src = ebind (on_env (src_clock src)) (\<lambda>now. elift (timestamp_of now))"

definition event_base :: "string \<Rightarrow> string \<Rightarrow> string \<Rightarrow> string \<Rightarrow> 'e observed_run \<Rightarrow> fields" where
  "event_base event_type eid agent tm r =
     [(''schema_version'', PInt 1), (''event_id'', PStr eid), (''event_type'', PStr event_type),
      (''process_id'', PStr (run_process r)), (''run_id'', PStr (run_id r)), (''branch_id'', PStr (run_branch r)),
      (''task_id'', PStr (run_task r)), (''agent_id'', PStr agent), (''sequence'', PInt (run_sequence r)),
      (''occurred_at'', PStr tm), (''recorded_at'', PStr tm), (''classification'', PStr ''internal''),
      (''redaction_status'', PStr ''complete'')]"

text \<open>\<^verbatim>\<open>_base_event\<close>: a finished invocation or run admits no more events than its own end.\<close>

definition base_event :: "'e run_sources \<Rightarrow> string \<Rightarrow> string \<Rightarrow> string \<Rightarrow> ('e observed_run, fields) eff" where
  "base_event src event_type eid agent = (\<lambda>r.
     eunless (run_finished r \<and> event_type \<noteq> ''run_finished'') (worker_journal ''run is terminal'')
    (eunless (run_agent_finished r \<and> event_type \<notin> {''agent_finished'', ''run_finished''})
       (worker_journal ''invocation is terminal'')
    (ebind (run_timestamp src) (\<lambda>tm. eret (event_base event_type eid agent tm r)))) r)"

abbreviation service_worker :: string where
  "service_worker \<equiv> ''service-worker''"

definition note_event :: "string \<Rightarrow> int \<Rightarrow> ('e observed_run, unit) eff" where
  "note_event eid cursor = (\<lambda>r. (Inr (), r\<lparr>run_last_event := Some eid, run_last_cursor := Some cursor,
     run_sequence := run_sequence r + 1\<rparr>))"

text \<open>Appending an event: any failure of the journal is the exception \<open>lost\<close>.\<close>

definition append_event :: "'s observer_store \<Rightarrow> exn \<Rightarrow> string \<Rightarrow> fields \<Rightarrow> (('s, 'e, 'w) run_state, unit) eff" where
  "append_event st lost eid fs =
     ebind (ecatch (on_store (the (gs_append (ost_gate st)) (PDict fs))) (\<lambda>_. elift (Inl lost))) (\<lambda>cursor.
     on_run (note_event eid cursor))"

section \<open>Starting a run\<close>

definition of_process_task :: "'e observed_run \<Rightarrow> pyval \<Rightarrow> bool" where
  "of_process_task r e \<longleftrightarrow> fld e ''process_id'' = PStr (run_process r) \<and> fld e ''task_id'' = PStr (run_task r)"

text \<open>\<^verbatim>\<open>_reject_prior_attempt\<close>.\<close>

definition is_attempt :: "'e observed_run \<Rightarrow> pyval \<Rightarrow> bool" where
  "is_attempt r e \<longleftrightarrow> of_process_task r e \<and> fld e ''agent_id'' = PStr service_worker \<and>
     (fld e ''event_type'' = PStr ''agent_started'' \<or>
      fld e ''event_type'' = PStr ''tool_requested'' \<and> fld e ''decision_or_tool'' = PStr ''ProposalWorker.propose'')"

definition reject_prior_attempt :: "'s observer_store \<Rightarrow> 'e observed_run \<Rightarrow> 's \<Rightarrow> unit res" where
  "reject_prior_attempt st r s =
     rbind (ost_events st s) (\<lambda>es.
     unless (list_ex (is_attempt r) es) (worker_journal ''attempt already recorded'') (Inr ()))"

text \<open>The first identifier that is not used yet, out of at most \<open>n\<close>.\<close>

fun fresh_id :: "'e run_sources \<Rightarrow> string \<Rightarrow> pyval list \<Rightarrow> nat \<Rightarrow> ('e observed_run, string option) eff" where
  "fresh_id src prefix used n =
     (if n = 0 then eret None
      else ebind (next_id src) (\<lambda>i.
        if PStr (prefix @ i) \<in> set used then fresh_id src prefix used (n - 1) else eret (Some (prefix @ i))))"

declare fresh_id.simps [simp del]

definition id_attempts :: nat where
  "id_attempts = 10000"

definition start_run :: "'e run_sources \<Rightarrow> 's observer_store \<Rightarrow> string list option \<Rightarrow> (('s, 'e, 'w) run_state, unit) eff" where
  "start_run src st causal = (\<lambda>(s, r, w).
     ebind (elift (ost_events st s)) (\<lambda>known.
     ebind (on_run (fresh_id src ''event-'' (map (\<lambda>e. fld e ''event_id'') known) id_attempts)) (\<lambda>eid.
     ebind (on_run (fresh_id src ''invocation-'' (map (\<lambda>e. fld e ''invocation_id'') (filter (\<lambda>e. is_str (fld e ''invocation_id'')) known))
       id_attempts)) (\<lambda>iid.
     case (eid, iid) of
       (Some e, Some i) \<Rightarrow>
         ebind (on_run (\<lambda>r. (Inr (), r\<lparr>run_invocation := Some i\<rparr>))) (\<lambda>_.
         ebind (on_run (base_event src ''agent_started'' e service_worker)) (\<lambda>base.
         ebind (append_event st (worker_journal ''run start unavailable'') e
           (base @ [(''invocation_id'', PStr i)]
             @ (case causal of None \<Rightarrow> [] | Some ids \<Rightarrow> [(''causal_event_ids'', PList (map PStr ids))]))) (\<lambda>_.
         on_run (\<lambda>r. (Inr (), r\<lparr>run_start_event := Some e\<rparr>)))))
     | _ \<Rightarrow> elift (Inl (worker_journal ''invocation identifier unavailable''))))) (s, r, w))"

text \<open>\<^verbatim>\<open>^(process|task)-[a-z0-9-]{1,120}$\<close> with the prefix the constructor asks for.\<close>

definition is_identity :: "string \<Rightarrow> string \<Rightarrow> bool" where
  "is_identity prefix s \<longleftrightarrow> startswith s prefix \<and>
     (let t = drop (length prefix) s in t \<noteq> [] \<and> length t \<le> 120 \<and> list_all is_id_char t)"

definition initial_run :: "string \<Rightarrow> string \<Rightarrow> 'e \<Rightarrow> 'e observed_run" where
  "initial_run process task e = \<lparr>run_process = process, run_task = task, run_id = [], run_branch = ''branch-main'',
     run_used = False, run_start_event = None, run_invocation = None, run_agent_finished = False,
     run_finished = False, run_legacy_gap = False, run_sequence = 0, run_last_event = None, run_last_cursor = None,
     run_verifier_used = False, run_pin_used = False, run_authorization_used = False, run_publication_used = False,
     run_steps_used = [], run_env = e\<rparr>"

text \<open>
  The constructor. \<open>None\<close> as the store is an object without the methods used, \<open>callable\<close> says that the
  worker has \<^verbatim>\<open>propose\<close>. The result is the run; a failure leaves no run but may have used the sources.
\<close>

definition open_run :: "'e run_sources \<Rightarrow> 's observer_store option \<Rightarrow> bool \<Rightarrow> pyval \<Rightarrow> pyval \<Rightarrow>
   ('s \<times> 'e, 'e observed_run) eff" where
  "open_run src store callable process task = (\<lambda>(s, e).
     case store of
       None \<Rightarrow> (Inl (worker_journal ''configuration unavailable''), (s, e))
     | Some st \<Rightarrow>
        if \<not> callable \<or> gs_append (ost_gate st) = None \<or> gs_record (ost_gate st) = None
            \<or> \<not> is_str process \<or> \<not> is_identity ''process-'' (str_of process)
            \<or> \<not> is_str task \<or> \<not> is_identity ''task-'' (str_of task)
        then (Inl (worker_journal ''configuration unavailable''), (s, e))
        else
         (case ebind (unless_of worker_journal_classes (worker_journal ''history unavailable'')
                 (ebind (on_run (next_id src)) (\<lambda>i.
                  ebind (on_run (\<lambda>r. (Inr (), r\<lparr>run_id := ''run-'' @ i\<rparr>))) (\<lambda>_ (s, r, w).
                  (reject_prior_attempt st r s, (s, r, w))))))
               (\<lambda>_. unless_of worker_journal_classes (worker_journal ''run start unavailable'') (start_run src st None))
               (s, initial_run (str_of process) (str_of task) e, ()) of
            (Inl x, (t, r, _)) \<Rightarrow> (Inl x, (t, run_env r))
          | (Inr _, (t, r, _)) \<Rightarrow> (Inr r, (t, run_env r))))"

section \<open>The end of an invocation and of a run\<close>

definition of_run :: "'e observed_run \<Rightarrow> pyval \<Rightarrow> bool" where
  "of_run r e \<longleftrightarrow> fld e ''run_id'' = PStr (run_id r)"

definition result_types :: "string list" where
  "result_types = [''decision_applied'', ''tool_completed'', ''tool_failed'', ''tool_denied'']"

definition is_result :: "pyval \<Rightarrow> bool" where
  "is_result e \<longleftrightarrow> is_str (fld e ''event_type'') \<and> str_of (fld e ''event_type'') \<in> set result_types"

definition is_unknown :: "pyval \<Rightarrow> bool" where
  "is_unknown e \<longleftrightarrow> fld e ''event_type'' = PStr ''outcome_unknown'' \<or> fld e ''status'' = PStr ''unknown''"

text \<open>An intent is answered by one result of its invocation, caused by it.\<close>

definition answered :: "'s observer_store \<Rightarrow> 's \<Rightarrow> pyval list \<Rightarrow> pyval \<Rightarrow> bool" where
  "answered st s results i =
     (case filter (\<lambda>t. fld t ''invocation_id'' = fld i ''invocation_id'') results of
        [t] \<Rightarrow> py_eq (fld t ''causal_event_ids'') (PList [fld i ''event_id'']) \<and> is_ok (ost_causality st t s)
      | _ \<Rightarrow> False)"

definition all_work_terminal :: "'s observer_store \<Rightarrow> 'e observed_run \<Rightarrow> 's \<Rightarrow> bool res" where
  "all_work_terminal st r s =
     rbind (ost_events st s) (\<lambda>es.
     let mine = filter (of_run r) es; intents = filter is_intent mine; results = filter is_result mine;
         invocations = map (\<lambda>e. fld e ''invocation_id'') intents
     in Inr (\<not> list_ex is_unknown mine \<and> list_all is_str invocations \<and> distinct invocations
          \<and> list_all (answered st s results) intents
          \<and> list_all (\<lambda>t. fld t ''invocation_id'' \<in> set invocations) results))"

definition or_false :: "bool res \<Rightarrow> bool" where
  "or_false x = (x = Inr True)"

text \<open>\<^verbatim>\<open>_all_agent_invocations_terminal\<close>: each invocation has one start and, after it, one end it caused.\<close>

definition finish_statuses :: "string list" where
  "finish_statuses = [''ok'', ''failed'', ''denied'']"

definition closed_lifecycle :: "pyval list \<Rightarrow> pyval \<Rightarrow> bool" where
  "closed_lifecycle life iid =
     (let mine = filter (\<lambda>e. fld e ''invocation_id'' = iid) life
      in case (filter (\<lambda>e. fld e ''event_type'' = PStr ''agent_started'') mine,
               filter (\<lambda>e. fld e ''event_type'' = PStr ''agent_finished'') mine) of
           ([b], [f]) \<Rightarrow> int_of (fld b ''sequence'') < int_of (fld f ''sequence'')
              \<and> (case fld f ''causal_event_ids'' of PList ids \<Rightarrow> list_ex (\<lambda>i. py_eq i (fld b ''event_id'')) ids | _ \<Rightarrow> False)
              \<and> is_str (fld f ''status'') \<and> str_of (fld f ''status'') \<in> set finish_statuses
         | _ \<Rightarrow> False)"

definition all_invocations_terminal :: "'s observer_store \<Rightarrow> 'e observed_run \<Rightarrow> 's \<Rightarrow> bool" where
  "all_invocations_terminal st r s =
     (case ost_events st s of
        Inl _ \<Rightarrow> False
      | Inr es \<Rightarrow>
          (let life = filter (\<lambda>e. of_run r e \<and> fld e ''event_type'' \<in> {PStr ''agent_started'', PStr ''agent_finished''}) es;
               observed = filter (\<lambda>e. is_str (fld e ''invocation_id'')) life
           in list_all (\<lambda>e. fld e ''event_type'' = PStr ''agent_finished'' \<longrightarrow> is_str (fld e ''invocation_id'')) life
              \<and> list_all (\<lambda>e. closed_lifecycle observed (fld e ''invocation_id'')) observed))"

text \<open>\<^verbatim>\<open>observer_reference\<close>.\<close>

definition observer_reference :: "'e observed_run \<Rightarrow> pyval res" where
  "observer_reference r = (case run_last_cursor r of
      None \<Rightarrow> Inl (worker_journal ''run reference unavailable'')
    | Some c \<Rightarrow> Inr (PDict [(''run_id'', PStr (run_id r)), (''as_of_cursor'', PInt c), (''completeness'', PStr ''partial'')]))"

definition with_run :: "('e observed_run \<Rightarrow> (('s, 'e, 'w) run_state, 'a) eff) \<Rightarrow> (('s, 'e, 'w) run_state, 'a) eff" where
  "with_run f = (\<lambda>(s, r, w). f r (s, r, w))"

definition finish_agent_invocation :: "'e run_sources \<Rightarrow> 's observer_store \<Rightarrow> pyval \<Rightarrow> (('s, 'e, 'w) run_state, pyval) eff" where
  "finish_agent_invocation src st status = (\<lambda>(s, r, w).
     case (run_invocation r, run_start_event r) of
       (Some iid, Some start) \<Rightarrow>
         eunless (run_agent_finished r \<or> run_finished r \<or> \<not> is_str status \<or> str_of status \<notin> set finish_statuses
             \<or> \<not> or_false (all_work_terminal st r s)) (worker_journal ''invocation cannot be finished'')
        (ebind (on_run (\<lambda>r. (Inr (), r\<lparr>run_agent_finished := True\<rparr>))) (\<lambda>_.
         ebind (on_run (next_id src)) (\<lambda>i.
         ebind (on_run (base_event src ''agent_finished'' (''event-'' @ i) service_worker)) (\<lambda>base.
         ebind (append_event st (worker_journal ''invocation outcome unavailable'') (''event-'' @ i)
           (base @ [(''invocation_id'', PStr iid), (''causal_event_ids'', PList [PStr start]), (''status'', status)])) (\<lambda>_.
         with_run (\<lambda>r. elift (observer_reference r))))))) (s, r, w)
     | _ \<Rightarrow> (Inl (worker_journal ''invocation cannot be finished''), (s, r, w)))"

definition finish_run :: "'e run_sources \<Rightarrow> 's observer_store \<Rightarrow> pyval \<Rightarrow> (('s, 'e, 'w) run_state, pyval) eff" where
  "finish_run src st status = (\<lambda>(s, r, w).
     case run_last_event r of
       Some latest \<Rightarrow>
         eunless (run_finished r \<or> \<not> run_agent_finished r \<or> \<not> is_str status \<or> str_of status \<notin> set finish_statuses
             \<or> \<not> or_false (all_work_terminal st r s) \<or> \<not> all_invocations_terminal st r s)
           (worker_journal ''run cannot be finished'')
        (ebind (on_run (\<lambda>r. (Inr (), r\<lparr>run_finished := True\<rparr>))) (\<lambda>_.
         ebind (on_run (next_id src)) (\<lambda>i.
         ebind (on_run (base_event src ''run_finished'' (''event-'' @ i) service_worker)) (\<lambda>base.
         ebind (append_event st (worker_journal ''run outcome unavailable'') (''event-'' @ i)
           (base @ [(''causal_event_ids'', PList [PStr latest]), (''status'', status)])) (\<lambda>_.
         with_run (\<lambda>r. elift (observer_reference r))))))) (s, r, w)
     | None \<Rightarrow> (Inl (worker_journal ''run cannot be finished''), (s, r, w)))"

text \<open>\<^verbatim>\<open>matches\<close>; whether the store is the run's own is an argument.\<close>

definition run_matches :: "bool \<Rightarrow> pyval \<Rightarrow> pyval \<Rightarrow> 'e observed_run \<Rightarrow> bool" where
  "run_matches same_store process task r \<longleftrightarrow> same_store \<and> PStr (run_process r) = process \<and> PStr (run_task r) = task"

definition dispatch_result_types :: "string list" where
  "dispatch_result_types = [''tool_completed'', ''tool_failed'', ''tool_denied'', ''outcome_unknown'']"

definition dispatch_completed_cleanly :: "'s observer_store \<Rightarrow> 'e observed_run \<Rightarrow> 's \<Rightarrow> bool" where
  "dispatch_completed_cleanly st r s =
     (case ost_events st s of
        Inl _ \<Rightarrow> False
      | Inr es \<Rightarrow>
          (let mine = filter (\<lambda>e. of_run r e \<and> fld e ''decision_or_tool'' = PStr ''Publication.dispatch'') es
           in case (filter (\<lambda>e. fld e ''event_type'' = PStr ''tool_requested'') mine,
                    filter (\<lambda>e. is_str (fld e ''event_type'') \<and> str_of (fld e ''event_type'') \<in> set dispatch_result_types) mine) of
                ([i], [t]) \<Rightarrow> fld t ''event_type'' = PStr ''tool_completed'' \<and> fld t ''status'' = PStr ''ok''
                   \<and> py_eq (fld t ''causal_event_ids'') (PList [fld i ''event_id''])
              | _ \<Rightarrow> False))"

end
