(* ===== verification/Observed_Calls.thy ===== *)
theory Observed_Calls
  imports Observed_Run
begin

text \<open>
  The journaled calls of \<^verbatim>\<open>src/app_contracts/observer_runtime.py\<close>. Each follows one scheme: it makes
  identifiers and a time, records a checkpoint and an intent through the gate, dispatches, and records the
  answer. \<open>observed_call\<close> is that scheme; the calls differ in labels, exceptions and in what the answer
  says. A dispatch acts on the whole state, so that it may make journaled calls itself. A collaborator
  that is not callable is \<open>None\<close>.
\<close>

section \<open>The scheme\<close>

record call_spec =
  call_kind :: string
  call_agent :: string
  call_state :: string
  call_event :: string
  call_label :: string
  call_expected :: string

definition opt_str :: "string option \<Rightarrow> pyval" where
  "opt_str x = (case x of None \<Rightarrow> PNone | Some s \<Rightarrow> PStr s)"

definition opt_int :: "int option \<Rightarrow> pyval" where
  "opt_int x = (case x of None \<Rightarrow> PNone | Some n \<Rightarrow> PInt n)"

definition checkpoint_record :: "call_spec \<Rightarrow> string \<Rightarrow> string \<Rightarrow> 'e observed_run \<Rightarrow> pyval" where
  "checkpoint_record spec cid created r = PDict
     [(''schema_version'', PInt 1), (''checkpoint_id'', PStr cid), (''kind'', PStr (call_kind spec)),
      (''process_id'', PStr (run_process r)), (''run_id'', PStr (run_id r)), (''branch_id'', PStr (run_branch r)),
      (''agent_id'', PStr (call_agent spec)), (''trigger_event_id'', opt_str (run_last_event r)),
      (''event_cursor'', opt_int (run_last_cursor r)),
      (''state_ref'', PStr (''artifact://observer-state/'' @ run_id r @ ''/'' @ call_state spec)),
      (''completeness'', PStr ''partial''), (''restore_mode'', PStr ''none''), (''created_at'', PStr created)]"

definition intent_fields :: "call_spec \<Rightarrow> string \<Rightarrow> string \<Rightarrow> 'e observed_run \<Rightarrow> fields" where
  "intent_fields spec cid iid r =
     [(''checkpoint_id'', PStr cid), (''invocation_id'', PStr iid),
      (''causal_event_ids'', PList [opt_str (run_last_event r)]), (''decision_or_tool'', PStr (call_label spec)),
      (''expected_result'', PStr (call_expected spec)), (''status'', PStr ''pending'')]"

definition fresh_ids :: "'e run_sources \<Rightarrow> ('e observed_run, string \<times> string \<times> string) eff" where
  "fresh_ids src =
     ebind (next_id src) (\<lambda>c. ebind (next_id src) (\<lambda>i. ebind (next_id src) (\<lambda>e.
     eret (''checkpoint-'' @ c, ''invocation-'' @ i, ''event-'' @ e))))"

text \<open>The checkpoint and the intent of a call, with the identifiers of its invocation and of the intent.\<close>

definition open_call :: "'e run_sources \<Rightarrow> call_spec \<Rightarrow> ('e observed_run, string \<times> string \<times> string) eff \<Rightarrow>
   ('e observed_run, pyval \<times> pyval \<times> string \<times> string) eff" where
  "open_call src spec ids =
     ebind ids (\<lambda>(cid, iid, eid).
     ebind (run_timestamp src) (\<lambda>tm.
     ebind (base_event src (call_event spec) eid (call_agent spec)) (\<lambda>base r.
     (Inr (checkpoint_record spec cid tm r, PDict (base @ intent_fields spec cid iid r), iid, eid), r))))"

text \<open>\<^verbatim>\<open>try: return dispatch() except Exception: return failure\<close>.\<close>

definition captured :: "('z, 'a) eff \<Rightarrow> ('z, 'a res) eff" where
  "captured m = (\<lambda>z. case m z of (x, y) \<Rightarrow> (Inr x, y))"

definition note_world :: "string \<Rightarrow> int \<Rightarrow> ('e observed_run \<times> 'w, unit) eff" where
  "note_world eid cursor = (\<lambda>(r, w). case note_event eid cursor r of (x, q) \<Rightarrow> (x, (q, w)))"

definition record_answer :: "'e run_sources \<Rightarrow> 's observer_store \<Rightarrow> exn \<Rightarrow> string \<Rightarrow> string \<times> fields \<Rightarrow>
   (('s, 'e, 'w) run_state, unit) eff" where
  "record_answer src st lost agent = (\<lambda>(event_type, fs).
     ebind (on_run (next_id src)) (\<lambda>i.
     ebind (on_run (base_event src event_type (''event-'' @ i) agent)) (\<lambda>base.
     append_event st lost (''event-'' @ i) (base @ fs))))"

text \<open>
  \<open>reserve\<close>: the intent is noted in the run before the dispatch, by the gate's callback, else after it.
  \<open>refuse\<close> handles an exception of the gate, \<open>settle\<close> records the answer.
\<close>

definition gated_call :: "'e run_sources \<Rightarrow> 's observer_store \<Rightarrow> call_spec \<Rightarrow>
   ('e observed_run, string \<times> string \<times> string) eff \<Rightarrow> bool \<Rightarrow> bool \<Rightarrow>
   (exn \<Rightarrow> (('s, 'e, 'w) run_state, int \<times> 'a res) eff) \<Rightarrow> (('s, 'e, 'w) run_state, 'a) eff \<Rightarrow>
   (string \<Rightarrow> string \<Rightarrow> 'a res \<Rightarrow> (('s, 'e, 'w) run_state, unit) eff) \<Rightarrow> (('s, 'e, 'w) run_state, 'a res) eff" where
  "gated_call src st spec ids reserve once refuse dispatch settle =
     ebind (on_run (open_call src spec ids)) (\<lambda>(cp, ev, iid, eid).
     ebind (ecatch (run_gated_dispatch (ost_gate st) cp ev (Some (captured dispatch)) once
         (Some (if reserve then Some (note_world eid) else None))) refuse) (\<lambda>(cursor, x).
     ebind (if reserve then eret () else on_run (note_event eid cursor)) (\<lambda>_.
     ebind (settle iid eid x) (\<lambda>_. eret x))))"

record call_errors =
  err_classes :: "exc_class set"
  err_unavailable :: exn
  err_refused :: exn
  err_lost :: exn

text \<open>The handler of most calls: the gate's own refusal gets the call's exception.\<close>

definition refuse_call :: "call_errors \<Rightarrow> exn \<Rightarrow> ('z, 'a) eff" where
  "refuse_call errs e = elift (Inl (if exn_class e = PreDispatchError then err_refused errs else e))"

definition observed_call :: "'e run_sources \<Rightarrow> 's observer_store \<Rightarrow> call_spec \<Rightarrow> call_errors \<Rightarrow>
   ('e observed_run, string \<times> string \<times> string) eff \<Rightarrow> bool \<Rightarrow> bool \<Rightarrow> (('s, 'e, 'w) run_state, 'a) eff \<Rightarrow>
   (string \<Rightarrow> string \<Rightarrow> 'a res \<Rightarrow> string \<times> fields) \<Rightarrow> (('s, 'e, 'w) run_state, 'a res) eff" where
  "observed_call src st spec errs ids reserve once dispatch answer =
     unless_of (err_classes errs) (err_unavailable errs)
       (gated_call src st spec ids reserve once (refuse_call errs) dispatch
          (\<lambda>iid eid x. record_answer src st (err_lost errs) (call_agent spec) (answer iid eid x)))"

definition or_failed :: "exn \<Rightarrow> 'a res \<Rightarrow> ('z, 'a) eff" where
  "or_failed e x = elift (case x of Inl _ \<Rightarrow> Inl e | Inr v \<Rightarrow> Inr v)"

text \<open>The answer of a tool call: completed or failed with a code.\<close>

definition tool_answer :: "string \<Rightarrow> string \<Rightarrow> string \<Rightarrow> 'a res \<Rightarrow> string \<times> fields" where
  "tool_answer code iid eid x =
     (if is_ok x then ''tool_completed'' else ''tool_failed'',
      [(''invocation_id'', PStr iid), (''causal_event_ids'', PList [PStr eid]),
       (''status'', PStr (if is_ok x then ''ok'' else ''failed''))]
      @ (if is_ok x then [] else [(''error_code'', PStr code)]))"

definition set_run :: "('e observed_run \<Rightarrow> 'e observed_run) \<Rightarrow> (('s, 'e, 'w) run_state, unit) eff" where
  "set_run f = on_run (\<lambda>r. (Inr (), f r))"

definition not_started :: "'e observed_run \<Rightarrow> bool" where
  "not_started r \<longleftrightarrow> run_last_event r = None \<or> run_last_cursor r = None"

section \<open>The worker's proposal\<close>

definition worker_errors :: call_errors where
  "worker_errors = \<lparr>err_classes = worker_journal_classes \<union> {WorkerOutcomeUnknownError, WorkerProposalFailedError},
     err_unavailable = worker_journal ''gate unavailable'', err_refused = worker_journal ''pre-dispatch gate refused'',
     err_lost = Exn WorkerOutcomeUnknownError ''worker journal: proposal outcome is unknown''\<rparr>"

definition worker_call :: call_spec where
  "worker_call = \<lparr>call_kind = ''tool_call'', call_agent = service_worker, call_state = ''worker-call'',
     call_event = ''tool_requested'', call_label = ''ProposalWorker.propose'',
     call_expected = ''bounded proposal metadata''\<rparr>"

text \<open>\<open>outcome\<close> is the outcome of an answer that is a \<^verbatim>\<open>WorkerTerminalOutcome\<close>.\<close>

definition worker_answer :: "('a \<Rightarrow> string option) \<Rightarrow> string \<Rightarrow> string \<Rightarrow> 'a res \<Rightarrow> string \<times> fields" where
  "worker_answer outcome iid eid x =
     (let (t, fs) = tool_answer ''worker-call-failed'' iid eid x
      in (t, fs @ (case x of Inl _ \<Rightarrow> [] | Inr v \<Rightarrow> (case outcome v of
            None \<Rightarrow> [] | Some out \<Rightarrow> [(''safe_parameters'', PDict [(''worker_outcome'', PStr out)])]))))"

definition journaled_propose :: "'e run_sources \<Rightarrow> 's observer_store \<Rightarrow> ('a \<Rightarrow> string option) \<Rightarrow> pyval \<Rightarrow> pyval \<Rightarrow>
   (('s, 'e, 'w) run_state, 'a) eff \<Rightarrow> (('s, 'e, 'w) run_state, 'a) eff" where
  "journaled_propose src st outcome process task worker = with_run (\<lambda>r.
     eunless (run_used r) (worker_journal ''proposal attempt already used'')
    (ebind (set_run (run_used_update (\<lambda>_. True))) (\<lambda>_.
     eunless (process \<noteq> PStr (run_process r) \<or> task \<noteq> PStr (run_task r)) (worker_journal ''request binding mismatch'')
    (ebind (observed_call src st worker_call worker_errors (fresh_ids src) True False worker (worker_answer outcome))
       (or_failed (Exn WorkerProposalFailedError ''worker journal: proposal call failed''))))))"

section \<open>The verifier\<close>

definition verifier_journal :: "string \<Rightarrow> exn" where
  "verifier_journal m = Exn VerifierJournalError (''verifier journal: '' @ m)"

definition verifier_errors :: call_errors where
  "verifier_errors = \<lparr>err_classes = {VerifierOutcomeUnknownError, VerifierCallFailedError, VerifierJournalError},
     err_unavailable = verifier_journal ''gate unavailable'', err_refused = verifier_journal ''pre-dispatch gate refused'',
     err_lost = Exn VerifierOutcomeUnknownError ''verifier journal: outcome is unknown''\<rparr>"

definition verifier_call :: call_spec where
  "verifier_call = \<lparr>call_kind = ''tool_call'', call_agent = ''service-independent-verifier'',
     call_state = ''verifier-call'', call_event = ''tool_requested'', call_label = ''IndependentVerifier.verify'',
     call_expected = ''bounded verifier verdict metadata''\<rparr>"

definition invoke_verifier :: "'e run_sources \<Rightarrow> 's observer_store \<Rightarrow> (('s, 'e, 'w) run_state, 'a) eff option \<Rightarrow>
   (('s, 'e, 'w) run_state, 'a) eff" where
  "invoke_verifier src st verify = with_run (\<lambda>r.
     eunless (run_verifier_used r) (verifier_journal ''attempt already used'')
    (ebind (set_run (run_verifier_used_update (\<lambda>_. True))) (\<lambda>_.
     eunless (verify = None \<or> not_started r) (verifier_journal ''configuration unavailable'')
    (ebind (observed_call src st verifier_call verifier_errors (fresh_ids src) False False (the verify)
        (tool_answer ''verifier-call-failed''))
       (or_failed (Exn VerifierCallFailedError ''verifier journal: call failed''))))))"

section \<open>Stage operations\<close>

definition stage_journal :: "string \<Rightarrow> exn" where
  "stage_journal m = Exn StageJournalError (''stage journal: '' @ m)"

definition stage_errors :: call_errors where
  "stage_errors = \<lparr>err_classes = {StageOutcomeUnknownError, StageCallFailedError, StageJournalError},
     err_unavailable = stage_journal ''gate unavailable'', err_refused = stage_journal ''pre-dispatch gate refused'',
     err_lost = Exn StageOutcomeUnknownError ''stage journal: operation outcome is unknown''\<rparr>"

definition stage_call :: "string \<Rightarrow> call_spec" where
  "stage_call operation = \<lparr>call_kind = ''tool_call'', call_agent = ''service-stage-store'',
     call_state = ''stage-'' @ operation, call_event = ''tool_requested'',
     call_label = ''StagedArtifactStore.'' @ operation, call_expected = ''bounded stage operation metadata''\<rparr>"

text \<open>The operation is \<^verbatim>\<open>save\<close> or \<^verbatim>\<open>load\<close>, as the sink wrapper passes it.\<close>

definition invoke_stage :: "'e run_sources \<Rightarrow> 's observer_store \<Rightarrow> string \<Rightarrow> (('s, 'e, 'w) run_state, 'a) eff \<Rightarrow>
   (('s, 'e, 'w) run_state, 'a) eff" where
  "invoke_stage src st operation sink = with_run (\<lambda>r.
     eunless (not_started r) (stage_journal ''execution run is unavailable'')
    (ebind (observed_call src st (stage_call operation) stage_errors (fresh_ids src) False False sink
        (tool_answer ''stage-call-failed''))
       (or_failed (Exn StageCallFailedError ''stage journal: operation failed''))))"

section \<open>Snapshot sources\<close>

definition snapshot_journal :: "string \<Rightarrow> exn" where
  "snapshot_journal m = Exn SnapshotJournalError (''snapshot journal: '' @ m)"

definition snapshot_tools :: "string list" where
  "snapshot_tools = [''GitHubSnapshot.GET.commit'', ''GitHubSnapshot.GET.tree'', ''GitHubSnapshot.GET.blob'',
     ''GitHubRawCommitObjectSource.read'', ''GitHubCodeloadArchive.GET.archive'']"

definition snapshot_errors :: call_errors where
  "snapshot_errors = \<lparr>err_classes = {SnapshotOutcomeUnknownError, SnapshotCallFailedError, SnapshotJournalError},
     err_unavailable = snapshot_journal ''gate unavailable'', err_refused = snapshot_journal ''pre-dispatch gate refused'',
     err_lost = Exn SnapshotOutcomeUnknownError ''snapshot journal: source outcome is unknown''\<rparr>"

definition snapshot_call :: "string \<Rightarrow> call_spec" where
  "snapshot_call tool = \<lparr>call_kind = ''tool_call'', call_agent = ''service-snapshot-intake'',
     call_state = ''snapshot-intake'', call_event = ''tool_requested'', call_label = tool,
     call_expected = ''bounded pinned snapshot source result''\<rparr>"

definition invoke_source :: "'e run_sources \<Rightarrow> 's observer_store \<Rightarrow> string \<Rightarrow> (('s, 'e, 'w) run_state, 'a) eff option \<Rightarrow>
   (('s, 'e, 'w) run_state, 'a) eff" where
  "invoke_source src st tool dispatch = with_run (\<lambda>r.
     eunless (tool \<notin> set snapshot_tools \<or> dispatch = None) (snapshot_journal ''configuration unavailable'')
    (eunless (not_started r) (snapshot_journal ''execution run is unavailable'')
    (ebind (observed_call src st (snapshot_call tool) snapshot_errors (fresh_ids src) False False (the dispatch)
        (tool_answer ''snapshot-source-call-failed''))
       (or_failed (Exn SnapshotCallFailedError ''snapshot journal: source call failed'')))))"

section \<open>Decisions: the pinned snapshot and the execution permit\<close>

text \<open>The answer of a decision: applied, and denied with a code where the dispatch says so.\<close>

definition decision_answer :: "string \<Rightarrow> string \<Rightarrow> string \<Rightarrow> string \<Rightarrow> bool \<Rightarrow> string \<times> fields" where
  "decision_answer label code iid eid accepted =
     (''decision_applied'',
      [(''invocation_id'', PStr iid), (''causal_event_ids'', PList [PStr eid]), (''decision_or_tool'', PStr label),
       (''status'', PStr (if accepted then ''ok'' else ''denied''))]
      @ (if accepted then [] else [(''error_code'', PStr code)]))"

definition pin_journal :: "string \<Rightarrow> exn" where
  "pin_journal m = Exn SnapshotPinDecisionError (''snapshot pin journal: '' @ m)"

definition pin_errors :: call_errors where
  "pin_errors = \<lparr>err_classes = {SnapshotPinDecisionError, SnapshotPinDecisionOutcomeUnknownError},
     err_unavailable = pin_journal ''decision gate unavailable'', err_refused = pin_journal ''pre-dispatch gate refused'',
     err_lost = Exn SnapshotPinDecisionOutcomeUnknownError ''snapshot pin journal: decision outcome is unknown''\<rparr>"

definition pin_call :: call_spec where
  "pin_call = \<lparr>call_kind = ''decision'', call_agent = ''service-snapshot-validator'', call_state = ''snapshot-pin'',
     call_event = ''decision_proposed'', call_label = ''PinnedSnapshot.validate-fixed-pin'',
     call_expected = ''bounded pinned snapshot comparison result''\<rparr>"

definition record_pin_decision :: "'e run_sources \<Rightarrow> 's observer_store \<Rightarrow> pyval \<Rightarrow> (('s, 'e, 'w) run_state, bool) eff" where
  "record_pin_decision src st accepted = with_run (\<lambda>r.
     eunless (\<not> is_bool accepted \<or> run_pin_used r) (pin_journal ''decision is unavailable'')
    (ebind (set_run (run_pin_used_update (\<lambda>_. True))) (\<lambda>_.
     eunless (not_started r) (pin_journal ''execution run is unavailable'')
    (ebind (observed_call src st pin_call pin_errors (fresh_ids src) False False (eret (accepted = PBool True))
        (\<lambda>iid eid x. decision_answer (call_label pin_call) ''pinned-snapshot-rejected'' iid eid (x = Inr True))) elift))))"

definition authorization_journal :: "string \<Rightarrow> exn" where
  "authorization_journal m = Exn ExecutionAuthorizationJournalError (''execution authorization journal: '' @ m)"

definition authorization_call :: call_spec where
  "authorization_call = \<lparr>call_kind = ''decision'', call_agent = ''service-execution-authorizer'',
     call_state = ''execution-authorization'', call_event = ''decision_proposed'',
     call_label = ''RemoteExecutionPermit.consume'', call_expected = ''bounded execution authorization outcome''\<rparr>"

text \<open>Here any exception of the gate is a refusal, and the answer is whether the permit was consumed.\<close>

definition record_authorization :: "'e run_sources \<Rightarrow> 's observer_store \<Rightarrow> (('s, 'e, 'w) run_state, unit) eff option \<Rightarrow>
   (('s, 'e, 'w) run_state, bool) eff" where
  "record_authorization src st consume = with_run (\<lambda>r.
     eunless (consume = None \<or> run_authorization_used r) (authorization_journal ''decision is unavailable'')
    (ebind (set_run (run_authorization_used_update (\<lambda>_. True))) (\<lambda>_.
     eunless (not_started r) (authorization_journal ''execution run is unavailable'')
    (ebind (unless_of {ExecutionAuthorizationJournalError, ExecutionAuthorizationOutcomeUnknownError}
        (authorization_journal ''decision gate unavailable'')
        (gated_call src st authorization_call (fresh_ids src) False False
           (\<lambda>_. elift (Inl (authorization_journal ''pre-dispatch gate refused''))) (the consume)
           (\<lambda>iid eid x. record_answer src st
              (Exn ExecutionAuthorizationOutcomeUnknownError ''execution authorization journal: outcome is unknown'')
              (call_agent authorization_call)
              (decision_answer (call_label authorization_call) ''execution-authorization-unavailable'' iid eid (is_ok x)))))
       (\<lambda>x. eret (is_ok x))))))"

end
