(* ===== verification/Observed_Steps.thy ===== *)
theory Observed_Steps
  imports Observed_Calls Canonical_Json
begin

text \<open>
  The remaining calls of \<^verbatim>\<open>src/app_contracts/observer_runtime.py\<close>: commands and leases of a sandbox, the
  controlled steps and the composed mock publication, and the wrappers that hand them out. A wrapper's
  own state (what it has used) stands before the state of the run.
\<close>

section \<open>Sandbox sessions\<close>

record cmd_result =
  cr_argv :: pyval
  cr_returncode :: pyval
  cr_stdout :: pyval
  cr_stderr :: pyval

text \<open>A session: its two directories where they are paths, and its methods where they are callable.\<close>

record 'z sandbox_session =
  sb_snapshot :: "string option"
  sb_workspace :: "string option"
  sb_run :: "(pyval \<Rightarrow> pyval \<Rightarrow> ('z, cmd_result) eff) option"
  sb_close :: "('z, unit) eff option"

text \<open>\<^verbatim>\<open>brainbooster_target_profile.py\<close>: the failure codes of the fixed probe.\<close>

definition probe_categories :: "string list" where
  "probe_categories = [c @ ''-'' @ phase @ ''-'' @ f @ ''-'' @ case'.
     (c, case') \<leftarrow> [(''malformed'', ''bool''), (''malformed'', ''fractional''), (''malformed'', ''numeric-string''),
        (''sqlite-range'', ''above''), (''sqlite-range'', ''below'')],
     f \<leftarrow> [''level'', ''correct'', ''wrong'', ''total'', ''time_ms''],
     phase \<leftarrow> [''status'', ''no-write'']]"

definition probe_failure_codes :: "string list" where
  "probe_failure_codes = probe_categories @
     [''readiness-exit'', ''readiness-timeout'', ''overflow-status'', ''overflow-no-write'', ''valid-status'',
      ''valid-body'', ''valid-row'']"

abbreviation newline :: char where
  "newline \<equiv> CHR 0x0A"

text \<open>
  \<^verbatim>\<open>_safe_target_test_failure_code\<close>. The command of the probe, one long fixed tuple of texts, is the
  argument \<open>probe\<close>.
\<close>

definition target_failure_code :: "pyval list \<Rightarrow> cmd_result \<Rightarrow> string \<Rightarrow> pyval \<Rightarrow> string option" where
  "target_failure_code probe result purpose argv =
     (let prefix = ''agent00x:test-failure:''; out = str_of (cr_stdout result);
          code = butlast (drop (length prefix) out)
      in if purpose = ''target-tests'' \<and> (argv = PTuple probe \<or> argv = PList probe)
            \<and> cr_argv result = PTuple probe \<and> cr_returncode result = PInt 1 \<and> is_str (cr_stdout result)
            \<and> endswith out [newline] \<and> count_list out newline = 1 \<and> startswith out prefix
            \<and> code \<in> set probe_failure_codes
         then Some code else None)"

definition sandbox_journal :: "string \<Rightarrow> exn" where
  "sandbox_journal m = Exn SandboxJournalError (''sandbox journal: '' @ m)"

definition sandbox_errors :: call_errors where
  "sandbox_errors = \<lparr>err_classes = {SandboxOutcomeUnknownError, SandboxCallFailedError, SandboxJournalError},
     err_unavailable = sandbox_journal ''gate unavailable'', err_refused = sandbox_journal ''pre-dispatch gate refused'',
     err_lost = Exn SandboxOutcomeUnknownError ''sandbox journal: command outcome is unknown''\<rparr>"

definition sandbox_call :: "string \<Rightarrow> call_spec" where
  "sandbox_call purpose = \<lparr>call_kind = ''tool_call'', call_agent = ''service-sandbox'', call_state = purpose,
     call_event = ''tool_requested'', call_label = ''SandboxSession.run.'' @ purpose,
     call_expected = ''bounded sandbox command metadata''\<rparr>"

definition command_parameters :: "pyval list \<Rightarrow> string \<Rightarrow> pyval \<Rightarrow> cmd_result \<Rightarrow> fields" where
  "command_parameters probe purpose argv result =
     (case cr_returncode result of
        PInt n \<Rightarrow> (if - 255 \<le> n \<and> n \<le> 255 then [(''sandbox_return_code'', PInt n)] else [])
      | _ \<Rightarrow> [])
     @ (case target_failure_code probe result purpose argv of
          None \<Rightarrow> [] | Some code \<Rightarrow> [(''sandbox_failure_code'', PStr code)])"

definition command_answer :: "pyval list \<Rightarrow> string \<Rightarrow> pyval \<Rightarrow> string \<Rightarrow> string \<Rightarrow> cmd_result res \<Rightarrow> string \<times> fields" where
  "command_answer probe purpose argv iid eid x =
     (case x of
        Inl _ \<Rightarrow> tool_answer ''sandbox-call-failed'' iid eid x
      | Inr result \<Rightarrow>
          (let ran = (if cr_returncode result = PInt 0 then Inr result else Inl (Exn ForeignError ''nonzero''));
               (t, fs) = tool_answer ''sandbox-command-nonzero'' iid eid ran;
               ps = command_parameters probe purpose argv result
           in (t, fs @ (if ps = [] then [] else [(''safe_parameters'', PDict ps)]))))"

text \<open>The purpose is \<^verbatim>\<open>target-tests\<close> or \<^verbatim>\<open>verifier-replay\<close>, as the session wrapper passes it.\<close>

definition invoke_sandbox_run :: "'e run_sources \<Rightarrow> 's observer_store \<Rightarrow> pyval list \<Rightarrow> string \<Rightarrow> pyval \<Rightarrow>
   (('s, 'e, 'w) run_state, cmd_result) eff \<Rightarrow> (('s, 'e, 'w) run_state, cmd_result) eff" where
  "invoke_sandbox_run src st probe purpose argv dispatch = with_run (\<lambda>r.
     eunless (not_started r) (sandbox_journal ''execution run is unavailable'')
    (ebind (observed_call src st (sandbox_call purpose) sandbox_errors (fresh_ids src) False False dispatch
        (command_answer probe purpose argv))
       (or_failed (Exn SandboxCallFailedError ''sandbox journal: command failed''))))"

section \<open>The lease of a sandbox\<close>

definition lease_call :: "string \<Rightarrow> string \<Rightarrow> call_spec" where
  "lease_call operation purpose = \<lparr>call_kind = ''tool_call'', call_agent = ''service-sandbox-lifecycle'',
     call_state = purpose @ ''-'' @ operation, call_event = ''tool_requested'',
     call_label = (if operation = ''create'' then ''SandboxBackend.create.'' else ''SandboxSession.close.'')
       @ (if purpose = ''target-tests'' then ''target-execution'' else purpose),
     call_expected = ''bounded sandbox lifecycle outcome''\<rparr>"

definition lease_lost :: exn where
  "lease_lost = Exn SandboxOutcomeUnknownError ''sandbox journal: lifecycle outcome is unknown''"

definition lease_failed :: exn where
  "lease_failed = Exn SandboxCallFailedError ''sandbox journal: lifecycle call failed''"

definition on_lease_error :: "('z, 'a) eff \<Rightarrow> ('z, 'a) eff" where
  "on_lease_error = unless_of (err_classes sandbox_errors) (sandbox_journal ''lifecycle gate unavailable'')"

text \<open>A session whose creation could not be journaled is closed again.\<close>

definition close_quietly :: "'z sandbox_session \<Rightarrow> ('z, unit) eff" where
  "close_quietly session = (case sb_close session of
      None \<Rightarrow> eret () | Some close \<Rightarrow> ecatch close (\<lambda>_. eret ()))"

definition record_creation :: "'e run_sources \<Rightarrow> 's observer_store \<Rightarrow> string \<Rightarrow> string \<Rightarrow>
   ('s, 'e, 'w) run_state sandbox_session res \<Rightarrow> (('s, 'e, 'w) run_state, unit) eff" where
  "record_creation src st iid eid x =
     ecatch (record_answer src st lease_lost ''service-sandbox-lifecycle'' (tool_answer ''sandbox-create-failed'' iid eid x))
       (\<lambda>e. case x of
          Inr session \<Rightarrow> if exn_class e = SandboxOutcomeUnknownError
            then ebind (close_quietly session) (\<lambda>_. elift (Inl e)) else elift (Inl e)
        | Inl _ \<Rightarrow> elift (Inl e))"

definition invoke_create :: "'e run_sources \<Rightarrow> 's observer_store \<Rightarrow> string \<Rightarrow>
   (('s, 'e, 'w) run_state, ('s, 'e, 'w) run_state sandbox_session) eff \<Rightarrow>
   (('s, 'e, 'w) run_state, ('s, 'e, 'w) run_state sandbox_session) eff" where
  "invoke_create src st purpose create = with_run (\<lambda>r.
     eunless (not_started r) (sandbox_journal ''execution run is unavailable'')
    (ebind (on_lease_error (gated_call src st (lease_call ''create'' purpose) (fresh_ids src) False False
        (\<lambda>_. elift (Inl (sandbox_journal ''lifecycle gate refused''))) create (record_creation src st)))
       (or_failed lease_failed)))"

text \<open>Closing happens even when the gate refuses; then its outcome is unrecorded.\<close>

definition unrecorded_close :: "('z, unit) eff \<Rightarrow> ('z, 'a) eff" where
  "unrecorded_close close =
     ebind (ecatch close (\<lambda>_. elift (raise SandboxCallFailedError ''sandbox journal: cleanup failed''))) (\<lambda>_.
     elift (raise SandboxOutcomeUnknownError ''sandbox journal: cleanup outcome is unrecorded''))"

definition invoke_close :: "'e run_sources \<Rightarrow> 's observer_store \<Rightarrow> string \<Rightarrow> (('s, 'e, 'w) run_state, unit) eff option \<Rightarrow>
   (('s, 'e, 'w) run_state, unit) eff" where
  "invoke_close src st purpose close = with_run (\<lambda>r.
     eunless (close = None) (sandbox_journal ''lifecycle call is unavailable'')
    (eunless (not_started r) (sandbox_journal ''execution run is unavailable'')
    (ebind (on_lease_error (gated_call src st (lease_call ''close'' purpose) (fresh_ids src) False False
        (\<lambda>_. unrecorded_close (the close)) (the close)
        (\<lambda>iid eid x. record_answer src st lease_lost ''service-sandbox-lifecycle''
           (tool_answer ''sandbox-close-failed'' iid eid x))))
       (or_failed lease_failed))))"

section \<open>Controlled steps\<close>

definition step_journal :: "string \<Rightarrow> exn" where
  "step_journal m = Exn ControlledPublicationJournalError (''controlled publication journal: '' @ m)"

definition step_errors :: call_errors where
  "step_errors = \<lparr>err_classes = {ControlledPublicationJournalError, ControlledPublicationOutcomeUnknownError,
       ControlledPublicationCallFailedError},
     err_unavailable = step_journal ''gate unavailable'', err_refused = step_journal ''pre-dispatch gate refused'',
     err_lost = Exn ControlledPublicationOutcomeUnknownError ''controlled publication journal: outcome is unknown''\<rparr>"

text \<open>The steps: label, what is expected and the code of a denial.\<close>

definition controlled_steps :: "(string \<times> string \<times> string) list" where
  "controlled_steps =
     [(''GitHubReadiness.fetch'', ''bounded readiness response metadata'', ''readiness-fetch-failed''),
      (''RemoteExecutionPermit.issue'', ''bounded readiness eligibility result'', ''readiness-ineligible''),
      (''ModelChannel.create_chat_completion'', ''bounded model-call outcome metadata'', ''model-request-failed''),
      (''WorkerProposal.validate'', ''bounded proposal acceptance decision'', ''publication-gate-denied''),
      (''SandboxSnapshot.validate-binding'', ''bounded sandbox snapshot binding decision'', ''publication-gate-denied''),
      (''PreparedChange.apply-proposal'', ''bounded proposal workspace-application decision'', ''publication-gate-denied''),
      (''PreparedChange.validate-binding'', ''bounded prepared-change binding decision'', ''publication-gate-denied''),
      (''Approval.validate'', ''bounded publication-gate outcome'', ''publication-gate-denied''),
      (''SignedApproval.verify'', ''bounded publication-gate outcome'', ''publication-gate-denied''),
      (''PolicyEngine.evaluate'', ''bounded publication-gate outcome'', ''publication-gate-denied''),
      (''Gateway.authorize'', ''bounded publication-gate outcome'', ''publication-gate-denied''),
      (''CredentialBroker.open-channel'', ''bounded publication-gate outcome'', ''publication-gate-denied''),
      (''Publication.dispatch'', ''bounded publication-gate outcome'', ''publication-dispatch-failed'')]"

definition tool_steps :: "string list" where
  "tool_steps = [''GitHubReadiness.fetch'', ''ModelChannel.create_chat_completion'', ''Publication.dispatch'']"

text \<open>\<^verbatim>\<open>str.lower\<close> and \<^verbatim>\<open>replace(".", "-")\<close> on ASCII text.\<close>

definition lower_char :: "char \<Rightarrow> char" where
  "lower_char c = (if 65 \<le> byte c \<and> byte c \<le> 90 then char_of (byte c + 32) else c)"

definition step_slug :: "string \<Rightarrow> string" where
  "step_slug step = replace_char (CHR ''.'') ''-'' (map lower_char step)"

definition step_call :: "string \<Rightarrow> call_spec" where
  "step_call step = \<lparr>call_kind = (if step \<in> set tool_steps then ''tool_call'' else ''decision''),
     call_agent = (if step = ''ModelChannel.create_chat_completion'' then ''service-model-channel''
       else ''service-publication-observer''),
     call_state = ''publication-'' @ step_slug step,
     call_event = (if step \<in> set tool_steps then ''tool_requested'' else ''decision_proposed''),
     call_label = step,
     call_expected = (case map_of controlled_steps step of None \<Rightarrow> [] | Some (x, _) \<Rightarrow> x)\<rparr>"

text \<open>A publication that failed has an unknown outcome; another step is denied.\<close>

definition step_answer :: "string \<Rightarrow> string \<Rightarrow> string \<Rightarrow> 'a res \<Rightarrow> string \<times> fields" where
  "step_answer step iid eid x =
     (let failed = \<not> is_ok x; unknown = failed \<and> step = ''Publication.dispatch'';
          code = (case map_of controlled_steps step of None \<Rightarrow> [] | Some (_, c) \<Rightarrow> c);
          (t, status) =
            (if step \<in> set tool_steps
             then (if unknown then (''outcome_unknown'', ''unknown'')
                   else if failed then (''tool_failed'', ''failed'') else (''tool_completed'', ''ok''))
             else (''decision_applied'', if failed then ''denied'' else ''ok''))
      in (t, [(''invocation_id'', PStr iid), (''causal_event_ids'', PList [PStr eid]), (''decision_or_tool'', PStr step),
              (''status'', PStr status)] @ (if failed \<and> \<not> unknown then [(''error_code'', PStr code)] else [])))"

definition run_controlled_step :: "'e run_sources \<Rightarrow> 's observer_store \<Rightarrow> string \<Rightarrow> pyval \<Rightarrow>
   (('s, 'e, 'w) run_state, 'a) eff option \<Rightarrow> (('s, 'e, 'w) run_state, 'a) eff" where
  "run_controlled_step src st step process dispatch = with_run (\<lambda>r.
     eunless (step \<notin> set (map fst controlled_steps) \<or> dispatch = None \<or> process \<noteq> PStr (run_process r)
         \<or> step \<in> set (run_steps_used r)) (step_journal ''configuration unavailable'')
    (ebind (set_run (run_steps_used_update (\<lambda>steps. step # steps))) (\<lambda>_.
     eunless (not_started r) (step_journal ''execution run is unavailable'')
    (ebind (observed_call src st (step_call step) step_errors (fresh_ids src) False False (the dispatch)
        (step_answer step))
       elift))))"

section \<open>The composed mock publication\<close>

text \<open>Its identifiers derive from the run, so that a second intent for one run conflicts.\<close>

definition claim_suffix :: "string \<Rightarrow> string" where
  "claim_suffix rid = take 32 (drop 7 (sha256_bytes rid))"

definition claim_ids :: "('e observed_run, string \<times> string \<times> string) eff" where
  "claim_ids = (\<lambda>r. eunless (\<not> ascii (run_id r)) (Exn UnicodeEncodeError ''run id is not ascii'')
     (let c = claim_suffix (run_id r) @ ''-publication''
      in eret (''checkpoint-'' @ c, ''invocation-'' @ c, ''event-'' @ c)) r)"

definition mock_call :: call_spec where
  "mock_call = \<lparr>call_kind = ''tool_call'', call_agent = ''service-publication-observer'',
     call_state = ''controlled-publication'', call_event = ''tool_requested'',
     call_label = ''ControlledPublication.local-mock'', call_expected = ''bounded local mock publication outcome''\<rparr>"

definition is_outcome_unknown :: "'a res \<Rightarrow> bool" where
  "is_outcome_unknown x = (case x of
      Inl e \<Rightarrow> exn_class e = ControlledPublicationOutcomeUnknownError | Inr _ \<Rightarrow> False)"

definition mock_answer :: "string \<Rightarrow> string \<Rightarrow> 'a res \<Rightarrow> string \<times> fields" where
  "mock_answer iid eid x =
     (let unknown = is_outcome_unknown x; failed = \<not> is_ok x
      in (if unknown then ''outcome_unknown'' else if failed then ''tool_failed'' else ''tool_completed'',
          [(''invocation_id'', PStr iid), (''causal_event_ids'', PList [PStr eid]),
           (''decision_or_tool'', PStr (call_label mock_call)),
           (''status'', PStr (if unknown then ''unknown'' else if failed then ''failed'' else ''ok''))]
          @ (if failed \<and> \<not> unknown then [(''error_code'', PStr ''local-mock-publication-failed'')] else [])))"

definition run_local_mock_publication :: "'e run_sources \<Rightarrow> 's observer_store \<Rightarrow> pyval \<Rightarrow>
   (('s, 'e, 'w) run_state, 'a) eff option \<Rightarrow> (('s, 'e, 'w) run_state, 'a) eff" where
  "run_local_mock_publication src st process dispatch = with_run (\<lambda>r.
     eunless (dispatch = None \<or> process \<noteq> PStr (run_process r) \<or> run_publication_used r)
       (step_journal ''configuration unavailable'')
    (ebind (set_run (run_publication_used_update (\<lambda>_. True))) (\<lambda>_.
     eunless (not_started r) (step_journal ''execution run is unavailable'')
    (ebind (observed_call src st mock_call step_errors claim_ids True True (the dispatch) mock_answer)
       (\<lambda>x. if is_outcome_unknown x then elift (Inl (err_lost step_errors))
            else or_failed (Exn ControlledPublicationCallFailedError ''controlled publication journal: call failed'') x)))))"

end
