(* ===== verification/Observation_Facts.thy ===== *)
theory Observation_Facts
  imports Observation_Store
begin

text \<open>
  The SQLite journal stores what the journal in memory holds: \<open>db_of s\<close> is the file that represents the
  store \<open>s\<close>, and every operation on it is the operation on \<open>s\<close>. The journals the operations can reach
  satisfy \<open>obs_ok\<close>, and a file that represents such a journal opens again.
\<close>

section \<open>Representation\<close>

definition rows_of :: "(pyval \<Rightarrow> string) \<Rightarrow> pyval list \<Rightarrow> obs_row list" where
  "rows_of key es = map (\<lambda>(n, e). \<lparr>or_id = key e, or_cursor = int n, or_json = Some (normal e), or_digest = digest_of e\<rparr>)
     (enumerate 0 es)"

definition db_of :: "obs_store \<Rightarrow> obs_db" where
  "db_of s = \<lparr>od_version = 1, od_tables = expected_tables, od_events = rows_of event_id (os_events s),
     od_checkpoints = rows_of checkpoint_id (os_checkpoints s)\<rparr>"

definition event_ok :: "(pyval \<Rightarrow> string \<Rightarrow> bool res) \<Rightarrow> pyval \<Rightarrow> bool" where
  "event_ok re e \<longleftrightarrow> json_value e \<and> validate re e event_schema = Inr () \<and> sha256_digest e = Inr (digest_of e)"

definition checkpoint_ok :: "(pyval \<Rightarrow> string \<Rightarrow> bool res) \<Rightarrow> pyval list \<Rightarrow> pyval \<Rightarrow> bool" where
  "checkpoint_ok re es c \<longleftrightarrow> json_value c \<and> is_ok (check_checkpoint re (Inr es) c) \<and> sha256_digest c = Inr (digest_of c)"

text \<open>The index of digests is the list of records, newest first.\<close>

definition index_of :: "(pyval \<Rightarrow> string) \<Rightarrow> pyval list \<Rightarrow> (string \<times> string) list" where
  "index_of key es = rev (map (\<lambda>e. (key e, digest_of e)) es)"

definition obs_ok :: "(pyval \<Rightarrow> string \<Rightarrow> bool res) \<Rightarrow> obs_store \<Rightarrow> bool" where
  "obs_ok re s \<longleftrightarrow>
     (\<forall>e\<in>set (os_events s). event_ok re e) \<and> distinct (map event_id (os_events s))
     \<and> os_digests s = index_of event_id (os_events s)
     \<and> (\<forall>c\<in>set (os_checkpoints s). checkpoint_ok re (os_events s) c)
     \<and> distinct (map checkpoint_id (os_checkpoints s))
     \<and> os_checkpoint_digests s = index_of checkpoint_id (os_checkpoints s)"

section \<open>Rows\<close>

lemma rows_of_Nil [simp]: "rows_of key [] = []"
  by (simp add: rows_of_def)

lemma rows_of_snoc: "rows_of key (es @ [e]) = rows_of key es @
    [\<lparr>or_id = key e, or_cursor = int (length es), or_json = Some (normal e), or_digest = digest_of e\<rparr>]"
  by (simp add: rows_of_def enumerate_append_eq)

lemma length_rows_of [simp]: "length (rows_of key es) = length es"
  by (simp add: rows_of_def)

lemma nth_rows_of: "n < length es \<Longrightarrow> rows_of key es ! n =
    \<lparr>or_id = key (es ! n), or_cursor = int n, or_json = Some (normal (es ! n)), or_digest = digest_of (es ! n)\<rparr>"
  by (simp add: rows_of_def nth_enumerate_eq)

lemma cursors_rows_of: "map or_cursor (rows_of key es) = map int [0..<length es]"
  by (rule nth_equalityI) (simp_all add: nth_rows_of)

lemma ids_rows_of: "map or_id (rows_of key es) = map key es"
  by (rule nth_equalityI) (simp_all add: nth_rows_of)

lemma sort_rows_of [simp]: "sort_key or_cursor (rows_of key es) = rows_of key es"
proof (rule sort_key_id_if_sorted)
  have "sorted (map int [0..<n])" for n
    by (simp add: sorted_iff_nth_mono)
  then show "sorted (map or_cursor (rows_of key es))" unfolding cursors_rows_of .
qed

lemma read_rows_of [simp]: "read_rows (rows_of key es) = Inr (map normal es)"
proof -
  have "map_res decode (rows_of key es) = Inr (map (\<lambda>r. the (or_json r)) (rows_of key es))"
    by (rule map_res_all) (auto simp: rows_of_def decode_def)
  moreover have "map (\<lambda>r. the (or_json r)) (rows_of key es) = map normal es"
    by (rule nth_equalityI) (simp_all add: nth_rows_of)
  ultimately show ?thesis by (simp add: read_rows_def)
qed

lemma next_cursor_rows_of [simp]: "next_cursor (rows_of key es) = int (length es)"
proof (cases "es = []")
  case False
  then obtain n where n: "length es = Suc n" by (cases es) auto
  have "Max (int ` {0..<Suc n}) = int n"
    by (rule Max_eqI) auto
  moreover have "rows_of key es \<noteq> []" using n length_rows_of [of key es] by fastforce
  ultimately show ?thesis unfolding next_cursor_def cursors_rows_of n set_map set_upt by simp
qed (simp add: next_cursor_def)

lemma row_of_new: "map_of (index_of key es) i = None \<Longrightarrow> row_of i (rows_of key es) = None"
proof -
  assume "map_of (index_of key es) i = None"
  then have "i \<notin> set (map or_id (rows_of key es))"
    by (auto simp: ids_rows_of index_of_def map_of_eq_None_iff image_image)
  then show ?thesis by (auto simp: row_of_def find_None_iff)
qed

lemma find_unique: "x \<in> set xs \<Longrightarrow> P x \<Longrightarrow> (\<And>y. y \<in> set xs \<Longrightarrow> P y \<Longrightarrow> y = x) \<Longrightarrow> find P xs = Some x"
proof (induction xs)
  case (Cons a xs)
  show ?case
  proof (cases "P a")
    case True
    then show ?thesis using Cons.prems(3) [of a] by simp
  next
    case False
    then have "x \<in> set xs" using Cons.prems(1,2) by auto
    then have "find P xs = Some x"
      by (rule Cons.IH) (use Cons.prems(2) in assumption, rule Cons.prems(3), simp_all)
    then show ?thesis using False by simp
  qed
qed simp

lemma row_of_known:
  assumes "distinct (map key es)" "p < length es" "key (es ! p) = i"
  shows "row_of i (rows_of key es) = Some (rows_of key es ! p)"
proof -
  have "r = rows_of key es ! p" if r: "r \<in> set (rows_of key es)" and i: "or_id r = i" for r
  proof -
    obtain q where q: "q < length es" "r = rows_of key es ! q"
      using r unfolding in_set_conv_nth by auto
    then have "map key es ! q = map key es ! p" using i assms by (simp add: nth_rows_of)
    then show ?thesis using q assms nth_eq_iff_index_eq [of "map key es" q p] by simp
  qed
  moreover have "rows_of key es ! p \<in> set (rows_of key es)" using assms(2) by (intro nth_mem) simp
  moreover have "or_id (rows_of key es ! p) = i" using assms by (simp add: nth_rows_of)
  ultimately show ?thesis unfolding row_of_def by (rule find_unique [rotated 2]) auto
qed

lemma index_known:
  assumes "distinct (map key es)" "map_of (index_of key es) i = Some k"
  obtains p where "p < length es" "key (es ! p) = i" "k = digest_of (es ! p)"
proof -
  have "(i, k) \<in> set (index_of key es)" using assms(2) by (rule map_of_SomeD)
  then show ?thesis using that by (auto simp: index_of_def in_set_conv_nth)
qed

lemma insert_new:
  assumes "map_of (index_of key es) (key v) = None" "d = digest_of v" "i = key v"
  shows "insert_row i v d (rows_of key es) = Inr (int (length es), rows_of key (es @ [v]))"
proof -
  have "or_id r \<noteq> key v" "or_cursor r \<noteq> int (length es)" if "r \<in> set (rows_of key es)" for r
  proof -
    have "or_id r \<in> set (map key es)" using that by (simp flip: ids_rows_of [of key])
    then show "or_id r \<noteq> key v" using assms(1) by (auto simp: index_of_def map_of_eq_None_iff image_image)
    have "or_cursor r \<in> set (map int [0..<length es])" using that by (simp flip: cursors_rows_of [of key])
    then show "or_cursor r \<noteq> int (length es)" by auto
  qed
  then have "\<not> list_ex (\<lambda>r. or_id r = i \<or> or_cursor r = int (length es)) (rows_of key es)"
    using assms(3) by (auto simp: list_ex_iff)
  then show ?thesis using assms(2,3) by (simp add: insert_row_def rows_of_snoc Let_def)
qed

lemma position_of_known:
  assumes d: "distinct (map key es)" and p: "p < length es" "key (es ! p) = i"
    and k: "\<And>e. e \<in> set es \<Longrightarrow> fld e k = PStr (key e)"
  shows "position_of k i es = Some p"
proof -
  have "takeWhile (\<lambda>e. fld e k \<noteq> PStr i) es = take p es"
  proof (rule takeWhile_eq_take_P_nth)
    fix q assume "q < p" "q < length es"
    then show "fld (es ! q) k \<noteq> PStr i"
      using k [of "es ! q"] p nth_eq_iff_index_eq [OF d, of q p] by auto
  next
    show "p < length es \<Longrightarrow> \<not> fld (es ! p) k \<noteq> PStr i" using k [of "es ! p"] p by simp
  qed
  then show ?thesis using p(1) by (simp add: position_of_def)
qed

section \<open>Checks over what was read back\<close>

lemma event_ok_fields:
  assumes "event_ok re e"
  shows "fld e ''event_id'' = PStr (event_id e)" and "k \<in> set event_fields \<Longrightarrow> is_str (fld e k)" and "json_value e"
proof -
  have v: "validate re e event_schema = Inr ()" using assms by (simp add: event_ok_def)
  show str: "is_str (fld e k)" if "k \<in> set event_fields" for k by (rule event_conforms(2) [OF v that])
  show "json_value e" using assms by (simp add: event_ok_def)
  have "''event_id'' \<in> set event_fields" by (simp add: event_fields_def)
  then show "fld e ''event_id'' = PStr (event_id e)" using str by (cases "fld e ''event_id''") force+
qed

lemma str_fld_normal: "event_ok re e \<Longrightarrow> k \<in> set event_fields \<Longrightarrow> fld (normal e) k = fld e k"
  using event_ok_fields(2) [of re e k] event_ok_fields(3) [of re e] by (auto simp: fld_normal is_str_iff)

lemma position_of_normal:
  assumes "\<forall>e\<in>set es. json_value e"
  shows "position_of k v (map normal es) = position_of k v es"
proof -
  have "takeWhile (\<lambda>e. fld e k \<noteq> PStr v) (map normal es) = map normal (takeWhile (\<lambda>e. fld e k \<noteq> PStr v) es)"
    using assms by (induction es) (auto simp: fld_normal)
  then show ?thesis by (simp add: position_of_def)
qed

lemma position_of_bound: "position_of k v es = Some p \<Longrightarrow> p < length es"
  by (auto simp: position_of_def Let_def split: if_splits)

lemma check_checkpoint_normal:
  assumes ok: "\<forall>e\<in>set es. event_ok re e"
  shows "check_checkpoint re (Inr (map normal es)) cp = check_checkpoint re (Inr es) cp"
proof -
  have j: "\<forall>e\<in>set es. json_value e" using ok by (simp add: event_ok_def)
  have "same_context (map normal es ! p) cp = same_context (es ! p) cp" if "p < length es" for p
    unfolding same_context_def
    by (rule check_each_cong [OF refl]) (use str_fld_normal [of re "es ! p"] ok that in \<open>auto simp: event_fields_def\<close>)
  then show ?thesis
    unfolding check_checkpoint_def rbind_simps position_of_normal [OF j] length_map
    by (cases "position_of ''event_id'' (str_of (fld cp ''trigger_event_id'')) es") (simp_all add: position_of_bound)
qed

text \<open>A checkpoint that has been checked stays valid as the journal grows, also as it is read back.\<close>

lemma position_of_append: "position_of k v es = Some p \<Longrightarrow> position_of k v (es @ fs) = Some p"
proof -
  assume p: "position_of k v es = Some p"
  then have "length (takeWhile (\<lambda>e. fld e k \<noteq> PStr v) es) < length es" by (auto simp: position_of_def Let_def split: if_splits)
  then have "takeWhile (\<lambda>e. fld e k \<noteq> PStr v) es \<noteq> es" using less_irrefl by metis
  then have "\<exists>e\<in>set es. \<not> fld e k \<noteq> PStr v" unfolding takeWhile_eq_all_conv by blast
  then have "takeWhile (\<lambda>e. fld e k \<noteq> PStr v) (es @ fs) = takeWhile (\<lambda>e. fld e k \<noteq> PStr v) es"
    by (auto intro: takeWhile_append1)
  then show ?thesis using p by (auto simp: position_of_def Let_def split: if_splits)
qed

lemma same_context_iff:
  "same_context trigger cp = Inr u \<longleftrightarrow> (\<forall>k\<in>{''process_id'', ''run_id'', ''branch_id''}. py_eq (fld trigger k) (fld cp k))"
  by (simp add: same_context_def)

lemma check_checkpoint_parts:
  "check_checkpoint re (Inr es) cp = Inr c \<longleftrightarrow> is_dict cp \<and> validate re cp checkpoint_schema = Inr () \<and>
     (\<exists>p. position_of ''event_id'' (str_of (fld cp ''trigger_event_id'')) es = Some p
        \<and> (\<forall>k\<in>{''process_id'', ''run_id'', ''branch_id''}. py_eq (fld (es ! p) k) (fld cp k))
        \<and> int_of (fld cp ''event_cursor'') = int p \<and> c = int p)"
proof (cases "position_of ''event_id'' (str_of (fld cp ''trigger_event_id'')) es")
  case (Some p)
  then have "p < length es" by (rule position_of_bound)
  then show ?thesis unfolding check_checkpoint_def Let_def
    by (simp add: Some same_context_iff del: check_each_Inr) auto
qed (simp add: check_checkpoint_def)

lemma check_checkpoint_append:
  "check_checkpoint re (Inr es) cp = Inr c \<Longrightarrow> check_checkpoint re (Inr (es @ fs)) cp = Inr c"
  unfolding check_checkpoint_parts using position_of_append position_of_bound by (fastforce simp: nth_append)

lemma check_checkpoint_read_back:
  assumes c: "check_checkpoint re (Inr es) cp = Inr c" and j: "json_value cp"
  shows "check_checkpoint re (Inr es) (normal cp) = Inr c"
proof -
  have v: "validate re cp checkpoint_schema = Inr ()" and d: "is_dict cp" using c by (simp_all add: check_checkpoint_parts)
  have "fld (normal cp) k = fld cp k" if "k \<in> set checkpoint_texts" for k
    using checkpoint_conforms(2) [OF v that] by (auto simp: fld_normal [OF j] is_str_iff)
  moreover have "fld (normal cp) ''event_cursor'' = fld cp ''event_cursor''"
    using checkpoint_conforms(3) [OF v] by (auto simp: fld_normal [OF j] is_int_iff)
  ultimately show ?thesis
    using c validate_normal [OF v j] d unfolding check_checkpoint_parts by (simp add: checkpoint_texts_def)
qed

text \<open>The invocation of a validated result is a text, so causality is the same over the rows read back.\<close>

lemma invocation_text:
  assumes "validate re v event_schema = Inr ()" "fld v ''invocation_id'' \<noteq> PNone"
  shows "is_str (fld v ''invocation_id'')"
proof -
  obtain d where d: "event_schema = PDict d" by (simp add: event_schema_def)
  have c: "conforms re v (PDict d)" using assms(1) d by (simp add: validate_conforms)
  have k: "has_key v ''invocation_id''" using assms(2) by (auto simp: has_key_def fld_def split: option.splits)
  have "typed_field (items event_schema) ''string'' ''invocation_id''" by code_simp
  then obtain e where "map_of (property_schemas d) ''invocation_id'' = Some (PDict e)"
      "map_of e ''type'' = Some (PStr ''string'')"
    by (auto simp: typed_field_def d split: option.splits pyval.splits)
  then have "has_type ''string'' (fld v ''invocation_id'')" using conforms_type conforms_field [OF c _ k] by blast
  then show ?thesis by simp
qed

lemma check_causality_normal:
  assumes ok: "\<forall>e\<in>set es. event_ok re e"
  shows "check_result_causality re (Inr (map normal es)) r = check_result_causality re (Inr es) r"
proof (cases "validate re r event_schema = Inr () \<and> fld r ''invocation_id'' \<noteq> PNone")
  case True
  then obtain i where i: "fld r ''invocation_id'' = PStr i" using invocation_text [of re r] by (auto simp: is_str_iff)
  have j: "json_value e" if "e \<in> set es" for e using ok that by (simp add: event_ok_def)
  obtain w where ev: "fld r ''event_id'' = PStr w"
    using event_conforms(2) [of re r "''event_id''"] True by (auto simp: event_fields_def is_str_iff)
  have "invocation_records (map normal es) r = map (\<lambda>(p, e). (p, normal e)) (invocation_records es r)"
  proof -
    have "enumerate 0 (map normal es) = map (\<lambda>(p, e). (p, normal e)) (enumerate 0 es)"
      by (rule nth_equalityI) (simp_all add: nth_enumerate_eq)
    moreover have "filter (\<lambda>(p, e). fld e ''invocation_id'' = PStr i \<and> fld e ''event_id'' \<noteq> PStr w)
        (map (\<lambda>(p, e). (p, normal e)) xs)
      = map (\<lambda>(p, e). (p, normal e)) (filter (\<lambda>(p, e). fld e ''invocation_id'' = PStr i \<and> fld e ''event_id'' \<noteq> PStr w) xs)"
      if "\<forall>(p, e)\<in>set xs. json_value e" for xs :: "(nat \<times> pyval) list"
      using that by (induction xs) (auto simp: fld_normal)
    moreover have "\<forall>(p, e)\<in>set (enumerate 0 es). json_value e" using j by (auto simp: in_set_enumerate_eq)
    ultimately show ?thesis by (simp add: invocation_records_def i ev)
  qed
  moreover have "\<forall>(p, e)\<in>set (invocation_records es r). json_value e"
    using j by (auto simp: invocation_records_def in_set_enumerate_eq)
  moreover have "map fst (filter (\<lambda>(p, e). is_intent e) (map (\<lambda>(p, e). (p, normal e)) xs))
      = map fst (filter (\<lambda>(p, e). is_intent e) xs)
    \<and> list_ex (\<lambda>(p, e). \<not> is_intent e) (map (\<lambda>(p, e). (p, normal e)) xs) = list_ex (\<lambda>(p, e). \<not> is_intent e) xs"
    if "\<forall>(p, e)\<in>set xs. json_value e" for xs :: "(nat \<times> pyval) list"
    using that by (induction xs) (auto simp: is_intent_def fld_normal)
  ultimately have rec: "map fst (filter (\<lambda>(p, e). is_intent e) (invocation_records (map normal es) r))
      = map fst (filter (\<lambda>(p, e). is_intent e) (invocation_records es r))"
    "list_ex (\<lambda>(p, e). \<not> is_intent e) (invocation_records (map normal es) r)
      = list_ex (\<lambda>(p, e). \<not> is_intent e) (invocation_records es r)"
    by simp_all
  have pos: "position_of k v (map normal es) = position_of k v es" for k v
    using position_of_normal [of es] j by blast
  show ?thesis unfolding check_result_causality_def rbind_simps Let_def rec pos ..
next
  case False
  then show ?thesis by (cases "validate re r event_schema") (auto simp: check_result_causality_def)
qed

end
