(* ===== verification/Observation_Journal.thy ===== *)
theory Observation_Journal
  imports Observation_Facts
begin

text \<open>
  The operations of the two journals on represented stores: each keeps \<open>obs_ok\<close>, and the SQLite
  operation on \<open>db_of s\<close> returns what the operation in memory returns on \<open>s\<close>.
\<close>

section \<open>One record\<close>

lemma known_record:
  assumes "distinct (map key es)" "\<And>e. e \<in> set es \<Longrightarrow> fld e k = PStr (key e)" "map_of (index_of key es) i = Some d"
  obtains p where "stored_position k i es = Inr (int p)" "p < length es" "key (es ! p) = i" "d = digest_of (es ! p)"
    "row_of i (rows_of key es) = Some \<lparr>or_id = i, or_cursor = int p, or_json = Some (normal (es ! p)), or_digest = d\<rparr>"
proof -
  obtain p where p: "p < length es" "key (es ! p) = i" "d = digest_of (es ! p)" by (rule index_known [OF assms(1,3)])
  show ?thesis
    by (rule that [of p])
      (use p position_of_known [OF assms(1) p(1,2) assms(2)] row_of_known [OF assms(1) p(1,2)] in
        \<open>simp_all add: stored_position_def nth_rows_of\<close>)
qed

lemma index_of_snoc: "index_of key (es @ [e]) = (key e, digest_of e) # index_of key es"
  by (simp add: index_of_def)

lemma index_of_None: "map_of (index_of key es) i = None \<longleftrightarrow> i \<notin> set (map key es)"
  by (auto simp: index_of_def map_of_eq_None_iff image_image)

lemma digest_of_eq: "sha256_digest v = Inr d \<Longrightarrow> digest_of v = d"
  by (simp add: digest_of_def)

text \<open>The store after a new event and after a new checkpoint.\<close>

definition push_event :: "pyval \<Rightarrow> obs_store \<Rightarrow> obs_store" where
  "push_event ev s = s\<lparr>os_events := os_events s @ [ev], os_digests := (event_id ev, digest_of ev) # os_digests s\<rparr>"

definition push_checkpoint :: "pyval \<Rightarrow> obs_store \<Rightarrow> obs_store" where
  "push_checkpoint cp s = s\<lparr>os_checkpoints := os_checkpoints s @ [cp],
     os_checkpoint_digests := (checkpoint_id cp, digest_of cp) # os_checkpoint_digests s\<rparr>"

lemma push_simps [simp]:
  "os_events (push_event ev s) = os_events s @ [ev]" "os_checkpoints (push_event ev s) = os_checkpoints s"
  "os_events (push_checkpoint cp s) = os_events s" "os_checkpoints (push_checkpoint cp s) = os_checkpoints s @ [cp]"
  "os_digests (push_checkpoint cp s) = os_digests s"
  by (simp_all add: push_event_def push_checkpoint_def)

lemma journal_events: "obs_ok re s \<Longrightarrow> e \<in> set (os_events s) \<Longrightarrow> event_ok re e"
  by (simp add: obs_ok_def)

lemma journal_checkpoint_field:
  assumes "obs_ok re s" "c \<in> set (os_checkpoints s)"
  shows "fld c ''checkpoint_id'' = PStr (checkpoint_id c)"
proof -
  have "validate re c checkpoint_schema = Inr ()"
    using assms by (auto simp: obs_ok_def checkpoint_ok_def is_ok_iff check_checkpoint_parts)
  then have "is_str (fld c ''checkpoint_id'')"
    by (rule checkpoint_conforms(2)) (simp add: checkpoint_texts_def)
  then show ?thesis by (cases "fld c ''checkpoint_id''") force+
qed

lemma journal_push_event:
  assumes "obs_ok re s" "event_ok re ev" "event_id ev \<notin> set (map event_id (os_events s))"
  shows "obs_ok re (push_event ev s)"
proof -
  have "checkpoint_ok re (os_events s @ [ev]) c" if "checkpoint_ok re (os_events s) c" for c
    using that check_checkpoint_append by (fastforce simp: checkpoint_ok_def is_ok_iff)
  then show ?thesis using assms by (simp add: obs_ok_def push_event_def index_of_snoc)
qed

lemma journal_push_checkpoint:
  assumes "obs_ok re s" "checkpoint_ok re (os_events s) cp" "checkpoint_id cp \<notin> set (map checkpoint_id (os_checkpoints s))"
  shows "obs_ok re (push_checkpoint cp s)"
  using assms by (simp add: obs_ok_def push_checkpoint_def index_of_snoc)

lemma db_of_push_event: "db_of (push_event ev s) = db_of s\<lparr>od_events := rows_of event_id (os_events s @ [ev])\<rparr>"
  by (simp add: db_of_def)

lemma db_of_push_checkpoint:
  "db_of (push_checkpoint cp s) = db_of s\<lparr>od_checkpoints := rows_of checkpoint_id (os_checkpoints s @ [cp])\<rparr>"
  by (simp add: db_of_def)

lemma db_of_simps [simp]:
  "od_events (db_of s) = rows_of event_id (os_events s)" "od_checkpoints (db_of s) = rows_of checkpoint_id (os_checkpoints s)"
  by (simp_all add: db_of_def)

text \<open>What an append does: nothing, or a new event.\<close>

lemma obs_append_cases:
  assumes ok: "obs_ok re s" and j: "json_value ev" and run: "obs_append re ev s = (r, t)"
  shows "t = s \<or> (r = Inr (int (length (os_events s))) \<and> t = push_event ev s \<and> event_ok re ev
    \<and> event_id ev \<notin> set (map event_id (os_events s)))"
proof (cases "rbind (validate re ev event_schema) (\<lambda>_. sha256_digest ev)")
  case (Inr d)
  then have v: "validate re ev event_schema = Inr ()" "sha256_digest ev = Inr d" by auto
  have ev: "event_ok re ev" using v j digest_of_eq [OF v(2)] by (simp add: event_ok_def)
  have ix: "os_digests s = index_of event_id (os_events s)" using ok by (simp add: obs_ok_def)
  show ?thesis
  proof (cases "map_of (os_digests s) (event_id ev)")
    case None
    then have "event_id ev \<notin> set (map event_id (os_events s))" unfolding ix index_of_None .
    then show ?thesis using run Inr ev digest_of_eq [OF v(2)] None by (auto simp: obs_append_def push_event_def)
  qed (use run Inr in \<open>auto simp: obs_append_def\<close>)
qed (use run in \<open>auto simp: obs_append_def\<close>)

lemma obs_append_ok: "obs_ok re s \<Longrightarrow> json_value ev \<Longrightarrow> obs_append re ev s = (r, t) \<Longrightarrow> obs_ok re t"
  using obs_append_cases journal_push_event by blast

theorem db_append_refines:
  assumes ok: "obs_ok re s" and j: "json_value ev"
  shows "db_append re ev (db_of s) = map_prod id db_of (obs_append re ev s)"
proof (cases "rbind (validate re ev event_schema) (\<lambda>_. sha256_digest ev)")
  case (Inr d)
  then have d: "digest_of ev = d" using digest_of_eq by auto
  have ix: "os_digests s = index_of event_id (os_events s)" and ds: "distinct (map event_id (os_events s))"
    using ok by (simp_all add: obs_ok_def)
  have key: "fld e ''event_id'' = PStr (event_id e)" if "e \<in> set (os_events s)" for e
    by (rule event_ok_fields(1) [OF journal_events [OF ok that]])
  show ?thesis
  proof (cases "map_of (os_digests s) (event_id ev)")
    case None
    then have n: "map_of (index_of event_id (os_events s)) (event_id ev) = None" by (simp add: ix)
    show ?thesis
      by (simp add: db_append_def obs_append_def Inr None row_of_new [OF n] insert_new [OF n d [symmetric] refl])
        (simp add: db_of_def)
  next
    case (Some known)
    obtain p where p: "stored_position ''event_id'' (event_id ev) (os_events s) = Inr (int p)"
      "row_of (event_id ev) (rows_of event_id (os_events s)) = Some \<lparr>or_id = event_id ev, or_cursor = int p,
         or_json = Some (normal (os_events s ! p)), or_digest = known\<rparr>"
      by (rule known_record [OF ds key Some [unfolded ix]]) 
    show ?thesis by (simp add: db_append_def obs_append_def Inr Some p)
  qed
qed (simp add: db_append_def obs_append_def)

lemma obs_checkpoint_cases:
  assumes ok: "obs_ok re s" and j: "json_value cp" and run: "obs_record_checkpoint re cp s = (r, t)"
  shows "t = s \<or> (r = Inr (int (length (os_checkpoints s))) \<and> t = push_checkpoint cp s \<and> checkpoint_ok re (os_events s) cp
    \<and> checkpoint_id cp \<notin> set (map checkpoint_id (os_checkpoints s)))"
proof (cases "rbind (check_checkpoint re (Inr (os_events s)) cp) (\<lambda>_. sha256_digest cp)")
  case (Inr d)
  then have v: "is_ok (check_checkpoint re (Inr (os_events s)) cp)" "sha256_digest cp = Inr d" by (auto simp: is_ok_iff)
  have cp: "checkpoint_ok re (os_events s) cp" using v j digest_of_eq [OF v(2)] by (simp add: checkpoint_ok_def)
  have ix: "os_checkpoint_digests s = index_of checkpoint_id (os_checkpoints s)" using ok by (simp add: obs_ok_def)
  show ?thesis
  proof (cases "map_of (os_checkpoint_digests s) (checkpoint_id cp)")
    case None
    then have "checkpoint_id cp \<notin> set (map checkpoint_id (os_checkpoints s))" unfolding ix index_of_None .
    then show ?thesis using run Inr cp digest_of_eq [OF v(2)] None
      by (auto simp: obs_record_checkpoint_def push_checkpoint_def)
  qed (use run Inr in \<open>auto simp: obs_record_checkpoint_def\<close>)
qed (use run in \<open>auto simp: obs_record_checkpoint_def\<close>)

lemma obs_checkpoint_ok:
  "obs_ok re s \<Longrightarrow> json_value cp \<Longrightarrow> obs_record_checkpoint re cp s = (r, t) \<Longrightarrow> obs_ok re t"
  using obs_checkpoint_cases journal_push_checkpoint by blast

lemma db_check_refines: "obs_ok re s \<Longrightarrow> db_check_checkpoint re cp (db_of s) = check_checkpoint re (Inr (os_events s)) cp"
  by (simp add: db_check_checkpoint_def db_events_def obs_ok_def check_checkpoint_normal)

lemma db_causality_refines:
  "obs_ok re s \<Longrightarrow> db_check_causality re r (db_of s) = check_result_causality re (Inr (os_events s)) r"
  by (simp add: db_check_causality_def db_events_def obs_ok_def check_causality_normal)

theorem db_checkpoint_refines:
  assumes ok: "obs_ok re s" and j: "json_value cp"
  shows "db_record_checkpoint re cp (db_of s) = map_prod id db_of (obs_record_checkpoint re cp s)"
proof (cases "rbind (check_checkpoint re (Inr (os_events s)) cp) (\<lambda>_. sha256_digest cp)")
  case (Inr d)
  then have d: "digest_of cp = d" using digest_of_eq by auto
  have ix: "os_checkpoint_digests s = index_of checkpoint_id (os_checkpoints s)"
    and ds: "distinct (map checkpoint_id (os_checkpoints s))"
    using ok by (simp_all add: obs_ok_def)
  show ?thesis
  proof (cases "map_of (os_checkpoint_digests s) (checkpoint_id cp)")
    case None
    then have n: "map_of (index_of checkpoint_id (os_checkpoints s)) (checkpoint_id cp) = None" by (simp add: ix)
    show ?thesis
      by (simp add: db_record_checkpoint_def obs_record_checkpoint_def db_check_refines [OF ok] Inr None row_of_new [OF n]
          insert_new [OF n d [symmetric] refl]) (simp add: db_of_def)
  next
    case (Some known)
    obtain p where p: "stored_position ''checkpoint_id'' (checkpoint_id cp) (os_checkpoints s) = Inr (int p)"
      "row_of (checkpoint_id cp) (rows_of checkpoint_id (os_checkpoints s)) = Some \<lparr>or_id = checkpoint_id cp,
         or_cursor = int p, or_json = Some (normal (os_checkpoints s ! p)), or_digest = known\<rparr>"
      by (rule known_record [OF ds journal_checkpoint_field [OF ok] Some [unfolded ix]])
    show ?thesis by (simp add: db_record_checkpoint_def obs_record_checkpoint_def db_check_refines [OF ok] Inr Some p)
  qed
qed (simp add: db_record_checkpoint_def obs_record_checkpoint_def db_check_refines [OF ok])

section \<open>A checkpoint and an intent in one transaction\<close>

text \<open>The checkpoint's row in a transaction: the store after it.\<close>

definition with_checkpoint :: "pyval \<Rightarrow> obs_store \<Rightarrow> obs_store" where
  "with_checkpoint cp s =
     (if checkpoint_id cp \<in> set (map checkpoint_id (os_checkpoints s)) then s else push_checkpoint cp s)"

lemma with_checkpoint_events [simp]: "os_events (with_checkpoint cp s) = os_events s" "os_digests (with_checkpoint cp s) = os_digests s"
  by (simp_all add: with_checkpoint_def)

lemma row_of_event: "obs_ok re s \<Longrightarrow>
    row_of (event_id ev) (rows_of event_id (os_events s)) = None \<longleftrightarrow> event_id ev \<notin> set (map event_id (os_events s))"
proof -
  assume ok: "obs_ok re s"
  show ?thesis
  proof (cases "map_of (index_of event_id (os_events s)) (event_id ev)")
    case None
    then show ?thesis using row_of_new [OF None] by (simp only: index_of_None [symmetric] simp_thms)
  next
    case (Some d)
    have ds: "distinct (map event_id (os_events s))" using ok by (simp add: obs_ok_def)
    obtain p where "p < length (os_events s)" "event_id (os_events s ! p) = event_id ev"
      by (rule index_known [OF ds Some])
    then show ?thesis using row_of_known [OF ds, of p] Some by (simp only: index_of_None [symmetric]) simp
  qed
qed

lemma add_checkpoint_of:
  assumes ok: "obs_ok re s" and d: "sha256_digest cp = Inr d"
  shows "add_checkpoint cp d (db_of s) = Inr (db_of (with_checkpoint cp s))"
proof (cases "map_of (index_of checkpoint_id (os_checkpoints s)) (checkpoint_id cp)")
  case None
  then have "checkpoint_id cp \<notin> set (map checkpoint_id (os_checkpoints s))" unfolding index_of_None .
  then show ?thesis
    using row_of_new [OF None] insert_new [OF None digest_of_eq [OF d, symmetric] refl]
    by (simp add: add_checkpoint_def with_checkpoint_def db_of_push_checkpoint)
next
  case (Some k)
  have ds: "distinct (map checkpoint_id (os_checkpoints s))" using ok by (simp add: obs_ok_def)
  obtain p where p: "p < length (os_checkpoints s)" "checkpoint_id (os_checkpoints s ! p) = checkpoint_id cp"
    by (rule index_known [OF ds Some])
  have "checkpoint_id cp \<in> set (map checkpoint_id (os_checkpoints s))" using Some by (metis index_of_None option.distinct(1))
  then show ?thesis using row_of_known [OF ds p] by (simp add: add_checkpoint_def with_checkpoint_def)
qed

lemma add_event_of:
  assumes new: "event_id ev \<notin> set (map event_id (os_events s))" and d: "sha256_digest ev = Inr d"
  shows "add_event ev d (db_of s) = Inr (int (length (os_events s)), db_of (push_event ev s))"
proof -
  have n: "map_of (index_of event_id (os_events s)) (event_id ev) = None" unfolding index_of_None by (rule new)
  show ?thesis by (simp add: add_event_def insert_new [OF n digest_of_eq [OF d, symmetric] refl] db_of_push_event)
qed

lemma journal_with_checkpoint:
  "obs_ok re s \<Longrightarrow> checkpoint_ok re (os_events s) cp \<Longrightarrow> obs_ok re (with_checkpoint cp s)"
  using journal_push_checkpoint by (simp add: with_checkpoint_def)

text \<open>What a transaction does: nothing, or both records (the intent may have been there for the pair).\<close>

lemma txn_checkpoint:
  assumes ok: "obs_ok re s" and j: "json_value cp"
    and c: "db_check_checkpoint re cp (db_of s) = Inr c" and d: "sha256_digest cp = Inr dc"
  shows "checkpoint_ok re (os_events s) cp"
  using c j digest_of_eq [OF d] d unfolding db_check_refines [OF ok] by (simp add: checkpoint_ok_def is_ok_iff)

lemma check_is_dict: "db_check_checkpoint re cp f = Inr c \<Longrightarrow> is_dict cp"
  by (simp add: db_check_checkpoint_def check_checkpoint_def)

lemma db_once_cases:
  assumes ok: "obs_ok re s" and j: "json_value cp" "json_value ev"
    and run: "db_record_once re cp ev (db_of s) = (r, g)"
  shows "(\<exists>e. r = Inl e \<and> g = db_of s) \<or> (r = Inr (int (length (os_events s))) \<and> g = db_of (push_event ev (with_checkpoint cp s))
    \<and> event_ok re ev \<and> checkpoint_ok re (os_events s) cp \<and> event_id ev \<notin> set (map event_id (os_events s)))"
proof (cases "pair_digests re cp ev")
  case (Inl e)
  then show ?thesis using run by (auto simp: db_record_once_def)
next
  case (Inr ds)
  obtain dc de where ds: "ds = (dc, de)" by fastforce
  have v: "validate re ev event_schema = Inr ()" "sha256_digest ev = Inr de"
    "is_dict cp \<Longrightarrow> sha256_digest cp = Inr dc"
    using Inr ds by (auto simp: pair_digests_def)
  show ?thesis
  proof (cases r)
    case (Inl e)
    then show ?thesis using run \<open>pair_digests re cp ev = Inr ds\<close> ds
      by (auto simp: db_record_once_def journal_txn_def split: sum.splits)
  next
    case (Inr n)
    then obtain c where c: "db_check_checkpoint re cp (db_of s) = Inr c"
      "row_of (event_id ev) (od_events (db_of s)) = None"
      "rbind (add_checkpoint cp dc (db_of s)) (add_event ev de) = Inr (n, g)"
      using run \<open>pair_digests re cp ev = Inr ds\<close> ds
      by (auto simp: db_record_once_def journal_txn_def split: sum.splits simp del: db_of_simps)
    have dcp: "sha256_digest cp = Inr dc" by (rule v(3)) (rule check_is_dict [OF c(1)])
    have new: "event_id ev \<notin> set (map event_id (os_events s))" using c(2) row_of_event [OF ok] by simp
    have "event_id ev \<notin> set (map event_id (os_events (with_checkpoint cp s)))" using new by simp
    then have "Inr (n, g) = (Inr (int (length (os_events s)), db_of (push_event ev (with_checkpoint cp s))) :: (int \<times> obs_db) res)"
      using c(3) add_checkpoint_of [OF ok dcp] add_event_of [OF _ v(2)] by simp
    moreover have "event_ok re ev" using v j(2) digest_of_eq [OF v(2)] by (simp add: event_ok_def)
    ultimately show ?thesis using Inr new txn_checkpoint [OF ok j(1) c(1) dcp] by simp
  qed
qed

lemma db_pair_cases:
  assumes ok: "obs_ok re s" and j: "json_value cp" "json_value ev"
    and run: "db_record_pair re cp ev (db_of s) = (r, g)"
  shows "(g = db_of s \<and> \<not> is_ok r) \<or> (checkpoint_ok re (os_events s) cp \<and>
      ((g = db_of (with_checkpoint cp s) \<and> event_id ev \<in> set (map event_id (os_events s))) \<or>
      (g = db_of (push_event ev (with_checkpoint cp s)) \<and> event_ok re ev \<and> event_id ev \<notin> set (map event_id (os_events s)))))"
proof (cases "pair_digests re cp ev")
  case (Inl e)
  then show ?thesis using run by (auto simp: db_record_pair_def)
next
  case (Inr ds)
  obtain dc de where ds: "ds = (dc, de)" by fastforce
  have v: "validate re ev event_schema = Inr ()" "sha256_digest ev = Inr de"
    "is_dict cp \<Longrightarrow> sha256_digest cp = Inr dc"
    using Inr ds by (auto simp: pair_digests_def)
  show ?thesis
  proof (cases r)
    case (Inl e)
    then show ?thesis using run \<open>pair_digests re cp ev = Inr ds\<close> ds
      by (auto simp: db_record_pair_def journal_txn_def split: sum.splits)
  next
    case (Inr n)
    then obtain c where c: "db_check_checkpoint re cp (db_of s) = Inr c"
      "rbind (add_checkpoint cp dc (db_of s)) (\<lambda>g. case row_of (event_id ev) (od_events (db_of s)) of
         Some r \<Rightarrow> Inr (or_cursor r, g) | None \<Rightarrow> add_event ev de g) = Inr (n, g)"
      using run \<open>pair_digests re cp ev = Inr ds\<close> ds
      by (auto simp: db_record_pair_def journal_txn_def split: sum.splits simp del: db_of_simps)
    have dcp: "sha256_digest cp = Inr dc" by (rule v(3)) (rule check_is_dict [OF c(1)])
    have cpok: "checkpoint_ok re (os_events s) cp" by (rule txn_checkpoint [OF ok j(1) c(1) dcp])
    show ?thesis
    proof (cases "row_of (event_id ev) (od_events (db_of s))")
      case (Some row)
      then have "event_id ev \<in> set (map event_id (os_events s))"
        using row_of_event [OF ok, of ev] by (simp del: set_map)
      then show ?thesis using Some c(2) add_checkpoint_of [OF ok dcp] cpok by (simp del: set_map)
    next
      case None
      then have new: "event_id ev \<notin> set (map event_id (os_events s))" using row_of_event [OF ok] by simp
      have "event_id ev \<notin> set (map event_id (os_events (with_checkpoint cp s)))" using new by simp
      then have "g = db_of (push_event ev (with_checkpoint cp s))"
        using c(2) None add_checkpoint_of [OF ok dcp] add_event_of [OF _ v(2)] by simp
      moreover have "event_ok re ev" using v j(2) digest_of_eq [OF v(2)] by (simp add: event_ok_def)
      ultimately show ?thesis using new cpok by simp
    qed
  qed
qed

lemma journal_both:
  assumes "obs_ok re s" "checkpoint_ok re (os_events s) cp" "event_ok re ev"
    "event_id ev \<notin> set (map event_id (os_events s))"
  shows "obs_ok re (push_event ev (with_checkpoint cp s))"
  by (rule journal_push_event [OF journal_with_checkpoint]) (use assms in simp_all)

end
