(* ===== verification/Observed_Facts.thy ===== *)
theory Observed_Facts
  imports Observed_Steps Observation_Journal
begin

text \<open>
  What the runs need of their journal, as the locale \<open>observed_journal\<close>: appends add one event or none,
  and a write that succeeds leaves the record it was given, up to its digest. Both journals provide it.
\<close>

section \<open>The journal of a run\<close>

text \<open>A record is known by its identity and its digest, which is what the journals compare.\<close>

definition recorded :: "pyval list \<Rightarrow> pyval \<Rightarrow> bool" where
  "recorded es ev \<longleftrightarrow> (\<exists>e\<in>set es. event_id e = event_id ev \<and> sha256_digest e = sha256_digest ev)"

lemma recorded_mono: "recorded es ev \<Longrightarrow> set es \<subseteq> set fs \<Longrightarrow> recorded fs ev"
  by (auto simp: recorded_def)

definition writes :: "('s \<Rightarrow> bool) \<Rightarrow> ('s \<Rightarrow> pyval list) \<Rightarrow> (pyval \<Rightarrow> pyval) \<Rightarrow> pyval \<Rightarrow> ('s, int) eff \<Rightarrow> bool" where
  "writes ok evs view ev m \<longleftrightarrow> (\<forall>s r t. ok s \<longrightarrow> m s = (r, t) \<longrightarrow>
     ok t \<and> (evs t = evs s \<or> evs t = evs s @ [view ev] \<and> is_ok r) \<and> (is_ok r \<longrightarrow> recorded (evs t) ev))"

lemma writesI:
  assumes "\<And>s r t. ok s \<Longrightarrow> m s = (r, t) \<Longrightarrow>
     ok t \<and> (evs t = evs s \<or> evs t = evs s @ [view ev] \<and> is_ok r) \<and> (is_ok r \<longrightarrow> recorded (evs t) ev)"
  shows "writes ok evs view ev m"
  using assms by (auto simp: writes_def)

lemma writesD:
  "writes ok evs view ev m \<Longrightarrow> ok s \<Longrightarrow> m s = (r, t) \<Longrightarrow>
     ok t \<and> (evs t = evs s \<or> evs t = evs s @ [view ev] \<and> is_ok r) \<and> (is_ok r \<longrightarrow> recorded (evs t) ev)"
  by (auto simp: writes_def)

locale observed_journal =
  fixes st :: "'s observer_store" and evs :: "'s \<Rightarrow> pyval list" and ok :: "'s \<Rightarrow> bool" and view :: "pyval \<Rightarrow> pyval"
  assumes events: "ok s \<Longrightarrow> ost_events st s = Inr (evs s)"
    and methods: "gs_append (ost_gate st) \<noteq> None" "gs_record (ost_gate st) \<noteq> None" "gs_once (ost_gate st) \<noteq> None"
    and append_writes: "json_value ev \<Longrightarrow> gs_append (ost_gate st) = Some f \<Longrightarrow> writes ok evs view ev (f ev)"
    and record_keeps: "json_value cp \<Longrightarrow> gs_record (ost_gate st) = Some f \<Longrightarrow> ok s \<Longrightarrow> f cp s = (r, t) \<Longrightarrow> ok t \<and> evs t = evs s"
    and pair_writes: "json_value cp \<Longrightarrow> json_value ev \<Longrightarrow> gs_pair (ost_gate st) = Some g \<Longrightarrow> writes ok evs view ev (g cp ev)"
    and once_writes: "json_value cp \<Longrightarrow> json_value ev \<Longrightarrow> gs_once (ost_gate st) = Some g \<Longrightarrow> writes ok evs view ev (g cp ev)"
    and view_fld: "json_value v \<Longrightarrow> fld (view v) k = view (fld v k)"
    and view_text: "view v = PStr x \<longleftrightarrow> v = PStr x" "view v = PNone \<longleftrightarrow> v = PNone" "view v = PInt n \<longleftrightarrow> v = PInt n"
      "view (PList xs) = PList (map view xs)"

section \<open>The journal in memory\<close>

lemma memory_recorded:
  assumes "obs_ok re s" "map_of (os_digests s) (event_id ev) = Some (digest_of ev)" "sha256_digest ev = Inr d"
  shows "recorded (os_events s) ev"
proof -
  have ds: "distinct (map event_id (os_events s))" "os_digests s = index_of event_id (os_events s)"
    using assms(1) by (simp_all add: obs_ok_def)
  obtain p where p: "p < length (os_events s)" "event_id (os_events s ! p) = event_id ev"
    "digest_of ev = digest_of (os_events s ! p)"
    by (rule index_known [OF ds(1) assms(2) [unfolded ds(2)]])
  have "event_ok re (os_events s ! p)" by (rule journal_events [OF assms(1) nth_mem [OF p(1)]])
  then have "sha256_digest (os_events s ! p) = sha256_digest ev"
    using p(3) assms(3) digest_of_eq [OF assms(3)] by (simp add: event_ok_def)
  then show ?thesis using p nth_mem by (auto simp: recorded_def)
qed

lemma obs_append_writes: "json_value ev \<Longrightarrow> writes (obs_ok re) os_events id ev (obs_append re ev)"
proof (rule writesI)
  fix s r t assume j: "json_value ev" and ok: "obs_ok re s" and run: "obs_append re ev s = (r, t)"
  have known: "recorded (os_events s) ev" if "t = s" "is_ok r"
  proof (cases "rbind (validate re ev event_schema) (\<lambda>_. sha256_digest ev)")
    case (Inr d)
    then have d: "sha256_digest ev = Inr d" by auto
    have "t \<noteq> s" if "map_of (os_digests s) (event_id ev) = None"
    proof
      assume "t = s"
      then have "os_events s = os_events (s\<lparr>os_events := os_events s @ [ev], os_digests := (event_id ev, d) # os_digests s\<rparr>)"
        using run Inr that by (simp add: obs_append_def)
      then show False by simp
    qed
    then have "map_of (os_digests s) (event_id ev) = Some (digest_of ev)"
      using run Inr that digest_of_eq [OF d] by (auto simp: obs_append_def is_ok_def split: if_splits option.splits)
    then show ?thesis by (rule memory_recorded [OF ok _ d])
  qed (use run that in \<open>auto simp: obs_append_def\<close>)
  show "obs_ok re t \<and> (os_events t = os_events s \<or> os_events t = os_events s @ [id ev] \<and> is_ok r)
      \<and> (is_ok r \<longrightarrow> recorded (os_events t) ev)"
    using obs_append_cases [OF ok j run] obs_append_ok [OF ok j run] known by (auto simp: recorded_def)
qed

lemma obs_once_writes:
  assumes j: "json_value cp" "json_value ev"
  shows "writes (obs_ok re) os_events id ev (obs_record_once re cp ev)"
proof (rule writesI)
  fix s r t assume ok: "obs_ok re s" and run: "obs_record_once re cp ev s = (r, t)"
  obtain r1 u where u: "obs_record_checkpoint re cp s = (r1, u)" by fastforce
  have uok: "obs_ok re u" and ue: "os_events u = os_events s"
    using obs_checkpoint_ok [OF ok j(1) u] obs_checkpoint_cases [OF ok j(1) u] by auto
  have "t = s \<and> \<not> is_ok r \<or> t = u \<and> \<not> is_ok r \<or> obs_append re ev u = (r, t)"
    using run u by (auto simp: obs_record_once_def ebind_def split: sum.splits if_splits)
  then show "obs_ok re t \<and> (os_events t = os_events s \<or> os_events t = os_events s @ [id ev] \<and> is_ok r)
      \<and> (is_ok r \<longrightarrow> recorded (os_events t) ev)"
    using writesD [OF obs_append_writes [OF j(2)] uok] ok uok ue by metis
qed

interpretation memory_journal: observed_journal "memory_observer re" os_events "obs_ok re" id for re
proof (unfold_locales, goal_cases)
  case (6 cp f s r t)
  then show ?case
    using obs_checkpoint_ok [of re s cp r t] obs_checkpoint_cases [of re s cp r t]
    by (auto simp: memory_observer_def memory_gate_def)
qed (auto simp: memory_observer_def memory_gate_def obs_append_writes obs_once_writes)

section \<open>The journal in SQLite\<close>

definition db_ok :: "(pyval \<Rightarrow> string \<Rightarrow> bool res) \<Rightarrow> obs_db \<Rightarrow> bool" where
  "db_ok re f \<longleftrightarrow> (\<exists>s. obs_ok re s \<and> f = db_of s)"

definition listed :: "obs_db \<Rightarrow> pyval list" where
  "listed f = (case db_events f of Inl _ \<Rightarrow> [] | Inr es \<Rightarrow> es)"

lemma listed_db_of [simp]: "listed (db_of s) = map normal (os_events s)"
  by (simp add: listed_def db_events_def)

lemma event_id_normal: "json_value v \<Longrightarrow> event_id (normal v) = event_id v"
  by (simp add: fld_normal)

lemma recorded_normal:
  assumes "obs_ok re s"
  shows "recorded (map normal (os_events s)) ev \<longleftrightarrow> recorded (os_events s) ev"
proof -
  have "event_id (normal e) = event_id e \<and> sha256_digest (normal e) = sha256_digest e" if e: "e \<in> set (os_events s)" for e
    using journal_events [OF assms e] event_id_normal [of e] sha256_digest_normal [of e "digest_of e"]
    by (simp add: event_ok_def)
  then show ?thesis by (auto simp: recorded_def)
qed

lemma db_writesI:
  assumes "\<And>s r g. obs_ok re s \<Longrightarrow> m (db_of s) = (r, g) \<Longrightarrow> \<exists>t. g = db_of t \<and> obs_ok re t \<and>
    (os_events t = os_events s \<or> os_events t = os_events s @ [ev] \<and> is_ok r) \<and> (is_ok r \<longrightarrow> recorded (os_events t) ev)"
  shows "writes (db_ok re) listed normal ev m"
proof (rule writesI)
  fix f r g assume "db_ok re f" and run: "m f = (r, g)"
  then obtain s where s: "obs_ok re s" "f = db_of s" by (auto simp: db_ok_def)
  obtain t where t: "g = db_of t" "obs_ok re t"
    "os_events t = os_events s \<or> os_events t = os_events s @ [ev] \<and> is_ok r" "is_ok r \<longrightarrow> recorded (os_events t) ev"
    using assms [OF s(1) run [unfolded s(2)]] by blast
  show "db_ok re g \<and> (listed g = listed f \<or> listed g = listed f @ [normal ev] \<and> is_ok r) \<and> (is_ok r \<longrightarrow> recorded (listed g) ev)"
    using t s(2) recorded_normal [OF t(2)] by (auto simp: db_ok_def)
qed

lemma db_append_writes: "json_value ev \<Longrightarrow> writes (db_ok re) listed normal ev (db_append re ev)"
proof (rule db_writesI)
  fix s r g assume j: "json_value ev" and ok: "obs_ok re s" and run: "db_append re ev (db_of s) = (r, g)"
  obtain t where t: "obs_append re ev s = (r, t)" "g = db_of t"
    using run db_append_refines [OF ok j] by (cases "obs_append re ev s") auto
  show "\<exists>t. g = db_of t \<and> obs_ok re t \<and>
    (os_events t = os_events s \<or> os_events t = os_events s @ [ev] \<and> is_ok r) \<and> (is_ok r \<longrightarrow> recorded (os_events t) ev)"
    using writesD [OF obs_append_writes [OF j] ok t(1)] t(2) by auto
qed

lemma pushed_recorded: "recorded (os_events (push_event ev s)) ev"
  by (simp add: recorded_def)

lemma db_pair_known:
  assumes ok: "obs_ok re s" and j: "json_value ev" and run: "db_record_pair re cp ev (db_of s) = (Inr n, g)"
    and known: "event_id ev \<in> set (map event_id (os_events s))"
  shows "recorded (os_events s) ev"
proof -
  obtain dc de where de: "pair_digests re cp ev = Inr (dc, de)" "sha256_digest ev = Inr de"
    using run by (cases "pair_digests re cp ev") (auto simp: db_record_pair_def pair_digests_def)
  obtain d where d: "map_of (index_of event_id (os_events s)) (event_id ev) = Some d"
    using known by (metis index_of_None option.exhaust)
  have ds: "distinct (map event_id (os_events s))" using ok by (simp add: obs_ok_def)
  have key: "fld e ''event_id'' = PStr (event_id e)" if "e \<in> set (os_events s)" for e
    by (rule event_ok_fields(1) [OF journal_events [OF ok that]])
  obtain p where "row_of (event_id ev) (rows_of event_id (os_events s)) = Some \<lparr>or_id = event_id ev, or_cursor = int p,
      or_json = Some (normal (os_events s ! p)), or_digest = d\<rparr>"
    by (rule known_record [OF ds key d])
  then have "d = de" using run de by (auto simp: db_record_pair_def journal_txn_def split: sum.splits if_splits)
  then have "map_of (os_digests s) (event_id ev) = Some (digest_of ev)"
    using d ok digest_of_eq [OF de(2)] by (simp add: obs_ok_def)
  then show ?thesis by (rule memory_recorded [OF ok _ de(2)])
qed

lemma db_pair_writes:
  assumes j: "json_value cp" "json_value ev"
  shows "writes (db_ok re) listed normal ev (db_record_pair re cp ev)"
proof (rule db_writesI)
  fix s r g assume ok: "obs_ok re s" and run: "db_record_pair re cp ev (db_of s) = (r, g)"
  have recorded: "recorded (os_events s) ev" if "is_ok r" "event_id ev \<in> set (map event_id (os_events s))"
    using that run db_pair_known [OF ok j(2)] by (auto simp: is_ok_iff)
  note cases = db_pair_cases [OF ok j run]
  show "\<exists>t. g = db_of t \<and> obs_ok re t \<and>
    (os_events t = os_events s \<or> os_events t = os_events s @ [ev] \<and> is_ok r) \<and> (is_ok r \<longrightarrow> recorded (os_events t) ev)"
  proof (cases "is_ok r")
    case True
    then consider (known) "g = db_of (with_checkpoint cp s)" "checkpoint_ok re (os_events s) cp"
        "event_id ev \<in> set (map event_id (os_events s))"
      | (fresh) "g = db_of (push_event ev (with_checkpoint cp s))" "checkpoint_ok re (os_events s) cp" "event_ok re ev"
        "event_id ev \<notin> set (map event_id (os_events s))"
      using cases by blast
    then show ?thesis
    proof cases
      case known
      then show ?thesis using journal_with_checkpoint [OF ok] recorded by (intro exI [of _ "with_checkpoint cp s"]) (simp del: set_map)
    next
      case fresh
      then show ?thesis using journal_both [OF ok] True pushed_recorded
        by (intro exI [of _ "push_event ev (with_checkpoint cp s)"]) (simp del: set_map)
    qed
  next
    case False
    then have "g = db_of s" using run
      by (auto simp: db_record_pair_def journal_txn_def ebind_def is_ok_def simp del: db_of_simps split: sum.splits)
    then show ?thesis using ok False by blast
  qed
qed

lemma db_once_writes:
  assumes j: "json_value cp" "json_value ev"
  shows "writes (db_ok re) listed normal ev (db_record_once re cp ev)"
proof (rule db_writesI)
  fix s r g assume ok: "obs_ok re s" and run: "db_record_once re cp ev (db_of s) = (r, g)"
  show "\<exists>t. g = db_of t \<and> obs_ok re t \<and>
    (os_events t = os_events s \<or> os_events t = os_events s @ [ev] \<and> is_ok r) \<and> (is_ok r \<longrightarrow> recorded (os_events t) ev)"
    using db_once_cases [OF ok j run] ok journal_both [OF ok] pushed_recorded
    by (elim disjE) (auto intro: exI [of _ "push_event ev (with_checkpoint cp s)"])
qed

lemma normal_text: "normal v = PInt n \<longleftrightarrow> v = PInt n" "normal (PList xs) = PList (map normal xs)"
  by (cases v; simp)+

interpretation sqlite_journal: observed_journal "sqlite_observer re" listed "db_ok re" normal for re
proof (unfold_locales, goal_cases)
  case (1 f)
  then show ?case by (auto simp: sqlite_observer_def db_ok_def db_events_def)
next
  case (6 cp m f r g)
  then obtain s where s: "obs_ok re s" "f = db_of s" by (auto simp: db_ok_def)
  obtain t where "obs_record_checkpoint re cp s = (r, t)" "g = db_of t"
    using 6 s db_checkpoint_refines [OF s(1) 6(1)] by (cases "obs_record_checkpoint re cp s") (auto simp: sqlite_observer_def sqlite_gate_def)
  then show ?case
    using obs_checkpoint_ok [OF s(1) 6(1)] obs_checkpoint_cases [OF s(1) 6(1)] s(2) by (fastforce simp: db_ok_def)
qed (auto simp: sqlite_observer_def sqlite_gate_def db_append_writes db_pair_writes db_once_writes fld_normal normal_text)

end
