(* ===== verification/Observed_Actions.thy ===== *)
theory Observed_Actions
  imports Observed_Facts
begin

text \<open>
  What one call of an observed run does. The lemmas unfold the common scheme once: a call that is refused
  has recorded and dispatched nothing, any other has recorded its intent before the dispatch.
\<close>

section \<open>Parts that only use the sources\<close>

definition env_only :: "('e observed_run, 'a) eff \<Rightarrow> bool" where
  "env_only m \<longleftrightarrow> (\<forall>r. \<exists>e. snd (m r) = r\<lparr>run_env := e\<rparr>)"

lemma env_onlyD: "env_only m \<Longrightarrow> m r = (x, q) \<Longrightarrow> \<exists>e. q = r\<lparr>run_env := e\<rparr>"
  unfolding env_only_def by (metis snd_conv)

lemma env_onlyI: "(\<And>r x q. m r = (x, q) \<Longrightarrow> \<exists>e. q = r\<lparr>run_env := e\<rparr>) \<Longrightarrow> env_only m"
  unfolding env_only_def by (metis prod.collapse)

lemma same_env [simp]: "\<exists>e. r = r\<lparr>run_env := e\<rparr>"
  by (rule exI [of _ "run_env r"]) simp

lemma env_only_return [simp]: "env_only (eret x)" "env_only (elift y)" "env_only (\<lambda>r. (f r, r))"
  unfolding env_only_def by simp_all

lemma env_only_ebind:
  assumes "env_only m" "\<And>x. env_only (f x)"
  shows "env_only (ebind m f)"
proof (rule env_onlyI)
  fix r y q assume run: "ebind m f r = (y, q)"
  obtain x u where u: "m r = (x, u)" by fastforce
  obtain e where e: "u = r\<lparr>run_env := e\<rparr>" using env_onlyD [OF assms(1) u] by blast
  show "\<exists>e. q = r\<lparr>run_env := e\<rparr>"
  proof (cases x)
    case (Inr v)
    then have "f v u = (y, q)" using run u by (simp add: ebind_def)
    then show ?thesis using env_onlyD [OF assms(2)] e by fastforce
  qed (use run u e in \<open>auto simp: ebind_def\<close>)
qed

lemma env_only_eunless: "env_only m \<Longrightarrow> env_only (eunless b e m)"
  unfolding eunless_def env_only_def by auto

lemma env_only_on_env [simp]: "env_only (on_env m)"
  by (rule env_onlyI) (auto simp: on_env_def split: prod.splits)

lemma env_only_next_id [simp]: "env_only (next_id src)"
  unfolding next_id_def by (intro env_only_ebind env_only_eunless) simp_all

lemma env_only_timestamp [simp]: "env_only (run_timestamp src)"
  unfolding run_timestamp_def by (intro env_only_ebind) simp_all

lemma env_only_base [simp]: "env_only (base_event src t i a)"
proof (rule env_onlyI)
  fix r x q assume run: "base_event src t i a r = (x, q)"
  have "env_only (ebind (run_timestamp src) (\<lambda>tm. eret (event_base t i a tm r)))"
    by (intro env_only_ebind) simp_all
  moreover have "(\<exists>e. q = r\<lparr>run_env := e\<rparr>) \<or> ebind (run_timestamp src) (\<lambda>tm. eret (event_base t i a tm r)) r = (x, q)"
    using run env_only_return(1) [THEN env_onlyD, of "()" r] by (auto simp: base_event_def eunless_def split: if_splits)
  ultimately show "\<exists>e. q = r\<lparr>run_env := e\<rparr>" using env_onlyD by blast
qed

lemma env_only_fresh_ids [simp]: "env_only (fresh_ids src)"
  unfolding fresh_ids_def by (intro env_only_ebind) simp_all

lemma env_only_claim_ids [simp]: "env_only claim_ids"
  by (rule env_onlyI) (auto simp: claim_ids_def eunless_def Let_def split: if_splits)

lemma env_only_open_call: "env_only ids \<Longrightarrow> env_only (open_call src spec ids)"
  unfolding open_call_def by (intro env_only_ebind) (auto intro!: env_only_ebind split: prod.splits)

section \<open>The records of a call\<close>

definition intent_record :: "call_spec \<Rightarrow> string \<Rightarrow> string \<Rightarrow> string \<Rightarrow> string \<Rightarrow> 'e observed_run \<Rightarrow> pyval" where
  "intent_record spec cid iid eid tm r =
     PDict (event_base (call_event spec) eid (call_agent spec) tm r @ intent_fields spec cid iid r)"

lemma same_records [simp]:
  "event_base t i a tm (r\<lparr>run_env := e\<rparr>) = event_base t i a tm r"
  "checkpoint_record spec c tm (r\<lparr>run_env := e\<rparr>) = checkpoint_record spec c tm r"
  "intent_fields spec c i (r\<lparr>run_env := e\<rparr>) = intent_fields spec c i r"
  "intent_record spec c i eid tm (r\<lparr>run_env := e\<rparr>) = intent_record spec c i eid tm r"
  by (simp_all add: event_base_def checkpoint_record_def intent_fields_def intent_record_def)

lemma base_event_Inr:
  assumes "base_event src t i a r = (Inr b, q)"
  obtains tm where "b = event_base t i a tm r" "run_finished r \<Longrightarrow> t = ''run_finished''"
    "run_agent_finished r \<Longrightarrow> t \<in> {''agent_finished'', ''run_finished''}"
  using assms by (auto simp: base_event_def)

lemma open_call_Inr:
  assumes "open_call src spec ids r = (Inr (cp, ev, iid, eid), q)" "env_only ids"
  obtains cid tm tm' where "cp = checkpoint_record spec cid tm r" "ev = intent_record spec cid iid eid tm' r"
    "run_finished r \<Longrightarrow> call_event spec = ''run_finished''"
    "run_agent_finished r \<Longrightarrow> call_event spec \<in> {''agent_finished'', ''run_finished''}"
proof -
  from assms(1) obtain cid r1 tm r2 b where
    1: "ids r = (Inr (cid, iid, eid), r1)" "run_timestamp src r1 = (Inr tm, r2)"
      "base_event src (call_event spec) eid (call_agent spec) r2 = (Inr b, q)"
      "cp = checkpoint_record spec cid tm q" "ev = PDict (b @ intent_fields spec cid iid q)"
    by (auto simp: open_call_def split: prod.splits)
  obtain e1 where r1: "r1 = r\<lparr>run_env := e1\<rparr>" using env_onlyD [OF assms(2) 1(1)] by blast
  obtain e2 where r2: "r2 = r1\<lparr>run_env := e2\<rparr>" using env_onlyD [OF env_only_timestamp 1(2)] by blast
  obtain e3 where q: "q = r2\<lparr>run_env := e3\<rparr>" using env_onlyD [OF env_only_base 1(3)] by blast
  have same: "event_base t i a tm r2 = event_base t i a tm r" "checkpoint_record spec c tm q = checkpoint_record spec c tm r"
    "intent_fields spec c i q = intent_fields spec c i r" "run_finished r2 = run_finished r"
    "run_agent_finished r2 = run_agent_finished r" for t i a tm c
    by (simp_all add: q r2 r1)
  obtain tm' where tm': "b = event_base (call_event spec) eid (call_agent spec) tm' r2"
    "run_finished r2 \<Longrightarrow> call_event spec = ''run_finished''"
    "run_agent_finished r2 \<Longrightarrow> call_event spec \<in> {''agent_finished'', ''run_finished''}"
    using base_event_Inr [OF 1(3)] by blast
  show ?thesis
    by (rule that [of cid tm tm']) (use tm' 1(4,5) same in \<open>simp_all add: intent_record_def\<close>)
qed

lemma call_values [simp]:
  "json_value (checkpoint_record spec cid tm r)" "json_value (intent_record spec cid iid eid tm r)"
  by (simp_all add: checkpoint_record_def intent_record_def event_base_def intent_fields_def opt_str_def opt_int_def
      split: option.splits)

section \<open>The gate with a captured dispatch\<close>

lemma dispatch_captured:
  assumes "gs_append g \<noteq> None" "gs_record g \<noteq> None"
  shows "run_gated_dispatch g cp ev (Some (captured d)) once (Some cb) z =
    (case gate_records g once cp ev cb z of
       (Inl e, y) \<Rightarrow> (Inl (gated e), y)
     | (Inr c, y) \<Rightarrow> (case d y of (x, y') \<Rightarrow> (Inr (c, x), y')))"
proof -
  obtain a y where a: "gate_records g once cp ev cb z = (a, y)" by (meson surj_pair)
  obtain x y' where d: "d y = (x, y')" by (meson surj_pair)
  show ?thesis using assms a d
    by (cases once; cases a) (auto simp: run_gated_dispatch_def eunless_def ebind_def ecatch_def captured_def Let_def)
qed

lemma gate_callback:
  "gate_records g once cp ev (Some f) z =
    (case gate_records g once cp ev None z of
       (Inl e, y) \<Rightarrow> (Inl e, y)
     | (Inr c, (t, v)) \<Rightarrow> (case f c v of (Inl e, v') \<Rightarrow> (Inl e, (t, v')) | (Inr _, v') \<Rightarrow> (Inr c, (t, v'))))"
  unfolding gate_records_def
  by (auto simp: ebind_def on_world_def split: prod.splits sum.splits)

definition noted :: "string \<Rightarrow> int \<Rightarrow> 'e observed_run \<Rightarrow> 'e observed_run" where
  "noted eid c r = r\<lparr>run_last_event := Some eid, run_last_cursor := Some c, run_sequence := run_sequence r + 1\<rparr>"

lemma note_event_noted: "note_event eid c r = (Inr (), noted eid c r)"
  by (simp add: note_event_def noted_def)

lemma note_world_noted: "note_world eid c (r, w) = (Inr (), (noted eid c r, w))"
  by (simp add: note_world_def note_event_noted)

context observed_journal
begin

lemma gate_writes:
  assumes "json_value cp" "json_value ev" "ok s" "gate_records (ost_gate st) once cp ev None (s, v) = (x, z)"
  shows "\<exists>t. z = (t, v) \<and> ok t \<and> (evs t = evs s \<or> evs t = evs s @ [view ev] \<and> is_ok x) \<and> (is_ok x \<longrightarrow> recorded (evs t) ev)"
proof -
  have one: "\<exists>t. y = (t, v) \<and> ok t \<and> (evs t = evs s \<or> evs t = evs s @ [view ev] \<and> is_ok a) \<and> (is_ok a \<longrightarrow> recorded (evs t) ev)"
    if "writes ok evs view ev m" "on_store m (s, v) = (a, y)" "ok s" for m s a y
    using that writesD [OF that(1,3)] by (auto simp: on_store_def split: prod.splits)
  have simp1: "ebind m eret p = m p" for m :: "('s \<times> 'v, int) eff" and p
    by (cases "m p") (auto simp: ebind_def split: sum.splits)
  obtain f where f: "gs_append (ost_gate st) = Some f" using methods(1) by blast
  obtain k where k: "gs_record (ost_gate st) = Some k" using methods(2) by blast
  obtain g where g: "gs_once (ost_gate st) = Some g" using methods(3) by blast
  show ?thesis
  proof (cases once)
    case True
    then show ?thesis using assms one [OF once_writes [OF assms(1,2) g] _ assms(3)] g by (simp add: gate_records_def simp1)
  next
    case False
    show ?thesis
    proof (cases "gs_pair (ost_gate st)")
      case (Some h)
      then show ?thesis using assms False one [OF pair_writes [OF assms(1,2) Some] _ assms(3)] by (simp add: gate_records_def simp1)
    next
      case None
      obtain a u where u: "k cp s = (a, u)" by fastforce
      then have "ok u" "evs u = evs s" using record_keeps [OF assms(1) k assms(3)] by auto
      then show ?thesis
        using assms(4) False None f k u one [OF append_writes [OF assms(2) f], of u x z]
        by (cases a; cases "f ev u") (auto simp: gate_records_def simp1 ebind_def on_store_def split: sum.splits)
    qed
  qed
qed

lemma gated_call_cases:
  assumes run: "gated_call src st spec ids reserve once refuse d settle (s, r, w) = (x, z)"
    and ok: "ok s" and ids: "env_only ids" and refuse: "\<And>e y. \<exists>e' y'. refuse e y = (Inl e', y')"
  obtains
    (closed) e e' where "x = Inl e" "z = (s, r\<lparr>run_env := e'\<rparr>, w)"
  | (refused) e e' err t where "x = Inl e" "ok t" "evs t = evs s" "refuse err (t, r\<lparr>run_env := e'\<rparr>, w) = (Inl e, z)"
      "run_finished r \<longrightarrow> call_event spec = ''run_finished''"
      "run_agent_finished r \<longrightarrow> call_event spec \<in> {''agent_finished'', ''run_finished''}"
  | (called) cid iid eid tm e' t c y u q v b
    where "ok t" "evs t = evs s \<or> evs t = evs s @ [view (intent_record spec cid iid eid tm r)]"
      "recorded (evs t) (intent_record spec cid iid eid tm r)"
      "run_finished r \<longrightarrow> call_event spec = ''run_finished''"
      "run_agent_finished r \<longrightarrow> call_event spec \<in> {''agent_finished'', ''run_finished''}"
      "d (t, if reserve then noted eid c (r\<lparr>run_env := e'\<rparr>) else r\<lparr>run_env := e'\<rparr>, w) = (y, (u, q, v))"
      "settle iid eid y (u, if reserve then q else noted eid c q, v) = (b, z)"
      "x = (case b of Inl e \<Rightarrow> Inl e | Inr _ \<Rightarrow> Inr y)"
proof -
  obtain a q0 where a: "open_call src spec ids r = (a, q0)" by fastforce
  obtain e0 where q0: "q0 = r\<lparr>run_env := e0\<rparr>" using env_onlyD [OF env_only_open_call [OF ids] a] by blast
  show ?thesis
  proof (cases a)
    case (Inl e)
    then have "x = Inl e \<and> z = (s, r\<lparr>run_env := e0\<rparr>, w)" using run a q0 by (simp add: gated_call_def ebind_def on_run_def)
    then show ?thesis using closed by blast
  next
    case (Inr rec)
    obtain cp ev iid eid where rec: "rec = (cp, ev, iid, eid)" by (cases rec) auto
    obtain cid tm tm' where rec': "cp = checkpoint_record spec cid tm r" "ev = intent_record spec cid iid eid tm' r"
      "run_finished r \<longrightarrow> call_event spec = ''run_finished''"
      "run_agent_finished r \<longrightarrow> call_event spec \<in> {''agent_finished'', ''run_finished''}"
      using open_call_Inr [OF a [unfolded Inr rec] ids] by blast
    let ?cb = "if reserve then Some (note_world eid) else None"
    obtain g y0 where g: "gate_records (ost_gate st) once cp ev None (s, (q0, w)) = (g, y0)" by (meson surj_pair)
    obtain t where t: "y0 = (t, (q0, w))" "ok t" "evs t = evs s \<or> evs t = evs s @ [view ev] \<and> is_ok g"
      "is_ok g \<longrightarrow> recorded (evs t) ev"
      using gate_writes [OF _ _ ok g] rec' by auto
    have cb: "gate_records (ost_gate st) once cp ev ?cb (s, (q0, w)) =
        (g, (t, (if reserve \<and> is_ok g then noted eid (case g of Inr c \<Rightarrow> c | Inl _ \<Rightarrow> 0) q0 else q0, w)))"
      using g t(1) by (cases g) (auto simp: gate_callback note_world_noted)
    note body = gated_call_def dispatch_captured [OF methods(1,2)]
    show ?thesis
    proof (cases g)
      case (Inl e)
      obtain e1 z1 where z1: "refuse (gated e) (t, (q0, w)) = (Inl e1, z1)" using refuse by blast
      have "x = Inl e1 \<and> z = z1"
        using run a Inr rec cb Inl z1 by (simp add: body ebind_def on_run_def ecatch_def)
      then show ?thesis using refused [of e1 t "gated e" e0] t Inl z1 q0 rec'(3,4) by auto
    next
      case (Inr c)
      let ?q = "if reserve then noted eid c q0 else q0"
      obtain y z2 where d: "d (t, (?q, w)) = (y, z2)" by (meson surj_pair)
      obtain u q v where z2: "z2 = (u, q, v)" by (cases z2) auto
      obtain b z3 where b: "settle iid eid y (u, if reserve then q else noted eid c q, v) = (b, z3)" by (meson surj_pair)
      have "x = (case b of Inl e \<Rightarrow> Inl e | Inr _ \<Rightarrow> Inr y) \<and> z = z3"
        using run a \<open>a = Inr rec\<close> rec cb Inr d z2 b
        by (cases reserve; cases b) (auto simp: body ebind_def on_run_def ecatch_def note_event_noted)
      then have xz: "x = (case b of Inl e \<Rightarrow> Inl e | Inr _ \<Rightarrow> Inr y)" "z = z3" by simp_all
      have ok2: "ok t" "evs t = evs s \<or> evs t = evs s @ [view (intent_record spec cid iid eid tm' r)]"
        "recorded (evs t) (intent_record spec cid iid eid tm' r)"
        using t Inr rec' by auto
      show ?thesis
        by (rule called [OF ok2 rec'(3,4) d [unfolded z2 q0] b [folded xz(2)] xz(1)])
    qed
  qed
qed

end

section \<open>The answer of a call\<close>

text \<open>Fields that complete an event: their keys are new and their values JSON.\<close>

definition answer_fields_ok :: "fields \<Rightarrow> bool" where
  "answer_fields_ok fs \<longleftrightarrow> json_value (PDict fs) \<and>
     set (map fst fs) \<inter> set (map fst (event_base [] [] [] [] (initial_run [] [] ()))) = {}"

lemma event_keys: "map fst (event_base t i a tm r) = map fst (event_base [] [] [] [] (initial_run [] [] ()))"
  by (simp add: event_base_def)

lemma event_json: "json_value (PDict (event_base t i a tm r))"
  by (simp add: event_base_def)

lemma answer_json: "answer_fields_ok fs \<Longrightarrow> json_value (PDict (event_base t i a tm r @ fs))"
  using event_json [of t i a tm r] event_keys [of t i a tm r]
  by (auto simp: answer_fields_ok_def simp del: set_map)

context observed_journal
begin

lemma append_event_cases:
  assumes run: "append_event st lost i (event_base et i agent tm r @ fs) (s, r\<lparr>run_env := e\<rparr>, w) = (x, z)"
    and ok: "ok s" and fs: "answer_fields_ok fs"
  obtains (lost) t where "x = Inl lost" "z = (t, r\<lparr>run_env := e\<rparr>, w)" "ok t" "evs t = evs s"
  | (stored) t c where "x = Inr ()" "z = (t, noted i c (r\<lparr>run_env := e\<rparr>), w)" "ok t"
      "evs t = evs s \<or> evs t = evs s @ [view (PDict (event_base et i agent tm r @ fs))]"
      "recorded (evs t) (PDict (event_base et i agent tm r @ fs))"
proof -
  obtain f where f: "gs_append (ost_gate st) = Some f" using methods(1) by blast
  let ?ev = "PDict (event_base et i agent tm r @ fs)"
  obtain a t where a: "f ?ev s = (a, t)" by fastforce
  note wr = writesD [OF append_writes [OF answer_json [OF fs] f] ok a]
  show ?thesis
  proof (cases a)
    case (Inl e')
    then have "x = Inl lost \<and> z = (t, r\<lparr>run_env := e\<rparr>, w)"
      using run f a by (simp add: append_event_def ebind_def ecatch_def on_store_def)
    then show ?thesis using lost wr Inl by auto
  next
    case (Inr c)
    then have "x = Inr () \<and> z = (t, noted i c (r\<lparr>run_env := e\<rparr>), w)"
      using run f a by (simp add: append_event_def ebind_def ecatch_def on_store_def on_run_def note_event_noted)
    then show ?thesis using stored wr Inr by auto
  qed
qed

lemma record_answer_cases:
  assumes run: "record_answer src st lost agent (et, fs) (s, r, w) = (x, z)"
    and ok: "ok s" and fs: "answer_fields_ok fs"
  obtains (failed) t e e' where "x = Inl e" "z = (t, r\<lparr>run_env := e'\<rparr>, w)" "ok t" "evs t = evs s"
  | (stored) t i tm c e' where "x = Inr ()" "z = (t, noted i c (r\<lparr>run_env := e'\<rparr>), w)" "ok t"
      "evs t = evs s \<or> evs t = evs s @ [view (PDict (event_base et i agent tm r @ fs))]"
      "recorded (evs t) (PDict (event_base et i agent tm r @ fs))"
      "run_finished r \<longrightarrow> et = ''run_finished''" "run_agent_finished r \<longrightarrow> et \<in> {''agent_finished'', ''run_finished''}"
proof -
  obtain a r1 where a: "next_id src r = (a, r1)" by fastforce
  obtain e1 where r1: "r1 = r\<lparr>run_env := e1\<rparr>" using env_onlyD [OF env_only_next_id a] by blast
  show ?thesis
  proof (cases a)
    case (Inl e)
    then have "x = Inl e \<and> z = (s, r\<lparr>run_env := e1\<rparr>, w)"
      using run a r1 by (simp add: record_answer_def ebind_def on_run_def)
    then show ?thesis using failed ok by blast
  next
    case (Inr n)
    obtain b r2 where b: "base_event src et (''event-'' @ n) agent r1 = (b, r2)" by fastforce
    obtain e2 where r2: "r2 = r\<lparr>run_env := e2\<rparr>" using env_onlyD [OF env_only_base b] r1 by auto
    show ?thesis
    proof (cases b)
      case (Inl e)
      then have "x = Inl e \<and> z = (s, r\<lparr>run_env := e2\<rparr>, w)"
        using run a b r2 Inr by (simp add: record_answer_def ebind_def on_run_def)
      then show ?thesis using failed ok by blast
    next
      case (Inr base)
      obtain tm where base: "base = event_base et (''event-'' @ n) agent tm r1"
        and opens: "run_finished r1 \<Longrightarrow> et = ''run_finished''" "run_agent_finished r1 \<Longrightarrow> et \<in> {''agent_finished'', ''run_finished''}"
        using base_event_Inr [OF b [unfolded Inr]] by blast
      then have base: "base = event_base et (''event-'' @ n) agent tm r" by (simp add: r1)
      have unfinished: "run_finished r \<longrightarrow> et = ''run_finished''" "run_agent_finished r \<longrightarrow> et \<in> {''agent_finished'', ''run_finished''}"
        using opens by (simp_all add: r1)
      have "append_event st lost (''event-'' @ n) (event_base et (''event-'' @ n) agent tm r @ fs) (s, r\<lparr>run_env := e2\<rparr>, w) = (x, z)"
        using run a b r2 Inr base \<open>a = Inr n\<close> by (simp add: record_answer_def ebind_def on_run_def)
      then show ?thesis by (rule append_event_cases [OF _ ok fs]) (use failed stored unfinished in blast)+
    qed
  qed
qed

end

end
