(* ===== verification/Effect_Relations.thy ===== *)
theory Effect_Relations
  imports Py_Prelude
begin

text \<open>
  Relations between the states before and after an effect: for a preorder they follow the structure of the program.
\<close>

section \<open>Relations an effect keeps\<close>

text \<open>\<open>related R m\<close>: every execution of \<open>m\<close> takes its state to a related one. For a preorder it follows the
  structure of the program.\<close>

definition related :: "('z \<Rightarrow> 'z \<Rightarrow> bool) \<Rightarrow> ('z, 'a) eff \<Rightarrow> bool" where
  "related R m \<longleftrightarrow> (\<forall>z. R z (snd (m z)))"

lemma relatedI: "(\<And>z x y. m z = (x, y) \<Longrightarrow> R z y) \<Longrightarrow> related R m"
  unfolding related_def by (metis prod.collapse)

lemma relatedD: "related R m \<Longrightarrow> m z = (x, y) \<Longrightarrow> R z y"
  unfolding related_def by (metis snd_conv)

locale preorder_rel =
  fixes R :: "'z \<Rightarrow> 'z \<Rightarrow> bool"
  assumes reflexive: "R z z" and transitive: "R x y \<Longrightarrow> R y z \<Longrightarrow> R x z"
begin

lemma related_elift: "related R (elift x)"
  by (simp add: related_def reflexive)

lemma related_eret: "related R (eret x)"
  by (simp add: related_def reflexive)

lemma related_ebind:
  assumes "related R m" "\<And>x. related R (f x)"
  shows "related R (ebind m f)"
proof (rule relatedI)
  fix z y u assume run: "ebind m f z = (y, u)"
  obtain x v where v: "m z = (x, v)" by (meson surj_pair)
  then have zv: "R z v" by (rule relatedD [OF assms(1)])
  show "R z u"
  proof (cases x)
    case (Inr a)
    then have "f a v = (y, u)" using run v by (simp add: ebind_def)
    then show ?thesis using transitive [OF zv relatedD [OF assms(2)]] by blast
  qed (use run v zv in \<open>simp add: ebind_def\<close>)
qed

lemma related_ecatch:
  assumes "related R m" "\<And>e. related R (h e)"
  shows "related R (ecatch m h)"
proof (rule relatedI)
  fix z y u assume run: "ecatch m h z = (y, u)"
  obtain x v where v: "m z = (x, v)" by (meson surj_pair)
  then have zv: "R z v" by (rule relatedD [OF assms(1)])
  show "R z u"
  proof (cases x)
    case (Inl e)
    then have "h e v = (y, u)" using run v by (simp add: ecatch_def)
    then show ?thesis using transitive [OF zv relatedD [OF assms(2)]] by blast
  qed (use run v zv in \<open>simp add: ecatch_def\<close>)
qed

lemma related_eunless: "(\<not> b \<Longrightarrow> related R m) \<Longrightarrow> related R (eunless b e m)"
  by (auto simp: related_def eunless_def reflexive)

end

end
