(* ===== verification/Observed_Safety.thy ===== *)
theory Observed_Safety
  imports Observed_Actions Effect_Relations "HOL-Library.Sublist"
begin

text \<open>
  Whole programs over an observed run. \<open>run_program\<close> is any program built from the journaled operations by
  sequencing and handling; the dispatches of a proposal and of the composed publication are such programs
  themselves, every other dispatch only acts on the world outside. Whatever such a program does, the
  journal only grows, the events of the run stay in the order of their sequence numbers, and a run
  that is over records and dispatches nothing.
\<close>

section \<open>Programs over a run\<close>

definition plainly :: "(('s, 'e, 'w) run_state, 'a) eff \<Rightarrow> bool" where
  "plainly m \<longleftrightarrow> (\<forall>s r w. \<exists>v. snd (m (s, r, w)) = (s, r, v))"

definition closes_plainly :: "(('s, 'e, 'w) run_state, ('s, 'e, 'w) run_state sandbox_session) eff \<Rightarrow> bool" where
  "closes_plainly m \<longleftrightarrow> plainly m \<and> (\<forall>z session close. fst (m z) = Inr session \<longrightarrow> sb_close session = Some close \<longrightarrow> plainly close)"

text \<open>
  An operation with another type of result is followed by a function of its result.
\<close>

inductive run_program :: "'e run_sources \<Rightarrow> 's observer_store \<Rightarrow> (('s, 'e, 'w) run_state, 'v) eff \<Rightarrow> bool"
  for src :: "'e run_sources" and st :: "'s observer_store" where
  Done: "run_program src st (elift x)"
| Sequence: "run_program src st m \<Longrightarrow> (\<And>x. run_program src st (f x)) \<Longrightarrow>
    run_program src st (ebind m f)"
| Handle: "run_program src st m \<Longrightarrow> (\<And>e. run_program src st (h e)) \<Longrightarrow>
    run_program src st (ecatch m h)"
| Start: "run_program src st (ebind (start_run src st causal) (\<lambda>u. elift (g u)))"
| Propose: "run_program src st d \<Longrightarrow> run_program src st (journaled_propose src st outcome p t d)"
| Verify: "plainly d \<Longrightarrow> run_program src st (invoke_verifier src st (Some d))"
| Stage: "plainly d \<Longrightarrow> run_program src st (invoke_stage src st operation d)"
| Source: "plainly d \<Longrightarrow> run_program src st (invoke_source src st tool (Some d))"
| Pin: "run_program src st (ebind (record_pin_decision src st accepted) (\<lambda>b. elift (g b)))"
| Authorize: "plainly c \<Longrightarrow> run_program src st (ebind (record_authorization src st (Some c)) (\<lambda>b. elift (g b)))"
| Command: "plainly k \<Longrightarrow> run_program src st (ebind (invoke_sandbox_run src st probe purpose argv k) (\<lambda>x. elift (g x)))"
| Create: "closes_plainly k \<Longrightarrow> run_program src st (ebind (invoke_create src st purpose k) (\<lambda>x. elift (g x)))"
| Close: "plainly c \<Longrightarrow> run_program src st (ebind (invoke_close src st purpose (Some c)) (\<lambda>u. elift (g u)))"
| Step: "plainly d \<Longrightarrow> run_program src st (run_controlled_step src st step p (Some d))"
| Mock: "run_program src st d \<Longrightarrow> run_program src st (run_local_mock_publication src st p (Some d))"
| Finish_Invocation: "run_program src st (ebind (finish_agent_invocation src st status) (\<lambda>u. elift (g u)))"
| Finish: "run_program src st (ebind (finish_run src st status) (\<lambda>u. elift (g u)))"

section \<open>Relations an effect keeps\<close>

context preorder_rel begin

lemma related_unless_of: "related R m \<Longrightarrow> related R (unless_of classes e m)"
  unfolding unless_of_def by (intro related_ecatch related_elift)

lemma related_or_failed: "related R (or_failed e x)"
  by (simp add: or_failed_def related_elift)

end

lemma related_with_run: "(\<And>r. related R (f r)) \<Longrightarrow> related R (with_run f)"
  by (auto simp: related_def with_run_def)

lemma related_if: "related R m \<Longrightarrow> related R n \<Longrightarrow> related R (if b then m else n)"
  by simp

lemma related_weaken: "related R m \<Longrightarrow> (\<And>z y. R z y \<Longrightarrow> S z y) \<Longrightarrow> related S m"
  by (auto simp: related_def)

section \<open>Progress of a run\<close>

definition seq_of :: "pyval \<Rightarrow> int" where
  "seq_of e = int_of (fld e ''sequence'')"

text \<open>The events of the run are in the order of their sequence numbers, which are all used up.\<close>

definition run_ordered :: "pyval list \<Rightarrow> 'e observed_run \<Rightarrow> bool" where
  "run_ordered es r \<longleftrightarrow> sorted_wrt (<) (map seq_of (filter (of_run r) es)) \<and>
     (\<forall>e\<in>set es. of_run r e \<longrightarrow> seq_of e < run_sequence r)"

definition same_identity :: "'e observed_run \<Rightarrow> 'e observed_run \<Rightarrow> bool" where
  "same_identity r q \<longleftrightarrow> run_id q = run_id r \<and> run_process q = run_process r \<and> run_task q = run_task r \<and>
     run_branch q = run_branch r \<and> run_sequence r \<le> run_sequence q"

text \<open>With \<open>lax\<close> a run that is over may still touch the world.\<close>

definition run_progress :: "bool \<Rightarrow> ('s \<Rightarrow> pyval list) \<Rightarrow> ('s \<Rightarrow> bool) \<Rightarrow> ('s, 'e, 'w) run_state \<Rightarrow> ('s, 'e, 'w) run_state \<Rightarrow> bool" where
  "run_progress lax evs ok z y = (case (z, y) of ((s, r, w), (t, q, v)) \<Rightarrow> ok s \<longrightarrow>
     ok t \<and> prefix (evs s) (evs t) \<and> same_identity r q \<and>
     (run_ordered (evs s) r \<longrightarrow> run_ordered (evs t) q) \<and>
     (run_agent_finished r \<longrightarrow> run_agent_finished q \<and> (lax \<or> v = w)) \<and>
     (run_finished r \<longrightarrow> run_finished q \<and> evs t = evs s \<and> (lax \<or> v = w)))"

interpretation progress: preorder_rel "run_progress lax evs ok" for lax evs ok
  by unfold_locales (auto simp: run_progress_def same_identity_def split: prod.splits)

text \<open>What the relation says of a run depends on these parts of it only.\<close>

lemma of_run_same: "run_id q = run_id r \<Longrightarrow> of_run q = of_run r"
  by (simp add: of_run_def fun_eq_iff)

lemma run_ordered_later:
  "run_id q = run_id r \<Longrightarrow> run_sequence r \<le> run_sequence q \<Longrightarrow> run_ordered es r \<Longrightarrow> run_ordered es q"
  using of_run_same [of q r] by (force simp: run_ordered_def)

lemma run_ordered_snoc:
  assumes "run_ordered es r" "of_run r e" "seq_of e = run_sequence r" "run_id q = run_id r" "run_sequence r < run_sequence q"
  shows "run_ordered (es @ [e]) q"
  using assms(1-3,5) of_run_same [OF assms(4)] by (force simp: run_ordered_def sorted_wrt_append)

lemma noted_run [simp]:
  "run_id (noted i c r) = run_id r" "run_process (noted i c r) = run_process r" "run_task (noted i c r) = run_task r"
  "run_branch (noted i c r) = run_branch r" "run_sequence (noted i c r) = run_sequence r + 1"
  "run_finished (noted i c r) = run_finished r" "run_agent_finished (noted i c r) = run_agent_finished r"
  by (simp_all add: noted_def)

lemma progress_silent:
  assumes "ok s \<Longrightarrow> ok t \<and> evs t = evs s" "same_identity r q" "run_finished r \<longrightarrow> run_finished q"
    "run_agent_finished r \<longrightarrow> run_agent_finished q"
    "v = w \<or> lax \<or> \<not> run_finished r \<and> \<not> run_agent_finished r"
  shows "run_progress lax evs ok (s, r, w) (t, q, v)"
  using assms run_ordered_later [of q r] by (auto simp: run_progress_def same_identity_def)

lemma progress_lax: "run_progress c evs ok z y \<Longrightarrow> run_progress True evs ok z y"
  by (auto simp: run_progress_def split: prod.splits)

lemma progress_open:
  "\<not> run_finished r \<Longrightarrow> \<not> run_agent_finished r \<Longrightarrow> run_progress True evs ok (s, r, w) y \<Longrightarrow> run_progress c evs ok (s, r, w) y"
  by (auto simp: run_progress_def split: prod.splits)

lemma related_plainly: "plainly m \<Longrightarrow> related (run_progress True evs ok) m"
proof (rule relatedI, goal_cases)
  case (1 z x y)
  obtain s r w where z: "z = (s, r, w)" by (cases z)
  then obtain v where "y = (s, r, v)" using 1 unfolding plainly_def by (metis snd_conv)
  then show ?case using z by (auto intro!: progress_silent simp: same_identity_def)
qed

lemma related_set_run:
  assumes "\<And>r. same_identity r (f r)" "\<And>r. run_finished r \<longrightarrow> run_finished (f r)"
    "\<And>r. run_agent_finished r \<longrightarrow> run_agent_finished (f r)"
  shows "related (run_progress lax evs ok) (set_run f)"
  using assms by (auto simp: related_def set_run_def on_run_def intro!: progress_silent)

lemma env_same [simp]: "same_identity r (r\<lparr>run_env := e\<rparr>)"
  by (simp add: same_identity_def)

lemma related_on_run:
  assumes "env_only m"
  shows "related (run_progress lax evs ok) (on_run m)"
  unfolding related_def
proof (rule allI, goal_cases)
  case (1 z)
  show ?case
  proof (cases z)
    case (fields s r w)
    obtain x q where q: "m r = (x, q)" by fastforce
    obtain e where "q = r\<lparr>run_env := e\<rparr>" using env_onlyD [OF assms q] by blast
    then show ?thesis using fields q by (auto simp: on_run_def intro!: progress_silent)
  qed
qed

text \<open>The intent of a call is no end of a run.\<close>

definition call_open :: "call_spec \<Rightarrow> bool" where
  "call_open spec \<longleftrightarrow> call_event spec \<notin> {''agent_finished'', ''run_finished''}"

context observed_journal
begin

abbreviation keeps :: "bool \<Rightarrow> (('s, 'e, 'w) run_state, 'b) eff \<Rightarrow> bool" where
  "keeps lax m \<equiv> related (run_progress lax evs ok) m"

text \<open>An event of the run with the next number, appended while the run is not over.\<close>

definition of_next :: "'e observed_run \<Rightarrow> pyval \<Rightarrow> bool" where
  "of_next r e \<longleftrightarrow> of_run r (view e) \<and> seq_of (view e) = run_sequence r"

lemma base_of_next: "json_value (PDict (event_base et i a tm r @ fs)) \<Longrightarrow> of_next r (PDict (event_base et i a tm r @ fs))"
proof -
  assume j: "json_value (PDict (event_base et i a tm r @ fs))"
  have "fld (PDict (event_base et i a tm r @ fs)) ''run_id'' = PStr (run_id r)"
    "fld (PDict (event_base et i a tm r @ fs)) ''sequence'' = PInt (run_sequence r)"
    by (simp_all add: event_base_def)
  then have "fld (view (PDict (event_base et i a tm r @ fs))) ''run_id'' = PStr (run_id r)"
    "fld (view (PDict (event_base et i a tm r @ fs))) ''sequence'' = PInt (run_sequence r)"
    unfolding view_fld [OF j] using view_text(1,3) by metis+
  then show ?thesis by (simp only: of_next_def of_run_def seq_of_def int_of.simps)
qed

lemma progress_appended:
  assumes "ok t" "evs t = evs s \<or> evs t = evs s @ [view e]" "of_next r e"
    "same_identity r q" "run_sequence r < run_sequence q" "\<not> run_finished r"
    "run_agent_finished r \<longrightarrow> run_agent_finished q \<and> (lax \<or> v = w)"
  shows "run_progress lax evs ok (s, r, w) (t, q, v)"
  using assms run_ordered_snoc [of "evs s" r "view e" q] run_ordered_later [of q r]
  by (auto simp: run_progress_def same_identity_def of_next_def)

lemma gated_call_keeps:
  assumes ids: "env_only ids" and spec: "call_open spec"
    and refuse: "\<And>e y. \<exists>e' y'. refuse e y = (Inl e', y')" "\<And>e. keeps True (refuse e)"
    and d: "if reserve then keeps True d else plainly d"
    and settle: "\<And>i e x z. fst (d z) = x \<Longrightarrow> keeps True (settle i e x)"
  shows "keeps lax (gated_call src st spec ids reserve once refuse d settle)"
proof (rule relatedI, clarify)
  fix s r w x t q v
  assume run: "gated_call src st spec ids reserve once refuse d settle (s, r, w) = (x, (t, q, v))"
  show "run_progress lax evs ok (s, r, w) (t, q, v)"
  proof (cases "ok s")
    case True
    show ?thesis
    proof (rule gated_call_cases [OF run True ids refuse(1)])
      fix e e' assume "x = Inl e" "(t, q, v) = (s, r\<lparr>run_env := e'\<rparr>, w)"
      then show ?thesis by (auto intro!: progress_silent)
    next
      fix e e' err u
      assume u: "ok u" "evs u = evs s" "refuse err (u, r\<lparr>run_env := e'\<rparr>, w) = (Inl e, (t, q, v))"
        and fin: "run_finished r \<longrightarrow> call_event spec = ''run_finished''"
          "run_agent_finished r \<longrightarrow> call_event spec \<in> {''agent_finished'', ''run_finished''}"
      have "run_progress True evs ok (s, r, w) (u, r\<lparr>run_env := e'\<rparr>, w)"
        using u(1,2) by (auto intro!: progress_silent)
      then have "run_progress True evs ok (s, r, w) (t, q, v)"
        by (rule progress.transitive) (rule relatedD [OF refuse(2) u(3)])
      then show ?thesis by (rule progress_open [rotated 2]) (use fin spec in \<open>auto simp: call_open_def\<close>)
    next
      fix cid iid eid tm e' u c y u' q' v' b
      assume u: "ok u" "evs u = evs s \<or> evs u = evs s @ [view (intent_record spec cid iid eid tm r)]"
        and fin: "run_finished r \<longrightarrow> call_event spec = ''run_finished''"
          "run_agent_finished r \<longrightarrow> call_event spec \<in> {''agent_finished'', ''run_finished''}"
        and d': "d (u, if reserve then noted eid c (r\<lparr>run_env := e'\<rparr>) else r\<lparr>run_env := e'\<rparr>, w) = (y, (u', q', v'))"
        and b: "settle iid eid y (u', if reserve then q' else noted eid c q', v') = (b, (t, q, v))"
      let ?r = "noted eid c (r\<lparr>run_env := e'\<rparr>)"
      have opens: "\<not> run_finished r" "\<not> run_agent_finished r" using fin spec by (auto simp: call_open_def)
      have nx: "of_next r (intent_record spec cid iid eid tm r)"
        unfolding intent_record_def by (rule base_of_next) (rule call_values(2) [unfolded intent_record_def])
      have step: "run_progress True evs ok (s, r, w) (u, ?r, w')" for w'
        using u nx opens by (auto intro!: progress_appended simp: same_identity_def)
      have "run_progress True evs ok (s, r, w) (u', if reserve then q' else noted eid c q', v')"
      proof (cases reserve)
        case True
        have "run_progress True evs ok (u, ?r, w) (u', q', v')"
          by (rule relatedD [of _ d _ y]) (use True d d' in simp_all)
        with step [of w] have "run_progress True evs ok (s, r, w) (u', q', v')" by (rule progress.transitive)
        then show ?thesis using True by simp
      next
        case False
        then have "plainly d" using d by simp
        then obtain w' where "snd (d (u, r\<lparr>run_env := e'\<rparr>, w)) = (u, r\<lparr>run_env := e'\<rparr>, w')" unfolding plainly_def by blast
        then have "u' = u \<and> q' = r\<lparr>run_env := e'\<rparr>" using d' False by simp
        then show ?thesis using False step [of v'] by simp
      qed
      moreover have "run_progress True evs ok (u', if reserve then q' else noted eid c q', v') (t, q, v)"
        by (rule relatedD [OF settle b]) (rule arg_cong [OF d', of fst, unfolded fst_conv])
      ultimately have "run_progress True evs ok (s, r, w) (t, q, v)" by (rule progress.transitive)
      then show ?thesis by (rule progress_open [OF opens])
    qed
  qed (auto simp: run_progress_def)
qed

lemma record_answer_keeps:
  assumes "answer_fields_ok fs" "et \<noteq> ''run_finished''"
  shows "keeps lax (record_answer src st lost agent (et, fs))"
proof (rule relatedI, clarify)
  fix s r w x t q v
  assume run: "record_answer src st lost agent (et, fs) (s, r, w) = (x, (t, q, v))"
  show "run_progress lax evs ok (s, r, w) (t, q, v)"
  proof (cases "ok s")
    case True
    show ?thesis
    proof (rule record_answer_cases [OF run True assms(1)])
      fix u e e' assume "(t, q, v) = (u, r\<lparr>run_env := e'\<rparr>, w)" "ok u" "evs u = evs s"
      then show ?thesis by (auto intro!: progress_silent)
    next
      fix u i tm c e'
      assume "(t, q, v) = (u, noted i c (r\<lparr>run_env := e'\<rparr>), w)" "ok u"
        "evs u = evs s \<or> evs u = evs s @ [view (PDict (event_base et i agent tm r @ fs))]"
        "run_finished r \<longrightarrow> et = ''run_finished''" "run_agent_finished r \<longrightarrow> et \<in> {''agent_finished'', ''run_finished''}"
      then have "run_progress lax evs ok (s, r, w) (u, noted i c (r\<lparr>run_env := e'\<rparr>), w)"
        using assms(2) by (intro progress_appended [OF _ _ base_of_next [OF answer_json [OF assms(1)]]]) (auto simp: same_identity_def)
      then show ?thesis using \<open>(t, q, v) = _\<close> by simp
    qed
  qed (auto simp: run_progress_def)
qed

end

section \<open>The operations\<close>

definition answer_ok :: "string \<times> fields \<Rightarrow> bool" where
  "answer_ok a \<longleftrightarrow> fst a \<noteq> ''run_finished'' \<and> answer_fields_ok (snd a)"

lemmas answer_defs = answer_ok_def answer_fields_ok_def event_base_def tool_answer_def

lemma tool_answer_ok [simp]: "answer_ok (tool_answer code i e x)"
  by (simp add: answer_defs)

lemma worker_answer_ok [simp]: "answer_ok (worker_answer outcome i e x)"
  by (simp add: worker_answer_def answer_defs Let_def split: sum.splits option.splits)

lemma decision_answer_ok [simp]: "answer_ok (decision_answer label code i e b)"
  by (simp add: decision_answer_def answer_defs)

lemma command_parameters_json: "json_value (PDict (command_parameters probe purpose argv result))"
  by (auto simp: command_parameters_def split: pyval.splits option.splits if_splits)

lemma command_answer_ok [simp]: "answer_ok (command_answer probe purpose argv i e x)"
  using command_parameters_json [of probe purpose argv] by (simp add: command_answer_def answer_defs Let_def split: sum.splits)

lemma step_answer_ok [simp]: "answer_ok (step_answer step i e x)"
  by (simp add: step_answer_def answer_defs Let_def)

lemma mock_answer_ok [simp]: "answer_ok (mock_answer i e x)"
  by (simp add: mock_answer_def answer_defs Let_def)

lemma calls_open [simp]:
  "call_open worker_call" "call_open verifier_call" "call_open (stage_call operation)" "call_open (snapshot_call tool)"
  "call_open pin_call" "call_open authorization_call" "call_open (sandbox_call purpose)"
  "call_open (lease_call operation purpose)" "call_open (step_call step)" "call_open mock_call"
  by (simp_all add: call_open_def worker_call_def verifier_call_def stage_call_def snapshot_call_def pin_call_def
      authorization_call_def sandbox_call_def lease_call_def step_call_def mock_call_def)

lemma related_split:
  "(\<And>s r w. related R (F s r w)) \<Longrightarrow> related R (\<lambda>(s, r, w). F s r w (s, r, w))"
  by (auto simp: related_def)

lemma lift_fails: "\<exists>e' y'. elift (Inl e) y = (Inl e', y')"
  by simp

lemma env_only_fresh_id: "env_only (fresh_id src pre used n)"
proof (induction n)
  case 0
  then show ?case by (simp add: fresh_id.simps)
next
  case (Suc n)
  then show ?case unfolding fresh_id.simps [of _ _ _ "Suc n"]
    by (auto intro!: env_only_ebind)
qed

lemma ebind_assoc: "ebind (ebind m f) g = ebind m (\<lambda>x. ebind (f x) g)"
  by (auto simp: ebind_def fun_eq_iff split: prod.splits sum.splits)

lemmas related_rules = related_with_run progress.related_eunless progress.related_ebind progress.related_ecatch
  progress.related_unless_of progress.related_elift progress.related_or_failed

context observed_journal
begin

lemma answer_keeps: "answer_ok a \<Longrightarrow> keeps lax (record_answer src st lost agent a)"
  by (cases a) (auto simp: answer_ok_def intro!: record_answer_keeps)

lemma observed_call_keeps:
  assumes "env_only ids" "call_open spec" "if reserve then keeps True d else plainly d"
    "\<And>i e x. answer_ok (answer i e x)"
  shows "keeps lax (observed_call src st spec errs ids reserve once d answer)"
  unfolding observed_call_def refuse_call_def
  by (intro progress.related_unless_of gated_call_keeps assms answer_keeps progress.related_elift lift_fails)

lemma keeps_flag:
  "keeps lax (set_run (run_used_update f))" "keeps lax (set_run (run_verifier_used_update f))"
  "keeps lax (set_run (run_pin_used_update f))" "keeps lax (set_run (run_authorization_used_update f))"
  "keeps lax (set_run (run_publication_used_update f))" "keeps lax (set_run (run_steps_used_update g))"
  by (rule related_set_run; simp add: same_identity_def)+

lemma propose_keeps: "keeps True d \<Longrightarrow> keeps lax (journaled_propose src st outcome p t d)"
  unfolding journaled_propose_def by (intro related_rules observed_call_keeps keeps_flag) simp_all

lemma verifier_keeps: "plainly d \<Longrightarrow> keeps lax (invoke_verifier src st (Some d))"
  unfolding invoke_verifier_def by (intro related_rules observed_call_keeps keeps_flag) simp_all

lemma stage_keeps: "plainly d \<Longrightarrow> keeps lax (invoke_stage src st operation d)"
  unfolding invoke_stage_def by (intro related_rules observed_call_keeps keeps_flag) simp_all

lemma source_keeps: "plainly d \<Longrightarrow> keeps lax (invoke_source src st tool (Some d))"
  unfolding invoke_source_def by (intro related_rules observed_call_keeps keeps_flag) simp_all

lemma plainly_eret: "plainly (eret x)"
  by (simp add: plainly_def)

lemma pin_keeps: "keeps lax (record_pin_decision src st accepted)"
  unfolding record_pin_decision_def by (intro related_rules observed_call_keeps keeps_flag) (simp_all add: plainly_eret)

lemma command_keeps: "plainly d \<Longrightarrow> keeps lax (invoke_sandbox_run src st probe purpose argv d)"
  unfolding invoke_sandbox_run_def by (intro related_rules observed_call_keeps keeps_flag) simp_all

lemma step_keeps: "plainly d \<Longrightarrow> keeps lax (run_controlled_step src st step p (Some d))"
  unfolding run_controlled_step_def by (intro related_rules observed_call_keeps keeps_flag) simp_all

lemma mock_keeps: "keeps True d \<Longrightarrow> keeps lax (run_local_mock_publication src st p (Some d))"
  unfolding run_local_mock_publication_def
  by (intro related_rules related_if observed_call_keeps keeps_flag) simp_all

lemma authorization_keeps: "plainly c \<Longrightarrow> keeps lax (record_authorization src st (Some c))"
  unfolding record_authorization_def
  by (intro related_rules gated_call_keeps keeps_flag answer_keeps progress.related_eret lift_fails) simp_all

lemma close_quietly_keeps:
  "(\<And>close. sb_close session = Some close \<Longrightarrow> plainly close) \<Longrightarrow> keeps True (close_quietly session)"
  unfolding close_quietly_def
  by (cases "sb_close session") (simp_all add: progress.related_eret progress.related_ecatch related_plainly)

lemma record_creation_keeps:
  "(\<And>session close. x = Inr session \<Longrightarrow> sb_close session = Some close \<Longrightarrow> plainly close) \<Longrightarrow>
     keeps True (record_creation src st i e x)"
  unfolding record_creation_def
  by (cases x) (auto intro!: related_rules answer_keeps close_quietly_keeps)

lemma create_keeps: "closes_plainly k \<Longrightarrow> keeps lax (invoke_create src st purpose k)"
proof -
  assume k: "closes_plainly k"
  show ?thesis unfolding invoke_create_def on_lease_error_def
    by (intro related_rules gated_call_keeps record_creation_keeps lift_fails) (use k in \<open>auto simp: closes_plainly_def\<close>)
qed

lemma unrecorded_close_fails: "\<exists>e' y'. unrecorded_close c y = (Inl e', y')"
  by (cases "c y"; cases "fst (c y)") (auto simp: unrecorded_close_def ebind_def ecatch_def)

lemma unrecorded_close_keeps: "plainly c \<Longrightarrow> keeps True (unrecorded_close c)"
  unfolding unrecorded_close_def by (intro related_rules related_plainly)

lemma close_keeps: "plainly c \<Longrightarrow> keeps lax (invoke_close src st purpose (Some c))"
  unfolding invoke_close_def on_lease_error_def option.sel
  by (intro related_rules gated_call_keeps answer_keeps unrecorded_close_fails unrecorded_close_keeps) simp_all

end

end
