(* ===== verification/Observation_Gate.thy ===== *)
theory Observation_Gate
  imports Observation_Journal Py_Regex
begin

text \<open>
  What the journal and the gate guarantee over any sequence of calls: the SQLite journal answers as the
  journal in memory, its file opens again as it is, events are only appended, and a one-shot intent is
  dispatched at most once and only after its records are stored.
\<close>

section \<open>Sequences of calls\<close>

datatype obs_call =
    AppendEvent pyval
  | RecordCheckpoint pyval
  | CheckCheckpoint pyval
  | CheckCausality pyval

fun call_value :: "obs_call \<Rightarrow> pyval" where
  "call_value (AppendEvent v) = v"
| "call_value (RecordCheckpoint v) = v"
| "call_value (CheckCheckpoint v) = v"
| "call_value (CheckCausality v) = v"

fun obs_call_mem :: "(pyval \<Rightarrow> string \<Rightarrow> bool res) \<Rightarrow> obs_call \<Rightarrow> (obs_store, int) eff" where
  "obs_call_mem re (AppendEvent v) = obs_append re v"
| "obs_call_mem re (RecordCheckpoint v) = obs_record_checkpoint re v"
| "obs_call_mem re (CheckCheckpoint v) = (\<lambda>s. (check_checkpoint re (Inr (os_events s)) v, s))"
| "obs_call_mem re (CheckCausality v) = (\<lambda>s. (check_result_causality re (Inr (os_events s)) v, s))"

fun obs_call_db :: "(pyval \<Rightarrow> string \<Rightarrow> bool res) \<Rightarrow> obs_call \<Rightarrow> (obs_db, int) eff" where
  "obs_call_db re (AppendEvent v) = db_append re v"
| "obs_call_db re (RecordCheckpoint v) = db_record_checkpoint re v"
| "obs_call_db re (CheckCheckpoint v) = (\<lambda>f. (db_check_checkpoint re v f, f))"
| "obs_call_db re (CheckCausality v) = (\<lambda>f. (db_check_causality re v f, f))"

text \<open>The answers of a sequence of calls, and the state after it.\<close>

fun run_calls :: "('c \<Rightarrow> ('s, 'a) eff) \<Rightarrow> 'c list \<Rightarrow> 's \<Rightarrow> 'a res list \<times> 's" where
  "run_calls f [] s = ([], s)"
| "run_calls f (c # cs) s = (case f c s of (r, t) \<Rightarrow> case run_calls f cs t of (rs, u) \<Rightarrow> (r # rs, u))"

lemma journal_empty: "obs_ok re empty_obs_store"
  by (simp add: obs_ok_def empty_obs_store_def index_of_def)

lemma new_file_opens: "open_obs_db re True True empty_obs_db = Inr (db_of empty_obs_store)"
  by (simp add: open_obs_db_def initialize_schema_def empty_obs_db_def validate_persisted_rows_def db_of_def
      empty_obs_store_def)

lemma obs_call_refines:
  assumes "obs_ok re s" "json_value (call_value c)" "obs_call_mem re c s = (r, t)"
  shows "obs_call_db re c (db_of s) = (r, db_of t) \<and> obs_ok re t"
  using assms db_append_refines [OF assms(1), of "call_value c"] obs_append_ok [OF assms(1), of "call_value c"]
    db_checkpoint_refines [OF assms(1), of "call_value c"] obs_checkpoint_ok [OF assms(1), of "call_value c"]
  by (cases c) (auto simp: db_check_refines db_causality_refines)

lemma run_calls_refine:
  assumes "obs_ok re s" "\<forall>c\<in>set cs. json_value (call_value c)"
  shows "run_calls (obs_call_db re) cs (db_of s) = map_prod id db_of (run_calls (obs_call_mem re) cs s)"
  using assms
proof (induction cs arbitrary: s)
  case (Cons c cs)
  obtain r t where m: "obs_call_mem re c s = (r, t)" by fastforce
  then have d: "obs_call_db re c (db_of s) = (r, db_of t)" and ok: "obs_ok re t"
    using obs_call_refines [OF Cons.prems(1) _ m] Cons.prems(2) by auto
  have "run_calls (obs_call_db re) cs (db_of t) = map_prod id db_of (run_calls (obs_call_mem re) cs t)"
    by (rule Cons.IH [OF ok]) (use Cons.prems(2) in auto)
  then show ?case using m d by (cases "run_calls (obs_call_mem re) cs t") simp
qed simp

section \<open>One-shot intents on both journals\<close>

text \<open>Recording a checkpoint in memory leaves the store \<open>with_checkpoint\<close>, whether it was known or not.\<close>

lemma recorded_checkpoint:
  assumes ok: "obs_ok re s" and j: "json_value cp" and run: "obs_record_checkpoint re cp s = (Inr n, t)"
  shows "t = with_checkpoint cp s \<and> is_ok (check_checkpoint re (Inr (os_events s)) cp) \<and> is_ok (sha256_digest cp)"
proof -
  have c: "is_ok (check_checkpoint re (Inr (os_events s)) cp) \<and> is_ok (sha256_digest cp)"
    using run by (auto simp: obs_record_checkpoint_def is_ok_iff split: sum.splits)
  have ix: "map_of (os_checkpoint_digests s) (checkpoint_id cp) = None \<longleftrightarrow>
      checkpoint_id cp \<notin> set (map checkpoint_id (os_checkpoints s))"
    using ok index_of_None by (simp only: obs_ok_def)
  show ?thesis
  proof (cases "map_of (os_checkpoint_digests s) (checkpoint_id cp)")
    case None
    then have "checkpoint_id cp \<notin> set (map checkpoint_id (os_checkpoints s))" using ix by blast
    moreover have "os_checkpoints t = os_checkpoints s @ [cp]"
      using run None by (auto simp: obs_record_checkpoint_def split: sum.splits)
    ultimately show ?thesis using c obs_checkpoint_cases [OF ok j run] by (auto simp: with_checkpoint_def)
  next
    case (Some k)
    then have "checkpoint_id cp \<in> set (map checkpoint_id (os_checkpoints s))" using ix by (metis option.distinct(1))
    moreover have "t = s" using run Some by (auto simp: obs_record_checkpoint_def split: sum.splits if_splits)
    ultimately show ?thesis using c by (simp add: with_checkpoint_def)
  qed
qed

text \<open>The two journals record a checkpoint together, unless its identity has another digest.\<close>

lemma checkpoint_recorded_iff:
  assumes ok: "obs_ok re s" and j: "json_value cp" and d: "sha256_digest cp = Inr dc"
    and c: "is_ok (db_check_checkpoint re cp (db_of s))"
  shows "is_ok (fst (obs_record_checkpoint re cp s)) \<longleftrightarrow> \<not> checkpoint_conflict cp dc (db_of s)"
proof -
  have "fst (obs_record_checkpoint re cp s) = fst (db_record_checkpoint re cp (db_of s))"
    by (simp add: db_checkpoint_refines [OF ok j])
  moreover have "is_ok (fst (db_record_checkpoint re cp (db_of s))) \<longleftrightarrow> \<not> checkpoint_conflict cp dc (db_of s)"
    using c d add_checkpoint_of [OF ok d]
    by (auto simp: db_record_checkpoint_def checkpoint_conflict_def add_checkpoint_def is_ok_iff rbind_def
        split: option.splits sum.splits simp del: db_of_simps)
  ultimately show ?thesis by simp
qed

text \<open>
  Recording an intent once: both journals accept it with the same position or both refuse it, in the same
  state afterwards, when the intent has a canonical text. The refusals may differ, because the two
  check the checkpoint and the identity of the intent in opposite order.
\<close>

lemma once_refines:
  assumes ok: "obs_ok re s" and j: "json_value cp" "json_value ev" "encodable ev"
    and m: "obs_record_once re cp ev s = (r, t)" and d: "db_record_once re cp ev (db_of s) = (p, f)"
  shows "f = db_of t \<and> (p = r \<or> \<not> is_ok p \<and> \<not> is_ok r)"
proof -
  have ix: "map_of (os_digests s) (event_id ev) = None \<longleftrightarrow> row_of (event_id ev) (od_events (db_of s)) = None"
    using ok index_of_None row_of_event [OF ok] by (simp only: obs_ok_def db_of_simps)
  obtain de where de: "sha256_digest ev = Inr de"
    using j(3) sha256_digest_ok [of ev] by (cases "sha256_digest ev") auto
  show ?thesis
  proof (cases "is_ok (validate re ev event_schema) \<and> map_of (os_digests s) (event_id ev) = None
      \<and> is_ok (fst (obs_record_checkpoint re cp s))")
    case True
    then obtain n u where u: "obs_record_checkpoint re cp s = (Inr n, u)"
      by (cases "obs_record_checkpoint re cp s") (auto simp: is_ok_iff)
    note w = recorded_checkpoint [OF ok j(1) u]
    from w obtain dc where dc: "sha256_digest cp = Inr dc" by (auto simp: is_ok_iff)
    have v: "validate re ev event_schema = Inr ()" and new: "row_of (event_id ev) (od_events (db_of s)) = None"
      using True ix by (auto simp: is_ok_iff)
    from new have fresh: "event_id ev \<notin> set (map event_id (os_events s))" using row_of_event [OF ok] by simp
    have r: "r = Inr (int (length (os_events s)))" "t = push_event ev (with_checkpoint cp s)"
      using m u v True w de digest_of_eq [OF de]
      by (auto simp: obs_record_once_def ebind_def obs_append_def push_event_def)
    have c: "is_ok (db_check_checkpoint re cp (db_of s))" using w by (simp add: db_check_refines [OF ok])
    then have is_dict_checked: "is_dict cp" using check_is_dict by (auto simp: is_ok_iff)
    from c have "\<not> checkpoint_conflict cp dc (db_of s)" using checkpoint_recorded_iff [OF ok j(1) dc] u by (simp add: is_ok_iff)
    moreover have "event_id ev \<notin> set (map event_id (os_events (with_checkpoint cp s)))" using fresh by simp
    ultimately have "db_record_once re cp ev (db_of s) = (r, db_of t)"
      using c v de dc new r is_dict_checked add_checkpoint_of [OF ok dc] add_event_of [OF _ de, of "with_checkpoint cp s"]
      by (auto simp: db_record_once_def pair_digests_def journal_txn_def is_ok_iff simp del: db_of_simps)
    then show ?thesis using d by simp
  next
    case False
    have mem: "\<not> is_ok r \<and> t = s"
    proof (cases "is_ok (validate re ev event_schema) \<and> map_of (os_digests s) (event_id ev) = None")
      case True
      obtain x u where u: "obs_record_checkpoint re cp s = (x, u)" by fastforce
      with False True have "\<not> is_ok x" by simp
      moreover from this have "u = s" using obs_checkpoint_cases [OF ok j(1) u] by (auto simp: is_ok_iff)
      ultimately show ?thesis using m u True by (cases x) (auto simp: obs_record_once_def ebind_def is_ok_iff)
    qed (use m in \<open>cases "validate re ev event_schema"; auto simp: obs_record_once_def ebind_def is_ok_iff\<close>)
    moreover have "\<not> is_ok p \<and> f = db_of s"
    proof (rule ccontr)
      assume "\<not> (\<not> is_ok p \<and> f = db_of s)"
      then obtain n where p: "p = Inr n" using db_once_cases [OF ok j(1,2) d] by (auto simp: is_ok_iff)
      then obtain ds where ds: "pair_digests re cp ev = Inr ds" using d by (auto simp: db_record_once_def ebind_def split: sum.splits)
      obtain dc de' where dd: "ds = (dc, de')" by fastforce
      have c: "is_ok (db_check_checkpoint re cp (db_of s))" "row_of (event_id ev) (od_events (db_of s)) = None"
        "\<not> checkpoint_conflict cp dc (db_of s)"
        using d ds dd p by (auto simp: db_record_once_def journal_txn_def is_ok_iff split: sum.splits simp del: db_of_simps)
      have "sha256_digest cp = Inr dc" using ds dd c(1) check_is_dict by (auto simp: pair_digests_def is_ok_iff)
      then have "is_ok (fst (obs_record_checkpoint re cp s))" using checkpoint_recorded_iff [OF ok j(1)] c by blast
      moreover have "is_ok (validate re ev event_schema)" using ds by (auto simp: pair_digests_def is_ok_iff)
      ultimately show False using False c(2) ix by blast
    qed
    ultimately show ?thesis by blast
  qed
qed

text \<open>
  The calls that both journals answer: the ones above, and recording an intent once. (The pair transaction
  \<^verbatim>\<open>record_checkpoint_and_intent\<close> exists only in SQLite.)
\<close>

datatype obs_journal_call = Single obs_call | RecordOnce pyval pyval

fun journal_call_ok :: "obs_journal_call \<Rightarrow> bool" where
  "journal_call_ok (Single c) = json_value (call_value c)"
| "journal_call_ok (RecordOnce cp ev) = (json_value cp \<and> json_value ev \<and> encodable ev)"

fun call_memory :: "(pyval \<Rightarrow> string \<Rightarrow> bool res) \<Rightarrow> obs_journal_call \<Rightarrow> (obs_store, int) eff" where
  "call_memory re (Single c) = obs_call_mem re c"
| "call_memory re (RecordOnce cp ev) = obs_record_once re cp ev"

fun call_sqlite :: "(pyval \<Rightarrow> string \<Rightarrow> bool res) \<Rightarrow> obs_journal_call \<Rightarrow> (obs_db, int) eff" where
  "call_sqlite re (Single c) = obs_call_db re c"
| "call_sqlite re (RecordOnce cp ev) = db_record_once re cp ev"

text \<open>Equal answers; of an intent recorded once, the same position or two refusals.\<close>

fun same_answer :: "obs_journal_call \<Rightarrow> int res \<Rightarrow> int res \<Rightarrow> bool" where
  "same_answer (Single c) r p = (p = r)"
| "same_answer (RecordOnce cp ev) r p = (p = r \<or> \<not> is_ok p \<and> \<not> is_ok r)"

text \<open>The identities in a journal, and what recording an intent once does to them.\<close>

definition recorded_ids :: "pyval list \<Rightarrow> string set" where
  "recorded_ids es = set (map event_id es)"

lemma obs_once_cases:
  assumes ok: "obs_ok re s" and j: "json_value cp" "json_value ev"
    and run: "obs_record_once re cp ev s = (r, t)"
  shows "obs_ok re t" and "recorded_ids (os_events s) \<subseteq> recorded_ids (os_events t)"
    and "r = Inr n \<Longrightarrow> event_id ev \<notin> recorded_ids (os_events s) \<and> event_id ev \<in> recorded_ids (os_events t)"
proof -
  have ix: "map_of (os_digests s) (event_id ev) = None \<longleftrightarrow> event_id ev \<notin> set (map event_id (os_events s))"
    using ok index_of_None by (simp only: obs_ok_def)
  have "obs_ok re t \<and> recorded_ids (os_events s) \<subseteq> recorded_ids (os_events t) \<and>
    (r = Inr n \<longrightarrow> event_id ev \<notin> recorded_ids (os_events s) \<and> event_id ev \<in> recorded_ids (os_events t))" for n
  proof (cases "is_ok (validate re ev event_schema) \<and> map_of (os_digests s) (event_id ev) = None")
    case True
    then have v: "validate re ev event_schema = Inr ()" by (auto simp: is_ok_iff)
    have new: "event_id ev \<notin> set (map event_id (os_events s))" using True ix by blast
    obtain r1 u where u: "obs_record_checkpoint re cp s = (r1, u)" by fastforce
    have uok: "obs_ok re u" and ue: "os_events u = os_events s"
      using obs_checkpoint_ok [OF ok j(1) u] obs_checkpoint_cases [OF ok j(1) u] by auto
    show ?thesis
    proof (cases r1)
      case (Inl e)
      then show ?thesis using run u v True uok ue by (auto simp: obs_record_once_def ebind_def)
    next
      case (Inr k)
      then have a: "obs_append re ev u = (r, t)" using run u v True by (simp add: obs_record_once_def ebind_def)
      have "t = u \<or> t = push_event ev u" using obs_append_cases [OF uok j(2) a] by blast
      moreover have "t \<noteq> u" if "r = Inr n"
      proof
        assume "t = u"
        have "map_of (os_digests u) (event_id ev) = None"
          using uok new ue by (simp add: obs_ok_def index_of_None del: set_map)
        then have "os_events t \<noteq> os_events u" using a that by (auto simp: obs_append_def v split: sum.splits)
        then show False using \<open>t = u\<close> by simp
      qed
      ultimately show ?thesis using obs_append_ok [OF uok j(2) a] ue new by (auto simp: recorded_ids_def)
    qed
  next
    case False
    then show ?thesis using run ok
      by (cases "validate re ev event_schema") (auto simp: obs_record_once_def ebind_def)
  qed
  then show "obs_ok re t" and "recorded_ids (os_events s) \<subseteq> recorded_ids (os_events t)"
    and "r = Inr n \<Longrightarrow> event_id ev \<notin> recorded_ids (os_events s) \<and> event_id ev \<in> recorded_ids (os_events t)" by blast+
qed

lemma journal_call_refines:
  assumes "obs_ok re s" "journal_call_ok c" "call_memory re c s = (r, t)" "call_sqlite re c (db_of s) = (p, f)"
  shows "f = db_of t \<and> same_answer c r p \<and> obs_ok re t"
proof (cases c)
  case (Single d)
  then show ?thesis using assms obs_call_refines [OF assms(1), of d r t] by auto
next
  case (RecordOnce cp ev)
  then show ?thesis using assms once_refines [OF assms(1), of cp ev r t p f] obs_once_cases(1) [OF assms(1), of cp ev r t] by simp
qed

lemma journal_calls_refine:
  assumes "obs_ok re s" "\<forall>c\<in>set cs. journal_call_ok c"
    and "run_calls (call_memory re) cs s = (rs, t)" "run_calls (call_sqlite re) cs (db_of s) = (ps, f)"
  shows "f = db_of t \<and> length rs = length cs \<and> length ps = length cs \<and>
    (\<forall>n<length cs. same_answer (cs ! n) (rs ! n) (ps ! n))"
  using assms
proof (induction cs arbitrary: s rs ps)
  case (Cons c cs)
  obtain r s1 where m: "call_memory re c s = (r, s1)" by fastforce
  obtain p f1 where d: "call_sqlite re c (db_of s) = (p, f1)" by fastforce
  have h: "f1 = db_of s1 \<and> same_answer c r p \<and> obs_ok re s1"
    by (rule journal_call_refines [OF Cons.prems(1) _ m d]) (use Cons.prems(2) in simp)
  from Cons.prems(3) m obtain rs' where rs: "rs = r # rs'" "run_calls (call_memory re) cs s1 = (rs', t)"
    by (auto split: prod.splits)
  from Cons.prems(4) d h obtain ps' where ps: "ps = p # ps'" "run_calls (call_sqlite re) cs (db_of s1) = (ps', f)"
    by (auto split: prod.splits)
  have "f = db_of t \<and> length rs' = length cs \<and> length ps' = length cs \<and>
    (\<forall>n<length cs. same_answer (cs ! n) (rs' ! n) (ps' ! n))"
    by (rule Cons.IH [OF _ _ rs(2) ps(2)]) (use h Cons.prems(2) in auto)
  then show ?case using h rs(1) ps(1) by (auto simp: nth_Cons split: nat.splits)
qed simp

text \<open>
  Claim C29: on a new file the SQLite journal answers as the journal in memory does, over every sequence of
  the calls the two share: appends, checkpoints, checks, and intents recorded once. Its file
  then holds exactly the records of that journal. Appends, checkpoints and checks return the same result
  or raise the same error; an intent recorded once gets the same position on both or is refused by both
  (the two make their checks in another order, so the refusals may name another reason), provided that the
  intent has a canonical text; without one the journal in memory keeps the checkpoint.
\<close>

theorem sqlite_journal_refines_memory:
  assumes "\<forall>c\<in>set cs. journal_call_ok c"
  shows "\<exists>f rs s ps. open_obs_db re True True empty_obs_db = Inr f \<and>
    run_calls (call_memory re) cs empty_obs_store = (rs, s) \<and> run_calls (call_sqlite re) cs f = (ps, db_of s) \<and>
    length rs = length cs \<and> length ps = length cs \<and> (\<forall>n<length cs. same_answer (cs ! n) (rs ! n) (ps ! n))"
proof -
  obtain rs s where m: "run_calls (call_memory re) cs empty_obs_store = (rs, s)" by fastforce
  obtain ps f where d: "run_calls (call_sqlite re) cs (db_of empty_obs_store) = (ps, f)" by fastforce
  from journal_calls_refine [OF journal_empty assms m d] m d new_file_opens show ?thesis by blast
qed

section \<open>Reopening\<close>

datatype db_call =
    DbAppend pyval
  | DbRecord pyval
  | DbPair pyval pyval
  | DbOnce pyval pyval

fun db_values :: "db_call \<Rightarrow> pyval list" where
  "db_values (DbAppend v) = [v]"
| "db_values (DbRecord v) = [v]"
| "db_values (DbPair c v) = [c, v]"
| "db_values (DbOnce c v) = [c, v]"

fun db_step :: "(pyval \<Rightarrow> string \<Rightarrow> bool res) \<Rightarrow> db_call \<Rightarrow> (obs_db, int) eff" where
  "db_step re (DbAppend v) = db_append re v"
| "db_step re (DbRecord v) = db_record_checkpoint re v"
| "db_step re (DbPair c v) = db_record_pair re c v"
| "db_step re (DbOnce c v) = db_record_once re c v"

text \<open>The files the operations reach: they represent a journal.\<close>

definition represents :: "(pyval \<Rightarrow> string \<Rightarrow> bool res) \<Rightarrow> obs_db \<Rightarrow> obs_store \<Rightarrow> bool" where
  "represents re f s \<longleftrightarrow> obs_ok re s \<and> f = db_of s"

lemma db_step_represents:
  assumes "represents re f s" "\<forall>v\<in>set (db_values c). json_value v" "db_step re c f = (r, g)"
  shows "\<exists>t es. represents re g t \<and> os_events t = os_events s @ es"
proof -
  have ok: "obs_ok re s" and f: "f = db_of s" using assms(1) by (simp_all add: represents_def)
  show ?thesis
  proof (cases c)
    case (DbAppend v)
    obtain r' t where t: "obs_append re v s = (r', t)" by fastforce
    then have "g = db_of t" "obs_ok re t"
      using assms(2,3) DbAppend f db_append_refines [OF ok, of v] obs_append_ok [OF ok _ t] by auto
    moreover have "\<exists>es. os_events t = os_events s @ es"
      using obs_append_cases [OF ok _ t] assms(2) DbAppend by auto
    ultimately show ?thesis by (auto simp: represents_def)
  next
    case (DbRecord v)
    obtain r' t where t: "obs_record_checkpoint re v s = (r', t)" by fastforce
    then have "g = db_of t" "obs_ok re t"
      using assms(2,3) DbRecord f db_checkpoint_refines [OF ok, of v] obs_checkpoint_ok [OF ok _ t] by auto
    moreover have "\<exists>es. os_events t = os_events s @ es"
      using obs_checkpoint_cases [OF ok _ t] assms(2) DbRecord by auto
    ultimately show ?thesis by (auto simp: represents_def)
  next
    case (DbPair cp ev)
    then have "db_record_pair re cp ev (db_of s) = (r, g)" "json_value cp" "json_value ev" using assms(2,3) f by auto
    then consider "g = db_of s" | "checkpoint_ok re (os_events s) cp" "g = db_of (with_checkpoint cp s)"
      | "checkpoint_ok re (os_events s) cp" "g = db_of (push_event ev (with_checkpoint cp s))" "event_ok re ev"
        "event_id ev \<notin> set (map event_id (os_events s))"
      using db_pair_cases [OF ok] by blast
    then show ?thesis
      by cases (use ok journal_with_checkpoint [OF ok] journal_both [OF ok] in \<open>fastforce simp: represents_def\<close>)+
  next
    case (DbOnce cp ev)
    then have "db_record_once re cp ev (db_of s) = (r, g)" "json_value cp" "json_value ev" using assms(2,3) f by auto
    then consider "g = db_of s"
      | "checkpoint_ok re (os_events s) cp" "g = db_of (push_event ev (with_checkpoint cp s))" "event_ok re ev"
        "event_id ev \<notin> set (map event_id (os_events s))"
      using db_once_cases [OF ok] by blast
    then show ?thesis
      by cases (use ok journal_both [OF ok] in \<open>fastforce simp: represents_def\<close>)+
  qed
qed

lemma run_represents:
  assumes "represents re f s" "\<forall>c\<in>set cs. \<forall>v\<in>set (db_values c). json_value v" "run_calls (db_step re) cs f = (rs, g)"
  shows "\<exists>t es. represents re g t \<and> os_events t = os_events s @ es"
  using assms
proof (induction cs arbitrary: f s rs)
  case (Cons c cs)
  obtain r h where h: "db_step re c f = (r, h)" by fastforce
  obtain t es where t: "represents re h t" "os_events t = os_events s @ es"
    using db_step_represents [OF Cons.prems(1) _ h] Cons.prems(2) by auto
  obtain rs' where "run_calls (db_step re) cs h = (rs', g)" using Cons.prems(3) h by (auto split: prod.splits)
  then obtain u fs where "represents re g u" "os_events u = os_events t @ fs"
    using Cons.IH [OF t(1)] Cons.prems(2) by auto
  then show ?case using t(2) by auto
qed auto

lemma check_row_of:
  assumes "json_value v" "validate re v schema = Inr ()" "sha256_digest v = Inr (digest_of v)" "fld v k = PStr (key v)"
  shows "check_row re schema k n \<lparr>or_id = key v, or_cursor = int n, or_json = Some (normal v), or_digest = digest_of v\<rparr>
    = Inr (normal v)"
proof -
  have "has_key v k" using assms(4) by (auto simp: has_key_def fld_def split: option.splits)
  moreover obtain d where d: "v = PDict d" using assms(4) fld_not_dict [of v k] by (cases "is_dict v") (auto simp: is_dict_iff)
  ultimately have "idx (normal v) k = Inr (PStr (key v))"
    using fld_normal [OF assms(1), of k] has_key_normal [OF assms(1), of k] assms(4)
    by (auto simp: idx_def fld_def has_key_def d simp del: normal.simps(3) split: option.splits) (auto simp: d)
  then show ?thesis
    using validate_normal [OF assms(2,1)] sha256_digest_normal [OF assms(3)] by (simp add: check_row_def decode_def)
qed

lemma rows_of_enumerate: "(n, r) \<in> set (enumerate 0 (rows_of key es)) \<longleftrightarrow> n < length es \<and>
    r = \<lparr>or_id = key (es ! n), or_cursor = int n, or_json = Some (normal (es ! n)), or_digest = digest_of (es ! n)\<rparr>"
  by (auto simp: in_set_enumerate_eq nth_rows_of)

lemma represented_opens:
  assumes r: "represents re f s"
  shows "open_obs_db re True True f = Inr f" and "db_events f = Inr (map normal (os_events s))"
proof -
  have ok: "obs_ok re s" and f: "f = db_of s" using r by (simp_all add: represents_def)
  show "db_events f = Inr (map normal (os_events s))" by (simp add: db_events_def f)
  have ev: "check_row re event_schema ''event_id'' n r = Inr (normal (os_events s ! n))"
    if "(n, r) \<in> set (enumerate 0 (rows_of event_id (os_events s)))" for n r
  proof -
    have e: "event_ok re (os_events s ! n)" using that journal_events [OF ok] by (simp add: rows_of_enumerate)
    show ?thesis using that check_row_of [of "os_events s ! n" re event_schema "''event_id''" event_id n] e
      event_ok_fields(1) [OF e] by (simp add: rows_of_enumerate event_ok_def)
  qed
  have cp: "check_row re checkpoint_schema ''checkpoint_id'' n r = Inr (normal (os_checkpoints s ! n))
      \<and> is_ok (db_check_checkpoint re (normal (os_checkpoints s ! n)) f)"
    if "(n, r) \<in> set (enumerate 0 (rows_of checkpoint_id (os_checkpoints s)))" for n r
  proof -
    have m: "os_checkpoints s ! n \<in> set (os_checkpoints s)" using that by (simp add: rows_of_enumerate)
    then have c: "checkpoint_ok re (os_events s) (os_checkpoints s ! n)" using ok by (simp add: obs_ok_def)
    then obtain k where k: "check_checkpoint re (Inr (os_events s)) (os_checkpoints s ! n) = Inr k"
      by (auto simp: checkpoint_ok_def is_ok_iff)
    have "check_checkpoint re (Inr (os_events s)) (normal (os_checkpoints s ! n)) = Inr k"
      by (rule check_checkpoint_read_back [OF k]) (use c in \<open>simp add: checkpoint_ok_def\<close>)
    then have "is_ok (db_check_checkpoint re (normal (os_checkpoints s ! n)) f)"
      unfolding f db_check_refines [OF ok] by (simp add: is_ok_iff)
    moreover have "validate re (os_checkpoints s ! n) checkpoint_schema = Inr ()" using k by (simp add: check_checkpoint_parts)
    ultimately show ?thesis
      using that check_row_of [of "os_checkpoints s ! n" re checkpoint_schema "''checkpoint_id''" checkpoint_id n] c
        journal_checkpoint_field [OF ok m] by (simp add: rows_of_enumerate checkpoint_ok_def)
  qed
  have "validate_persisted_rows re f = Inr ()"
    unfolding validate_persisted_rows_def
    by (auto simp: f rcatch_Inr dest!: ev cp [unfolded f] simp: is_ok_iff)
  moreover have "initialize_schema f = Inr f" by (simp add: f db_of_def initialize_schema_def expected_tables_def)
  ultimately show "open_obs_db re True True f = Inr f" by (simp add: open_obs_db_def)
qed

text \<open>Claim C30: Whatever sequence of operations a file has seen, it opens again as it is; what it lists are the
  recorded events in order, and any further operations only append to them.\<close>

theorem observation_journal_reopens:
  assumes "open_obs_db re True True empty_obs_db = Inr f0" and "run_calls (db_step re) cs f0 = (rs, f)"
    and "run_calls (db_step re) ds f = (ps, g)" and "\<forall>c\<in>set (cs @ ds). \<forall>v\<in>set (db_values c). json_value v"
  shows "\<exists>es fs. open_obs_db re True True f = Inr f \<and> db_events f = Inr es \<and> db_events g = Inr (es @ fs)"
proof -
  have r0: "represents re f0 empty_obs_store" using assms(1) by (simp add: represents_def new_file_opens journal_empty)
  obtain s where s: "represents re f s" using run_represents [OF r0 _ assms(2)] assms(4) by auto
  then obtain t es where t: "represents re g t" "os_events t = os_events s @ es"
    using run_represents [OF s _ assms(3)] assms(4) by auto
  show ?thesis using represented_opens [OF s] represented_opens(2) [OF t(1)] t(2) by simp
qed

text \<open>An event and the checkpoint it triggers.\<close>

definition first_event :: pyval where
  "first_event = PDict [(''schema_version'', PInt 1), (''event_id'', PStr ''event-1''), (''event_type'', PStr ''tool_requested''),
     (''process_id'', PStr ''process-1''), (''run_id'', PStr ''run-1''), (''branch_id'', PStr ''branch-1''),
     (''task_id'', PStr ''task-1''), (''agent_id'', PStr ''agent-1''), (''sequence'', PInt 0),
     (''occurred_at'', PStr ''2026-01-01T00:00:00Z''), (''recorded_at'', PStr ''2026-01-01T00:00:00Z''),
     (''invocation_id'', PStr ''invocation-1''),
     (''classification'', PStr ''internal''), (''redaction_status'', PStr ''complete'')]"

definition first_checkpoint :: pyval where
  "first_checkpoint = PDict [(''schema_version'', PInt 1), (''checkpoint_id'', PStr ''checkpoint-1''), (''kind'', PStr ''tool_call''),
     (''process_id'', PStr ''process-1''), (''run_id'', PStr ''run-1''), (''branch_id'', PStr ''branch-1''),
     (''agent_id'', PStr ''agent-1''), (''trigger_event_id'', PStr ''event-1''), (''event_cursor'', PInt 0),
     (''state_ref'', PStr ''artifact://state/1''), (''completeness'', PStr ''complete''),
     (''restore_mode'', PStr ''none''), (''created_at'', PStr ''2026-01-01T00:00:00Z'')]"

lemma first_values: "json_value first_event" "json_value first_checkpoint" "encodable first_event"
  by (simp_all add: first_event_def first_checkpoint_def text_eval nat_digits.simps)

lemma event_schema_accepted: "is_ok (validate_schema 6 ''$'' event_schema)"
  by code_simp

lemma first_event_accepted: "is_ok (validate_at re_search 6 ''$'' first_event event_schema)"
  by code_simp

lemma first_event_valid: "validate re_search first_event event_schema = Inr ()"
proof -
  have n: "nesting event_schema \<le> 6" by (simp add: event_schema_def)
  have ok: "schema_ok event_schema" using event_schema_accepted validate_schema_iff [OF n] by blast
  then show ?thesis using first_event_accepted validate_at_iff [OF ok n] by (simp add: validate_conforms)
qed

lemma first_event_stored:
  "fst (run_calls (obs_call_mem re_search) [AppendEvent first_event, AppendEvent first_event] empty_obs_store) = [Inr 0, Inr 0]"
proof -
  have d: "sha256_digest first_event = Inr (digest_of first_event)"
    by (rule sha256_digest_encodable) (rule first_values)
  have i: "fld first_event ''event_id'' = PStr ''event-1''" by code_simp
  have p: "position_of ''event_id'' ''event-1'' [first_event] = Some 0" by (simp add: position_of_def i)
  show ?thesis
    by (simp add: obs_append_def first_event_valid d empty_obs_store_def i stored_position_def p)
qed

text \<open>
  Two calls further: the checkpoint on the first event together with a second event, recorded once. For
  these the regular expressions are taken to match everything (\<open>any_match\<close>).
\<close>

definition any_match :: "pyval \<Rightarrow> string \<Rightarrow> bool res" where
  "any_match p s = Inr True"

definition next_event :: pyval where
  "next_event = PDict (dict_set ''event_id'' (PStr ''event-2'') (items first_event))"

lemma conforms_any_match: "conforms re v s \<Longrightarrow> conforms any_match v s"
proof (induction rule: conforms.induct)
  case (1 d v)
  show ?case by (rule conforms.intros) (use 1 in \<open>auto simp: any_match_def\<close>)
qed

lemma accepted_valid: "is_ok (validate_at re 6 ''$'' v event_schema) \<Longrightarrow> validate re v event_schema = Inr ()"
proof -
  assume v: "is_ok (validate_at re 6 ''$'' v event_schema)"
  have n: "nesting event_schema \<le> 6" by (simp add: event_schema_def)
  have ok: "schema_ok event_schema" using event_schema_accepted validate_schema_iff [OF n] by blast
  then show ?thesis using v validate_at_iff [OF ok n] by (simp add: validate_conforms)
qed

lemma checkpoint_schema_accepted: "is_ok (validate_schema 6 ''$'' checkpoint_schema)"
  by code_simp

lemma accepted_checkpoint: "is_ok (validate_at re 6 ''$'' v checkpoint_schema) \<Longrightarrow> validate re v checkpoint_schema = Inr ()"
proof -
  assume v: "is_ok (validate_at re 6 ''$'' v checkpoint_schema)"
  have n: "nesting checkpoint_schema \<le> 6" by (simp add: checkpoint_schema_def)
  have ok: "schema_ok checkpoint_schema" using checkpoint_schema_accepted validate_schema_iff [OF n] by blast
  then show ?thesis using v validate_at_iff [OF ok n] by (simp add: validate_conforms)
qed

lemma next_event_accepted: "is_ok (validate_at any_match 6 ''$'' next_event event_schema)"
  by code_simp

lemma first_checkpoint_accepted: "is_ok (validate_at any_match 6 ''$'' first_checkpoint checkpoint_schema)"
  by code_simp

lemma first_event_any: "validate any_match first_event event_schema = Inr ()"
  using first_event_valid conforms_any_match by (auto simp: validate_conforms)

lemma next_values: "json_value next_event" "encodable next_event" "encodable first_checkpoint"
  by (simp_all add: next_event_def first_event_def first_checkpoint_def text_eval nat_digits.simps)

definition one_event :: obs_store where
  "one_event = push_event first_event empty_obs_store"

lemma first_appended: "obs_append any_match first_event empty_obs_store = (Inr 0, one_event)"
proof -
  have d: "sha256_digest first_event = Inr (digest_of first_event)"
    by (rule sha256_digest_encodable) (rule first_values)
  show ?thesis by (simp add: obs_append_def first_event_any d empty_obs_store_def one_event_def push_event_def)
qed

lemma next_recorded:
  "\<exists>s. obs_record_once any_match first_checkpoint next_event one_event = (Inr 1, s) \<and> os_events s = [first_event, next_event]"
proof -
  have d: "sha256_digest next_event = Inr (digest_of next_event)" "sha256_digest first_checkpoint = Inr (digest_of first_checkpoint)"
    by (rule sha256_digest_encodable, rule next_values)+
  have i: "fld first_event ''event_id'' = PStr ''event-1''" "fld next_event ''event_id'' = PStr ''event-2''"
    by (simp_all add: next_event_def first_event_def)
  have p: "position_of ''event_id'' ''event-1'' [first_event] = Some 0" by (simp add: position_of_def i)
  have c: "fld first_checkpoint ''trigger_event_id'' = PStr ''event-1''" "fld first_checkpoint ''event_cursor'' = PInt 0"
    "is_dict first_checkpoint" "same_context first_event first_checkpoint = Inr ()"
    by (simp_all add: first_checkpoint_def first_event_def same_context_def)
  have "validate any_match next_event event_schema = Inr ()" by (rule accepted_valid [OF next_event_accepted])
  moreover have "validate any_match first_checkpoint checkpoint_schema = Inr ()"
    by (rule accepted_checkpoint [OF first_checkpoint_accepted])
  ultimately show ?thesis
    using d i p c
    by (simp add: obs_record_once_def ebind_def obs_record_checkpoint_def check_checkpoint_def obs_append_def
        one_event_def push_event_def empty_obs_store_def Let_def)
qed

theorem sqlite_journal_refines_memory_witness:
  "\<exists>f ps s. open_obs_db any_match True True empty_obs_db = Inr f \<and>
     run_calls (call_sqlite any_match) [Single (AppendEvent first_event), RecordOnce first_checkpoint next_event,
       RecordOnce first_checkpoint next_event] f = (ps, db_of s) \<and>
     os_events s = [first_event, next_event] \<and> ps ! 0 = Inr 0 \<and> ps ! 1 = Inr 1 \<and> \<not> is_ok (ps ! 2)"
proof -
  let ?cs = "[Single (AppendEvent first_event), RecordOnce first_checkpoint next_event, RecordOnce first_checkpoint next_event]"
  obtain s where s: "obs_record_once any_match first_checkpoint next_event one_event = (Inr 1, s)"
    "os_events s = [first_event, next_event]" using next_recorded by blast
  have ok: "obs_ok any_match one_event" using obs_append_ok [OF journal_empty first_values(1) first_appended] .
  have "obs_ok any_match s" by (rule obs_once_cases(1) [OF ok first_values(2) next_values(1) s(1)])
  then have "map_of (os_digests s) (event_id next_event) \<noteq> None"
    using index_of_None [of event_id "os_events s" "event_id next_event"] s(2) by (simp add: obs_ok_def)
  then have again: "\<exists>e. obs_record_once any_match first_checkpoint next_event s = (Inl e, s)"
    using accepted_valid [OF next_event_accepted] by (simp add: obs_record_once_def ebind_def)
  then obtain e where m: "run_calls (call_memory any_match) ?cs empty_obs_store = ([Inr 0, Inr 1, Inl e], s)"
    using first_appended s(1) by auto
  have "\<forall>c\<in>set ?cs. journal_call_ok c" by (simp add: first_values next_values)
  from sqlite_journal_refines_memory [OF this, of any_match] m
  obtain f ps where f: "open_obs_db any_match True True empty_obs_db = Inr f"
    "run_calls (call_sqlite any_match) ?cs f = (ps, db_of s)"
    "\<forall>n<3. same_answer (?cs ! n) ([Inr 0, Inr 1, Inl e] ! n) (ps ! n)" by auto
  have "ps ! 0 = Inr 0" "ps ! 1 = Inr 1 \<or> \<not> is_ok (ps ! 1) \<and> \<not> is_ok (Inr 1 :: int res)" "\<not> is_ok (ps ! 2)"
    using f(3) [rule_format, of 0] f(3) [rule_format, of 1] f(3) [rule_format, of 2] by (auto simp: is_ok_iff)
  then show ?thesis using f(1,2) s(2) by (auto simp: is_ok_iff)
qed

theorem observation_journal_reopens_witness:
  "\<exists>f g es fs. run_calls (db_step re_search) [DbAppend first_event] (db_of empty_obs_store) = ([Inr 0], f)
     \<and> snd (run_calls (db_step re_search) [DbOnce first_checkpoint first_event] f) = g
     \<and> open_obs_db re_search True True f = Inr f \<and> db_events f = Inr es \<and> db_events g = Inr (es @ fs)"
proof -
  have ok: "obs_ok re_search empty_obs_store" by (rule journal_empty)
  obtain s where s: "obs_append re_search first_event empty_obs_store = (Inr 0, s)"
    using first_event_stored by (cases "obs_append re_search first_event empty_obs_store") (auto split: prod.splits)
  then have "db_append re_search first_event (db_of empty_obs_store) = (Inr 0, db_of s)"
    using db_append_refines [OF ok first_values(1)] by simp
  then have f: "run_calls (db_step re_search) [DbAppend first_event] (db_of empty_obs_store) = ([Inr 0], db_of s)" by simp
  obtain ps g where g: "run_calls (db_step re_search) [DbOnce first_checkpoint first_event] (db_of s) = (ps, g)" by fastforce
  have "\<exists>es fs. open_obs_db re_search True True (db_of s) = Inr (db_of s) \<and> db_events (db_of s) = Inr es
      \<and> db_events g = Inr (es @ fs)"
    by (rule observation_journal_reopens [OF new_file_opens f g]) (simp add: first_values)
  then show ?thesis using f g by auto
qed

section \<open>One dispatch per intent\<close>

text \<open>
  The journal a one-shot gate needs: recording an intent once succeeds only if its identity is new and
  records it, and nothing removes an identity. \<open>usable\<close> is the journal's own invariant, \<open>proper\<close> the
  values it is called with, and \<open>perform\<close> every other operation on it.
\<close>

locale once_journal =
  fixes once :: "pyval \<Rightarrow> pyval \<Rightarrow> ('s, int) eff"
    and ids :: "'s \<Rightarrow> string set"
    and usable :: "'s \<Rightarrow> bool"
    and perform :: "'c \<Rightarrow> ('s, int) eff"
    and proper :: "'c \<Rightarrow> bool"
  assumes once_keeps: "usable s \<Longrightarrow> json_value cp \<Longrightarrow> json_value ev \<Longrightarrow> once cp ev s = (r, t) \<Longrightarrow> usable t \<and> ids s \<subseteq> ids t"
    and once_new: "usable s \<Longrightarrow> json_value cp \<Longrightarrow> json_value ev \<Longrightarrow> once cp ev s = (Inr n, t) \<Longrightarrow>
        event_id ev \<notin> ids s \<and> event_id ev \<in> ids t"
    and perform_keeps: "usable s \<Longrightarrow> proper c \<Longrightarrow> perform c s = (r, t) \<Longrightarrow> usable t \<and> ids s \<subseteq> ids t"

text \<open>
  A gated dispatch of an intent, whose side effect notes that it started and then answers anything, after
  a callback that may refuse; or another operation on the journal.
\<close>

datatype ('c, 'a) gate_call =
    Dispatch pyval pyval "unit res option" "'a res"
  | Write 'c

definition noting :: "pyval \<Rightarrow> 'a res \<Rightarrow> (string list, 'a) eff" where
  "noting ev x = (\<lambda>w. (x, w @ [event_id ev]))"

definition answering :: "unit res \<Rightarrow> int \<Rightarrow> (string list, unit) eff" where
  "answering y cursor = (\<lambda>w. (y, w))"

fun gate_step :: "'s gate_store \<Rightarrow> ('c \<Rightarrow> ('s, int) eff) \<Rightarrow> ('c, 'a) gate_call \<Rightarrow> 's \<times> string list \<Rightarrow> 's \<times> string list" where
  "gate_step st perform (Dispatch cp ev cb x) z =
     snd (run_gated_dispatch st cp ev (Some (on_world (noting ev x))) True (Some (map_option answering cb)) z)"
| "gate_step st perform (Write c) z = (snd (perform c (fst z)), snd z)"

fun proper_call :: "('c \<Rightarrow> bool) \<Rightarrow> ('c, 'a) gate_call \<Rightarrow> bool" where
  "proper_call proper (Dispatch cp ev cb x) = (json_value cp \<and> json_value ev)"
| "proper_call proper (Write c) = proper c"

text \<open>The state of a one-shot gate run: a refusal leaves the world alone, else the dispatch starts once.\<close>

lemma gated_once:
  assumes "gs_record st \<noteq> None" "gs_append st \<noteq> None" "gs_once st = Some once"
  shows "snd (run_gated_dispatch st cp ev (Some (on_world (noting ev x))) True (Some (map_option answering cb)) (s, w)) =
    (case once cp ev s of
       (Inl e, t) \<Rightarrow> (t, w)
     | (Inr n, t) \<Rightarrow> (t, if cb = None \<or> cb = Some (Inr ()) then w @ [event_id ev] else w))"
proof -
  obtain r t where o: "once cp ev s = (r, t)" by fastforce
  show ?thesis
  proof (cases r)
    case (Inl e)
    then show ?thesis using assms o
      by (auto simp add: run_gated_dispatch_def gate_records_def ebind_def ecatch_def on_store_def eunless_def)
  next
    case (Inr n)
    show ?thesis
    proof (cases cb)
      case None
      then show ?thesis using assms o Inr
        by (cases x) (simp_all add: run_gated_dispatch_def gate_records_def ebind_def ecatch_def on_store_def on_world_def
            eunless_def noting_def)
    next
      case (Some y)
      then show ?thesis using assms o Inr
        by (cases y; cases x) (auto simp: run_gated_dispatch_def gate_records_def ebind_def ecatch_def on_store_def
            on_world_def eunless_def noting_def answering_def)
    qed
  qed
qed

context once_journal
begin

lemma gate_step_once:
  assumes st: "gs_record st \<noteq> None" "gs_append st \<noteq> None" "gs_once st = Some once"
    and inv: "usable s" "distinct w" "set w \<subseteq> ids s" and c: "proper_call proper c"
    and run: "gate_step st perform c (s, w) = (t, v)"
  shows "usable t \<and> distinct v \<and> set v \<subseteq> ids t"
proof (cases c)
  case (Dispatch cp ev cb x)
  obtain r u where u: "once cp ev s = (r, u)" by fastforce
  have j: "json_value cp" "json_value ev" using c Dispatch by simp_all
  have keep: "usable u \<and> ids s \<subseteq> ids u" by (rule once_keeps [OF inv(1) j u])
  show ?thesis
  proof (cases r)
    case (Inl e)
    then show ?thesis using run u keep inv Dispatch gated_once [OF st, of cp ev x cb s w] by auto
  next
    case (Inr n)
    have "event_id ev \<notin> ids s \<and> event_id ev \<in> ids u"
      by (rule once_new [OF inv(1) j]) (use u Inr in simp)
    then show ?thesis using run u Inr keep inv Dispatch gated_once [OF st, of cp ev x cb s w]
      by (auto split: if_splits)
  qed
next
  case (Write d)
  obtain r u where u: "perform d s = (r, u)" by fastforce
  show ?thesis using run u Write inv perform_keeps [OF inv(1) _ u] c by auto
qed

lemma gate_run_once:
  assumes st: "gs_record st \<noteq> None" "gs_append st \<noteq> None" "gs_once st = Some once"
  shows "usable s \<Longrightarrow> distinct w \<Longrightarrow> set w \<subseteq> ids s \<Longrightarrow> \<forall>c\<in>set cs. proper_call proper c \<Longrightarrow>
    fold (gate_step st perform) cs (s, w) = (t, v) \<Longrightarrow> distinct v \<and> set v \<subseteq> ids t"
proof (induction cs arbitrary: s w)
  case (Cons c cs)
  obtain u x where u: "gate_step st perform c (s, w) = (u, x)" by fastforce
  have "usable u \<and> distinct x \<and> set x \<subseteq> ids u"
    by (rule gate_step_once [OF st Cons.prems(1-3) _ u]) (use Cons.prems(4) in simp)
  then show ?case using Cons.IH [of u x] Cons.prems(4,5) u by simp
qed simp

end

text \<open>Both journals are such journals.\<close>

interpretation memory_once: once_journal "obs_record_once re" "\<lambda>s. recorded_ids (os_events s)" "obs_ok re"
  "obs_call_mem re" "\<lambda>c. json_value (call_value c)" for re
proof (unfold_locales, goal_cases)
  case 1
  then show ?case using obs_once_cases(1,2) by blast
next
  case 2
  then show ?case using obs_once_cases(3) by blast
next
  case (3 s c r t)
  have "\<exists>es. os_events t = os_events s @ es"
    using 3 obs_append_cases [OF 3(1,2)] obs_checkpoint_cases [OF 3(1,2)] by (cases c) fastforce+
  then show ?case using obs_call_refines [OF 3] by (auto simp: recorded_ids_def)
qed

definition db_usable :: "(pyval \<Rightarrow> string \<Rightarrow> bool res) \<Rightarrow> obs_db \<Rightarrow> bool" where
  "db_usable re f \<longleftrightarrow> (\<exists>s. represents re f s)"

definition db_ids :: "obs_db \<Rightarrow> string set" where
  "db_ids f = set (map or_id (od_events f))"

lemma db_ids_of: "represents re f s \<Longrightarrow> db_ids f = recorded_ids (os_events s)"
  unfolding db_ids_def recorded_ids_def by (simp add: represents_def ids_rows_of del: set_map)

interpretation sqlite_once: once_journal "db_record_once re" db_ids "db_usable re" "db_step re"
  "\<lambda>c. \<forall>v\<in>set (db_values c). json_value v" for re
proof (unfold_locales, goal_cases)
  case (1 f cp ev r g)
  then show ?case
    using db_step_represents [of re f _ "DbOnce cp ev" r g] db_ids_of by (fastforce simp: db_usable_def recorded_ids_def)
next
  case (2 f cp ev n g)
  then obtain s where s: "represents re f s" by (auto simp: db_usable_def)
  then have "g = db_of (push_event ev (with_checkpoint cp s)) \<and> event_id ev \<notin> set (map event_id (os_events s))"
    using db_once_cases [of re s cp ev "Inr n" g] 2 by (auto simp: represents_def)
  moreover have "db_ids f = recorded_ids (os_events s)" by (rule db_ids_of [OF s])
  ultimately show ?case by (auto simp: db_ids_def recorded_ids_def rows_of_snoc)
next
  case (3 f c r g)
  then show ?case
    using db_step_represents [of re f _ c r g] db_ids_of by (fastforce simp: db_usable_def recorded_ids_def)
qed

text \<open>Claim C31: Over any sequence of one-shot gated dispatches and other journal operations, on the SQLite journal
  and on the one in memory, each intent is dispatched at most once, and only an intent whose record is in the
  journal.\<close>

theorem intent_dispatched_once:
  assumes "\<forall>c\<in>set cs. proper_call (\<lambda>c. \<forall>v\<in>set (db_values c). json_value v) c"
    and "fold (gate_step (sqlite_gate re) (db_step re)) cs (db_of empty_obs_store, []) = (f, started)"
    and "\<forall>c\<in>set ds. proper_call (\<lambda>c. json_value (call_value c)) c"
    and "fold (gate_step (memory_gate re) (obs_call_mem re)) ds (empty_obs_store, []) = (s, noted)"
  shows "distinct started \<and> set started \<subseteq> db_ids f \<and> distinct noted \<and> set noted \<subseteq> recorded_ids (os_events s)"
proof -
  have "db_usable re (db_of empty_obs_store)" using journal_empty by (auto simp: db_usable_def represents_def)
  then have "distinct started \<and> set started \<subseteq> db_ids f"
    using sqlite_once.gate_run_once [of "sqlite_gate re" re _ "[]" cs f started] assms(1,2) by (auto simp: sqlite_gate_def)
  moreover have "distinct noted \<and> set noted \<subseteq> recorded_ids (os_events s)"
    using memory_once.gate_run_once [of "memory_gate re" re _ "[]" ds s noted] assms(3,4) journal_empty [of re]
    by (auto simp: memory_gate_def)
  ultimately show ?thesis by blast
qed

theorem intent_dispatched_once_witness:
  "\<exists>f started s noted.
     fold (gate_step (sqlite_gate re_search) (db_step re_search))
       [Write (DbAppend first_event), Dispatch first_checkpoint next_event None (Inr ()),
        Dispatch first_checkpoint next_event None (Inr ())] (db_of empty_obs_store, []) = (f, started)
     \<and> fold (gate_step (memory_gate re_search) (obs_call_mem re_search))
       [Write (AppendEvent first_event), Dispatch first_checkpoint next_event (Some (Inr ())) (Inr ())]
       (empty_obs_store, []) = (s, noted)
     \<and> distinct started \<and> set started \<subseteq> db_ids f \<and> distinct noted \<and> set noted \<subseteq> recorded_ids (os_events s)"
proof -
  let ?cs = "[Write (DbAppend first_event), Dispatch first_checkpoint next_event None (Inr ()),
      Dispatch first_checkpoint next_event None (Inr ())]"
  let ?ds = "[Write (AppendEvent first_event), Dispatch first_checkpoint next_event (Some (Inr ())) (Inr ())]"
  obtain f started where f: "fold (gate_step (sqlite_gate re_search) (db_step re_search)) ?cs (db_of empty_obs_store, []) = (f, started)"
    by fastforce
  obtain s noted where s: "fold (gate_step (memory_gate re_search) (obs_call_mem re_search)) ?ds (empty_obs_store, []) = (s, noted)"
    by fastforce
  have n: "json_value next_event" by (simp add: next_event_def first_event_def)
  have "distinct started \<and> set started \<subseteq> db_ids f \<and> distinct noted \<and> set noted \<subseteq> recorded_ids (os_events s)"
    by (rule intent_dispatched_once [OF _ f _ s]) (simp_all add: first_values n)
  then show ?thesis using f s by blast
qed

section \<open>Refusals\<close>

text \<open>Without \<open>once\<close> a refusal of the gate starts nothing.\<close>

lemma refusal_starts_nothing:
  assumes "run_gated_dispatch st cp ev (Some (on_world run)) False (Some None) (s, w) = (Inl e, (t, v))"
    and "exn_class e = PreDispatchError" and "\<And>e. fst (run w) = Inl e \<Longrightarrow> exn_class e \<noteq> PreDispatchError"
  shows "v = w"
proof -
  have "snd u = w" if "gate_records st False cp ev None (s, w) = (r, u)" for r u
    using that by (auto simp: gate_records_def ebind_def on_store_def elift_def eret_def split: option.splits prod.splits sum.splits)
  then show ?thesis using assms
    by (cases "run w")
      (auto simp: run_gated_dispatch_def eunless_def ebind_def ecatch_def on_world_def split: if_splits prod.splits sum.splits)
qed

text \<open>
  With \<open>once\<close> the dispatch runs inside the same handler: its own contract, conflict or journal errors are
  reported as a refusal of the gate although it ran.
\<close>

lemma once_reports_dispatch_as_refusal:
  assumes "gs_record st \<noteq> None" "gs_append st \<noteq> None" "gs_once st = Some once"
    and "once cp ev s = (Inr n, t)" and "run w = (Inl e, v)"
    and "exn_class e \<in> {ContractValidationError, EventConflictError, ObservationStoreError}"
  shows "run_gated_dispatch st cp ev (Some (on_world run)) True (Some None) (s, w) = (Inl (gate_error (exn_msg e)), (t, v))"
  using assms by (auto simp: run_gated_dispatch_def gate_records_def eunless_def ebind_def ecatch_def on_store_def
      on_world_def gated_def)

text \<open>
  The journal in memory records the checkpoint before the intent: when the intent has no canonical text
  the checkpoint stays although the operation fails.
\<close>

lemma memory_once_keeps_checkpoint:
  assumes "validate re ev event_schema = Inr ()" "\<not> encodable ev" "map_of (os_digests s) (event_id ev) = None"
    and "obs_record_checkpoint re cp s = (Inr n, t)"
  shows "obs_record_once re cp ev s = (Inl (Exn ValueError ''canonical JSON is not encodable''), t)"
proof -
  obtain e where e: "sha256_digest ev = Inl e" using assms(2) sha256_digest_ok [of ev] by (cases "sha256_digest ev") auto
  then have "e = Exn ValueError ''canonical JSON is not encodable''" by (rule sha256_digest_Inl)
  then show ?thesis using assms e by (simp add: obs_record_once_def ebind_def obs_append_def)
qed

end
