(* ===== verification/Observed_Sample.thy ===== *)
theory Observed_Sample
  imports Observed_Safety Observation_Gate
begin

text \<open>
  One observed run, computed: a new file, the start of the run, and one controlled step that publishes.
  The properties of the observed runs are exercised on it. The sources are fixed, and regular expressions
  are taken to match everything (\<open>any_match\<close>).
\<close>

section \<open>New records\<close>

lemma append_new:
  assumes ok: "obs_ok re s" and e: "json_value e" "validate re e event_schema = Inr ()" "encodable e"
    and new: "event_id e \<notin> set (map event_id (os_events s))"
  shows "db_append re e (db_of s) = (Inr (int (length (os_events s))), db_of (push_event e s))"
    and "obs_ok re (push_event e s)"
proof -
  have d: "sha256_digest e = Inr (digest_of e)" by (rule sha256_digest_encodable [OF e(3)])
  have "map_of (os_digests s) (event_id e) = None"
    using new ok by (simp add: obs_ok_def index_of_None del: set_map)
  then have "obs_append re e s = (Inr (int (length (os_events s))), push_event e s)"
    by (simp add: obs_append_def e(2) d push_event_def)
  then show "db_append re e (db_of s) = (Inr (int (length (os_events s))), db_of (push_event e s))"
    by (simp add: db_append_refines [OF ok e(1)])
  show "obs_ok re (push_event e s)"
    by (rule journal_push_event [OF ok _ new]) (simp add: event_ok_def e(1,2) d)
qed

lemma pair_new:
  assumes ok: "obs_ok re s" and e: "json_value e" "validate re e event_schema = Inr ()" "encodable e"
    and new: "event_id e \<notin> set (map event_id (os_events s))"
    and c: "json_value c" "check_checkpoint re (Inr (os_events s)) c = Inr k" "encodable c" "is_dict c"
    and fresh: "checkpoint_id c \<notin> set (map checkpoint_id (os_checkpoints s))"
  shows "db_record_pair re c e (db_of s) = (Inr (int (length (os_events s))), db_of (push_event e (push_checkpoint c s)))"
    and "obs_ok re (push_event e (push_checkpoint c s))"
proof -
  have d: "sha256_digest e = Inr (digest_of e)" "sha256_digest c = Inr (digest_of c)"
    by (rule sha256_digest_encodable, rule e(3) c(3))+
  have w: "with_checkpoint c s = push_checkpoint c s" using fresh by (simp add: with_checkpoint_def)
  have "row_of (event_id e) (od_events (db_of s)) = None" using row_of_event [OF ok] new by simp
  moreover have "\<not> checkpoint_conflict c (digest_of c) (db_of s)"
  proof -
    have "map_of (index_of checkpoint_id (os_checkpoints s)) (checkpoint_id c) = None"
      unfolding index_of_None by (rule fresh)
    then show ?thesis using row_of_new by (simp add: checkpoint_conflict_def)
  qed
  moreover have "event_id e \<notin> set (map event_id (os_events (push_checkpoint c s)))" using new by simp
  ultimately show "db_record_pair re c e (db_of s) = (Inr (int (length (os_events s))), db_of (push_event e (push_checkpoint c s)))"
    using c(2,4) e(2) d add_checkpoint_of [OF ok d(2)] add_event_of [OF _ d(1), of "push_checkpoint c s"] w
    by (simp add: db_record_pair_def pair_digests_def journal_txn_def ebind_def db_check_refines [OF ok] del: db_of_simps)
  have "checkpoint_ok re (os_events s) c" using c d by (simp add: checkpoint_ok_def is_ok_iff)
  from journal_push_event [OF journal_push_checkpoint [OF ok this fresh]]
  show "obs_ok re (push_event e (push_checkpoint c s))" using new by (simp add: event_ok_def e(1,2) d)
qed

section \<open>The records of the run\<close>

definition fixed_sources :: "nat run_sources" where
  "fixed_sources = \<lparr>src_id = (\<lambda>n. (Inr (PStr (''aaaaaaa'' @ [char_of (97 + n)])), n + 1)),
     src_clock = (\<lambda>n. (Inr (NowAt \<lparr>wall = 63902822400000000, utc_offset = Some 0\<rparr>), n))\<rparr>"

lemma fixed_time: "timestamp_of (NowAt \<lparr>wall = 63902822400000000, utc_offset = Some 0\<rparr>) = Inr ''2026-01-01T00:00:00Z''"
  by code_simp

abbreviation sample_time :: string where
  "sample_time \<equiv> ''2026-01-01T00:00:00Z''"

definition first_run :: "nat observed_run" where
  "first_run = (initial_run ''process-1'' ''task-1'' 0)\<lparr>run_id := ''run-1''\<rparr>"

definition start_record :: pyval where
  "start_record = PDict (event_base ''agent_started'' ''event-aaaaaaaa'' service_worker sample_time first_run
     @ [(''invocation_id'', PStr ''invocation-aaaaaaab'')])"

definition started_run :: "nat observed_run" where
  "started_run = (noted ''event-aaaaaaaa'' 0 (first_run\<lparr>run_invocation := Some ''invocation-aaaaaaab'', run_env := 2\<rparr>))
     \<lparr>run_start_event := Some ''event-aaaaaaaa''\<rparr>"

abbreviation publish_step :: string where
  "publish_step \<equiv> ''Publication.dispatch''"

definition step_point :: pyval where
  "step_point = checkpoint_record (step_call publish_step) ''checkpoint-aaaaaaac'' sample_time started_run"

definition step_intent :: pyval where
  "step_intent = intent_record (step_call publish_step) ''checkpoint-aaaaaaac'' ''invocation-aaaaaaad'' ''event-aaaaaaae''
     sample_time started_run"

definition step_completed :: pyval where
  "step_completed = PDict (event_base ''tool_completed'' ''event-aaaaaaaf'' ''service-publication-observer'' sample_time
       (noted ''event-aaaaaaae'' 1 started_run)
     @ snd (step_answer publish_step ''invocation-aaaaaaad'' ''event-aaaaaaae'' (Inr ())))"

lemma start_accepted:
  "is_ok (validate_at any_match 6 ''$'' start_record event_schema)"
  by code_simp

lemma point_accepted: "is_ok (validate_at any_match 6 ''$'' step_point checkpoint_schema)"
  by code_simp

lemma intent_accepted: "is_ok (validate_at any_match 6 ''$'' step_intent event_schema)"
  by code_simp

lemma completed_accepted: "is_ok (validate_at any_match 6 ''$'' step_completed event_schema)"
  by code_simp

lemma publish_slug: "step_slug publish_step = ''publication-dispatch''"
  by code_simp

lemma record_values:
  "json_value start_record" "encodable start_record" "json_value step_intent" "encodable step_intent"
  "json_value step_point" "encodable step_point" "json_value step_completed" "encodable step_completed"
  "is_dict step_point"
  by (simp_all add: start_record_def step_intent_def step_point_def step_completed_def event_base_def intent_record_def
      intent_fields_def checkpoint_record_def step_call_def controlled_steps_def tool_steps_def publish_slug
      step_answer_def Let_def opt_str_def opt_int_def started_run_def noted_def first_run_def initial_run_def
      is_ok_def text_eval nat_digits.simps)

lemma record_ids:
  "event_id start_record = ''event-aaaaaaaa''" "event_id step_intent = ''event-aaaaaaae''"
  "event_id step_completed = ''event-aaaaaaaf''" "checkpoint_id step_point = ''checkpoint-aaaaaaac''"
  by (simp_all add: start_record_def step_intent_def step_point_def step_completed_def event_base_def intent_record_def
      checkpoint_record_def)

definition store1 :: obs_store where
  "store1 = push_event start_record empty_obs_store"

definition store2 :: obs_store where
  "store2 = push_event step_intent (push_checkpoint step_point store1)"

definition store3 :: obs_store where
  "store3 = push_event step_completed store2"

lemma store_events:
  "os_events store1 = [start_record]" "os_events store2 = [start_record, step_intent]"
  "os_events store3 = [start_record, step_intent, step_completed]" "os_checkpoints store1 = []"
  by (simp_all add: store1_def store2_def store3_def empty_obs_store_def)

lemma point_checked: "check_checkpoint any_match (Inr [start_record]) step_point = Inr 0"
proof -
  have "position_of ''event_id'' ''event-aaaaaaaa'' [start_record] = Some 0"
    by (simp add: position_of_def start_record_def event_base_def)
  moreover have "same_context start_record step_point = Inr ()"
    by (simp add: same_context_def start_record_def step_point_def checkpoint_record_def event_base_def started_run_def
        noted_def first_run_def initial_run_def)
  moreover have "fld step_point ''trigger_event_id'' = PStr ''event-aaaaaaaa''" "fld step_point ''event_cursor'' = PInt 0"
    by (simp_all add: step_point_def checkpoint_record_def started_run_def noted_def opt_str_def opt_int_def)
  ultimately show ?thesis
    using accepted_checkpoint [OF point_accepted] record_values(9) by (simp add: check_checkpoint_def Let_def)
qed

lemma sample_writes:
  "db_append any_match start_record (db_of empty_obs_store) = (Inr 0, db_of store1)"
  "db_record_pair any_match step_point step_intent (db_of store1) = (Inr 1, db_of store2)"
  "db_append any_match step_completed (db_of store2) = (Inr 2, db_of store3)"
  "obs_ok any_match store1" "obs_ok any_match store2" "obs_ok any_match store3"
proof -
  have e: "event_id start_record \<notin> set (map event_id (os_events empty_obs_store))" by (simp add: empty_obs_store_def)
  note 1 = append_new [OF journal_empty record_values(1) accepted_valid [OF start_accepted] record_values(2) e, folded store1_def]
  from 1 show "db_append any_match start_record (db_of empty_obs_store) = (Inr 0, db_of store1)" "obs_ok any_match store1"
    by (simp_all add: empty_obs_store_def)
  have n: "event_id step_intent \<notin> set (map event_id (os_events store1))"
    "checkpoint_id step_point \<notin> set (map checkpoint_id (os_checkpoints store1))"
    by (simp_all add: store_events record_ids)
  note 2 = pair_new [OF 1(2) record_values(3) accepted_valid [OF intent_accepted] record_values(4) n(1) record_values(5)
      point_checked [folded store_events(1)] record_values(6,9) n(2), folded store2_def]
  then show "db_record_pair any_match step_point step_intent (db_of store1) = (Inr 1, db_of store2)" "obs_ok any_match store2"
    by (simp_all add: store_events)
  have c: "event_id step_completed \<notin> set (map event_id (os_events store2))" by (simp add: store_events record_ids)
  note 3 = append_new [OF 2(2) record_values(7) accepted_valid [OF completed_accepted] record_values(8) c, folded store3_def]
  then show "db_append any_match step_completed (db_of store2) = (Inr 2, db_of store3)" "obs_ok any_match store3"
    by (simp_all add: store_events)
qed

section \<open>The run\<close>

lemma sample_chars: "char_of (97::nat) = CHR ''a''" "char_of (98::nat) = CHR ''b''" "char_of (99::nat) = CHR ''c''"
  "char_of (100::nat) = CHR ''d''" "char_of (101::nat) = CHR ''e''" "char_of (102::nat) = CHR ''f''"
  by code_simp+

lemma fixed_ids:
  "next_id fixed_sources (r\<lparr>run_env := 0\<rparr>) = (Inr ''aaaaaaaa'', r\<lparr>run_env := 1\<rparr>)"
  "next_id fixed_sources (r\<lparr>run_env := 1\<rparr>) = (Inr ''aaaaaaab'', r\<lparr>run_env := 2\<rparr>)"
  "next_id fixed_sources (r\<lparr>run_env := 2\<rparr>) = (Inr ''aaaaaaac'', r\<lparr>run_env := 3\<rparr>)"
  "next_id fixed_sources (r\<lparr>run_env := 3\<rparr>) = (Inr ''aaaaaaad'', r\<lparr>run_env := 4\<rparr>)"
  "next_id fixed_sources (r\<lparr>run_env := 4\<rparr>) = (Inr ''aaaaaaae'', r\<lparr>run_env := 5\<rparr>)"
  "next_id fixed_sources (r\<lparr>run_env := 5\<rparr>) = (Inr ''aaaaaaaf'', r\<lparr>run_env := 6\<rparr>)"
  by (simp_all add: next_id_def fixed_sources_def on_env_def ebind_def is_safe_id_def is_id_char_def sample_chars)

lemma fixed_stamp: "run_timestamp fixed_sources r = (Inr sample_time, r)"
  by (simp add: run_timestamp_def fixed_sources_def on_env_def ebind_def fixed_time)

lemma sqlite_methods:
  "gs_append (ost_gate (sqlite_observer re)) = Some (db_append re)"
  "gs_record (ost_gate (sqlite_observer re)) = Some (db_record_checkpoint re)"
  "gs_pair (ost_gate (sqlite_observer re)) = Some (db_record_pair re)"
  by (simp_all add: sqlite_observer_def sqlite_gate_def)

lemma sample_start:
  "start_run fixed_sources (sqlite_observer any_match) None (db_of empty_obs_store, first_run, w) = (Inr (), (db_of store1, started_run, w))"
proof -
  have e: "ost_events (sqlite_observer any_match) (db_of empty_obs_store) = Inr []"
    using sqlite_journal.events [of any_match "db_of empty_obs_store"] journal_empty
    by (auto simp: db_ok_def empty_obs_store_def)
  have f: "fresh_id fixed_sources p [] id_attempts r = (Inr (Some (p @ i)), q)"
    if "next_id fixed_sources r = (Inr i, q)" for p r i q
    by (subst fresh_id.simps) (simp add: id_attempts_def ebind_def that)
  have env: "first_run = first_run\<lparr>run_env := 0\<rparr>" by (simp add: first_run_def initial_run_def)
  have i: "fresh_id fixed_sources ''event-'' [] id_attempts first_run = (Inr (Some ''event-aaaaaaaa''), first_run\<lparr>run_env := 1\<rparr>)"
    "fresh_id fixed_sources ''invocation-'' [] id_attempts (first_run\<lparr>run_env := 1\<rparr>) =
       (Inr (Some ''invocation-aaaaaaab''), first_run\<lparr>run_env := 2\<rparr>)"
    using f [OF fixed_ids(1), of "''event-''" first_run] f [OF fixed_ids(2), of "''invocation-''" first_run] env by simp_all
  let ?r = "first_run\<lparr>run_env := 2, run_invocation := Some ''invocation-aaaaaaab''\<rparr>"
  have b: "base_event fixed_sources ''agent_started'' ''event-aaaaaaaa'' service_worker ?r
      = (Inr (event_base ''agent_started'' ''event-aaaaaaaa'' service_worker sample_time first_run), ?r)"
    by (simp add: base_event_def eunless_def ebind_def fixed_stamp) (simp add: first_run_def initial_run_def event_base_def)
  show ?thesis
    using sample_writes(1)
    by (simp add: start_run_def ebind_def e on_run_def i [simplified] b append_event_def ecatch_def on_store_def sqlite_methods
        note_event_noted started_run_def noted_def flip: start_record_def)
qed

text \<open>One gated publication on the started run, with a dispatch that counts in the world.\<close>

definition counted_dispatch :: "((obs_db, nat, nat) run_state, unit) eff" where
  "counted_dispatch = (\<lambda>(s, q, w). (Inr (), (s, q, w + 1)))"

definition step_settle :: "string \<Rightarrow> string \<Rightarrow> unit res \<Rightarrow> ((obs_db, nat, nat) run_state, unit) eff" where
  "step_settle iid eid x = record_answer fixed_sources (sqlite_observer any_match) (err_lost step_errors)
     (call_agent (step_call publish_step)) (step_answer publish_step iid eid x)"

definition stepped_run :: "nat observed_run" where
  "stepped_run = noted ''event-aaaaaaaf'' 2 (noted ''event-aaaaaaae'' 1 started_run)\<lparr>run_env := 6\<rparr>"

text \<open>\<open>ss\<close> are the steps the run has used; they are in no record.\<close>

lemma sample_call_opened: "open_call fixed_sources (step_call publish_step) (fresh_ids fixed_sources) (started_run\<lparr>run_steps_used := ss\<rparr>) =
    (Inr (step_point, step_intent, ''invocation-aaaaaaad'', ''event-aaaaaaae''), started_run\<lparr>run_steps_used := ss, run_env := 5\<rparr>)"
proof -
  let ?r = "started_run\<lparr>run_steps_used := ss\<rparr>"
  have env: "?r = ?r\<lparr>run_env := 2\<rparr>" by (simp add: started_run_def noted_def)
  have i: "next_id fixed_sources ?r = (Inr ''aaaaaaac'', ?r\<lparr>run_env := 3\<rparr>)"
    "next_id fixed_sources (?r\<lparr>run_env := 3\<rparr>) = (Inr ''aaaaaaad'', ?r\<lparr>run_env := 4\<rparr>)"
    "next_id fixed_sources (?r\<lparr>run_env := 4\<rparr>) = (Inr ''aaaaaaae'', ?r\<lparr>run_env := 5\<rparr>)"
    using fixed_ids(3) [of ?r] fixed_ids(4,5) env by simp_all
  have b: "base_event fixed_sources et eid agent (?r\<lparr>run_env := 5\<rparr>)
      = (Inr (event_base et eid agent sample_time started_run), ?r\<lparr>run_env := 5\<rparr>)" for et eid agent
    by (simp add: base_event_def eunless_def ebind_def fixed_stamp) (simp add: started_run_def noted_def first_run_def initial_run_def event_base_def)
  show ?thesis
    by (simp add: open_call_def fresh_ids_def ebind_def i fixed_stamp b step_point_def step_intent_def intent_record_def
        checkpoint_record_def intent_fields_def)
qed

lemma sample_call_runs:
  "gated_call fixed_sources (sqlite_observer any_match) (step_call publish_step) (fresh_ids fixed_sources) False False
     (refuse_call step_errors) counted_dispatch step_settle (db_of store1, started_run\<lparr>run_steps_used := ss\<rparr>, w) =
   (Inr (Inr ()), (db_of store3, stepped_run\<lparr>run_steps_used := ss\<rparr>, w + 1))"
proof -
  let ?q = "(noted ''event-aaaaaaae'' 1 started_run)\<lparr>run_steps_used := ss\<rparr>"
  have env: "noted ''event-aaaaaaae'' 1 (started_run\<lparr>run_steps_used := ss, run_env := 5\<rparr>) = ?q\<lparr>run_env := 5\<rparr>" by (simp add: noted_def)
  have i: "next_id fixed_sources (?q\<lparr>run_env := 5\<rparr>) = (Inr ''aaaaaaaf'', ?q\<lparr>run_env := 6\<rparr>)"
    by (rule fixed_ids(6))
  have b: "base_event fixed_sources et eid agent (?q\<lparr>run_env := 6\<rparr>)
      = (Inr (event_base et eid agent sample_time ?q), ?q\<lparr>run_env := 6\<rparr>)" for et eid agent
    by (simp add: base_event_def eunless_def ebind_def fixed_stamp) (simp add: started_run_def noted_def first_run_def initial_run_def event_base_def)
  have final: "noted ''event-aaaaaaaf'' 2 (?q\<lparr>run_env := 6\<rparr>) = stepped_run\<lparr>run_steps_used := ss\<rparr>" by (simp add: noted_def stepped_run_def)
  define fs where "fs = snd (step_answer publish_step ''invocation-aaaaaaad'' ''event-aaaaaaae'' (Inr ()))"
  have a: "step_answer publish_step ''invocation-aaaaaaad'' ''event-aaaaaaae'' (Inr ()) = (''tool_completed'', fs)"
    by (simp add: fs_def step_answer_def Let_def tool_steps_def is_ok_def)
  have completed: "step_completed = PDict (event_base ''tool_completed'' ''event-aaaaaaaf'' ''service-publication-observer''
      sample_time ?q @ fs)" by (simp add: step_completed_def fs_def event_base_def)
  have agent: "call_agent (step_call publish_step) = ''service-publication-observer''" by (simp add: step_call_def)
  have settle: "step_settle ''invocation-aaaaaaad'' ''event-aaaaaaae'' (Inr ()) (db_of store2, ?q\<lparr>run_env := 5\<rparr>, v) =
      (Inr (), (db_of store3, stepped_run\<lparr>run_steps_used := ss\<rparr>, v))" for v
    unfolding step_settle_def a agent
    using sample_writes(3)
    by (simp add: record_answer_def ebind_def on_run_def i b append_event_def ecatch_def on_store_def sqlite_methods
        note_event_noted final completed)
  show ?thesis
    using sample_writes(2)
    by (simp add: gated_call_def ebind_def on_run_def sample_call_opened run_gated_dispatch_def eunless_def sqlite_methods
        gate_records_def ecatch_def on_store_def Let_def captured_def counted_dispatch_def note_event_noted env settle)
qed

end
