(* ===== verification/Observed_Programs.thy ===== *)
theory Observed_Programs
  imports Observed_Sample
begin

text \<open>
  The properties of whole programs over an observed run, on the journal in SQLite and on the one in
  memory: events in order, a run that is over is silent, no dispatch before its intent is stored, no
  value before its answer is, and what a finished run has settled.
\<close>

section \<open>The first and the last events\<close>

text \<open>What admits the end of a run.\<close>

definition may_finish :: "'s observer_store \<Rightarrow> pyval \<Rightarrow> 's \<Rightarrow> 'e observed_run \<Rightarrow> bool" where
  "may_finish st status s r \<longleftrightarrow> \<not> run_finished r \<and> run_agent_finished r \<and> is_str status \<and> str_of status \<in> set finish_statuses \<and>
     all_work_terminal st r s = Inr True \<and> all_invocations_terminal st r s"

definition end_record :: "string \<Rightarrow> string \<Rightarrow> pyval \<Rightarrow> string \<Rightarrow> 'e observed_run \<Rightarrow> pyval" where
  "end_record i latest status tm r = PDict (event_base ''run_finished'' i service_worker tm r
     @ [(''causal_event_ids'', PList [PStr latest]), (''status'', status)])"

lemma same_end [simp]:
  "event_base t i a tm (r\<lparr>run_finished := b\<rparr>) = event_base t i a tm r"
  by (simp add: event_base_def)

context observed_journal
begin

lemma emit_keeps:
  assumes fs: "answer_fields_ok fs" and et: "et \<noteq> ''run_finished''" and k: "keeps lax k"
  shows "keeps lax (ebind (on_run (base_event src et i agent)) (\<lambda>base. ebind (append_event st lost i (base @ fs)) (\<lambda>_. k)))"
proof (rule relatedI, clarify)
  fix s r w x t q v
  assume run: "ebind (on_run (base_event src et i agent)) (\<lambda>base. ebind (append_event st lost i (base @ fs)) (\<lambda>_. k)) (s, r, w)
    = (x, (t, q, v))"
  obtain b r1 where b: "base_event src et i agent r = (b, r1)" by fastforce
  obtain e1 where r1: "r1 = r\<lparr>run_env := e1\<rparr>" using env_onlyD [OF env_only_base b] by blast
  show "run_progress lax evs ok (s, r, w) (t, q, v)"
  proof (cases "is_ok b \<and> ok s")
    case False
    then show ?thesis
    proof (cases "ok s")
      case True
      then have "t = s \<and> q = r\<lparr>run_env := e1\<rparr> \<and> v = w" using run b r1 \<open>\<not> (is_ok b \<and> ok s)\<close>
        by (cases b) (auto simp: ebind_def on_run_def)
      then show ?thesis by (auto intro!: progress_silent)
    qed (simp add: run_progress_def)
  next
    case True
    then obtain base where base: "b = Inr base" by (auto simp: is_ok_iff)
    obtain tm where tm: "base = event_base et i agent tm r" and fin: "run_finished r \<longrightarrow> et = ''run_finished''"
      by (rule base_event_Inr [OF b [unfolded base]]) simp
    obtain y u where y: "append_event st lost i (event_base et i agent tm r @ fs) (s, r\<lparr>run_env := e1\<rparr>, w) = (y, u)"
      by (meson surj_pair)
    have step: "run_progress lax evs ok (s, r, w) u"
    proof (rule append_event_cases [OF y _ fs])
      fix u' assume "u = (u', r\<lparr>run_env := e1\<rparr>, w)" "ok u'" "evs u' = evs s"
      then show ?thesis by (auto intro!: progress_silent)
    next
      fix u' c
      assume u: "u = (u', noted i c (r\<lparr>run_env := e1\<rparr>), w)" "ok u'"
        "evs u' = evs s \<or> evs u' = evs s @ [view (PDict (event_base et i agent tm r @ fs))]"
      show ?thesis unfolding u(1)
        by (rule progress_appended [OF u(2,3) base_of_next [OF answer_json [OF fs]]]) (use fin et in \<open>auto simp: same_identity_def\<close>)
    qed (use True in simp)
    have "(t, q, v) = u \<or> k u = (x, (t, q, v))"
      using run b r1 base tm y by (cases y) (auto simp: ebind_def on_run_def)
    then show ?thesis using step progress.transitive [OF step relatedD [OF k]] by auto
  qed
qed

lemma start_fields: "answer_fields_ok ([(''invocation_id'', PStr i)]
    @ (case causal of None \<Rightarrow> [] | Some ids \<Rightarrow> [(''causal_event_ids'', PList (map PStr ids))]))"
  by (auto simp: answer_fields_ok_def event_base_def list_all_iff split: option.splits)

lemma flag_keeps:
  "keeps lax (on_run (\<lambda>r. (Inr (), r\<lparr>run_start_event := e\<rparr>)))" "keeps lax (on_run (\<lambda>r. (Inr (), r\<lparr>run_invocation := e\<rparr>)))"
  "keeps lax (on_run (\<lambda>r. (Inr (), r\<lparr>run_agent_finished := True\<rparr>)))"
  by (rule related_set_run [unfolded set_run_def]; simp add: same_identity_def)+

lemma announce_keeps: "keeps lax (ebind (on_run (\<lambda>r. (Inr (), r\<lparr>run_invocation := Some i\<rparr>))) (\<lambda>_.
      ebind (on_run (base_event src ''agent_started'' e service_worker)) (\<lambda>base.
      ebind (append_event st lost e (base @ [(''invocation_id'', PStr i)]
         @ (case causal of None \<Rightarrow> [] | Some ids \<Rightarrow> [(''causal_event_ids'', PList (map PStr ids))]))) (\<lambda>_.
      on_run (\<lambda>r. (Inr (), r\<lparr>run_start_event := Some e\<rparr>))))))"
  by (rule progress.related_ebind [OF flag_keeps(2)]) (rule emit_keeps [OF start_fields _ flag_keeps(1)], simp)

lemma related_both:
  "(\<And>a b. related R (f a b)) \<Longrightarrow> related R g \<Longrightarrow> related R (case (x, y) of (Some a, Some b) \<Rightarrow> f a b | _ \<Rightarrow> g)"
  by (cases x; cases y) simp_all

lemma start_run_keeps: "keeps lax (start_run src st causal)"
  unfolding start_run_def
  by (intro related_split progress.related_ebind related_on_run env_only_fresh_id progress.related_elift related_both announce_keeps)

text \<open>The end of an invocation and of a run: the guards, the flag, the event.\<close>

lemma related_fails: "related (run_progress lax evs ok) (\<lambda>z. (Inl e, z))"
  using progress.related_elift [of lax evs ok "Inl e"] by (simp add: elift_def)

lemma status_fields: "is_str x \<Longrightarrow> answer_fields_ok [(''invocation_id'', PStr i), (''causal_event_ids'', PList [PStr e]), (''status'', x)]"
  by (cases x) (simp_all add: answer_fields_ok_def event_base_def)

lemma finish_agent_keeps: "keeps lax (finish_agent_invocation src st status)"
  unfolding finish_agent_invocation_def
proof (rule related_split, goal_cases)
  case (1 s r w)
  show ?case
  proof (cases "(run_invocation r, run_start_event r)")
    case (Pair iid start)
    show ?thesis unfolding Pair
      by (cases iid; cases start)
        (simp_all add: related_fails, intro related_rules related_on_run env_only_next_id emit_keeps flag_keeps status_fields, simp_all)
  qed
qed

lemma finish_run_cases:
  assumes run: "finish_run src st status (s, r, w) = (x, z)" and ok: "ok s"
  obtains (refused) e where "x = Inl e" "z = (s, r, w)"
  | (failed) t e e' where "x = Inl e" "z = (t, r\<lparr>run_finished := True, run_env := e'\<rparr>, w)" "ok t" "evs t = evs s"
      "may_finish st status s r"
  | (finished) t i c tm latest e' where "x = observer_reference (noted i c (r\<lparr>run_finished := True, run_env := e'\<rparr>))"
      "z = (t, noted i c (r\<lparr>run_finished := True, run_env := e'\<rparr>), w)" "ok t"
      "evs t = evs s \<or> evs t = evs s @ [view (end_record i latest status tm r)]" "recorded (evs t) (end_record i latest status tm r)"
      "may_finish st status s r"
proof (cases "\<exists>latest. run_last_event r = Some latest \<and> may_finish st status s r")
  case False
  then have "\<exists>e. x = Inl e \<and> z = (s, r, w)" using run
    by (cases "run_last_event r") (auto simp: finish_run_def eunless_def may_finish_def or_false_def split: if_splits)
  then show ?thesis using refused by blast
next
  case True
  then obtain latest where last: "run_last_event r = Some latest" and may: "may_finish st status s r" by blast
  let ?q = "r\<lparr>run_finished := True\<rparr>"
  let ?fs = "[(''causal_event_ids'', PList [PStr latest]), (''status'', status)]"
  have fs: "answer_fields_ok ?fs" using may by (cases status) (simp_all add: may_finish_def answer_fields_ok_def event_base_def)
  let ?lost = "worker_journal ''run outcome unavailable''"
  have same: "finish_run src st status (s, r, w) =
    ebind (record_answer src st ?lost service_worker (''run_finished'', ?fs)) (\<lambda>_. with_run (\<lambda>r. elift (observer_reference r))) (s, ?q, w)"
    using may last by (simp add: finish_run_def record_answer_def may_finish_def or_false_def ebind_assoc on_run_def ebind_def
        split: sum.splits prod.splits)
  obtain y u where y: "record_answer src st ?lost service_worker (''run_finished'', ?fs) (s, ?q, w) = (y, u)" by (meson surj_pair)
  show ?thesis
  proof (rule record_answer_cases [OF y ok fs])
    fix t e e' assume "y = Inl e" "u = (t, ?q\<lparr>run_env := e'\<rparr>, w)" "ok t" "evs t = evs s"
    then show ?thesis using failed [of e t e'] run y may unfolding same by (simp add: ebind_def)
  next
    fix t i tm c e'
    assume "y = Inr ()" "u = (t, noted i c (?q\<lparr>run_env := e'\<rparr>), w)" "ok t"
      "evs t = evs s \<or> evs t = evs s @ [view (PDict (event_base ''run_finished'' i service_worker tm ?q @ ?fs))]"
      "recorded (evs t) (PDict (event_base ''run_finished'' i service_worker tm ?q @ ?fs))"
    then show ?thesis using finished [of i c e' t latest tm] run y may unfolding same
      by (simp add: ebind_def with_run_def end_record_def)
  qed
qed

lemma finish_run_keeps: "keeps lax (finish_run src st status)"
proof (rule relatedI, clarify)
  fix s r w x t q v assume run: "finish_run src st status (s, r, w) = (x, (t, q, v))"
  show "run_progress lax evs ok (s, r, w) (t, q, v)"
  proof (cases "ok s")
    case True
    show ?thesis
    proof (rule finish_run_cases [OF run True])
      fix e assume "(t, q, v) = (s, r, w)"
      then show ?thesis using progress.reflexive by simp
    next
      fix u e e' assume "(t, q, v) = (u, r\<lparr>run_finished := True, run_env := e'\<rparr>, w)" "ok u" "evs u = evs s"
      then show ?thesis by (auto intro!: progress_silent simp: same_identity_def)
    next
      fix u i c tm latest e'
      assume u: "(t, q, v) = (u, noted i c (r\<lparr>run_finished := True, run_env := e'\<rparr>), w)" "ok u"
        "evs u = evs s \<or> evs u = evs s @ [view (end_record i latest status tm r)]" "may_finish st status s r"
      have "of_next r (end_record i latest status tm r)" unfolding end_record_def
        by (rule base_of_next, rule answer_json) (use u(4) in \<open>cases status; simp add: may_finish_def answer_fields_ok_def event_base_def\<close>)
      then have "run_progress lax evs ok (s, r, w) (u, noted i c (r\<lparr>run_finished := True, run_env := e'\<rparr>), w)"
        by (rule progress_appended [OF u(2,3)]) (use u(4) in \<open>simp_all add: same_identity_def may_finish_def\<close>)
      then show ?thesis using u(1) by simp
    qed
  qed (simp add: run_progress_def)
qed

section \<open>Programs\<close>

lemma program_keeps: "run_program src st m \<Longrightarrow> keeps lax m"
proof (induction arbitrary: lax rule: run_program.induct)
  case (Propose d outcome p t)
  show ?case by (rule propose_keeps) (rule Propose.IH)
next
  case (Mock d p)
  show ?case by (rule mock_keeps) (rule Mock.IH)
qed (intro progress.related_ebind progress.related_ecatch progress.related_elift start_run_keeps verifier_keeps stage_keeps
    source_keeps pin_keeps authorization_keeps command_keeps create_keeps close_keeps step_keeps finish_agent_keeps
    finish_run_keeps; assumption?; blast?)+

end

section \<open>Order\<close>

lemma unknown_run_ordered: "\<forall>e\<in>set es. \<not> of_run r e \<Longrightarrow> run_ordered es r"
  by (simp add: run_ordered_def filter_False)

context observed_journal
begin

lemma program_ordered:
  assumes "ok s" "\<forall>e\<in>set (evs s). \<not> of_run r e" "run_program src st m" "m (s, r, w) = (x, (t, q, v))"
  shows "ok t \<and> prefix (evs s) (evs t) \<and> sorted_wrt (<) (map seq_of (filter (of_run r) (evs t)))"
proof -
  have p: "run_progress True evs ok (s, r, w) (t, q, v)" by (rule relatedD [OF program_keeps [OF assms(3)] assms(4)])
  then have o: "run_ordered (evs t) q" and i: "run_id q = run_id r"
    using assms(1) unknown_run_ordered [OF assms(2)] by (auto simp: run_progress_def same_identity_def)
  show ?thesis using p o of_run_same [OF i] assms(1) by (auto simp: run_progress_def run_ordered_def)
qed

end

text \<open>
  Claim C32: whatever fails on the way, a program over a new run only appends to the journal in SQLite, and
  the events of the run stand in the journal in strictly increasing order of their sequence numbers. A
  program is any sequence of the run's calls with handlers, where the worker's proposal and the composed
  mock publication may contain journaled calls in their dispatch and the other calls have dispatches that
  make none themselves (\<open>plainly\<close>): their intent is noted in the run only after the dispatch, so that a
  journaled call inside would reuse its sequence number (see \<open>dispatch_sees_old_sequence\<close>).
\<close>

theorem observed_events_in_order:
  assumes "db_ok re f" and "\<forall>e\<in>set (listed f). \<not> of_run r e"
    and "run_program src (sqlite_observer re) m" and "m (f, r, w) = (x, (g, q, v))"
  shows "db_ok re g \<and> prefix (listed f) (listed g) \<and> sorted_wrt (<) (map seq_of (filter (of_run r) (listed g)))"
  by (rule sqlite_journal.program_ordered [OF assms])

text \<open>
  Why a plain dispatch is asked for: a call that does not reserve runs its dispatch on a run that still
  has the sequence number and the last event of before the stored intent.
\<close>

lemma dispatch_sees_old_sequence:
  assumes "gated_call src (sqlite_observer re) spec ids False once refuse d settle (f, r, w) = (Inr x, z)"
    and "db_ok re f" and "env_only ids" and "\<And>e y. \<exists>e' y'. refuse e y = (Inl e', y')"
  shows "\<exists>g q v cid iid eid tm. fst (d (g, q, v)) = x \<and> recorded (listed g) (intent_record spec cid iid eid tm r) \<and>
    run_sequence q = run_sequence r \<and> run_last_event q = run_last_event r"
proof (rule sqlite_journal.gated_call_cases [OF assms])
  fix cid iid eid tm e' t c y u q v b
  assume "recorded (listed t) (intent_record spec cid iid eid tm r)"
    and d: "d (t, if False then noted eid c (r\<lparr>run_env := e'\<rparr>) else r\<lparr>run_env := e'\<rparr>, w) = (y, (u, q, v))"
    and "Inr x = (case b of Inl e \<Rightarrow> Inl e | Inr _ \<Rightarrow> Inr y)"
  then show ?thesis by (intro exI [of _ t] exI [of _ "r\<lparr>run_env := e'\<rparr>"] exI [of _ w]) (auto split: sum.splits intro!: exI)
qed simp_all

lemma new_db_ok: "db_ok re (db_of empty_obs_store)"
  using journal_empty by (auto simp: db_ok_def)

text \<open>A program that starts a run and publishes under it.\<close>

definition publish_once :: "((obs_db, nat, nat) run_state, unit) eff" where
  "publish_once = ebind (start_run fixed_sources (sqlite_observer any_match) None) (\<lambda>_.
     run_controlled_step fixed_sources (sqlite_observer any_match) publish_step (PStr ''process-1'') (Some counted_dispatch))"

lemma ebind_elift_Inr: "ebind m (\<lambda>u. elift (Inr u)) = m"
  by (auto simp: ebind_def fun_eq_iff split: prod.splits sum.splits)

lemma start_program: "run_program src st (start_run src st causal)"
  by (subst ebind_elift_Inr [symmetric]) (rule run_program.Start)

lemma counted_plainly: "plainly counted_dispatch"
  by (simp add: plainly_def counted_dispatch_def)

lemma publish_once_program: "run_program fixed_sources (sqlite_observer any_match) publish_once"
  unfolding publish_once_def
  by (rule run_program.Sequence [OF start_program]) (rule run_program.Step, rule counted_plainly)

text \<open>The program, computed: the start, then the step, marked as used before its call.\<close>

lemma sample_observed:
  "observed_call fixed_sources (sqlite_observer any_match) (step_call publish_step) step_errors (fresh_ids fixed_sources)
     False False counted_dispatch (step_answer publish_step) (db_of store1, started_run\<lparr>run_steps_used := ss\<rparr>, w) =
   (Inr (Inr ()), (db_of store3, stepped_run\<lparr>run_steps_used := ss\<rparr>, w + 1))"
  using sample_call_runs [of ss w]
  by (simp add: observed_call_def unless_of_def ecatch_def step_settle_def [abs_def])

lemma publish_once_runs:
  "publish_once (db_of empty_obs_store, first_run, 0) = (Inr (), (db_of store3, stepped_run\<lparr>run_steps_used := [publish_step]\<rparr>, 1))"
proof -
  have r: "publish_step \<in> set (map fst controlled_steps)" "run_process started_run = ''process-1''"
    "run_steps_used started_run = []" "\<not> not_started started_run"
    by (simp_all add: controlled_steps_def started_run_def noted_def first_run_def initial_run_def not_started_def)
  have u: "set_run (run_steps_used_update ((#) publish_step)) (db_of store1, started_run, 0)
      = (Inr (), (db_of store1, started_run\<lparr>run_steps_used := [publish_step]\<rparr>, 0))"
    by (simp add: set_run_def on_run_def) (simp add: started_run_def noted_def first_run_def initial_run_def)
  show ?thesis using r
    by (simp add: publish_once_def ebind_def sample_start run_controlled_step_def with_run_def eunless_def u sample_observed)
qed

lemma sample_listed:
  "listed (db_of store3) = map normal [start_record, step_intent, step_completed]"
  "map seq_of (filter (of_run first_run) (listed (db_of store3))) = [0, 1, 2]"
proof -
  show l: "listed (db_of store3) = map normal [start_record, step_intent, step_completed]" by (simp add: store_events)
  note f = sqlite_journal.view_fld [OF record_values(1)] sqlite_journal.view_fld [OF record_values(3)]
    sqlite_journal.view_fld [OF record_values(7)]
  show "map seq_of (filter (of_run first_run) (listed (db_of store3))) = [0, 1, 2]"
    unfolding l
    by (simp add: seq_of_def of_run_def f)
      (simp add: start_record_def step_intent_def step_completed_def intent_record_def event_base_def started_run_def noted_def
        first_run_def initial_run_def normal.simps)
qed

theorem observed_events_in_order_witness:
  "\<exists>g q. publish_once (db_of empty_obs_store, first_run, 0) = (Inr (), (g, q, 1))
     \<and> db_ok any_match g \<and> prefix (listed (db_of empty_obs_store)) (listed g)
     \<and> sorted_wrt (<) (map seq_of (filter (of_run first_run) (listed g)))
     \<and> map seq_of (filter (of_run first_run) (listed g)) = [0, 1, 2]"
proof -
  have e: "\<forall>e\<in>set (listed (db_of empty_obs_store)). \<not> of_run first_run e" by (simp add: empty_obs_store_def)
  show ?thesis
    using observed_events_in_order [OF new_db_ok e publish_once_program publish_once_runs] sample_listed(2) publish_once_runs
    by (intro exI [of _ "db_of store3"] exI [of _ "stepped_run\<lparr>run_steps_used := [publish_step]\<rparr>"]) simp
qed

section \<open>The end of a run\<close>

text \<open>Every intent of the run has exactly one result, which it alone caused, and no outcome is unknown.\<close>

definition settled :: "pyval list \<Rightarrow> 'e observed_run \<Rightarrow> bool" where
  "settled es r \<longleftrightarrow> (\<forall>e\<in>set es. of_run r e \<longrightarrow> \<not> is_unknown e) \<and>
     (\<forall>i\<in>set es. of_run r i \<and> is_intent i \<longrightarrow>
        (\<exists>t. filter (\<lambda>t. of_run r t \<and> is_result t \<and> fld t ''invocation_id'' = fld i ''invocation_id'') es = [t] \<and>
           py_eq (fld t ''causal_event_ids'') (PList [fld i ''event_id''])))"

lemma settled_snoc: "settled es r \<Longrightarrow> \<not> is_intent e \<Longrightarrow> \<not> is_result e \<Longrightarrow> \<not> is_unknown e \<Longrightarrow> settled (es @ [e]) r"
  by (auto simp: settled_def)

context observed_journal
begin

lemma work_terminal_settled:
  assumes "ok s" "all_work_terminal st r s = Inr True"
  shows "settled (evs s) r"
proof -
  let ?mine = "filter (of_run r) (evs s)"
  have 1: "\<not> list_ex is_unknown ?mine" "list_all (answered st s (filter is_result ?mine)) (filter is_intent ?mine)"
    using assms events [OF assms(1)] by (auto simp: all_work_terminal_def Let_def)
  have "\<exists>t. filter (\<lambda>t. of_run r t \<and> is_result t \<and> fld t ''invocation_id'' = fld i ''invocation_id'') (evs s) = [t] \<and>
      py_eq (fld t ''causal_event_ids'') (PList [fld i ''event_id''])" if "i \<in> set (evs s)" "of_run r i" "is_intent i" for i
  proof -
    have "answered st s (filter is_result ?mine) i" using 1(2) that by (auto simp: list_all_iff)
    moreover have "filter (\<lambda>t. fld t ''invocation_id'' = fld i ''invocation_id'') (filter is_result ?mine)
        = filter (\<lambda>t. of_run r t \<and> is_result t \<and> fld t ''invocation_id'' = fld i ''invocation_id'') (evs s)"
      by (auto intro: filter_cong)
    ultimately show ?thesis by (auto simp: answered_def split: list.splits)
  qed
  then show ?thesis using 1(1) by (auto simp: settled_def list_ex_iff)
qed

lemma end_record_fields:
  assumes "may_finish st status s r"
  shows "fld (view (end_record i latest status tm r)) ''event_type'' = PStr ''run_finished''"
    "fld (view (end_record i latest status tm r)) ''status'' \<noteq> PStr ''unknown''"
proof -
  obtain x where x: "status = PStr x" "x \<in> set finish_statuses" using assms by (cases status) (auto simp: may_finish_def)
  have j: "json_value (end_record i latest status tm r)" unfolding end_record_def
    by (rule answer_json) (simp add: x(1) answer_fields_ok_def event_base_def)
  have "fld (end_record i latest status tm r) ''event_type'' = PStr ''run_finished''"
    "fld (end_record i latest status tm r) ''status'' = PStr x"
    by (simp_all add: end_record_def event_base_def x(1))
  then show "fld (view (end_record i latest status tm r)) ''event_type'' = PStr ''run_finished''"
    "fld (view (end_record i latest status tm r)) ''status'' \<noteq> PStr ''unknown''"
    unfolding view_fld [OF j] using view_text(1) x(2) by (auto simp: finish_statuses_def)
qed

lemma finished_settled:
  assumes ok: "ok s" and run: "finish_run src st status (s, r, w) = (Inr ref, (t, q, v))"
    and prog: "run_program src st m" and more: "m (t, q, v) = (x, (u, p, y))"
  shows "settled (evs u) r \<and> evs u = evs t \<and> y = w"
proof (rule finish_run_cases [OF run ok])
  fix t' i c tm latest e'
  assume z: "(t, q, v) = (t', noted i c (r\<lparr>run_finished := True, run_env := e'\<rparr>), w)" "ok t'"
      "evs t' = evs s \<or> evs t' = evs s @ [view (end_record i latest status tm r)]" "may_finish st status s r"
  have fin: "run_finished q" "ok t" "v = w" using z by auto
  have "run_progress False evs ok (t, q, v) (u, p, y)" by (rule relatedD [OF program_keeps [OF prog] more])
  then have "evs u = evs t \<and> y = w" using fin by (simp add: run_progress_def)
  moreover have "settled (evs s) r" using z(4) by (intro work_terminal_settled [OF ok]) (simp add: may_finish_def)
  moreover note end_record_fields [OF z(4), of i latest tm]
  ultimately show ?thesis using z(1,3)
    by (auto intro!: settled_snoc simp: is_intent_def is_result_def is_unknown_def result_types_def intent_event_types_def)
qed simp_all

end

text \<open>Claim C33: When a run has been finished, every intent of the run in the journal has exactly one result, caused by
  that intent alone, and no outcome is unknown; and no program that goes on with the run records an event or
  changes the world.\<close>

theorem finished_run_settled_and_silent:
  assumes "db_ok re f" and "finish_run src (sqlite_observer re) status (f, r, w) = (Inr ref, (g, q, v))"
    and "run_program src (sqlite_observer re) m" and "m (g, q, v) = (x, (h, p, y))"
  shows "settled (listed h) r \<and> listed h = listed g \<and> y = w"
  by (rule sqlite_journal.finished_settled [OF assms])

text \<open>A run that only has to be finished, on a new file.\<close>

definition last_run :: "nat observed_run" where
  "last_run = (initial_run ''process-1'' ''task-1'' 0)\<lparr>run_id := ''run-1'', run_last_event := Some ''event-0'',
     run_last_cursor := Some 0, run_agent_finished := True\<rparr>"

definition last_event :: pyval where
  "last_event = end_record ''event-aaaaaaaa'' ''event-0'' (PStr ''ok'') ''2026-01-01T00:00:00Z'' last_run"

lemma last_event_accepted: "is_ok (validate_at any_match 6 ''$'' last_event event_schema)"
  by code_simp

lemma last_event_appended: "\<exists>s. db_append any_match last_event (db_of empty_obs_store) = (Inr 0, db_of s)"
proof -
  have d: "sha256_digest last_event = Inr (digest_of last_event)"
    by (rule sha256_digest_encodable) (simp_all add: last_event_def end_record_def event_base_def last_run_def initial_run_def text_eval nat_digits.simps)
  have i: "fld last_event ''event_id'' = PStr ''event-aaaaaaaa''"
    by (simp add: last_event_def end_record_def event_base_def)
  obtain s where s: "obs_append any_match last_event empty_obs_store = (Inr 0, s)"
    using d i accepted_valid [OF last_event_accepted] by (simp add: obs_append_def empty_obs_store_def)
  have "json_value last_event" by (simp add: last_event_def end_record_def event_base_def)
  then show ?thesis using s db_append_refines [OF journal_empty] by (simp add: exI)
qed

lemma last_run_finishes: "\<exists>ref g q. finish_run fixed_sources (sqlite_observer any_match) (PStr ''ok'')
    (db_of empty_obs_store, last_run, 0::nat) = (Inr ref, (g, q, 0))"
proof -
  obtain s where s: "db_append any_match last_event (db_of empty_obs_store) = (Inr 0, db_of s)"
    using last_event_appended by blast
  have e: "ost_events (sqlite_observer any_match) (db_of empty_obs_store) = Inr []"
    using sqlite_journal.events [OF new_db_ok] by (simp add: empty_obs_store_def)
  have env: "last_run\<lparr>run_finished := True\<rparr> = (last_run\<lparr>run_finished := True\<rparr>)\<lparr>run_env := 0\<rparr>" by (simp add: last_run_def initial_run_def)
  have n: "next_id fixed_sources (last_run\<lparr>run_finished := True\<rparr>) = (Inr ''aaaaaaaa'', last_run\<lparr>run_finished := True, run_env := 1\<rparr>)"
    by (subst env) (simp add: fixed_ids(1))
  have b: "base_event fixed_sources ''run_finished'' ''event-aaaaaaaa'' service_worker (last_run\<lparr>run_finished := True, run_env := 1\<rparr>)
    = (Inr (event_base ''run_finished'' ''event-aaaaaaaa'' service_worker ''2026-01-01T00:00:00Z'' last_run),
       last_run\<lparr>run_finished := True, run_env := 1\<rparr>)"
    by (simp add: base_event_def run_timestamp_def fixed_sources_def on_env_def ebind_def fixed_time)
  have "may_finish (sqlite_observer any_match) (PStr ''ok'') (db_of empty_obs_store) last_run"
    by (simp add: may_finish_def all_work_terminal_def all_invocations_terminal_def e last_run_def initial_run_def finish_statuses_def)
  then have "run_last_event last_run = Some ''event-0''" "\<not> run_finished last_run" "run_agent_finished last_run"
    "all_work_terminal (sqlite_observer any_match) last_run (db_of empty_obs_store) = Inr True"
    "all_invocations_terminal (sqlite_observer any_match) last_run (db_of empty_obs_store)"
    by (simp_all add: may_finish_def last_run_def)
  then show ?thesis using s n b
    by (simp add: finish_run_def eunless_def or_false_def finish_statuses_def ebind_def on_run_def append_event_def on_store_def
        ecatch_def sqlite_observer_def sqlite_gate_def note_event_def with_run_def observer_reference_def
        last_event_def end_record_def)
qed

theorem finished_run_settled_and_silent_witness:
  "\<exists>ref g q x h p y. finish_run fixed_sources (sqlite_observer any_match) (PStr ''ok'') (db_of empty_obs_store, last_run, 0::nat)
       = (Inr ref, (g, q, 0))
     \<and> run_controlled_step fixed_sources (sqlite_observer any_match) ''Publication.dispatch'' (PStr ''process-1'')
         (Some (\<lambda>(s, r, w). (Inr (), (s, r, w + 1)))) (g, q, 0::nat) = (x, (h, p, y))
     \<and> settled (listed h) last_run \<and> listed h = listed g \<and> y = 0"
proof -
  let ?m = "run_controlled_step fixed_sources (sqlite_observer any_match) ''Publication.dispatch'' (PStr ''process-1'')
         (Some (\<lambda>(s, r, w). (Inr (), (s, r, w + 1))))"
  obtain ref g q where fin: "finish_run fixed_sources (sqlite_observer any_match) (PStr ''ok'')
      (db_of empty_obs_store, last_run, 0::nat) = (Inr ref, (g, q, 0))" using last_run_finishes by blast
  obtain x h p y where run: "?m (g, q, 0::nat) = (x, (h, p, y))" by (metis prod.exhaust)
  have prog: "run_program fixed_sources (sqlite_observer any_match) ?m" by (rule run_program.Step) (simp add: plainly_def)
  show ?thesis using finished_run_settled_and_silent [OF new_db_ok fin prog run] fin run by blast
qed

end
