(* ===== verification/Observed_Dispatch.thy ===== *)
theory Observed_Dispatch
  imports Observed_Programs
begin

text \<open>
  The order of intent, dispatch and answer in one journaled call: no dispatch before its intent is in the
  journal, no result passed on before its answer is.
\<close>

section \<open>Dispatches and answers\<close>

text \<open>The journal holds an intent of the call.\<close>

definition intent_stored :: "call_spec \<Rightarrow> 'e observed_run \<Rightarrow> pyval list \<Rightarrow> bool" where
  "intent_stored spec r es \<longleftrightarrow> (\<exists>cid iid eid tm. recorded es (intent_record spec cid iid eid tm r))"

text \<open>It holds an intent of the call and the answer \<open>answer\<close> gives to that intent.\<close>

definition call_recorded :: "call_spec \<Rightarrow> 'e observed_run \<Rightarrow> (string \<Rightarrow> string \<Rightarrow> string \<times> fields) \<Rightarrow> pyval list \<Rightarrow> bool" where
  "call_recorded spec r answer es \<longleftrightarrow> (\<exists>cid iid eid tm i tm' q. recorded es (intent_record spec cid iid eid tm r) \<and>
     run_id q = run_id r \<and>
     recorded es (PDict (event_base (fst (answer iid eid)) i (call_agent spec) tm' (q :: 'e observed_run) @ snd (answer iid eid))))"

lemma call_recordedI:
  fixes q r :: "'e observed_run"
  shows "recorded es (intent_record spec cid iid eid tm r) \<Longrightarrow> run_id q = run_id r \<Longrightarrow>
     answer iid eid = (et, fs) \<Longrightarrow> recorded es (PDict (event_base et i (call_agent spec) tm' q @ fs)) \<Longrightarrow>
     call_recorded spec r answer es"
  unfolding call_recorded_def by (rule exI [of _ cid], rule exI [of _ iid], rule exI [of _ eid], rule exI [of _ tm],
    rule exI [of _ i], rule exI [of _ tm'], rule exI [of _ q]) simp

context observed_journal
begin

lemma gated_call_dispatch:
  assumes ok: "ok s" and ids: "env_only ids"
    and same: "\<And>t q v. ok t \<Longrightarrow> prefix (evs s) (evs t) \<Longrightarrow> intent_stored spec r (evs t) \<Longrightarrow> d (t, q, v) = d' (t, q, v)"
  shows "gated_call src st spec ids reserve once refuse d settle (s, r, w) = gated_call src st spec ids reserve once refuse d' settle (s, r, w)"
proof -
  obtain a q0 where a: "open_call src spec ids r = (a, q0)" by fastforce
  note body = gated_call_def dispatch_captured [OF methods(1,2)]
  show ?thesis
  proof (cases a)
    case (Inl e)
    then show ?thesis using a by (simp add: gated_call_def ebind_def on_run_def)
  next
    case (Inr rec)
    obtain cp ev iid eid where rec: "rec = (cp, ev, iid, eid)" by (cases rec) auto
    obtain cid tm tm' where rec': "cp = checkpoint_record spec cid tm r" "ev = intent_record spec cid iid eid tm' r"
      using open_call_Inr [OF a [unfolded Inr rec] ids] by blast
    obtain g y0 where g: "gate_records (ost_gate st) once cp ev None (s, (q0, w)) = (g, y0)" by (meson surj_pair)
    obtain t where t: "y0 = (t, (q0, w))" "ok t" "evs t = evs s \<or> evs t = evs s @ [view ev] \<and> is_ok g"
      "is_ok g \<longrightarrow> recorded (evs t) ev"
      using gate_writes [OF _ _ ok g] rec' by auto
    have cb: "gate_records (ost_gate st) once cp ev (if reserve then Some (note_world eid) else None) (s, (q0, w)) =
        (g, (t, (if reserve \<and> is_ok g then noted eid (case g of Inr c \<Rightarrow> c | Inl _ \<Rightarrow> 0) q0 else q0, w)))"
      using g t(1) by (cases g) (auto simp: gate_callback note_world_noted)
    have "d (t, q, v) = d' (t, q, v)" if "is_ok g" for q v
    proof (rule same)
      show "prefix (evs s) (evs t)" using t(3) by auto
      show "intent_stored spec r (evs t)" using t(4) that rec'(2) unfolding intent_stored_def by blast
    qed (rule t(2))
    then show ?thesis using a Inr rec cb
      by (cases g) (simp_all add: body ebind_def on_run_def ecatch_def)
  qed
qed

lemma observed_call_answers:
  assumes run: "observed_call src st spec errs ids reserve once d answer (s, r, w) = (Inr y, z)"
    and ok: "ok s" and ids: "env_only ids" and d: "if reserve then keeps True d else plainly d"
    and answers: "\<And>i e x. answer_ok (answer i e x)"
  shows "call_recorded spec r (\<lambda>iid eid. answer iid eid y) (evs (fst z))"
proof -
  have run': "gated_call src st spec ids reserve once (refuse_call errs) d
      (\<lambda>iid eid x. record_answer src st (err_lost errs) (call_agent spec) (answer iid eid x)) (s, r, w) = (Inr y, z)"
    using run by (auto simp: observed_call_def unless_of_def ecatch_def split: prod.splits sum.splits)
  show ?thesis
  proof (rule gated_call_cases [OF run' ok ids])
    show "\<exists>e' y'. refuse_call errs e y = (Inl e', y')" for e y
      unfolding refuse_call_def by (rule lift_fails)
  next
    fix cid iid eid tm e' t c x u q v b
    assume t: "ok t" "recorded (evs t) (intent_record spec cid iid eid tm r)"
      and d': "d (t, if reserve then noted eid c (r\<lparr>run_env := e'\<rparr>) else r\<lparr>run_env := e'\<rparr>, w) = (x, (u, q, v))"
      and b: "record_answer src st (err_lost errs) (call_agent spec) (answer iid eid x) (u, if reserve then q else noted eid c q, v) = (b, z)"
      and y: "Inr y = (case b of Inl e \<Rightarrow> Inl e | Inr _ \<Rightarrow> Inr x)"
    have xy: "x = y" "b = Inr ()" using y by (auto split: sum.splits)
    have dk: "keeps True d" using d related_plainly by (cases reserve) auto
    have "run_progress True evs ok (t, if reserve then noted eid c (r\<lparr>run_env := e'\<rparr>) else r\<lparr>run_env := e'\<rparr>, w) (u, q, v)"
      by (rule relatedD [OF dk d'])
    then have u: "ok u" "set (evs t) \<subseteq> set (evs u)" "run_id q = run_id r"
      using t(1) by (auto simp: run_progress_def same_identity_def prefix_def split: if_splits)
    obtain et fs where a: "answer iid eid x = (et, fs)" by fastforce
    have fs: "answer_fields_ok fs" using answers [of iid eid x] a by (simp add: answer_ok_def)
    show ?thesis
    proof (rule record_answer_cases [OF b [unfolded a] u(1) fs])
      fix z' i tm' c' e''
      assume z: "z = (z', noted i c' ((if reserve then q else noted eid c q)\<lparr>run_env := e''\<rparr>), v)"
        "evs z' = evs u \<or> evs z' = evs u @ [view (PDict (event_base et i (call_agent spec) tm' (if reserve then q else noted eid c q) @ fs))]"
        "recorded (evs z') (PDict (event_base et i (call_agent spec) tm' (if reserve then q else noted eid c q) @ fs))"
      have "recorded (evs z') (intent_record spec cid iid eid tm r)"
        by (rule recorded_mono [OF t(2)]) (use u(2) z(2) in auto)
      moreover have "run_id (if reserve then q else noted eid c q) = run_id r" using u(3) by simp
      ultimately show ?thesis unfolding z(1) fst_conv
        by (rule call_recordedI [where answer = "\<lambda>iid eid. answer iid eid y", OF _ _ a [unfolded xy(1)] z(3)])
    qed (use xy in simp)
  qed simp_all
qed

end

text \<open>Claim C34: A gated call (\<open>gated_call\<close>, under every journaled call of a run) dispatches nothing before its intent is
  in the journal: it runs its dispatch at most in states whose journal extends the one it started with by an
  intent of this call; what the dispatch would do in any other state is irrelevant. What a call does when its
  intent cannot be stored is its refusal (\<open>refuse\<close>), of which this does not speak: every refusal in the code only
  raises, except that of \<open>invoke_close\<close>, which closes first (\<open>unrecorded_close\<close>), since cleanup is mandatory.\<close>

theorem dispatch_follows_stored_intent:
  assumes "db_ok re f" and "env_only ids"
    and "\<And>g q v. db_ok re g \<Longrightarrow> prefix (listed f) (listed g) \<Longrightarrow> intent_stored spec r (listed g) \<Longrightarrow>
      d (g, q, v) = d' (g, q, v)"
  shows "gated_call src (sqlite_observer re) spec ids reserve once refuse d settle (f, r, w)
    = gated_call src (sqlite_observer re) spec ids reserve once refuse d' settle (f, r, w)"
  using assms by (rule sqlite_journal.gated_call_dispatch)

text \<open>A dispatch that is replaced by a failure wherever the journal holds no intent of the call.\<close>

definition guarded_dispatch :: "call_spec \<Rightarrow> 'e observed_run \<Rightarrow> ((obs_db, 'e, nat) run_state, unit) eff" where
  "guarded_dispatch spec r = (\<lambda>(s, q, w). if intent_stored spec r (listed s) then (Inr (), (s, q, w + 1))
     else (raise ForeignError ''unobserved'', (s, q, w)))"

lemma sample_run_plain: "started_run\<lparr>run_steps_used := []\<rparr> = started_run" "stepped_run\<lparr>run_steps_used := []\<rparr> = stepped_run"
  by (simp_all add: started_run_def stepped_run_def noted_def first_run_def initial_run_def)

text \<open>The sample call with the guarded dispatch: it is dispatched, once, and answered.\<close>

theorem dispatch_follows_stored_intent_witness:
  "gated_call fixed_sources (sqlite_observer any_match) (step_call publish_step) (fresh_ids fixed_sources) False False
      (refuse_call step_errors) (guarded_dispatch (step_call publish_step) started_run) step_settle (db_of store1, started_run, 0)
    = (Inr (Inr ()), (db_of store3, stepped_run, 1))"
proof -
  have "gated_call fixed_sources (sqlite_observer any_match) (step_call publish_step) (fresh_ids fixed_sources) False False
      (refuse_call step_errors) counted_dispatch step_settle (db_of store1, started_run, 0)
    = gated_call fixed_sources (sqlite_observer any_match) (step_call publish_step) (fresh_ids fixed_sources) False False
      (refuse_call step_errors) (guarded_dispatch (step_call publish_step) started_run) step_settle (db_of store1, started_run, 0)"
  proof (rule dispatch_follows_stored_intent)
    show "db_ok any_match (db_of store1)" using sample_writes(4) by (auto simp: db_ok_def)
  qed (simp_all add: guarded_dispatch_def counted_dispatch_def)
  then show ?thesis using sample_call_runs [of "[]" 0] by (simp add: sample_run_plain)
qed

text \<open>Claim C35: An observed call (\<open>observed_call\<close>: the calls to the worker, the verifier, a stage, the source, the pin,
  a sandbox command, a controlled step and the mock publication) passes on what its dispatch gave only when the
  journal holds both its intent and the terminal event that answers it; otherwise it raises. Its dispatch is one
  without journaled calls of its own, or, where the call reserves its place in the journal first (\<open>reserve\<close>), any
  program over the run. The consumption of a permit and the creation and the closing of a lease settle in their
  own ways and are not covered.\<close>

theorem returned_value_is_recorded:
  assumes "db_ok re f" and "env_only ids" and "\<And>i e x. answer_ok (answer i e x)"
    and "if reserve then run_program src (sqlite_observer re) d else plainly d"
    and "observed_call src (sqlite_observer re) spec errs ids reserve once d answer (f, r, w) = (x, (g, q, v))"
  shows "case x of Inl e \<Rightarrow> True | Inr y \<Rightarrow> call_recorded spec r (\<lambda>iid eid. answer iid eid y) (listed g)"
proof (cases x)
  case (Inr y)
  have "if reserve then sqlite_journal.keeps re True d else plainly d"
    using assms(4) by (auto split: if_splits intro: sqlite_journal.program_keeps)
  then show ?thesis
    using sqlite_journal.observed_call_answers [OF assms(5) [unfolded Inr] assms(1,2) _ assms(3)] Inr by simp
qed simp

theorem returned_value_is_recorded_witness:
  "observed_call fixed_sources (sqlite_observer any_match) (step_call publish_step) step_errors (fresh_ids fixed_sources)
      False False counted_dispatch (step_answer publish_step) (db_of store1, started_run, 0)
      = (Inr (Inr ()), (db_of store3, stepped_run, 1))
    \<and> call_recorded (step_call publish_step) started_run (\<lambda>iid eid. step_answer publish_step iid eid (Inr ())) (listed (db_of store3))"
proof -
  have run: "observed_call fixed_sources (sqlite_observer any_match) (step_call publish_step) step_errors (fresh_ids fixed_sources)
      False False counted_dispatch (step_answer publish_step) (db_of store1, started_run, 0)
      = (Inr (Inr ()), (db_of store3, stepped_run, 1))"
    using sample_observed [of "[]" 0] by (simp add: sample_run_plain)
  have "db_ok any_match (db_of store1)" using sample_writes(4) by (auto simp: db_ok_def)
  moreover have "if False then run_program fixed_sources (sqlite_observer any_match) counted_dispatch else plainly counted_dispatch"
    by (simp add: counted_plainly)
  ultimately show ?thesis
    using returned_value_is_recorded [OF _ env_only_fresh_ids step_answer_ok _ run] run by simp
qed

end
