(* ===== verification/Git_Objects.thy ===== *)
theory Git_Objects
  imports Sha256 Canonical_Json
begin

text \<open>
  Git's object identifiers as \<^verbatim>\<open>src/app_contracts/github_snapshot.py\<close> computes them: SHA-1 over a framed
  payload. The theory has SHA-1 (on 32-bit words, with the padding of SHA-256) and the paths of a tree
  listing.
\<close>

section \<open>SHA-1\<close>

type_synonym sha1_state = "w32 \<times> w32 \<times> w32 \<times> w32 \<times> w32"

definition rotl :: "nat \<Rightarrow> w32 \<Rightarrow> w32" where
  "rotl n x = push_bit n x OR drop_bit (32 - n) x"

definition sha1_initial :: sha1_state where
  "sha1_initial = (1732584193, 4023233417, 2562383102, 271733878, 3285377520)"

text \<open>The schedule, newest word first.\<close>

fun sha1_extend :: "nat \<Rightarrow> w32 list \<Rightarrow> w32 list" where
  "sha1_extend 0 ws = ws"
| "sha1_extend (Suc n) ws = sha1_extend n (rotl 1 (ws ! 2 XOR ws ! 7 XOR ws ! 13 XOR ws ! 15) # ws)"

definition sha1_mix :: "nat \<Rightarrow> w32 \<Rightarrow> w32 \<Rightarrow> w32 \<Rightarrow> w32" where
  "sha1_mix t b c d =
     (if t < 20 then (b AND c) OR (NOT b AND d) else if 40 \<le> t \<and> t < 60 then (b AND c) OR (b AND d) OR (c AND d)
      else b XOR c XOR d)"

definition sha1_constant :: "nat \<Rightarrow> w32" where
  "sha1_constant t = (if t < 20 then 1518500249 else if t < 40 then 1859775393 else if t < 60 then 2400959708
     else 3395469782)"

fun sha1_rounds :: "nat \<Rightarrow> w32 list \<Rightarrow> sha1_state \<Rightarrow> sha1_state" where
  "sha1_rounds t [] s = s"
| "sha1_rounds t (w # ws) (a, b, c, d, e) =
     sha1_rounds (Suc t) ws (rotl 5 a + sha1_mix t b c d + e + sha1_constant t + w, a, rotl 30 b, c, d)"

fun sha1_add :: "sha1_state \<Rightarrow> sha1_state \<Rightarrow> sha1_state" where
  "sha1_add (a, b, c, d, e) (a', b', c', d', e') = (a + a', b + b', c + c', d + d', e + e')"

definition sha1_compress :: "sha1_state \<Rightarrow> w32 list \<Rightarrow> sha1_state" where
  "sha1_compress s block = sha1_add s (sha1_rounds 0 (rev (sha1_extend 64 (rev block))) s)"

fun sha1_blocks :: "nat \<Rightarrow> w32 list \<Rightarrow> sha1_state \<Rightarrow> sha1_state" where
  "sha1_blocks 0 ws s = s"
| "sha1_blocks (Suc n) ws s = sha1_blocks n (drop 16 ws) (sha1_compress s (take 16 ws))"

fun sha1_words :: "sha1_state \<Rightarrow> w32 list" where
  "sha1_words (a, b, c, d, e) = [a, b, c, d, e]"

text \<open>\<^verbatim>\<open>hashlib.sha1(b).hexdigest()\<close>.\<close>

definition sha1_hex :: "string \<Rightarrow> string" where
  "sha1_hex s = (let ws = words_of (pad_message (map of_char s))
     in concat (map hex_word (sha1_words (sha1_blocks (length ws div 16) ws sha1_initial))))"

definition git_oid :: "string \<Rightarrow> string \<Rightarrow> string" where
  "git_oid kind payload = sha1_hex (kind @ '' '' @ nat_digits (length payload) @ [CHR 0x00] @ payload)"

lemma length_sha1_hex [simp]: "length (sha1_hex s) = 40"
proof -
  have "length (sha1_words x) = 5" for x by (cases x rule: sha1_words.cases) simp
  then show ?thesis by (simp add: sha1_hex_def Let_def length_concat_hex_word)
qed

lemma sha1_hex_lower: "list_all is_lower_hex (sha1_hex s)"
  using hex_digits_lower by (auto simp: sha1_hex_def Let_def list_all_iff hex_word_def)

lemma git_oid_hex40: "is_hex40 (git_oid kind payload)"
  by (simp add: git_oid_def is_hex40_def sha1_hex_lower)

end
