(* ===== verification/Py_Path.thy ===== *)
theory Py_Path
  imports Py_Values Canonical_Json
begin

text \<open>
  The paths of \<^verbatim>\<open>pathlib\<close> and \<^verbatim>\<open>posixpath\<close> as the code uses them: a \<^verbatim>\<open>Path\<close> is its \<^verbatim>\<open>parts\<close>, the root first
  when there is one; \<^verbatim>\<open>normpath\<close> works on texts.
\<close>

type_synonym path_parts = "string list"

definition roots :: "string list" where
  "roots = [''/'', ''//'']"

text \<open>Two leading slashes are a root of their own, three are one.\<close>

definition root_of :: "string \<Rightarrow> string" where
  "root_of s = (if \<not> startswith s ''/'' then [] else if startswith s ''//'' \<and> \<not> startswith s ''///'' then ''//'' else ''/'')"

definition relative_parts :: "string \<Rightarrow> string list" where
  "relative_parts s = filter (\<lambda>p. p \<noteq> [] \<and> p \<noteq> ''.'') (split_on (CHR ''/'') s)"

definition path_of :: "string \<Rightarrow> path_parts" where
  "path_of s = (if root_of s = [] then [] else [root_of s]) @ relative_parts s"

definition is_absolute :: "path_parts \<Rightarrow> bool" where
  "is_absolute p \<longleftrightarrow> p \<noteq> [] \<and> hd p \<in> set roots"

definition path_name :: "path_parts \<Rightarrow> string" where
  "path_name p = (if p = [] \<or> last p \<in> set roots then [] else last p)"

text \<open>\<^verbatim>\<open>as_posix()\<close>.\<close>

definition posix_text :: "path_parts \<Rightarrow> string" where
  "posix_text p = (if p = [] then ''.'' else if is_absolute p then hd p @ join ''/'' (tl p) else join ''/'' p)"

text \<open>\<^verbatim>\<open>posixpath.normpath\<close>.\<close>

definition norm_add :: "bool \<Rightarrow> string list \<Rightarrow> string \<Rightarrow> string list" where
  "norm_add rooted comps c =
     (if c = [] \<or> c = ''.'' then comps
      else if c \<noteq> ''..'' \<or> (\<not> rooted \<and> comps = []) \<or> (comps \<noteq> [] \<and> last comps = ''..'') then comps @ [c]
      else if comps \<noteq> [] then butlast comps else comps)"

definition normpath :: "string \<Rightarrow> string" where
  "normpath s =
     (if s = [] then ''.''
      else let t = root_of s @ join ''/'' (foldl (norm_add (root_of s \<noteq> [])) [] (split_on (CHR ''/'') s))
           in if t = [] then ''.'' else t)"

section \<open>Normal relative paths\<close>

text \<open>A relative path without empty, current or parent components.\<close>

definition clean_parts :: "string \<Rightarrow> bool" where
  "clean_parts s \<longleftrightarrow> list_all (\<lambda>p. p \<noteq> [] \<and> p \<noteq> ''.'' \<and> p \<noteq> ''..'') (split_on (CHR ''/'') s)"

lemma join_split [simp]: "join [d] (split_on d s) = s"
proof (induction s)
  case (Cons c s)
  obtain w ws where w: "split_on d s = w # ws" by (cases "split_on d s") auto
  show ?case using Cons w by (cases ws) auto
qed simp

lemma split_on_no_sep_parts: "p \<in> set (split_on d s) \<Longrightarrow> d \<notin> set p"
  by (induction s arbitrary: p) (auto split: list.splits if_splits)

lemma split_join: "ps \<noteq> [] \<Longrightarrow> \<forall>p\<in>set ps. d \<notin> set p \<Longrightarrow> split_on d (join [d] ps) = ps"
proof (induction ps)
  case (Cons p ps)
  then show ?case by (cases ps) (auto simp: split_on_no_sep split_on_append)
qed simp

lemma foldl_norm_add:
  "list_all (\<lambda>p. p \<noteq> [] \<and> p \<noteq> ''.'' \<and> p \<noteq> ''..'') ps \<Longrightarrow> foldl (norm_add rooted) cs ps = cs @ ps"
  by (induction ps arbitrary: cs) (auto simp: norm_add_def)

lemma clean_root: "clean_parts s \<Longrightarrow> root_of s = [] \<and> s \<noteq> []"
  by (cases s) (auto simp: clean_parts_def root_of_def split: list.splits)

lemma normpath_clean: "clean_parts s \<Longrightarrow> normpath s = s"
  using clean_root [of s] by (simp add: normpath_def clean_parts_def foldl_norm_add)

lemma path_of_clean: "clean_parts s \<Longrightarrow> path_of s = split_on (CHR ''/'') s"
  using clean_root [of s] by (auto simp: path_of_def relative_parts_def clean_parts_def list_all_iff intro: filter_True)

end
