(* ===== verification/Github_Tree.thy ===== *)
theory Github_Tree
  imports Git_Objects Py_Path
begin

text \<open>
  Tree listings in \<^verbatim>\<open>src/app_contracts/github_snapshot.py\<close>: the parsing of the entries of a response, and the
  rebuilding of every Git tree object they stand for.
\<close>

section \<open>Fields\<close>

definition snapshot_error :: "string \<Rightarrow> exn" where
  "snapshot_error m = Exn GitHubSnapshotError (''github snapshot: '' @ m)"

text \<open>\<^verbatim>\<open>[A-Za-z0-9](?:[A-Za-z0-9-]{0,37}[A-Za-z0-9])?\Z\<close> and \<^verbatim>\<open>[A-Za-z0-9_.-]{1,100}\Z\<close>.\<close>

definition is_owner :: "string \<Rightarrow> bool" where
  "is_owner s \<longleftrightarrow> s \<noteq> [] \<and> length s \<le> 39 \<and> is_alnum (hd s) \<and> is_alnum (last s)
     \<and> list_all (\<lambda>c. is_alnum c \<or> c = CHR ''-'') s"

definition is_repository :: "string \<Rightarrow> bool" where
  "is_repository s \<longleftrightarrow> s \<noteq> [] \<and> length s \<le> 100
     \<and> list_all (\<lambda>c. is_alnum c \<or> c \<in> {CHR ''_'', CHR ''.'', CHR ''-''}) s"

definition validate_owner :: "pyval \<Rightarrow> unit res" where
  "validate_owner v = unless (\<not> is_str v \<or> \<not> is_owner (str_of v)) (snapshot_error ''repository identity is invalid'') (Inr ())"

definition validate_repository :: "pyval \<Rightarrow> unit res" where
  "validate_repository v =
     unless (\<not> is_str v \<or> str_of v \<in> {''.'', ''..''} \<or> \<not> is_repository (str_of v))
       (snapshot_error ''repository identity is invalid'') (Inr ())"

definition validate_oid :: "pyval \<Rightarrow> string \<Rightarrow> unit res" where
  "validate_oid v message = unless (\<not> is_str v \<or> \<not> is_hex40 (str_of v)) (snapshot_error message) (Inr ())"

text \<open>\<^verbatim>\<open>_is_safe_tree_path\<close>.\<close>

definition is_safe_tree_path :: "pyval \<Rightarrow> bool" where
  "is_safe_tree_path v \<longleftrightarrow>
     (let s = str_of v
      in is_str v \<and> s \<noteq> [] \<and> \<not> strip_changes s \<and> \<not> startswith s ''/'' \<and> CHR 0x5C \<notin> set s \<and> \<not> contains ''//'' s
         \<and> \<not> any_char is_control s \<and> \<not> list_ex (\<lambda>p. p \<in> {'''', ''.'', ''..''}) (split_on (CHR ''/'') s)
         \<and> \<not> has_surrogate s \<and> length s \<le> 240)"

definition blob_modes :: "string list" where
  "blob_modes = [''100644'', ''100755'']"

definition max_files :: nat where
  "max_files = 10000"

definition max_file_bytes :: nat where
  "max_file_bytes = 262144"

definition max_total_bytes :: nat where
  "max_total_bytes = 1000000"

section \<open>Entries\<close>

record tree_entry =
  te_path :: string
  te_mode :: string
  te_type :: string
  te_sha :: string
  te_size :: "int option"

definition entry_error :: exn where
  "entry_error = snapshot_error ''tree entry is invalid''"

definition parse_tree_entry :: "string list \<Rightarrow> pyval \<Rightarrow> tree_entry res" where
  "parse_tree_entry seen raw =
     unless (\<not> is_dict raw \<or> \<not> is_safe_tree_path (fld raw ''path'')) entry_error
    (let path = normpath (str_of (fld raw ''path'')); mode = fld raw ''mode''; kind = fld raw ''type''; sha = fld raw ''sha''
     in unless (path \<in> set seen) entry_error
       (unless (\<not> is_str mode \<or> \<not> is_str kind) entry_error
       (unless (if str_of mode \<in> set blob_modes then str_of kind \<noteq> ''blob''
                else \<not> (str_of mode = ''040000'' \<and> str_of kind = ''tree'')) entry_error
       (unless (\<not> is_str sha \<or> \<not> is_hex40 (str_of sha)) entry_error
       (unless (has_key raw ''size'' \<and> (\<not> is_int (fld raw ''size'') \<or> int_of (fld raw ''size'') < 0)) entry_error
       (Inr \<lparr>te_path = path, te_mode = str_of mode, te_type = str_of kind, te_sha = str_of sha,
             te_size = (if has_key raw ''size'' then Some (int_of (fld raw ''size'')) else None)\<rparr>))))))"

fun parse_tree_entries :: "string list \<Rightarrow> pyval list \<Rightarrow> tree_entry list res" where
  "parse_tree_entries seen [] = Inr []"
| "parse_tree_entries seen (raw # raws) =
     rbind (parse_tree_entry seen raw) (\<lambda>e.
     rbind (parse_tree_entries (te_path e # seen) raws) (\<lambda>es. Inr (e # es)))"

section \<open>Rebuilding the tree objects\<close>

text \<open>\<^verbatim>\<open>path.rpartition("/")\<close>: the directory and the name.\<close>

definition parent_of :: "string \<Rightarrow> string" where
  "parent_of p = join ''/'' (butlast (split_on (CHR ''/'') p))"

definition name_of :: "string \<Rightarrow> string" where
  "name_of p = last (split_on (CHR ''/'') p)"

definition ancestors :: "string \<Rightarrow> string list" where
  "ancestors p = (let ps = split_on (CHR ''/'') p in map (\<lambda>n. join ''/'' (take n ps)) [1..<length ps])"

definition required_directories :: "tree_entry list \<Rightarrow> string list" where
  "required_directories es = remdups (concat (map (ancestors \<circ> te_path) es))"

definition is_tree :: "tree_entry \<Rightarrow> bool" where
  "is_tree e \<longleftrightarrow> te_type e = ''tree''"

definition declared_directories :: "tree_entry list \<Rightarrow> string list" where
  "declared_directories es = map te_path (filter is_tree es)"

definition kids :: "string \<Rightarrow> tree_entry list \<Rightarrow> tree_entry list" where
  "kids d es = filter (\<lambda>e. parent_of (te_path e) = d) es"

definition object_mode :: "tree_entry \<Rightarrow> string" where
  "object_mode e = (if is_tree e then ''40000'' else te_mode e)"

definition sort_name :: "tree_entry \<Rightarrow> string" where
  "sort_name e = name_of (te_path e) @ (if is_tree e then ''/'' else [])"

definition object_entry :: "tree_entry \<times> string \<Rightarrow> string" where
  "object_entry eo = (case eo of (e, oid) \<Rightarrow> object_mode e @ '' '' @ name_of (te_path e) @ [CHR 0x00] @ bytes_of_hex oid)"

definition tree_payload :: "(tree_entry \<times> string) list \<Rightarrow> string" where
  "tree_payload kos = concat (map object_entry (sort_key (\<lambda>(e, _). sort_name e) kos))"

text \<open>\<^verbatim>\<open>computed\<close> holds the identifiers of the directories already rebuilt.\<close>

definition child_oid :: "(string \<times> string) list \<Rightarrow> tree_entry \<Rightarrow> string res" where
  "child_oid computed e =
     (if is_tree e then (case map_of computed (te_path e) of None \<Rightarrow> raise KeyError (te_path e) | Some x \<Rightarrow> Inr x)
      else Inr (te_sha e))"

fun check_directories :: "string \<Rightarrow> tree_entry list \<Rightarrow> (string \<times> string) list \<Rightarrow> string list \<Rightarrow> unit res" where
  "check_directories root es computed [] = Inr ()"
| "check_directories root es computed (d # ds) =
     rbind (map_res (child_oid computed) (kids d es)) (\<lambda>oids.
     unless (kids d es = [] \<and> d \<noteq> []) (snapshot_error ''tree structure mismatch'')
    (let oid = git_oid ''tree'' (tree_payload (zip (kids d es) oids))
     in if d = [] then unless (oid \<noteq> root) (snapshot_error ''tree OID mismatch'') (check_directories root es computed ds)
        else (case map_of (map (\<lambda>e. (te_path e, te_sha e)) es) d of
            None \<Rightarrow> raise KeyError d
          | Some claimed \<Rightarrow> unless (oid \<noteq> claimed) (snapshot_error ''subtree OID mismatch'')
              (check_directories root es ((d, oid) # computed) ds))))"

text \<open>
  The deepest directories come first. The order of those at one depth is the order of a Python set; here
  it is that of the listing, and what is accepted does not depend on it (\<open>verify_iff\<close>).
\<close>

definition depth :: "string \<Rightarrow> nat" where
  "depth p = count_list p (CHR ''/'')"

definition verify_git_tree_entries :: "string \<Rightarrow> tree_entry list \<Rightarrow> unit res" where
  "verify_git_tree_entries root es =
     unless (set (declared_directories es) \<noteq> set (required_directories es)) (snapshot_error ''tree structure mismatch'')
    (check_directories root es [] (sort_key (\<lambda>d. - int (depth d)) (required_directories es) @ [[]]))"

end
