(* ===== verification/Github_Tree_Facts.thy ===== *)
theory Github_Tree_Facts
  imports Github_Tree
begin

text \<open>
  What an accepted tree listing is: each directory of the listing, and the root, has as its identifier the
  Git tree object of its own entries. So a root identifier determines the listing, up to collisions.
\<close>

section \<open>Listings\<close>

definition tree_entry_ok :: "tree_entry \<Rightarrow> bool" where
  "tree_entry_ok e \<longleftrightarrow> is_safe_tree_path (PStr (te_path e)) \<and> is_hex40 (te_sha e) \<and>
     (te_type e = ''blob'' \<and> te_mode e \<in> set blob_modes \<or> te_type e = ''tree'' \<and> te_mode e = ''040000'')"

definition listing_ok :: "tree_entry list \<Rightarrow> bool" where
  "listing_ok es \<longleftrightarrow> distinct (map te_path es) \<and> list_all tree_entry_ok es"

lemma safe_clean: "is_safe_tree_path v \<Longrightarrow> clean_parts (str_of v)"
  by (auto simp: is_safe_tree_path_def clean_parts_def Let_def list_all_iff list_ex_iff)

lemma parse_tree_entry_ok:
  assumes "parse_tree_entry seen raw = Inr e"
  shows "tree_entry_ok e \<and> te_path e \<notin> set seen"
proof -
  have safe: "is_safe_tree_path (fld raw ''path'')" using assms by (simp add: parse_tree_entry_def)
  then have n: "normpath (str_of (fld raw ''path'')) = str_of (fld raw ''path'')" by (intro normpath_clean safe_clean)
  have "is_safe_tree_path (PStr (str_of (fld raw ''path'')))" using safe by (simp add: is_safe_tree_path_def Let_def)
  then show ?thesis using assms by (auto simp: parse_tree_entry_def tree_entry_ok_def Let_def n split: if_splits)
qed

lemma parse_tree_entries_ok: "parse_tree_entries seen raws = Inr es \<Longrightarrow> listing_ok es \<and> set (map te_path es) \<inter> set seen = {}"
proof (induction seen raws arbitrary: es rule: parse_tree_entries.induct)
  case (2 seen raw raws)
  then obtain e fs where e: "parse_tree_entry seen raw = Inr e" "parse_tree_entries (te_path e # seen) raws = Inr fs" "es = e # fs"
    by auto
  then show ?case using parse_tree_entry_ok [OF e(1)] "2.IH" [OF e(2)] by (auto simp: listing_ok_def)
qed (simp add: listing_ok_def)

section \<open>Directories\<close>

lemma length_split: "length (split_on d s) = Suc (count_list s d)"
  by (induction s) (auto split: list.splits)

lemma depth_parts: "length (split_on (CHR ''/'') p) = Suc (depth p)"
  by (simp add: depth_def length_split)

lemma parts_no_slash: "q \<in> set (split_on (CHR ''/'') p) \<Longrightarrow> CHR ''/'' \<notin> set q"
  by (rule split_on_no_sep_parts)

lemma split_take: "0 < n \<Longrightarrow> split_on (CHR ''/'') (join ''/'' (take n (split_on (CHR ''/'') p))) = take n (split_on (CHR ''/'') p)"
  by (rule split_join) (auto dest: in_set_takeD parts_no_slash)

lemma parent_split: "parent_of p \<noteq> [] \<Longrightarrow> split_on (CHR ''/'') (parent_of p) = butlast (split_on (CHR ''/'') p)"
  unfolding parent_of_def by (rule split_join) (auto dest: in_set_butlastD parts_no_slash)

lemma depth_parent: "parent_of p \<noteq> [] \<Longrightarrow> depth p = Suc (depth (parent_of p))"
  using parent_split [of p] depth_parts [of p] depth_parts [of "parent_of p"] by simp

lemma ancestors_iff:
  "d \<in> set (ancestors p) \<longleftrightarrow>
   (\<exists>n. 0 < n \<and> n < length (split_on (CHR ''/'') p) \<and> d = join ''/'' (take n (split_on (CHR ''/'') p)))"
  by (auto simp: ancestors_def Let_def Suc_le_eq)

lemma join_nonempty: "ps \<noteq> [] \<Longrightarrow> hd ps \<noteq> [] \<Longrightarrow> join d ps \<noteq> []"
  by (cases ps; cases "tl ps") auto

text \<open>A directory on the way to an entry has an entry in the listing below it.\<close>

lemma ancestor_kid:
  assumes "clean_parts p" "d \<in> set (ancestors p)"
  shows "\<exists>q. (q = p \<or> q \<in> set (ancestors p)) \<and> parent_of q = d" and "d \<noteq> []"
proof -
  let ?ps = "split_on (CHR ''/'') p"
  obtain n where n: "0 < n" "n < length ?ps" "d = join ''/'' (take n ?ps)" using assms(2) unfolding ancestors_iff by blast
  have "hd (take n ?ps) \<noteq> []" using assms(1) n(1) by (cases ?ps) (auto simp: clean_parts_def)
  then show "d \<noteq> []" using n join_nonempty [of "take n ?ps"] by auto
  let ?q = "join ''/'' (take (Suc n) ?ps)"
  have "parent_of ?q = d" using n split_take [of "Suc n" p] by (simp add: parent_of_def butlast_take)
  moreover have "?q = p \<or> ?q \<in> set (ancestors p)"
  proof (cases "Suc n = length ?ps")
    case False
    then have "Suc n < length ?ps" using n by linarith
    then show ?thesis unfolding ancestors_iff by blast
  qed simp
  ultimately show "\<exists>q. (q = p \<or> q \<in> set (ancestors p)) \<and> parent_of q = d" by blast
qed

lemma entry_clean: "listing_ok es \<Longrightarrow> e \<in> set es \<Longrightarrow> clean_parts (te_path e)"
  using safe_clean [of "PStr (te_path e)"] by (auto simp: listing_ok_def tree_entry_ok_def list_all_iff)

lemma required_kids:
  assumes "listing_ok es" "set (declared_directories es) = set (required_directories es)" "d \<in> set (required_directories es)"
  shows "kids d es \<noteq> []" "d \<noteq> []"
proof -
  obtain e where e: "e \<in> set es" "d \<in> set (ancestors (te_path e))" using assms(3) by (auto simp: required_directories_def)
  obtain q where q: "q = te_path e \<or> q \<in> set (ancestors (te_path e))" "parent_of q = d"
    using ancestor_kid(1) [OF entry_clean [OF assms(1) e(1)] e(2)] by blast
  have "\<exists>f\<in>set es. te_path f = q"
  proof (cases "q = te_path e")
    case False
    then have "q \<in> set (required_directories es)" using q e(1) by (auto simp: required_directories_def)
    then have "q \<in> te_path ` set (filter is_tree es)" using assms(2) by (simp add: declared_directories_def)
    then show ?thesis by auto
  qed (use e in blast)
  then show "kids d es \<noteq> []" using q(2) by (auto simp: kids_def filter_empty_conv)
  show "d \<noteq> []" by (rule ancestor_kid(2) [OF entry_clean [OF assms(1) e(1)] e(2)])
qed

section \<open>The check as a condition on each directory\<close>

definition tree_of :: "tree_entry list \<Rightarrow> string \<Rightarrow> string" where
  "tree_of es d = tree_payload (map (\<lambda>e. (e, te_sha e)) (kids d es))"

definition claim_of :: "string \<Rightarrow> tree_entry list \<Rightarrow> string \<Rightarrow> string option" where
  "claim_of root es d = (if d = [] then Some root else map_of (map (\<lambda>e. (te_path e, te_sha e)) es) d)"

fun bottom_up :: "tree_entry list \<Rightarrow> string set \<Rightarrow> string list \<Rightarrow> bool" where
  "bottom_up es K [] = True"
| "bottom_up es K (d # ds) = ((\<forall>e\<in>set (kids d es). is_tree e \<longrightarrow> te_path e \<in> K) \<and> bottom_up es (insert d K) ds)"

lemma bottom_up_append: "bottom_up es K (ds @ cs) \<longleftrightarrow> bottom_up es K ds \<and> bottom_up es (K \<union> set ds) cs"
  by (induction ds arbitrary: K) auto

lemma sorted_bottom_up:
  "sorted (map (\<lambda>d. - int (depth d)) ds) \<Longrightarrow> [] \<notin> set ds \<Longrightarrow>
   \<forall>d\<in>set ds. \<forall>e\<in>set (kids d es). is_tree e \<longrightarrow> te_path e \<in> K \<union> set ds \<Longrightarrow> bottom_up es K ds"
proof (induction ds arbitrary: K)
  case (Cons d ds)
  have "te_path e \<in> K" if e: "e \<in> set (kids d es)" "is_tree e" for e
  proof -
    have p: "parent_of (te_path e) = d" using e by (simp add: kids_def)
    then have "depth (te_path e) = Suc (depth d)" using Cons.prems(2) depth_parent [of "te_path e"] by auto
    then have "te_path e \<notin> set (d # ds)" using Cons.prems(1) by auto
    then show ?thesis using Cons.prems(3) e by auto
  qed
  moreover have "bottom_up es (insert d K) ds"
    using Cons.prems by (intro Cons.IH) auto
  ultimately show ?case by simp
qed simp

lemma child_oids:
  assumes "distinct (map te_path es)"
    and "\<forall>p x. map_of computed p = Some x \<longrightarrow> (\<exists>e\<in>set es. te_path e = p \<and> te_sha e = x)"
    and "\<forall>e\<in>set fs. is_tree e \<longrightarrow> te_path e \<in> fst ` set computed" "set fs \<subseteq> set es"
  shows "map_res (child_oid computed) fs = Inr (map te_sha fs)"
proof (rule map_res_all)
  fix e assume e: "e \<in> set fs"
  show "child_oid computed e = Inr (te_sha e)"
  proof (cases "is_tree e")
    case True
    then obtain x where x: "map_of computed (te_path e) = Some x"
      using assms(3) e by (metis map_of_eq_None_iff option.exhaust)
    then obtain f where f: "f \<in> set es" "te_path f = te_path e" "te_sha f = x" using assms(2) by blast
    then have "f = e" using assms(1,4) e by (auto simp: distinct_map inj_on_def)
    then show ?thesis using True x f by (simp add: child_oid_def)
  qed (simp add: child_oid_def)
qed

lemma zip_map_self: "zip xs (map f xs) = map (\<lambda>x. (x, f x)) xs"
  by (induction xs) auto

lemma check_directories_iff:
  assumes "distinct (map te_path es)"
  shows "\<forall>p x. map_of computed p = Some x \<longrightarrow> (\<exists>e\<in>set es. te_path e = p \<and> te_sha e = x) \<Longrightarrow>
    bottom_up es (fst ` set computed) (ds @ [[]]) \<Longrightarrow> \<forall>d\<in>set ds. d \<noteq> [] \<and> kids d es \<noteq> [] \<and> d \<in> te_path ` set es \<Longrightarrow>
    check_directories root es computed (ds @ [[]]) = Inr () \<longleftrightarrow>
      (\<forall>d\<in>set (ds @ [[]]). claim_of root es d = Some (git_oid ''tree'' (tree_of es d)))"
proof (induction ds arbitrary: computed)
  case Nil
  have "map_res (child_oid computed) (kids [] es) = Inr (map te_sha (kids [] es))"
    using Nil(1,2) by (intro child_oids [OF assms]) (auto simp: kids_def)
  then show ?case by (auto simp: claim_of_def tree_of_def zip_map_self)
next
  case (Cons d ds)
  let ?oid = "git_oid ''tree'' (tree_of es d)"
  have c: "map_res (child_oid computed) (kids d es) = Inr (map te_sha (kids d es))"
    using Cons.prems(1,2) by (intro child_oids [OF assms]) (auto simp: kids_def)
  have d: "d \<noteq> []" "kids d es \<noteq> []" "d \<in> te_path ` set es" using Cons.prems(3) by simp_all
  obtain e where e: "e \<in> set es" "te_path e = d" using d(3) by auto
  then have claim: "map_of (map (\<lambda>e. (te_path e, te_sha e)) es) d = Some (te_sha e)"
    using assms by (intro map_of_is_SomeI) (auto simp: comp_def)
  have step: "check_directories root es computed ((d # ds) @ [[]]) =
      unless (?oid \<noteq> te_sha e) (snapshot_error ''subtree OID mismatch'') (check_directories root es ((d, ?oid) # computed) (ds @ [[]]))"
    using d by (simp add: c claim tree_of_def zip_map_self Let_def)
  have now: "claim_of root es d = Some ?oid \<longleftrightarrow> ?oid = te_sha e" using d(1) by (auto simp: claim_of_def claim)
  have later: "check_directories root es ((d, ?oid) # computed) (ds @ [[]]) = Inr () \<longleftrightarrow>
      (\<forall>d\<in>set (ds @ [[]]). claim_of root es d = Some (git_oid ''tree'' (tree_of es d)))" if "?oid = te_sha e"
    using Cons.prems e that by (intro Cons.IH) auto
  show ?case using now later unfolding step by auto
qed

text \<open>The listing is accepted exactly when every directory, the root included, has the object its identifier names.\<close>

lemma bottom_up_deepest:
  assumes "listing_ok es" "set (declared_directories es) = set (required_directories es)"
  shows "bottom_up es {} (sort_key (\<lambda>d. - int (depth d)) (required_directories es) @ [[]])"
proof -
  let ?ds = "sort_key (\<lambda>d. - int (depth d)) (required_directories es)"
  have closed: "te_path e \<in> set (required_directories es)" if "e \<in> set (kids d es)" "is_tree e" for e d
    using that assms(2) by (auto simp: kids_def declared_directories_def)
  have "bottom_up es {} ?ds"
    using closed required_kids(2) [OF assms] by (intro sorted_bottom_up) auto
  then show ?thesis using closed by (auto simp: bottom_up_append)
qed

lemma verify_iff:
  assumes "listing_ok es"
  shows "verify_git_tree_entries root es = Inr () \<longleftrightarrow>
    set (declared_directories es) = set (required_directories es) \<and>
    (\<forall>d\<in>insert [] (set (required_directories es)). claim_of root es d = Some (git_oid ''tree'' (tree_of es d)))"
proof (cases "set (declared_directories es) = set (required_directories es)")
  case True
  let ?ds = "sort_key (\<lambda>d. - int (depth d)) (required_directories es)"
  have "\<forall>d\<in>set ?ds. d \<noteq> [] \<and> kids d es \<noteq> [] \<and> d \<in> te_path ` set es"
    using required_kids [OF assms True] True by (auto simp: declared_directories_def)
  moreover have "distinct (map te_path es)" using assms by (simp add: listing_ok_def)
  ultimately have "check_directories root es [] (?ds @ [[]]) = Inr () \<longleftrightarrow>
      (\<forall>d\<in>set (?ds @ [[]]). claim_of root es d = Some (git_oid ''tree'' (tree_of es d)))"
    using bottom_up_deepest [OF assms True] by (intro check_directories_iff) auto
  then show ?thesis using True by (simp add: verify_git_tree_entries_def)
qed (simp add: verify_git_tree_entries_def)

section \<open>Object entries\<close>

lemma nibble_nat:
  "(48 \<le> x \<and> x \<le> 57) \<or> (97 \<le> x \<and> x \<le> 102) \<Longrightarrow> (48 \<le> y \<and> y \<le> 57) \<or> (97 \<le> y \<and> y \<le> 102) \<Longrightarrow>
   (if 48 \<le> x \<and> x \<le> 57 then x - 48 else x - 87) = (if 48 \<le> y \<and> y \<le> 57 then y - 48 else y - 87) \<Longrightarrow> x = (y :: nat)"
  by (auto split: if_splits)

lemma nibble_inj: "is_lower_hex c \<Longrightarrow> is_lower_hex d \<Longrightarrow> nibble c = nibble d \<Longrightarrow> c = d"
  using nibble_nat [of "byte c" "byte d"] unfolding is_lower_hex_def nibble_def is_digit_def by simp

lemma nibble_16: "is_lower_hex c \<Longrightarrow> nibble c < 16"
  by (auto simp: is_lower_hex_def is_digit_def nibble_def)

lemma two_hex_digits:
  fixes a b c d :: nat
  assumes "a < 16" "b < 16" "c < 16" "d < 16" "16 * a + b = 16 * c + d"
  shows "a = c \<and> b = d"
proof -
  have "(16 * a + b) div 16 = a" "(16 * c + d) div 16 = c" using assms(2,4) by simp_all
  then show ?thesis using assms(5) by simp
qed

lemma bytes_of_hex_inj: "list_all is_lower_hex s \<Longrightarrow> list_all is_lower_hex t \<Longrightarrow> length t = length s \<Longrightarrow> even (length s) \<Longrightarrow>
   bytes_of_hex s = bytes_of_hex t \<Longrightarrow> s = t"
proof (induction s arbitrary: t rule: bytes_of_hex.induct)
  case (1 a b r)
  obtain c d u where t: "t = c # d # u" using 1(4) by (cases t; cases "tl t") auto
  have lt: "nibble a < 16" "nibble b < 16" "nibble c < 16" "nibble d < 16" using 1(2,3) t nibble_16 by auto
  have "(char_of (16 * nibble a + nibble b) :: char) = char_of (16 * nibble c + nibble d)" using 1(6) t by simp
  then have "byte (char_of (16 * nibble a + nibble b)) = byte (char_of (16 * nibble c + nibble d))" by (rule arg_cong)
  moreover have "16 * nibble a + nibble b < 256" "16 * nibble c + nibble d < 256" using lt by linarith+
  ultimately have "16 * nibble a + nibble b = 16 * nibble c + nibble d" by (simp only: of_char_of mod_less)
  then have "nibble a = nibble c \<and> nibble b = nibble d" by (rule two_hex_digits [OF lt])
  then have "a = c" "b = d" using 1(2,3) t nibble_inj by simp_all
  moreover have "r = u" using 1(2-6) t by (intro "1.IH") simp_all
  ultimately show ?case using t by simp
qed simp_all

lemma length_bytes_of_hex: "even (length s) \<Longrightarrow> length (bytes_of_hex s) = length s div 2"
  by (induction s rule: bytes_of_hex.induct) auto

lemma same_front: "length xs = length ys \<Longrightarrow> xs @ us = ys @ vs \<Longrightarrow> xs = ys \<and> us = vs"
  by simp

lemma split_at_mark: "a \<notin> set xs \<Longrightarrow> a \<notin> set ys \<Longrightarrow> xs @ a # us = ys @ a # vs \<Longrightarrow> xs = ys \<and> us = vs"
proof (induction xs arbitrary: ys)
  case Nil
  then show ?case by (cases ys) auto
next
  case (Cons x xs)
  then show ?case by (cases ys) auto
qed

definition entry_key :: "tree_entry \<Rightarrow> string \<times> string \<times> string" where
  "entry_key e = (object_mode e, name_of (te_path e), te_sha e)"

lemma entry_parts:
  assumes "tree_entry_ok e"
  shows "CHR '' '' \<notin> set (object_mode e)" "length (te_sha e) = 40" "list_all is_lower_hex (te_sha e)"
  using assms by (auto simp: tree_entry_ok_def object_mode_def blob_modes_def is_hex40_def)

lemma split_subset: "p \<in> set (split_on d s) \<Longrightarrow> set p \<subseteq> set s"
proof (induction s arbitrary: p)
  case (Cons c s)
  obtain w ws where w: "split_on d s = w # ws" by (cases "split_on d s") auto
  have sub: "set q \<subseteq> set s" if "q \<in> set (w # ws)" for q using Cons.IH [of q] that w by simp
  have "p = [] \<or> p = c # w \<or> p \<in> set (w # ws)" using Cons.prems w by (auto split: if_splits)
  then show ?case using sub [of w] sub [of p] by auto
qed simp

lemma name_subset: "set (name_of p) \<subseteq> set p"
  unfolding name_of_def by (rule split_subset [of _ "CHR ''/''"]) (rule last_in_set [OF split_on_nonempty])

lemma object_entries_inj:
  assumes "\<forall>e\<in>set es. tree_entry_ok e \<and> CHR 0x00 \<notin> set (te_path e)" "\<forall>f\<in>set fs. tree_entry_ok f \<and> CHR 0x00 \<notin> set (te_path f)"
    and "concat (map (\<lambda>e. object_entry (e, te_sha e)) es) = concat (map (\<lambda>f. object_entry (f, te_sha f)) fs)"
  shows "map entry_key es = map entry_key fs"
  using assms
proof (induction es arbitrary: fs)
  case Nil
  then show ?case by (cases fs) (auto simp: object_entry_def)
next
  case (Cons e es)
  obtain f gs where fs: "fs = f # gs" using Cons.prems(3) by (cases fs) (auto simp: object_entry_def)
  let ?E = "concat (map (\<lambda>e. object_entry (e, te_sha e)) es)" and ?F = "concat (map (\<lambda>f. object_entry (f, te_sha f)) gs)"
  have ok: "tree_entry_ok e" "tree_entry_ok f" using Cons.prems(1,2) fs by auto
  have nul: "CHR 0x00 \<notin> set (name_of (te_path e))" "CHR 0x00 \<notin> set (name_of (te_path f))"
    using Cons.prems(1,2) fs name_subset [of "te_path e"] name_subset [of "te_path f"] by auto
  have "object_mode e @ CHR '' '' # name_of (te_path e) @ CHR 0x00 # bytes_of_hex (te_sha e) @ ?E =
        object_mode f @ CHR '' '' # name_of (te_path f) @ CHR 0x00 # bytes_of_hex (te_sha f) @ ?F"
    using Cons.prems(3) fs by (simp add: object_entry_def)
  then have m: "object_mode e = object_mode f \<and> name_of (te_path e) @ CHR 0x00 # bytes_of_hex (te_sha e) @ ?E =
      name_of (te_path f) @ CHR 0x00 # bytes_of_hex (te_sha f) @ ?F"
    by (rule split_at_mark [OF entry_parts(1) [OF ok(1)] entry_parts(1) [OF ok(2)]])
  have n: "name_of (te_path e) = name_of (te_path f) \<and> bytes_of_hex (te_sha e) @ ?E = bytes_of_hex (te_sha f) @ ?F"
    by (rule split_at_mark [OF nul conjunct2 [OF m]])
  have "length (bytes_of_hex (te_sha e)) = length (bytes_of_hex (te_sha f))"
    using entry_parts(2) [OF ok(1)] entry_parts(2) [OF ok(2)] by (simp add: length_bytes_of_hex)
  note s = same_front [OF this conjunct2 [OF n]]
  have "te_sha e = te_sha f"
    by (rule bytes_of_hex_inj) (use conjunct1 [OF s] entry_parts(2,3) [OF ok(1)] entry_parts(2,3) [OF ok(2)] in simp_all)
  then have "entry_key e = entry_key f" using m n by (simp add: entry_key_def)
  moreover have "map entry_key es = map entry_key gs" using Cons.prems(1,2) fs conjunct2 [OF s] by (intro Cons.IH) auto
  ultimately show ?case using fs by simp
qed

lemma tree_of_inj:
  assumes "listing_ok es" "listing_ok fs" "tree_of es d = tree_of fs d"
    and "\<forall>e\<in>set es \<union> set fs. CHR 0x00 \<notin> set (te_path e)"
  shows "entry_key ` set (kids d es) = entry_key ` set (kids d fs)"
proof -
  define s where "s = (\<lambda>es. map fst (sort_key (\<lambda>(e, _). sort_name e) (map (\<lambda>e. (e, te_sha e)) (kids d es))))"
  have s: "set (s es) = set (kids d es)"
      "sort_key (\<lambda>(e, _). sort_name e) (map (\<lambda>e. (e, te_sha e)) (kids d es)) = map (\<lambda>e. (e, te_sha e)) (s es)" for es
  proof -
    show "set (s es) = set (kids d es)" by (force simp: s_def)
    have self: "map (\<lambda>e. (e, te_sha e)) (map fst xs) = xs" if "set xs \<subseteq> (\<lambda>e. (e, te_sha e)) ` A" for xs A
      using that by (induction xs) auto
    show "sort_key (\<lambda>(e, _). sort_name e) (map (\<lambda>e. (e, te_sha e)) (kids d es)) = map (\<lambda>e. (e, te_sha e)) (s es)"
      unfolding s_def by (rule sym, rule self [of _ "set (kids d es)"]) simp
  qed
  have sub: "set (s es) \<subseteq> set es" "set (s fs) \<subseteq> set fs" by (auto simp: s(1) kids_def)
  have ok: "\<forall>e\<in>set (s es). tree_entry_ok e \<and> CHR 0x00 \<notin> set (te_path e)" "\<forall>e\<in>set (s fs). tree_entry_ok e \<and> CHR 0x00 \<notin> set (te_path e)"
    using assms(1,2,4) sub by (auto simp: listing_ok_def list_all_iff)
  have "concat (map (\<lambda>e. object_entry (e, te_sha e)) (s es)) = concat (map (\<lambda>f. object_entry (f, te_sha f)) (s fs))"
    using assms(3) unfolding tree_of_def tree_payload_def s(2) by (simp add: comp_def)
  then have "map entry_key (s es) = map entry_key (s fs)" by (rule object_entries_inj [OF ok])
  then show ?thesis by (metis s(1) set_map)
qed

lemma path_from_parent:
  assumes "clean_parts p" "clean_parts q" "parent_of p = parent_of q" "name_of p = name_of q"
  shows "p = q"
proof -
  let ?p = "split_on (CHR ''/'') p" and ?q = "split_on (CHR ''/'') q"
  have nil: "butlast (split_on (CHR ''/'') r) = [] \<longleftrightarrow> parent_of r = []" if "clean_parts r" for r
  proof -
    obtain w ws where w: "split_on (CHR ''/'') r = w # ws" by (cases "split_on (CHR ''/'') r") auto
    have "w \<noteq> []" using that w by (simp add: clean_parts_def)
    then show ?thesis using w join_nonempty [of "butlast (w # ws)" "''/''"] by (auto simp: parent_of_def split: if_splits)
  qed
  have "butlast ?p = butlast ?q"
  proof (cases "parent_of p = []")
    case True
    then show ?thesis using nil [OF assms(1)] nil [OF assms(2)] assms(3) by simp
  next
    case False
    then show ?thesis using parent_split [of p] parent_split [of q] assms(3) by simp
  qed
  then have "?p = ?q" using assms(4) by (metis append_butlast_last_id name_of_def split_on_nonempty)
  then show ?thesis by (metis join_split)
qed

section \<open>A root identifier determines the listing\<close>

definition core_of :: "tree_entry \<Rightarrow> string \<times> string \<times> string \<times> string" where
  "core_of e = (te_path e, te_mode e, te_type e, te_sha e)"

definition tree_collision :: "tree_entry list \<Rightarrow> tree_entry list \<Rightarrow> bool" where
  "tree_collision es fs \<longleftrightarrow> (\<exists>d\<in>insert [] (set (required_directories es) \<inter> set (required_directories fs)).
     tree_of es d \<noteq> tree_of fs d \<and> git_oid ''tree'' (tree_of es d) = git_oid ''tree'' (tree_of fs d))"

lemma key_core:
  assumes "tree_entry_ok e" "tree_entry_ok f" "parent_of (te_path e) = parent_of (te_path f)" "entry_key e = entry_key f"
  shows "core_of e = core_of f"
proof -
  have "clean_parts (te_path e)" "clean_parts (te_path f)"
    using assms(1,2) safe_clean [of "PStr (te_path e)"] safe_clean [of "PStr (te_path f)"] by (simp_all add: tree_entry_ok_def)
  then have "te_path e = te_path f" using assms(3,4) path_from_parent by (simp add: entry_key_def)
  moreover have "object_mode e = object_mode f" "te_sha e = te_sha f" using assms(4) by (simp_all add: entry_key_def)
  ultimately show ?thesis using assms(1,2)
    by (auto simp: tree_entry_ok_def core_of_def object_mode_def is_tree_def blob_modes_def)
qed

lemma parent_required:
  assumes "listing_ok es" "e \<in> set es" "parent_of (te_path e) \<noteq> []"
  shows "parent_of (te_path e) \<in> set (required_directories es)"
proof -
  have "0 < depth (te_path e)" using depth_parent [OF assms(3)] by (rule ssubst) simp
  moreover have "parent_of (te_path e) = join ''/'' (take (depth (te_path e)) (split_on (CHR ''/'') (te_path e)))"
    by (simp add: parent_of_def butlast_conv_take depth_parts)
  ultimately have "parent_of (te_path e) \<in> set (ancestors (te_path e))"
    unfolding ancestors_iff depth_parts by (intro exI [of _ "depth (te_path e)"] conjI lessI)
  then show ?thesis using assms(2) by (auto simp: required_directories_def)
qed

lemma claim_of_entry: "listing_ok es \<Longrightarrow> e \<in> set es \<Longrightarrow> te_path e \<noteq> [] \<Longrightarrow> claim_of root es (te_path e) = Some (te_sha e)"
  by (auto simp: claim_of_def listing_ok_def comp_def intro!: map_of_is_SomeI)

lemma same_entries:
  assumes ok: "listing_ok es" "listing_ok fs" "\<forall>e\<in>set es \<union> set fs. CHR 0x00 \<notin> set (te_path e)"
    and acc: "verify_git_tree_entries root es = Inr ()" "verify_git_tree_entries root fs = Inr ()"
    and no: "\<not> tree_collision es fs"
  shows "e \<in> set es \<Longrightarrow> core_of e \<in> core_of ` set fs"
proof (induction "depth (te_path e)" arbitrary: e rule: less_induct)
  case less
  have es: "set (declared_directories es) = set (required_directories es)"
      "d \<in> insert [] (set (required_directories es)) \<Longrightarrow> claim_of root es d = Some (git_oid ''tree'' (tree_of es d))" for d
    using acc(1) verify_iff [OF ok(1)] by blast+
  have fs: "set (declared_directories fs) = set (required_directories fs)"
      "d \<in> insert [] (set (required_directories fs)) \<Longrightarrow> claim_of root fs d = Some (git_oid ''tree'' (tree_of fs d))" for d
    using acc(2) verify_iff [OF ok(2)] by blast+
  let ?d = "parent_of (te_path e)"
  have both: "?d \<in> insert [] (set (required_directories es) \<inter> set (required_directories fs)) \<and> claim_of root es ?d = claim_of root fs ?d"
  proof (cases "?d = []")
    case False
    have "?d \<in> set (required_directories es)" by (rule parent_required [OF ok(1) less.prems False])
    moreover from this obtain e' where e': "e' \<in> set es" "is_tree e'" "te_path e' = ?d"
      using es(1) by (force simp: declared_directories_def)
    moreover have "depth (te_path e') < depth (te_path e)" using depth_parent [OF False] e'(3) by simp
    ultimately obtain f' where f': "f' \<in> set fs" "core_of e' = core_of f'" using less.hyps by blast
    then have "is_tree f'" "te_path f' = ?d" "te_sha f' = te_sha e'" using e' by (simp_all add: core_of_def is_tree_def)
    moreover from this have "?d \<in> set (required_directories fs)" using f'(1) fs(1) by (force simp: declared_directories_def)
    ultimately show ?thesis
      using \<open>?d \<in> set (required_directories es)\<close> claim_of_entry [OF ok(1) e'(1)] claim_of_entry [OF ok(2) f'(1)] e'(3) False
      by simp
  qed (simp add: claim_of_def)
  then have "git_oid ''tree'' (tree_of es ?d) = git_oid ''tree'' (tree_of fs ?d)" using es(2) [of ?d] fs(2) [of ?d] by auto
  then have "tree_of es ?d = tree_of fs ?d" using no both by (auto simp: tree_collision_def)
  then have "entry_key ` set (kids ?d es) = entry_key ` set (kids ?d fs)" by (rule tree_of_inj [OF ok(1,2) _ ok(3)])
  moreover have "e \<in> set (kids ?d es)" using less.prems by (simp add: kids_def)
  ultimately have "entry_key e \<in> entry_key ` set (kids ?d fs)" by blast
  then obtain f where f: "f \<in> set (kids ?d fs)" "entry_key e = entry_key f" by blast
  then have "tree_entry_ok e" "tree_entry_ok f" using less.prems ok by (auto simp: listing_ok_def list_all_iff kids_def)
  then have "core_of e = core_of f" using f by (intro key_core) (simp_all add: kids_def)
  then show ?case using f(1) by (auto simp: kids_def)
qed

text \<open>
  Claim C37: two tree listings that the checks accept for one root identifier have the same entries (path, mode, type and
  identifier), unless two different Git tree objects, of a directory of both listings, have one identifier: a SHA-1
  collision that the listings exhibit. (A UTF-8 text without the character zero has no zero byte.)
\<close>

theorem root_identifier_determines_listing:
  assumes "parse_tree_entries [] raws = Inr es" "parse_tree_entries [] raws' = Inr fs"
    and "verify_git_tree_entries root es = Inr ()" "verify_git_tree_entries root fs = Inr ()"
    and "\<forall>e\<in>set es \<union> set fs. CHR 0x00 \<notin> set (te_path e)"
  shows "core_of ` set es = core_of ` set fs \<or> tree_collision es fs"
proof -
  have ok: "listing_ok es" "listing_ok fs" using parse_tree_entries_ok assms(1,2) by blast+
  have sym: "tree_collision fs es \<Longrightarrow> tree_collision es fs" unfolding tree_collision_def by (metis Int_commute)
  have "core_of ` set es = core_of ` set fs" if "\<not> tree_collision es fs"
  proof (intro equalityI image_subsetI)
    show "core_of e \<in> core_of ` set fs" if "e \<in> set es" for e
      using same_entries [OF ok assms(5,3,4)] that \<open>\<not> tree_collision es fs\<close> by blast
    show "core_of f \<in> core_of ` set es" if "f \<in> set fs" for f
      using same_entries [OF ok(2,1) _ assms(4,3)] assms(5) that sym \<open>\<not> tree_collision es fs\<close> by blast
  qed
  then show ?thesis by blast
qed

definition example_entry :: "string \<Rightarrow> string \<Rightarrow> tree_entry" where
  "example_entry p x = \<lparr>te_path = p, te_mode = ''100644'', te_type = ''blob'', te_sha = concat (replicate 20 x), te_size = None\<rparr>"

definition example_raw :: "string \<Rightarrow> string \<Rightarrow> pyval" where
  "example_raw p x = PDict [(''path'', PStr p), (''mode'', PStr ''100644''), (''type'', PStr ''blob''), (''sha'', PStr (concat (replicate 20 x)))]"

lemma example_parsed:
  assumes "p = ''a'' \<or> p = ''b''" "x = ''0f'' \<or> x = ''1e''" "p \<notin> set seen"
  shows "parse_tree_entry seen (example_raw p x) = Inr (example_entry p x)"
proof -
  have safe: "is_safe_tree_path (PStr p)" "normpath p = p"
    using assms(1) by (auto simp: is_safe_tree_path_def Let_def text_eval normpath_def root_of_def norm_add_def)
  have "is_hex40 (concat (replicate 20 x))" using assms(2) by (auto simp: is_hex40_def eval_nat_numeral is_lower_hex_def)
  then show ?thesis using safe assms(3)
    by (simp add: parse_tree_entry_def example_raw_def example_entry_def Let_def blob_modes_def text_eval)
qed

lemma root_identifier_determines_listing_witness:
  "core_of ` {example_entry ''a'' ''0f'', example_entry ''b'' ''1e''} = core_of ` {example_entry ''b'' ''1e'', example_entry ''a'' ''0f''} \<or>
   tree_collision [example_entry ''a'' ''0f'', example_entry ''b'' ''1e''] [example_entry ''b'' ''1e'', example_entry ''a'' ''0f'']"
proof -
  let ?a = "example_entry ''a'' ''0f''" and ?b = "example_entry ''b'' ''1e''"
  let ?root = "git_oid ''tree'' (tree_payload [(?a, te_sha ?a), (?b, te_sha ?b)])"
  have n: "te_path ?a = ''a''" "te_path ?b = ''b''" by (simp_all add: example_entry_def)
  have p: "parse_tree_entries [] [example_raw ''a'' ''0f'', example_raw ''b'' ''1e''] = Inr [?a, ?b]"
      "parse_tree_entries [] [example_raw ''b'' ''1e'', example_raw ''a'' ''0f''] = Inr [?b, ?a]"
    by (simp_all add: example_parsed n)
  have d: "declared_directories [?a, ?b] = []" "declared_directories [?b, ?a] = []"
      "required_directories [?a, ?b] = []" "required_directories [?b, ?a] = []"
      "kids [] [?a, ?b] = [?a, ?b]" "kids [] [?b, ?a] = [?b, ?a]" "is_tree ?a = False" "is_tree ?b = False"
    by code_simp+
  have t: "tree_payload [(?b, te_sha ?b), (?a, te_sha ?a)] = tree_payload [(?a, te_sha ?a), (?b, te_sha ?b)]" by code_simp
  have v: "verify_git_tree_entries ?root [?a, ?b] = Inr ()" "verify_git_tree_entries ?root [?b, ?a] = Inr ()"
    by (simp_all add: verify_git_tree_entries_def d child_oid_def t)
  have z: "\<forall>e\<in>set [?a, ?b] \<union> set [?b, ?a]. CHR 0x00 \<notin> set (te_path e)" by (simp add: example_entry_def)
  from root_identifier_determines_listing [OF p v z] show ?thesis by (simp only: list.set)
qed

end
