(* ===== verification/Json_Decode.thy ===== *)
theory Json_Decode
  imports Json_Injective Url_Unquote
begin

text \<open>
  \<^verbatim>\<open>json.loads\<close> as the modules call it: over decoded UTF-8, with a hook that refuses a repeated key
  (\<open>unique\<close>) and one that refuses \<^verbatim>\<open>NaN\<close> and the infinities (\<open>standard\<close>), or without. \<open>None\<close> stands for
  every exception of the decoder; a float is \<open>PObj 0\<close>. The decoder reads back what \<open>canonical_json\<close> writes.
  The depth at which CPython gives up (RecursionError) is not modelled.
\<close>

section \<open>Tokens\<close>

definition json_space :: "char \<Rightarrow> bool" where
  "json_space c \<longleftrightarrow> c \<in> {CHR '' '', CHR 0x09, CHR 0x0A, CHR 0x0D}"

definition skip_ws :: "string \<Rightarrow> string" where
  "skip_ws s = dropWhile json_space s"

definition utf8_encode :: "nat \<Rightarrow> string" where
  "utf8_encode n = map char_of
     (if n < 128 then [n]
      else if n < 2048 then [192 + n div 64, 128 + n mod 64]
      else if n < 65536 then [224 + n div 4096, 128 + n div 64 mod 64, 128 + n mod 64]
      else [240 + n div 262144, 128 + n div 4096 mod 64, 128 + n div 64 mod 64, 128 + n mod 64])"

fun four_hex :: "string \<Rightarrow> (nat \<times> string) option" where
  "four_hex (a # b # c # d # r) =
     (case (hex_digit_value a, hex_digit_value b, hex_digit_value c, hex_digit_value d) of
        (Some w, Some x, Some y, Some z) \<Rightarrow> Some (4096 * w + 256 * x + 16 * y + z, r)
      | _ \<Rightarrow> None)"
| "four_hex _ = None"

text \<open>After \<^verbatim>\<open>\u\<close>: a high surrogate joins with an escaped low one that follows.\<close>

definition scan_unicode :: "string \<Rightarrow> (nat \<times> string) option" where
  "scan_unicode s = (case four_hex s of
      None \<Rightarrow> None
    | Some (u, r) \<Rightarrow>
        if 0xD800 \<le> u \<and> u \<le> 0xDBFF \<and> startswith r [CHR 0x5C, CHR ''u''] then
          (case four_hex (drop 2 r) of
             None \<Rightarrow> None
           | Some (l, q) \<Rightarrow> if 0xDC00 \<le> l \<and> l \<le> 0xDFFF then Some (0x10000 + (u - 0xD800) * 1024 + (l - 0xDC00), q) else Some (u, r))
        else Some (u, r))"

lemma four_hex_rest: "four_hex s = Some (n, r) \<Longrightarrow> length r < length s"
  by (cases s rule: four_hex.cases) (auto split: option.splits)

lemma scan_unicode_rest: "scan_unicode s = Some (n, r) \<Longrightarrow> length r < length s"
  using four_hex_rest [of s] four_hex_rest [of "drop 2 (snd (the (four_hex s)))"]
  by (force simp: scan_unicode_def split: option.splits prod.splits if_splits)

definition short_escapes :: "char set" where
  "short_escapes = {CHR 0x22, CHR 0x5C, CHR ''/'', CHR ''b'', CHR ''f'', CHR ''n'', CHR ''r'', CHR ''t''}"

definition prepend :: "string \<Rightarrow> (string \<times> string) option \<Rightarrow> (string \<times> string) option" where
  "prepend t m = map_option (\<lambda>(s, r). (t @ s, r)) m"

text \<open>The rest of a string after its opening quote, and the text behind its closing quote.\<close>

function scan_string :: "string \<Rightarrow> (string \<times> string) option" where
  "scan_string [] = None"
| "scan_string (c # cs) =
     (if c = CHR 0x22 then Some ([], cs)
      else if byte c < 32 then None
      else if c \<noteq> CHR 0x5C then prepend [c] (scan_string cs)
      else case cs of
          [] \<Rightarrow> None
        | e # r \<Rightarrow>
            if e = CHR ''u'' then (case scan_unicode r of None \<Rightarrow> None | Some (n, q) \<Rightarrow> prepend (utf8_encode n) (scan_string q))
            else if e \<in> short_escapes then prepend [unescape e] (scan_string r)
            else None)"
  by pat_completeness auto
termination by (relation "measure length") (auto dest: scan_unicode_rest)

text \<open>The fraction and the exponent behind an integer part, if they are there.\<close>

definition skip_digits :: "string \<Rightarrow> string" where
  "skip_digits s = dropWhile is_digit s"

definition skip_fraction :: "string \<Rightarrow> string" where
  "skip_fraction s = (case s of c # d # r \<Rightarrow> if c = CHR ''.'' \<and> is_digit d then skip_digits r else s | _ \<Rightarrow> s)"

definition skip_exponent :: "string \<Rightarrow> string" where
  "skip_exponent s = (case s of
      [] \<Rightarrow> s
    | c # r \<Rightarrow>
        let q = (case r of d # q \<Rightarrow> if d \<in> {CHR ''+'', CHR ''-''} then q else r | [] \<Rightarrow> r)
        in if c \<in> {CHR ''e'', CHR ''E''} \<and> q \<noteq> [] \<and> is_digit (hd q) then skip_digits q else s)"

definition a_float :: pyval where
  "a_float = PObj 0"

definition scan_number :: "string \<Rightarrow> (pyval \<times> string) option" where
  "scan_number s =
     (let negative = startswith s ''-'';
          t = (if negative then tl s else s);
          digits = (if startswith t ''0'' then ''0'' else takeWhile is_digit t);
          r = drop (length digits) t;
          q = skip_exponent (skip_fraction r)
      in if digits = [] then None
         else if q \<noteq> r then Some (a_float, q)
         else if 4300 < length digits then None
         else Some (PInt (if negative then - int (digits_value digits) else int (digits_value digits)), r))"

section \<open>Values\<close>

text \<open>The constants the \<^verbatim>\<open>json\<close> module adds to JSON.\<close>

definition scan_constant :: "bool \<Rightarrow> string \<Rightarrow> (pyval \<times> string) option" where
  "scan_constant standard s =
     (if standard then None
      else if startswith s ''NaN'' then Some (a_float, drop 3 s)
      else if startswith s ''Infinity'' then Some (a_float, drop 8 s)
      else if startswith s ''-Infinity'' then Some (a_float, drop 9 s)
      else None)"

definition scan_word :: "bool \<Rightarrow> string \<Rightarrow> (pyval \<times> string) option" where
  "scan_word standard s =
     (if startswith s ''null'' then Some (PNone, drop 4 s)
      else if startswith s ''true'' then Some (PBool True, drop 4 s)
      else if startswith s ''false'' then Some (PBool False, drop 5 s)
      else case scan_number s of Some x \<Rightarrow> Some x | None \<Rightarrow> scan_constant standard s)"

text \<open>An object: the hook refuses a repeated key, a plain \<^verbatim>\<open>dict\<close> keeps the last value.\<close>

definition make_object :: "bool \<Rightarrow> fields \<Rightarrow> pyval option" where
  "make_object unique ms =
     (if distinct (map fst ms) then Some (PDict ms)
      else if unique then None
      else Some (PDict (map (\<lambda>k. (k, the (map_of (rev ms) k))) (rev (remdups (rev (map fst ms)))))))"

text \<open>The number bounds the calls (\<open>fuel_enough\<close>).\<close>

fun parse_value :: "bool \<times> bool \<Rightarrow> nat \<Rightarrow> string \<Rightarrow> (pyval \<times> string) option"
  and parse_items :: "bool \<times> bool \<Rightarrow> nat \<Rightarrow> string \<Rightarrow> (pyval list \<times> string) option"
  and parse_members :: "bool \<times> bool \<Rightarrow> nat \<Rightarrow> string \<Rightarrow> (fields \<times> string) option" where
  "parse_value h 0 s = None"
| "parse_value h (Suc n) s =
     (if startswith s [CHR 0x22] then map_option (\<lambda>(t, r). (PStr t, r)) (scan_string (tl s))
      else if startswith s ''['' then
        (let r = skip_ws (tl s)
         in if startswith r '']'' then Some (PList [], tl r)
            else map_option (\<lambda>(xs, q). (PList xs, q)) (parse_items h n r))
      else if startswith s ''{'' then
        (let r = skip_ws (tl s)
         in if startswith r ''}'' then Some (PDict [], tl r)
            else (case parse_members h n r of
                None \<Rightarrow> None
              | Some (ms, q) \<Rightarrow> map_option (\<lambda>d. (d, q)) (make_object (fst h) ms)))
      else scan_word (snd h) s)"
| "parse_items h 0 s = None"
| "parse_items h (Suc n) s =
     (case parse_value h n s of
        None \<Rightarrow> None
      | Some (v, r) \<Rightarrow>
          let q = skip_ws r
          in if startswith q '']'' then Some ([v], tl q)
             else if startswith q '','' then map_option (\<lambda>(vs, p). (v # vs, p)) (parse_items h n (skip_ws (tl q)))
             else None)"
| "parse_members h 0 s = None"
| "parse_members h (Suc n) s =
     (if \<not> startswith s [CHR 0x22] then None
      else case scan_string (tl s) of
        None \<Rightarrow> None
      | Some (k, r) \<Rightarrow>
          if \<not> startswith (skip_ws r) '':'' then None
          else case parse_value h n (skip_ws (tl (skip_ws r))) of
            None \<Rightarrow> None
          | Some (v, r') \<Rightarrow>
              let q = skip_ws r'
              in if startswith q ''}'' then Some ([(k, v)], tl q)
                 else if startswith q '','' then map_option (\<lambda>(ms, p). ((k, v) # ms, p)) (parse_members h n (skip_ws (tl q)))
                 else None)"

text \<open>\<^verbatim>\<open>json.loads(text)\<close> and \<^verbatim>\<open>json.loads(body.decode("utf-8"))\<close>.\<close>

definition json_loads :: "bool \<times> bool \<Rightarrow> string \<Rightarrow> pyval option" where
  "json_loads h s = (case parse_value h (2 * length s + 1) (skip_ws s) of
      None \<Rightarrow> None
    | Some (v, r) \<Rightarrow> if skip_ws r = [] then Some v else None)"

definition strict_json :: "bool \<times> bool" where
  "strict_json = (True, True)"

definition json_decode :: "bool \<times> bool \<Rightarrow> string \<Rightarrow> pyval option" where
  "json_decode h body = (if is_utf8 body then json_loads h body else None)"

section \<open>The decoder ends\<close>

lemma startswith_length: "startswith s p \<Longrightarrow> length p \<le> length s"
  by (induction s p rule: startswith.induct) auto

lemma skip_ws_length: "length (skip_ws s) \<le> length s"
  by (simp add: skip_ws_def length_dropWhile_le)

lemma prepend_Some: "prepend t m = Some (s, r) \<longleftrightarrow> (\<exists>s'. m = Some (s', r) \<and> s = t @ s')"
  by (auto simp: prepend_def)

lemma scan_string_rest: "scan_string s = Some (t, r) \<Longrightarrow> length r < length s"
proof (induction s arbitrary: t rule: scan_string.induct)
  case (2 c cs)
  consider "c = CHR 0x22" | "c \<noteq> CHR 0x22" "c \<noteq> CHR 0x5C" | "c = CHR 0x5C" by blast
  then show ?case
  proof cases
    case 1
    then show ?thesis using 2(4) by simp
  next
    case 2
    then show ?thesis using "2.prems" "2.IH"(1) by (fastforce simp: prepend_Some split: if_splits)
  next
    case 3
    then obtain e q where cs: "cs = e # q" using "2.prems" by (cases cs) auto
    show ?thesis
    proof (cases "e = CHR ''u''")
      case True
      then obtain n p where u: "scan_unicode q = Some (n, p)" using "2.prems" 3 cs by (auto split: option.splits)
      then have "length r < length p" using "2.prems" "2.IH"(2) 3 cs True by (fastforce simp: prepend_Some)
      then show ?thesis using scan_unicode_rest [OF u] cs by simp
    next
      case False
      then show ?thesis using "2.prems" "2.IH"(3) 3 cs by (fastforce simp: prepend_Some split: if_splits)
    qed
  qed
qed simp

lemma skip_digits_length: "length (skip_digits s) \<le> length s"
  by (simp add: skip_digits_def length_dropWhile_le)

lemma skip_fraction_length: "length (skip_fraction s) \<le> length s"
  unfolding skip_fraction_def using skip_digits_length [of "drop 2 s"] by (auto split: list.splits)

lemma skip_exponent_length: "length (skip_exponent s) \<le> length s"
  unfolding skip_exponent_def Let_def using skip_digits_length [of "drop 1 s"] skip_digits_length [of "drop 2 s"]
  by (auto split: list.splits)

lemma scan_number_rest: "scan_number s = Some (v, r) \<Longrightarrow> length r < length s"
proof -
  assume a: "scan_number s = Some (v, r)"
  define t where "t = (if startswith s ''-'' then tl s else s)"
  define ds where "ds = (if startswith t ''0'' then ''0'' else takeWhile is_digit t)"
  have d: "ds \<noteq> []" and r: "r = drop (length ds) t \<or> r = skip_exponent (skip_fraction (drop (length ds) t))"
    using a unfolding scan_number_def Let_def t_def [symmetric] ds_def [symmetric] by (auto split: if_splits)
  have "length r \<le> length (drop (length ds) t)"
    using r skip_exponent_length [of "skip_fraction (drop (length ds) t)"] skip_fraction_length [of "drop (length ds) t"] by auto
  moreover have "t \<noteq> []" using d by (auto simp: ds_def)
  then have "length (drop (length ds) t) < length t" using d by (cases ds) auto
  moreover have "length t \<le> length s" by (simp add: t_def)
  ultimately show ?thesis by simp
qed

lemma scan_word_rest: "scan_word b s = Some (v, r) \<Longrightarrow> length r < length s"
  using scan_number_rest [of s v r] startswith_length [of s "''null''"] startswith_length [of s "''true''"] startswith_length [of s "''false''"]
    startswith_length [of s "''NaN''"] startswith_length [of s "''Infinity''"] startswith_length [of s "''-Infinity''"]
  by (auto simp: scan_word_def scan_constant_def split: if_splits option.splits)

lemma startswith_one: "startswith s [c] \<longleftrightarrow> (\<exists>r. s = c # r)"
  by (cases s) auto

lemma tl_ws: "startswith (skip_ws s) [c] \<Longrightarrow> length (tl (skip_ws s)) < length s"
  using skip_ws_length [of s] by (auto simp: startswith_one)

lemma parse_rest:
  "parse_value h n s = Some (v, r) \<Longrightarrow> length r < length s"
  "parse_items h n s = Some (vs, r) \<Longrightarrow> length r < length s"
  "parse_members h n s = Some (ms, r) \<Longrightarrow> length r < length s"
proof (induction n arbitrary: s v vs ms r)
  case (Suc n)
  note w = skip_ws_length [of "tl s"] and ws = skip_ws_length
  {
    case 1
    consider (str) "startswith s [CHR 0x22]" | (lst) "startswith s ''[''" | (obj) "startswith s ''{''"
      | (word) "\<not> startswith s [CHR 0x22]" "\<not> startswith s ''[''" "\<not> startswith s ''{''" by blast
    then show ?case
    proof cases
      case str
      then show ?thesis using 1 by (auto simp: startswith_one dest: scan_string_rest)
    next
      case lst
      then obtain t where t: "s = CHR ''['' # t" by (auto simp: startswith_one)
      show ?thesis using 1 Suc(2) [of "skip_ws t"] ws [of t] unfolding t
        by (fastforce simp: Let_def startswith_one split: if_splits)
    next
      case obj
      then obtain t where t: "s = CHR ''{'' # t" by (auto simp: startswith_one)
      show ?thesis using 1 Suc(3) [of "skip_ws t"] ws [of t] unfolding t
        by (fastforce simp: Let_def startswith_one split: if_splits option.splits)
    next
      case word
      then show ?thesis using 1 scan_word_rest by auto
    qed
  next
    case 2
    then obtain u q where u: "parse_value h n s = Some (u, q)" by (auto split: option.splits)
    have "length q < length s" by (rule Suc(1) [OF u])
    moreover have "length r < length q"
    proof (cases "startswith (skip_ws q) '']''")
      case True
      then show ?thesis using 2 u tl_ws [OF True] by (simp add: Let_def)
    next
      case False
      then have c: "startswith (skip_ws q) '',''" using 2 u by (auto simp: Let_def split: if_splits)
      then obtain xs where "parse_items h n (skip_ws (tl (skip_ws q))) = Some (xs, r)" using 2 u False by (auto simp: Let_def)
      then show ?thesis using Suc(2) tl_ws [OF c] ws [of "tl (skip_ws q)"] by fastforce
    qed
    ultimately show ?case by simp
  next
    case 3
    then obtain k q where k: "scan_string (tl s) = Some (k, q)" "startswith s [CHR 0x22]" "startswith (skip_ws q) '':''"
      by (auto split: option.splits if_splits)
    then obtain u p where u: "parse_value h n (skip_ws (tl (skip_ws q))) = Some (u, p)" using 3 by (auto split: option.splits)
    have "length q < length s" using scan_string_rest [OF k(1)] by simp
    moreover have "length p < length q" using Suc(1) [OF u] tl_ws [OF k(3)] ws [of "tl (skip_ws q)"] by linarith
    moreover have "length r < length p"
    proof (cases "startswith (skip_ws p) ''}''")
      case True
      then show ?thesis using 3 k u tl_ws [OF True] by (simp add: Let_def)
    next
      case False
      then have c: "startswith (skip_ws p) '',''" using 3 k u by (auto simp: Let_def split: if_splits)
      then obtain xs where "parse_members h n (skip_ws (tl (skip_ws p))) = Some (xs, r)" using 3 k u False by (auto simp: Let_def)
      then show ?thesis using Suc(3) tl_ws [OF c] ws [of "tl (skip_ws p)"] by fastforce
    qed
    ultimately show ?case by simp
  }
qed simp_all

text \<open>More fuel than the text can use changes nothing.\<close>

lemma fuel_enough:
  "2 * length s < n \<Longrightarrow> 2 * length s < m \<Longrightarrow> parse_value h n s = parse_value h m s"
  "2 * length s + 1 < n \<Longrightarrow> 2 * length s + 1 < m \<Longrightarrow> parse_items h n s = parse_items h m s"
  "2 * length s < n \<Longrightarrow> 2 * length s < m \<Longrightarrow> parse_members h n s = parse_members h m s"
proof (induction n arbitrary: s m)
  case (Suc n)
  note ws = skip_ws_length
  {
    case 1
    then obtain k where m: "m = Suc k" by (cases m) auto
    have "parse_items h n (skip_ws (tl s)) = parse_items h k (skip_ws (tl s))" if "s \<noteq> []"
      using 1 m that ws [of "tl s"] by (intro Suc.IH) (cases s; simp)+
    moreover have "parse_members h n (skip_ws (tl s)) = parse_members h k (skip_ws (tl s))" if "s \<noteq> []"
      using 1 m that ws [of "tl s"] by (intro Suc.IH) (cases s; simp)+
    ultimately show ?case unfolding m by (cases s) (simp_all add: Let_def)
  next
    case 2
    then obtain k where m: "m = Suc k" by (cases m) auto
    have v: "parse_value h n s = parse_value h k s" using 2 m by (intro Suc.IH) simp_all
    have "parse_items h n (skip_ws (tl (skip_ws q))) = parse_items h k (skip_ws (tl (skip_ws q)))"
      if "parse_value h k s = Some (u, q)" "startswith (skip_ws q) '',''" for u q
    proof -
      have "length (skip_ws (tl (skip_ws q))) + 2 \<le> length s"
        using parse_rest(1) [OF that(1)] tl_ws [OF that(2)] ws [of "tl (skip_ws q)"] by linarith
      then show ?thesis using 2 m by (intro Suc.IH) linarith+
    qed
    then show ?case unfolding m by (auto simp: v Let_def split: option.split)
  next
    case 3
    then obtain k where m: "m = Suc k" by (cases m) auto
    have v: "parse_value h n (skip_ws (tl (skip_ws q))) = parse_value h k (skip_ws (tl (skip_ws q)))"
      if "scan_string (tl s) = Some (t, q)" "startswith (skip_ws q) '':''" for t q
    proof -
      have "length (skip_ws (tl (skip_ws q))) + 1 \<le> length s"
        using scan_string_rest [OF that(1)] tl_ws [OF that(2)] ws [of "tl (skip_ws q)"] by simp
      then show ?thesis using 3 m by (intro Suc.IH) linarith+
    qed
    have "parse_members h n (skip_ws (tl (skip_ws p))) = parse_members h k (skip_ws (tl (skip_ws p)))"
      if "scan_string (tl s) = Some (t, q)" "startswith (skip_ws q) '':''"
        "parse_value h k (skip_ws (tl (skip_ws q))) = Some (u, p)" "startswith (skip_ws p) '',''" for t q u p
    proof -
      have "length (skip_ws (tl (skip_ws p))) + 1 \<le> length s"
        using scan_string_rest [OF that(1)] tl_ws [OF that(2)] ws [of "tl (skip_ws q)"] parse_rest(1) [OF that(3)]
          tl_ws [OF that(4)] ws [of "tl (skip_ws p)"] by simp
      then show ?thesis using 3 m by (intro Suc.IH) linarith+
    qed
    then show ?case unfolding m by (auto simp: v Let_def split: option.split)
  }
qed simp_all

end
