(* ===== verification/Secret_Scan.thy ===== *)
theory Secret_Scan
  imports Py_Regex Canonical_Json
begin

text \<open>
  \<^verbatim>\<open>src/app_contracts/secret_scan.py\<close>: the search for credential-shaped bytes in the files of a
  snapshot, and the bounded search for a canary value in the surfaces an agent can see. A surface is a
  finite tree, so the code's check for cyclic containers never fires and is left out.
\<close>

section \<open>Credential-shaped content\<close>

definition max_snapshot_files :: nat where
  "max_snapshot_files = 10000"

definition max_snapshot_path_bytes :: nat where
  "max_snapshot_path_bytes = 240"

definition max_snapshot_file_bytes :: nat where
  "max_snapshot_file_bytes = 262144"

definition max_snapshot_total_bytes :: nat where
  "max_snapshot_total_bytes = 1000000"

text \<open>Patterns over bytes. \<open>words\<close> is a literal, \<open>folded\<close> one under \<^verbatim>\<open>(?i)\<close>.\<close>

definition words :: "string \<Rightarrow> regex" where
  "words s = foldr (\<lambda>c r. Seq (lit c) r) s Eps"

definition either_case :: "nat \<Rightarrow> (nat \<times> nat) list" where
  "either_case n = (if 97 \<le> n \<and> n \<le> 122 then [(n, n), (n - 32, n - 32)] else [(n, n)])"

definition folded :: "string \<Rightarrow> regex" where
  "folded s = foldr (\<lambda>c r. Seq (One False (either_case (byte c))) r) s Eps"

definition any_of :: "regex list \<Rightarrow> regex" where
  "any_of rs = foldr Or (butlast rs) (last rs)"

definition token_char :: "(nat \<times> nat) list" where
  "token_char = [(65, 90), (97, 122), (48, 57), (95, 95)]"

definition token_tail :: regex where
  "token_tail = Rep (One False token_char) 20 (Some 255)"

definition github_token :: regex where
  "github_token = Or
     (Seq (words ''gh'') (Seq (One False (map (\<lambda>c. (byte c, byte c)) ''pousr'')) (Seq (lit CHR ''_'') token_tail)))
     (Seq (words ''github_pat_'') token_tail)"

definition aws_access_key :: regex where
  "aws_access_key = Seq (words ''AKIA'') (Rep (One False [(48, 57), (65, 90)]) 16 (Some 16))"

definition private_key_pem :: regex where
  "private_key_pem = Seq (words ''-----BEGIN '')
     (Seq (Rep (any_of [words ''RSA '', words ''EC '', words ''OPENSSH '']) 0 (Some 1)) (words ''PRIVATE KEY-----''))"

definition separator :: regex where
  "separator = Rep (One False [(95, 95), (45, 45)]) 0 (Some 1)"

definition blanks :: regex where
  "blanks = Rep (One False [(9, 13), (32, 32)]) 0 None"

definition quotes :: "(nat \<times> nat) list" where
  "quotes = [(39, 39), (34, 34)]"

definition credential_assignment :: regex where
  "credential_assignment =
     Seq (any_of [Seq (folded ''api'') (Seq separator (folded ''key'')), Seq (folded ''access'') (Seq separator (folded ''token'')),
                  Seq (folded ''auth'') (Seq separator (folded ''token'')), folded ''secret'', folded ''password'', folded ''passwd''])
    (Seq blanks (Seq (One False [(58, 58), (61, 61)]) (Seq blanks
    (Seq (One False quotes) (Seq (Rep (One True (quotes @ [(13, 13), (10, 10)])) 8 None) (One False quotes))))))"

definition content_rules :: "(string \<times> regex) list" where
  "content_rules = [(''github-token'', github_token), (''aws-access-key'', aws_access_key),
     (''private-key-pem'', private_key_pem), (''credential-assignment'', credential_assignment)]"

text \<open>A record of the input is a pair of a text and bytes, or anything else.\<close>

datatype scan_record = OddRecord | ScanFile string string

definition scan_error :: exn where
  "scan_error = Exn ValueError ''credential content input is invalid''"

definition bad_scan_path :: "string \<Rightarrow> bool" where
  "bad_scan_path path \<longleftrightarrow> path = [] \<or> strip_changes path \<or> length path > max_snapshot_path_bytes \<or> startswith path ''/''
     \<or> CHR 0x5C \<in> set path \<or> list_ex (\<lambda>part. part \<in> {'''', ''.'', ''..''}) (split_on (CHR ''/'') path) \<or> any_char is_control path"

fun scan_records :: "string option \<Rightarrow> nat \<Rightarrow> scan_record list \<Rightarrow> (string \<times> string) list res" where
  "scan_records previous sofar [] = Inr []"
| "scan_records previous sofar (OddRecord # rs) = Inl scan_error"
| "scan_records previous sofar (ScanFile path content # rs) =
     unless (has_surrogate path) scan_error
    (unless (bad_scan_path path \<or> (case previous of None \<Rightarrow> False | Some p \<Rightarrow> path \<le> p)
         \<or> length content > max_snapshot_file_bytes) scan_error
    (unless (sofar + length content > max_snapshot_total_bytes) scan_error
    (rbind (scan_records (Some path) (sofar + length content) rs) (\<lambda>found_later.
     Inr (map (\<lambda>(rule, _). (path, rule)) (filter (\<lambda>(_, r). found r (map byte content)) content_rules) @ found_later)))))"

text \<open>\<open>None\<close>: the argument is no tuple.\<close>

definition find_credential_pattern_content :: "scan_record list option \<Rightarrow> (string \<times> string) list res" where
  "find_credential_pattern_content files = (case files of
      None \<Rightarrow> Inl scan_error
    | Some rs \<Rightarrow> unless (length rs > max_snapshot_files) scan_error (scan_records None 0 rs))"

definition assert_no_credential_pattern_content :: "scan_record list option \<Rightarrow> unit res" where
  "assert_no_credential_pattern_content files =
     rbind (find_credential_pattern_content files) (\<lambda>found.
     unless (found \<noteq> []) (Exn CredentialLeakDetected ''credential-shaped content detected'') (Inr ()))"

section \<open>Canaries\<close>

text \<open>
  What a surface may hold. A float is its JSON text (\<open>None\<close> for one that JSON lacks); a key that is no
  text is \<open>None\<close>; \<open>Opaque\<close> is any other object.
\<close>

datatype surface =
    Null
  | Truth bool
  | Whole int
  | Real "string option"
  | Chars string
  | Octets string
  | Items "surface list"
  | Pairs "(string option \<times> surface) list"
  | Opaque

definition max_canary_surfaces :: nat where
  "max_canary_surfaces = 64"

definition max_canary_bytes :: nat where
  "max_canary_bytes = 1000000"

definition max_canary_nodes :: nat where
  "max_canary_nodes = 100000"

definition max_canary_depth :: nat where
  "max_canary_depth = 64"

definition unscannable :: exn where
  "unscannable = Exn ValueError ''surface cannot be scanned within bounds''"

text \<open>\<^verbatim>\<open>json.dumps\<close> of a scalar.\<close>

fun scalar_text :: "surface \<Rightarrow> string option" where
  "scalar_text Null = Some ''null''"
| "scalar_text (Truth b) = Some (if b then ''true'' else ''false'')"
| "scalar_text (Whole n) = (case int_text n of Inl _ \<Rightarrow> None | Inr t \<Rightarrow> Some t)"
| "scalar_text (Real t) = t"
| "scalar_text _ = None"

fun children :: "surface \<Rightarrow> surface list" where
  "children (Items xs) = xs"
| "children (Pairs ps) = concat (map (\<lambda>(k, v). [case k of None \<Rightarrow> Opaque | Some s \<Rightarrow> Chars s, v]) ps)"
| "children _ = []"

definition foreign_key :: "surface \<Rightarrow> bool" where
  "foreign_key v = (case v of Pairs ps \<Rightarrow> list_ex (\<lambda>(k, _). k = None) ps | _ \<Rightarrow> False)"

text \<open>One visit: the bytes scanned after it and whether the canary was found in the value itself.\<close>

definition visit :: "string \<Rightarrow> nat \<Rightarrow> surface \<Rightarrow> (nat \<times> bool) res" where
  "visit canary scanned v = (case v of
      Chars s \<Rightarrow> unless (scanned + py_len s > max_canary_bytes) unscannable
        (unless (has_surrogate s) (Exn UnicodeEncodeError ''surrogates not allowed'')
        (unless (scanned + length s > max_canary_bytes) unscannable (Inr (scanned + length s, contains canary s))))
    | Octets s \<Rightarrow> unless (scanned + length s > max_canary_bytes) unscannable (Inr (scanned + length s, contains canary s))
    | Items _ \<Rightarrow> Inr (scanned, False)
    | Pairs _ \<Rightarrow> Inr (scanned, False)
    | Opaque \<Rightarrow> Inl unscannable
    | _ \<Rightarrow> (case scalar_text v of
          None \<Rightarrow> raise ValueError ''value is not JSON compliant''
        | Some t \<Rightarrow> unless (scanned + length t > max_canary_bytes) unscannable (Inr (scanned + length t, contains canary t))))"

text \<open>Every iteration replaces a value by its parts.\<close>

fun parts :: "surface \<Rightarrow> nat" where
  "parts (Items xs) = Suc (sum_list (map parts xs))"
| "parts (Pairs ps) = Suc (sum_list (map (\<lambda>(k, v). 1 + parts v) ps))"
| "parts _ = 1"

lemma parts_children: "parts v = Suc (sum_list (map parts (children v)))"
proof (cases v)
  case (Pairs ps)
  have "sum_list (map parts (concat (map (\<lambda>(k, v). [case k of None \<Rightarrow> Opaque | Some s \<Rightarrow> Chars s, v]) ps)))
      = sum_list (map (\<lambda>(k, v). 1 + parts v) ps)"
    by (induction ps) (auto split: option.splits)
  then show ?thesis using Pairs by simp
qed simp_all

lemma parts_pushed: "sum_list (map ((\<lambda>(v, _). parts v) \<circ> (\<lambda>c. (c, d))) (children v)) < parts v"
  using parts_children [of v] by (simp add: comp_def)

text \<open>The loop over the stack of values with their depths.\<close>

function scan_stack :: "string \<Rightarrow> (surface \<times> nat) list \<Rightarrow> nat \<Rightarrow> nat \<Rightarrow> bool res" where
  "scan_stack canary [] nodes scanned = Inr False"
| "scan_stack canary ((v, depth) # stack) nodes scanned =
     unless (Suc nodes > max_canary_nodes \<or> depth > max_canary_depth) unscannable
    (rbind (visit canary scanned v) (\<lambda>(scanned', hit).
     if hit then Inr True
     else unless (Suc nodes + length (children v) > max_canary_nodes \<or> foreign_key v) unscannable
       (scan_stack canary (map (\<lambda>c. (c, Suc depth)) (children v) @ stack) (Suc nodes) scanned')))"
  by pat_completeness auto

termination
  by (relation "measure (\<lambda>(_, stack, _, _). sum_list (map (\<lambda>(v, _). parts v) stack))")
    (auto simp: parts_pushed)

declare scan_stack.simps(2) [simp del]

definition contains_canary_bounded :: "surface \<Rightarrow> string \<Rightarrow> bool res" where
  "contains_canary_bounded v canary = scan_stack canary [(v, 0)] 0 0"

text \<open>\<open>None\<close>: the canary is no text, the surfaces are no dictionary. A name that is no text is \<open>None\<close>.\<close>

definition find_canary_surfaces :: "string option \<Rightarrow> (string option \<times> surface) list option \<Rightarrow> string list res" where
  "find_canary_surfaces canary surfaces = (case canary of
      None \<Rightarrow> raise ValueError ''canary must not be empty''
    | Some c \<Rightarrow> unless (c = [] \<or> has_surrogate c \<or> length c > max_canary_bytes) (Exn ValueError ''canary must not be empty'')
        (case surfaces of
          None \<Rightarrow> raise ValueError ''surfaces must be a mapping''
        | Some ss \<Rightarrow> unless (length ss > max_canary_surfaces) (Exn ValueError ''surface count exceeds limit'')
            (unless (list_ex (\<lambda>(name, _). name = None \<or> name = Some []) ss)
               (Exn ValueError ''surface name must be a non-empty string'')
            (Inr (map (\<lambda>(name, _). the name) (filter (\<lambda>(_, v). contains_canary_bounded v c \<noteq> Inr False) ss))))))"

definition assert_canary_absent :: "string option \<Rightarrow> (string option \<times> surface) list option \<Rightarrow> unit res" where
  "assert_canary_absent canary surfaces =
     rbind (find_canary_surfaces canary surfaces) (\<lambda>leaked.
     unless (leaked \<noteq> []) (Exn CredentialLeakDetected ''credential canary found'') (Inr ()))"

section \<open>What the canary search finds\<close>

text \<open>The canary occurs in a text, in bytes or in the text of a number, anywhere in the surface.\<close>

definition own_text :: "surface \<Rightarrow> string option" where
  "own_text v = (case v of Chars s \<Rightarrow> Some s | Octets s \<Rightarrow> Some s | _ \<Rightarrow> scalar_text v)"

fun occurs :: "string \<Rightarrow> surface \<Rightarrow> bool" where
  "occurs c (Items xs) = list_ex (occurs c) xs"
| "occurs c (Pairs ps) = list_ex (\<lambda>(k, v). (case k of None \<Rightarrow> False | Some s \<Rightarrow> contains c s) \<or> occurs c v) ps"
| "occurs c v = (case own_text v of None \<Rightarrow> False | Some t \<Rightarrow> contains c t)"

text \<open>A surface within the bounds of the search.\<close>

fun height :: "surface \<Rightarrow> nat" where
  "height (Items xs) = foldr max (map (\<lambda>x. Suc (height x)) xs) 0"
| "height (Pairs ps) = foldr max (map (\<lambda>(k, v). Suc (height v)) ps) (if ps = [] then 0 else 1)"
| "height v = 0"

fun bytes_in :: "surface \<Rightarrow> nat" where
  "bytes_in (Items xs) = sum_list (map bytes_in xs)"
| "bytes_in (Pairs ps) = sum_list (map (\<lambda>(k, v). (case k of None \<Rightarrow> 0 | Some s \<Rightarrow> length s) + bytes_in v) ps)"
| "bytes_in v = (case own_text v of None \<Rightarrow> 0 | Some t \<Rightarrow> length t)"

fun plain :: "surface \<Rightarrow> bool" where
  "plain (Items xs) = list_all plain xs"
| "plain (Pairs ps) = list_all (\<lambda>(k, v). (case k of None \<Rightarrow> False | Some s \<Rightarrow> \<not> has_surrogate s) \<and> plain v) ps"
| "plain (Chars s) = (\<not> has_surrogate s)"
| "plain v = (own_text v \<noteq> None)"

definition in_bounds :: "surface \<Rightarrow> bool" where
  "in_bounds v \<longleftrightarrow> plain v \<and> parts v \<le> max_canary_nodes \<and> height v \<le> max_canary_depth \<and> bytes_in v \<le> max_canary_bytes"

definition container :: "surface \<Rightarrow> bool" where
  "container v \<longleftrightarrow> (case v of Items _ \<Rightarrow> True | Pairs _ \<Rightarrow> True | _ \<Rightarrow> False)"

lemma occurs_parts: "occurs c v \<longleftrightarrow> (case own_text v of None \<Rightarrow> False | Some t \<Rightarrow> contains c t) \<or> list_ex (occurs c) (children v)"
proof (cases v)
  case (Pairs ps)
  have "list_ex (\<lambda>(k, v). (case k of None \<Rightarrow> False | Some s \<Rightarrow> contains c s) \<or> occurs c v) ps
      = list_ex (occurs c) (concat (map (\<lambda>(k, v). [case k of None \<Rightarrow> Opaque | Some s \<Rightarrow> Chars s, v]) ps))"
    by (induction ps) (auto simp: own_text_def split: option.splits)
  then show ?thesis using Pairs by (simp add: own_text_def)
qed (simp_all add: own_text_def)

lemma visit_Inr: "visit c scanned v = Inr (n, hit) \<Longrightarrow>
    hit = (case own_text v of None \<Rightarrow> False | Some t \<Rightarrow> contains c t)"
  by (cases v) (auto simp: visit_def own_text_def split: option.splits)

lemma scan_stack_correct:
  "scan_stack c stack nodes scanned = Inr b \<Longrightarrow> b = list_ex (\<lambda>(v, _). occurs c v) stack"
proof (induction c stack nodes scanned arbitrary: b rule: scan_stack.induct)
  case (2 c v depth stack nodes scanned)
  from "2.prems" obtain scanned' hit where visit: "\<not> (Suc nodes > max_canary_nodes \<or> depth > max_canary_depth)"
      "visit c scanned v = Inr (scanned', hit)"
    and rest: "(if hit then Inr True
       else unless (Suc nodes + length (children v) > max_canary_nodes \<or> foreign_key v) unscannable
         (scan_stack c (map (\<lambda>c. (c, Suc depth)) (children v) @ stack) (Suc nodes) scanned')) = Inr b"
    by (auto simp: scan_stack.simps(2))
  note hit = visit_Inr [OF visit(2)]
  show ?case
  proof (cases hit)
    case True
    then show ?thesis using rest hit by (simp add: occurs_parts [of c v])
  next
    case False
    then have "scan_stack c (map (\<lambda>c. (c, Suc depth)) (children v) @ stack) (Suc nodes) scanned' = Inr b" using rest by simp
    then have "b = list_ex (\<lambda>(v, _). occurs c v) (map (\<lambda>c. (c, Suc depth)) (children v) @ stack)"
      by (rule "2.IH" [OF False])
    then show ?thesis using hit False by (simp add: occurs_parts [of c v] list_ex_iff image_iff) blast
  qed
qed simp

lemma length_code_points: "length (code_points s) \<le> length s"
proof (induction s rule: code_points.induct)
  case (2 c cs)
  show ?case
  proof (cases "byte c < 128")
    case True
    then show ?thesis using 2 by simp
  next
    case big: False
    show ?thesis
    proof (cases "byte c < 224")
      case True
      then show ?thesis using big 2(2) by (cases cs) (simp_all add: le_SucI)
    next
      case bigger: False
      show ?thesis
      proof (cases "byte c < 240")
        case True
        then show ?thesis using big bigger 2(3) by (cases cs; cases "tl cs") (simp_all add: le_SucI)
      next
        case False
        then show ?thesis using big bigger 2(4) by (cases cs; cases "tl cs"; cases "tl (tl cs)") (simp_all add: le_SucI)
      qed
    qed
  qed
qed simp

lemma py_len_le: "py_len s \<le> length s"
  by (simp add: py_len_def length_code_points)

lemma plain_children: "plain v \<Longrightarrow> list_all plain (children v) \<and> \<not> foreign_key v"
proof (cases v)
  case (Pairs ps)
  have "list_all (\<lambda>(k, v). (case k of None \<Rightarrow> False | Some s \<Rightarrow> \<not> has_surrogate s) \<and> plain v) ps \<Longrightarrow>
      list_all plain (concat (map (\<lambda>(k, v). [case k of None \<Rightarrow> Opaque | Some s \<Rightarrow> Chars s, v]) ps))
      \<and> \<not> list_ex (\<lambda>(k, _). k = None) ps"
    by (induction ps) (auto split: option.splits)
  then show "plain v \<Longrightarrow> ?thesis" using Pairs by (simp add: foreign_key_def)
qed (simp_all add: foreign_key_def)

lemma length_parts: "length ys \<le> sum_list (map parts ys)"
proof (induction ys)
  case (Cons y ys)
  then show ?case using parts_children [of y] by simp
qed simp

lemma height_children: "x \<in> set (children v) \<Longrightarrow> Suc (height x) \<le> height v"
proof (cases v)
  case (Items xs)
  have "x \<in> set ys \<Longrightarrow> Suc (height x) \<le> foldr max (map (\<lambda>x. Suc (height x)) ys) 0" for ys
    by (induction ys) (auto simp: le_max_iff_disj)
  then show "x \<in> set (children v) \<Longrightarrow> ?thesis" using Items by simp
next
  case (Pairs ps)
  have one: "1 \<le> foldr max (map (\<lambda>(k, v). Suc (height v)) ys) 1" for ys :: "(string option \<times> surface) list"
    by (induction ys) (auto simp: le_max_iff_disj)
  have "x \<in> set (concat (map (\<lambda>(k, v). [case k of None \<Rightarrow> Opaque | Some s \<Rightarrow> Chars s, v]) ys)) \<Longrightarrow>
      Suc (height x) \<le> foldr max (map (\<lambda>(k, v). Suc (height v)) ys) 1" for ys
    by (induction ys) (auto simp: le_max_iff_disj split: option.splits)
  then show "x \<in> set (children v) \<Longrightarrow> ?thesis" using Pairs one by (cases "ps = []") auto
qed simp_all

lemma bytes_children: "bytes_in v = (case own_text v of None \<Rightarrow> 0 | Some t \<Rightarrow> length t) + sum_list (map bytes_in (children v))"
proof (cases v)
  case (Pairs ps)
  have "sum_list (map (\<lambda>(k, v). (case k of None \<Rightarrow> 0 | Some s \<Rightarrow> length s) + bytes_in v) ps)
      = sum_list (map bytes_in (concat (map (\<lambda>(k, v). [case k of None \<Rightarrow> Opaque | Some s \<Rightarrow> Chars s, v]) ps)))"
    by (induction ps) (auto simp: own_text_def split: option.splits)
  then show ?thesis using Pairs by (simp add: own_text_def)
qed (simp_all add: own_text_def)

lemma visit_ok:
  assumes "plain v" "scanned + bytes_in v \<le> max_canary_bytes"
  shows "visit c scanned v = Inr (scanned + (case own_text v of None \<Rightarrow> 0 | Some t \<Rightarrow> length t),
     case own_text v of None \<Rightarrow> False | Some t \<Rightarrow> contains c t)"
  using assms py_len_le [of "case v of Chars s \<Rightarrow> s | _ \<Rightarrow> []"]
  by (cases v) (auto simp: visit_def own_text_def unless_def split: option.splits)

lemma scan_stack_completes:
  "\<forall>(v, d)\<in>set stack. plain v \<and> d + height v \<le> max_canary_depth \<Longrightarrow>
   nodes + sum_list (map (\<lambda>(v, _). parts v) stack) \<le> max_canary_nodes \<Longrightarrow>
   scanned + sum_list (map (\<lambda>(v, _). bytes_in v) stack) \<le> max_canary_bytes \<Longrightarrow>
   is_ok (scan_stack c stack nodes scanned)"
proof (induction c stack nodes scanned rule: scan_stack.induct)
  case (2 c v depth stack nodes scanned)
  let ?own = "case own_text v of None \<Rightarrow> 0 | Some t \<Rightarrow> length t"
  let ?hit = "case own_text v of None \<Rightarrow> False | Some t \<Rightarrow> contains c t"
  let ?rest = "map (\<lambda>c. (c, Suc depth)) (children v) @ stack"
  have v: "plain v" "depth + height v \<le> max_canary_depth" using "2.prems"(1) by auto
  have visit: "visit c scanned v = Inr (scanned + ?own, ?hit)"
    by (rule visit_ok) (use v(1) "2.prems"(3) in auto)
  have n: "Suc nodes + length (children v) \<le> max_canary_nodes"
    using "2.prems"(2) parts_children [of v] length_parts [of "children v"] by simp
  have "is_ok (scan_stack c ?rest (Suc nodes) (scanned + ?own))" if "\<not> ?hit"
  proof (rule "2.IH" [OF that])
    show "\<forall>(w, d)\<in>set ?rest. plain w \<and> d + height w \<le> max_canary_depth"
      using "2.prems"(1) v plain_children [OF v(1)] height_children [of _ v] by (fastforce simp: list_all_iff)
    show "Suc nodes + sum_list (map (\<lambda>(v, _). parts v) ?rest) \<le> max_canary_nodes"
      using "2.prems"(2) parts_children [of v] by (simp add: comp_def)
    show "scanned + ?own + sum_list (map (\<lambda>(v, _). bytes_in v) ?rest) \<le> max_canary_bytes"
      using "2.prems"(3) bytes_children [of v] by (simp add: comp_def)
  qed
  then show ?case using v(2) n visit plain_children [OF v(1)] by (simp add: scan_stack.simps(2) unless_def)
qed simp

text \<open>Claim C40: The canary search misses nothing: when it answers, every surface that holds the canary anywhere is
  reported, and a surface within its bounds is reported only if it holds the canary.\<close>

theorem canary_search_is_exact:
  assumes "find_canary_surfaces (Some c) (Some ss) = Inr names" and "distinct (map fst ss)" and "(Some name, v) \<in> set ss"
  shows "(occurs c v \<longrightarrow> name \<in> set names) \<and> (in_bounds v \<longrightarrow> (name \<in> set names \<longleftrightarrow> occurs c v))"
proof -
  have names: "names = map (\<lambda>(name, _). the name) (filter (\<lambda>(_, v). contains_canary_bounded v c \<noteq> Inr False) ss)"
    and all: "\<not> list_ex (\<lambda>(name, _). name = None \<or> name = Some []) ss"
    using assms(1) by (auto simp: find_canary_surfaces_def)
  have reported: "name \<in> set names \<longleftrightarrow> contains_canary_bounded v c \<noteq> Inr False"
  proof
    assume "name \<in> set names"
    then obtain n u where "(n, u) \<in> set ss" "the n = name" "contains_canary_bounded u c \<noteq> Inr False"
      using names by auto
    moreover from this(1) all have "n \<noteq> None" by (auto simp: list_ex_iff)
    ultimately have "(Some name, u) \<in> set ss" "contains_canary_bounded u c \<noteq> Inr False" by auto
    then show "contains_canary_bounded v c \<noteq> Inr False"
      using assms(2,3) by (metis eq_key_imp_eq_value)
  qed (use names assms(3) in force)
  have exact: "contains_canary_bounded v c = Inr b \<Longrightarrow> b = occurs c v" for b
    using scan_stack_correct [of c "[(v, 0)]"] by (simp add: contains_canary_bounded_def)
  have "is_ok (contains_canary_bounded v c)" if "in_bounds v"
    unfolding contains_canary_bounded_def
    by (rule scan_stack_completes) (use that in \<open>simp_all add: in_bounds_def\<close>)
  then show ?thesis using reported exact by (cases "contains_canary_bounded v c") auto
qed

theorem canary_search_is_exact_witness:
  "find_canary_surfaces (Some ''canary'')
      (Some [(Some ''log'', Items [Chars ''a canary here'', Whole 7]), (Some ''env'', Pairs [(Some ''key'', Null)])]) = Inr [''log'']
   \<and> in_bounds (Pairs [(Some ''key'', Null)]) \<and> \<not> occurs ''canary'' (Pairs [(Some ''key'', Null)])"
proof -
  let ?ss = "[(Some ''log'', Items [Chars ''a canary here'', Whole 7]), (Some ''env'', Pairs [(Some ''key'', Null)])]"
  note bounds = max_canary_bytes_def max_canary_nodes_def max_canary_depth_def max_canary_surfaces_def
  have log: "contains_canary_bounded (Items [Chars ''a canary here'', Whole 7]) ''canary'' = Inr True"
    by (simp add: contains_canary_bounded_def scan_stack.simps(2) visit_def foreign_key_def bounds py_len_ascii no_surrogate_ascii)
  have env: "contains_canary_bounded (Pairs [(Some ''key'', Null)]) ''canary'' = Inr False"
    by (simp add: contains_canary_bounded_def scan_stack.simps(2) visit_def foreign_key_def bounds py_len_ascii no_surrogate_ascii
        unless_def)
  have f: "find_canary_surfaces (Some ''canary'') (Some ?ss) = Inr [''log'']"
    by (simp add: find_canary_surfaces_def log env bounds no_surrogate_ascii)
  have b: "in_bounds (Pairs [(Some ''key'', Null)])"
    by (simp add: in_bounds_def bounds own_text_def no_surrogate_ascii)
  have "''env'' \<in> set [''log''] \<longleftrightarrow> occurs ''canary'' (Pairs [(Some ''key'', Null)])"
    using canary_search_is_exact [OF f, of "''env''" "Pairs [(Some ''key'', Null)]"] b by simp
  then show ?thesis using f b by simp
qed

end
