(* ===== verification/Github_Snapshot.thy ===== *)
theory Github_Snapshot
  imports Github_Tree_Facts Json_Decode Secret_Scan
begin

text \<open>
  \<^verbatim>\<open>src/app_contracts/github_snapshot.py\<close>: the records of a snapshot claim, the parsing of the commit, tree and blob
  responses, and the reading of a snapshot over an injected transport. Only the fields of a request may hold any value;
  the fields of the other records have their annotated types, whose type tests are left out. The status an
  error carries beside its message is not modelled.
\<close>

section \<open>Base64\<close>

definition base64_value :: "char \<Rightarrow> nat option" where
  "base64_value c =
     (let n = byte c
      in if 65 \<le> n \<and> n \<le> 90 then Some (n - 65) else if 97 \<le> n \<and> n \<le> 122 then Some (n - 71)
         else if 48 \<le> n \<and> n \<le> 57 then Some (n + 4) else if n = 43 then Some 62 else if n = 47 then Some 63 else None)"

text \<open>
  The strict loop of \<^verbatim>\<open>binascii.a2b_base64\<close>: the place in the group of four, the bits left over, the padding signs since
  the last digit, and whether padding began. \<open>None\<close> is \<^verbatim>\<open>binascii.Error\<close>.
\<close>

fun base64_loop :: "nat \<Rightarrow> nat \<Rightarrow> nat \<Rightarrow> bool \<Rightarrow> string \<Rightarrow> string option" where
  "base64_loop place left pads padding [] = (if place = 0 then Some [] else None)"
| "base64_loop place left pads padding (c # cs) =
     (if c = CHR ''='' then
        (if place < 2 then base64_loop place left pads True cs
         else if 4 \<le> place + Suc pads then (if cs = [] then Some [] else None)
         else base64_loop place left (Suc pads) True cs)
      else (case base64_value c of
          None \<Rightarrow> None
        | Some v \<Rightarrow>
            if padding then None
            else if place = 0 then base64_loop 1 v 0 False cs
            else if place = 1 then map_option (Cons (char_of (left * 4 + v div 16))) (base64_loop 2 (v mod 16) 0 False cs)
            else if place = 2 then map_option (Cons (char_of (left * 16 + v div 4))) (base64_loop 3 (v mod 4) 0 False cs)
            else map_option (Cons (char_of (left * 64 + v))) (base64_loop 0 0 0 False cs)))"

text \<open>\<^verbatim>\<open>base64.b64decode(data, validate=True)\<close>.\<close>

definition b64decode :: "string \<Rightarrow> string option" where
  "b64decode s = (if startswith s ''='' then None else base64_loop 0 0 0 False s)"

section \<open>Records\<close>

definition rest_origin :: string where
  "rest_origin = ''github_rest_api_claim''"

definition snapshot_remote_origins :: "string list" where
  "snapshot_remote_origins = [rest_origin, ''github_codeload_archive'']"

definition bad_origin :: exn where
  "bad_origin = snapshot_error ''evidence origin is invalid''"

fun tuple_items :: "pyval \<Rightarrow> pyval list option" where
  "tuple_items (PTuple vs) = Some vs"
| "tuple_items _ = None"

definition validate_selected_paths :: "pyval \<Rightarrow> unit res" where
  "validate_selected_paths v =
     (let bad = snapshot_error ''selected paths are invalid''
      in if v = PNone then Inr ()
         else case tuple_items v of
             None \<Rightarrow> Inl bad
           | Some ps \<Rightarrow> unless (ps = [] \<or> length ps > max_files \<or> \<not> list_all is_safe_tree_path ps) bad
               (unless (\<not> sorted (map str_of ps) \<or> \<not> distinct (map str_of ps)) bad (Inr ())))"

record snapshot_request =
  sq_owner :: pyval
  sq_repository :: pyval
  sq_commit :: pyval
  sq_paths :: pyval
  sq_origin :: pyval

definition check_request :: "snapshot_request \<Rightarrow> unit res" where
  "check_request q =
     rbind (validate_owner (sq_owner q)) (\<lambda>_.
     rbind (validate_repository (sq_repository q)) (\<lambda>_.
     rbind (validate_oid (sq_commit q) ''commit OID is invalid'') (\<lambda>_.
     rbind (validate_selected_paths (sq_paths q)) (\<lambda>_.
     unless (\<not> py_eq (sq_origin q) (PStr rest_origin)) bad_origin (Inr ())))))"

record commit_claim =
  cc_owner :: string
  cc_repository :: string
  cc_commit :: string
  cc_tree :: string
  cc_origin :: string

definition check_commit_claim :: "commit_claim \<Rightarrow> commit_claim res" where
  "check_commit_claim c =
     rbind (validate_owner (PStr (cc_owner c))) (\<lambda>_.
     rbind (validate_repository (PStr (cc_repository c))) (\<lambda>_.
     rbind (validate_oid (PStr (cc_commit c)) ''commit OID is invalid'') (\<lambda>_.
     rbind (validate_oid (PStr (cc_tree c)) ''tree OID is invalid'') (\<lambda>_.
     unless (cc_origin c \<noteq> rest_origin) bad_origin (Inr c)))))"

record git_commit_object =
  go_commit :: string
  go_tree :: string

definition check_commit_object :: "git_commit_object \<Rightarrow> git_commit_object res" where
  "check_commit_object g =
     rbind (validate_oid (PStr (go_commit g)) ''commit object is invalid'') (\<lambda>_.
     rbind (validate_oid (PStr (go_tree g)) ''commit object is invalid'') (\<lambda>_. Inr g))"

record tree_claim =
  tc_owner :: string
  tc_repository :: string
  tc_tree :: string
  tc_entries :: "tree_entry list"
  tc_origin :: string

definition check_tree_claim :: "tree_claim \<Rightarrow> tree_claim res" where
  "check_tree_claim t =
     rbind (validate_owner (PStr (tc_owner t))) (\<lambda>_.
     rbind (validate_repository (PStr (tc_repository t))) (\<lambda>_.
     rbind (validate_oid (PStr (tc_tree t)) ''tree OID is invalid'') (\<lambda>_.
     unless (tc_origin t \<noteq> rest_origin) bad_origin (Inr t))))"

record blob_claim =
  bl_path :: string
  bl_mode :: string
  bl_sha :: string
  bl_size :: int
  bl_content :: string
  bl_digest :: string
  bl_origin :: string

definition check_blob :: "blob_claim \<Rightarrow> blob_claim res" where
  "check_blob b =
     unless (\<not> is_safe_tree_path (PStr (bl_path b))) (snapshot_error ''blob entry is invalid'')
    (unless (bl_mode b \<notin> set blob_modes) (snapshot_error ''blob entry is invalid'')
    (rbind (validate_oid (PStr (bl_sha b)) ''blob OID is invalid'') (\<lambda>_.
     unless (bl_size b \<noteq> int (length (bl_content b)) \<or> bl_size b > int max_file_bytes) (snapshot_error ''blob size is invalid'')
    (unless (\<not> is_digest (bl_digest b) \<or> sha256_bytes (bl_content b) \<noteq> bl_digest b) (snapshot_error ''blob digest is invalid'')
    (unless (bl_sha b \<noteq> git_oid ''blob'' (bl_content b)) (snapshot_error ''blob OID mismatch'')
    (unless (bl_origin b \<notin> set snapshot_remote_origins) bad_origin (Inr b)))))))"

record remote_claim =
  sc_owner :: string
  sc_repository :: string
  sc_commit :: string
  sc_tree :: string
  sc_digest :: string
  sc_paths :: pyval
  sc_origin :: string

definition check_snapshot_claim :: "remote_claim \<Rightarrow> remote_claim res" where
  "check_snapshot_claim c =
     rbind (validate_owner (PStr (sc_owner c))) (\<lambda>_.
     rbind (validate_repository (PStr (sc_repository c))) (\<lambda>_.
     rbind (validate_oid (PStr (sc_commit c)) ''commit OID is invalid'') (\<lambda>_.
     rbind (validate_oid (PStr (sc_tree c)) ''tree OID is invalid'') (\<lambda>_.
     unless (\<not> is_digest (sc_digest c)) (snapshot_error ''content digest is invalid'')
    (rbind (validate_selected_paths (sc_paths c)) (\<lambda>_.
     unless (sc_origin c \<notin> set snapshot_remote_origins) bad_origin (Inr c)))))))"

definition whole_snapshot :: "remote_claim \<Rightarrow> bool" where
  "whole_snapshot c \<longleftrightarrow> sc_paths c = PNone"

section \<open>Responses\<close>

text \<open>The place of the first occurrence, as \<^verbatim>\<open>bytes.find\<close> returns it.\<close>

fun find_in :: "string \<Rightarrow> string \<Rightarrow> nat option" where
  "find_in p [] = (if p = [] then Some 0 else None)"
| "find_in p (c # cs) = (if startswith (c # cs) p then Some 0 else map_option Suc (find_in p cs))"

definition is_header_key :: "string \<Rightarrow> bool" where
  "is_header_key k \<longleftrightarrow> k \<noteq> [] \<and> CHR ''a'' \<le> hd k \<and> hd k \<le> CHR ''z''
     \<and> list_all (\<lambda>c. (CHR ''a'' \<le> c \<and> c \<le> CHR ''z'') \<or> is_digit c \<or> c = CHR ''-'') k"

fun header_lines_ok :: "bool \<Rightarrow> string list \<Rightarrow> bool" where
  "header_lines_ok previous [] = True"
| "header_lines_ok previous (line # lines) =
     (if startswith line '' '' then previous \<and> header_lines_ok previous lines
      else case find_in '' '' line of
          None \<Rightarrow> False
        | Some n \<Rightarrow> is_header_key (take n line) \<and> drop (Suc n) line \<noteq> [] \<and> header_lines_ok True lines)"

definition max_commit_bytes :: nat where
  "max_commit_bytes = 1000000"

definition max_commit_header_bytes :: nat where
  "max_commit_header_bytes = 65536"

text \<open>Every failure inside the \<^verbatim>\<open>try\<close> becomes the same error.\<close>

definition parse_git_commit_object :: "commit_claim option \<Rightarrow> string option \<Rightarrow> git_commit_object res" where
  "parse_git_commit_object claim raw =
     (let bad = snapshot_error ''commit object is invalid''
      in case claim of None \<Rightarrow> Inl (snapshot_error ''commit object claim is invalid'') | Some c \<Rightarrow>
         (case raw of None \<Rightarrow> Inl bad | Some b \<Rightarrow>
           unless (b = [] \<or> length b > max_commit_bytes) bad
          (case find_in [CHR 0x0A, CHR 0x0A] b of None \<Rightarrow> Inl bad | Some n \<Rightarrow>
             (let header = take n b; lines = split_on (CHR 0x0A) header; tree = drop 5 (hd lines); oid = git_oid ''commit'' b
              in unless (n = 0 \<or> n > max_commit_header_bytes) bad
                (unless (CHR 0x00 \<in> set header \<or> CHR 0x0D \<in> set header) bad
                (unless ([] \<in> set lines) bad
                (unless (length (filter (\<lambda>l. startswith l ''tree '') lines) \<noteq> 1 \<or> \<not> startswith (hd lines) ''tree '') bad
                (unless (\<not> is_hex40 tree) bad
                (unless (\<not> header_lines_ok False lines) bad
                (unless (oid \<noteq> cc_commit c \<or> tree \<noteq> cc_tree c) bad
                (check_commit_object \<lparr>go_commit = oid, go_tree = tree\<rparr>)))))))))))"

definition bad_response :: "string \<Rightarrow> exn" where
  "bad_response what = snapshot_error (what @ '' response is invalid'')"

definition is_oid :: "pyval \<Rightarrow> bool" where
  "is_oid v \<longleftrightarrow> is_str v \<and> is_hex40 (str_of v)"

definition parse_github_commit :: "snapshot_request option \<Rightarrow> pyval \<Rightarrow> commit_claim res" where
  "parse_github_commit request response =
     (let bad = bad_response ''commit''
      in case request of None \<Rightarrow> Inl (snapshot_error ''request shape is invalid'') | Some q \<Rightarrow>
         unless (\<not> is_dict response) bad
        (unless (\<not> is_oid (fld response ''sha'')) bad
        (unless (\<not> py_eq (fld response ''sha'') (sq_commit q)) (snapshot_error ''commit OID mismatch'')
        (unless (\<not> is_dict (fld response ''commit'')) bad
        (unless (\<not> is_dict (fld (fld response ''commit'') ''tree'')) bad
        (let sha = fld (fld (fld response ''commit'') ''tree'') ''sha''
         in unless (\<not> is_oid sha) bad
           (check_commit_claim \<lparr>cc_owner = str_of (sq_owner q), cc_repository = str_of (sq_repository q),
              cc_commit = str_of (sq_commit q), cc_tree = str_of sha, cc_origin = rest_origin\<rparr>)))))))"

fun list_items :: "pyval \<Rightarrow> pyval list option" where
  "list_items (PList vs) = Some vs"
| "list_items _ = None"

definition parse_github_tree :: "commit_claim option \<Rightarrow> pyval \<Rightarrow> tree_claim res" where
  "parse_github_tree claim response =
     (let bad = bad_response ''tree''
      in case claim of None \<Rightarrow> Inl (snapshot_error ''commit claim is invalid'') | Some c \<Rightarrow>
         unless (\<not> is_dict response) bad
        (unless (\<not> is_oid (fld response ''sha'')) bad
        (unless (str_of (fld response ''sha'') \<noteq> cc_tree c) (snapshot_error ''tree OID mismatch'')
        (case list_items (fld response ''tree'') of None \<Rightarrow> Inl bad | Some raws \<Rightarrow>
           unless (length raws > max_files) bad
          (unless (fld response ''truncated'' \<noteq> PBool False) (snapshot_error ''tree response is incomplete'')
          (rbind (parse_tree_entries [] raws) (\<lambda>es.
           rbind (verify_git_tree_entries (cc_tree c) es) (\<lambda>_.
           check_tree_claim \<lparr>tc_owner = cc_owner c, tc_repository = cc_repository c, tc_tree = cc_tree c, tc_entries = es,
             tc_origin = rest_origin\<rparr>))))))))"

definition max_blob_wire_bytes :: nat where
  "max_blob_wire_bytes = max_file_bytes * 2"

fun replace_crlf :: "string \<Rightarrow> string" where
  "replace_crlf (c # d # s) = (if c = CHR 0x0D \<and> d = CHR 0x0A then CHR 0x0A # replace_crlf s else c # replace_crlf (d # s))"
| "replace_crlf s = s"

text \<open>The line breaks in the Base64 text: no carriage return alone, no empty line but a last one.\<close>

definition join_wire_lines :: "string \<Rightarrow> string option" where
  "join_wire_lines wire =
     (let w = replace_crlf wire; lines = split_on (CHR 0x0A) w; ls = (if last lines = [] then butlast lines else lines)
      in if CHR 0x0D \<in> set w then None
         else if CHR 0x0A \<notin> set w then Some w
         else if [] \<in> set ls then None
         else Some (concat ls))"

definition parse_github_blob :: "tree_entry option \<Rightarrow> pyval \<Rightarrow> int option \<Rightarrow> blob_claim res" where
  "parse_github_blob entry response used =
     (let bad = bad_response ''blob''
      in case entry of None \<Rightarrow> Inl (snapshot_error ''blob entry is invalid'') | Some e \<Rightarrow>
         unless (te_type e \<noteq> ''blob'') (snapshot_error ''blob entry is invalid'')
        (unless (case te_size e of None \<Rightarrow> False | Some n \<Rightarrow> n < 0) (snapshot_error ''blob entry is invalid'')
        (unless (case te_size e of None \<Rightarrow> False | Some n \<Rightarrow> n > int max_file_bytes) (snapshot_error ''blob size exceeds limit'')
        (unless (\<not> is_dict response) bad
        (unless (\<not> py_eq (fld response ''encoding'') (PStr ''base64'')) bad
        (case used of None \<Rightarrow> Inl bad | Some u \<Rightarrow>
         unless (u < 0) bad
        (unless (\<not> is_str (fld response ''content'') \<or> \<not> ascii (str_of (fld response ''content''))) bad
        (unless (length (str_of (fld response ''content'')) > max_blob_wire_bytes) (snapshot_error ''blob size exceeds limit'')
        (case Option.bind (join_wire_lines (str_of (fld response ''content''))) b64decode of None \<Rightarrow> Inl bad | Some content \<Rightarrow>
         (let n = int (length content); size = fld response ''size''
          in unless (size \<noteq> PInt n) (snapshot_error ''blob size mismatch'')
            (unless (te_size e \<noteq> None \<and> te_size e \<noteq> Some n) (snapshot_error ''blob size mismatch'')
            (unless (n > int max_file_bytes) (snapshot_error ''blob size exceeds limit'')
            (unless (u + n > int max_total_bytes) (snapshot_error ''blob contents exceed limit'')
            (unless (git_oid ''blob'' content \<noteq> te_sha e) (snapshot_error ''blob OID mismatch'')
            (unless (\<not> py_eq (fld response ''sha'') (PStr (te_sha e))) (snapshot_error ''blob OID mismatch'')
            (check_blob \<lparr>bl_path = te_path e, bl_mode = te_mode e, bl_sha = te_sha e, bl_size = n, bl_content = content,
               bl_digest = sha256_bytes content, bl_origin = rest_origin\<rparr>))))))))))))))))"

end
