(* ===== verification/Github_Reading.thy ===== *)
theory Github_Reading
  imports Github_Snapshot
begin

text \<open>
  The reading of a snapshot in \<^verbatim>\<open>src/app_contracts/github_snapshot.py\<close>: the checked contents, and the calls of the
  injected transport (a parameter, over any world) that supply them.
\<close>

section \<open>Checked contents\<close>

definition snapshot_canonicalization :: string where
  "snapshot_canonicalization = ''app-process-snapshot-tree/v1''"

text \<open>\<^verbatim>\<open>_snapshot_content_digest\<close> of paths, modes and contents.\<close>

definition snapshot_content_digest :: "(string \<times> string \<times> string) list \<Rightarrow> string res" where
  "snapshot_content_digest files = sha256_digest (PDict
     [(''canonicalization'', PStr snapshot_canonicalization),
      (''files'', PList (map (\<lambda>(path, mode, content). PDict [(''path'', PStr path), (''content_digest'', PStr (sha256_bytes content)), (''mode'', PStr mode)])
         (sort_key fst files)))])"

record snapshot_contents =
  ct_claim :: remote_claim
  ct_files :: "blob_claim list"
  ct_commit :: "git_commit_object option"

definition blob_file :: "blob_claim \<Rightarrow> string \<times> string \<times> string" where
  "blob_file b = (bl_path b, bl_mode b, bl_content b)"

definition check_contents :: "snapshot_contents \<Rightarrow> snapshot_contents res" where
  "check_contents c =
     (let claim = ct_claim c; files = ct_files c; paths = map bl_path files
      in unless (case ct_commit c of None \<Rightarrow> False | Some g \<Rightarrow> go_commit g \<noteq> sc_commit claim \<or> go_tree g \<noteq> sc_tree claim)
           (snapshot_error ''commit object is invalid'')
        (unless (\<exists>b\<in>set files. bl_origin b \<noteq> sc_origin claim) (snapshot_error ''evidence origin mismatch'')
        (unless (length files > max_files) (snapshot_error ''content limits exceeded'')
        (unless (\<not> sorted paths \<or> \<not> distinct paths) (snapshot_error ''content files are invalid'')
        (unless (sc_paths claim \<noteq> PNone \<and> sc_paths claim \<noteq> PTuple (map PStr paths)) (snapshot_error ''content selection mismatch'')
        (unless (sum_list (map bl_size files) > int max_total_bytes) (snapshot_error ''content limits exceeded'')
        (rbind (snapshot_content_digest (map blob_file files)) (\<lambda>actual.
         unless (actual \<noteq> sc_digest claim) (snapshot_error ''content digest mismatch'')
        (rbind (rcatch (assert_no_credential_pattern_content (Some (map (\<lambda>b. ScanFile (bl_path b) (bl_content b)) files)))
             (\<lambda>e. if exn_class e = CredentialLeakDetected then Inl (snapshot_error ''credential-shaped content detected'') else Inl e)) (\<lambda>_.
         Inr c))))))))))"

section \<open>The transport\<close>

record get_request =
  gr_method :: string
  gr_url :: string
  gr_headers :: "(string \<times> string) list"
  gr_max_bytes :: nat
  gr_allow_redirects :: bool

text \<open>What the transport returns: a dictionary with its status and its body (\<open>None\<close>: no bytes), or anything else.\<close>

datatype get_response = OddResponse | Response pyval "string option"

type_synonym 'w transport = "get_request \<Rightarrow> ('w, get_response) eff"

definition api_base :: string where
  "api_base = ''https://api.github.com''"

definition api_request :: "string \<Rightarrow> nat \<Rightarrow> get_request" where
  "api_request path bound = \<lparr>gr_method = ''GET'', gr_url = api_base @ path,
     gr_headers = [(''Accept'', ''application/vnd.github+json''), (''X-GitHub-Api-Version'', ''2026-03-10'')],
     gr_max_bytes = bound, gr_allow_redirects = False\<rparr>"

definition read_response :: "nat \<Rightarrow> get_response \<Rightarrow> pyval res" where
  "read_response bound r =
     (let bad = snapshot_error ''transport result is invalid''
      in case r of OddResponse \<Rightarrow> Inl bad | Response status body \<Rightarrow>
         unless (\<not> is_int status \<or> \<not> (100 \<le> int_of status \<and> int_of status \<le> 599) \<or> body = None) bad
        (unless (length (the body) > bound) (snapshot_error ''snapshot response exceeds limit'')
        (unless (int_of status \<noteq> 200) (snapshot_error (''snapshot response failed (HTTP '' @ int_repr (int_of status) @ '')''))
        (case json_decode strict_json (the body) of None \<Rightarrow> Inl (snapshot_error ''snapshot payload is invalid'') | Some v \<Rightarrow> Inr v))))"

definition get_json :: "'w transport \<Rightarrow> string \<Rightarrow> nat \<Rightarrow> ('w, pyval) eff" where
  "get_json transport path bound =
     ebind (ecatch (transport (api_request path bound)) (\<lambda>_. elift (Inl (snapshot_error ''snapshot transport failed'')))) (\<lambda>r.
     elift (read_response bound r))"

section \<open>Reading\<close>

definition max_commit_response_bytes :: nat where
  "max_commit_response_bytes = 1000000"

definition max_tree_response_bytes :: nat where
  "max_tree_response_bytes = 8000000"

definition repository_path :: "snapshot_request \<Rightarrow> string" where
  "repository_path q = ''/repos/'' @ str_of (sq_owner q) @ ''/'' @ str_of (sq_repository q)"

definition read_commit :: "'w transport \<Rightarrow> snapshot_request \<Rightarrow> ('w, commit_claim) eff" where
  "read_commit transport q =
     ebind (get_json transport (repository_path q @ ''/commits/'' @ str_of (sq_commit q)) max_commit_response_bytes) (\<lambda>v.
     elift (parse_github_commit (Some q) v))"

definition read_tree :: "'w transport \<Rightarrow> snapshot_request \<Rightarrow> commit_claim \<Rightarrow> ('w, tree_claim) eff" where
  "read_tree transport q c =
     ebind (get_json transport (repository_path q @ ''/git/trees/'' @ cc_tree c @ ''?recursive=1'') max_tree_response_bytes) (\<lambda>v.
     elift (parse_github_tree (Some c) v))"

definition is_blob :: "tree_entry \<Rightarrow> bool" where
  "is_blob e \<longleftrightarrow> te_type e = ''blob''"

definition selected_paths :: "snapshot_request \<Rightarrow> string list option" where
  "selected_paths q = map_option (map str_of) (tuple_items (sq_paths q))"

definition missing_path :: "snapshot_request \<Rightarrow> tree_entry list \<Rightarrow> bool" where
  "missing_path q blobs = (case selected_paths q of None \<Rightarrow> False | Some ps \<Rightarrow> \<not> set ps \<subseteq> te_path ` set blobs)"

text \<open>The argument tests both readers begin with; a request that fails its own checks has the wrong shape.\<close>

definition open_request :: "snapshot_request option \<Rightarrow> 'w transport option \<Rightarrow> (snapshot_request \<times> 'w transport) res" where
  "open_request request transport =
     (let bad = snapshot_error ''request shape is invalid''
      in case request of None \<Rightarrow> Inl bad | Some q \<Rightarrow>
         rbind (rcatch (check_request q) (\<lambda>_. Inl bad)) (\<lambda>_.
         case transport of None \<Rightarrow> Inl (snapshot_error ''transport is invalid'') | Some t \<Rightarrow> Inr (q, t)))"

definition read_github_snapshot_metadata :: "snapshot_request option \<Rightarrow> 'w transport option \<Rightarrow> ('w, tree_claim) eff" where
  "read_github_snapshot_metadata request transport =
     ebind (elift (open_request request transport)) (\<lambda>(q, t).
     ebind (read_commit t q) (\<lambda>c.
     ebind (read_tree t q c) (\<lambda>tree.
     eunless (missing_path q (filter is_blob (tc_entries tree))) (snapshot_error ''selected path is missing'')
       (eret tree))))"

definition selected_entries :: "snapshot_request \<Rightarrow> tree_entry list \<Rightarrow> tree_entry list" where
  "selected_entries q blobs = (case selected_paths q of
      None \<Rightarrow> blobs
    | Some ps \<Rightarrow> map (\<lambda>p. the (map_of (map (\<lambda>e. (te_path e, e)) blobs) p)) ps)"

fun read_blobs :: "'w transport \<Rightarrow> snapshot_request \<Rightarrow> int \<Rightarrow> tree_entry list \<Rightarrow> ('w, (string \<times> string \<times> string) list) eff" where
  "read_blobs transport q used [] = eret []"
| "read_blobs transport q used (e # es) =
     ebind (get_json transport (repository_path q @ ''/git/blobs/'' @ te_sha e) max_blob_wire_bytes) (\<lambda>v.
     ebind (elift (parse_github_blob (Some e) v (Some used))) (\<lambda>b.
     ebind (read_blobs transport q (used + bl_size b) es) (\<lambda>fs. eret ((bl_path b, te_mode e, bl_content b) # fs))))"

text \<open>\<^verbatim>\<open>commit_object_source\<close>: absent, not callable, or a source of the raw commit.\<close>

datatype 'w commit_source = NoSource | NotCallable | Source "commit_claim \<Rightarrow> ('w, string option) eff"

definition read_commit_object :: "'w commit_source \<Rightarrow> commit_claim \<Rightarrow> ('w, git_commit_object option) eff" where
  "read_commit_object source c = (case source of
      NoSource \<Rightarrow> eret None
    | NotCallable \<Rightarrow> elift (Inl (snapshot_error ''commit object source is invalid''))
    | Source f \<Rightarrow>
        ecatch (ebind (f c) (\<lambda>raw. ebind (elift (parse_git_commit_object (Some c) raw)) (\<lambda>g. eret (Some g))))
          (\<lambda>_. elift (Inl (snapshot_error ''commit object is invalid''))))"

definition oversized :: "tree_entry \<Rightarrow> bool" where
  "oversized e \<longleftrightarrow> (case te_size e of None \<Rightarrow> False | Some n \<Rightarrow> n > int max_file_bytes)"

text \<open>The claim and the contents of the verified files.\<close>

definition blob_of_file :: "tree_entry list \<Rightarrow> string \<times> string \<times> string \<Rightarrow> blob_claim res" where
  "blob_of_file blobs f = (case f of (path, mode, content) \<Rightarrow>
     check_blob \<lparr>bl_path = path, bl_mode = mode, bl_sha = te_sha (the (map_of (map (\<lambda>e. (te_path e, e)) blobs) path)),
       bl_size = int (length content), bl_content = content, bl_digest = sha256_bytes content, bl_origin = rest_origin\<rparr>)"

definition bind_contents :: "snapshot_request \<Rightarrow> tree_claim \<Rightarrow> git_commit_object option \<Rightarrow> (string \<times> string \<times> string) list
    \<Rightarrow> snapshot_contents res" where
  "bind_contents q tree commit files =
     rbind (snapshot_content_digest files) (\<lambda>d.
     rbind (check_snapshot_claim \<lparr>sc_owner = str_of (sq_owner q), sc_repository = str_of (sq_repository q),
         sc_commit = str_of (sq_commit q), sc_tree = tc_tree tree, sc_digest = d, sc_paths = sq_paths q, sc_origin = rest_origin\<rparr>) (\<lambda>claim.
     rbind (map_res (blob_of_file (filter is_blob (tc_entries tree))) (sort_key fst files)) (\<lambda>blobs.
     check_contents \<lparr>ct_claim = claim, ct_files = blobs, ct_commit = commit\<rparr>)))"

definition read_github_snapshot_contents :: "snapshot_request option \<Rightarrow> 'w transport option \<Rightarrow> 'w commit_source
    \<Rightarrow> ('w, snapshot_contents) eff" where
  "read_github_snapshot_contents request transport source =
     ebind (elift (open_request request transport)) (\<lambda>(q, t).
     ebind (read_commit t q) (\<lambda>c.
     ebind (read_commit_object source c) (\<lambda>commit.
     ebind (read_tree t q c) (\<lambda>tree.
     (let blobs = filter is_blob (tc_entries tree); entries = selected_entries q blobs
      in eunless (missing_path q blobs) (snapshot_error ''selected path is missing'')
        (eunless (\<exists>e\<in>set entries. oversized e) (snapshot_error ''blob size exceeds limit'')
        (ebind (read_blobs t q 0 entries) (\<lambda>files.
         elift (bind_contents q tree commit files)))))))))"

definition read_github_snapshot :: "snapshot_request option \<Rightarrow> 'w transport option \<Rightarrow> ('w, remote_claim) eff" where
  "read_github_snapshot request transport =
     ebind (read_github_snapshot_contents request transport NoSource) (\<lambda>c. eret (ct_claim c))"

end
