(* ===== verification/Json_Roundtrip.thy ===== *)
theory Json_Roundtrip
  imports Json_Decode
begin

text \<open>The decoder reads back what \<^verbatim>\<open>canonical_json\<close> writes.\<close>

section \<open>Strings and numbers\<close>

lemma hex_digit_value_lower: "n < 16 \<Longrightarrow> hex_digit_value (hex_digit (int n)) = Some n"
proof -
  assume "n < 16"
  then have "n \<in> set [0..<16]" by simp
  moreover have "\<forall>n\<in>set [0..<16]. hex_digit_value (hex_digit (int n)) = Some n" by code_simp
  ultimately show ?thesis by blast
qed

lemma scan_escaped: "e \<in> short_escapes \<Longrightarrow> scan_string (CHR 0x5C # e # r) = prepend [unescape e] (scan_string r)"
  by (auto simp: short_escapes_def)

lemma scan_hex:
  assumes "byte c < 32"
  shows "scan_string (CHR 0x5C # CHR ''u'' # CHR ''0'' # CHR ''0'' # hex_digit (int (byte c div 16)) # hex_digit (int (byte c mod 16)) # r)
    = prepend [c] (scan_string r)"
proof -
  have "hex_digit_value (hex_digit (int (byte c div 16))) = Some (byte c div 16)"
      "hex_digit_value (hex_digit (int (byte c mod 16))) = Some (byte c mod 16)"
    using assms by (auto intro!: hex_digit_value_lower)
  moreover have "hex_digit_value (CHR ''0'') = Some 0" by code_simp
  ultimately have "four_hex (CHR ''0'' # CHR ''0'' # hex_digit (int (byte c div 16)) # hex_digit (int (byte c mod 16)) # r) = Some (byte c, r)"
    by simp
  then have "scan_unicode (CHR ''0'' # CHR ''0'' # hex_digit (int (byte c div 16)) # hex_digit (int (byte c mod 16)) # r) = Some (byte c, r)"
    using assms by (simp add: scan_unicode_def del: four_hex.simps)
  moreover have "utf8_encode (byte c) = [c]" using assms by (simp add: utf8_encode_def)
  ultimately show ?thesis by simp
qed

lemma scan_char: "scan_string (json_char c @ r) = prepend [c] (scan_string r)"
proof -
  have eq: "c = d" if "byte c = byte d" for d using that by (rule byte_inject)
  consider "c = CHR 0x22" | "c = CHR 0x5C" | "byte c = 8" | "byte c = 9" | "byte c = 10"
    | "byte c = 12" | "byte c = 13" | "byte c < 32" "byte c \<notin> {8, 9, 10, 12, 13}"
    | "c \<noteq> CHR 0x22" "c \<noteq> CHR 0x5C" "32 \<le> byte c"
    by force
  then show ?thesis
  proof cases
    case 1 then show ?thesis using scan_escaped [of "CHR 0x22" r] by (simp add: json_char_def short_escapes_def unescape_def)
  next
    case 2 then show ?thesis using scan_escaped [of "CHR 0x5C" r] by (simp add: json_char_def short_escapes_def unescape_def)
  next
    case 3 then show ?thesis using eq [of "CHR 0x08"] scan_escaped [of "CHR ''b''" r] by (simp add: json_char_def short_escapes_def unescape_def)
  next
    case 4 then show ?thesis using eq [of "CHR 0x09"] scan_escaped [of "CHR ''t''" r] by (simp add: json_char_def short_escapes_def unescape_def)
  next
    case 5 then show ?thesis using eq [of "CHR 0x0A"] scan_escaped [of "CHR ''n''" r] by (simp add: json_char_def short_escapes_def unescape_def)
  next
    case 6 then show ?thesis using eq [of "CHR 0x0C"] scan_escaped [of "CHR ''f''" r] by (simp add: json_char_def short_escapes_def unescape_def)
  next
    case 7 then show ?thesis using eq [of "CHR 0x0D"] scan_escaped [of "CHR ''r''" r] by (simp add: json_char_def short_escapes_def unescape_def)
  next
    case 8
    then have "c \<noteq> CHR 0x22" "c \<noteq> CHR 0x5C" by auto
    then have "json_char c = [CHR 0x5C, CHR ''u'', CHR ''0'', CHR ''0'', hex_digit (int (byte c div 16)), hex_digit (int (byte c mod 16))]"
      using 8 by (simp add: json_char_def)
    then show ?thesis using scan_hex [OF 8(1), of r] by (simp del: scan_string.simps)
  next
    case 9 then show ?thesis by (auto simp: json_char_def)
  qed
qed

lemma scan_body: "scan_string (json_body s @ CHR 0x22 # r) = Some (s, r)"
proof (induction s)
  case (Cons c s)
  have "json_body (c # s) @ CHR 0x22 # r = json_char c @ (json_body s @ CHR 0x22 # r)" by (simp add: json_body_def)
  then show ?case using Cons by (simp add: scan_char prepend_def del: scan_string.simps)
qed (simp add: json_body_def)

text \<open>What may follow a value.\<close>

definition closes :: "string \<Rightarrow> bool" where
  "closes r \<longleftrightarrow> r = [] \<or> hd r \<in> {CHR '','', CHR '']'', CHR ''}''}"

lemma closes_ends: "closes r \<Longrightarrow> ends r"
  by (cases r) (auto simp: closes_def ends_def is_digit_def)

lemma closes_integer: "closes r \<Longrightarrow> skip_exponent (skip_fraction r) = r"
proof (cases r)
  case (Cons c q)
  assume "closes r"
  then have "c \<notin> {CHR ''.'', CHR ''e'', CHR ''E''}" using Cons by (auto simp: closes_def)
  then show ?thesis using Cons by (cases q) (simp_all add: skip_exponent_def skip_fraction_def Let_def)
qed (simp add: skip_exponent_def skip_fraction_def)

lemma nat_digits_zero: "nat_digits n = CHR ''0'' # t \<Longrightarrow> n = 0 \<and> t = []"
proof (induction n arbitrary: t rule: nat_digits.induct)
  case (1 n)
  show ?case
  proof (cases "n < 10")
    case True
    then have "dec_digit n = CHR ''0''" "t = []" using "1.prems" by (simp_all add: nat_digits.simps [of n])
    then have "byte (dec_digit n) = byte (CHR ''0'')" by simp
    then show ?thesis using byte_dec_digit [OF True] \<open>t = []\<close> by simp
  next
    case False
    obtain c u where c: "nat_digits (n div 10) = c # u" using nat_digits_nonempty [of "n div 10"] by (cases "nat_digits (n div 10)") auto
    then have "c = CHR ''0''" using "1.prems" False by (simp add: nat_digits.simps [of n])
    then have "n div 10 = 0" using "1.IH" [OF False, of u] c by simp
    then show ?thesis using False by simp
  qed
qed

lemma takeWhile_digits: "ends r \<Longrightarrow> takeWhile is_digit (nat_digits n @ r) = nat_digits n"
  using nat_digits_is_digit [of n] by (cases r) (auto simp: ends_def list_all_iff takeWhile_append)

lemma first_digits:
  assumes "ends r"
  shows "(if startswith (nat_digits n @ r) ''0'' then ''0'' else takeWhile is_digit (nat_digits n @ r)) = nat_digits n"
proof (cases "startswith (nat_digits n @ r) ''0''")
  case True
  obtain c u where c: "nat_digits n = c # u" using nat_digits_nonempty [of n] by (cases "nat_digits n") auto
  then have "nat_digits n = CHR ''0'' # u" using True by simp
  then show ?thesis using True nat_digits_zero [of n u] by simp
next
  case False
  then show ?thesis by (simp only: if_False takeWhile_digits [OF assms])
qed

lemma scan_int:
  assumes "closes r" "length (nat_digits (nat \<bar>k\<bar>)) \<le> 4300"
  shows "scan_number (int_repr k @ r) = Some (PInt k, r)"
proof -
  define neg where "neg = (k < 0)"
  define t where "t = nat_digits (nat \<bar>k\<bar>) @ r"
  have written: "int_repr k @ r = (if neg then CHR ''-'' # t else t)" by (simp add: neg_def t_def int_repr_def)
  have "\<not> startswith t ''-''" using hd_nat_digits_not_minus [of "nat \<bar>k\<bar>" r] by (cases t) (auto simp: t_def)
  then have sign: "startswith (int_repr k @ r) ''-'' = neg" "(if neg then tl (int_repr k @ r) else int_repr k @ r) = t"
    by (simp_all add: written)
  have ds: "(if startswith t ''0'' then ''0'' else takeWhile is_digit t) = nat_digits (nat \<bar>k\<bar>)"
    unfolding t_def by (rule first_digits [OF closes_ends [OF assms(1)]])
  have d: "drop (length (nat_digits (nat \<bar>k\<bar>))) t = r" by (simp add: t_def)
  have "digits_value (nat_digits (nat \<bar>k\<bar>)) = nat \<bar>k\<bar>" by (rule digits_value_nat_digits)
  then show ?thesis
    using assms(2) nat_digits_nonempty [of "nat \<bar>k\<bar>"]
    unfolding scan_number_def Let_def sign ds d closes_integer [OF assms(1)] by (auto simp: neg_def simp del: digits_value.simps)
qed

section \<open>Values\<close>

text \<open>The values with an exact JSON text: no integer is too long to print, no key is repeated.\<close>

fun exact :: "pyval \<Rightarrow> bool" where
  "exact (PInt n) = (length (nat_digits (nat \<bar>n\<bar>)) \<le> 4300)"
| "exact (PList xs) = list_all exact xs"
| "exact (PDict d) = (distinct (map fst d) \<and> list_all (\<lambda>f. exact (snd f)) d)"
| "exact _ = True"

lemma skip_ws_start: "is_normal v \<Longrightarrow> skip_ws (render v @ r) = render v @ r"
  using render_start [of v] by (cases v) (auto simp: skip_ws_def json_space_def is_digit_def split: if_splits)

lemma render_length: "is_normal v \<Longrightarrow> 0 < length (render v)"
  using render_start [of v] by auto

lemma not_bracket: "is_normal v \<Longrightarrow> \<not> startswith (render v @ r) '']''"
  using render_not_bracket [of v r] by (auto simp: startswith_one)

definition reads :: "pyval \<Rightarrow> bool" where
  "reads v \<longleftrightarrow> (\<forall>h n r. closes r \<longrightarrow> 2 * length (render v @ r) < n \<longrightarrow> parse_value h n (render v @ r) = Some (v, r))"

lemma readsD: "reads v \<Longrightarrow> closes r \<Longrightarrow> 2 * length (render v @ r) < n \<Longrightarrow> parse_value h n (render v @ r) = Some (v, r)"
  unfolding reads_def by blast

lemma closes_tails: "closes (tails ts @ CHR '']'' # r)" "closes (tails ts @ CHR ''}'' # r)"
  by (cases ts; simp add: closes_def tails_def)+

lemma skip_ws_closes: "closes r \<Longrightarrow> skip_ws r = r"
  by (cases r) (auto simp: closes_def skip_ws_def json_space_def)

lemma parse_array:
  assumes "\<forall>v\<in>set (v # vs). reads v \<and> is_normal v"
  shows "2 * length (render v @ tails (map render vs) @ CHR '']'' # r) + 1 < n \<Longrightarrow>
    parse_items h n (render v @ tails (map render vs) @ CHR '']'' # r) = Some (v # vs, r)"
  using assms
proof (induction vs arbitrary: v n)
  case Nil
  then obtain m where m: "n = Suc m" by (cases n) auto
  have "parse_value h m (render v @ CHR '']'' # r) = Some (v, CHR '']'' # r)"
    using Nil m closes_tails(1) [of "[]" r] by (intro readsD) (auto simp: tails_def)
  then show ?case by (simp add: m tails_def skip_ws_def json_space_def)
next
  case (Cons w vs)
  obtain m where m: "n = Suc m" using Cons.prems(1) by (cases n) auto
  let ?rest = "render w @ tails (map render vs) @ CHR '']'' # r"
  have t: "tails (map render (w # vs)) @ CHR '']'' # r = CHR '','' # ?rest" by (simp add: tails_def)
  have "parse_value h m (render v @ CHR '','' # ?rest) = Some (v, CHR '','' # ?rest)"
    using Cons.prems m t by (intro readsD) (auto simp: closes_def)
  moreover have "parse_items h m ?rest = Some (w # vs, r)"
    using Cons.prems m t render_length [of v] by (intro Cons.IH) auto
  moreover have "skip_ws (CHR '','' # ?rest) = CHR '','' # ?rest" by (simp add: skip_ws_def json_space_def)
  moreover have "skip_ws ?rest = ?rest" using Cons.prems(2) by (intro skip_ws_start) simp
  ultimately show ?case unfolding m t by (simp add: Let_def)
qed

lemma member_text: "render_member f @ q = CHR 0x22 # json_body (fst f) @ CHR 0x22 # CHR '':'' # render (snd f) @ q"
  by (simp add: json_member_def json_str_def)

lemma parse_object:
  assumes "\<forall>f\<in>set (f # fs). reads (snd f) \<and> is_normal (snd f)"
  shows "2 * length (render_member f @ tails (map render_member fs) @ CHR ''}'' # r) < n \<Longrightarrow>
    parse_members h n (render_member f @ tails (map render_member fs) @ CHR ''}'' # r) = Some (f # fs, r)"
  using assms
proof (induction fs arbitrary: f n)
  case Nil
  then obtain m where m: "n = Suc m" by (cases n) auto
  have "parse_value h m (render (snd f) @ CHR ''}'' # r) = Some (snd f, CHR ''}'' # r)"
    using Nil m closes_tails(2) [of "[]" r] by (intro readsD) (auto simp: tails_def member_text)
  moreover have "skip_ws (render (snd f) @ CHR ''}'' # r) = render (snd f) @ CHR ''}'' # r"
    using Nil by (intro skip_ws_start) simp
  ultimately show ?case
    using scan_body [of "fst f"] by (simp add: m tails_def member_text skip_ws_def json_space_def del: scan_string.simps)
next
  case (Cons g fs)
  obtain m where m: "n = Suc m" using Cons.prems(1) by (cases n) auto
  let ?rest = "render_member g @ tails (map render_member fs) @ CHR ''}'' # r"
  have t: "tails (map render_member (g # fs)) @ CHR ''}'' # r = CHR '','' # ?rest" by (simp add: tails_def)
  have v: "parse_value h m (render (snd f) @ CHR '','' # ?rest) = Some (snd f, CHR '','' # ?rest)"
    using Cons.prems m t by (intro readsD) (auto simp: closes_def member_text)
  have i: "parse_members h m ?rest = Some (g # fs, r)"
    using Cons.prems m t by (intro Cons.IH) (auto simp: member_text)
  have w: "skip_ws (CHR '','' # ?rest) = CHR '','' # ?rest" "skip_ws (CHR '':'' # q) = CHR '':'' # q" for q
    by (simp_all add: skip_ws_def json_space_def)
  have s: "skip_ws ?rest = ?rest" by (simp add: member_text skip_ws_def json_space_def)
  have q: "skip_ws (render (snd f) @ CHR '','' # ?rest) = render (snd f) @ CHR '','' # ?rest"
    using Cons.prems(2) by (intro skip_ws_start) simp
  show ?case unfolding m t member_text [of f]
    using v i w s q scan_body [of "fst f"] by (simp add: Let_def del: scan_string.simps)
qed

lemma render_reads: "is_normal v \<Longrightarrow> exact v \<Longrightarrow> reads v"
proof (induction v)
  case PNone
  show ?case unfolding reads_def
  proof (intro allI impI)
    fix h n r assume "2 * length (render PNone @ r) < n"
    then show "parse_value h n (render PNone @ r) = Some (PNone, r)" by (cases n) (auto simp: scan_word_def)
  qed
next
  case (PBool b)
  show ?case unfolding reads_def
  proof (intro allI impI)
    fix h n r assume "2 * length (render (PBool b) @ r) < n"
    then show "parse_value h n (render (PBool b) @ r) = Some (PBool b, r)" by (cases n) (auto simp: scan_word_def)
  qed
next
  case (PInt k)
  show ?case unfolding reads_def
  proof (intro allI impI)
    fix h n r assume a: "closes r" "2 * length (render (PInt k) @ r) < n"
    then obtain m where m: "n = Suc m" by (cases n) auto
    obtain c s where c: "int_repr k = c # s" "is_digit c \<or> c = CHR ''-''" using int_repr_start by blast
    have "scan_number (int_repr k @ r) = Some (PInt k, r)" using PInt.prems a(1) by (intro scan_int) simp_all
    then have "scan_number (c # s @ r) = Some (PInt k, r)" by (simp only: c(1) append_Cons)
    moreover have "c \<notin> {CHR 0x22, CHR ''['', CHR ''{'', CHR ''n'', CHR ''t'', CHR ''f''}" using c(2) by (auto simp: is_digit_def)
    ultimately show "parse_value h n (render (PInt k) @ r) = Some (PInt k, r)"
      by (simp add: m c(1) scan_word_def)
  qed
next
  case (PStr s)
  show ?case unfolding reads_def
  proof (intro allI impI)
    fix h n r assume "2 * length (render (PStr s) @ r) < n"
    then show "parse_value h n (render (PStr s) @ r) = Some (PStr s, r)"
      using scan_body [of s r] by (cases n) (auto simp: json_str_def simp del: scan_string.simps)
  qed
next
  case (PList xs)
  show ?case unfolding reads_def
  proof (intro allI impI)
    fix h n r assume a: "closes r" "2 * length (render (PList xs) @ r) < n"
    then obtain m where m: "n = Suc m" by (cases n) auto
    show "parse_value h n (render (PList xs) @ r) = Some (PList xs, r)"
    proof (cases xs)
      case Nil
      then show ?thesis by (simp add: m wrap_list_def skip_ws_def json_space_def)
    next
      case (Cons v vs)
      have all: "\<forall>v\<in>set (v # vs). reads v \<and> is_normal v" using PList Cons by (auto simp: list_all_iff)
      let ?b = "render v @ tails (map render vs) @ CHR '']'' # r"
      have t: "render (PList xs) @ r = CHR ''['' # ?b" by (simp add: Cons wrap_list_def join_tails del: join.simps(2,3))
      have "parse_items h m ?b = Some (v # vs, r)" using all a(2) m t by (intro parse_array) auto
      moreover have "skip_ws ?b = ?b" "\<not> startswith ?b '']''" using all skip_ws_start not_bracket by simp_all
      ultimately show ?thesis unfolding m t by (simp add: Let_def Cons)
    qed
  qed
next
  case (PDict d)
  show ?case unfolding reads_def
  proof (intro allI impI)
    fix h n r assume a: "closes r" "2 * length (render (PDict d) @ r) < n"
    then obtain m where m: "n = Suc m" by (cases n) auto
    show "parse_value h n (render (PDict d) @ r) = Some (PDict d, r)"
    proof (cases d)
      case Nil
      then show ?thesis by (simp add: m wrap_dict_def skip_ws_def json_space_def)
    next
      case (Cons f fs)
      have one: "reads (snd g) \<and> is_normal (snd g)" if "g \<in> set d" for g
      proof -
        have g: "is_normal (snd g)" "exact (snd g)" using PDict.prems that by (simp_all add: list_all_iff)
        moreover have "snd g \<in> Basic_BNFs.snds g" by (cases g) (auto intro: Basic_BNFs.snds.intros)
        ultimately show ?thesis using PDict.IH [OF that] by blast
      qed
      have all: "\<forall>f\<in>set (f # fs). reads (snd f) \<and> is_normal (snd f)" using one Cons by simp
      let ?b = "render_member f @ tails (map render_member fs) @ CHR ''}'' # r"
      have t: "render (PDict d) @ r = CHR ''{'' # ?b"
        by (simp add: Cons wrap_dict_def join_tails comp_def del: join.simps(2,3))
      have "parse_members h m ?b = Some (f # fs, r)" using all a(2) m t by (intro parse_object) auto
      moreover have "skip_ws ?b = ?b" "\<not> startswith ?b ''}''" by (simp_all add: member_text skip_ws_def json_space_def)
      moreover have "make_object (fst h) (f # fs) = Some (PDict (f # fs))" using PDict.prems(2) Cons by (simp add: make_object_def)
      ultimately show ?thesis unfolding m t by (simp add: Let_def Cons)
    qed
  qed
qed simp_all

lemma distinct_insort: "distinct (map fst (insort_key fst f fs)) \<longleftrightarrow> fst f \<notin> fst ` set fs \<and> distinct (map fst fs)"
  by (induction fs) (auto simp: set_insort_key)

lemma distinct_sorted: "distinct (map fst (sort_key fst fs)) = distinct (map fst fs)"
  by (induction fs) (auto simp: distinct_insort)

lemma exact_normal: "encodable v \<Longrightarrow> wf_val v \<Longrightarrow> exact (normal v)"
proof (induction v)
  case (PDict d)
  have "exact (normal (snd f))" if "f \<in> set d" for f
  proof -
    have "snd f \<in> Basic_BNFs.snds f" by (cases f) (auto intro: Basic_BNFs.snds.intros)
    then show ?thesis using PDict.IH [OF that] PDict.prems that by (simp add: list_all_iff)
  qed
  moreover have "distinct (map fst (map (\<lambda>f. (fst f, normal (snd f))) d))" using PDict.prems(2) by (simp add: comp_def)
  ultimately show ?case by (simp add: distinct_sorted list_all_iff)
qed (auto simp: list_all_iff)

lemma render_loads:
  assumes "is_normal v" "exact v"
  shows "json_loads h (render v) = Some v"
proof -
  have "parse_value h (2 * length (render v) + 1) (render v @ []) = Some (v, [])"
    by (rule readsD [OF render_reads [OF assms]]) (simp_all add: closes_def)
  moreover have "skip_ws (render v) = render v" using skip_ws_start [OF assms(1), of "[]"] by simp
  ultimately show ?thesis by (simp add: json_loads_def skip_ws_def)
qed

text \<open>
  Claim C36: \<^verbatim>\<open>json.loads\<close> reads back what \<^verbatim>\<open>canonical_json\<close> writes, as a JSON value: tuples come back as lists and
  objects with sorted keys. That holds with and without the hooks against repeated keys and special constants.
\<close>

theorem canonical_json_reads_back:
  assumes "canonical_json v = Inr s" "wf_val v"
  shows "json_loads h s = Some (normal v)"
proof -
  have e: "json_enc v = Inr s" using assms(1) by (auto simp: canonical_json_def rcatch_Inr)
  then have s: "s = render (normal v)" "is_normal (normal v)" using json_enc_render by blast+
  have "encodable v" using e json_enc_ok [of v] by simp
  then have "exact (normal v)" using assms(2) by (rule exact_normal)
  then show ?thesis unfolding s(1) by (rule render_loads [OF s(2)])
qed

lemma canonical_json_reads_back_witness:
  "json_loads strict_json (render (PDict [(''a'', PList [PInt (-12), PNone]), (''b'', PStr ''x'')]))
     = Some (PDict [(''a'', PList [PInt (-12), PNone]), (''b'', PStr ''x'')])"
proof -
  let ?v = "PDict [(''b'', PStr ''x''), (''a'', PTuple [PInt (-12), PNone])]"
  have no: "\<not> has_surrogate ''a''" "\<not> has_surrogate ''b''" "\<not> has_surrogate ''x''" by (simp_all add: text_eval)
  have "length (nat_digits 12) \<le> 4300" by (simp add: nat_digits.simps)
  then have "encodable ?v" using no by simp
  then obtain s where e: "json_enc ?v = Inr s" using json_enc_ok [of ?v] by (auto simp only: is_ok_iff)
  then have s: "canonical_json ?v = Inr s" by (simp only: canonical_json_def rcatch_simps)
  moreover have n: "normal ?v = PDict [(''a'', PList [PInt (-12), PNone]), (''b'', PStr ''x'')]" by simp
  moreover have "s = render (normal ?v)" using json_enc_render [OF e] by (rule conjunct1)
  ultimately show ?thesis using canonical_json_reads_back [OF s, of strict_json] by simp
qed

end
