(* ===== verification/Github_Reading_Facts.thy ===== *)
theory Github_Reading_Facts
  imports Github_Reading Effect_Relations Json_Roundtrip
begin

text \<open>What a successful reading establishes about the bytes it returns, and which requests any reading sends.\<close>

section \<open>Accepted responses\<close>

lemma validate_oid_Inr [simp]: "validate_oid (PStr s) m = Inr u \<longleftrightarrow> is_hex40 s"
  by (simp add: validate_oid_def)

lemma is_oid_PStr: "is_oid v \<longleftrightarrow> (\<exists>s. v = PStr s \<and> is_hex40 s)"
  by (cases v) (auto simp: is_oid_def)

lemma check_request_Inr:
  assumes "check_request q = Inr u"
  shows "is_str (sq_owner q)" "is_str (sq_repository q)" "is_oid (sq_commit q)"
    "sq_paths q = PNone \<or> (\<exists>ps. sq_paths q = PTuple (map PStr ps) \<and> sorted ps \<and> distinct ps \<and> ps \<noteq> [])"
proof -
  show "is_str (sq_owner q)" "is_str (sq_repository q)" "is_oid (sq_commit q)"
    using assms by (auto simp: check_request_def validate_owner_def validate_repository_def validate_oid_def is_oid_def)
  have v: "validate_selected_paths (sq_paths q) = Inr ()" using assms by (auto simp: check_request_def)
  show "sq_paths q = PNone \<or> (\<exists>ps. sq_paths q = PTuple (map PStr ps) \<and> sorted ps \<and> distinct ps \<and> ps \<noteq> [])"
  proof (cases "sq_paths q")
    case (PTuple vs)
    then have ok: "vs \<noteq> []" "list_all is_safe_tree_path vs" "sorted (map str_of vs)" "distinct (map str_of vs)"
      using v by (auto simp: validate_selected_paths_def Let_def)
    have "map PStr (map str_of vs) = vs"
      using ok(2) by (auto simp: list_all_iff is_safe_tree_path_def Let_def is_str_iff intro!: map_idI)
    then show ?thesis using PTuple ok by (intro disjI2 exI [of _ "map str_of vs"]) simp
  qed (use v in \<open>auto simp: validate_selected_paths_def Let_def\<close>)
qed

lemma selected_paths_PTuple: "sq_paths q = PTuple (map PStr ps) \<Longrightarrow> selected_paths q = Some ps"
  by (simp add: selected_paths_def comp_def)

lemma selected_paths_PNone: "sq_paths q = PNone \<Longrightarrow> selected_paths q = None"
  by (simp add: selected_paths_def)

lemma parse_github_commit_Inr:
  assumes "parse_github_commit (Some q) v = Inr c"
  shows "cc_commit c = str_of (sq_commit q)" "cc_owner c = str_of (sq_owner q)" "cc_repository c = str_of (sq_repository q)"
    "fld v ''sha'' = PStr (cc_commit c)" "fld (fld (fld v ''commit'') ''tree'') ''sha'' = PStr (cc_tree c)"
proof -
  show *: "cc_commit c = str_of (sq_commit q)" "cc_owner c = str_of (sq_owner q)" "cc_repository c = str_of (sq_repository q)"
    using assms by (auto simp: parse_github_commit_def check_commit_claim_def Let_def)
  show "fld (fld (fld v ''commit'') ''tree'') ''sha'' = PStr (cc_tree c)"
    using assms by (auto simp: parse_github_commit_def check_commit_claim_def Let_def is_oid_PStr)
  have "is_oid (fld v ''sha'')" "py_eq (fld v ''sha'') (sq_commit q)"
    using assms by (auto simp: parse_github_commit_def Let_def)
  then show "fld v ''sha'' = PStr (cc_commit c)" using * by (cases "sq_commit q") (auto simp: is_oid_PStr)
qed

lemma read_response_Inr:
  assumes "read_response bound r = Inr v"
  shows "\<exists>body. r = Response (PInt 200) (Some body) \<and> length body \<le> bound \<and> json_decode strict_json body = Some v"
proof (cases r)
  case (Response status body)
  have s: "is_int status" "int_of status = 200" "body \<noteq> None"
    "\<not> length (the body) > bound" "json_decode strict_json (the body) = Some v"
    using assms Response by (auto simp: read_response_def Let_def split: option.splits)
  have "status = PInt 200" using s(1,2) by (cases status) simp_all
  then show ?thesis using s Response by auto
qed (use assms in \<open>simp add: read_response_def Let_def\<close>)

lemma get_json_Inr:
  assumes "get_json t path bound w = (Inr v, w')"
  shows "\<exists>body. t (api_request path bound) w = (Inr (Response (PInt 200) (Some body)), w') \<and> length body \<le> bound
    \<and> json_decode strict_json body = Some v"
proof -
  obtain r u where r: "t (api_request path bound) w = (r, u)" by fastforce
  show ?thesis
  proof (cases r)
    case (Inr x)
    then have "read_response bound x = Inr v" "u = w'" using assms r by (auto simp: get_json_def ebind_def ecatch_def)
    then show ?thesis using read_response_Inr [of bound x v] r Inr by blast
  qed (use assms r in \<open>simp add: get_json_def ebind_def ecatch_def\<close>)
qed

text \<open>What the transport said of the commit.\<close>

definition commit_answered :: "'w transport \<Rightarrow> snapshot_request \<Rightarrow> 'w \<Rightarrow> string \<Rightarrow> string \<Rightarrow> bool" where
  "commit_answered t q w commit tree \<longleftrightarrow> (\<exists>body v w'.
     t (api_request (repository_path q @ ''/commits/'' @ str_of (sq_commit q)) max_commit_response_bytes) w
       = (Inr (Response (PInt 200) (Some body)), w') \<and>
     length body \<le> max_commit_response_bytes \<and> json_decode strict_json body = Some v \<and>
     fld v ''sha'' = PStr commit \<and> fld (fld (fld v ''commit'') ''tree'') ''sha'' = PStr tree)"

lemma read_commit_answered:
  assumes "read_commit t q w = (Inr claim, w')"
  shows "cc_commit claim = str_of (sq_commit q)" "commit_answered t q w (cc_commit claim) (cc_tree claim)"
proof -
  obtain v where v: "get_json t (repository_path q @ ''/commits/'' @ str_of (sq_commit q)) max_commit_response_bytes w = (Inr v, w')"
      "parse_github_commit (Some q) v = Inr claim"
    using assms by (auto simp: read_commit_def ebind_def elift_def split: prod.splits sum.splits)
  show "cc_commit claim = str_of (sq_commit q)" by (rule parse_github_commit_Inr(1) [OF v(2)])
  show "commit_answered t q w (cc_commit claim) (cc_tree claim)"
    using get_json_Inr [OF v(1)] parse_github_commit_Inr(4,5) [OF v(2)] unfolding commit_answered_def by blast
qed

lemma parse_github_tree_Inr:
  assumes "parse_github_tree (Some c) v = Inr tree"
  shows "tc_tree tree = cc_tree c" "listing_ok (tc_entries tree)" "verify_git_tree_entries (tc_tree tree) (tc_entries tree) = Inr ()"
  using assms parse_tree_entries_ok
  by (auto simp: parse_github_tree_def check_tree_claim_def Let_def split: option.splits)

lemma check_blob_Inr: "check_blob b = Inr c \<Longrightarrow> c = b"
  unfolding check_blob_def unless_Inr rbind_Inr by (elim conjE exE) simp

lemma parse_github_blob_Inr:
  assumes "parse_github_blob (Some e) v (Some u) = Inr b"
  shows "is_blob e" "bl_path b = te_path e" "bl_mode b = te_mode e" "bl_sha b = te_sha e"
    "git_oid ''blob'' (bl_content b) = te_sha e" "bl_size b = int (length (bl_content b))" "u + bl_size b \<le> int max_total_bytes"
proof -
  obtain content where w: "Option.bind (join_wire_lines (str_of (fld v ''content''))) b64decode = Some content"
    using assms by (cases "Option.bind (join_wire_lines (str_of (fld v ''content''))) b64decode")
      (simp_all only: parse_github_blob_def Let_def option.case unless_Inr, blast)
  have *: "te_type e = ''blob'' \<and> git_oid ''blob'' content = te_sha e \<and> u + int (length content) \<le> int max_total_bytes \<and>
      b = \<lparr>bl_path = te_path e, bl_mode = te_mode e, bl_sha = te_sha e, bl_size = int (length content), bl_content = content,
        bl_digest = sha256_bytes content, bl_origin = rest_origin\<rparr>"
    using assms unfolding parse_github_blob_def Let_def option.case w unless_Inr not_not not_less
    by (elim conjE) (intro conjI check_blob_Inr; assumption)
  then show "is_blob e" "bl_path b = te_path e" "bl_mode b = te_mode e" "bl_sha b = te_sha e"
    "git_oid ''blob'' (bl_content b) = te_sha e" "bl_size b = int (length (bl_content b))" "u + bl_size b \<le> int max_total_bytes"
    by (simp_all add: is_blob_def)
qed

lemma startswith_trans: "startswith s t \<Longrightarrow> startswith t p \<Longrightarrow> startswith s p"
  by (auto simp: startswith_iff)

lemma first_line: "startswith s (hd (split_on d s))"
  by (induction s) (auto split: list.splits)

lemma startswith_take: "startswith (take n s) p \<Longrightarrow> startswith s p"
  by (metis append.assoc append_take_drop_id startswith_iff)

lemma parse_git_commit_object_Inr:
  assumes "parse_git_commit_object (Some c) raw = Inr g"
  shows "go_commit g = cc_commit c" "go_tree g = cc_tree c"
    "\<exists>b. raw = Some b \<and> git_oid ''commit'' b = cc_commit c \<and> startswith b (''tree '' @ cc_tree c)"
proof -
  obtain b n where b: "raw = Some b" "find_in [CHR 0x0A, CHR 0x0A] b = Some n"
    using assms by (auto simp: parse_git_commit_object_def Let_def split: option.splits)
  let ?line = "hd (split_on (CHR 0x0A) (take n b))"
  have ok: "startswith ?line ''tree ''" "git_oid ''commit'' b = cc_commit c" "drop 5 ?line = cc_tree c"
      "g = \<lparr>go_commit = git_oid ''commit'' b, go_tree = drop 5 ?line\<rparr>"
    using assms unfolding b(1) by (auto simp: parse_git_commit_object_def check_commit_object_def Let_def b(2))
  then show "go_commit g = cc_commit c" "go_tree g = cc_tree c" by simp_all
  have "?line = ''tree '' @ cc_tree c" using ok(1,3) by (auto simp: startswith_iff)
  then have "startswith b (''tree '' @ cc_tree c)"
    using startswith_take [OF first_line [of "take n b" "CHR 0x0A"]] by (simp only:)
  then show "\<exists>b. raw = Some b \<and> git_oid ''commit'' b = cc_commit c \<and> startswith b (''tree '' @ cc_tree c)"
    using b ok by blast
qed

section \<open>The steps of a reading\<close>

definition file_of_entry :: "tree_entry \<Rightarrow> string \<times> string \<times> string \<Rightarrow> bool" where
  "file_of_entry e f \<longleftrightarrow> is_blob e \<and> fst f = te_path e \<and> fst (snd f) = te_mode e \<and> git_oid ''blob'' (snd (snd f)) = te_sha e"

lemma read_blobs_Inr: "read_blobs t q u es w = (Inr fs, v) \<Longrightarrow> list_all2 file_of_entry es fs"
proof (induction es arbitrary: u w fs)
  case (Cons e es)
  obtain x b gs z where s: "parse_github_blob (Some e) x (Some u) = Inr b" "read_blobs t q (u + bl_size b) es z = (Inr gs, v)"
      "fs = (bl_path b, te_mode e, bl_content b) # gs"
    using Cons.prems by (auto simp del: ebind_elift_apply)
  have "file_of_entry e (bl_path b, te_mode e, bl_content b)"
    using parse_github_blob_Inr [OF s(1)] by (simp add: file_of_entry_def)
  then show ?case using Cons.IH [OF s(2)] s(3) by simp
qed simp

lemma paired: "list_all2 P xs ys \<Longrightarrow> y \<in> set ys \<Longrightarrow> \<exists>x\<in>set xs. P x y"
  by (induction rule: list_all2_induct) auto

lemma paired_map: "list_all2 P xs ys \<Longrightarrow> (\<And>x y. P x y \<Longrightarrow> g y = f x) \<Longrightarrow> map g ys = map f xs"
  by (induction rule: list_all2_induct) auto

lemma map_sort_key: "map f (sort_key f xs) = sort (map f xs)"
proof (induction xs)
  case (Cons x xs)
  have "map f (insort_key f x ys) = insort (f x) (map f ys)" for ys by (induction ys) auto
  then show ?case using Cons by simp
qed simp

lemma map_res_pairs: "map_res f xs = Inr ys \<Longrightarrow> list_all2 (\<lambda>x y. f x = Inr y) xs ys"
  by (induction xs arbitrary: ys) (auto split: sum.splits)

lemma check_contents_Inr:
  assumes "check_contents c = Inr d"
  shows "d = c" "sorted (map bl_path (ct_files c))" "distinct (map bl_path (ct_files c))"
    "sc_paths (ct_claim c) = PNone \<or> sc_paths (ct_claim c) = PTuple (map PStr (map bl_path (ct_files c)))"
    "sum_list (map bl_size (ct_files c)) \<le> int max_total_bytes"
    "snapshot_content_digest (map blob_file (ct_files c)) = Inr (sc_digest (ct_claim c))"
    "find_credential_pattern_content (Some (map (\<lambda>b. ScanFile (bl_path b) (bl_content b)) (ct_files c))) = Inr []"
    "\<forall>g. ct_commit c = Some g \<longrightarrow> go_commit g = sc_commit (ct_claim c) \<and> go_tree g = sc_tree (ct_claim c)"
proof -
  have *: "d = c \<and> sorted (map bl_path (ct_files c)) \<and> distinct (map bl_path (ct_files c)) \<and>
    (sc_paths (ct_claim c) = PNone \<or> sc_paths (ct_claim c) = PTuple (map PStr (map bl_path (ct_files c)))) \<and>
    sum_list (map bl_size (ct_files c)) \<le> int max_total_bytes \<and>
    snapshot_content_digest (map blob_file (ct_files c)) = Inr (sc_digest (ct_claim c))"
    using assms unfolding check_contents_def Let_def unless_Inr rbind_Inr not_le not_less de_Morgan_disj not_not sum.inject
    by (elim conjE exE) (intro conjI; (simp only:)?; blast?)
  show "d = c" "sorted (map bl_path (ct_files c))" "distinct (map bl_path (ct_files c))"
    "sc_paths (ct_claim c) = PNone \<or> sc_paths (ct_claim c) = PTuple (map PStr (map bl_path (ct_files c)))"
    "sum_list (map bl_size (ct_files c)) \<le> int max_total_bytes"
    "snapshot_content_digest (map blob_file (ct_files c)) = Inr (sc_digest (ct_claim c))"
    using * by blast+
  show "\<forall>g. ct_commit c = Some g \<longrightarrow> go_commit g = sc_commit (ct_claim c) \<and> go_tree g = sc_tree (ct_claim c)"
    using assms by (auto simp only: check_contents_def Let_def unless_Inr option.case de_Morgan_disj not_not)
  have unit: "m = Inr u \<Longrightarrow> m = Inr ()" for m :: "unit res" and u by simp
  have "rcatch (assert_no_credential_pattern_content (Some (map (\<lambda>b. ScanFile (bl_path b) (bl_content b)) (ct_files c))))
      (\<lambda>e. if exn_class e = CredentialLeakDetected then Inl (snapshot_error ''credential-shaped content detected'') else Inl e) = Inr ()"
    using assms unfolding check_contents_def Let_def unless_Inr rbind_Inr by (elim conjE exE) (rule unit)
  then have "assert_no_credential_pattern_content (Some (map (\<lambda>b. ScanFile (bl_path b) (bl_content b)) (ct_files c))) = Inr ()"
    unfolding rcatch_Inr by (auto split: if_splits)
  then show "find_credential_pattern_content (Some (map (\<lambda>b. ScanFile (bl_path b) (bl_content b)) (ct_files c))) = Inr []"
    by (simp add: assert_no_credential_pattern_content_def)
qed

lemma bind_contents_Inr:
  assumes "bind_contents q tree commit files = Inr c"
  shows "sc_commit (ct_claim c) = str_of (sq_commit q)" "sc_tree (ct_claim c) = tc_tree tree" "sc_paths (ct_claim c) = sq_paths q"
    "ct_commit c = commit" "check_contents c = Inr c"
    "list_all2 (\<lambda>f b. blob_of_file (filter is_blob (tc_entries tree)) f = Inr b) (sort_key fst files) (ct_files c)"
proof -
  let ?claim = "\<lambda>d. \<lparr>sc_owner = str_of (sq_owner q), sc_repository = str_of (sq_repository q),
      sc_commit = str_of (sq_commit q), sc_tree = tc_tree tree, sc_digest = d, sc_paths = sq_paths q, sc_origin = rest_origin\<rparr>"
  obtain d claim blobs where b: "check_snapshot_claim (?claim d) = Inr claim"
      "map_res (blob_of_file (filter is_blob (tc_entries tree))) (sort_key fst files) = Inr blobs"
      "check_contents \<lparr>ct_claim = claim, ct_files = blobs, ct_commit = commit\<rparr> = Inr c"
    using assms unfolding bind_contents_def rbind_Inr by blast
  have "claim = ?claim d" using b(1) unfolding check_snapshot_claim_def unless_Inr rbind_Inr by (elim conjE exE) simp
  moreover have "c = \<lparr>ct_claim = claim, ct_files = blobs, ct_commit = commit\<rparr>" by (rule check_contents_Inr(1) [OF b(3)])
  ultimately show "sc_commit (ct_claim c) = str_of (sq_commit q)" "sc_tree (ct_claim c) = tc_tree tree" "sc_paths (ct_claim c) = sq_paths q"
      "ct_commit c = commit" "check_contents c = Inr c"
      "list_all2 (\<lambda>f b. blob_of_file (filter is_blob (tc_entries tree)) f = Inr b) (sort_key fst files) (ct_files c)"
    using b(3) map_res_pairs [OF b(2)] by simp_all
qed

lemma blob_of_file_Inr: "blob_of_file blobs f = Inr b \<Longrightarrow> bl_path b = fst f \<and> bl_mode b = fst (snd f) \<and> bl_content b = snd (snd f) \<and>
    bl_sha b = git_oid ''blob'' (bl_content b)"
proof (cases f)
  case (fields p m x)
  assume a: "blob_of_file blobs f = Inr b"
  let ?b = "\<lparr>bl_path = p, bl_mode = m, bl_sha = te_sha (the (map_of (map (\<lambda>e. (te_path e, e)) blobs) p)),
       bl_size = int (length x), bl_content = x, bl_digest = sha256_bytes x, bl_origin = rest_origin\<rparr>"
  have c: "check_blob ?b = Inr b" using a fields by (simp add: blob_of_file_def)
  then have "bl_sha ?b = git_oid ''blob'' (bl_content ?b)"
    unfolding check_blob_def unless_Inr rbind_Inr not_not by (elim conjE exE)
  then show ?thesis using check_blob_Inr [OF c] fields by simp
qed

lemma missing_selected:
  assumes "distinct (map te_path blobs)" "\<not> missing_path q blobs" "e \<in> set (selected_entries q blobs)"
  shows "e \<in> set blobs"
proof (cases "selected_paths q")
  case (Some ps)
  obtain p where p: "p \<in> set ps" "e = the (map_of (map (\<lambda>e. (te_path e, e)) blobs) p)"
    using assms(3) Some by (auto simp: selected_entries_def)
  obtain f where f: "f \<in> set blobs" "te_path f = p" using assms(2) Some p(1) by (force simp: missing_path_def)
  have "map_of (map (\<lambda>e. (te_path e, e)) blobs) p = Some f"
    using assms(1) f by (intro map_of_is_SomeI) (auto simp: comp_def)
  then show ?thesis using p f by simp
qed (use assms(3) in \<open>simp add: selected_entries_def\<close>)

lemma reading_steps:
  assumes "read_github_snapshot_contents (Some q) (Some t) source w = (Inr c, w')"
  obtains claim commit tree files u1 u2 u3 u4 where "check_request q = Inr ()" "read_commit t q w = (Inr claim, u1)"
    "read_commit_object source claim u1 = (Inr commit, u2)"
    "\<exists>x. parse_github_tree (Some claim) x = Inr tree" "\<not> missing_path q (filter is_blob (tc_entries tree))"
    "read_blobs t q 0 (selected_entries q (filter is_blob (tc_entries tree))) u3 = (Inr files, u4)"
    "bind_contents q tree commit files = Inr c"
proof -
  have o: "check_request q = Inr ()" "open_request (Some q) (Some t) = Inr (q, t)"
    using assms by (auto simp: read_github_snapshot_contents_def open_request_def Let_def rcatch_Inr split: sum.splits)
  obtain claim u1 commit u2 tree u3 files u4 where
      s: "read_commit t q w = (Inr claim, u1)" "read_commit_object source claim u1 = (Inr commit, u2)"
        "read_tree t q claim u2 = (Inr tree, u3)" "\<not> missing_path q (filter is_blob (tc_entries tree))"
        "read_blobs t q 0 (selected_entries q (filter is_blob (tc_entries tree))) u3 = (Inr files, u4)"
        "bind_contents q tree commit files = Inr c"
    using assms unfolding read_github_snapshot_contents_def Let_def
    by (auto simp del: ebind_elift_apply simp: o)
  obtain x where x: "parse_github_tree (Some claim) x = Inr tree"
    using s(3) by (auto simp: read_tree_def simp del: ebind_elift_apply)
  show thesis by (rule that [OF o(1) s(1,2) _ s(4,5,6)]) (use x in blast)
qed

lemma read_commit_object_Inr:
  assumes "read_commit_object source c u = (Inr commit, v)" "source \<noteq> NoSource"
  shows "\<exists>b. git_oid ''commit'' b = cc_commit c \<and> startswith b (''tree '' @ cc_tree c)"
proof -
  obtain f where f: "source = Source f" using assms by (cases source) (auto simp: read_commit_object_def)
  let ?m = "ebind (f c) (\<lambda>raw. ebind (elift (parse_git_commit_object (Some c) raw)) (\<lambda>g. eret (Some g)))"
  obtain r z where r: "?m u = (r, z)" by (meson surj_pair)
  then have "ecatch ?m (\<lambda>_. elift (Inl (snapshot_error ''commit object is invalid''))) u = (Inr commit, v)"
    using assms(1) by (simp add: read_commit_object_def f)
  then obtain x where "r = Inr x" using r by (cases r) (auto simp: ecatch_def)
  then obtain raw g where "parse_git_commit_object (Some c) raw = Inr g" using r by (auto simp del: ebind_elift_apply)
  then show ?thesis using parse_git_commit_object_Inr(3) by blast
qed

section \<open>What the contents are\<close>

text \<open>
  Claim C38: the contents a successful reading returns are files of the tree that the API's answer for the requested
  commit names. Each of them is the Git blob that an entry of an accepted listing names, with its path and mode; the
  listing is the tree of the claim; the paths are the selected ones, or all files of the tree; the claim's digest is that
  of the files, which are within the size bound and free of credential patterns. That the tree belongs to the commit
  is what the transport answered (\<open>commit_answered\<close>: a response 200 within its bound, whose JSON has the requested commit
  and names this tree): without a source of the raw commit, a plain claim of the API. With one, bytes that hash to the
  requested commit name that tree.
\<close>

theorem contents_are_verified:
  assumes "read_github_snapshot_contents (Some q) (Some t) source w = (Inr c, w')"
  shows "\<exists>es. sc_commit (ct_claim c) = str_of (sq_commit q) \<and> listing_ok es
    \<and> verify_git_tree_entries (sc_tree (ct_claim c)) es = Inr ()
    \<and> list_all (\<lambda>b. git_oid ''blob'' (bl_content b) = bl_sha b \<and>
        (bl_path b, bl_mode b, ''blob'', bl_sha b) \<in> core_of ` set es) (ct_files c)
    \<and> map bl_path (ct_files c) = (case selected_paths q of None \<Rightarrow> sort (map te_path (filter is_blob es)) | Some ps \<Rightarrow> ps)
    \<and> snapshot_content_digest (map blob_file (ct_files c)) = Inr (sc_digest (ct_claim c))
    \<and> sum_list (map bl_size (ct_files c)) \<le> int max_total_bytes
    \<and> find_credential_pattern_content (Some (map (\<lambda>b. ScanFile (bl_path b) (bl_content b)) (ct_files c))) = Inr []
    \<and> commit_answered t q w (sc_commit (ct_claim c)) (sc_tree (ct_claim c))
    \<and> (source = NoSource \<or> (\<exists>raw. git_oid ''commit'' raw = sc_commit (ct_claim c) \<and>
        startswith raw (''tree '' @ sc_tree (ct_claim c))))"
proof -
  obtain claim commit tree files u1 u2 u3 u4 where s: "check_request q = Inr ()" "read_commit t q w = (Inr claim, u1)"
      "read_commit_object source claim u1 = (Inr commit, u2)"
      "\<exists>x. parse_github_tree (Some claim) x = Inr tree" "\<not> missing_path q (filter is_blob (tc_entries tree))"
      "read_blobs t q 0 (selected_entries q (filter is_blob (tc_entries tree))) u3 = (Inr files, u4)"
      "bind_contents q tree commit files = Inr c"
    by (rule reading_steps [OF assms])
  let ?es = "tc_entries tree" and ?blobs = "filter is_blob (tc_entries tree)"
  have tree: "tc_tree tree = cc_tree claim" "listing_ok ?es" "verify_git_tree_entries (tc_tree tree) ?es = Inr ()"
    using s(4) parse_github_tree_Inr by blast+
  note b = bind_contents_Inr [OF s(7)] and k = check_contents_Inr [OF bind_contents_Inr(5) [OF s(7)]]
  note commit = read_commit_answered [OF s(2)]
  have api: "commit_answered t q w (sc_commit (ct_claim c)) (sc_tree (ct_claim c))"
    using commit b(1,2) tree(1) by simp
  have fe: "list_all2 file_of_entry (selected_entries q ?blobs) files" by (rule read_blobs_Inr [OF s(6)])
  have in_blobs: "e \<in> set ?blobs" if "e \<in> set (selected_entries q ?blobs)" for e
    using missing_selected [OF _ s(5) that] tree(2) by (simp add: listing_ok_def distinct_map_filter)
  have core: "git_oid ''blob'' (bl_content d) = bl_sha d \<and> (bl_path d, bl_mode d, ''blob'', bl_sha d) \<in> core_of ` set ?es"
    if d: "d \<in> set (ct_files c)" for d
  proof -
    obtain f where f: "f \<in> set (sort_key fst files)" "blob_of_file ?blobs f = Inr d"
      using paired [OF b(6) d] by blast
    then have "f \<in> set files" by simp
    then obtain e where e: "e \<in> set (selected_entries q ?blobs)" "file_of_entry e f" using paired [OF fe] by blast
    note o = blob_of_file_Inr [OF f(2)]
    have "(bl_path d, bl_mode d, ''blob'', bl_sha d) = core_of e"
      using o e(2) by (simp add: file_of_entry_def core_of_def is_blob_def)
    then show ?thesis using o in_blobs [OF e(1)] by auto
  qed
  have same: "map bl_path (ct_files c) = map fst (sort_key fst files)"
    by (rule paired_map [OF b(6)]) (use blob_of_file_Inr in blast)
  have paths: "map bl_path (ct_files c) = (case selected_paths q of None \<Rightarrow> sort (map te_path ?blobs) | Some ps \<Rightarrow> ps)"
  proof (cases "sq_paths q = PNone")
    case True
    have "map fst files = map te_path (selected_entries q ?blobs)"
      by (rule paired_map [OF fe]) (simp add: file_of_entry_def)
    then show ?thesis using same True by (simp add: map_sort_key selected_paths_PNone selected_entries_def)
  next
    case False
    then obtain ps where ps: "sq_paths q = PTuple (map PStr ps)" using check_request_Inr(4) [OF s(1)] by blast
    then have "PTuple (map PStr ps) = PTuple (map PStr (map bl_path (ct_files c)))" using k(4) b(3) by simp
    then have "map bl_path (ct_files c) = ps" by (simp add: inj_map_eq_map inj_def del: map_map)
    then show ?thesis unfolding selected_paths_PTuple [OF ps] option.case .
  qed
  have raw: "source = NoSource \<or> (\<exists>raw. git_oid ''commit'' raw = sc_commit (ct_claim c) \<and>
      startswith raw (''tree '' @ sc_tree (ct_claim c)))"
    using read_commit_object_Inr [OF s(3)] commit(1) b(1,2) tree(1) by auto
  show ?thesis
    by (rule exI [of _ ?es], intro conjI) (use b(1,2) tree(2,3) core paths k(5,6,7) raw api in \<open>simp_all add: list_all_iff\<close>)
qed

text \<open>A repository with one commit of one empty file, served by a transport that counts its calls.\<close>

definition empty_oid :: string where
  "empty_oid = git_oid ''blob'' []"

definition empty_file :: tree_entry where
  "empty_file = \<lparr>te_path = ''a'', te_mode = ''100644'', te_type = ''blob'', te_sha = empty_oid, te_size = None\<rparr>"

definition example_root :: string where
  "example_root = git_oid ''tree'' (tree_payload [(empty_file, empty_oid)])"

definition example_commit_bytes :: string where
  "example_commit_bytes = (''tree '' @ example_root) @ [CHR 0x0A, CHR 0x0A] @ ''one empty file''"

definition example_commit_oid :: string where
  "example_commit_oid = git_oid ''commit'' example_commit_bytes"

definition example_request :: snapshot_request where
  "example_request = \<lparr>sq_owner = PStr ''o'', sq_repository = PStr ''r'', sq_commit = PStr example_commit_oid,
     sq_paths = PNone, sq_origin = PStr rest_origin\<rparr>"

definition example_claim :: commit_claim where
  "example_claim = \<lparr>cc_owner = ''o'', cc_repository = ''r'', cc_commit = example_commit_oid, cc_tree = example_root,
     cc_origin = rest_origin\<rparr>"

definition example_answers :: "pyval list" where
  "example_answers =
     [PDict [(''commit'', PDict [(''tree'', PDict [(''sha'', PStr example_root)])]), (''sha'', PStr example_commit_oid)],
      PDict [(''sha'', PStr example_root),
             (''tree'', PList [PDict [(''mode'', PStr ''100644''), (''path'', PStr ''a''), (''sha'', PStr empty_oid), (''type'', PStr ''blob'')]]),
             (''truncated'', PBool False)],
      PDict [(''content'', PStr []), (''encoding'', PStr ''base64''), (''sha'', PStr empty_oid), (''size'', PInt 0)]]"

definition example_transport :: "nat transport" where
  "example_transport r = (\<lambda>n. (Inr (Response (PInt 200) (Some (render (example_answers ! n)))), Suc n))"

lemma json_body_hex: "is_hex40 s \<Longrightarrow> json_body s = s"
proof -
  have "json_char c = [c]" if "is_lower_hex c" for c
    using that by (auto simp: json_char_def is_lower_hex_def)
  then have "list_all is_lower_hex t \<Longrightarrow> concat (map json_char t) = t" for t by (induction t) auto
  then show "is_hex40 s \<Longrightarrow> ?thesis" by (simp add: json_body_def is_hex40_def)
qed

lemma example_oids: "is_hex40 empty_oid" "is_hex40 example_root" "is_hex40 example_commit_oid"
  unfolding empty_oid_def example_root_def example_commit_oid_def by (rule git_oid_hex40)+

lemma hex40_facts: "is_hex40 s \<Longrightarrow> length s = 40 \<and> ascii s"
  by (simp add: is_hex40_def ascii_lower_hex)

lemma render_hex: "is_hex40 s \<Longrightarrow> render (PStr s) = CHR 0x22 # s @ [CHR 0x22]"
  by (simp add: json_str_def json_body_hex)

definition short_ascii :: "pyval \<Rightarrow> bool" where
  "short_ascii v \<longleftrightarrow> ascii (render v) \<and> length (render v) < 400 \<and> is_normal v \<and> exact v"

lemma example_answer_ok:
  assumes "is_hex40 r" "is_hex40 e" "is_hex40 c"
  shows
    "short_ascii (PDict [(''commit'', PDict [(''tree'', PDict [(''sha'', PStr r)])]), (''sha'', PStr c)])"
    "short_ascii (PDict [(''sha'', PStr r),
       (''tree'', PList [PDict [(''mode'', PStr ''100644''), (''path'', PStr ''a''), (''sha'', PStr e), (''type'', PStr ''blob'')]]),
       (''truncated'', PBool False)])"
    "short_ascii (PDict [(''content'', PStr []), (''encoding'', PStr ''base64''), (''sha'', PStr e), (''size'', PInt 0)])"
  using hex40_facts [OF assms(1)] hex40_facts [OF assms(2)] hex40_facts [OF assms(3)]
    json_body_hex [OF assms(1)] json_body_hex [OF assms(2)] json_body_hex [OF assms(3)]
  by (simp_all add: short_ascii_def wrap_dict_def wrap_list_def json_member_def json_str_def json_body_def json_char_def
      int_repr_def nat_digits.simps [of 0] dec_digit_def)

lemma example_decoded:
  assumes "n < 3"
  shows "json_decode strict_json (render (example_answers ! n)) = Some (example_answers ! n)"
    "length (render (example_answers ! n)) < 400"
proof -
  have "n \<in> set [0, 1, 2]" using assms by auto
  then have "short_ascii (example_answers ! n)"
    using example_answer_ok [OF example_oids(2,1,3)] by (auto simp: example_answers_def)
  then show "json_decode strict_json (render (example_answers ! n)) = Some (example_answers ! n)"
      "length (render (example_answers ! n)) < 400"
    by (simp_all add: short_ascii_def json_decode_def is_utf8_ascii render_loads)
qed

lemma example_get:
  assumes "n < 3" "400 \<le> bound"
  shows "get_json example_transport path bound n = (Inr (example_answers ! n), Suc n)"
proof -
  have "\<not> bound < length (render (example_answers ! n))" using example_decoded(2) [OF assms(1)] assms(2) by linarith
  then show ?thesis
    using example_decoded(1) [OF assms(1)]
    by (simp add: get_json_def example_transport_def read_response_def ebind_def ecatch_def Let_def)
qed

lemma example_commit: "read_commit example_transport example_request 0 =
    (Inr example_claim, 1)"
proof -
  have g: "get_json example_transport p max_commit_response_bytes 0 = (Inr (example_answers ! 0), 1)" for p
    using example_get [of 0 max_commit_response_bytes] by (simp add: max_commit_response_bytes_def)
  have "parse_github_commit (Some example_request) (example_answers ! 0) =
      Inr example_claim"
    using example_oids
    by (simp add: parse_github_commit_def example_answers_def is_oid_def check_commit_claim_def example_request_def validate_owner_def
        validate_repository_def is_owner_def is_repository_def is_alnum_def Let_def example_claim_def)
  then show ?thesis by (simp add: read_commit_def ebind_def g)
qed

lemma example_tree: "read_tree example_transport example_request
     example_claim 1 =
    (Inr \<lparr>tc_owner = ''o'', tc_repository = ''r'', tc_tree = example_root, tc_entries = [empty_file], tc_origin = rest_origin\<rparr>, 2)"
proof -
  have g: "get_json example_transport p max_tree_response_bytes 1 = (Inr (example_answers ! 1), 2)" for p
    using example_get [of 1 max_tree_response_bytes] by (simp add: max_tree_response_bytes_def)
  have safe: "is_safe_tree_path (PStr ''a'')" "normpath ''a'' = ''a''"
    by (simp_all add: is_safe_tree_path_def Let_def text_eval normpath_def root_of_def norm_add_def)
  have e: "parse_tree_entries [] [PDict [(''mode'', PStr ''100644''), (''path'', PStr ''a''), (''sha'', PStr empty_oid), (''type'', PStr ''blob'')]]
      = Inr [empty_file]"
    using safe example_oids by (simp add: parse_tree_entry_def Let_def blob_modes_def empty_file_def)
  have d: "declared_directories [empty_file] = []" "required_directories [empty_file] = []" "kids [] [empty_file] = [empty_file]"
      "is_tree empty_file = False" "te_sha empty_file = empty_oid"
    by (simp_all add: declared_directories_def required_directories_def kids_def is_tree_def empty_file_def parent_of_def ancestors_def Let_def)
  have v: "verify_git_tree_entries example_root [empty_file] = Inr ()"
    by (simp add: verify_git_tree_entries_def d child_oid_def example_root_def)
  have "parse_github_tree (Some example_claim)
      (example_answers ! 1) = Inr \<lparr>tc_owner = ''o'', tc_repository = ''r'', tc_tree = example_root, tc_entries = [empty_file], tc_origin = rest_origin\<rparr>"
    using example_oids
    by (simp add: parse_github_tree_def example_answers_def is_oid_def check_tree_claim_def e v max_files_def validate_owner_def
        validate_repository_def is_owner_def is_repository_def is_alnum_def Let_def example_claim_def del: parse_tree_entries.simps)
  then show ?thesis by (simp add: read_tree_def ebind_def g [simplified])
qed

definition empty_blob :: blob_claim where
  "empty_blob = \<lparr>bl_path = ''a'', bl_mode = ''100644'', bl_sha = empty_oid, bl_size = 0, bl_content = [], bl_digest = sha256_bytes [],
     bl_origin = rest_origin\<rparr>"

lemma empty_blob_ok: "check_blob empty_blob = Inr empty_blob"
proof -
  have "is_safe_tree_path (PStr ''a'')" by (simp add: is_safe_tree_path_def Let_def text_eval)
  moreover have "git_oid ''blob'' [] = empty_oid" by (simp add: empty_oid_def)
  ultimately show ?thesis using example_oids(1)
    by (simp add: check_blob_def empty_blob_def blob_modes_def max_file_bytes_def sha256_bytes_def snapshot_remote_origins_def)
qed

lemma example_blobs: "read_blobs example_transport example_request 0 [empty_file] 2 = (Inr [(''a'', ''100644'', [])], 3)"
proof -
  have g: "get_json example_transport p max_blob_wire_bytes 2 = (Inr (example_answers ! 2), 3)" for p
    using example_get [of 2 max_blob_wire_bytes] by (simp add: max_blob_wire_bytes_def max_file_bytes_def)
  have j: "Option.bind (join_wire_lines []) b64decode = Some []" by (simp add: join_wire_lines_def Let_def b64decode_def)
  have "git_oid ''blob'' [] = empty_oid" by (simp add: empty_oid_def)
  then have "parse_github_blob (Some empty_file) (example_answers ! 2) (Some 0) = Inr empty_blob"
    using empty_blob_ok
    by (simp add: parse_github_blob_def example_answers_def empty_file_def empty_blob_def Let_def j max_total_bytes_def)
  then show ?thesis by (simp add: ebind_def g empty_blob_def empty_file_def)
qed

lemma next_ends_nil: "next_ends f [] = []"
  by (simp add: next_ends_def)

lemma empty_content_clean: "assert_no_credential_pattern_content (Some [ScanFile ''a'' []]) = Inr ()"
proof -
  have start: "match_ends [] (folded (c # w)) i = []" "match_ends [] (words (c # w)) i = []" for c w i
    by (simp_all add: folded_def words_def lit_def next_ends_nil)
  have "\<forall>(name, r)\<in>set content_rules. match_ends [] r 0 = []"
    by (simp add: content_rules_def github_token_def aws_access_key_def private_key_pem_def credential_assignment_def any_of_def
        start next_ends_nil)
  then have "\<forall>(name, r)\<in>set content_rules. \<not> found r []" by (simp add: found_def)
  then have none: "filter (\<lambda>(_, r). found r []) content_rules = []" by (auto simp: filter_empty_conv)
  have path: "\<not> bad_scan_path ''a''" by (simp add: bad_scan_path_def text_eval max_snapshot_path_bytes_def)
  show ?thesis
    using path none by (simp add: assert_no_credential_pattern_content_def find_credential_pattern_content_def no_surrogate_ascii
        max_snapshot_files_def max_snapshot_file_bytes_def max_snapshot_total_bytes_def)
qed

lemma find_blank_line: "CHR 0x0A \<notin> set x \<Longrightarrow> find_in [CHR 0x0A, CHR 0x0A] (x @ [CHR 0x0A, CHR 0x0A] @ m) = Some (length x)"
  by (induction x) auto

lemma example_object: "parse_git_commit_object (Some example_claim) (Some example_commit_bytes)
    = Inr \<lparr>go_commit = example_commit_oid, go_tree = example_root\<rparr>"
proof -
  let ?line = "''tree '' @ example_root"
  have root: "length example_root = 40" "list_all is_lower_hex example_root" using example_oids(2) by (simp_all add: is_hex40_def)
  then have clean: "CHR 0x0A \<notin> set ?line" "CHR 0x0D \<notin> set ?line" "CHR 0x00 \<notin> set ?line"
    by (auto simp: list_all_iff is_lower_hex_def)
  have found: "find_in [CHR 0x0A, CHR 0x0A] example_commit_bytes = Some (length ?line)"
    unfolding example_commit_bytes_def by (rule find_blank_line [OF clean(1)])
  have raw: "take (length ?line) example_commit_bytes = ?line" "example_commit_bytes \<noteq> []" "length example_commit_bytes \<le> max_commit_bytes"
    using root(1) by (simp_all add: example_commit_bytes_def max_commit_bytes_def)
  have header: "header_lines_ok False [?line]" using root(1) by (auto simp: is_header_key_def)
  have check: "check_commit_object \<lparr>go_commit = example_commit_oid, go_tree = example_root\<rparr>
      = Inr \<lparr>go_commit = example_commit_oid, go_tree = example_root\<rparr>"
    using example_oids by (simp add: check_commit_object_def)
  show ?thesis
    unfolding parse_git_commit_object_def Let_def option.case found raw(1) split_on_no_sep [OF clean(1)]
    using clean raw(2,3) header check root(1) example_oids(2)
    by (simp add: example_claim_def example_commit_oid_def [symmetric] max_commit_header_bytes_def del: header_lines_ok.simps)
qed

definition example_source :: "nat commit_source" where
  "example_source = Source (\<lambda>_ n. (Inr (Some example_commit_bytes), n))"

lemma example_sources:
  "read_commit_object NoSource example_claim n = (Inr None, n)"
  "read_commit_object example_source example_claim n = (Inr (Some \<lparr>go_commit = example_commit_oid, go_tree = example_root\<rparr>), n)"
  by (simp_all add: read_commit_object_def example_source_def ecatch_def ebind_def example_object)

lemma example_contents:
  assumes source: "read_commit_object source example_claim 1 = (Inr commit, 1)"
    and object: "commit = None \<or> commit = Some \<lparr>go_commit = example_commit_oid, go_tree = example_root\<rparr>"
  shows "\<exists>c. read_github_snapshot_contents (Some example_request) (Some example_transport) source 0 = (Inr c, 3)"
proof -
  let ?tree = "\<lparr>tc_owner = ''o'', tc_repository = ''r'', tc_tree = example_root, tc_entries = [empty_file], tc_origin = rest_origin\<rparr>"
  have o: "open_request (Some example_request) (Some example_transport) = Inr (example_request, example_transport)"
    using example_oids(3)
    by (simp add: open_request_def check_request_def example_request_def validate_owner_def validate_repository_def validate_oid_def is_owner_def
        is_repository_def is_alnum_def validate_selected_paths_def Let_def)
  have b: "filter is_blob [empty_file] = [empty_file]" "selected_entries example_request [empty_file] = [empty_file]"
      "\<not> missing_path example_request [empty_file]" "\<not> oversized empty_file" "is_blob empty_file"
    by (simp_all add: is_blob_def empty_file_def selected_entries_def selected_paths_def missing_path_def example_request_def oversized_def)
  have "encodable (PDict [(''canonicalization'', PStr snapshot_canonicalization), (''files'', PList [PDict [(''path'', PStr ''a''),
      (''content_digest'', PStr (sha256_bytes [])), (''mode'', PStr ''100644'')]])])"
    by (simp add: snapshot_canonicalization_def text_eval sha256_bytes_def ascii_digest)
  then obtain d where d: "snapshot_content_digest [(''a'', ''100644'', [])] = Inr d" "is_digest d"
    using sha256_digest_encodable is_digest_digest_of by (force simp: snapshot_content_digest_def)
  have f: "blob_of_file [empty_file] (''a'', ''100644'', []) = Inr empty_blob"
    using empty_blob_ok by (simp add: blob_of_file_def empty_blob_def empty_file_def)
  let ?claim = "\<lparr>sc_owner = ''o'', sc_repository = ''r'', sc_commit = example_commit_oid, sc_tree = example_root, sc_digest = d,
     sc_paths = PNone, sc_origin = rest_origin\<rparr>"
  have c: "check_snapshot_claim ?claim = Inr ?claim"
    using example_oids d(2)
    by (simp add: check_snapshot_claim_def validate_owner_def validate_repository_def is_owner_def is_repository_def is_alnum_def
        validate_selected_paths_def snapshot_remote_origins_def Let_def)
  note scan = empty_content_clean
  have "check_contents \<lparr>ct_claim = ?claim, ct_files = [empty_blob], ct_commit = commit\<rparr>
      = Inr \<lparr>ct_claim = ?claim, ct_files = [empty_blob], ct_commit = commit\<rparr>"
    using d(1) scan object by (auto simp: check_contents_def Let_def empty_blob_def blob_file_def max_files_def max_total_bytes_def)
  then have "bind_contents example_request ?tree commit [(''a'', ''100644'', [])]
      = Inr \<lparr>ct_claim = ?claim, ct_files = [empty_blob], ct_commit = commit\<rparr>"
    using c f d(1) by (simp add: bind_contents_def b example_request_def)
  then show ?thesis
    by (simp add: read_github_snapshot_contents_def ebind_def o example_commit example_tree [simplified] example_blobs source [simplified] Let_def b
        eunless_def del: read_blobs.simps)
qed

text \<open>Both ways: the API's word for the tree of the commit, and the bytes of the commit.\<close>

theorem contents_are_verified_witness:
  "(\<exists>c es. read_github_snapshot_contents (Some example_request) (Some example_transport) NoSource 0 = (Inr c, 3)
      \<and> verify_git_tree_entries (sc_tree (ct_claim c)) es = Inr ()
      \<and> map bl_path (ct_files c) = sort (map te_path (filter is_blob es))
      \<and> commit_answered example_transport example_request 0 (sc_commit (ct_claim c)) (sc_tree (ct_claim c)))
   \<and> (\<exists>c es raw. read_github_snapshot_contents (Some example_request) (Some example_transport) example_source 0 = (Inr c, 3)
      \<and> verify_git_tree_entries (sc_tree (ct_claim c)) es = Inr ()
      \<and> map bl_path (ct_files c) = sort (map te_path (filter is_blob es))
      \<and> git_oid ''commit'' raw = sc_commit (ct_claim c) \<and> startswith raw (''tree '' @ sc_tree (ct_claim c)))"
proof -
  have all: "selected_paths example_request = None" by (simp add: selected_paths_def example_request_def)
  have source: "example_source \<noteq> NoSource" by (simp add: example_source_def)
  obtain c where c: "read_github_snapshot_contents (Some example_request) (Some example_transport) NoSource 0 = (Inr c, 3)"
    using example_contents [OF example_sources(1)] by blast
  obtain d where d: "read_github_snapshot_contents (Some example_request) (Some example_transport) example_source 0 = (Inr d, 3)"
    using example_contents [OF example_sources(2)] by blast
  show ?thesis
    using contents_are_verified [OF c] c contents_are_verified [OF d] d source unfolding all option.case by blast
qed

section \<open>Which requests are sent\<close>

definition logging :: "'w transport \<Rightarrow> ('w \<times> get_request list) transport" where
  "logging t r = (\<lambda>(w, log). case t r w of (x, v) \<Rightarrow> (x, (v, log @ [r])))"

definition unlogged_source :: "'w commit_source \<Rightarrow> ('w \<times> get_request list) commit_source" where
  "unlogged_source source = (case source of NoSource \<Rightarrow> NoSource | NotCallable \<Rightarrow> NotCallable
     | Source f \<Rightarrow> Source (\<lambda>c (w, log). case f c w of (x, v) \<Rightarrow> (x, (v, log))))"

definition repository_get :: "snapshot_request \<Rightarrow> get_request \<Rightarrow> bool" where
  "repository_get q r \<longleftrightarrow> gr_method r = ''GET'' \<and> \<not> gr_allow_redirects r \<and> gr_max_bytes r \<le> max_tree_response_bytes
     \<and> startswith (gr_url r) (''https://api.github.com/repos/'' @ str_of (sq_owner q) @ ''/'' @ str_of (sq_repository q) @ ''/'')"

definition only_gets :: "snapshot_request \<Rightarrow> 'w \<times> get_request list \<Rightarrow> 'w \<times> get_request list \<Rightarrow> bool" where
  "only_gets q z y \<longleftrightarrow> (\<exists>new. snd y = snd z @ new \<and> list_all (repository_get q) new)"

interpretation gets: preorder_rel "only_gets q" for q
  by unfold_locales (auto simp: only_gets_def)

lemma related_get:
  assumes "bound \<le> max_tree_response_bytes" "path = CHR ''/'' # rest"
  shows "related (only_gets q) (get_json (logging t) (repository_path q @ path) bound)"
proof -
  have "repository_get q (api_request (repository_path q @ path) bound)"
    using assms by (simp add: repository_get_def api_request_def api_base_def repository_path_def startswith_iff)
  then have "related (only_gets q) (logging t (api_request (repository_path q @ path) bound))"
    by (auto simp: related_def logging_def only_gets_def split: prod.split)
  then show ?thesis unfolding get_json_def by (intro gets.related_ebind gets.related_ecatch gets.related_elift)
qed

lemma get_bounds: "max_commit_response_bytes \<le> max_tree_response_bytes" "max_blob_wire_bytes \<le> max_tree_response_bytes"
  by (simp_all add: max_commit_response_bytes_def max_tree_response_bytes_def max_blob_wire_bytes_def max_file_bytes_def)

lemma related_read_blobs: "related (only_gets q) (read_blobs (logging t) q u es)"
proof (induction es arbitrary: u)
  case (Cons e es)
  then show ?case unfolding read_blobs.simps
    by (intro gets.related_ebind gets.related_elift gets.related_eret related_get get_bounds) simp_all
qed (simp add: gets.related_eret)

lemma related_source: "related (only_gets q) (read_commit_object (unlogged_source source) c)"
proof (cases source)
  case (Source f)
  have "related (only_gets q) (\<lambda>(w, log :: get_request list). case f c w of (x, v) \<Rightarrow> (x, (v, log)))"
    by (auto simp: related_def only_gets_def split: prod.splits)
  then show ?thesis unfolding read_commit_object_def unlogged_source_def Source commit_source.case
    by (intro gets.related_ebind gets.related_ecatch gets.related_elift gets.related_eret)
qed (simp_all add: unlogged_source_def read_commit_object_def gets.related_elift gets.related_eret)

lemma open_request_Inr: "open_request (Some q) (Some t) = Inr (p, u) \<Longrightarrow> p = q \<and> u = t"
  by (auto simp: open_request_def Let_def)

lemma related_opened:
  assumes "related R (f (q, t))" "\<And>z. R z z"
  shows "related R (ebind (elift (open_request (Some q) (Some t))) f)"
proof (cases "open_request (Some q) (Some t)")
  case (Inl e)
  then show ?thesis using assms(2) by (simp add: related_def)
next
  case (Inr x)
  then have "x = (q, t)" using open_request_Inr [of q t] by (cases x) auto
  then show ?thesis using assms(1) Inr by (simp add: related_def)
qed

text \<open>
  Claim C39: whatever the transport, the source of the raw commit and the responses are, and however a reading ends, each request
  it sends is a GET below the requested repository of the API, without redirects and with a bound on the response.
\<close>

theorem reading_sends_only_repository_gets:
  "list_all (repository_get q) (snd (snd (read_github_snapshot_contents (Some q) (Some (logging t)) (unlogged_source source) (w, []))))"
proof -
  have "related (only_gets q) (read_github_snapshot_contents (Some q) (Some (logging t)) (unlogged_source source))"
    unfolding read_github_snapshot_contents_def
  proof (rule related_opened)
    show "related (only_gets q) (case (q, logging t) of (q, t) \<Rightarrow> ebind (read_commit t q) (\<lambda>c.
      ebind (read_commit_object (unlogged_source source) c) (\<lambda>commit. ebind (read_tree t q c) (\<lambda>tree.
      (let blobs = filter is_blob (tc_entries tree); entries = selected_entries q blobs
       in eunless (missing_path q blobs) (snapshot_error ''selected path is missing'')
         (eunless (\<exists>e\<in>set entries. oversized e) (snapshot_error ''blob size exceeds limit'')
         (ebind (read_blobs t q 0 entries) (\<lambda>files. elift (bind_contents q tree commit files)))))))))"
      unfolding prod.case Let_def read_commit_def read_tree_def
      by (intro gets.related_ebind gets.related_elift gets.related_eunless related_get get_bounds related_read_blobs related_source) simp_all
  qed (rule gets.reflexive)
  then have "only_gets q (w, []) (snd (read_github_snapshot_contents (Some q) (Some (logging t)) (unlogged_source source) (w, [])))"
    by (simp add: related_def)
  then show ?thesis by (auto simp: only_gets_def)
qed

end
