(* ===== verification/Spec2Isabelle.thy ===== *)
theory Spec2Isabelle
  imports Json_Injective Datetime_Roundtrip Runtime_Store Repository_Binding Url_Quote
    Publication_Seed Publication_Intent Mock_Github Broker Approval_Signature Authority Actuator Chain
    Controlled_Completion Attempt_Schedule Contract_Checks Observed_Dispatch Github_Reading_Facts
begin

text \<open>
  \<^bold>\<open>The Agent Process Platform.\<close> The program (\<^verbatim>\<open>src/app_contracts\<close>, Python) moves one repository change
  from a request to a published pull request while it trusts neither the agent that proposes the change
  nor a restart between two steps. A process is a row of a SQLite store that walks a fixed workflow
  graph. Its change is staged, verified in isolation, and named by digests of canonical JSON. A human
  signs an approval of one exact intent, a deterministic policy decides, a broker opens one private
  channel, and a durable journal makes the single external call recoverable. Everything an agent does
  is observed in an append-only journal before it happens.

  \<^bold>\<open>Base.\<close>
  \<^item> \<open>Py_Prelude\<close>, \<open>Py_Values\<close>: the exceptions of the program as values (\<open>pyexn\<close>, a class and a message; a
    fallible function returns \<open>pyexn + 'a\<close>), the combinators of guards and early returns, the JSON-shaped
    values that travel in contracts (\<open>pyval\<close>), dictionary access, Python's equality and its string
    operations. A string holds its UTF-8 bytes; lengths and character classes go through \<open>code_points\<close>.
  \<^item> \<open>Py_Datetime\<close>, \<open>Datetime_Roundtrip\<close>: aware datetimes, \<^verbatim>\<open>fromisoformat\<close> and \<^verbatim>\<open>isoformat\<close>; every UTC
    datetime is read back from its rendering.
  \<^item> \<open>Sha256\<close>, \<open>Canonical_Json\<close>, \<open>Json_Injective\<close>: \<^verbatim>\<open>digests.py\<close>. The canonical text of a value determines
    the value up to what JSON identifies (tuples are lists, keys are sorted).
  \<^item> \<open>Json_Decode\<close>, \<open>Json_Roundtrip\<close>: \<^verbatim>\<open>json.loads\<close> with and without the hooks of the code; it reads back what the
    canonical encoder writes.
  \<^item> \<open>Py_Path\<close>: \<^verbatim>\<open>posixpath.normpath\<close> and the parts of a path. \<open>Effect_Relations\<close>: relations that an effect keeps, as
    a locale for any preorder on states.
  \<^item> \<open>Url_Quote\<close>, \<open>Url_Unquote\<close>: the parts of \<^verbatim>\<open>urllib.parse\<close> the keys and the journal use, and that
    unquoting inverts quoting.
  \<^item> \<open>Py_Regex\<close>: \<^verbatim>\<open>re.search\<close> for the patterns of the schemas. The matcher computes end positions; \<open>matches\<close>
    is the relation it decides (\<open>found_iff\<close>).

  \<^bold>\<open>Contracts.\<close>
  \<^item> \<open>Validator\<close>: \<^verbatim>\<open>validator.py\<close>. \<open>validate_schema\<close> checks a schema, \<open>validate_at\<close> an instance, \<open>validate\<close> both.
    \<open>Validator_Facts\<close> gives their meaning without calls, order or messages (\<open>schema_ok\<close>, \<open>conforms\<close>), and
    \<open>Contract_Checks\<close> proves that validation decides it, how deep it recurses, and which side a failure blames.
  \<^item> \<open>Contract_Schemas\<close>: the event and the checkpoint schema of \<^verbatim>\<open>schemas/\<close>, field by field.
  \<^item> \<open>Chain\<close>: \<^verbatim>\<open>chain.py\<close>, the validation of a whole evidence chain.

  \<^bold>\<open>Processes.\<close>
  \<^item> \<open>State_Machine\<close>: \<^verbatim>\<open>state_machine.py\<close>. \<open>Gateway\<close>: \<^verbatim>\<open>gateway.py\<close> over any audit sink (a locale, interpreted on
    the store). \<open>Runtime_Store\<close>: \<^verbatim>\<open>runtime_store.py\<close>; the tables are lists of rows, a transaction that raises
    leaves them as they were, and \<open>advance\<close> is split into the read and the commit between which another
    connection may write, so that the theorems hold for interleaved writers.
  \<^item> \<open>Attempt_Ledger\<close>: \<^verbatim>\<open>r5_attempt_ledger.py\<close>, the no-repeat ledger of worker attempts over the content of its
    file. \<open>Attempt_Schedule\<close> states its contract, a map from attempt IDs to states, and the refinement.

  \<^bold>\<open>Observation.\<close>
  \<^item> \<open>Observation_Store\<close>: \<^verbatim>\<open>observation_store.py\<close>, the journal in memory, the journal in SQLite, opening a file,
    and the gate \<open>run_gated_dispatch\<close> that records a checkpoint and an intent before a side effect.
  \<^item> \<open>Observation_Facts\<close>, \<open>Observation_Journal\<close>: the rows that represent a journal (\<open>db_of\<close>), the invariant
    \<open>obs_ok\<close>, and for each operation that the SQLite journal answers as the one in memory.
  \<^item> \<open>Observation_Gate\<close>: the same over sequences of the calls both journals have (an intent recorded once may be
    refused for different reasons, and without a canonical text the journal in memory keeps its checkpoint),
    reopening, and the locale of the journals that admit an intent once, interpreted on both.
  \<^item> \<open>Observed_Run\<close>, \<open>Observed_Calls\<close>, \<open>Observed_Steps\<close>: \<^verbatim>\<open>observer_runtime.py\<close>. A run with its identifiers and clock,
    its events, and each journaled call: record the intent, dispatch, record the answer. The state is the journal's
    store, the run and the world outside.
  \<^item> \<open>Observed_Facts\<close>, \<open>Observed_Actions\<close>, \<open>Observed_Safety\<close>, \<open>Observed_Programs\<close>, \<open>Observed_Dispatch\<close>: the events of a
    run are admitted in order whatever program of journaled calls runs (\<open>run_program\<close>), a finished run is settled
    and silent, a dispatch follows its stored intent, and a result is passed on only after its record. A program
    nests journaled calls only in the dispatches that reserve their place first (the worker's proposal, the
    composed mock publication); the others are \<open>plainly\<close> dispatches, since the code notes their intent in the run only
    afterwards (\<open>dispatch_sees_old_sequence\<close>). The close of a sandbox runs even when its intent cannot be stored.
  \<^item> \<open>Observed_Sample\<close>: a run that starts and publishes once, computed on the journal in SQLite.

  \<^bold>\<open>Remote snapshots.\<close>
  \<^item> \<open>Secret_Scan\<close>: \<^verbatim>\<open>secret_scan.py\<close>, the rules for credential-shaped bytes and the bounded canary search.
  \<^item> \<open>Git_Objects\<close>, \<open>Github_Tree\<close>, \<open>Github_Snapshot\<close>, \<open>Github_Reading\<close>: \<^verbatim>\<open>github_snapshot.py\<close>. SHA-1 and the identifier of
    a Git object; tree listings and the rebuilding of their objects; the records, the parsing of responses; the
    reading over an injected transport.
  \<^item> \<open>Github_Tree_Facts\<close>, \<open>Github_Reading_Facts\<close>: a listing is accepted exactly when each directory has the object its
    identifier names (\<open>verify_iff\<close>), so that a root identifier determines the listing up to an exhibited collision; what
    a successful reading establishes about the bytes it returns; which requests any reading sends. Without a source of the raw commit, the link from the commit to its tree is the
    API's answer (\<open>commit_answered\<close>).

  \<^bold>\<open>Authority and publication.\<close>
  \<^item> \<open>Publication_Seed\<close>, \<open>Publication_Intent\<close>: \<^verbatim>\<open>publication_seed.py\<close> and the execution records of \<^verbatim>\<open>executor.py\<close>
    it reads: the digest-only seed, the branch checks, the idempotency key, the intent.
  \<^item> \<open>Repository_Binding\<close>, \<open>Approval_Signature\<close>, \<open>Authority\<close>: \<^verbatim>\<open>repository_binding.py\<close>,
    \<^verbatim>\<open>approval_signature.py\<close>, \<^verbatim>\<open>authority.py\<close>: what a signed approval binds, the policy, a decision's life.
  \<^item> \<open>Broker\<close>, \<open>Mock_Github\<close>, \<open>Actuator\<close>: \<^verbatim>\<open>broker.py\<close>, \<^verbatim>\<open>mock_github.py\<close>, \<^verbatim>\<open>actuator.py\<close> and
    \<^verbatim>\<open>github_actuator.py\<close>. A grant opens one channel; a request publishes once per key.
  \<^item> \<open>Publication_Journal\<close>, \<open>Publication\<close>, \<open>Publication_Safety\<close>: \<^verbatim>\<open>publication.py\<close>. The journal of attempts,
    \<open>execute_publication\<close> and \<open>recover_publication\<close>, whose crash points are explicit, and the attempt machine the
    journal refines.
  \<^item> \<open>Publication_Gates\<close>, \<open>Controlled_Publication\<close>: \<^verbatim>\<open>controlled_publication.py\<close>, the gates and the coordinators
    over one world of stores. \<open>Controlled_Safety\<close>, \<open>Controlled_Authority\<close> and \<open>Controlled_Completion\<close> show that
    nothing changes unless each gate passed, that any mixture of runs, crashes and recoveries publishes
    at most once, and that a request every gate clears does complete.

  \<^bold>\<open>Bounds.\<close> No definition needs fuel that could run out on a value of the model. The validator takes the room on
  the interpreter's stack as a number; \<open>validate\<close> uses the nesting of the schema, and
  \<open>validation_depth_bounded\<close> shows that any room of at least that much gives the same answer. A repetition in
  a pattern runs at most as often as the string has characters, since a round that consumes nothing adds no
  end position. The JSON decoder gets two units per character and one more; \<open>fuel_enough\<close> shows that more changes
  nothing. A pattern is parsed with three units per character and three more, each call of the parser
  uses a character or descends one of the three levels of the grammar. SHA-256 is on 32-bit words.

  \<^bold>\<open>What is assumed.\<close> Dictionary keys are strings and there are no floats. Strings bound to SQLite in the process
  store have a UTF-8 encoding, SQLite itself is available there, columns have the storage classes they declare,
  and a SQLite transaction is atomic. Ed25519 verification is a parameter; nothing is assumed of
  SHA-256 beyond its definition, so a claim that a digest binds content is about equal digests. The library's
  check of unusual network locations in \<^verbatim>\<open>urlparse\<close> is a parameter. In the controlled publication the
  observer is the part that runs before a step and the part that runs after it. File system answers
  (existence, modes, ownership, creation) are inputs of the operations that ask.

  \<^bold>\<open>Not modelled.\<close> The processes, sockets, HTTP, Docker, Git and key store adapters (the worker channels, the
  verifier host and its client, the HTTP, archive and Git transports below the snapshot reading, the GitHub App,
  the sandbox, credential sources), whose code is mostly calls of such services; the orchestration of a whole local
  execution (\<^verbatim>\<open>executor.py\<close>, \<^verbatim>\<open>worker_cli.py\<close>, \<^verbatim>\<open>r5_execution.py\<close>), of which only the records other components read are
  here; of \<^verbatim>\<open>observer_runtime.py\<close> the resumption of an existing run and the wrapper classes; the reports and copies of journals; the durable store of
  staged artifacts with its operator tools; the experiment scripts. The manifest lists them one by one.
\<close>

end
